(* ===== verification/Prelude.thy ===== *)
theory Prelude
  imports Main "HOL-Library.Sublist"
begin

text \<open>
  Shared vocabulary of the development: Rust's string and slice operations that the
  modelled code calls, results as sums, list lemmas that several components use, and the
  generic interfaces (locales) that more than one component provides.

  A Rust \<open>str\<close> is modelled as \<open>string\<close>, one \<open>char\<close> per
  Unicode scalar value, restricted to the scalar values below 256.  The code only splits
  strings at ASCII characters and compares them, so the restriction does not merge
  distinct cases.  \<open>char::is_whitespace\<close> is the Unicode property
  White\_Space on that range.
\<close>

named_theorems rust_str \<open>equations of the Rust string operations\<close>
named_theorems store_simps \<open>equations of the keyed stores\<close>

section \<open>Results\<close>

text \<open>\<open>Result<T, E>\<close> is \<open>'e + 't\<close>: \<open>Inl\<close> is \<open>Err\<close>, \<open>Inr\<close> is \<open>Ok\<close>.\<close>

definition is_ok :: "'e + 't \<Rightarrow> bool" where
  "is_ok r = (case r of Inl _ \<Rightarrow> False | Inr _ \<Rightarrow> True)"

lemma is_ok_simps [simp]: "is_ok (Inr x)" "\<not> is_ok (Inl e)"
  by (simp_all add: is_ok_def)

lemma is_ok_iff: "is_ok r \<longleftrightarrow> (\<exists>x. r = Inr x)"
  by (cases r) auto

text \<open>The \<open>?\<close> operator.\<close>

definition and_then :: "'e + 'a \<Rightarrow> ('a \<Rightarrow> 'e + 'b) \<Rightarrow> 'e + 'b" where
  "and_then r f = (case r of Inl e \<Rightarrow> Inl e | Inr x \<Rightarrow> f x)"

lemma and_then_simps [simp]:
  "and_then (Inl e) f = Inl e" "and_then (Inr x) f = f x"
  by (simp_all add: and_then_def)

lemma and_then_Inr_iff: "and_then r f = Inr y \<longleftrightarrow> (\<exists>x. r = Inr x \<and> f x = Inr y)"
  by (cases r) auto

text \<open>\<open>iter().map(f).collect::<Result<Vec<_>, _>>()\<close>: the first error wins.\<close>

fun collect_results :: "('a \<Rightarrow> 'e + 'b) \<Rightarrow> 'a list \<Rightarrow> 'e + 'b list" where
  "collect_results f [] = Inr []"
| "collect_results f (x # xs) =
     and_then (f x) (\<lambda>y. and_then (collect_results f xs) (\<lambda>ys. Inr (y # ys)))"

lemma collect_results_Inr:
  "collect_results f xs = Inr ys \<Longrightarrow> list_all2 (\<lambda>x y. f x = Inr y) xs ys"
  by (induction xs arbitrary: ys) (auto simp: and_then_Inr_iff)

lemma collect_results_in:
  "collect_results f xs = Inr ys \<Longrightarrow> x \<in> set xs \<Longrightarrow> f x = Inr y \<Longrightarrow> y \<in> set ys"
  by (induction xs arbitrary: ys) (auto simp: and_then_Inr_iff)

text \<open>A sequence of early returns: the first stage that gives a value decides.\<close>

definition or_return :: "'a option \<Rightarrow> 'a option \<Rightarrow> 'a option" where
  "or_return a b = (case a of Some r \<Rightarrow> Some r | None \<Rightarrow> b)"

lemma or_return_simps [simp]:
  "or_return (Some r) b = Some r" "or_return None b = b"
  by (simp_all add: or_return_def)

lemma or_return_Some_iff:
  "or_return a b = Some r \<longleftrightarrow> a = Some r \<or> (a = None \<and> b = Some r)"
  by (cases a) auto

section \<open>Strings\<close>

definition is_ws :: "char \<Rightarrow> bool" where
  "is_ws c = (let n = (of_char c :: nat)
              in (9 \<le> n \<and> n \<le> 13) \<or> n = 32 \<or> n = 133 \<or> n = 160)"

definition trim_start :: "string \<Rightarrow> string" where
  "trim_start s = dropWhile is_ws s"

definition trim_end :: "string \<Rightarrow> string" where
  "trim_end s = rev (dropWhile is_ws (rev s))"

definition str_trim :: "string \<Rightarrow> string" where
  "str_trim s = trim_end (trim_start s)"

definition trimmed :: "string \<Rightarrow> bool" where
  "trimmed s \<longleftrightarrow> s = [] \<or> (\<not> is_ws (hd s) \<and> \<not> is_ws (last s))"

lemma dropWhile_id: "xs = [] \<or> \<not> P (hd xs) \<Longrightarrow> dropWhile P xs = xs"
  by (cases xs) auto

lemma str_trim_trimmed [simp]: "trimmed s \<Longrightarrow> str_trim s = s"
  by (auto simp: str_trim_def trim_start_def trim_end_def trimmed_def dropWhile_id hd_rev)

lemma str_trim_Nil [simp]: "str_trim [] = []"
  by (simp add: str_trim_def trim_start_def trim_end_def)

lemma trimmed_Nil [simp]: "trimmed []"
  by (simp add: trimmed_def)

lemma str_trim_no_ws: "\<forall>c \<in> set s. \<not> is_ws c \<Longrightarrow> str_trim s = s"
  by (rule str_trim_trimmed) (auto simp: trimmed_def)

text \<open>\<open>str::starts_with\<close>, \<open>str::ends_with\<close>, \<open>str::strip_suffix\<close>, \<open>str::strip_prefix\<close>.\<close>

definition starts_with :: "string \<Rightarrow> string \<Rightarrow> bool" where
  "starts_with s p = (take (length p) s = p)"

definition ends_with :: "string \<Rightarrow> string \<Rightarrow> bool" where
  "ends_with s p = (length p \<le> length s \<and> drop (length s - length p) s = p)"

definition strip_suffix :: "string \<Rightarrow> string \<Rightarrow> string option" where
  "strip_suffix s p =
     (if ends_with s p then Some (take (length s - length p) s) else None)"

definition strip_prefix :: "string \<Rightarrow> string \<Rightarrow> string option" where
  "strip_prefix s p = (if starts_with s p then Some (drop (length p) s) else None)"

lemma starts_with_iff: "starts_with s p \<longleftrightarrow> (\<exists>t. s = p @ t)"
  by (metis starts_with_def append_eq_conv_conj)

lemma starts_with_append [simp]: "starts_with (p @ t) p"
  by (simp add: starts_with_def)

lemma ends_with_iff: "ends_with s p \<longleftrightarrow> (\<exists>t. s = t @ p)"
  by (auto simp: ends_with_def) (metis append_take_drop_id)

lemma strip_suffix_Some: "strip_suffix s p = Some t \<longleftrightarrow> s = t @ p"
  by (auto simp: strip_suffix_def ends_with_iff)

lemma strip_suffix_append [simp]: "strip_suffix (t @ p) p = Some t"
  by (simp add: strip_suffix_Some)

lemma strip_prefix_Some: "strip_prefix s p = Some t \<longleftrightarrow> s = p @ t"
  by (auto simp: strip_prefix_def starts_with_iff starts_with_def)

text \<open>\<open>str::find(char)\<close>, \<open>str::rfind(char)\<close>: the index of the first and last occurrence.\<close>

definition str_find :: "char \<Rightarrow> string \<Rightarrow> nat option" where
  "str_find c s = (if c \<in> set s then Some (length (takeWhile (\<lambda>x. x \<noteq> c) s)) else None)"

definition str_rfind :: "char \<Rightarrow> string \<Rightarrow> nat option" where
  "str_rfind c s =
     (if c \<in> set s then Some (length s - 1 - length (takeWhile (\<lambda>x. x \<noteq> c) (rev s)))
      else None)"

lemma takeWhile_first: "c \<notin> set xs \<Longrightarrow> takeWhile (\<lambda>x. x \<noteq> c) (xs @ c # ys) = xs"
  by (induction xs) auto

lemma str_find_first: "c \<notin> set xs \<Longrightarrow> str_find c (xs @ c # ys) = Some (length xs)"
  by (simp add: str_find_def takeWhile_first)

lemma str_find_None [simp]: "c \<notin> set s \<Longrightarrow> str_find c s = None"
  by (simp add: str_find_def)

lemma str_rfind_snoc: "str_rfind c (xs @ [c]) = Some (length xs)"
  by (simp add: str_rfind_def)

text \<open>\<open>str::contains(&str)\<close>.\<close>

definition str_contains :: "string \<Rightarrow> string \<Rightarrow> bool" where
  "str_contains s p = sublist p s"

text \<open>\<open>to_ascii_lowercase\<close>, on one character and on a string.\<close>

definition ascii_lower :: "char \<Rightarrow> char" where
  "ascii_lower c = (let n = (of_char c :: nat)
     in if 65 \<le> n \<and> n \<le> 90 then char_of (n + 32) else c)"

text \<open>\<open>str::to_lowercase\<close> on the scalar values below 256.\<close>

definition char_lower :: "char \<Rightarrow> char" where
  "char_lower c = (let n = (of_char c :: nat)
     in if (65 \<le> n \<and> n \<le> 90) \<or> (192 \<le> n \<and> n \<le> 222 \<and> n \<noteq> 215) then char_of (n + 32) else c)"

definition str_lower :: "string \<Rightarrow> string" where
  "str_lower s = map char_lower s"

text \<open>\<open>str::split(char)\<close>.\<close>

fun split_on :: "char \<Rightarrow> string \<Rightarrow> string list" where
  "split_on c [] = [[]]"
| "split_on c (x # xs) = (if x = c then [] # split_on c xs else
     (case split_on c xs of [] \<Rightarrow> [[x]] | y # ys \<Rightarrow> (x # y) # ys))"

text \<open>\<open>slice::join(sep)\<close>.\<close>

fun str_join :: "string \<Rightarrow> string list \<Rightarrow> string" where
  "str_join sep [] = []"
| "str_join sep [x] = x"
| "str_join sep (x # y # zs) = x @ sep @ str_join sep (y # zs)"

text \<open>Decimal rendering of a machine integer, as \<open>format!\<close> prints it.\<close>

fun show_nat :: "nat \<Rightarrow> string" where
  "show_nat n = (if n < 10 then [char_of (48 + n)]
                 else show_nat (n div 10) @ [char_of (48 + n mod 10)])"

declare show_nat.simps [simp del]

section \<open>Lists\<close>

lemma find_Some_iff2:
  "List.find P xs = Some x \<Longrightarrow> P x \<and> x \<in> set xs"
  by (auto simp: find_Some_iff)

lemma find_append: "List.find P (xs @ ys) = (case List.find P xs of None \<Rightarrow> List.find P ys | Some x \<Rightarrow> Some x)"
  by (induction xs) auto

lemma find_skip: "\<not> P x \<Longrightarrow> List.find P (xs @ x # ys) = List.find P (xs @ ys)"
  by (induction xs) auto

lemma find_is_none: "List.find P xs = None \<longleftrightarrow> (\<forall>x \<in> set xs. \<not> P x)"
  by (auto simp: find_None_iff)

lemma find_ex: "(\<exists>x \<in> set xs. P x) \<longleftrightarrow> (\<exists>x. List.find P xs = Some x)"
  using find_is_none [of P xs] by (cases "List.find P xs") auto

text \<open>Keeping the last \<open>n\<close> elements: what popping the front of a queue while it is too long leaves.\<close>

definition keep_last :: "nat \<Rightarrow> 'a list \<Rightarrow> 'a list" where
  "keep_last n xs = drop (length xs - n) xs"

lemma length_keep_last [simp]: "length (keep_last n xs) = min n (length xs)"
  by (simp add: keep_last_def)

lemma keep_last_short [simp]: "length xs \<le> n \<Longrightarrow> keep_last n xs = xs"
  by (simp add: keep_last_def)

lemma keep_last_snoc:
  "keep_last (Suc n) (xs @ [x]) = keep_last n xs @ [x]"
  by (simp add: keep_last_def)

lemma keep_last_append: "n \<le> length ys \<Longrightarrow> keep_last n (xs @ ys) = keep_last n ys"
  by (simp add: keep_last_def)

lemma keep_last_suffix: "\<exists>us. us @ keep_last n xs = xs"
  unfolding keep_last_def by (metis append_take_drop_id)

section \<open>Runs of operations\<close>

text \<open>A component's operations as one function from an operation and a state to the next state,
  \<open>None\<close> when the operation panics, run over a list of operations.\<close>

fun run_steps :: "('o \<Rightarrow> 's \<Rightarrow> 's option) \<Rightarrow> 'o list \<Rightarrow> 's \<Rightarrow> 's option" where
  "run_steps step [] s = Some s"
| "run_steps step (x # xs) s = (case step x s of None \<Rightarrow> None | Some s' \<Rightarrow> run_steps step xs s')"

lemma run_steps_append: "run_steps step (xs @ ys) s =
    (case run_steps step xs s of None \<Rightarrow> None | Some s' \<Rightarrow> run_steps step ys s')"
  by (induction xs arbitrary: s) (auto split: option.split)

text \<open>The contract: every allowed operation keeps the invariant.\<close>

locale machine =
  fixes step :: "'o \<Rightarrow> 's \<Rightarrow> 's option"
    and ok :: "'o \<Rightarrow> bool"
    and inv :: "'s \<Rightarrow> bool"
  assumes step_inv: "inv s \<Longrightarrow> ok x \<Longrightarrow> step x s = Some s' \<Longrightarrow> inv s'"
begin

lemma run_inv: "inv s \<Longrightarrow> \<forall>x \<in> set xs. ok x \<Longrightarrow> run_steps step xs s = Some s' \<Longrightarrow> inv s'"
  by (induction xs arbitrary: s) (auto split: option.splits intro: step_inv)

end

text \<open>A machine that never panics on an allowed operation.\<close>

locale total_machine = machine +
  assumes step_total: "inv s \<Longrightarrow> ok x \<Longrightarrow> step x s \<noteq> None"
begin

lemma run_total: "inv s \<Longrightarrow> \<forall>x \<in> set xs. ok x \<Longrightarrow> \<exists>s'. run_steps step xs s = Some s' \<and> inv s'"
proof (induction xs arbitrary: s)
  case (Cons x xs)
  then obtain s' where s': "step x s = Some s'" using step_total [of s x] by auto
  then have "inv s'" using Cons.prems step_inv [of s x s'] by simp
  then show ?case using Cons s' by simp
qed simp

end

end
