(* ===== verification/PermTypes.thy ===== *)
theory PermTypes
  imports Prelude
begin

text \<open>
  The permission vocabulary of \<open>y-core/src/permission_types.rs\<close>: behaviours, rule
  targets and their matching, rule sources with their precedence, rules, modes, and the
  result and context records that the permission pipeline passes around.  The JSON value a
  tool may return as rewritten input is opaque to this code and is the type parameter
  \<open>'v\<close>.
\<close>

section \<open>Behaviours, targets, sources, rules\<close>

datatype permission_behavior = PbAllow | PbNotify | PbPassthrough | PbAsk | PbDeny

record permission_rule_target =
  tg_tool_name :: string
  tg_content_pattern :: "string option"

definition target_tool :: "string \<Rightarrow> permission_rule_target" where
  "target_tool name = \<lparr>tg_tool_name = name, tg_content_pattern = None\<rparr>"

definition target_with_pattern :: "string \<Rightarrow> string \<Rightarrow> permission_rule_target" where
  "target_with_pattern name pattern = \<lparr>tg_tool_name = name, tg_content_pattern = Some pattern\<rparr>"

definition matches_tool :: "permission_rule_target \<Rightarrow> string \<Rightarrow> bool" where
  "matches_tool t tool = (tg_tool_name t = tool \<and> tg_content_pattern t = None)"

definition match_content_pattern :: "string \<Rightarrow> string \<Rightarrow> bool" where
  "match_content_pattern pattern content =
     (if pattern = ''*'' then True
      else case strip_suffix pattern '':*'' of
             Some pre \<Rightarrow> starts_with content pre
           | None \<Rightarrow> pattern = content)"

definition target_matches :: "permission_rule_target \<Rightarrow> string \<Rightarrow> string option \<Rightarrow> bool" where
  "target_matches t tool content =
     (if tg_tool_name t \<noteq> tool then False
      else case tg_content_pattern t of
             None \<Rightarrow> True
           | Some pattern \<Rightarrow>
               (case content of
                  None \<Rightarrow> False
                | Some c \<Rightarrow> match_content_pattern pattern c))"

definition to_rule_string :: "permission_rule_target \<Rightarrow> string" where
  "to_rule_string t = (case tg_content_pattern t of
      None \<Rightarrow> tg_tool_name t
    | Some pattern \<Rightarrow> tg_tool_name t @ ''('' @ pattern @ '')'')"

datatype permission_rule_source =
  GlobalSettings | ProjectSettings | CliArg | SessionSource | AgentConfig

fun is_persistable :: "permission_rule_source \<Rightarrow> bool" where
  "is_persistable GlobalSettings = True"
| "is_persistable ProjectSettings = True"
| "is_persistable _ = False"

fun precedence :: "permission_rule_source \<Rightarrow> nat" where
  "precedence SessionSource = 0"
| "precedence CliArg = 1"
| "precedence ProjectSettings = 2"
| "precedence GlobalSettings = 3"
| "precedence AgentConfig = 4"

record permission_rule =
  rl_source :: permission_rule_source
  rl_behavior :: permission_behavior
  rl_target :: permission_rule_target

definition new_rule ::
  "permission_rule_source \<Rightarrow> permission_behavior \<Rightarrow> permission_rule_target \<Rightarrow> permission_rule" where
  "new_rule src b t = \<lparr>rl_source = src, rl_behavior = b, rl_target = t\<rparr>"

text \<open>The derived \<open>Debug\<close> names, used by the rule's \<open>Display\<close>.\<close>

fun debug_behavior :: "permission_behavior \<Rightarrow> string" where
  "debug_behavior PbAllow = ''Allow''"
| "debug_behavior PbNotify = ''Notify''"
| "debug_behavior PbPassthrough = ''Passthrough''"
| "debug_behavior PbAsk = ''Ask''"
| "debug_behavior PbDeny = ''Deny''"

fun debug_source :: "permission_rule_source \<Rightarrow> string" where
  "debug_source GlobalSettings = ''GlobalSettings''"
| "debug_source ProjectSettings = ''ProjectSettings''"
| "debug_source CliArg = ''CliArg''"
| "debug_source SessionSource = ''Session''"
| "debug_source AgentConfig = ''AgentConfig''"

definition rule_display :: "permission_rule \<Rightarrow> string" where
  "rule_display r = debug_behavior (rl_behavior r) @ ''('' @ debug_source (rl_source r)
     @ '') -> '' @ to_rule_string (rl_target r)"

section \<open>Modes, reasons, results, contexts\<close>

datatype permission_mode =
  MDefault | MPlan | MAcceptEdits | MBypassPermissions | MDontAsk

fun mode_display :: "permission_mode \<Rightarrow> string" where
  "mode_display MDefault = ''default''"
| "mode_display MPlan = ''plan''"
| "mode_display MAcceptEdits = ''accept_edits''"
| "mode_display MBypassPermissions = ''bypass_permissions''"
| "mode_display MDontAsk = ''dont_ask''"

datatype permission_reason =
  RRule string
| RToolCheck string
| RMode string
| RDangerousAutoAsk string
| RSafetyCheck string
| RGlobalDefault

record 'v permission_result =
  pr_behavior :: permission_behavior
  pr_reason :: permission_reason
  pr_message :: "string option"
  pr_updated_input :: "'v option"

definition pr_passthrough :: "'v permission_result" where
  "pr_passthrough = \<lparr>pr_behavior = PbPassthrough,
     pr_reason = RToolCheck ''tool defers to general permission system'',
     pr_message = None, pr_updated_input = None\<rparr>"

definition pr_allow :: "string \<Rightarrow> 'v permission_result" where
  "pr_allow detail = \<lparr>pr_behavior = PbAllow, pr_reason = RToolCheck detail,
     pr_message = None, pr_updated_input = None\<rparr>"

definition pr_notify :: "string \<Rightarrow> 'v permission_result" where
  "pr_notify detail = \<lparr>pr_behavior = PbNotify, pr_reason = RToolCheck detail,
     pr_message = None, pr_updated_input = None\<rparr>"

definition pr_deny :: "string \<Rightarrow> string \<Rightarrow> 'v permission_result" where
  "pr_deny detail message = \<lparr>pr_behavior = PbDeny, pr_reason = RToolCheck detail,
     pr_message = Some message, pr_updated_input = None\<rparr>"

definition pr_ask :: "string \<Rightarrow> string \<Rightarrow> 'v permission_result" where
  "pr_ask detail message = \<lparr>pr_behavior = PbAsk, pr_reason = RToolCheck detail,
     pr_message = Some message, pr_updated_input = None\<rparr>"

record permission_context =
  cx_mode :: permission_mode
  cx_rules :: "permission_rule list"
  cx_additional_directories :: "string list"
  cx_default_behavior :: permission_behavior
  cx_dangerous_auto_ask :: bool

definition default_context :: permission_context where
  "default_context = \<lparr>cx_mode = MDefault, cx_rules = [], cx_additional_directories = [],
     cx_default_behavior = PbPassthrough, cx_dangerous_auto_ask = True\<rparr>"

record permission_update =
  up_destination :: permission_rule_source
  up_target :: permission_rule_target
  up_behavior :: permission_behavior

section \<open>Facts\<close>

lemma precedence_inj: "precedence a = precedence b \<Longrightarrow> a = b"
  by (cases a; cases b) simp_all

lemma precedence_le_4: "precedence a \<le> 4"
  by (cases a) simp_all

lemma match_prefix_pattern: "match_content_pattern (p @ '':*'') c \<longleftrightarrow> starts_with c p"
proof (cases "p @ '':*'' = ''*''")
  case True
  then show ?thesis by (cases p) auto
next
  case False
  then show ?thesis by (simp add: match_content_pattern_def)
qed

lemma match_star [simp]: "match_content_pattern ''*'' c"
  by (simp add: match_content_pattern_def)

lemma match_exact: "\<not> ends_with p '':*'' \<Longrightarrow> p \<noteq> ''*'' \<Longrightarrow> match_content_pattern p c \<longleftrightarrow> p = c"
  by (auto simp: match_content_pattern_def strip_suffix_def)

lemma target_matches_tool_level:
  "tg_content_pattern t = None \<Longrightarrow> target_matches t tool c \<longleftrightarrow> tg_tool_name t = tool"
  by (simp add: target_matches_def)

lemma target_matches_name: "target_matches t tool c \<Longrightarrow> tg_tool_name t = tool"
  by (simp add: target_matches_def split: if_splits)

end
