(* ===== verification/ExecPolicy.thy ===== *)
theory ExecPolicy
  imports Prelude "HOL-Library.DAList"
begin

text \<open>
  The exec-policy engine of \<open>y-guardrails/src/exec_policy\<close>: decisions
  (\<open>decision.rs\<close>), prefix rules (\<open>rule.rs\<close>), the indexed policy and its
  strictest-wins evaluation (\<open>policy.rs\<close>), the builder behind the Starlark builtin
  (\<open>parser.rs\<close>), amendments (\<open>amend.rs\<close>) and the manager (\<open>manager.rs\<close>).

  The \<open>multimap\<close> crate, the Starlark evaluator and \<open>serde_json\<close> are not
  part of the repository.  They are parameters: the record \<open>multimap_ops\<close> with the
  documented laws \<open>multimap_laws\<close>, the function \<open>eval_module\<close> that lists the
  \<open>prefix_rule\<close> calls a module makes, and \<open>json_string\<close>.
\<close>

section \<open>Decisions\<close>

datatype exec_decision = EdAllow | EdAsk | EdDeny

fun ed_rank :: "exec_decision \<Rightarrow> nat" where
  "ed_rank EdAllow = 0"
| "ed_rank EdAsk = 1"
| "ed_rank EdDeny = 2"

lemma ed_rank_inj: "ed_rank a = ed_rank b \<longleftrightarrow> a = b"
  by (cases a; cases b) simp_all

text \<open>The derived \<open>Ord\<close>: \<open>Allow < Ask < Deny\<close>.\<close>

instantiation exec_decision :: linorder
begin

definition less_eq_exec_decision :: "exec_decision \<Rightarrow> exec_decision \<Rightarrow> bool" where
  "a \<le> b \<longleftrightarrow> ed_rank a \<le> ed_rank b"

definition less_exec_decision :: "exec_decision \<Rightarrow> exec_decision \<Rightarrow> bool" where
  "a < b \<longleftrightarrow> ed_rank a < ed_rank b"

instance
  by standard (auto simp: less_eq_exec_decision_def less_exec_decision_def ed_rank_inj)

end

lemmas ed_ord = less_eq_exec_decision_def less_exec_decision_def

lemma EdAllow_least [simp]: "EdAllow \<le> d" and EdDeny_greatest [simp]: "d \<le> EdDeny"
  by (cases d; simp add: ed_ord)+

lemma max_EdAllow [simp]: "max EdAllow d = d" "max d EdAllow = d"
  by (simp_all add: max_def antisym)

lemma max_EdDeny [simp]: "max EdDeny d = EdDeny" "max d EdDeny = EdDeny"
  by (simp_all add: max_def antisym)

text \<open>Errors.  The text inside \<open>InvalidRule\<close> is kept structured: a message, or another
  error with the call's location in front of it.\<close>

datatype anyhow_error = AnyMsg string | AnyInvalidDecision string | AnyStarlark string

datatype exec_policy_error =
  EStarlark anyhow_error
| EInvalidDecision string
| EInvalidRule rule_error_text
| EMatchExampleFailed "string list"
| ENotMatchExampleFailed "string list"
| EIo string
| ELock string
| EMissingParent string
and rule_error_text = RuleMsg string | RuleAt string exec_policy_error

definition decision_parse :: "string \<Rightarrow> exec_policy_error + exec_decision" where
  "decision_parse raw =
     (if raw = ''allow'' then Inr EdAllow
      else if raw = ''ask'' \<or> raw = ''prompt'' then Inr EdAsk
      else if raw = ''deny'' \<or> raw = ''forbidden'' then Inr EdDeny
      else Inl (EInvalidDecision raw))"

fun as_policy_string :: "exec_decision \<Rightarrow> string" where
  "as_policy_string EdAllow = ''allow''"
| "as_policy_string EdAsk = ''ask''"
| "as_policy_string EdDeny = ''deny''"

lemma decision_parse_print [simp]: "decision_parse (as_policy_string d) = Inr d"
  by (cases d) (simp_all add: decision_parse_def)

section \<open>Rules\<close>

datatype pattern_token = Single string | Alts "string list"

fun token_matches :: "pattern_token \<Rightarrow> string \<Rightarrow> bool" where
  "token_matches (Single expected) token = (expected = token)"
| "token_matches (Alts alternatives) token = list_ex (\<lambda>alt. alt = token) alternatives"

fun alternatives :: "pattern_token \<Rightarrow> string list" where
  "alternatives (Single expected) = [expected]"
| "alternatives (Alts alts) = alts"

lemma token_matches_iff: "token_matches p t \<longleftrightarrow> t \<in> set (alternatives p)"
  by (cases p) (auto simp: list_ex_iff)

record prefix_pattern =
  pp_first :: string
  pp_rest :: "pattern_token list"

definition pattern_len :: "prefix_pattern \<Rightarrow> nat" where
  "pattern_len p = length (pp_rest p) + 1"

definition matches_prefix :: "prefix_pattern \<Rightarrow> string list \<Rightarrow> string list option" where
  "matches_prefix p cmd =
     (let n = length (pp_rest p) + 1
      in if length cmd < n \<or> cmd ! 0 \<noteq> pp_first p then None
         else if list_all (\<lambda>(pt, t). token_matches pt t)
                   (zip (pp_rest p) (take (n - 1) (drop 1 cmd)))
              then Some (take n cmd)
              else None)"

record prefix_rule =
  px_pattern :: prefix_pattern
  px_decision :: exec_decision
  px_justification :: "string option"

record rule_match =
  rm_matched_prefix :: "string list"
  rm_decision :: exec_decision
  rm_justification :: "string option"

definition rule_program :: "prefix_rule \<Rightarrow> string" where
  "rule_program r = pp_first (px_pattern r)"

definition rule_matches :: "prefix_rule \<Rightarrow> string list \<Rightarrow> rule_match option" where
  "rule_matches r cmd = map_option
     (\<lambda>mp. \<lparr>rm_matched_prefix = mp, rm_decision = px_decision r,
            rm_justification = px_justification r\<rparr>)
     (matches_prefix (px_pattern r) cmd)"

text \<open>Characterisation of the match, and that it looks at a prefix only.\<close>

lemma matches_prefix_iff:
  "matches_prefix p cmd = Some mp \<longleftrightarrow>
     (\<exists>ts rest. cmd = pp_first p # ts @ rest \<and> mp = pp_first p # ts \<and>
        list_all2 token_matches (pp_rest p) ts)"
proof
  assume "matches_prefix p cmd = Some mp"
  then have len: "length (pp_rest p) < length cmd" and hd: "cmd ! 0 = pp_first p"
    and toks: "\<forall>(a, b) \<in> set (zip (pp_rest p) (take (length (pp_rest p)) (drop 1 cmd))). token_matches a b"
    and mp: "mp = take (Suc (length (pp_rest p))) cmd"
    by (auto simp: matches_prefix_def Let_def list_all_iff split: if_splits)
  from len obtain c cs where cmd: "cmd = c # cs" by (cases cmd) auto
  let ?ts = "take (length (pp_rest p)) cs"
  have "list_all2 token_matches (pp_rest p) ?ts"
    using len toks by (simp add: cmd list_all2_iff)
  moreover have "cmd = pp_first p # ?ts @ drop (length (pp_rest p)) cs" using hd cmd by simp
  moreover have "mp = pp_first p # ?ts" using mp hd cmd by simp
  ultimately show "\<exists>ts rest. cmd = pp_first p # ts @ rest \<and> mp = pp_first p # ts \<and>
        list_all2 token_matches (pp_rest p) ts" by blast
next
  assume "\<exists>ts rest. cmd = pp_first p # ts @ rest \<and> mp = pp_first p # ts \<and>
        list_all2 token_matches (pp_rest p) ts"
  then show "matches_prefix p cmd = Some mp"
    by (auto simp: matches_prefix_def Let_def list_all2_iff list_all_iff)
qed

lemma rule_matches_program:
  "rule_matches r cmd = Some m \<Longrightarrow> cmd \<noteq> [] \<and> hd cmd = rule_program r"
  by (auto simp: rule_matches_def rule_program_def matches_prefix_iff)

lemma rule_matches_decision:
  "rule_matches r cmd = Some m \<Longrightarrow> rm_decision m = px_decision r \<and> rm_justification m = px_justification r"
  by (auto simp: rule_matches_def)

lemma rule_matches_extend:
  "rule_matches r cmd = Some m \<Longrightarrow> rule_matches r (cmd @ args) = Some m"
  by (fastforce simp: rule_matches_def matches_prefix_iff)

section \<open>The indexed policy\<close>

text \<open>
  The operations of the \<open>multimap\<close> crate the code calls, as a record of functions, and
  what its documentation says of them: \<open>get_vec\<close> after \<open>insert\<close> sees the value
  appended under its key, and iterating a \<open>&MultiMap\<close> yields every key once, with its
  whole vector.
\<close>

record 'm multimap_ops =
  mm_new :: 'm
  mm_insert :: "'m \<Rightarrow> string \<Rightarrow> prefix_rule \<Rightarrow> 'm"
  mm_get_vec :: "'m \<Rightarrow> string \<Rightarrow> prefix_rule list option"
  mm_iter :: "'m \<Rightarrow> (string \<times> prefix_rule list) list"

definition multimap_laws :: "'m multimap_ops \<Rightarrow> bool" where
  "multimap_laws ops \<longleftrightarrow>
     (\<forall>k. mm_get_vec ops (mm_new ops) k = None) \<and>
     (\<forall>m k v k'. mm_get_vec ops (mm_insert ops m k v) k' =
        (if k' = k then Some ((case mm_get_vec ops m k of None \<Rightarrow> [] | Some vs \<Rightarrow> vs) @ [v])
         else mm_get_vec ops m k')) \<and>
     (\<forall>m. map_of (mm_iter ops m) = mm_get_vec ops m) \<and>
     (\<forall>m. distinct (map fst (mm_iter ops m)))"

text \<open>A policy is its multimap \<open>rules_by_program\<close>.\<close>

record 'm policy =
  rules_by_program :: 'm

definition from_rules :: "'m multimap_ops \<Rightarrow> prefix_rule list \<Rightarrow> 'm policy" where
  "from_rules ops rules =
     \<lparr>rules_by_program = foldl (\<lambda>m r. mm_insert ops m (rule_program r) r) (mm_new ops) rules\<rparr>"

definition matches_for_command ::
  "'m multimap_ops \<Rightarrow> 'm policy \<Rightarrow> string list \<Rightarrow> rule_match list" where
  "matches_for_command ops p cmd =
     (case cmd of
        [] \<Rightarrow> []
      | first # _ \<Rightarrow>
          (case mm_get_vec ops (rules_by_program p) first of
             None \<Rightarrow> []
           | Some rules \<Rightarrow> List.map_filter (\<lambda>r. rule_matches r cmd) rules))"

definition has_match :: "'m multimap_ops \<Rightarrow> 'm policy \<Rightarrow> string list \<Rightarrow> bool" where
  "has_match ops p cmd = (matches_for_command ops p cmd \<noteq> [])"

record evaluation =
  ev_decision :: exec_decision
  ev_matches :: "rule_match list"

text \<open>\<open>matches.iter().map(decision).max().unwrap_or(Allow)\<close>.\<close>

definition from_matches :: "rule_match list \<Rightarrow> evaluation" where
  "from_matches ms =
     \<lparr>ev_decision = (case map rm_decision ms of [] \<Rightarrow> EdAllow | d # ds \<Rightarrow> foldl max d ds),
      ev_matches = ms\<rparr>"

definition determining_justification :: "evaluation \<Rightarrow> string option" where
  "determining_justification e =
     (case List.map_filter rm_justification
             (filter (\<lambda>m. rm_decision m = ev_decision e) (ev_matches e)) of
        [] \<Rightarrow> None
      | j # _ \<Rightarrow> Some j)"

definition policy_evaluate ::
  "'m multimap_ops \<Rightarrow> 'm policy \<Rightarrow> string list \<Rightarrow> evaluation option" where
  "policy_evaluate ops p cmd =
     (let ms = matches_for_command ops p cmd
      in if ms = [] then None else Some (from_matches ms))"

definition merge_overlay ::
  "'m multimap_ops \<Rightarrow> 'm policy \<Rightarrow> 'm policy \<Rightarrow> 'm policy" where
  "merge_overlay ops p overlay =
     \<lparr>rules_by_program =
        foldl (\<lambda>m (key, rules). foldl (\<lambda>m r. mm_insert ops m key r) m rules)
          (rules_by_program p) (mm_iter ops (rules_by_program overlay))\<rparr>"

fun validate_match_examples ::
  "'m multimap_ops \<Rightarrow> 'm policy \<Rightarrow> string list list \<Rightarrow> exec_policy_error + unit" where
  "validate_match_examples ops p [] = Inr ()"
| "validate_match_examples ops p (example # es) =
     (if \<not> has_match ops p example then Inl (EMatchExampleFailed example)
      else validate_match_examples ops p es)"

fun validate_not_match_examples ::
  "'m multimap_ops \<Rightarrow> 'm policy \<Rightarrow> string list list \<Rightarrow> exec_policy_error + unit" where
  "validate_not_match_examples ops p [] = Inr ()"
| "validate_not_match_examples ops p (example # es) =
     (if has_match ops p example then Inl (ENotMatchExampleFailed example)
      else validate_not_match_examples ops p es)"

text \<open>\<open>map.entry(k).or_default().push(v)\<close> on an insertion-ordered map, as the builder and
  \<open>prefix_rules_by_program\<close> use it.\<close>

fun entry_push :: "(string \<times> prefix_rule list) list \<Rightarrow> string \<Rightarrow> prefix_rule \<Rightarrow>
    (string \<times> prefix_rule list) list" where
  "entry_push [] k v = [(k, [v])]"
| "entry_push ((k', vs) # m) k v =
     (if k' = k then (k', vs @ [v]) # m else (k', vs) # entry_push m k v)"

definition prefix_rules_by_program :: "prefix_rule list \<Rightarrow> (string \<times> prefix_rule list) list" where
  "prefix_rules_by_program rules = foldl (\<lambda>m r. entry_push m (rule_program r) r) [] rules"

section \<open>Facts about the index\<close>

lemma entry_push_get:
  "map_of (entry_push m k v) k' =
     (if k' = k then Some ((case map_of m k of None \<Rightarrow> [] | Some vs \<Rightarrow> vs) @ [v]) else map_of m k')"
  by (induction m k v rule: entry_push.induct) auto

lemma entry_push_keys: "set (map fst (entry_push m k v)) = insert k (set (map fst m))"
  by (induction m k v rule: entry_push.induct) auto

lemma entry_push_distinct: "distinct (map fst m) \<Longrightarrow> distinct (map fst (entry_push m k v))"
proof (induction m k v rule: entry_push.induct)
  case (2 k' vs m k v)
  then show ?case using entry_push_keys [of m k v] by auto
qed simp

text \<open>The contract of the multimap, and what the policy operations do under it.\<close>

lemma foldl_max_le: "(d::exec_decision) \<le> foldl max d ds"
  by (induction ds arbitrary: d) (simp, metis foldl_Cons max.bounded_iff)

lemma foldl_max_upper: "x \<in> set ds \<Longrightarrow> (x::exec_decision) \<le> foldl max d ds"
proof (induction ds arbitrary: d)
  case (Cons a ds)
  then show ?case
    using foldl_max_le [of "max d x" ds] by (auto simp: max.bounded_iff)
qed simp

lemma foldl_max_in: "foldl max d ds = (d::exec_decision) \<or> foldl max d ds \<in> set ds"
proof (induction ds arbitrary: d)
  case (Cons a ds)
  show ?case using Cons.IH [of "max d a"] by (auto simp: max_def split: if_splits)
qed simp

definition strictest :: "exec_decision set \<Rightarrow> exec_decision option" where
  "strictest D = (if D = {} then None
     else Some (if EdDeny \<in> D then EdDeny else if EdAsk \<in> D then EdAsk else EdAllow))"

lemma strictest_eqI:
  "d \<in> D \<Longrightarrow> (\<And>x. x \<in> D \<Longrightarrow> x \<le> d) \<Longrightarrow> strictest D = Some d"
  by (cases d) (force simp: strictest_def ed_ord)+

lemma from_matches_strictest:
  "ms \<noteq> [] \<Longrightarrow> strictest (rm_decision ` set ms) = Some (ev_decision (from_matches ms))"
proof (cases ms)
  case (Cons m ms')
  let ?d = "foldl max (rm_decision m) (map rm_decision ms')"
  have "strictest (rm_decision ` set ms) = Some ?d"
  proof (rule strictest_eqI)
    show "?d \<in> rm_decision ` set ms"
      using foldl_max_in [of "rm_decision m" "map rm_decision ms'"] Cons by auto
    fix x assume "x \<in> rm_decision ` set ms"
    then show "x \<le> ?d"
      using Cons foldl_max_le foldl_max_upper [of x "map rm_decision ms'"] by auto
  qed
  then show ?thesis by (simp add: from_matches_def Cons)
qed simp

lemma map_filter_append [simp]:
  "List.map_filter f (xs @ ys) = List.map_filter f xs @ List.map_filter f ys"
  by (simp add: List.map_filter_def)

lemma set_map_filter_eq: "set (List.map_filter f xs) = {y. \<exists>x \<in> set xs. f x = Some y}"
  by (force simp: List.map_filter_def)

locale multimap =
  fixes ops :: "'m multimap_ops"
  assumes laws: "multimap_laws ops"
begin

lemma get_new: "mm_get_vec ops (mm_new ops) k = None"
  using laws by (simp add: multimap_laws_def)

lemma get_insert: "mm_get_vec ops (mm_insert ops m k v) k' =
   (if k' = k then Some ((case mm_get_vec ops m k of None \<Rightarrow> [] | Some vs \<Rightarrow> vs) @ [v])
    else mm_get_vec ops m k')"
  using laws by (simp add: multimap_laws_def)

lemma iter: "map_of (mm_iter ops m) = mm_get_vec ops m" "distinct (map fst (mm_iter ops m))"
  using laws by (simp_all add: multimap_laws_def)

text \<open>The vector under a key, \<open>[]\<close> when there is none.\<close>

definition vec :: "'m \<Rightarrow> string \<Rightarrow> prefix_rule list" where
  "vec m k = (case mm_get_vec ops m k of None \<Rightarrow> [] | Some vs \<Rightarrow> vs)"

lemma vec_new [simp]: "vec (mm_new ops) k = []"
  by (simp add: vec_def get_new)

lemma vec_insert [simp]: "vec (mm_insert ops m k v) k' = (if k' = k then vec m k @ [v] else vec m k')"
  by (simp add: vec_def get_insert)

lemma vec_insert_all:
  "vec (foldl (\<lambda>m r. mm_insert ops m k r) m rs) k' = (if k' = k then vec m k @ rs else vec m k')"
  by (induction rs arbitrary: m) auto

lemma vec_insert_programs:
  "vec (foldl (\<lambda>m r. mm_insert ops m (rule_program r) r) m rs) k =
     vec m k @ filter (\<lambda>r. rule_program r = k) rs"
  by (induction rs arbitrary: m) auto

lemma vec_insert_groups:
  "distinct (map fst kvs) \<Longrightarrow>
   vec (foldl (\<lambda>m (k, rs). foldl (\<lambda>m r. mm_insert ops m k r) m rs) m kvs) k' =
     vec m k' @ (case map_of kvs k' of None \<Rightarrow> [] | Some rs \<Rightarrow> rs)"
proof (induction kvs arbitrary: m)
  case (Cons kv kvs)
  obtain k rs where kv: "kv = (k, rs)" by (cases kv)
  have "map_of kvs k = None" using Cons.prems by (simp add: kv map_of_eq_None_iff)
  then show ?case using Cons by (simp add: kv vec_insert_all)
qed simp

lemma matches_for_command_vec:
  "matches_for_command ops p cmd =
     (case cmd of [] \<Rightarrow> [] | c # _ \<Rightarrow> List.map_filter (\<lambda>r. rule_matches r cmd) (vec (rules_by_program p) c))"
  by (auto simp: matches_for_command_def vec_def List.map_filter_def split: list.splits option.splits)

lemma matches_from_rules:
  "matches_for_command ops (from_rules ops rs) cmd =
     List.map_filter (\<lambda>r. rule_matches r cmd) rs"
proof (cases cmd)
  case Nil
  have "\<And>r. rule_matches r [] = None"
    using rule_matches_program [of _ "[]"] by (metis not_None_eq)
  then show ?thesis by (simp add: matches_for_command_def Nil List.map_filter_def)
next
  case (Cons c cs)
  have "List.map_filter (\<lambda>r. rule_matches r cmd) (filter (\<lambda>r. rule_program r = c) rs) =
        List.map_filter (\<lambda>r. rule_matches r cmd) rs"
    using rule_matches_program [of _ cmd] Cons
    by (induction rs) (auto simp: List.map_filter_simps split: option.splits)
  then show ?thesis
    by (simp add: matches_for_command_vec from_rules_def vec_insert_programs Cons)
qed

lemma vec_merge_overlay:
  "vec (rules_by_program (merge_overlay ops p q)) k =
     vec (rules_by_program p) k @ vec (rules_by_program q) k"
  using vec_insert_groups [OF iter(2), of "rules_by_program p" "rules_by_program q" k]
  by (simp add: merge_overlay_def iter(1) vec_def [of "rules_by_program q"])

lemma matches_merge_overlay:
  "matches_for_command ops (merge_overlay ops p q) cmd =
     matches_for_command ops p cmd @ matches_for_command ops q cmd"
  by (auto simp: matches_for_command_vec vec_merge_overlay split: list.splits)

lemma evaluate_strictest:
  "map_option ev_decision (policy_evaluate ops p cmd) =
     strictest (rm_decision ` set (matches_for_command ops p cmd))"
  using from_matches_strictest by (auto simp: policy_evaluate_def Let_def strictest_def [of "{}"])

lemma evaluate_extend:
  assumes "policy_evaluate ops p cmd = Some e" "cmd \<noteq> []"
  shows "\<exists>e'. policy_evaluate ops p (cmd @ args) = Some e' \<and> ev_decision e \<le> ev_decision e'"
proof -
  have sub: "set (matches_for_command ops p cmd) \<subseteq> set (matches_for_command ops p (cmd @ args))"
    using assms(2) rule_matches_extend
    by (fastforce simp: matches_for_command_vec set_map_filter_eq neq_Nil_conv)
  moreover have "matches_for_command ops p cmd \<noteq> []"
    using assms(1) by (auto simp: policy_evaluate_def Let_def split: if_splits)
  ultimately have ne: "matches_for_command ops p (cmd @ args) \<noteq> []" by auto
  then have "policy_evaluate ops p (cmd @ args) = Some (from_matches (matches_for_command ops p (cmd @ args)))"
    by (simp add: policy_evaluate_def)
  moreover have "ev_decision e \<le> ev_decision (from_matches (matches_for_command ops p (cmd @ args)))"
    using evaluate_strictest [of p cmd] evaluate_strictest [of p "cmd @ args"] sub assms(1) calculation
    by (auto simp: strictest_def ed_ord split: if_splits)
  ultimately show ?thesis by blast
qed

end

end
