(* ===== verification/ExecParser.thy ===== *)
theory ExecParser
  imports ExecPolicy
begin

text \<open>
  \<open>exec_policy/parser.rs\<close>, \<open>amend.rs\<close> and \<open>manager.rs\<close>: the builder that the
  Starlark builtin \<open>prefix_rule\<close> fills, the validation of the examples a policy file
  carries, appending an auto-derived allow rule to the file, and the manager that reloads.

  The Starlark evaluator is the parameter \<open>eval_module\<close>: for a file's name and contents,
  either a syntax error, or the \<open>prefix_rule\<close> calls the module makes in order and the
  error, if any, its evaluation stops with after them.
\<close>

section \<open>Starlark values and the builtin's arguments\<close>

datatype sval = SvStr string | SvList "sval list" | SvOther

fun unpack_str :: "sval \<Rightarrow> string option" where
  "unpack_str (SvStr s) = Some s"
| "unpack_str _ = None"

definition str_or_err :: "string \<Rightarrow> sval \<Rightarrow> anyhow_error + string" where
  "str_or_err msg v = (case unpack_str v of Some s \<Rightarrow> Inr s | None \<Rightarrow> Inl (AnyMsg msg))"

fun parse_pattern_token :: "sval \<Rightarrow> anyhow_error + pattern_token" where
  "parse_pattern_token (SvStr s) = Inr (Single s)"
| "parse_pattern_token (SvList vs) =
     and_then (collect_results (str_or_err ''pattern alternative must be a string'') vs)
       (\<lambda>ts. Inr (Alts ts))"
| "parse_pattern_token SvOther = Inl (AnyMsg ''pattern token must be a string or list of strings'')"

definition parse_pattern :: "sval list \<Rightarrow> anyhow_error + pattern_token list" where
  "parse_pattern items = and_then (collect_results parse_pattern_token items)
     (\<lambda>tokens. if tokens = [] then Inl (AnyMsg ''pattern cannot be empty'') else Inr tokens)"

fun parse_example :: "sval \<Rightarrow> anyhow_error + string list" where
  "parse_example (SvList vs) = collect_results (str_or_err ''example must be a list of strings'') vs"
| "parse_example (SvStr s) = Inr [s]"
| "parse_example SvOther = Inl (AnyMsg ''example must be a list or string'')"

definition parse_examples :: "sval list \<Rightarrow> anyhow_error + string list list" where
  "parse_examples items = collect_results parse_example items"

record prefix_rule_call =
  pc_pattern :: "sval list"
  pc_decision :: "string option"
  pc_match :: "sval list option"
  pc_not_match :: "sval list option"
  pc_justification :: "string option"
  pc_location :: "string option"

section \<open>The builder\<close>

record pending_example_validation =
  pe_rules :: "prefix_rule list"
  pe_matches :: "string list list"
  pe_not_matches :: "string list list"
  pe_location :: "string option"

record policy_builder =
  pb_rules_by_program :: "(string \<times> prefix_rule list) list"
  pb_pending :: "pending_example_validation list"

definition builder_new :: policy_builder where
  "builder_new = \<lparr>pb_rules_by_program = [], pb_pending = []\<rparr>"

definition add_rule :: "policy_builder \<Rightarrow> prefix_rule \<Rightarrow> policy_builder" where
  "add_rule b r = b\<lparr>pb_rules_by_program := entry_push (pb_rules_by_program b) (rule_program r) r\<rparr>"

definition add_pending_example_validation ::
  "policy_builder \<Rightarrow> prefix_rule list \<Rightarrow> string list list \<Rightarrow> string list list \<Rightarrow>
   string option \<Rightarrow> policy_builder" where
  "add_pending_example_validation b rules ms nms loc =
     b\<lparr>pb_pending := pb_pending b @
        [\<lparr>pe_rules = rules, pe_matches = ms, pe_not_matches = nms, pe_location = loc\<rparr>]\<rparr>"

definition attach_location :: "string option \<Rightarrow> exec_policy_error \<Rightarrow> exec_policy_error" where
  "attach_location loc err =
     (case loc of Some l \<Rightarrow> EInvalidRule (RuleAt l err) | None \<Rightarrow> err)"

definition map_err :: "('e \<Rightarrow> 'f) \<Rightarrow> 'e + 'a \<Rightarrow> 'f + 'a" where
  "map_err f r = (case r of Inl e \<Rightarrow> Inl (f e) | Inr x \<Rightarrow> Inr x)"

fun validate_pending ::
  "'m multimap_ops \<Rightarrow> pending_example_validation list \<Rightarrow> exec_policy_error + unit" where
  "validate_pending ops [] = Inr ()"
| "validate_pending ops (v # vs) =
     (let policy = from_rules ops (pe_rules v)
      in and_then (map_err (attach_location (pe_location v))
                     (validate_not_match_examples ops policy (pe_not_matches v)))
         (\<lambda>_. and_then (map_err (attach_location (pe_location v))
                     (validate_match_examples ops policy (pe_matches v)))
         (\<lambda>_. validate_pending ops vs)))"

definition validate_pending_examples_from ::
  "'m multimap_ops \<Rightarrow> policy_builder \<Rightarrow> nat \<Rightarrow> exec_policy_error + unit" where
  "validate_pending_examples_from ops b start = validate_pending ops (drop start (pb_pending b))"

definition builder_build :: "'m multimap_ops \<Rightarrow> policy_builder \<Rightarrow> 'm policy" where
  "builder_build ops b =
     \<lparr>rules_by_program =
        foldl (\<lambda>m (key, rules). foldl (\<lambda>m r. mm_insert ops m key r) m rules)
          (mm_new ops) (pb_rules_by_program b)\<rparr>"

text \<open>The decision, justification, pattern and examples of one call, checked in the
  builtin's order, and the rules it adds: one per alternative of the first token.\<close>

definition call_decision :: "prefix_rule_call \<Rightarrow> anyhow_error + exec_decision" where
  "call_decision c = (case pc_decision c of
      Some raw \<Rightarrow> map_err (\<lambda>_. AnyInvalidDecision raw) (decision_parse raw)
    | None \<Rightarrow> Inr EdAllow)"

definition call_justification :: "prefix_rule_call \<Rightarrow> anyhow_error + string option" where
  "call_justification c = (case pc_justification c of
      Some raw \<Rightarrow> if str_trim raw = [] then Inl (AnyMsg ''prefix_rule justification cannot be empty'')
                  else Inr (Some raw)
    | None \<Rightarrow> Inr None)"

definition call_examples :: "sval list option \<Rightarrow> anyhow_error + string list list" where
  "call_examples ex = (case ex of Some items \<Rightarrow> parse_examples items | None \<Rightarrow> Inr [])"

definition rules_of :: "pattern_token list \<Rightarrow> exec_decision \<Rightarrow> string option \<Rightarrow> prefix_rule list" where
  "rules_of tokens d j = (case tokens of [] \<Rightarrow> []
     | first # rest \<Rightarrow> map (\<lambda>head. \<lparr>px_pattern = \<lparr>pp_first = head, pp_rest = rest\<rparr>,
                                  px_decision = d, px_justification = j\<rparr>) (alternatives first))"

definition prefix_rule_builtin :: "policy_builder \<Rightarrow> prefix_rule_call \<Rightarrow> anyhow_error + policy_builder" where
  "prefix_rule_builtin b c =
     and_then (call_decision c) (\<lambda>d.
     and_then (call_justification c) (\<lambda>j.
     and_then (parse_pattern (pc_pattern c)) (\<lambda>tokens.
     and_then (call_examples (pc_match c)) (\<lambda>ms.
     and_then (call_examples (pc_not_match c)) (\<lambda>nms.
       case tokens of
         [] \<Rightarrow> Inl (AnyMsg ''pattern cannot be empty'')
       | _ \<Rightarrow> let rules = rules_of tokens d j
              in Inr (foldl add_rule
                   (add_pending_example_validation b rules ms nms (pc_location c)) rules))))))"

text \<open>Evaluating a module's calls stops at the first call that fails; what earlier calls
  added to the builder stays.\<close>

fun run_calls :: "policy_builder \<Rightarrow> prefix_rule_call list \<Rightarrow> policy_builder \<times> anyhow_error option" where
  "run_calls b [] = (b, None)"
| "run_calls b (c # cs) =
     (case prefix_rule_builtin b c of
        Inl e \<Rightarrow> (b, Some e)
      | Inr b' \<Rightarrow> run_calls b' cs)"

type_synonym starlark = "string \<Rightarrow> string \<Rightarrow> anyhow_error + (prefix_rule_call list \<times> anyhow_error option)"

definition parser_parse ::
  "'m multimap_ops \<Rightarrow> starlark \<Rightarrow> policy_builder \<Rightarrow> string \<Rightarrow> string \<Rightarrow>
   policy_builder \<times> (exec_policy_error + unit)" where
  "parser_parse ops eval_module b ident contents =
     (let pending_validation_count = length (pb_pending b)
      in case eval_module ident contents of
           Inl e \<Rightarrow> (b, Inl (EStarlark e))
         | Inr (calls, err) \<Rightarrow>
             (case run_calls b calls of
                (b', Some e) \<Rightarrow> (b', Inl (EStarlark e))
              | (b', None) \<Rightarrow>
                  (case err of
                     Some e \<Rightarrow> (b', Inl (EStarlark e))
                   | None \<Rightarrow> (b', validate_pending_examples_from ops b' pending_validation_count))))"

section \<open>Amendments: \<open>amend.rs\<close>\<close>

definition newline :: char where "newline = CHR 0x0A"

text \<open>What is written after the existing contents of the file.\<close>

definition append_data :: "string \<Rightarrow> string \<Rightarrow> string" where
  "append_data existing rule =
     (if existing \<noteq> [] \<and> last existing \<noteq> newline then newline # rule else rule)"

text \<open>The rule line for a prefix; \<open>json_string\<close> is \<open>serde_json::to_string\<close>.\<close>

definition allow_rule_line :: "(string \<Rightarrow> string) \<Rightarrow> string list \<Rightarrow> string" where
  "allow_rule_line json_string pre =
     ''prefix_rule(pattern=['' @ str_join '', '' (map json_string pre) @
     ''], decision='' @ [CHR 0x22] @ ''allow'' @ [CHR 0x22] @ '')'' @ [newline]"

text \<open>The file system as the code meets it: the contents of the files, the parent of a path,
  and which step of the append fails on I/O; a write that fails leaves the first
  \<open>io_written\<close> characters of the data.\<close>

datatype io_step = IoCreateDir | IoOpen | IoLock | IoRead | IoWrite

record file_env =
  fe_files :: "string \<Rightarrow> string option"
  fe_parent :: "string \<Rightarrow> string option"
  fe_failing :: "io_step option"
  fe_io_written :: nat

definition append_rule_line :: "file_env \<Rightarrow> string \<Rightarrow> string \<Rightarrow> file_env \<times> (exec_policy_error + unit)" where
  "append_rule_line env path rule =
     (case fe_parent env path of
        None \<Rightarrow> (env, Inl (EMissingParent path))
      | Some dir \<Rightarrow>
          let existing = (case fe_files env path of None \<Rightarrow> [] | Some s \<Rightarrow> s);
              dat = append_data existing rule;
              set_file = (\<lambda>s. env\<lparr>fe_files := (fe_files env)(path \<mapsto> s)\<rparr>)
          in case fe_failing env of
               Some IoCreateDir \<Rightarrow> (env, Inl (EIo dir))
             | Some IoOpen \<Rightarrow> (env, Inl (EIo path))
             | Some IoLock \<Rightarrow> (set_file existing, Inl (ELock path))
             | Some IoRead \<Rightarrow> (set_file existing, Inl (EIo []))
             | Some IoWrite \<Rightarrow> (set_file (existing @ take (fe_io_written env) dat), Inl (EIo []))
             | None \<Rightarrow> (set_file (existing @ dat), Inr ()))"

definition append_allow_prefix_rule ::
  "(string \<Rightarrow> string) \<Rightarrow> file_env \<Rightarrow> string \<Rightarrow> string list \<Rightarrow> file_env \<times> (exec_policy_error + unit)" where
  "append_allow_prefix_rule json_string env path pre =
     (if pre = [] then (env, Inl (EInvalidRule (RuleMsg ''prefix rule requires at least one token'')))
      else append_rule_line env path (allow_rule_line json_string pre))"

section \<open>The manager: \<open>manager.rs\<close>\<close>

record 'm exec_policy_manager =
  mg_policy :: "'m policy"
  mg_policy_path :: "string option"

definition load_policy_file ::
  "'m multimap_ops \<Rightarrow> starlark \<Rightarrow> file_env \<Rightarrow> string \<Rightarrow> exec_policy_error + 'm policy" where
  "load_policy_file ops eval_module env path =
     (case fe_files env path of
        None \<Rightarrow> Inl (EIo path)
      | Some contents \<Rightarrow>
          (case parser_parse ops eval_module builder_new path contents of
             (b, Inl e) \<Rightarrow> Inl e
           | (b, Inr _) \<Rightarrow> Inr (builder_build ops b)))"

definition manager_empty :: "'m multimap_ops \<Rightarrow> 'm exec_policy_manager" where
  "manager_empty ops = \<lparr>mg_policy = \<lparr>rules_by_program = mm_new ops\<rparr>, mg_policy_path = None\<rparr>"

definition manager_from_file ::
  "'m multimap_ops \<Rightarrow> starlark \<Rightarrow> file_env \<Rightarrow> string \<Rightarrow> exec_policy_error + 'm exec_policy_manager" where
  "manager_from_file ops eval_module env path =
     and_then (load_policy_file ops eval_module env path)
       (\<lambda>p. Inr \<lparr>mg_policy = p, mg_policy_path = Some path\<rparr>)"

definition manager_from_str ::
  "'m multimap_ops \<Rightarrow> starlark \<Rightarrow> string \<Rightarrow> string \<Rightarrow> exec_policy_error + 'm exec_policy_manager" where
  "manager_from_str ops eval_module ident contents =
     (case parser_parse ops eval_module builder_new ident contents of
        (b, Inl e) \<Rightarrow> Inl e
      | (b, Inr _) \<Rightarrow> Inr \<lparr>mg_policy = builder_build ops b, mg_policy_path = None\<rparr>)"

definition manager_evaluate ::
  "'m multimap_ops \<Rightarrow> 'm exec_policy_manager \<Rightarrow> string list \<Rightarrow> evaluation option" where
  "manager_evaluate ops mgr cmd = policy_evaluate ops (mg_policy mgr) cmd"

definition manager_reload ::
  "'m multimap_ops \<Rightarrow> starlark \<Rightarrow> file_env \<Rightarrow> 'm exec_policy_manager \<Rightarrow>
   'm exec_policy_manager \<times> (exec_policy_error + unit)" where
  "manager_reload ops eval_module env mgr =
     (case mg_policy_path mgr of
        None \<Rightarrow> (mgr, Inl (EInvalidRule (RuleMsg ''no policy path set'')))
      | Some path \<Rightarrow>
          (case load_policy_file ops eval_module env path of
             Inl e \<Rightarrow> (mgr, Inl e)
           | Inr p \<Rightarrow> (mgr\<lparr>mg_policy := p\<rparr>, Inr ())))"

definition propose_amendment :: "string list \<Rightarrow> string list" where
  "propose_amendment cmd = cmd"

definition persist_amendment ::
  "'m multimap_ops \<Rightarrow> starlark \<Rightarrow> (string \<Rightarrow> string) \<Rightarrow> file_env \<Rightarrow> 'm exec_policy_manager \<Rightarrow>
   string list \<Rightarrow> file_env \<times> 'm exec_policy_manager \<times> (exec_policy_error + unit)" where
  "persist_amendment ops eval_module json_string env mgr pre =
     (case mg_policy_path mgr of
        None \<Rightarrow> (env, mgr, Inl (EInvalidRule (RuleMsg ''no policy path set'')))
      | Some path \<Rightarrow>
          (case append_allow_prefix_rule json_string env path pre of
             (env', Inl e) \<Rightarrow> (env', mgr, Inl e)
           | (env', Inr _) \<Rightarrow>
               (case load_policy_file ops eval_module env' path of
                  Inl e \<Rightarrow> (env', mgr, Inl e)
                | Inr p \<Rightarrow> (env', mgr\<lparr>mg_policy := p\<rparr>, Inr ()))))"

definition is_explicitly_allowed :: "'m multimap_ops \<Rightarrow> 'm exec_policy_manager \<Rightarrow> string list \<Rightarrow> bool" where
  "is_explicitly_allowed ops mgr cmd =
     (case manager_evaluate ops mgr cmd of Some e \<Rightarrow> ev_decision e = EdAllow | None \<Rightarrow> False)"

definition is_explicitly_denied :: "'m multimap_ops \<Rightarrow> 'm exec_policy_manager \<Rightarrow> string list \<Rightarrow> bool" where
  "is_explicitly_denied ops mgr cmd =
     (case manager_evaluate ops mgr cmd of Some e \<Rightarrow> ev_decision e = EdDeny | None \<Rightarrow> False)"

section \<open>The builder against a flat list of rules\<close>

text \<open>All rules of a builder, and those stored under their own program.\<close>

definition keyed_by_program :: "(string \<times> prefix_rule list) list \<Rightarrow> bool" where
  "keyed_by_program kvs \<longleftrightarrow> distinct (map fst kvs) \<and>
     (\<forall>(k, rs) \<in> set kvs. \<forall>r \<in> set rs. rule_program r = k)"

definition group :: "(string \<times> prefix_rule list) list \<Rightarrow> string \<Rightarrow> prefix_rule list" where
  "group kvs k = (case map_of kvs k of None \<Rightarrow> [] | Some rs \<Rightarrow> rs)"

lemma group_entry_push:
  "group (entry_push kvs k r) k' = (if k' = k then group kvs k @ [r] else group kvs k')"
  by (simp add: group_def entry_push_get)

lemma keyed_entry_push:
  "keyed_by_program kvs \<Longrightarrow> keyed_by_program (entry_push kvs (rule_program r) r)"
proof -
  assume k: "keyed_by_program kvs"
  have "\<forall>(k, rs) \<in> set (entry_push kvs (rule_program r) r). \<forall>x \<in> set rs. rule_program x = k"
    using k unfolding keyed_by_program_def
    by (induction kvs "rule_program r" r rule: entry_push.induct) auto
  with k show ?thesis by (simp add: keyed_by_program_def entry_push_distinct)
qed

lemma group_add_rules:
  "group (pb_rules_by_program (foldl add_rule b rs)) k =
     group (pb_rules_by_program b) k @ filter (\<lambda>r. rule_program r = k) rs"
  by (induction rs arbitrary: b) (auto simp: add_rule_def group_entry_push)

lemma pending_add_rules [simp]: "pb_pending (foldl add_rule b rs) = pb_pending b"
  by (induction rs arbitrary: b) (simp_all add: add_rule_def)

lemma keyed_add_rules:
  "keyed_by_program (pb_rules_by_program b) \<Longrightarrow>
   keyed_by_program (pb_rules_by_program (foldl add_rule b rs))"
  by (induction rs arbitrary: b) (simp_all add: add_rule_def keyed_entry_push)

text \<open>The rules and examples of a call that succeeds.\<close>

definition parse_call :: "prefix_rule_call \<Rightarrow> anyhow_error + pending_example_validation" where
  "parse_call c =
     and_then (call_decision c) (\<lambda>d.
     and_then (call_justification c) (\<lambda>j.
     and_then (parse_pattern (pc_pattern c)) (\<lambda>tokens.
     and_then (call_examples (pc_match c)) (\<lambda>ms.
     and_then (call_examples (pc_not_match c)) (\<lambda>nms.
       Inr \<lparr>pe_rules = rules_of tokens d j, pe_matches = ms, pe_not_matches = nms,
            pe_location = pc_location c\<rparr>)))))"

lemma parse_pattern_nonempty: "parse_pattern items = Inr tokens \<Longrightarrow> tokens \<noteq> []"
  by (auto simp: parse_pattern_def and_then_Inr_iff split: if_splits)

lemma prefix_rule_builtin_parse_call:
  "prefix_rule_builtin b c = and_then (parse_call c) (\<lambda>v.
     Inr (foldl add_rule (b\<lparr>pb_pending := pb_pending b @ [v]\<rparr>) (pe_rules v)))"
  using parse_pattern_nonempty [of "pc_pattern c"]
  by (auto simp: prefix_rule_builtin_def parse_call_def and_then_def Let_def
      add_pending_example_validation_def split: sum.splits list.splits)

text \<open>A run of calls: their parses, in order, up to the first that fails.\<close>

lemma run_calls_ok:
  "run_calls b cs = (b', None) \<Longrightarrow> \<exists>vs. collect_results parse_call cs = Inr vs \<and>
     pb_pending b' = pb_pending b @ vs \<and>
     (\<forall>k. group (pb_rules_by_program b') k =
        group (pb_rules_by_program b) k @ filter (\<lambda>r. rule_program r = k) (concat (map pe_rules vs))) \<and>
     (keyed_by_program (pb_rules_by_program b) \<longrightarrow> keyed_by_program (pb_rules_by_program b'))"
proof (induction cs arbitrary: b)
  case (Cons c cs)
  then obtain v where v: "parse_call c = Inr v"
    by (cases "parse_call c") (auto simp: prefix_rule_builtin_parse_call)
  let ?b = "foldl add_rule (b\<lparr>pb_pending := pb_pending b @ [v]\<rparr>) (pe_rules v)"
  have "run_calls ?b cs = (b', None)"
    using Cons.prems v by (simp add: prefix_rule_builtin_parse_call)
  from Cons.IH [OF this] v show ?case
    by (auto simp: group_add_rules keyed_add_rules)
qed simp

lemma run_calls_collect:
  "collect_results parse_call cs = Inr vs \<Longrightarrow> \<exists>b'. run_calls b cs = (b', None)"
  by (induction cs arbitrary: b vs) (auto simp: prefix_rule_builtin_parse_call and_then_Inr_iff)

end
