(* ===== verification/ExecPolicyCorrect.thy ===== *)
theory ExecPolicyCorrect
  imports ExecParser
begin

text \<open>
  What the exec-policy engine guarantees: strictest-wins evaluation over the flat list of
  rules whatever the index does, overlays that can only tighten, files whose examples hold,
  and amendments that allow what no rule decided but never weaken a decision.
\<close>

section \<open>The index: the contract and its instance\<close>

text \<open>The map of vectors that \<open>entry_push\<close> maintains, with distinct keys by construction,
  provides the contract the policy relies on.\<close>

lift_definition push_vec ::
  "(string, prefix_rule list) alist \<Rightarrow> string \<Rightarrow> prefix_rule \<Rightarrow> (string, prefix_rule list) alist"
  is entry_push by (simp add: entry_push_distinct)

definition vec_ops :: "(string, prefix_rule list) alist multimap_ops" where
  "vec_ops = \<lparr>mm_new = DAList.empty, mm_insert = push_vec,
              mm_get_vec = DAList.lookup, mm_iter = DAList.impl_of\<rparr>"

lemma lookup_push_vec:
  "DAList.lookup (push_vec m k v) k' =
     (if k' = k then Some ((case DAList.lookup m k of None \<Rightarrow> [] | Some vs \<Rightarrow> vs) @ [v])
      else DAList.lookup m k')"
  by transfer (rule entry_push_get)

lemma lookup_impl_of: "map_of (DAList.impl_of m) = DAList.lookup m"
  by (simp add: lookup.rep_eq)

lemma vec_ops_laws: "multimap_laws vec_ops"
  by (simp add: multimap_laws_def vec_ops_def lookup_push_vec lookup_impl_of lookup_empty)

interpretation vec_mm: multimap vec_ops
  by unfold_locales (rule vec_ops_laws)

section \<open>Evaluation\<close>

context multimap begin

lemma evaluate_from_rules:
  "map_option ev_decision (policy_evaluate ops (from_rules ops rs) cmd) =
     strictest (px_decision ` set (filter (\<lambda>r. rule_matches r cmd \<noteq> None) rs))"
proof -
  have "rm_decision ` set (matches_for_command ops (from_rules ops rs) cmd) =
        px_decision ` set (filter (\<lambda>r. rule_matches r cmd \<noteq> None) rs)"
    unfolding matches_from_rules set_map_filter_eq
    by (force simp: image_iff dest: rule_matches_decision)
  then show ?thesis by (simp add: evaluate_strictest)
qed

lemma strictest_union:
  "strictest (A \<union> B) = (case (strictest A, strictest B) of
      (None, d) \<Rightarrow> d | (d, None) \<Rightarrow> d | (Some a, Some b) \<Rightarrow> Some (max a b))"
proof (cases "A = {} \<or> B = {}")
  case True
  then show ?thesis by (auto simp: strictest_def split: option.splits)
next
  case False
  then show ?thesis by (auto simp: strictest_def max_def ed_ord)
qed

lemma evaluate_merge:
  "map_option ev_decision (policy_evaluate ops (merge_overlay ops p q) cmd) =
     (case (map_option ev_decision (policy_evaluate ops p cmd),
            map_option ev_decision (policy_evaluate ops q cmd)) of
        (None, d) \<Rightarrow> d | (d, None) \<Rightarrow> d | (Some a, Some b) \<Rightarrow> Some (max a b))"
  by (simp add: evaluate_strictest matches_merge_overlay image_Un strictest_union)

lemma evaluate_same_matches:
  "matches_for_command ops p cmd = matches_for_command ops q cmd \<Longrightarrow>
   policy_evaluate ops p cmd = policy_evaluate ops q cmd"
  by (simp add: policy_evaluate_def)

lemma matches_builder_build:
  assumes "keyed_by_program (pb_rules_by_program b)"
    and "\<forall>k. group (pb_rules_by_program b) k = filter (\<lambda>r. rule_program r = k) rs"
  shows "matches_for_command ops (builder_build ops b) cmd = matches_for_command ops (from_rules ops rs) cmd"
proof -
  have "vec (rules_by_program (builder_build ops b)) k = filter (\<lambda>r. rule_program r = k) rs" for k
    using assms vec_insert_groups [of "pb_rules_by_program b" "mm_new ops" k]
    by (simp add: builder_build_def keyed_by_program_def group_def)
  moreover have "vec (rules_by_program (from_rules ops rs)) k = filter (\<lambda>r. rule_program r = k) rs" for k
    by (simp add: from_rules_def vec_insert_programs)
  ultimately show ?thesis by (simp add: matches_for_command_vec split: list.split)
qed

lemma load_policy_file_rules:
  assumes "load_policy_file ops eval_module env path = Inr p"
  obtains contents calls vs where
    "fe_files env path = Some contents" "eval_module path contents = Inr (calls, None)"
    "collect_results parse_call calls = Inr vs" "validate_pending ops vs = Inr ()"
    "\<And>cmd. matches_for_command ops p cmd =
       matches_for_command ops (from_rules ops (concat (map pe_rules vs))) cmd"
proof -
  from assms obtain contents b where c: "fe_files env path = Some contents"
    and b: "parser_parse ops eval_module builder_new path contents = (b, Inr ())"
    and p: "p = builder_build ops b"
    by (auto simp: load_policy_file_def split: option.splits prod.splits sum.splits)
  from b obtain calls where calls: "eval_module path contents = Inr (calls, None)"
    and run: "run_calls builder_new calls = (b, None)"
    and val: "validate_pending_examples_from ops b 0 = Inr ()"
    by (auto simp: parser_parse_def builder_new_def Let_def split: sum.splits prod.splits option.splits)
  from run_calls_ok [OF run] obtain vs where vs: "collect_results parse_call calls = Inr vs"
    "pb_pending b = vs"
    "\<forall>k. group (pb_rules_by_program b) k = filter (\<lambda>r. rule_program r = k) (concat (map pe_rules vs))"
    "keyed_by_program (pb_rules_by_program b)"
    by (auto simp: builder_new_def group_def keyed_by_program_def)
  show thesis
  proof (rule that [OF c calls vs(1)])
    show "validate_pending ops vs = Inr ()" using val vs(2) by (simp add: validate_pending_examples_from_def)
    show "matches_for_command ops p cmd =
       matches_for_command ops (from_rules ops (concat (map pe_rules vs))) cmd" for cmd
      unfolding p by (rule matches_builder_build [OF vs(4,3)])
  qed
qed

end

section \<open>Properties\<close>

text \<open>C2: Evaluating a command against an indexed policy gives the strictest decision of
  all the rules whose pattern is a prefix of the command, and no decision exactly when no rule
  matches; the index by first token loses no rule.\<close>

theorem strictest_rule_wins:
  assumes "multimap_laws ops"
  shows "map_option ev_decision (policy_evaluate ops (from_rules ops rs) cmd) =
     strictest (px_decision ` set (filter (\<lambda>r. rule_matches r cmd \<noteq> None) rs))"
  by (rule multimap.evaluate_from_rules [OF multimap.intro [OF assms]])

definition git_rules :: "prefix_rule list" where
  "git_rules =
     [\<lparr>px_pattern = \<lparr>pp_first = ''git'', pp_rest = []\<rparr>, px_decision = EdAllow, px_justification = None\<rparr>,
      \<lparr>px_pattern = \<lparr>pp_first = ''git'', pp_rest = [Alts [''push'', ''commit'']]\<rparr>,
       px_decision = EdAsk, px_justification = Some ''review''\<rparr>]"

theorem strictest_rule_wins_witness:
  "map_option ev_decision (policy_evaluate vec_ops (from_rules vec_ops git_rules) [''git'', ''push'', ''-f''])
     = Some EdAsk"
  unfolding strictest_rule_wins [OF vec_ops_laws]
  by (simp add: git_rules_def strictest_def rule_matches_def matches_prefix_def)

text \<open>Merging an overlay into a policy can only add rules: for every command the merged
  policy's decision is the stricter of the two policies' decisions, and it decides whenever
  one of them does.\<close>

theorem overlay_only_tightens:
  assumes "multimap_laws ops"
  shows "map_option ev_decision (policy_evaluate ops (merge_overlay ops p q) cmd) =
     (case (map_option ev_decision (policy_evaluate ops p cmd),
            map_option ev_decision (policy_evaluate ops q cmd)) of
        (None, d) \<Rightarrow> d | (d, None) \<Rightarrow> d | (Some a, Some b) \<Rightarrow> Some (max a b))"
  by (rule multimap.evaluate_merge [OF multimap.intro [OF assms]])

theorem overlay_only_tightens_witness:
  "map_option ev_decision (policy_evaluate vec_ops
      (merge_overlay vec_ops (from_rules vec_ops []) (from_rules vec_ops git_rules)) [''git'']) = Some EdAllow"
  unfolding overlay_only_tightens [OF vec_ops_laws] strictest_rule_wins [OF vec_ops_laws]
  by (simp add: git_rules_def strictest_def rule_matches_def matches_prefix_def)

lemma validate_pending_ok:
  "validate_pending ops vs = Inr () \<Longrightarrow> v \<in> set vs \<Longrightarrow>
     (\<forall>ex \<in> set (pe_matches v). has_match ops (from_rules ops (pe_rules v)) ex) \<and>
     (\<forall>ex \<in> set (pe_not_matches v). \<not> has_match ops (from_rules ops (pe_rules v)) ex)"
proof (induction vs)
  case (Cons w vs)
  have m: "validate_match_examples ops p es = Inr () \<Longrightarrow> \<forall>ex \<in> set es. has_match ops p ex" for p es
    by (induction es) (auto split: if_splits)
  have n: "validate_not_match_examples ops p es = Inr () \<Longrightarrow> \<forall>ex \<in> set es. \<not> has_match ops p ex" for p es
    by (induction es) (auto split: if_splits)
  show ?case
    using Cons m n by (auto simp: Let_def and_then_Inr_iff map_err_def split: sum.splits)
qed simp

lemma rules_of_decision: "r \<in> set (rules_of ts d j) \<Longrightarrow> px_decision r = d"
  by (auto simp: rules_of_def split: list.splits)

lemma strictest_mono: "D \<subseteq> E \<Longrightarrow> strictest D = Some d \<Longrightarrow> \<exists>e. strictest E = Some e \<and> d \<le> e"
  by (auto simp: strictest_def ed_ord split: if_splits)

text \<open>A policy file that loads keeps its promises: each call's \<open>match\<close> examples are
  decided by the loaded policy, at least as strictly as the call's own decision, and no rule of
  the call matches any of its \<open>not_match\<close> examples.\<close>

theorem loaded_examples_hold:
  assumes laws: "multimap_laws ops"
    and load: "load_policy_file ops eval_module env path = Inr p"
    and src: "fe_files env path = Some contents" "eval_module path contents = Inr (calls, err)"
    and call: "c \<in> set calls" "parse_call c = Inr v" "call_decision c = Inr d"
  shows "(\<forall>ex \<in> set (pe_matches v). \<exists>e. policy_evaluate ops p ex = Some e \<and> d \<le> ev_decision e) \<and>
     (\<forall>ex \<in> set (pe_not_matches v). \<forall>r \<in> set (pe_rules v). rule_matches r ex = None)"
proof -
  have mm: "multimap ops" by (rule multimap.intro [OF laws])
  note multimap.matches_from_rules [OF mm, simp] and multimap.evaluate_strictest [OF mm, simp]
  from multimap.load_policy_file_rules [OF mm load] src obtain vs where
    vs: "collect_results parse_call calls = Inr vs" "validate_pending ops vs = Inr ()"
    and ms: "\<And>cmd. matches_for_command ops p cmd =
       matches_for_command ops (from_rules ops (concat (map pe_rules vs))) cmd"
    by (metis Pair_inject option.inject sum.inject(2))
  from vs(1) call(1,2) have v: "v \<in> set vs"
    by (rule collect_results_in)
  have d: "\<forall>r \<in> set (pe_rules v). px_decision r = d"
    using call(2,3) by (auto simp: parse_call_def and_then_Inr_iff dest: rules_of_decision)
  note val = validate_pending_ok [OF vs(2) v]
  have "\<exists>e. policy_evaluate ops p ex = Some e \<and> d \<le> ev_decision e" if "ex \<in> set (pe_matches v)" for ex
  proof -
    from val that obtain r m where r: "r \<in> set (pe_rules v)" "rule_matches r ex = Some m"
      by (force simp: has_match_def List.map_filter_def filter_empty_conv)
    have "m \<in> set (matches_for_command ops p ex)" using r v by (auto simp: ms set_map_filter_eq)
    moreover have "rm_decision m = d" using r d rule_matches_decision by metis
    ultimately have "strictest {d} = Some d" "{d} \<subseteq> rm_decision ` set (matches_for_command ops p ex)"
      by (auto intro: strictest_eqI)
    from strictest_mono [OF this(2,1)] show ?thesis
      by (metis (no_types, lifting) map_option_eq_Some multimap.evaluate_strictest [OF mm])
  qed
  moreover have "rule_matches r ex = None" if "ex \<in> set (pe_not_matches v)" "r \<in> set (pe_rules v)" for ex r
    using val that by (auto simp: has_match_def List.map_filter_def filter_empty_conv)
  ultimately show ?thesis by blast
qed

definition ask_push_call :: prefix_rule_call where
  "ask_push_call = \<lparr>pc_pattern = [SvStr ''git'', SvList [SvStr ''push'', SvStr ''commit'']],
     pc_decision = Some ''prompt'', pc_match = Some [SvList [SvStr ''git'', SvStr ''push'']],
     pc_not_match = Some [SvList [SvStr ''git'', SvStr ''status'']],
     pc_justification = None, pc_location = None\<rparr>"

definition one_file :: "string \<Rightarrow> file_env" where
  "one_file contents = \<lparr>fe_files = [''d/p'' \<mapsto> contents], fe_parent = [''d/p'' \<mapsto> ''d''],
     fe_failing = None, fe_io_written = 0\<rparr>"

lemmas eval_simps =
  load_policy_file_def parser_parse_def run_calls.simps prefix_rule_builtin_def call_decision_def
  call_justification_def call_examples_def parse_examples_def parse_pattern_def str_or_err_def
  decision_parse_def map_err_def rules_of_def validate_pending_examples_from_def
  add_pending_example_validation_def builder_new_def add_rule_def attach_location_def has_match_def

theorem loaded_examples_hold_witness:
  "\<exists>p e. load_policy_file vec_ops (\<lambda>_ _. Inr ([ask_push_call], None)) (one_file ''x'') ''d/p'' = Inr p \<and>
     policy_evaluate vec_ops p [''git'', ''push''] = Some e \<and> EdAsk \<le> ev_decision e"
proof -
  let ?ev = "\<lambda>_ _. Inr ([ask_push_call], None)"
  obtain p where p: "load_policy_file vec_ops ?ev (one_file ''x'') ''d/p'' = Inr p"
    by (auto simp: eval_simps ask_push_call_def one_file_def vec_mm.matches_from_rules Let_def
        rule_matches_def matches_prefix_def rule_program_def List.map_filter_simps)
  obtain v where v: "parse_call ask_push_call = Inr v" "pe_matches v = [[''git'', ''push'']]"
    by (simp add: parse_call_def ask_push_call_def eval_simps)
  have "call_decision ask_push_call = Inr EdAsk"
    by (simp add: ask_push_call_def eval_simps)
  from loaded_examples_hold [OF vec_ops_laws p, of "''x''" "[ask_push_call]" None ask_push_call v EdAsk]
    v this p show ?thesis by (auto simp: one_file_def)
qed

text \<open>The call the appended line makes, and its single rule.\<close>

definition allow_call :: "string list \<Rightarrow> string option \<Rightarrow> prefix_rule_call" where
  "allow_call pre loc = \<lparr>pc_pattern = map SvStr pre, pc_decision = Some ''allow'', pc_match = None,
     pc_not_match = None, pc_justification = None, pc_location = loc\<rparr>"

lemma collect_single: "collect_results parse_pattern_token (map SvStr xs) = Inr (map Single xs)"
  by (induction xs) simp_all

lemma parse_allow_call:
  "pre \<noteq> [] \<Longrightarrow> parse_call (allow_call pre loc) =
     Inr \<lparr>pe_rules = rules_of (map Single pre) EdAllow None, pe_matches = [], pe_not_matches = [],
          pe_location = loc\<rparr>"
  by (simp add: parse_call_def allow_call_def call_decision_def decision_parse_def map_err_def
      call_justification_def call_examples_def parse_pattern_def collect_single)

lemma all2_Single: "list_all2 token_matches (map Single xs) ts \<longleftrightarrow> ts = xs"
  by (induction xs arbitrary: ts) (auto simp: list_all2_Cons1)

lemma allow_rule_matches:
  "r \<in> set (rules_of (map Single (w # ws)) EdAllow None) \<Longrightarrow>
     rule_matches r cmd \<noteq> None \<longleftrightarrow> prefix (w # ws) cmd"
  by (auto simp: rules_of_def rule_matches_def matches_prefix_iff all2_Single prefix_def)

lemma collect_results_snoc:
  "collect_results f (xs @ [x]) =
     and_then (collect_results f xs) (\<lambda>ys. and_then (f x) (\<lambda>y. Inr (ys @ [y])))"
  by (induction xs) (simp_all add: and_then_def split: sum.split)

lemma validate_pending_append:
  "validate_pending ops (vs @ ws) = and_then (validate_pending ops vs) (\<lambda>_. validate_pending ops ws)"
  by (induction vs) (simp_all add: Let_def and_then_def split: sum.split)

context multimap begin

lemma load_policy_file_intro:
  assumes "fe_files env path = Some contents" "eval_module path contents = Inr (calls, None)"
    "collect_results parse_call calls = Inr vs" "validate_pending ops vs = Inr ()"
  shows "\<exists>p. load_policy_file ops eval_module env path = Inr p"
proof -
  from run_calls_collect [OF assms(3)] obtain b where run: "run_calls builder_new calls = (b, None)" by blast
  from run_calls_ok [OF this] assms(3) have "pb_pending b = vs" by (auto simp: builder_new_def)
  with run assms show ?thesis
    by (simp add: load_policy_file_def parser_parse_def builder_new_def Let_def validate_pending_examples_from_def)
qed

lemma evaluate_add_allow:
  "map_option ev_decision (policy_evaluate ops (from_rules ops (rs @ rules_of (map Single (w # ws)) EdAllow None)) cmd) =
     (case map_option ev_decision (policy_evaluate ops (from_rules ops rs) cmd) of
        Some d \<Rightarrow> Some d
      | None \<Rightarrow> if prefix (w # ws) cmd then Some EdAllow else None)"
proof -
  let ?A = "rules_of (map Single (w # ws)) EdAllow None"
  have "px_decision ` set (filter (\<lambda>r. rule_matches r cmd \<noteq> None) ?A) =
        (if prefix (w # ws) cmd then {EdAllow} else {})"
  proof (cases "prefix (w # ws) cmd")
    case True
    then have "filter (\<lambda>r. rule_matches r cmd \<noteq> None) ?A = ?A"
      using allow_rule_matches by (intro filter_True) blast
    with True show ?thesis by (simp add: rules_of_def)
  next
    case False
    then have "filter (\<lambda>r. rule_matches r cmd \<noteq> None) ?A = []"
      using allow_rule_matches by (intro filter_False) blast
    with False show ?thesis by simp
  qed
  then show ?thesis
    unfolding evaluate_from_rules filter_append set_append image_Un
    by (auto simp: strictest_def)
qed

end

text \<open>C3: "Always allow" persists what it says and nothing weaker: when appending the allow
  rule for a prefix succeeds and the file then makes its old calls followed by the new one, the
  reloaded manager keeps every decision the old policy made, and allows exactly the commands
  that extend the prefix among those it had no decision for.\<close>

theorem amendment_never_weakens:
  assumes laws: "multimap_laws ops"
    and pre: "pre = w # ws" and mgr: "mg_policy_path mgr = Some path"
    and io: "fe_parent env path = Some dir" "fe_failing env = None"
    and src: "fe_files env path = Some contents" "eval_module path contents = Inr (calls, None)"
    and loaded: "load_policy_file ops eval_module env path = Inr (mg_policy mgr)"
    and new: "eval_module path (contents @ append_data contents (allow_rule_line json_string pre)) =
                Inr (calls @ [allow_call pre loc], None)"
  shows "\<exists>env' mgr'. persist_amendment ops eval_module json_string env mgr pre = (env', mgr', Inr ()) \<and>
     (\<forall>cmd. map_option ev_decision (manager_evaluate ops mgr' cmd) =
        (case map_option ev_decision (manager_evaluate ops mgr cmd) of
           Some d \<Rightarrow> Some d
         | None \<Rightarrow> if prefix pre cmd then Some EdAllow else None))"
proof -
  have mm: "multimap ops" by (rule multimap.intro [OF laws])
  let ?rs = "\<lambda>vs. concat (map pe_rules vs)"
  from multimap.load_policy_file_rules [OF mm loaded] src obtain vs where
    vs: "collect_results parse_call calls = Inr vs" "validate_pending ops vs = Inr ()"
    and old: "\<And>cmd. matches_for_command ops (mg_policy mgr) cmd = matches_for_command ops (from_rules ops (?rs vs)) cmd"
    by (metis Pair_inject option.inject sum.inject(2))
  let ?new = "contents @ append_data contents (allow_rule_line json_string pre)"
  let ?env = "env\<lparr>fe_files := (fe_files env)(path \<mapsto> ?new)\<rparr>"
  let ?v = "\<lparr>pe_rules = rules_of (map Single pre) EdAllow None, pe_matches = [], pe_not_matches = [], pe_location = loc\<rparr>"
  have coll: "collect_results parse_call (calls @ [allow_call pre loc]) = Inr (vs @ [?v])"
    using vs(1) pre by (simp add: collect_results_snoc parse_allow_call)
  have val: "validate_pending ops (vs @ [?v]) = Inr ()"
    using vs(2) by (simp add: validate_pending_append map_err_def)
  obtain p where p: "load_policy_file ops eval_module ?env path = Inr p"
    using multimap.load_policy_file_intro [OF mm, where env = ?env and path = path
        and eval_module = eval_module and contents = ?new] new coll val by fastforce
  have rs: "matches_for_command ops p cmd = matches_for_command ops (from_rules ops (?rs (vs @ [?v]))) cmd" for cmd
    by (rule multimap.load_policy_file_rules [OF mm p]) (use coll new in auto)
  have "persist_amendment ops eval_module json_string env mgr pre = (?env, mgr\<lparr>mg_policy := p\<rparr>, Inr ())"
    using pre mgr io src p
    by (simp add: persist_amendment_def append_allow_prefix_rule_def append_rule_line_def)
  moreover have "map_option ev_decision (policy_evaluate ops p cmd) =
        (case map_option ev_decision (policy_evaluate ops (mg_policy mgr) cmd) of
           Some d \<Rightarrow> Some d
         | None \<Rightarrow> if prefix pre cmd then Some EdAllow else None)" for cmd
    using multimap.evaluate_add_allow [OF mm, of "?rs vs" w ws cmd]
      multimap.evaluate_same_matches [OF mm rs] multimap.evaluate_same_matches [OF mm old] pre by simp
  ultimately show ?thesis by (auto simp: manager_evaluate_def)
qed

definition demo_starlark :: starlark where
  "demo_starlark path s =
     (if s = ''x'' then Inr ([ask_push_call], None)
      else Inr ([ask_push_call, allow_call [''git''] None], None))"

lemma demo_load: "\<exists>p. load_policy_file vec_ops demo_starlark (one_file ''x'') ''d/p'' = Inr p \<and>
   (\<forall>cmd. matches_for_command vec_ops p cmd =
      List.map_filter (\<lambda>r. rule_matches r cmd) (rules_of [Single ''git'', Alts [''push'', ''commit'']] EdAsk None))"
proof -
  obtain v where v: "collect_results parse_call [ask_push_call] = Inr [v]"
      "pe_rules v = rules_of [Single ''git'', Alts [''push'', ''commit'']] EdAsk None"
      "validate_pending vec_ops [v] = Inr ()"
    by (simp add: parse_call_def ask_push_call_def eval_simps vec_mm.matches_from_rules rule_matches_def
        matches_prefix_def List.map_filter_simps)
  have src: "fe_files (one_file ''x'') ''d/p'' = Some ''x''"
      "demo_starlark ''d/p'' ''x'' = Inr ([ask_push_call], None)"
    by (simp_all add: one_file_def demo_starlark_def)
  obtain p where p: "load_policy_file vec_ops demo_starlark (one_file ''x'') ''d/p'' = Inr p"
    using vec_mm.load_policy_file_intro [where env = "one_file ''x''" and path = "''d/p''"
        and eval_module = demo_starlark and contents = "''x''"] src v(1,3) by blast
  have "matches_for_command vec_ops p cmd = List.map_filter (\<lambda>r. rule_matches r cmd) (pe_rules v)" for cmd
    by (rule vec_mm.load_policy_file_rules [OF p]) (use src v(1) in \<open>auto simp: vec_mm.matches_from_rules\<close>)
  with p v(2) show ?thesis by auto
qed

theorem amendment_never_weakens_witness:
  "\<exists>mgr env' mgr'.
     persist_amendment vec_ops demo_starlark (\<lambda>t. t) (one_file ''x'') mgr [''git''] = (env', mgr', Inr ()) \<and>
     map_option ev_decision (manager_evaluate vec_ops mgr' [''git'', ''push'']) = Some EdAsk \<and>
     map_option ev_decision (manager_evaluate vec_ops mgr [''git'', ''log'']) = None \<and>
     map_option ev_decision (manager_evaluate vec_ops mgr' [''git'', ''log'']) = Some EdAllow"
proof -
  obtain p where p: "load_policy_file vec_ops demo_starlark (one_file ''x'') ''d/p'' = Inr p"
    and ms: "\<And>cmd. matches_for_command vec_ops p cmd =
      List.map_filter (\<lambda>r. rule_matches r cmd) (rules_of [Single ''git'', Alts [''push'', ''commit'']] EdAsk None)"
    using demo_load by blast
  let ?mgr = "\<lparr>mg_policy = p, mg_policy_path = Some ''d/p''\<rparr>"
  have old: "map_option ev_decision (manager_evaluate vec_ops ?mgr [''git'', ''push'']) = Some EdAsk"
    "map_option ev_decision (manager_evaluate vec_ops ?mgr [''git'', ''log'']) = None"
    by (simp_all add: manager_evaluate_def policy_evaluate_def ms rules_of_def rule_matches_def
        matches_prefix_def List.map_filter_simps from_matches_def)
  have new: "demo_starlark ''d/p'' (''x'' @ append_data ''x'' (allow_rule_line (\<lambda>t. t) [''git''])) =
      Inr ([ask_push_call] @ [allow_call [''git''] None], None)"
    by (simp add: demo_starlark_def append_data_def allow_rule_line_def newline_def)
  have "\<exists>env' mgr'. persist_amendment vec_ops demo_starlark (\<lambda>t. t) (one_file ''x'') ?mgr [''git''] = (env', mgr', Inr ()) \<and>
     (\<forall>cmd. map_option ev_decision (manager_evaluate vec_ops mgr' cmd) =
        (case map_option ev_decision (manager_evaluate vec_ops ?mgr cmd) of
           Some d \<Rightarrow> Some d
         | None \<Rightarrow> if prefix [''git''] cmd then Some EdAllow else None))"
    by (rule amendment_never_weakens [OF vec_ops_laws, where w = "''git''" and ws = "[]" and path = "''d/p''"
        and dir = "''d''" and contents = "''x''" and calls = "[ask_push_call]" and loc = None])
      (use p new in \<open>simp_all add: one_file_def demo_starlark_def\<close>)
  then obtain env' mgr' where "persist_amendment vec_ops demo_starlark (\<lambda>t. t) (one_file ''x'') ?mgr [''git''] = (env', mgr', Inr ())"
    and d: "\<And>cmd. map_option ev_decision (manager_evaluate vec_ops mgr' cmd) =
        (case map_option ev_decision (manager_evaluate vec_ops ?mgr cmd) of
           Some d \<Rightarrow> Some d
         | None \<Rightarrow> if prefix [''git''] cmd then Some EdAllow else None)" by blast
  moreover have "map_option ev_decision (manager_evaluate vec_ops mgr' [''git'', ''push'']) = Some EdAsk"
    "map_option ev_decision (manager_evaluate vec_ops mgr' [''git'', ''log'']) = Some EdAllow"
    unfolding d old by simp_all
  ultimately show ?thesis using old(2) by blast
qed

end
