(* ===== verification/PermPipeline.thy ===== *)
theory PermPipeline
  imports PermTypes ExecParser
begin

text \<open>
  The permission pipeline, \<open>y-guardrails/src/permission_pipeline.rs\<close>: the shell tokenizer
  that feeds the exec policy, rule lookup, and \<open>evaluate_pipeline_with_exec_policy\<close>.  The
  function is one body of early returns; each stage is a definition that gives \<open>Some\<close> of
  the result it returns early with, or \<open>None\<close> to fall through, and the function composes
  them in the code's order.  The exec-policy manager enters as its \<open>evaluate\<close> function.
\<close>

section \<open>Tokenizing a shell command\<close>

fun tokenize_loop ::
  "string \<Rightarrow> string list \<Rightarrow> string \<Rightarrow> bool \<Rightarrow> bool \<Rightarrow> string list \<times> string \<times> bool \<times> bool" where
  "tokenize_loop [] tokens current in_single in_double = (tokens, current, in_single, in_double)"
| "tokenize_loop (c # cs) tokens current in_single in_double =
     (if c = CHR 0x27 \<and> \<not> in_double then tokenize_loop cs tokens current (\<not> in_single) in_double
      else if c = CHR 0x22 \<and> \<not> in_single then tokenize_loop cs tokens current in_single (\<not> in_double)
      else if is_ws c \<and> \<not> in_single \<and> \<not> in_double then
        (if current \<noteq> [] then tokenize_loop cs (tokens @ [current]) [] in_single in_double
         else tokenize_loop cs tokens current in_single in_double)
      else tokenize_loop cs tokens (current @ [c]) in_single in_double)"

definition shell_metachars :: "char set" where
  "shell_metachars = set ''|>&;$`''"

definition tokenize_shell_command :: "string \<Rightarrow> string list option" where
  "tokenize_shell_command command =
     (let trimmed = str_trim command
      in if trimmed = [] then None
         else if list_ex (\<lambda>c. c \<in> shell_metachars) trimmed then None
         else case tokenize_loop trimmed [] [] False False of
                (tokens, current, in_single, in_double) \<Rightarrow>
                  if in_single \<or> in_double then None
                  else let tokens' = (if current \<noteq> [] then tokens @ [current] else tokens)
                       in if tokens' = [] then None else Some tokens')"

section \<open>Rule lookup\<close>

definition find_matching_rule ::
  "permission_rule list \<Rightarrow> string \<Rightarrow> string option \<Rightarrow> permission_behavior \<Rightarrow> permission_rule option" where
  "find_matching_rule rules tool content b =
     (case (if content \<noteq> None
            then List.find (\<lambda>r. rl_behavior r = b \<and> tg_content_pattern (rl_target r) \<noteq> None \<and>
                               target_matches (rl_target r) tool content) rules
            else None) of
        Some r \<Rightarrow> Some r
      | None \<Rightarrow> List.find (\<lambda>r. rl_behavior r = b \<and> tg_content_pattern (rl_target r) = None \<and>
                               target_matches (rl_target r) tool content) rules)"

definition rule_is_more_specific :: "permission_rule \<Rightarrow> permission_rule \<Rightarrow> bool" where
  "rule_is_more_specific a b =
     (let a_specific = (tg_content_pattern (rl_target a) \<noteq> None);
          b_specific = (tg_content_pattern (rl_target b) \<noteq> None)
      in if a_specific \<and> \<not> b_specific then True
         else if \<not> a_specific \<and> b_specific then False
         else precedence (rl_source a) < precedence (rl_source b))"

section \<open>The stages\<close>

type_synonym exec_eval = "string list \<Rightarrow> evaluation option"

fun behavior_of_decision :: "exec_decision \<Rightarrow> permission_behavior" where
  "behavior_of_decision EdAllow = PbAllow"
| "behavior_of_decision EdAsk = PbAsk"
| "behavior_of_decision EdDeny = PbDeny"

text \<open>Stage 0: the exec policy's result for a shell command.\<close>

definition exec_policy_stage ::
  "exec_eval option \<Rightarrow> string \<Rightarrow> string option \<Rightarrow> 'v permission_result \<Rightarrow> 'v permission_result option" where
  "exec_policy_stage exec_policy tool content tool_result =
     (case (exec_policy, content) of
        (Some evaluate, Some c) \<Rightarrow>
          if tool = ''ShellExec'' then
            (case tokenize_shell_command c of
               Some cmd_tokens \<Rightarrow>
                 (case evaluate cmd_tokens of
                    Some e \<Rightarrow>
                      (let justification = (case determining_justification e of
                             Some j \<Rightarrow> j | None \<Rightarrow> ''exec policy rule'')
                       in Some \<lparr>pr_behavior = behavior_of_decision (ev_decision e),
                                pr_reason = RRule (''exec_policy: '' @ justification),
                                pr_message = Some (''exec policy: '' @ justification),
                                pr_updated_input = pr_updated_input tool_result\<rparr>)
                  | None \<Rightarrow> None)
             | None \<Rightarrow> None)
          else None
      | _ \<Rightarrow> None)"

text \<open>Stages 0 and 1 and the early default: the ways to be denied before any mode applies.\<close>

definition stage_exec_deny :: "'v permission_result option \<Rightarrow> 'v permission_result option" where
  "stage_exec_deny exec_result =
     (case exec_result of
        Some r \<Rightarrow> if pr_behavior r = PbDeny then Some r else None
      | None \<Rightarrow> None)"

definition stage_deny_rule ::
  "permission_context \<Rightarrow> string \<Rightarrow> string option \<Rightarrow> 'v permission_result option" where
  "stage_deny_rule ctx tool content =
     (case find_matching_rule (cx_rules ctx) tool content PbDeny of
        Some rule \<Rightarrow>
          Some \<lparr>pr_behavior = PbDeny, pr_reason = RRule (rule_display rule),
                pr_message = Some (''denied by rule: '' @ rule_display rule),
                pr_updated_input = None\<rparr>
      | None \<Rightarrow> None)"

definition denied_by_default :: "string \<Rightarrow> 'v permission_result" where
  "denied_by_default tool = \<lparr>pr_behavior = PbDeny, pr_reason = RGlobalDefault,
     pr_message = Some (tool @ '' denied by global default''), pr_updated_input = None\<rparr>"

definition stage_default_deny ::
  "permission_context \<Rightarrow> string \<Rightarrow> string option \<Rightarrow> 'v permission_result option \<Rightarrow>
   'v permission_result option" where
  "stage_default_deny ctx tool content exec_result =
     (if cx_default_behavior ctx = PbDeny \<and> exec_result = None
         \<and> find_matching_rule (cx_rules ctx) tool content PbAsk = None
         \<and> find_matching_rule (cx_rules ctx) tool content PbAllow = None
         \<and> find_matching_rule (cx_rules ctx) tool content PbNotify = None
      then Some (denied_by_default tool) else None)"

text \<open>Stage 3: the tool's own deny.\<close>

definition stage_tool_deny :: "'v permission_result \<Rightarrow> 'v permission_result option" where
  "stage_tool_deny tool_result = (if pr_behavior tool_result = PbDeny then Some tool_result else None)"

text \<open>Stage 4: the mode's overrides.\<close>

definition allows :: "'v permission_result \<Rightarrow> bool" where
  "allows r = (pr_behavior r = PbAllow \<or> pr_behavior r = PbNotify)"

definition stage_mode ::
  "permission_context \<Rightarrow> string \<Rightarrow> 'v permission_result \<Rightarrow> 'v permission_result option" where
  "stage_mode ctx tool effective =
     (case cx_mode ctx of
        MBypassPermissions \<Rightarrow>
          if allows effective then Some effective
          else Some \<lparr>pr_behavior = PbAllow, pr_reason = RMode ''bypass_permissions'',
                     pr_message = None, pr_updated_input = pr_updated_input effective\<rparr>
      | MPlan \<Rightarrow>
          if allows effective then Some effective
          else Some \<lparr>pr_behavior = PbAsk, pr_reason = RMode ''plan'',
                     pr_message = Some (tool @ '' requires approval in plan mode''),
                     pr_updated_input = pr_updated_input effective\<rparr>
      | MAcceptEdits \<Rightarrow>
          if allows effective then Some effective
          else if tool = ''FileWrite'' \<or> tool = ''FileEdit''
          then Some \<lparr>pr_behavior = PbAllow, pr_reason = RMode ''accept_edits'',
                     pr_message = None, pr_updated_input = pr_updated_input effective\<rparr>
          else None
      | MDefault \<Rightarrow> None
      | MDontAsk \<Rightarrow> None)"

definition denied_dont_ask :: "string \<Rightarrow> 'v permission_result" where
  "denied_dont_ask tool = \<lparr>pr_behavior = PbDeny, pr_reason = RMode ''dont_ask'',
     pr_message = Some (tool @ '' denied -- dont_ask mode active''), pr_updated_input = None\<rparr>"

text \<open>After the modes, an exec-policy decision is final.\<close>

definition stage_exec_final ::
  "permission_context \<Rightarrow> string \<Rightarrow> 'v permission_result option \<Rightarrow> 'v permission_result option" where
  "stage_exec_final ctx tool exec_result =
     (case exec_result of
        Some r \<Rightarrow>
          if pr_behavior r = PbAsk \<and> cx_mode ctx = MDontAsk then Some (denied_dont_ask tool)
          else Some r
      | None \<Rightarrow> None)"

text \<open>Stage 5: allow and notify rules, against the ask rule; then a tool that allows itself.\<close>

definition by_rule :: "permission_behavior \<Rightarrow> permission_rule \<Rightarrow> 'v permission_result \<Rightarrow> 'v permission_result" where
  "by_rule b rule tool_result = \<lparr>pr_behavior = b, pr_reason = RRule (rule_display rule),
     pr_message = None, pr_updated_input = pr_updated_input tool_result\<rparr>"

definition stage_allow_rule ::
  "permission_rule option \<Rightarrow> permission_rule option \<Rightarrow> 'v permission_result \<Rightarrow>
   'v permission_result option" where
  "stage_allow_rule allow_rule ask_rule tool_result =
     (case allow_rule of
        Some rule \<Rightarrow>
          (case ask_rule of
             Some ask \<Rightarrow>
               if rule_is_more_specific rule ask then Some (by_rule PbAllow rule tool_result) else None
           | None \<Rightarrow> Some (by_rule PbAllow rule tool_result))
      | None \<Rightarrow> None)"

definition stage_notify_rule ::
  "permission_rule option \<Rightarrow> permission_rule option \<Rightarrow> 'v permission_result \<Rightarrow>
   'v permission_result option" where
  "stage_notify_rule notify_rule ask_rule tool_result =
     (case notify_rule of
        Some rule \<Rightarrow>
          if (case ask_rule of None \<Rightarrow> True | Some ask \<Rightarrow> rule_is_more_specific rule ask)
          then Some (by_rule PbNotify rule tool_result) else None
      | None \<Rightarrow> None)"

definition stage_tool_allow ::
  "permission_rule option \<Rightarrow> 'v permission_result \<Rightarrow> 'v permission_result option" where
  "stage_tool_allow ask_rule effective =
     (if allows effective \<and> ask_rule = None then Some effective else None)"

text \<open>Stage 6: the configured default.\<close>

definition stage_default ::
  "permission_context \<Rightarrow> string \<Rightarrow> bool \<Rightarrow> permission_rule option \<Rightarrow> bool \<Rightarrow> 'v permission_result \<Rightarrow>
   'v permission_result option" where
  "stage_default ctx tool tool_wants_ask ask_rule should_ask_for_danger tool_result =
     (if \<not> tool_wants_ask \<and> ask_rule = None \<and> \<not> should_ask_for_danger then
        (case cx_default_behavior ctx of
           PbAllow \<Rightarrow> Some \<lparr>pr_behavior = PbAllow, pr_reason = RGlobalDefault, pr_message = None,
                           pr_updated_input = pr_updated_input tool_result\<rparr>
         | PbDeny \<Rightarrow> Some (denied_by_default tool)
         | PbNotify \<Rightarrow> Some \<lparr>pr_behavior = PbNotify, pr_reason = RGlobalDefault, pr_message = None,
                           pr_updated_input = pr_updated_input tool_result\<rparr>
         | PbAsk \<Rightarrow> None
         | PbPassthrough \<Rightarrow> None)
      else None)"

text \<open>Stages 7 and 8: what is left becomes an ask, or a deny in DontAsk mode.\<close>

definition ask_message ::
  "string \<Rightarrow> bool \<Rightarrow> permission_rule option \<Rightarrow> bool \<Rightarrow> 'v permission_result \<Rightarrow> string" where
  "ask_message tool tool_wants_ask ask_rule should_ask_for_danger tool_result =
     (if tool_wants_ask then
        (case pr_message tool_result of Some m \<Rightarrow> m | None \<Rightarrow> tool @ '' requires approval'')
      else case ask_rule of
             Some ask \<Rightarrow> ''ask rule: '' @ rule_display ask
           | None \<Rightarrow> if should_ask_for_danger then tool @ '' is dangerous -- requires approval''
                     else tool @ '' requires approval'')"

definition final_stage ::
  "permission_context \<Rightarrow> string \<Rightarrow> bool \<Rightarrow> permission_rule option \<Rightarrow> bool \<Rightarrow> 'v permission_result \<Rightarrow>
   'v permission_result" where
  "final_stage ctx tool tool_wants_ask ask_rule should_ask_for_danger tool_result =
     (if cx_mode ctx = MDontAsk then denied_dont_ask tool
      else \<lparr>pr_behavior = PbAsk,
            pr_reason = (case ask_rule of
                Some ask \<Rightarrow> RRule (rule_display ask)
              | None \<Rightarrow> if should_ask_for_danger then RDangerousAutoAsk tool else RGlobalDefault),
            pr_message = Some (ask_message tool tool_wants_ask ask_rule should_ask_for_danger tool_result),
            pr_updated_input = pr_updated_input tool_result\<rparr>)"

section \<open>The pipeline\<close>

definition evaluate_pipeline_with_exec_policy ::
  "string \<Rightarrow> string option \<Rightarrow> bool \<Rightarrow> 'v permission_result \<Rightarrow> permission_context \<Rightarrow> exec_eval option \<Rightarrow>
   'v permission_result" where
  "evaluate_pipeline_with_exec_policy tool content is_dangerous tool_result ctx exec_policy =
     (let should_ask_for_danger = (is_dangerous \<and> cx_dangerous_auto_ask ctx);
          exec_result = exec_policy_stage exec_policy tool content tool_result;
          ask_rule = find_matching_rule (cx_rules ctx) tool content PbAsk;
          allow_rule = find_matching_rule (cx_rules ctx) tool content PbAllow;
          notify_rule = find_matching_rule (cx_rules ctx) tool content PbNotify;
          effective = (case exec_result of Some r \<Rightarrow> r | None \<Rightarrow> tool_result);
          tool_wants_ask = (pr_behavior effective = PbAsk)
      in case or_return (stage_exec_deny exec_result)
             (or_return (stage_deny_rule ctx tool content)
             (or_return (stage_default_deny ctx tool content exec_result)
             (or_return (stage_tool_deny tool_result)
             (or_return (stage_mode ctx tool effective)
             (or_return (stage_exec_final ctx tool exec_result)
             (or_return (stage_allow_rule allow_rule ask_rule tool_result)
             (or_return (stage_notify_rule notify_rule ask_rule tool_result)
             (or_return (stage_tool_allow ask_rule effective)
               (stage_default ctx tool tool_wants_ask ask_rule should_ask_for_danger tool_result)))))))))
         of Some r \<Rightarrow> r
          | None \<Rightarrow> final_stage ctx tool tool_wants_ask ask_rule should_ask_for_danger tool_result)"

definition evaluate_pipeline ::
  "string \<Rightarrow> string option \<Rightarrow> bool \<Rightarrow> 'v permission_result \<Rightarrow> permission_context \<Rightarrow> 'v permission_result" where
  "evaluate_pipeline tool content is_dangerous tool_result ctx =
     evaluate_pipeline_with_exec_policy tool content is_dangerous tool_result ctx None"

end
