(* ===== verification/PermPipelineCorrect.thy ===== *)
theory PermPipelineCorrect
  imports PermPipeline ExecPolicyCorrect
begin

text \<open>
  What the permission pipeline guarantees, for every rule set, tool answer and exec policy:
  denials that no mode can lift, what each mode does to the outcome of the default mode, that
  an ask rule yields only to a more specific rule, and what the tokenizer hands to the exec
  policy.
\<close>

section \<open>Lemmas on rule lookup\<close>

lemma find_matching_rule_SomeD:
  "find_matching_rule rules tool content b = Some r \<Longrightarrow>
     r \<in> set rules \<and> rl_behavior r = b \<and> target_matches (rl_target r) tool content"
  by (auto simp: find_matching_rule_def dest!: find_Some_iff2 split: option.splits if_splits)

lemma find_matching_rule_None_iff:
  "find_matching_rule rules tool content b = None \<longleftrightarrow>
     (\<forall>r \<in> set rules. rl_behavior r = b \<longrightarrow> \<not> target_matches (rl_target r) tool content)"
proof (cases content)
  case None
  then show ?thesis
    by (auto simp: find_matching_rule_def find_is_none target_matches_def split: option.splits)
next
  case (Some c)
  then show ?thesis
    by (auto simp: find_matching_rule_def find_is_none split: option.splits dest!: find_Some_iff2)
       (metis not_None_eq)
qed

lemma find_matching_rule_other:
  "rl_behavior r \<noteq> b \<Longrightarrow>
     find_matching_rule (rs @ r # rs') tool content b = find_matching_rule (rs @ rs') tool content b"
  by (simp add: find_matching_rule_def find_skip cong: option.case_cong)

text \<open>A content-specific match is found before any tool-level one.\<close>

lemma find_matching_rule_specific:
  "find_matching_rule rules tool content b = Some r \<Longrightarrow> tg_content_pattern (rl_target r) = None \<Longrightarrow>
   r' \<in> set rules \<Longrightarrow> rl_behavior r' = b \<Longrightarrow> target_matches (rl_target r') tool content \<Longrightarrow>
   tg_content_pattern (rl_target r') = None"
  by (cases content)
     (auto simp: find_matching_rule_def find_is_none target_matches_def split: option.splits
           dest!: find_Some_iff2)

section \<open>Lemmas on the stages\<close>

text \<open>The ways to be denied that no mode can lift.\<close>

definition hard_deny ::
  "permission_context \<Rightarrow> string \<Rightarrow> string option \<Rightarrow> 'v permission_result option \<Rightarrow>
   'v permission_result \<Rightarrow> bool" where
  "hard_deny ctx tool content exec_result tool_result \<longleftrightarrow>
     (\<exists>r. exec_result = Some r \<and> pr_behavior r = PbDeny) \<or>
     (\<exists>rule \<in> set (cx_rules ctx). rl_behavior rule = PbDeny \<and> target_matches (rl_target rule) tool content) \<or>
     (cx_default_behavior ctx = PbDeny \<and> exec_result = None \<and>
       (\<forall>rule \<in> set (cx_rules ctx). rl_behavior rule \<in> {PbAsk, PbAllow, PbNotify} \<longrightarrow>
          \<not> target_matches (rl_target rule) tool content)) \<or>
     pr_behavior tool_result = PbDeny"

definition deny_stages ::
  "permission_context \<Rightarrow> string \<Rightarrow> string option \<Rightarrow> 'v permission_result option \<Rightarrow>
   'v permission_result \<Rightarrow> 'v permission_result option" where
  "deny_stages ctx tool content exec_result tool_result =
     or_return (stage_exec_deny exec_result)
       (or_return (stage_deny_rule ctx tool content)
       (or_return (stage_default_deny ctx tool content exec_result)
         (stage_tool_deny tool_result)))"

lemma or_return_assoc: "or_return (or_return a b) c = or_return a (or_return b c)"
  by (cases a) simp_all

lemma deny_stages_None: "deny_stages ctx tool content ex tr = None \<longleftrightarrow> \<not> hard_deny ctx tool content ex tr"
  unfolding deny_stages_def hard_deny_def stage_exec_deny_def stage_deny_rule_def
    stage_default_deny_def stage_tool_deny_def or_return_def
  by (auto simp: find_matching_rule_None_iff split: option.splits dest: find_matching_rule_SomeD)

lemma deny_stages_Some: "deny_stages ctx tool content ex tr = Some r \<Longrightarrow> pr_behavior r = PbDeny"
  by (auto simp: deny_stages_def or_return_Some_iff stage_exec_deny_def stage_deny_rule_def
      stage_default_deny_def stage_tool_deny_def denied_by_default_def split: option.splits if_splits)

text \<open>What happens after the denials, as a function of the ask, allow and notify rules.\<close>

definition after_denials ::
  "permission_context \<Rightarrow> string \<Rightarrow> string option \<Rightarrow> bool \<Rightarrow> 'v permission_result option \<Rightarrow>
   'v permission_result \<Rightarrow> 'v permission_result" where
  "after_denials ctx tool content is_dangerous exec_result tool_result =
     (let danger = (is_dangerous \<and> cx_dangerous_auto_ask ctx);
          ask = find_matching_rule (cx_rules ctx) tool content PbAsk;
          allow = find_matching_rule (cx_rules ctx) tool content PbAllow;
          notify = find_matching_rule (cx_rules ctx) tool content PbNotify;
          effective = (case exec_result of Some r \<Rightarrow> r | None \<Rightarrow> tool_result);
          wants = (pr_behavior effective = PbAsk)
      in case or_return (stage_mode ctx tool effective)
             (or_return (stage_exec_final ctx tool exec_result)
             (or_return (stage_allow_rule allow ask tool_result)
             (or_return (stage_notify_rule notify ask tool_result)
             (or_return (stage_tool_allow ask effective)
               (stage_default ctx tool wants ask danger tool_result)))))
         of Some r \<Rightarrow> r | None \<Rightarrow> final_stage ctx tool wants ask danger tool_result)"

lemma pipeline_split:
  "evaluate_pipeline_with_exec_policy tool content dang tr ctx ep =
     (case deny_stages ctx tool content (exec_policy_stage ep tool content tr) tr of
        Some r \<Rightarrow> r
      | None \<Rightarrow> after_denials ctx tool content dang (exec_policy_stage ep tool content tr) tr)"
proof -
  have out: "(case or_return a b of Some r \<Rightarrow> r | None \<Rightarrow> f) =
      (case a of Some r \<Rightarrow> r | None \<Rightarrow> (case b of Some r \<Rightarrow> r | None \<Rightarrow> f))"
    for a b :: "'v permission_result option" and f by (cases a) simp_all
  show ?thesis
    unfolding evaluate_pipeline_with_exec_policy_def after_denials_def Let_def deny_stages_def out
      or_return_assoc
    by (simp split: option.split)
qed

lemma exec_stage_behavior:
  "exec_policy_stage ep tool content tr = Some r \<Longrightarrow> pr_behavior r \<in> {PbAllow, PbAsk, PbDeny}"
  by (auto simp: exec_policy_stage_def Let_def split: option.splits if_splits)
     (metis behavior_of_decision.elims)+

lemma hard_deny_behavior:
  "hard_deny ctx tool content (exec_policy_stage ep tool content tr) tr \<Longrightarrow>
   pr_behavior (evaluate_pipeline_with_exec_policy tool content dang tr ctx ep) = PbDeny"
  using deny_stages_None [of ctx tool content "exec_policy_stage ep tool content tr" tr]
  by (auto simp: pipeline_split dest: deny_stages_Some split: option.split)

lemma no_hard_deny:
  "\<not> hard_deny ctx tool content (exec_policy_stage ep tool content tr) tr \<Longrightarrow>
   evaluate_pipeline_with_exec_policy tool content dang tr ctx ep =
     after_denials ctx tool content dang (exec_policy_stage ep tool content tr) tr"
  by (simp add: pipeline_split deny_stages_None [THEN iffD2])

section \<open>Modes\<close>

lemmas mode_stages =
  after_denials_def Let_def stage_mode_def stage_exec_final_def stage_allow_rule_def
  stage_notify_rule_def stage_tool_allow_def stage_default_def final_stage_def
  denied_dont_ask_def denied_by_default_def by_rule_def allows_def or_return_def

lemma after_denials_bypass:
  "cx_mode ctx = MBypassPermissions \<Longrightarrow>
   pr_behavior (after_denials ctx tool content dang ex tr) =
     (let effective = (case ex of Some r \<Rightarrow> r | None \<Rightarrow> tr)
      in if allows effective then pr_behavior effective else PbAllow)"
  by (simp add: mode_stages)

lemma after_denials_plan:
  "cx_mode ctx = MPlan \<Longrightarrow>
   pr_behavior (after_denials ctx tool content dang ex tr) =
     (let effective = (case ex of Some r \<Rightarrow> r | None \<Rightarrow> tr)
      in if allows effective then pr_behavior effective else PbAsk)"
  by (simp add: mode_stages)

lemma after_denials_dont_ask:
  "pr_behavior (after_denials (ctx\<lparr>cx_mode := MDontAsk\<rparr>) tool content dang ex tr) =
     (let b = pr_behavior (after_denials (ctx\<lparr>cx_mode := MDefault\<rparr>) tool content dang ex tr)
      in if b = PbAsk then PbDeny else b)"
  by (auto simp: mode_stages split: option.split permission_behavior.split)

text \<open>No stage gives Passthrough.\<close>

lemma stage_mode_resolves: "stage_mode ctx tool e = Some r \<Longrightarrow> pr_behavior r \<noteq> PbPassthrough"
  by (auto simp: stage_mode_def allows_def split: permission_mode.splits if_splits)

lemma stage_rules_resolve:
  "stage_allow_rule a k tr = Some r \<Longrightarrow> pr_behavior r \<noteq> PbPassthrough"
  "stage_notify_rule a k tr = Some r \<Longrightarrow> pr_behavior r \<noteq> PbPassthrough"
  "stage_tool_allow k tr = Some r \<Longrightarrow> pr_behavior r \<noteq> PbPassthrough"
  by (auto simp: stage_allow_rule_def stage_notify_rule_def stage_tool_allow_def by_rule_def allows_def
      split: option.splits if_splits)

lemma stage_default_resolves: "stage_default ctx tool w k d tr = Some r \<Longrightarrow> pr_behavior r \<noteq> PbPassthrough"
  by (auto simp: stage_default_def denied_by_default_def split: permission_behavior.splits if_splits)

lemma stage_exec_final_resolves:
  "stage_exec_final ctx tool ex = Some r \<Longrightarrow> (\<And>x. ex = Some x \<Longrightarrow> pr_behavior x \<noteq> PbPassthrough) \<Longrightarrow>
   pr_behavior r \<noteq> PbPassthrough"
  by (auto simp: stage_exec_final_def denied_dont_ask_def split: option.splits if_splits)

lemma final_stage_resolves: "pr_behavior (final_stage ctx tool w k d tr) \<noteq> PbPassthrough"
  by (simp add: final_stage_def denied_dont_ask_def)

lemma or_return_all:
  "\<forall>r. a = Some r \<longrightarrow> P r \<Longrightarrow> \<forall>r. b = Some r \<longrightarrow> P r \<Longrightarrow> \<forall>r. or_return a b = Some r \<longrightarrow> P r"
  by (auto simp: or_return_Some_iff)

lemma case_result: "\<forall>r. early = Some r \<longrightarrow> P r \<Longrightarrow> P f \<Longrightarrow> P (case early of None \<Rightarrow> f | Some r \<Rightarrow> r)"
  by (cases early) auto

lemma after_denials_resolves:
  assumes "\<And>x. ex = Some x \<Longrightarrow> pr_behavior x \<noteq> PbPassthrough"
  shows "pr_behavior (after_denials ctx tool content dang ex tr) \<noteq> PbPassthrough"
  unfolding after_denials_def Let_def
  by (rule case_result [where P = "\<lambda>r. pr_behavior r \<noteq> PbPassthrough"], intro or_return_all)
     (auto simp: final_stage_resolves dest: stage_mode_resolves stage_rules_resolve
        stage_default_resolves stage_exec_final_resolves [OF _ assms])

text \<open>The pipeline reads the rules only through the four lookups.\<close>

lemma pipeline_lookup_cong:
  assumes "\<And>b. find_matching_rule rs tool content b = find_matching_rule rs' tool content b"
  shows "evaluate_pipeline_with_exec_policy tool content dang tr (ctx\<lparr>cx_rules := rs\<rparr>) ep =
         evaluate_pipeline_with_exec_policy tool content dang tr (ctx\<lparr>cx_rules := rs'\<rparr>) ep"
proof -
  let ?c = "ctx\<lparr>cx_rules := rs\<rparr>" and ?c' = "ctx\<lparr>cx_rules := rs'\<rparr>"
  have same:
    "stage_deny_rule ?c tool content = (stage_deny_rule ?c' tool content :: 'a permission_result option)"
    "stage_default_deny ?c tool content ex = stage_default_deny ?c' tool content ex"
    "stage_mode ?c tool e = stage_mode ?c' tool e"
    "stage_exec_final ?c tool ex = stage_exec_final ?c' tool ex"
    "stage_default ?c tool w k d t = stage_default ?c' tool w k d t"
    "final_stage ?c tool w k d t = final_stage ?c' tool w k d t"
    for ex :: "'a permission_result option" and e t w k d
    by (simp_all add: stage_deny_rule_def stage_default_deny_def stage_mode_def stage_exec_final_def
        stage_default_def final_stage_def assms split: option.split)
  have cx: "cx_rules ?c = rs" "cx_rules ?c' = rs'"
    "cx_dangerous_auto_ask ?c = cx_dangerous_auto_ask ?c'" by simp_all
  show ?thesis by (simp only: evaluate_pipeline_with_exec_policy_def cx assms same)
qed

lemma hard_deny_mode [simp]:
  "hard_deny (ctx\<lparr>cx_mode := m\<rparr>) tool content ex tr = hard_deny ctx tool content ex tr"
  by (simp add: hard_deny_def)

text \<open>C1: Denials are immune to every mode: an exec-policy deny, a matching deny rule, a tool's
  own deny, or a configured default of deny that no rule and no exec policy answers, each make
  the pipeline deny, whatever the mode, the other rules and the danger flag are; and in
  BypassPermissions mode these are the only denials, everything else is allowed.\<close>

theorem deny_is_bypass_immune:
  "(hard_deny ctx tool content (exec_policy_stage ep tool content tr) tr \<longrightarrow>
      pr_behavior (evaluate_pipeline_with_exec_policy tool content dang tr ctx ep) = PbDeny) \<and>
   (\<not> hard_deny ctx tool content (exec_policy_stage ep tool content tr) tr \<longrightarrow>
      pr_behavior (evaluate_pipeline_with_exec_policy tool content dang tr
        (ctx\<lparr>cx_mode := MBypassPermissions\<rparr>) ep) \<in> {PbAllow, PbNotify})"
proof (intro conjI impI)
  let ?ex = "exec_policy_stage ep tool content tr"
  show "pr_behavior (evaluate_pipeline_with_exec_policy tool content dang tr ctx ep) = PbDeny"
    if "hard_deny ctx tool content ?ex tr" using that by (rule hard_deny_behavior)
  show "pr_behavior (evaluate_pipeline_with_exec_policy tool content dang tr
        (ctx\<lparr>cx_mode := MBypassPermissions\<rparr>) ep) \<in> {PbAllow, PbNotify}"
    if "\<not> hard_deny ctx tool content ?ex tr"
    using that by (auto simp: no_hard_deny after_denials_bypass Let_def allows_def)
qed

definition demo_context :: permission_context where
  "demo_context = \<lparr>cx_mode = MBypassPermissions,
     cx_rules = [new_rule SessionSource PbAllow (target_tool ''ShellExec''),
                 new_rule GlobalSettings PbDeny (target_with_pattern ''ShellExec'' ''rm:*'')],
     cx_additional_directories = [], cx_default_behavior = PbAllow, cx_dangerous_auto_ask = True\<rparr>"

theorem deny_is_bypass_immune_witness:
  "pr_behavior (evaluate_pipeline_with_exec_policy ''ShellExec'' (Some ''rm -rf /'') True
      (pr_passthrough :: nat permission_result) demo_context None) = PbDeny"
proof -
  have "hard_deny demo_context ''ShellExec'' (Some ''rm -rf /'')
      (exec_policy_stage None ''ShellExec'' (Some ''rm -rf /'') (pr_passthrough :: nat permission_result)) pr_passthrough"
    by (simp add: hard_deny_def demo_context_def new_rule_def target_with_pattern_def target_tool_def
        target_matches_def match_content_pattern_def strip_suffix_def ends_with_def starts_with_def)
  then show ?thesis using deny_is_bypass_immune by blast
qed

text \<open>DontAsk mode is the default mode with every ask turned into a deny, and nothing else
  changed: no other outcome differs between the two modes, for any rules, tool answer or exec
  policy.  In particular a headless agent is never asked.\<close>

theorem dont_ask_is_default_without_asks:
  "pr_behavior (evaluate_pipeline_with_exec_policy tool content dang tr (ctx\<lparr>cx_mode := MDontAsk\<rparr>) ep) =
     (let b = pr_behavior (evaluate_pipeline_with_exec_policy tool content dang tr
                (ctx\<lparr>cx_mode := MDefault\<rparr>) ep)
      in if b = PbAsk then PbDeny else b)"
proof (cases "hard_deny ctx tool content (exec_policy_stage ep tool content tr) tr")
  case True
  then show ?thesis by (simp add: hard_deny_behavior)
next
  case False
  then show ?thesis by (simp add: no_hard_deny after_denials_dont_ask)
qed

text \<open>The pipeline always resolves: no input makes it answer Passthrough.\<close>

theorem pipeline_never_passthrough:
  "pr_behavior (evaluate_pipeline_with_exec_policy tool content dang tr ctx ep) \<noteq> PbPassthrough"
proof (cases "hard_deny ctx tool content (exec_policy_stage ep tool content tr) tr")
  case True
  then show ?thesis by (simp add: hard_deny_behavior)
next
  case False
  have "pr_behavior x \<noteq> PbPassthrough" if "exec_policy_stage ep tool content tr = Some x" for x
    using exec_stage_behavior [OF that] by auto
  then show ?thesis unfolding no_hard_deny [OF False] by (rule after_denials_resolves)
qed

text \<open>In default mode, with no exec-policy answer and no denial, an ask rule yields only to a
  more specific rule: with an ask rule in force the outcome is Allow exactly when the allow rule
  is more specific than it, otherwise Notify exactly when the notify rule is, and Ask in every
  other case, whatever the tool said and whatever the configured default is.\<close>

theorem ask_rule_yields_to_more_specific:
  assumes "cx_mode ctx = MDefault" "exec_policy_stage ep tool content tr = None"
    and "\<not> hard_deny ctx tool content None tr"
    and "find_matching_rule (cx_rules ctx) tool content PbAsk = Some ask"
  shows "pr_behavior (evaluate_pipeline_with_exec_policy tool content dang tr ctx ep) =
     (if (\<exists>a. find_matching_rule (cx_rules ctx) tool content PbAllow = Some a \<and> rule_is_more_specific a ask)
      then PbAllow
      else if (\<exists>n. find_matching_rule (cx_rules ctx) tool content PbNotify = Some n \<and> rule_is_more_specific n ask)
      then PbNotify else PbAsk)"
proof -
  have "stage_mode ctx tool tr = None" "stage_exec_final ctx tool (None :: 'a permission_result option) = None"
    "stage_tool_allow (Some ask) tr = None" "stage_default ctx tool w (Some ask) d tr = None"
    "pr_behavior (final_stage ctx tool w (Some ask) d tr) = PbAsk" for w d
    using assms(1) by (simp_all add: stage_mode_def stage_exec_final_def stage_tool_allow_def
        stage_default_def final_stage_def)
  note stages = this
  have "evaluate_pipeline_with_exec_policy tool content dang tr ctx ep = after_denials ctx tool content dang None tr"
    using no_hard_deny assms(2,3) by metis
  also have "pr_behavior \<dots> = pr_behavior
     (case or_return (stage_allow_rule (find_matching_rule (cx_rules ctx) tool content PbAllow) (Some ask) tr)
             (stage_notify_rule (find_matching_rule (cx_rules ctx) tool content PbNotify) (Some ask) tr) of
        Some r \<Rightarrow> r
      | None \<Rightarrow> final_stage ctx tool (pr_behavior tr = PbAsk) (Some ask) (dang \<and> cx_dangerous_auto_ask ctx) tr)"
    by (simp only: after_denials_def Let_def assms(4) option.case stages or_return_simps)
       (simp add: or_return_def split: option.split)
  also have "\<dots> = (if (\<exists>a. find_matching_rule (cx_rules ctx) tool content PbAllow = Some a \<and> rule_is_more_specific a ask)
      then PbAllow
      else if (\<exists>n. find_matching_rule (cx_rules ctx) tool content PbNotify = Some n \<and> rule_is_more_specific n ask)
      then PbNotify else PbAsk)"
    by (auto simp: stage_allow_rule_def stage_notify_rule_def by_rule_def stages(5) split: option.split)
  finally show ?thesis .
qed

theorem ask_rule_yields_to_more_specific_witness:
  "pr_behavior (evaluate_pipeline_with_exec_policy ''FileRead'' (Some ''/tmp/x'') False
      (pr_allow ''read-only'' :: nat permission_result)
      (default_context\<lparr>cx_rules := [new_rule GlobalSettings PbAsk (target_tool ''FileRead''),
         new_rule SessionSource PbNotify (target_with_pattern ''FileRead'' ''/tmp/x'')]\<rparr>) None) = PbNotify"
  by (subst ask_rule_yields_to_more_specific [where ask = "new_rule GlobalSettings PbAsk (target_tool ''FileRead'')"])
     (auto simp: default_context_def exec_policy_stage_def hard_deny_def find_matching_rule_def new_rule_def
        target_tool_def target_with_pattern_def target_matches_def match_content_pattern_def
        strip_suffix_def ends_with_def rule_is_more_specific_def pr_allow_def)

text \<open>Plan mode looks only at the tool's own answer (or the exec policy's): after the
  denials, the outcome is that answer when it allows or notifies, and Ask otherwise; allow, notify
  and ask rules have no influence.  So an explicit ask rule on a read-only tool, which default mode
  honours, is not honoured in plan mode.\<close>

theorem plan_mode_ignores_rules:
  "pr_behavior (evaluate_pipeline_with_exec_policy tool content dang tr (ctx\<lparr>cx_mode := MPlan\<rparr>) ep) =
     (if hard_deny ctx tool content (exec_policy_stage ep tool content tr) tr then PbDeny
      else let effective = (case exec_policy_stage ep tool content tr of Some r \<Rightarrow> r | None \<Rightarrow> tr)
           in if allows effective then pr_behavior effective else PbAsk)"
  by (simp add: hard_deny_behavior no_hard_deny after_denials_plan)

text \<open>Adding a deny rule anywhere in the rule list either makes the request denied, when
  the rule matches it, or changes nothing about its outcome, when it does not.\<close>

theorem adding_deny_rule:
  assumes "rl_behavior r = PbDeny"
  shows "pr_behavior (evaluate_pipeline_with_exec_policy tool content dang tr (ctx\<lparr>cx_rules := rs @ r # rs'\<rparr>) ep) =
     (if target_matches (rl_target r) tool content then PbDeny
      else pr_behavior (evaluate_pipeline_with_exec_policy tool content dang tr (ctx\<lparr>cx_rules := rs @ rs'\<rparr>) ep))"
proof (cases "target_matches (rl_target r) tool content")
  case True
  then have "hard_deny (ctx\<lparr>cx_rules := rs @ r # rs'\<rparr>) tool content (exec_policy_stage ep tool content tr) tr"
    using assms by (auto simp: hard_deny_def)
  with True show ?thesis by (simp add: hard_deny_behavior)
next
  case False
  then have "find_matching_rule (rs @ r # rs') tool content b = find_matching_rule (rs @ rs') tool content b" for b
    by (simp add: find_matching_rule_def find_skip cong: option.case_cong)
  with False show ?thesis using pipeline_lookup_cong by metis
qed

theorem adding_deny_rule_witness:
  "pr_behavior (evaluate_pipeline_with_exec_policy ''Browser'' None False (pr_allow ''x'' :: nat permission_result)
      (default_context\<lparr>cx_rules := [] @ new_rule CliArg PbDeny (target_tool ''Browser'') # []\<rparr>) None) = PbDeny"
  using adding_deny_rule [where r = "new_rule CliArg PbDeny (target_tool ''Browser'')" and tool = "''Browser''"
      and content = None and dang = False and tr = "pr_allow ''x'' :: nat permission_result"
      and ctx = default_context and rs = "[]" and rs' = "[]" and ep = None]
  by (simp add: new_rule_def target_tool_def target_matches_def)

end
