(* ===== verification/ShellTokens.thy ===== *)
theory ShellTokens
  imports PermPipelineCorrect
begin

text \<open>
  The tokenizer of the permission pipeline and the exec policy together: what the tokens of a
  plain command are, that a command line that extends a denied one is denied, and that the
  tokenizer takes a line break for a word separator.
\<close>

section \<open>The tokenizer loop\<close>

lemma tokenize_loop_append:
  "tokenize_loop (xs @ ys) ts cur q d =
     (case tokenize_loop xs ts cur q d of (ts', cur', q', d') \<Rightarrow> tokenize_loop ys ts' cur' q' d')"
  by (induction xs ts cur q d rule: tokenize_loop.induct) auto

text \<open>A plain word: no whitespace, no quote, no metacharacter.\<close>

definition plain_char :: "char \<Rightarrow> bool" where
  "plain_char c \<longleftrightarrow> \<not> is_ws c \<and> c \<noteq> CHR 0x27 \<and> c \<noteq> CHR 0x22 \<and> c \<notin> shell_metachars"

definition plain_word :: "string \<Rightarrow> bool" where
  "plain_word w \<longleftrightarrow> w \<noteq> [] \<and> (\<forall>c \<in> set w. plain_char c)"

lemma tokenize_loop_plain:
  "\<forall>c \<in> set w. plain_char c \<Longrightarrow> tokenize_loop w ts cur False False = (ts, cur @ w, False, False)"
  by (induction w arbitrary: cur) (auto simp: plain_char_def)

lemma ws_not_quote: "is_ws c \<Longrightarrow> c \<noteq> CHR 0x27 \<and> c \<noteq> CHR 0x22"
  by (auto simp: is_ws_def)

lemma tokenize_loop_ws:
  "\<forall>c \<in> set s. is_ws c \<Longrightarrow> s \<noteq> [] \<Longrightarrow>
   tokenize_loop s ts cur False False = (if cur \<noteq> [] then ts @ [cur] else ts, [], False, False)"
proof (induction s arbitrary: ts cur)
  case (Cons c s)
  then show ?case using ws_not_quote [of c] by (cases "s = []") auto
qed simp

lemma tokenize_loop_words:
  assumes "is_ws sep" "\<forall>w \<in> set ws. plain_word w" "plain_word w0"
  shows "tokenize_loop (str_join [sep] (ws @ [w0])) ts [] False False = (ts @ ws, w0, False, False)"
  using assms(2)
proof (induction ws arbitrary: ts)
  case Nil
  then show ?case using assms(3) by (simp add: tokenize_loop_plain plain_word_def)
next
  case (Cons w ws)
  have join: "str_join [sep] ((w # ws) @ [w0]) = w @ [sep] @ str_join [sep] (ws @ [w0])"
    by (cases ws) simp_all
  have w: "tokenize_loop w ts [] False False = (ts, w, False, False)" "w \<noteq> []"
    using Cons.prems by (simp_all add: tokenize_loop_plain plain_word_def)
  have "tokenize_loop [sep] ts w False False = (ts @ [w], [], False, False)"
    using tokenize_loop_ws [of "[sep]" ts w] assms(1) w(2) by simp
  then show ?case
    unfolding join tokenize_loop_append w using Cons by simp
qed

section \<open>The whole tokenizer\<close>

lemma str_trim_id: "s \<noteq> [] \<Longrightarrow> \<not> is_ws (hd s) \<Longrightarrow> \<not> is_ws (last s) \<Longrightarrow> str_trim s = s"
  by (rule str_trim_trimmed) (simp add: trimmed_def)

lemma set_join: "set (str_join [sep] ws) \<subseteq> insert sep (\<Union> (set ` set ws))"
  by (induction "[sep]" ws rule: str_join.induct) auto

lemma join_ends:
  "\<forall>w \<in> set ws. w \<noteq> [] \<Longrightarrow> ws \<noteq> [] \<Longrightarrow>
     str_join sep ws \<noteq> [] \<and> hd (str_join sep ws) = hd (hd ws) \<and> last (str_join sep ws) = last (last ws)"
  by (induction sep ws rule: str_join.induct) auto

lemma plain_word_ends: "plain_word w \<Longrightarrow> \<not> is_ws (hd w) \<and> \<not> is_ws (last w)"
  by (auto simp: plain_word_def plain_char_def)

lemma tokenize_words:
  assumes sep: "is_ws sep" "sep \<notin> shell_metachars" and ws: "\<forall>w \<in> set ws. plain_word w" "ws \<noteq> []"
  shows "tokenize_shell_command (str_join [sep] ws) = Some ws"
proof -
  let ?s = "str_join [sep] ws"
  have "\<forall>w \<in> set ws. w \<noteq> []" using ws by (auto simp: plain_word_def)
  note ends = join_ends [OF this ws(2), of "[sep]"]
  have trim: "str_trim ?s = ?s"
    using ends ws plain_word_ends by (intro str_trim_id) auto
  have "set ?s \<inter> shell_metachars = {}"
    using set_join [of sep ws] sep(2) ws(1) by (auto simp: plain_word_def plain_char_def)
  then have meta: "\<not> list_ex (\<lambda>c. c \<in> shell_metachars) ?s" by (auto simp: list_ex_iff)
  obtain us w where us: "ws = us @ [w]" using ws(2) by (metis append_butlast_last_id)
  have "tokenize_loop ?s [] [] False False = (us, w, False, False)" "w \<noteq> []"
    using tokenize_loop_words [OF sep(1), of us w "[]"] ws by (auto simp: us plain_word_def)
  with trim meta ends us show ?thesis by (simp add: tokenize_shell_command_def Let_def)
qed

lemma tokenize_SomeD:
  assumes "tokenize_shell_command c = Some toks"
  shows "str_trim c \<noteq> []" "\<not> list_ex (\<lambda>c. c \<in> shell_metachars) (str_trim c)"
    "\<exists>ts cur. tokenize_loop (str_trim c) [] [] False False = (ts, cur, False, False) \<and>
       toks = (if cur \<noteq> [] then ts @ [cur] else ts) \<and> toks \<noteq> []"
  using assms by (auto simp: tokenize_shell_command_def Let_def split: if_splits prod.splits)

lemma trim_decomp: "\<exists>pre suf. c = pre @ str_trim c @ suf \<and> (\<forall>x \<in> set pre. is_ws x) \<and> (\<forall>x \<in> set suf. is_ws x)"
proof -
  let ?t = "trim_start c"
  have "c = takeWhile is_ws c @ ?t" by (simp add: trim_start_def)
  moreover have "?t = str_trim c @ rev (takeWhile is_ws (rev ?t))"
    unfolding str_trim_def trim_end_def by (metis rev_append rev_rev_ident takeWhile_dropWhile_id)
  moreover have "\<forall>x \<in> set (takeWhile is_ws c). is_ws x" "\<forall>x \<in> set (rev (takeWhile is_ws (rev ?t))). is_ws x"
    by (auto dest: set_takeWhileD)
  ultimately show ?thesis by metis
qed

lemma str_trim_ends: "str_trim c \<noteq> [] \<Longrightarrow> \<not> is_ws (hd (str_trim c))"
proof -
  assume ne: "str_trim c \<noteq> []"
  have "trim_start c \<noteq> []" using ne by (auto simp: str_trim_def trim_end_def)
  then have h: "\<not> is_ws (hd (trim_start c))"
    unfolding trim_start_def by (rule hd_dropWhile)
  from ne obtain r where "trim_start c = str_trim c @ r"
    unfolding str_trim_def trim_end_def by (metis rev_append rev_rev_ident takeWhile_dropWhile_id)
  with ne h show ?thesis by (metis hd_append)
qed

lemma str_trim_middle:
  assumes "\<forall>x \<in> set pre. is_ws x" "s \<noteq> []" "\<not> is_ws (hd s)" "\<not> is_ws (last s)"
  shows "str_trim (pre @ s) = s"
proof -
  have "trim_start (pre @ s) = s"
    using assms by (simp add: trim_start_def dropWhile_append2 dropWhile_id)
  then show ?thesis using str_trim_id [OF assms(2-4)] assms
    by (simp add: str_trim_def trim_end_def dropWhile_id hd_rev)
qed

lemma tokenize_append_word:
  assumes c: "tokenize_shell_command c = Some toks" and w: "plain_word w"
  shows "tokenize_shell_command (c @ '' '' @ w) = Some (toks @ [w])"
proof -
  obtain ts cur where loop: "tokenize_loop (str_trim c) [] [] False False = (ts, cur, False, False)"
    and toks: "toks = (if cur \<noteq> [] then ts @ [cur] else ts)"
    using tokenize_SomeD(3) [OF c] by blast
  obtain pre suf where d: "c = pre @ str_trim c @ suf" "\<forall>x \<in> set pre. is_ws x" "\<forall>x \<in> set suf. is_ws x"
    using trim_decomp by blast
  let ?s = "str_trim c @ (suf @ '' '') @ w"
  have w': "w \<noteq> []" "\<forall>x \<in> set w. plain_char x" using w by (auto simp: plain_word_def)
  have sp: "is_ws (CHR '' '')" by (simp add: is_ws_def)
  have trim: "str_trim (c @ '' '' @ w) = ?s"
  proof -
    have "c @ '' '' @ w = pre @ ?s" by (subst d(1)) simp
    then have "str_trim (c @ '' '' @ w) = str_trim (pre @ ?s)" by (rule arg_cong)
    also have "\<dots> = ?s"
      using str_trim_middle [OF d(2), of ?s] tokenize_SomeD(1) [OF c] str_trim_ends [of c]
        plain_word_ends [OF w] w'(1) by simp
    finally show ?thesis .
  qed
  have meta: "\<not> list_ex (\<lambda>c. c \<in> shell_metachars) ?s"
  proof -
    have ws_meta: "is_ws x \<Longrightarrow> x \<notin> shell_metachars" for x
      by (auto simp: is_ws_def shell_metachars_def)
    show ?thesis using tokenize_SomeD(2) [OF c] d(3) w'(2) ws_meta sp
      by (auto simp: list_ex_iff plain_char_def)
  qed
  have "tokenize_loop (suf @ '' '') ts cur False False = (toks, [], False, False)"
    using tokenize_loop_ws [of "suf @ '' ''" ts cur] d(3) sp toks by auto
  then have "tokenize_loop ?s [] [] False False = (toks, w, False, False)"
    unfolding tokenize_loop_append loop by (simp add: tokenize_loop_plain w'(2))
  with trim meta w'(1) tokenize_SomeD(1) [OF c] show ?thesis
    by (simp add: tokenize_shell_command_def Let_def)
qed

section \<open>The exec policy behind the tokenizer\<close>

text \<open>What the pipeline relies on in an exec policy: extending a command it decides gives a
  command it decides at least as strictly.\<close>

locale exec_decider =
  fixes evaluate :: exec_eval
  assumes extend: "evaluate cmd = Some e \<Longrightarrow> cmd \<noteq> [] \<Longrightarrow>
    \<exists>e'. evaluate (cmd @ args) = Some e' \<and> ev_decision e \<le> ev_decision e'"
begin

lemma deny_extends:
  assumes "evaluate cmd = Some e" "ev_decision e = EdDeny" "cmd \<noteq> []"
  shows "\<exists>e'. evaluate (cmd @ args) = Some e' \<and> ev_decision e' = EdDeny"
  using extend [OF assms(1,3), of args] assms(2) by (metis EdDeny_greatest order_antisym)

lemma stage_deny_extends:
  assumes r: "exec_policy_stage (Some evaluate) ''ShellExec'' (Some c) tr = Some r" "pr_behavior r = PbDeny"
    and w: "plain_word w"
  shows "\<exists>r'. exec_policy_stage (Some evaluate) ''ShellExec'' (Some (c @ '' '' @ w)) tr = Some r' \<and>
     pr_behavior r' = PbDeny"
proof -
  from r obtain toks e where toks: "tokenize_shell_command c = Some toks" and e: "evaluate toks = Some e"
    and "behavior_of_decision (ev_decision e) = PbDeny"
    by (auto simp: exec_policy_stage_def Let_def split: option.splits)
  then have "ev_decision e = EdDeny" by (cases "ev_decision e") auto
  from deny_extends [OF e this] tokenize_SomeD(3) [OF toks] obtain e'
    where "evaluate (toks @ [w]) = Some e'" "ev_decision e' = EdDeny" by blast
  with tokenize_append_word [OF toks w] show ?thesis
    by (simp add: exec_policy_stage_def Let_def)
qed

end

context multimap begin

lemma manager_decider: "exec_decider (manager_evaluate ops mgr)"
  by unfold_locales (auto simp: manager_evaluate_def intro: evaluate_extend)

end

interpretation vec_decider: exec_decider "manager_evaluate vec_ops mgr" for mgr
  by (rule vec_mm.manager_decider)

section \<open>Properties\<close>

text \<open>For a command line of plain words (no whitespace, quotes or metacharacters) separated
  by one whitespace character, the tokenizer gives back exactly those words.  The separator may
  be any whitespace character, a line break included: two command lines joined by a line break
  become one command for the exec policy, whose rules then see the second line as arguments of
  the first.\<close>

theorem tokenize_join_roundtrip:
  assumes "is_ws sep" "ws \<noteq> []" "\<forall>w \<in> set ws. plain_word w"
  shows "tokenize_shell_command (str_join [sep] ws) = Some ws"
proof -
  have "sep \<notin> shell_metachars" using assms(1) by (auto simp: is_ws_def shell_metachars_def)
  then show ?thesis using tokenize_words assms by blast
qed

theorem tokenize_join_roundtrip_witness:
  "tokenize_shell_command (''ls'' @ [newline] @ ''rm'' @ [newline] @ ''-rf'') = Some [''ls'', ''rm'', ''-rf'']"
  using tokenize_join_roundtrip [of newline "[''ls'', ''rm'', ''-rf'']"]
  by (simp add: is_ws_def newline_def plain_word_def plain_char_def shell_metachars_def)


definition deny_rm :: "(string, prefix_rule list) alist exec_policy_manager" where
  "deny_rm = \<lparr>mg_policy = from_rules vec_ops [\<lparr>px_pattern = \<lparr>pp_first = ''rm'', pp_rest = []\<rparr>,
     px_decision = EdDeny, px_justification = None\<rparr>], mg_policy_path = None\<rparr>"

lemma deny_rm_evaluate:
  "manager_evaluate vec_ops deny_rm [''rm''] = Some (from_matches
     [\<lparr>rm_matched_prefix = [''rm''], rm_decision = EdDeny, rm_justification = None\<rparr>])"
  by (simp add: manager_evaluate_def policy_evaluate_def deny_rm_def vec_mm.matches_from_rules
      rule_matches_def matches_prefix_def List.map_filter_simps)


end
