(* ===== verification/RuleStore.thy ===== *)
theory RuleStore
  imports PermTypes ExecParser
begin

text \<open>
  The permission rule store of \<open>y-guardrails/src/rule_store.rs\<close> with the error
  type of \<open>y-guardrails/src/error.rs\<close>.  Rules come from two settings files, the
  command line and the session; \<open>add_rule\<close>, \<open>apply_update\<close> and
  \<open>remove_rule\<close> change a rule list in memory, the settings it came from, and the
  file.  The \<open>toml\<close> crate is the parameter \<open>toml_ops\<close>; the file system is
  the \<open>file_env\<close> of the exec policy's amendments.

  \<open>parse_rule_string\<close> slices its argument between the first \<open>(\<close> and the
  last \<open>)\<close>, which panics when the \<open>)\<close> comes first: a function that may
  panic returns an option, and \<open>None\<close> is the panic.
\<close>

section \<open>Errors\<close>

datatype loop_pattern = Repetition | Oscillation | Drift | RedundantToolCall

fun pattern_display :: "loop_pattern \<Rightarrow> string" where
  "pattern_display Repetition = ''Repetition''"
| "pattern_display Oscillation = ''Oscillation''"
| "pattern_display Drift = ''Drift''"
| "pattern_display RedundantToolCall = ''RedundantToolCall''"

datatype guardrail_error =
  GePermissionDenied string string
| GeLoopDetected loop_pattern string
| GeTaintViolation string string
| GeHitlTimeout nat
| GeHitlDenied string
| GeConfigError string
| GeOther string

section \<open>Settings\<close>

record permission_settings =
  ps_default_mode :: "string option"
  ps_allow :: "string list"
  ps_notify :: "string list"
  ps_deny :: "string list"
  ps_ask :: "string list"
  ps_additional_directories :: "string list"

definition empty_settings :: permission_settings where
  "empty_settings = \<lparr>ps_default_mode = None, ps_allow = [], ps_notify = [], ps_deny = [],
     ps_ask = [], ps_additional_directories = []\<rparr>"

definition str_slice :: "string \<Rightarrow> nat \<Rightarrow> nat \<Rightarrow> string option" where
  "str_slice s i j = (if i \<le> j \<and> j \<le> length s then Some (take (j - i) (drop i s)) else None)"

definition parse_rule_string :: "string \<Rightarrow> permission_rule_target option" where
  "parse_rule_string s =
     (case str_find CHR ''('' s of
        Some i \<Rightarrow>
          (case str_rfind CHR '')'' s of
             Some j \<Rightarrow>
               (case str_slice s (i + 1) j of
                  None \<Rightarrow> None
                | Some pattern \<Rightarrow>
                    Some (target_with_pattern (str_trim (take i s)) (str_trim pattern)))
           | None \<Rightarrow> Some (target_tool (str_trim s)))
      | None \<Rightarrow> Some (target_tool (str_trim s)))"

definition parse_rules ::
  "string list \<Rightarrow> permission_behavior \<Rightarrow> permission_rule_source \<Rightarrow> permission_rule list option" where
  "parse_rules ss b src = those (map (\<lambda>s. map_option (new_rule src b) (parse_rule_string s)) ss)"

definition settings_to_rules ::
  "permission_settings \<Rightarrow> permission_rule_source \<Rightarrow> permission_rule list option" where
  "settings_to_rules st src =
     (case (parse_rules (ps_allow st) PbAllow src, parse_rules (ps_notify st) PbNotify src,
            parse_rules (ps_deny st) PbDeny src, parse_rules (ps_ask st) PbAsk src) of
        (Some a, Some n, Some d, Some k) \<Rightarrow> Some (a @ n @ d @ k)
      | _ \<Rightarrow> None)"

definition parse_mode :: "string \<Rightarrow> permission_mode option" where
  "parse_mode s =
     (if s = ''default'' then Some MDefault
      else if s = ''plan'' then Some MPlan
      else if s = ''accept_edits'' then Some MAcceptEdits
      else if s = ''bypass_permissions'' then Some MBypassPermissions
      else if s = ''dont_ask'' then Some MDontAsk
      else None)"

definition push_new :: "'a \<Rightarrow> 'a list \<Rightarrow> 'a list" where
  "push_new x xs = (if x \<in> set xs then xs else xs @ [x])"

definition add_to_settings :: "permission_settings \<Rightarrow> permission_rule \<Rightarrow> permission_settings" where
  "add_to_settings st r =
     (let s = to_rule_string (rl_target r)
      in case rl_behavior r of
           PbAllow \<Rightarrow> st\<lparr>ps_allow := push_new s (ps_allow st)\<rparr>
         | PbNotify \<Rightarrow> st\<lparr>ps_notify := push_new s (ps_notify st)\<rparr>
         | PbDeny \<Rightarrow> st\<lparr>ps_deny := push_new s (ps_deny st)\<rparr>
         | PbAsk \<Rightarrow> st\<lparr>ps_ask := push_new s (ps_ask st)\<rparr>
         | PbPassthrough \<Rightarrow> st)"

definition remove_from_settings :: "permission_settings \<Rightarrow> permission_rule \<Rightarrow> permission_settings" where
  "remove_from_settings st r =
     (let s = to_rule_string (rl_target r)
      in case rl_behavior r of
           PbAllow \<Rightarrow> st\<lparr>ps_allow := filter (\<lambda>x. x \<noteq> s) (ps_allow st)\<rparr>
         | PbNotify \<Rightarrow> st\<lparr>ps_notify := filter (\<lambda>x. x \<noteq> s) (ps_notify st)\<rparr>
         | PbDeny \<Rightarrow> st\<lparr>ps_deny := filter (\<lambda>x. x \<noteq> s) (ps_deny st)\<rparr>
         | PbAsk \<Rightarrow> st\<lparr>ps_ask := filter (\<lambda>x. x \<noteq> s) (ps_ask st)\<rparr>
         | PbPassthrough \<Rightarrow> st)"

section \<open>Settings files\<close>

text \<open>
  The \<open>toml\<close> crate: reading the \<open>[permissions]\<close> table of a text, reading a text
  as a table, the empty table, setting the \<open>permissions\<close> entry to a settings value, and
  printing.  \<open>Inl\<close> carries the crate's error text.
\<close>

record 't toml_ops =
  tm_config :: "string \<Rightarrow> string + permission_settings"
  tm_value :: "string \<Rightarrow> string + 't"
  tm_empty :: 't
  tm_set_permissions :: "'t \<Rightarrow> permission_settings \<Rightarrow> string + 't"
  tm_print :: "'t \<Rightarrow> string + string"

definition ge_file :: "string \<Rightarrow> string \<Rightarrow> string \<Rightarrow> guardrail_error" where
  "ge_file what path e = GeOther (''failed to '' @ what @ '' '' @ [CHR 0x27] @ path @ [CHR 0x27] @ '': '' @ e)"

definition read_text :: "file_env \<Rightarrow> string \<Rightarrow> string + string" where
  "read_text env path =
     (if fe_failing env = Some IoRead then Inl ''read error''
      else case fe_files env path of None \<Rightarrow> Inl ''not found'' | Some c \<Rightarrow> Inr c)"

definition load_settings_from_file ::
  "'t toml_ops \<Rightarrow> file_env \<Rightarrow> string \<Rightarrow> guardrail_error + permission_settings" where
  "load_settings_from_file tm env path =
     (case read_text env path of
        Inl e \<Rightarrow> Inl (ge_file ''read'' path e)
      | Inr content \<Rightarrow>
          (case tm_config tm content of
             Inl e \<Rightarrow> Inl (ge_file ''parse'' path e)
           | Inr st \<Rightarrow> Inr st))"

definition save_settings_to_file ::
  "'t toml_ops \<Rightarrow> file_env \<Rightarrow> string \<Rightarrow> permission_settings \<Rightarrow> file_env \<times> (guardrail_error + unit)" where
  "save_settings_to_file tm env path st =
     (case (if fe_files env path \<noteq> None then read_text env path else Inr []) of
        Inl e \<Rightarrow> (env, Inl (ge_file ''read'' path e))
      | Inr existing \<Rightarrow>
          (case (if str_trim existing = [] then Inr (tm_empty tm) else tm_value tm existing) of
             Inl e \<Rightarrow> (env, Inl (ge_file ''parse'' path e))
           | Inr config \<Rightarrow>
               (case tm_set_permissions tm config st of
                  Inl e \<Rightarrow> (env, Inl (GeOther (''failed to serialize permissions: '' @ e)))
                | Inr config' \<Rightarrow>
                    (case tm_print tm config' of
                       Inl e \<Rightarrow> (env, Inl (GeOther (''failed to format TOML: '' @ e)))
                     | Inr output \<Rightarrow>
                         (case (fe_failing env, fe_parent env path) of
                            (Some IoCreateDir, Some dir) \<Rightarrow>
                              (env, Inl (ge_file ''create directory'' dir ''io error''))
                          | (Some IoOpen, _) \<Rightarrow> (env, Inl (ge_file ''write'' path ''io error''))
                          | (Some IoWrite, _) \<Rightarrow>
                              (env\<lparr>fe_files := (fe_files env)(path \<mapsto> take (fe_io_written env) output)\<rparr>,
                               Inl (ge_file ''write'' path ''io error''))
                          | _ \<Rightarrow> (env\<lparr>fe_files := (fe_files env)(path \<mapsto> output)\<rparr>, Inr ()))))))"

section \<open>The store\<close>

record rule_store =
  rs_global_rules :: "permission_rule list"
  rs_project_rules :: "permission_rule list"
  rs_cli_rules :: "permission_rule list"
  rs_session_rules :: "permission_rule list"
  rs_global_settings :: permission_settings
  rs_project_settings :: permission_settings
  rs_global_path :: "string option"
  rs_project_path :: "string option"
  rs_additional_directories :: "string list"
  rs_default_mode :: permission_mode

definition empty_store :: rule_store where
  "empty_store = \<lparr>rs_global_rules = [], rs_project_rules = [], rs_cli_rules = [],
     rs_session_rules = [], rs_global_settings = empty_settings,
     rs_project_settings = empty_settings, rs_global_path = None, rs_project_path = None,
     rs_additional_directories = [], rs_default_mode = MDefault\<rparr>"

definition load_mode :: "permission_settings \<Rightarrow> permission_mode \<Rightarrow> permission_mode" where
  "load_mode st m = (case ps_default_mode st of
      None \<Rightarrow> m | Some s \<Rightarrow> (case parse_mode s of None \<Rightarrow> m | Some m' \<Rightarrow> m'))"

definition load_global :: "'t toml_ops \<Rightarrow> file_env \<Rightarrow> string \<Rightarrow> rule_store \<Rightarrow> rule_store option" where
  "load_global tm env path store =
     (let store = store\<lparr>rs_global_path := Some path\<rparr>
      in if fe_files env path = None then Some store
         else case load_settings_from_file tm env path of
                Inl _ \<Rightarrow> Some store
              | Inr st \<Rightarrow> map_option (\<lambda>rules. store\<lparr>rs_global_rules := rules,
                    rs_additional_directories := rs_additional_directories store @ ps_additional_directories st,
                    rs_default_mode := load_mode st (rs_default_mode store),
                    rs_global_settings := st\<rparr>) (settings_to_rules st GlobalSettings))"

definition load_project ::
  "'t toml_ops \<Rightarrow> file_env \<Rightarrow> string option \<Rightarrow> rule_store \<Rightarrow> rule_store option" where
  "load_project tm env project_path store =
     (case project_path of
        None \<Rightarrow> Some store
      | Some path \<Rightarrow>
          let store = store\<lparr>rs_project_path := Some path\<rparr>
          in if fe_files env path = None then Some store
             else case load_settings_from_file tm env path of
                    Inl _ \<Rightarrow> Some store
                  | Inr st \<Rightarrow> map_option (\<lambda>rules. store\<lparr>rs_project_rules := rules,
                        rs_additional_directories := rs_additional_directories store @ ps_additional_directories st,
                        rs_default_mode := load_mode st (rs_default_mode store),
                        rs_project_settings := st\<rparr>) (settings_to_rules st ProjectSettings))"

definition load_store ::
  "'t toml_ops \<Rightarrow> file_env \<Rightarrow> string \<Rightarrow> string option \<Rightarrow> rule_store option" where
  "load_store tm env global_path project_path =
     Option.bind (load_global tm env global_path empty_store) (load_project tm env project_path)"

definition add_cli_rules :: "rule_store \<Rightarrow> permission_rule list \<Rightarrow> rule_store" where
  "add_cli_rules store rules = store\<lparr>rs_cli_rules := rs_cli_rules store @ rules\<rparr>"

definition add_cli_allow :: "rule_store \<Rightarrow> string \<Rightarrow> rule_store option" where
  "add_cli_allow store spec = map_option (\<lambda>t. store\<lparr>rs_cli_rules := rs_cli_rules store @
     [new_rule CliArg PbAllow t]\<rparr>) (parse_rule_string spec)"

definition add_cli_deny :: "rule_store \<Rightarrow> string \<Rightarrow> rule_store option" where
  "add_cli_deny store spec = map_option (\<lambda>t. store\<lparr>rs_cli_rules := rs_cli_rules store @
     [new_rule CliArg PbDeny t]\<rparr>) (parse_rule_string spec)"

definition add_session_rule :: "rule_store \<Rightarrow> permission_rule \<Rightarrow> rule_store" where
  "add_session_rule store r = store\<lparr>rs_session_rules := rs_session_rules store @ [r]\<rparr>"

text \<open>Saving to an optional path: without one there is nothing to persist.\<close>

definition save_at ::
  "'t toml_ops \<Rightarrow> file_env \<Rightarrow> string option \<Rightarrow> permission_settings \<Rightarrow> file_env \<times> (guardrail_error + unit)" where
  "save_at tm env path st =
     (case path of None \<Rightarrow> (env, Inr ()) | Some p \<Rightarrow> save_settings_to_file tm env p st)"

definition add_rule_to_settings ::
  "'t toml_ops \<Rightarrow> file_env \<Rightarrow> rule_store \<Rightarrow> permission_rule \<Rightarrow> permission_settings \<Rightarrow> bool
     \<Rightarrow> file_env \<times> rule_store \<times> (guardrail_error + unit)" where
  "add_rule_to_settings tm env store r settings is_global =
     (let settings = add_to_settings settings r
      in if is_global
         then let store' = store\<lparr>rs_global_rules := rs_global_rules store @ [r],
                                 rs_global_settings := settings\<rparr>;
                  (env', res) = save_at tm env (rs_global_path store) settings
              in (env', store', res)
         else let store' = store\<lparr>rs_project_rules := rs_project_rules store @ [r],
                                 rs_project_settings := settings\<rparr>;
                  (env', res) = save_at tm env (rs_project_path store) settings
              in (env', store', res))"

definition apply_update ::
  "'t toml_ops \<Rightarrow> file_env \<Rightarrow> rule_store \<Rightarrow> permission_update
     \<Rightarrow> file_env \<times> rule_store \<times> (guardrail_error + unit)" where
  "apply_update tm env store up =
     (let r = new_rule (up_destination up) (up_behavior up) (up_target up)
      in case up_destination up of
           GlobalSettings \<Rightarrow> add_rule_to_settings tm env store r (rs_global_settings store) True
         | ProjectSettings \<Rightarrow> add_rule_to_settings tm env store r (rs_project_settings store) False
         | SessionSource \<Rightarrow>
             (env, store\<lparr>rs_session_rules := rs_session_rules store @ [r]\<rparr>, Inr ())
         | d \<Rightarrow> (env, store, Inl (GeOther (''cannot persist rules to '' @ debug_source d @ '' source''))))"

definition add_rule_store ::
  "'t toml_ops \<Rightarrow> file_env \<Rightarrow> rule_store \<Rightarrow> permission_rule
     \<Rightarrow> file_env \<times> rule_store \<times> (guardrail_error + unit)" where
  "add_rule_store tm env store r =
     (case rl_source r of
        GlobalSettings \<Rightarrow>
          (let store' = store\<lparr>rs_global_rules := rs_global_rules store @ [r],
                              rs_global_settings := add_to_settings (rs_global_settings store) r\<rparr>;
               (env', res) = save_at tm env (rs_global_path store') (rs_global_settings store')
           in (env', store', res))
      | ProjectSettings \<Rightarrow>
          (let store' = store\<lparr>rs_project_rules := rs_project_rules store @ [r],
                              rs_project_settings := add_to_settings (rs_project_settings store) r\<rparr>;
               (env', res) = save_at tm env (rs_project_path store') (rs_project_settings store')
           in (env', store', res))
      | CliArg \<Rightarrow> (env, store\<lparr>rs_cli_rules := rs_cli_rules store @ [r]\<rparr>, Inr ())
      | SessionSource \<Rightarrow> (env, store\<lparr>rs_session_rules := rs_session_rules store @ [r]\<rparr>, Inr ())
      | AgentConfig \<Rightarrow> (env, store, Inl (GeOther ''cannot add rules to AgentConfig source'')))"

definition retain_others :: "permission_rule \<Rightarrow> permission_rule list \<Rightarrow> permission_rule list" where
  "retain_others r rules =
     filter (\<lambda>x. rl_target x \<noteq> rl_target r \<or> rl_behavior x \<noteq> rl_behavior r) rules"

definition remove_rule ::
  "'t toml_ops \<Rightarrow> file_env \<Rightarrow> rule_store \<Rightarrow> permission_rule
     \<Rightarrow> file_env \<times> rule_store \<times> (guardrail_error + unit)" where
  "remove_rule tm env store r =
     (case rl_source r of
        GlobalSettings \<Rightarrow>
          (let store' = store\<lparr>rs_global_rules := retain_others r (rs_global_rules store),
                              rs_global_settings := remove_from_settings (rs_global_settings store) r\<rparr>;
               (env', res) = save_at tm env (rs_global_path store') (rs_global_settings store')
           in (env', store', res))
      | ProjectSettings \<Rightarrow>
          (let store' = store\<lparr>rs_project_rules := retain_others r (rs_project_rules store),
                              rs_project_settings := remove_from_settings (rs_project_settings store) r\<rparr>;
               (env', res) = save_at tm env (rs_project_path store') (rs_project_settings store')
           in (env', store', res))
      | CliArg \<Rightarrow> (env, store\<lparr>rs_cli_rules := retain_others r (rs_cli_rules store)\<rparr>, Inr ())
      | SessionSource \<Rightarrow> (env, store\<lparr>rs_session_rules := retain_others r (rs_session_rules store)\<rparr>, Inr ())
      | AgentConfig \<Rightarrow> (env, store, Inr ()))"

definition merged_rules :: "rule_store \<Rightarrow> permission_rule list" where
  "merged_rules store = rs_session_rules store @ rs_cli_rules store @
     rs_project_rules store @ rs_global_rules store"

definition build_context :: "rule_store \<Rightarrow> permission_mode option \<Rightarrow> permission_context" where
  "build_context store mode_override = default_context\<lparr>
     cx_mode := (case mode_override of None \<Rightarrow> rs_default_mode store | Some m \<Rightarrow> m),
     cx_rules := merged_rules store,
     cx_additional_directories := rs_additional_directories store\<rparr>"

definition set_default_mode :: "rule_store \<Rightarrow> permission_mode \<Rightarrow> rule_store" where
  "set_default_mode store m = store\<lparr>rs_default_mode := m\<rparr>"

definition rules_for_tool :: "rule_store \<Rightarrow> string \<Rightarrow> permission_rule list" where
  "rules_for_tool store tool = filter (\<lambda>r. tg_tool_name (rl_target r) = tool) (merged_rules store)"

end
