(* ===== verification/RuleStoreCorrect.thy ===== *)
theory RuleStoreCorrect
  imports RuleStore PermPipeline
begin

text \<open>
  Correctness of the rule store: the rule strings and their parser, the layering of the merged
  rules, the agreement of the rule lists with the settings and the files they are persisted
  to, over any sequence of the store's operations.
\<close>

section \<open>Rule strings\<close>

definition wf_target :: "permission_rule_target \<Rightarrow> bool" where
  "wf_target t \<longleftrightarrow> trimmed (tg_tool_name t) \<and>
     (case tg_content_pattern t of
        None \<Rightarrow> \<not> (CHR ''('' \<in> set (tg_tool_name t) \<and> CHR '')'' \<in> set (tg_tool_name t))
      | Some p \<Rightarrow> CHR ''('' \<notin> set (tg_tool_name t) \<and> trimmed p)"

lemma hd_dropWhile_rev: "dropWhile P xs \<noteq> [] \<Longrightarrow> last (dropWhile P xs) = last xs"
  by (metis dropWhile_append3 hd_dropWhile last_append takeWhile_dropWhile_id)

lemma trimmed_str_trim [simp]: "trimmed (str_trim s)"
proof (cases "str_trim s = []")
  case False
  let ?u = "dropWhile is_ws s" let ?v = "dropWhile is_ws (rev ?u)"
  have v: "str_trim s = rev ?v" by (simp add: str_trim_def trim_start_def trim_end_def)
  with False have nv: "?v \<noteq> []" by simp
  then have nu: "?u \<noteq> []" by (metis dropWhile.simps(1) rev.simps(1))
  have "\<not> is_ws (hd ?v)" using hd_dropWhile [OF nv] .
  moreover have "last ?v = hd ?u" using hd_dropWhile_rev [OF nv] nu by (simp add: last_rev)
  ultimately show ?thesis using hd_dropWhile [OF nu] nv
    by (simp add: trimmed_def v hd_rev last_rev)
qed simp

lemma set_str_trim: "set (str_trim s) \<subseteq> set s"
  unfolding str_trim_def trim_start_def trim_end_def
  by (auto dest!: set_dropWhileD)

lemma str_find_Some: "str_find c s = Some i \<Longrightarrow>
    \<exists>t. s = take i s @ c # t \<and> c \<notin> set (take i s) \<and> length (take i s) = i"
proof -
  assume "str_find c s = Some i"
  then have c: "c \<in> set s" and i: "i = length (takeWhile (\<lambda>x. x \<noteq> c) s)"
    by (auto simp: str_find_def split: if_splits)
  obtain ys zs where s: "s = ys @ c # zs" "c \<notin> set ys" using split_list_first [OF c] by blast
  then have "i = length ys" using i by (simp add: takeWhile_first)
  then show ?thesis using s by simp
qed

lemma str_rfind_Some: "str_rfind c s = Some i \<Longrightarrow>
    \<exists>t. s = take i s @ c # t \<and> c \<notin> set t \<and> length (take i s) = i"
proof -
  assume "str_rfind c s = Some i"
  then have c: "c \<in> set s" and i: "i = length s - 1 - length (takeWhile (\<lambda>x. x \<noteq> c) (rev s))"
    by (auto simp: str_rfind_def split: if_splits)
  obtain ys zs where s: "s = ys @ c # zs" "c \<notin> set zs" using split_list_last [OF c] by blast
  then have "takeWhile (\<lambda>x. x \<noteq> c) (rev s) = rev zs" by (simp add: takeWhile_first)
  then have "i = length ys" using i s by simp
  then show ?thesis using s by simp
qed

lemma str_rfind_last: "c \<notin> set ys \<Longrightarrow> str_rfind c (xs @ c # ys) = Some (length xs)"
  by (simp add: str_rfind_def takeWhile_first)

lemma parse_with_parens:
  "CHR ''('' \<notin> set n \<Longrightarrow> CHR '')'' \<notin> set z \<Longrightarrow>
   parse_rule_string (n @ CHR ''('' # p @ CHR '')'' # z) =
     Some (target_with_pattern (str_trim n) (str_trim p))"
proof -
  assume n: "CHR ''('' \<notin> set n" and z: "CHR '')'' \<notin> set z"
  have "str_rfind CHR '')'' ((n @ CHR ''('' # p) @ CHR '')'' # z) = Some (length (n @ CHR ''('' # p))"
    by (rule str_rfind_last) (rule z)
  then show ?thesis
    by (simp add: parse_rule_string_def str_find_first [OF n] str_slice_def)
qed

lemma parse_to_rule_string: "wf_target t \<Longrightarrow> parse_rule_string (to_rule_string t) = Some t"
proof (cases "tg_content_pattern t")
  case None
  assume wf: "wf_target t"
  let ?n = "tg_tool_name t"
  have t: "t = target_tool ?n" using None by (simp add: target_tool_def)
  have "trimmed ?n" and no: "CHR ''('' \<notin> set ?n \<or> CHR '')'' \<notin> set ?n"
    using wf None by (auto simp: wf_target_def)
  then have "parse_rule_string ?n = Some (target_tool ?n)"
    by (auto simp: parse_rule_string_def str_find_def str_rfind_def)
  then show ?thesis using None t by (simp add: to_rule_string_def)
next
  case (Some p)
  assume "wf_target t"
  then show ?thesis
    using Some parse_with_parens [of "tg_tool_name t" "[]" p]
    by (auto simp: wf_target_def to_rule_string_def target_with_pattern_def)
qed

lemma parse_wf: "parse_rule_string s = Some t \<Longrightarrow> wf_target t"
proof -
  assume p: "parse_rule_string s = Some t"
  show ?thesis
  proof (cases "str_find CHR ''('' s")
    case None
    then have "CHR ''('' \<notin> set s" by (auto simp: str_find_def split: if_splits)
    then show ?thesis using p None set_str_trim [of s]
      by (auto simp: parse_rule_string_def wf_target_def target_tool_def)
  next
    case (Some i)
    show ?thesis
    proof (cases "str_rfind CHR '')'' s")
      case None
      then have "CHR '')'' \<notin> set s" by (auto simp: str_rfind_def split: if_splits)
      then show ?thesis using p None Some set_str_trim [of s]
        by (auto simp: parse_rule_string_def wf_target_def target_tool_def)
    next
      case (Some j)
      have "CHR ''('' \<notin> set (take i s)" using str_find_Some [OF \<open>str_find _ s = Some i\<close>] by blast
      then show ?thesis using p Some \<open>str_find _ s = Some i\<close> set_str_trim [of "take i s"]
        by (auto simp: parse_rule_string_def wf_target_def target_with_pattern_def split: option.splits)
    qed
  qed
qed

lemma parse_panics_iff:
  "parse_rule_string s = None \<longleftrightarrow>
     CHR ''('' \<in> set s \<and> CHR '')'' \<in> set s \<and> CHR '')'' \<notin> set (dropWhile (\<lambda>x. x \<noteq> CHR ''('') s)"
proof (cases "CHR ''('' \<in> set s \<and> CHR '')'' \<in> set s")
  case False
  then show ?thesis by (auto simp: parse_rule_string_def str_find_def str_rfind_def)
next
  case True
  then obtain n t where s: "s = n @ CHR ''('' # t" "CHR ''('' \<notin> set n" by (meson split_list_first)
  have d: "dropWhile (\<lambda>x. x \<noteq> CHR ''('') s = CHR ''('' # t"
    using s by (induction n arbitrary: s) auto
  show ?thesis
  proof (cases "CHR '')'' \<in> set t")
    case True
    then obtain p z where "t = p @ CHR '')'' # z" "CHR '')'' \<notin> set z" by (meson split_list_last)
    then show ?thesis using parse_with_parens [of n z p] s d by auto
  next
    case f: False
    with True s have "CHR '')'' \<in> set n" by auto
    then obtain p z where n: "n = p @ CHR '')'' # z" "CHR '')'' \<notin> set z" by (meson split_list_last)
    have "str_rfind CHR '')'' (p @ CHR '')'' # (z @ CHR ''('' # t)) = Some (length p)"
      using n f by (intro str_rfind_last) auto
    moreover have "str_find CHR ''('' s = Some (length n)" using str_find_first s by metis
    ultimately show ?thesis using n s f d
      by (simp add: parse_rule_string_def str_slice_def)
  qed
qed

section \<open>Settings and the rules they stand for\<close>

fun strings_of :: "permission_settings \<Rightarrow> permission_behavior \<Rightarrow> string list" where
  "strings_of st PbAllow = ps_allow st"
| "strings_of st PbNotify = ps_notify st"
| "strings_of st PbDeny = ps_deny st"
| "strings_of st PbAsk = ps_ask st"
| "strings_of st PbPassthrough = []"

lemma those_map_Some: "those (map f xs) = Some ys \<longleftrightarrow> map f xs = map Some ys"
  by (induction xs arbitrary: ys) (auto simp: Cons_eq_map_conv split: option.splits)

lemma those_map_mem: "those (map f xs) = Some ys \<Longrightarrow> y \<in> set ys \<longleftrightarrow> (\<exists>x \<in> set xs. f x = Some y)"
  by (induction xs arbitrary: ys) (auto split: option.splits)

lemma those_map_total: "(\<exists>ys. those (map f xs) = Some ys) \<longleftrightarrow> (\<forall>x \<in> set xs. f x \<noteq> None)"
  by (induction xs) (auto split: option.splits)

lemma parse_rules_mem: "parse_rules ss b src = Some rules \<Longrightarrow>
    r \<in> set rules \<longleftrightarrow> rl_source r = src \<and> rl_behavior r = b \<and>
      (\<exists>s \<in> set ss. parse_rule_string s = Some (rl_target r))"
  unfolding parse_rules_def using those_map_mem [of _ ss rules r]
  by (cases r) (auto simp: new_rule_def)

lemma parse_rules_total: "(\<exists>rules. parse_rules ss b src = Some rules) \<longleftrightarrow>
    (\<forall>s \<in> set ss. parse_rule_string s \<noteq> None)"
  by (simp add: parse_rules_def those_map_total)

lemma settings_to_rules_mem:
  assumes "settings_to_rules st src = Some rules"
  shows "r \<in> set rules \<longleftrightarrow> rl_source r = src \<and>
     (\<exists>s \<in> set (strings_of st (rl_behavior r)). parse_rule_string s = Some (rl_target r))"
  using assms
  by (cases "rl_behavior r")
     (auto simp: settings_to_rules_def parse_rules_mem split: option.splits prod.splits)

lemma all_behavior:
  "(\<forall>b. Q b) \<longleftrightarrow> Q PbAllow \<and> Q PbNotify \<and> Q PbPassthrough \<and> Q PbAsk \<and> Q PbDeny"
  by (metis (full_types) permission_behavior.exhaust)

lemma settings_to_rules_total: "(\<exists>rules. settings_to_rules st src = Some rules) \<longleftrightarrow>
    (\<forall>b. \<forall>s \<in> set (strings_of st b). parse_rule_string s \<noteq> None)"
proof -
  have "(\<exists>rules. settings_to_rules st src = Some rules) \<longleftrightarrow>
    (\<exists>x. parse_rules (ps_allow st) PbAllow src = Some x) \<and> (\<exists>x. parse_rules (ps_notify st) PbNotify src = Some x) \<and>
    (\<exists>x. parse_rules (ps_deny st) PbDeny src = Some x) \<and> (\<exists>x. parse_rules (ps_ask st) PbAsk src = Some x)"
    by (auto simp: settings_to_rules_def split: option.splits)
  also have "\<dots> \<longleftrightarrow> (\<forall>b. \<forall>s \<in> set (strings_of st b). parse_rule_string s \<noteq> None)"
    unfolding parse_rules_total all_behavior by simp blast
  finally show ?thesis .
qed

lemma set_push_new [simp]: "set (push_new x xs) = insert x (set xs)"
  by (auto simp: push_new_def)

lemma strings_of_add: "set (strings_of (add_to_settings st r) b) =
    (if b = rl_behavior r \<and> b \<noteq> PbPassthrough then insert (to_rule_string (rl_target r)) (set (strings_of st b))
     else set (strings_of st b))"
  by (cases b; cases "rl_behavior r") (simp_all add: add_to_settings_def Let_def)

lemma strings_of_remove: "set (strings_of (remove_from_settings st r) b) =
    (if b = rl_behavior r then set (strings_of st b) - {to_rule_string (rl_target r)}
     else set (strings_of st b))"
  by (cases b; cases "rl_behavior r") (auto simp add: remove_from_settings_def Let_def)

text \<open>The strings are canonical when each is the rendering of a well-formed target: what the
  store itself writes.  A hand-edited file may hold other spellings of the same target.\<close>

definition canonical :: "permission_settings \<Rightarrow> bool" where
  "canonical st \<longleftrightarrow> (\<forall>b. \<forall>s \<in> set (strings_of st b). \<exists>t. wf_target t \<and> s = to_rule_string t)"

definition agree :: "permission_settings \<Rightarrow> permission_rule_source \<Rightarrow> permission_rule list \<Rightarrow> bool" where
  "agree st src rules \<longleftrightarrow>
     (\<exists>loaded. settings_to_rules st src = Some loaded \<and> set loaded = set rules)"

definition persistable_rule :: "permission_rule \<Rightarrow> bool" where
  "persistable_rule r \<longleftrightarrow> wf_target (rl_target r) \<and> rl_behavior r \<noteq> PbPassthrough"

lemma agree_iff: "agree st src rules \<longleftrightarrow>
    (\<forall>b. \<forall>s \<in> set (strings_of st b). parse_rule_string s \<noteq> None) \<and>
    (\<forall>r. r \<in> set rules \<longleftrightarrow> rl_source r = src \<and>
       (\<exists>s \<in> set (strings_of st (rl_behavior r)). parse_rule_string s = Some (rl_target r)))"
proof (cases "settings_to_rules st src")
  case None
  then show ?thesis using settings_to_rules_total [of st src] by (simp add: agree_def)
next
  case (Some loaded)
  have "\<forall>b. \<forall>s \<in> set (strings_of st b). parse_rule_string s \<noteq> None"
    using settings_to_rules_total [of st src] Some by blast
  moreover have "agree st src rules \<longleftrightarrow> (\<forall>r. r \<in> set rules \<longleftrightarrow> r \<in> set loaded)"
    using Some by (auto simp: agree_def)
  ultimately show ?thesis unfolding settings_to_rules_mem [OF Some] by blast
qed

lemma canonical_parse:
  "canonical st \<Longrightarrow> s \<in> set (strings_of st b) \<Longrightarrow> parse_rule_string s = Some t \<longleftrightarrow> s = to_rule_string t \<and> wf_target t"
  unfolding canonical_def by (metis option.inject parse_to_rule_string)

lemma canonical_add: "canonical st \<Longrightarrow> persistable_rule r \<Longrightarrow> canonical (add_to_settings st r)"
  unfolding canonical_def persistable_rule_def strings_of_add by auto

lemma canonical_remove: "canonical st \<Longrightarrow> canonical (remove_from_settings st r)"
  unfolding canonical_def strings_of_remove by auto

lemma agree_add:
  assumes "agree st (rl_source r) rules" "persistable_rule r"
  shows "agree (add_to_settings st r) (rl_source r) (rules @ [r])"
  using assms unfolding agree_iff strings_of_add persistable_rule_def
  by (auto simp: parse_to_rule_string intro: permission_rule.equality)

lemma agree_remove:
  assumes "agree st (rl_source r) rules" "canonical st" "wf_target (rl_target r)"
  shows "agree (remove_from_settings st r) (rl_source r) (retain_others r rules)"
proof -
  have inj: "to_rule_string t = to_rule_string (rl_target r) \<longleftrightarrow> t = rl_target r" if "wf_target t" for t
    using assms(3) that parse_to_rule_string by (metis option.inject)
  show ?thesis
    using assms canonical_parse [OF assms(2)] inj
    unfolding agree_iff strings_of_remove retain_others_def
    by (auto simp: Bex_def)
qed

section \<open>Sequences of store operations\<close>

text \<open>The operations of the store, and the environment's faults: \<open>OpFault\<close> sets which I/O
  step fails from then on.  The state carries whether every operation so far returned Ok.\<close>

datatype store_op =
  OpAdd permission_rule
| OpRemove permission_rule
| OpUpdate permission_update
| OpCli "permission_rule list"
| OpCliAllow string
| OpCliDeny string
| OpSession permission_rule
| OpMode permission_mode
| OpFault "io_step option"

type_synonym store_state = "file_env \<times> rule_store \<times> bool"

definition after :: "bool \<Rightarrow> file_env \<times> rule_store \<times> (guardrail_error + unit) \<Rightarrow> store_state option" where
  "after ok r = (case r of (env, store, res) \<Rightarrow> Some (env, store, ok \<and> is_ok res))"

fun store_step :: "'t toml_ops \<Rightarrow> store_op \<Rightarrow> store_state \<Rightarrow> store_state option" where
  "store_step tm (OpAdd r) (env, store, ok) = after ok (add_rule_store tm env store r)"
| "store_step tm (OpRemove r) (env, store, ok) = after ok (remove_rule tm env store r)"
| "store_step tm (OpUpdate u) (env, store, ok) = after ok (apply_update tm env store u)"
| "store_step tm (OpCli rs) (env, store, ok) = Some (env, add_cli_rules store rs, ok)"
| "store_step tm (OpCliAllow s) (env, store, ok) =
     map_option (\<lambda>store'. (env, store', ok)) (add_cli_allow store s)"
| "store_step tm (OpCliDeny s) (env, store, ok) =
     map_option (\<lambda>store'. (env, store', ok)) (add_cli_deny store s)"
| "store_step tm (OpSession r) (env, store, ok) = Some (env, add_session_rule store r, ok)"
| "store_step tm (OpMode m) (env, store, ok) = Some (env, set_default_mode store m, ok)"
| "store_step tm (OpFault f) (env, store, ok) = Some (env\<lparr>fe_failing := f\<rparr>, store, ok)"

text \<open>What callers pass: command line and session rules carry their source, and a rule for a
  settings file is one that the file can hold.\<close>

fun op_ok :: "store_op \<Rightarrow> bool" where
  "op_ok (OpAdd r) \<longleftrightarrow> (is_persistable (rl_source r) \<longrightarrow> persistable_rule r)"
| "op_ok (OpRemove r) \<longleftrightarrow> (is_persistable (rl_source r) \<longrightarrow> persistable_rule r)"
| "op_ok (OpUpdate u) \<longleftrightarrow> (is_persistable (up_destination u) \<longrightarrow>
     wf_target (up_target u) \<and> up_behavior u \<noteq> PbPassthrough)"
| "op_ok (OpCli rs) \<longleftrightarrow> (\<forall>r \<in> set rs. rl_source r = CliArg)"
| "op_ok (OpSession r) \<longleftrightarrow> rl_source r = SessionSource"
| "op_ok _ \<longleftrightarrow> True"

lemma after_eq: "after ok r = Some (env, store, ok') \<longleftrightarrow>
    (\<exists>res. r = (env, store, res) \<and> ok' = (ok \<and> is_ok res))"
  by (cases r) (auto simp: after_def)

text \<open>\<open>apply_update\<close> and \<open>add_rule\<close> do the same to a settings file.\<close>

lemma apply_update_add:
  "is_persistable (up_destination u) \<or> up_destination u = SessionSource \<Longrightarrow>
   apply_update tm env store u =
     add_rule_store tm env store (new_rule (up_destination u) (up_behavior u) (up_target u))"
  by (cases "up_destination u")
     (simp_all add: apply_update_def add_rule_store_def add_rule_to_settings_def new_rule_def Let_def)

lemma apply_update_rejected:
  "\<not> (is_persistable (up_destination u) \<or> up_destination u = SessionSource) \<Longrightarrow>
   \<exists>e. apply_update tm env store u = (env, store, Inl e)"
  by (cases "up_destination u") (simp_all add: apply_update_def Let_def)

text \<open>The two settings layers: a layer's rules, settings, path.\<close>

definition layered :: "rule_store \<Rightarrow> bool" where
  "layered store \<longleftrightarrow>
     (\<forall>r \<in> set (rs_session_rules store). rl_source r = SessionSource) \<and>
     (\<forall>r \<in> set (rs_cli_rules store). rl_source r = CliArg) \<and>
     (\<forall>r \<in> set (rs_project_rules store). rl_source r = ProjectSettings) \<and>
     (\<forall>r \<in> set (rs_global_rules store). rl_source r = GlobalSettings)"

definition layered_state :: "store_state \<Rightarrow> bool" where
  "layered_state = (\<lambda>(env, store, ok). layered store)"

lemma layered_add: "layered store \<Longrightarrow> add_rule_store tm env store r = (env', store', res) \<Longrightarrow> layered store'"
  by (cases "rl_source r") (auto simp: layered_def add_rule_store_def split: prod.splits)

lemma layered_remove: "layered store \<Longrightarrow> remove_rule tm env store r = (env', store', res) \<Longrightarrow> layered store'"
  by (cases "rl_source r") (auto simp: layered_def remove_rule_def retain_others_def split: prod.splits)

lemma layered_update: "layered store \<Longrightarrow> apply_update tm env store u = (env', store', res) \<Longrightarrow> layered store'"
  by (metis apply_update_add apply_update_rejected layered_add prod.inject)

lemma layered_step: "layered_state s \<Longrightarrow> op_ok x \<Longrightarrow> store_step tm x s = Some s' \<Longrightarrow> layered_state s'"
  by (cases s; cases s'; cases x)
     (auto simp: layered_state_def after_eq add_cli_rules_def add_cli_allow_def add_cli_deny_def
        add_session_rule_def set_default_mode_def new_rule_def
        intro: layered_add layered_remove layered_update, auto simp: layered_def)

interpretation layers: machine "store_step tm" op_ok layered_state for tm
  by unfold_locales (rule layered_step)

section \<open>Loading\<close>

text \<open>What a path contributes when the store is loaded: nothing when the file is missing,
  unreadable or does not parse.\<close>

definition layer_settings :: "'t toml_ops \<Rightarrow> file_env \<Rightarrow> string option \<Rightarrow> permission_settings" where
  "layer_settings tm env path =
     (case path of None \<Rightarrow> empty_settings
      | Some p \<Rightarrow> (case load_settings_from_file tm env p of Inl _ \<Rightarrow> empty_settings | Inr st \<Rightarrow> st))"

lemma settings_to_rules_empty [simp]: "settings_to_rules empty_settings src = Some []"
  by (simp add: settings_to_rules_def empty_settings_def parse_rules_def)

lemma load_mode_empty [simp]: "load_mode empty_settings m = m"
  by (simp add: load_mode_def empty_settings_def)

lemma load_settings_missing: "fe_files env p = None \<Longrightarrow> \<exists>e. load_settings_from_file tm env p = Inl e"
  by (simp add: load_settings_from_file_def read_text_def)

lemma load_global_eq:
  "load_global tm env gp empty_store =
     map_option (\<lambda>rules. empty_store\<lparr>rs_global_path := Some gp, rs_global_rules := rules,
         rs_additional_directories := ps_additional_directories (layer_settings tm env (Some gp)),
         rs_default_mode := load_mode (layer_settings tm env (Some gp)) MDefault,
         rs_global_settings := layer_settings tm env (Some gp)\<rparr>)
       (settings_to_rules (layer_settings tm env (Some gp)) GlobalSettings)"
proof (cases "load_settings_from_file tm env gp")
  case (Inl e)
  then show ?thesis
    by (simp add: load_global_def layer_settings_def empty_store_def Let_def)
       (simp add: empty_settings_def)
next
  case (Inr st)
  then have "fe_files env gp \<noteq> None" using load_settings_missing [of env gp tm] by auto
  with Inr show ?thesis
    by (cases "settings_to_rules st GlobalSettings")
       (auto simp add: load_global_def layer_settings_def empty_store_def Let_def)
qed

lemma load_project_eq:
  assumes "rs_project_rules s = []" "rs_project_settings s = empty_settings" "rs_project_path s = None"
  shows "load_project tm env pp s =
     map_option (\<lambda>rules. s\<lparr>rs_project_path := pp, rs_project_rules := rules,
         rs_additional_directories := rs_additional_directories s @
            ps_additional_directories (layer_settings tm env pp),
         rs_default_mode := load_mode (layer_settings tm env pp) (rs_default_mode s),
         rs_project_settings := layer_settings tm env pp\<rparr>)
       (settings_to_rules (layer_settings tm env pp) ProjectSettings)"
proof (cases pp)
  case None
  then show ?thesis using assms
    by (simp add: load_project_def layer_settings_def) (simp add: empty_settings_def)
next
  case (Some p)
  show ?thesis
  proof (cases "load_settings_from_file tm env p")
    case (Inl e)
    then show ?thesis using Some assms
      by (simp add: load_project_def layer_settings_def Let_def) (simp add: empty_settings_def)
  next
    case (Inr st)
    then have "fe_files env p \<noteq> None" using load_settings_missing [of env p tm] by auto
    with Inr Some show ?thesis
      by (cases "settings_to_rules st ProjectSettings")
         (auto simp add: load_project_def layer_settings_def Let_def)
  qed
qed

lemma load_store_eq:
  "load_store tm env gp pp = Some store \<longleftrightarrow>
     (\<exists>g p. settings_to_rules (layer_settings tm env (Some gp)) GlobalSettings = Some g \<and>
            settings_to_rules (layer_settings tm env pp) ProjectSettings = Some p \<and>
       store = \<lparr>rs_global_rules = g, rs_project_rules = p, rs_cli_rules = [], rs_session_rules = [],
         rs_global_settings = layer_settings tm env (Some gp),
         rs_project_settings = layer_settings tm env pp,
         rs_global_path = Some gp, rs_project_path = pp,
         rs_additional_directories = ps_additional_directories (layer_settings tm env (Some gp)) @
            ps_additional_directories (layer_settings tm env pp),
         rs_default_mode = load_mode (layer_settings tm env pp)
            (load_mode (layer_settings tm env (Some gp)) MDefault)\<rparr>)"
proof (cases "settings_to_rules (layer_settings tm env (Some gp)) GlobalSettings")
  case None
  then show ?thesis by (simp add: load_store_def load_global_eq)
next
  case (Some g)
  then show ?thesis unfolding load_store_def load_global_eq
    by (cases "settings_to_rules (layer_settings tm env pp) ProjectSettings")
       (auto simp add: load_project_eq empty_store_def)
qed

lemma layered_load: "load_store tm env gp pp = Some store \<Longrightarrow> layered store"
  by (auto simp: load_store_eq layered_def settings_to_rules_mem)

section \<open>Precedence\<close>

lemma sorted_const: "\<forall>x \<in> set xs. f x = c \<Longrightarrow> sorted (map f xs)"
  by (induction xs) auto

lemma layered_sorted: "layered store \<Longrightarrow> sorted (map (precedence \<circ> rl_source) (merged_rules store))"
  unfolding merged_rules_def map_append sorted_append
  by (auto simp: layered_def intro: sorted_const)

text \<open>In rules sorted by precedence the first rule that passes a test is of the highest precedence.\<close>

lemma find_sorted:
  "sorted (map f xs) \<Longrightarrow> List.find P xs = Some x \<Longrightarrow> y \<in> set xs \<Longrightarrow> P y \<Longrightarrow> f x \<le> f y"
  by (induction xs) (auto split: if_splits)

lemma found_is_most_specific:
  assumes sorted: "sorted (map (precedence \<circ> rl_source) rules)"
    and found: "find_matching_rule rules tool content b = Some r"
    and r': "r' \<in> set rules" "rl_behavior r' = b" "target_matches (rl_target r') tool content"
  shows "\<not> rule_is_more_specific r' r"
proof -
  let ?P = "\<lambda>r. rl_behavior r = b \<and> tg_content_pattern (rl_target r) \<noteq> None \<and> target_matches (rl_target r) tool content"
  let ?Q = "\<lambda>r. rl_behavior r = b \<and> tg_content_pattern (rl_target r) = None \<and> target_matches (rl_target r) tool content"
  have needs: "content \<noteq> None" if "tg_content_pattern (rl_target x) \<noteq> None" "target_matches (rl_target x) tool content" for x
    using that by (auto simp: target_matches_def split: if_splits option.splits)
  show ?thesis
  proof (cases "content \<noteq> None \<and> List.find ?P rules \<noteq> None")
    case True
    then have f: "List.find ?P rules = Some r" using found by (auto simp: find_matching_rule_def)
    then show ?thesis using find_Some_iff2 [OF f] find_sorted [OF sorted f r'(1)] r'
      by (auto simp: rule_is_more_specific_def Let_def)
  next
    case False
    then have f: "List.find ?Q rules = Some r"
      using found by (auto simp: find_matching_rule_def split: option.splits if_splits)
    have "tg_content_pattern (rl_target r') = None"
      using False needs [OF _ r'(3)] r' find_is_none [of ?P rules] by auto
    then show ?thesis using find_Some_iff2 [OF f] find_sorted [OF sorted f r'(1)] r'
      by (auto simp: rule_is_more_specific_def Let_def)
  qed
qed

section \<open>Agreement with the settings and the files\<close>

definition synced_store :: "rule_store \<Rightarrow> bool" where
  "synced_store store \<longleftrightarrow> layered store \<and>
     canonical (rs_global_settings store) \<and> canonical (rs_project_settings store) \<and>
     agree (rs_global_settings store) GlobalSettings (rs_global_rules store) \<and>
     agree (rs_project_settings store) ProjectSettings (rs_project_rules store)"

definition synced :: "store_state \<Rightarrow> bool" where
  "synced = (\<lambda>(env, store, ok). synced_store store)"

lemma synced_add:
  "synced_store store \<Longrightarrow> is_persistable (rl_source r) \<longrightarrow> persistable_rule r \<Longrightarrow>
   add_rule_store tm env store r = (env', store', res) \<Longrightarrow> synced_store store'"
  using layered_add [of store tm env r env' store' res]
    agree_add [of "rs_global_settings store" r "rs_global_rules store"]
    agree_add [of "rs_project_settings store" r "rs_project_rules store"]
  by (cases "rl_source r")
     (auto simp: synced_store_def add_rule_store_def canonical_add split: prod.splits)

lemma synced_remove:
  "synced_store store \<Longrightarrow> is_persistable (rl_source r) \<longrightarrow> persistable_rule r \<Longrightarrow>
   remove_rule tm env store r = (env', store', res) \<Longrightarrow> synced_store store'"
  using layered_remove [of store tm env r env' store' res]
    agree_remove [of "rs_global_settings store" r "rs_global_rules store"]
    agree_remove [of "rs_project_settings store" r "rs_project_rules store"]
  by (cases "rl_source r")
     (auto simp: synced_store_def remove_rule_def canonical_remove persistable_rule_def split: prod.splits)

lemma synced_update:
  assumes "synced_store store" "op_ok (OpUpdate u)"
    "apply_update tm env store u = (env', store', res)"
  shows "synced_store store'"
proof (cases "is_persistable (up_destination u) \<or> up_destination u = SessionSource")
  case True
  then show ?thesis using assms
      synced_add [OF assms(1), of "new_rule (up_destination u) (up_behavior u) (up_target u)" tm env env' store' res]
    by (auto simp: apply_update_add new_rule_def persistable_rule_def)
next
  case False
  then show ?thesis using assms apply_update_rejected [OF False, of tm env store] by auto
qed

lemma synced_step: "synced s \<Longrightarrow> op_ok x \<Longrightarrow> store_step tm x s = Some s' \<Longrightarrow> synced s'"
proof (cases x)
  case (OpAdd r)
  assume "synced s" "op_ok x" "store_step tm x s = Some s'"
  then show ?thesis using OpAdd
    by (cases s; cases s') (simp add: synced_def after_eq, elim exE conjE, erule (2) synced_add)
next
  case (OpRemove r)
  assume "synced s" "op_ok x" "store_step tm x s = Some s'"
  then show ?thesis using OpRemove
    by (cases s; cases s') (simp add: synced_def after_eq, elim exE conjE, erule (2) synced_remove)
next
  case (OpUpdate u)
  assume "synced s" "op_ok x" "store_step tm x s = Some s'"
  then show ?thesis using OpUpdate
    by (cases s; cases s') (simp add: synced_def after_eq del: op_ok.simps, elim exE conjE, erule (2) synced_update)
qed (cases s; auto simp: synced_def synced_store_def layered_def add_cli_rules_def add_cli_allow_def
       add_cli_deny_def add_session_rule_def set_default_mode_def new_rule_def)+

interpretation in_sync: machine "store_step tm" op_ok synced for tm
  by unfold_locales (rule synced_step)

text \<open>The documented behaviour of the \<open>toml\<close> crate: a table with a settings value in its
  \<open>permissions\<close> entry, printed, reads back as that value.\<close>

definition toml_laws :: "'t toml_ops \<Rightarrow> bool" where
  "toml_laws tm \<longleftrightarrow> (\<forall>t st t' text. tm_set_permissions tm t st = Inr t' \<longrightarrow> tm_print tm t' = Inr text \<longrightarrow>
     tm_config tm text = Inr st)"

abbreviation healthy :: "file_env \<Rightarrow> file_env" where
  "healthy env \<equiv> env\<lparr>fe_failing := None\<rparr>"

lemma save_stores:
  assumes "toml_laws tm" "save_settings_to_file tm env p st = (env', Inr ())"
  shows "layer_settings tm (healthy env') (Some p) = st \<and>
         (\<forall>q. q \<noteq> p \<longrightarrow> fe_files env' q = fe_files env q)"
  using assms
  by (auto simp: save_settings_to_file_def layer_settings_def load_settings_from_file_def
        read_text_def toml_laws_def split: sum.splits option.splits io_step.splits if_splits)

lemma layer_settings_cong: "fe_files env q = fe_files env' q \<Longrightarrow>
   layer_settings tm (healthy env) (Some q) = layer_settings tm (healthy env') (Some q)"
  by (simp add: layer_settings_def load_settings_from_file_def read_text_def)

text \<open>While every operation returns Ok, the files hold the settings.\<close>

definition on_disk :: "'t toml_ops \<Rightarrow> string \<Rightarrow> string option \<Rightarrow> store_state \<Rightarrow> bool" where
  "on_disk tm gp pp = (\<lambda>(env, store, ok).
     rs_global_path store = Some gp \<and> rs_project_path store = pp \<and>
     (ok \<longrightarrow> layer_settings tm (healthy env) (Some gp) = rs_global_settings store \<and>
        (pp \<noteq> None \<longrightarrow> layer_settings tm (healthy env) pp = rs_project_settings store)))"

lemma save_at_stores:
  assumes "toml_laws tm" "save_at tm env (Some p) st = (env', res)" "is_ok res"
  shows "layer_settings tm (healthy env') (Some p) = st"
    "q \<noteq> p \<Longrightarrow> layer_settings tm (healthy env') (Some q) = layer_settings tm (healthy env) (Some q)"
proof -
  have s: "save_settings_to_file tm env p st = (env', Inr ())"
    using assms by (cases res) (auto simp: save_at_def)
  show "layer_settings tm (healthy env') (Some p) = st" using save_stores [OF assms(1) s] by blast
  show "layer_settings tm (healthy env') (Some q) = layer_settings tm (healthy env) (Some q)" if "q \<noteq> p"
    using save_stores [OF assms(1) s] that by (intro layer_settings_cong) simp
qed

text \<open>Each operation leaves the settings alone, or saves the layer that it changed.\<close>

definition saves_change :: "'t toml_ops \<Rightarrow> file_env \<Rightarrow> rule_store \<Rightarrow> file_env \<times> rule_store \<times> (guardrail_error + unit) \<Rightarrow> bool" where
  "saves_change tm env store = (\<lambda>(env', store', res).
     rs_global_path store' = rs_global_path store \<and> rs_project_path store' = rs_project_path store \<and>
     ((env' = env \<and> rs_global_settings store' = rs_global_settings store \<and>
         rs_project_settings store' = rs_project_settings store) \<or>
      (save_at tm env (rs_global_path store) (rs_global_settings store') = (env', res) \<and>
         rs_project_settings store' = rs_project_settings store) \<or>
      (save_at tm env (rs_project_path store) (rs_project_settings store') = (env', res) \<and>
         rs_global_settings store' = rs_global_settings store)))"

lemma add_saves: "saves_change tm env store (add_rule_store tm env store r)"
  by (cases "rl_source r") (auto simp: saves_change_def add_rule_store_def split: prod.splits)

lemma remove_saves: "saves_change tm env store (remove_rule tm env store r)"
  by (cases "rl_source r") (auto simp: saves_change_def remove_rule_def split: prod.splits)

lemma update_saves: "saves_change tm env store (apply_update tm env store u)"
proof (cases "is_persistable (up_destination u) \<or> up_destination u = SessionSource")
  case True
  then show ?thesis using add_saves by (simp add: apply_update_add)
next
  case False
  then show ?thesis using apply_update_rejected [OF False, of tm env store]
    by (auto simp: saves_change_def)
qed

lemma on_disk_saved:
  assumes "toml_laws tm" "pp \<noteq> Some gp" "on_disk tm gp pp (env, store, ok)"
    and "saves_change tm env store (env', store', res)"
  shows "on_disk tm gp pp (env', store', ok \<and> is_ok res)"
proof -
  have paths: "rs_global_path store = Some gp" "rs_project_path store = pp"
    "rs_global_path store' = Some gp" "rs_project_path store' = pp"
    using assms(3,4) by (auto simp: on_disk_def saves_change_def)
  consider "env' = env" "rs_global_settings store' = rs_global_settings store"
      "rs_project_settings store' = rs_project_settings store"
    | "save_at tm env (Some gp) (rs_global_settings store') = (env', res)"
      "rs_project_settings store' = rs_project_settings store"
    | "save_at tm env pp (rs_project_settings store') = (env', res)"
      "rs_global_settings store' = rs_global_settings store"
    using assms(4) paths by (auto simp: saves_change_def)
  then show ?thesis
  proof cases
    case 1
    then show ?thesis using assms(3) paths by (auto simp: on_disk_def)
  next
    case 2
    then show ?thesis using assms(2,3) paths save_at_stores [OF assms(1) 2(1)]
      by (cases pp) (auto simp: on_disk_def)
  next
    case 3
    show ?thesis
    proof (cases pp)
      case None
      then show ?thesis using 3 assms(3) paths by (auto simp: on_disk_def save_at_def)
    next
      case (Some p)
      then show ?thesis using 3 assms(2,3) paths save_at_stores [OF assms(1) 3(1) [unfolded Some]]
        by (auto simp: on_disk_def)
    qed
  qed
qed

lemma on_disk_step:
  assumes "toml_laws tm" "pp \<noteq> Some gp" "on_disk tm gp pp s" "store_step tm x s = Some s'"
  shows "on_disk tm gp pp s'"
proof -
  obtain env store ok where s: "s = (env, store, ok)" by (cases s)
  note saved = on_disk_saved [OF assms(1,2) assms(3) [unfolded s]]
  show ?thesis
  proof (cases x)
    case (OpAdd r)
    then show ?thesis using assms(4) s saved add_saves [of tm env store r]
      by (cases s') (auto simp: after_eq)
  next
    case (OpRemove r)
    then show ?thesis using assms(4) s saved remove_saves [of tm env store r]
      by (cases s') (auto simp: after_eq)
  next
    case (OpUpdate u)
    then show ?thesis using assms(4) s saved update_saves [of tm env store u]
      by (cases s') (auto simp: after_eq)
  qed (use assms(3,4) s in \<open>auto simp: on_disk_def add_cli_rules_def add_cli_allow_def add_cli_deny_def
         add_session_rule_def set_default_mode_def\<close>)
qed

lemma on_disk_machine:
  "toml_laws tm \<Longrightarrow> pp \<noteq> Some gp \<Longrightarrow> machine (store_step tm) op_ok (on_disk tm gp pp)"
  by unfold_locales (rule on_disk_step)

lemma healthy_id: "fe_failing env = None \<Longrightarrow> healthy env = env"
  by (cases env) simp

lemma load_on_disk:
  "fe_failing env = None \<Longrightarrow> load_store tm env gp pp = Some store \<Longrightarrow> on_disk tm gp pp (env, store, True)"
  by (auto simp: load_store_eq on_disk_def healthy_id)

lemma load_synced:
  assumes "load_store tm env gp pp = Some store"
    "canonical (rs_global_settings store)" "canonical (rs_project_settings store)"
  shows "synced (env, store, ok)"
  using assms layered_load [OF assms(1)]
  by (auto simp: load_store_eq synced_def synced_store_def agree_def)

section \<open>A \<open>toml\<close> instance\<close>

text \<open>A table that only has the settings, printed as six groups of escaped strings.\<close>

definition enc_string :: "string \<Rightarrow> string" where
  "enc_string s = concat (map (\<lambda>c. [CHR ''c'', c]) s) @ ''.''"

definition enc_group :: "string list \<Rightarrow> string" where
  "enc_group g = concat (map enc_string g) @ '';''"

fun dec_groups :: "string \<Rightarrow> string \<Rightarrow> string list \<Rightarrow> string list list \<Rightarrow> string list list" where
  "dec_groups [] cur g acc = acc"
| "dec_groups [x] cur g acc = (if x = CHR '';'' then acc @ [g] else acc)"
| "dec_groups (x # y # r) cur g acc =
     (if x = CHR ''c'' then dec_groups r (cur @ [y]) g acc
      else if x = CHR ''.'' then dec_groups (y # r) [] (g @ [cur]) acc
      else dec_groups (y # r) [] [] (acc @ [g]))"

lemma dec_end: "dec_groups ('';'' @ r) [] g acc = dec_groups r [] [] (acc @ [g])"
  by (cases r) auto

lemma dec_string: "r \<noteq> [] \<Longrightarrow> dec_groups (enc_string s @ r) cur g acc = dec_groups r [] (g @ [cur @ s]) acc"
proof (induction s arbitrary: cur)
  case Nil
  then show ?case by (cases r) (auto simp: enc_string_def)
qed (simp add: enc_string_def)

lemma dec_group: "dec_groups (enc_group g @ r) [] g0 acc = dec_groups r [] [] (acc @ [g0 @ g])"
proof (induction g arbitrary: g0)
  case Nil
  then show ?case using dec_end [of r] by (simp add: enc_group_def)
next
  case (Cons s g)
  have "enc_group (s # g) @ r = enc_string s @ (enc_group g @ r)" by (simp add: enc_group_def)
  moreover have "enc_group g @ r \<noteq> []" by (simp add: enc_group_def)
  ultimately show ?case using Cons by (simp add: dec_string)
qed

definition print_settings :: "permission_settings \<Rightarrow> string" where
  "print_settings st = concat (map enc_group
     [case ps_default_mode st of None \<Rightarrow> [] | Some m \<Rightarrow> [m], ps_allow st, ps_notify st, ps_deny st,
      ps_ask st, ps_additional_directories st])"

definition read_settings :: "string \<Rightarrow> string + permission_settings" where
  "read_settings s = (case dec_groups s [] [] [] of
      [m, a, n, d, k, x] \<Rightarrow> Inr \<lparr>ps_default_mode = (if m = [] then None else Some (hd m)),
         ps_allow = a, ps_notify = n, ps_deny = d, ps_ask = k, ps_additional_directories = x\<rparr>
    | _ \<Rightarrow> Inl ''syntax'')"

lemma read_print_settings: "read_settings (print_settings st) = Inr st"
proof -
  have "dec_groups (print_settings st) [] [] [] =
      [case ps_default_mode st of None \<Rightarrow> [] | Some m \<Rightarrow> [m], ps_allow st, ps_notify st, ps_deny st,
       ps_ask st, ps_additional_directories st]"
    using dec_group [of "ps_additional_directories st" "[]"]
    by (simp add: print_settings_def dec_group)
  then show ?thesis by (simp add: read_settings_def split: option.split)
qed

definition settings_toml :: "permission_settings toml_ops" where
  "settings_toml = \<lparr>tm_config = read_settings, tm_value = read_settings, tm_empty = empty_settings,
     tm_set_permissions = (\<lambda>t st. Inr st), tm_print = (\<lambda>st. Inr (print_settings st))\<rparr>"

lemma settings_toml_laws [simp]: "toml_laws settings_toml"
  by (simp add: toml_laws_def settings_toml_def read_print_settings)

section \<open>Properties\<close>

text \<open>A rule string parses to a target that, rendered, parses to the same target again, and
  every well-formed target survives being rendered into a settings file and parsed back.  Parsing
  panics exactly on strings that have a closing parenthesis but none after the first opening one.\<close>

theorem rule_string_roundtrip:
  "(wf_target t \<longrightarrow> parse_rule_string (to_rule_string t) = Some t) \<and>
   (parse_rule_string s = Some u \<longrightarrow> wf_target u) \<and>
   (parse_rule_string s = None \<longleftrightarrow>
     CHR ''('' \<in> set s \<and> CHR '')'' \<in> set s \<and> CHR '')'' \<notin> set (dropWhile (\<lambda>x. x \<noteq> CHR ''('') s))"
  using parse_to_rule_string parse_wf parse_panics_iff by blast

theorem rule_string_roundtrip_witness:
  "parse_rule_string ''ShellExec(npm install:*)'' = Some (target_with_pattern ''ShellExec'' ''npm install:*'') \<and>
   parse_rule_string ''a)b('' = None"
  using rule_string_roundtrip [of "target_with_pattern ''ShellExec'' ''npm install:*''" "''a)b(''"]
  by (simp add: wf_target_def target_with_pattern_def to_rule_string_def trimmed_def is_ws_def)

text \<open>After any allowed sequence of store operations, with any I/O faults, on a loaded store,
  the rule that the pipeline's lookup picks from the merged rules is the most specific of the
  rules that apply: no other matching rule of that behaviour is more specific, so session rules
  win over command line, project and global rules of the same kind.\<close>

theorem lookup_picks_most_specific:
  assumes "load_store tm env0 gp pp = Some store0" "\<forall>x \<in> set ops. op_ok x"
    and "run_steps (store_step tm) ops (env, store0, True) = Some (env', store, ok)"
    and "find_matching_rule (cx_rules (build_context store m)) tool content b = Some r"
    and "r' \<in> set (merged_rules store)" "rl_behavior r' = b" "target_matches (rl_target r') tool content"
  shows "\<not> rule_is_more_specific r' r"
proof -
  have "layered_state (env', store, ok)"
    by (rule layers.run_inv [OF _ assms(2,3)]) (simp add: layered_state_def layered_load [OF assms(1)])
  then have "sorted (map (precedence \<circ> rl_source) (merged_rules store))"
    by (simp add: layered_state_def layered_sorted)
  then show ?thesis using found_is_most_specific assms(4-7) by (simp add: build_context_def)
qed

definition allow_ls :: "permission_rule_source \<Rightarrow> permission_rule" where
  "allow_ls src = new_rule src PbAllow (target_tool ''ls'')"

definition no_files :: file_env where
  "no_files = \<lparr>fe_files = Map.empty, fe_parent = (\<lambda>_. None), fe_failing = None, fe_io_written = 0\<rparr>"

lemma load_no_files: "load_store tm no_files gp pp = Some (empty_store\<lparr>rs_global_path := Some gp, rs_project_path := pp\<rparr>)"
proof -
  have "layer_settings tm no_files q = empty_settings" for q
    by (auto simp: layer_settings_def load_settings_from_file_def read_text_def no_files_def split: option.split)
  then show ?thesis
    unfolding load_store_eq by (simp add: empty_store_def) (simp add: empty_settings_def)
qed

theorem lookup_picks_most_specific_witness:
  "\<not> rule_is_more_specific (allow_ls CliArg) (allow_ls SessionSource)"
  by (rule lookup_picks_most_specific [where tm = settings_toml and env0 = no_files and env = no_files and
        gp = "''g''" and pp = None and ops = "[OpCli [allow_ls CliArg], OpSession (allow_ls SessionSource)]"
        and tool = "''ls''" and content = None and b = PbAllow and m = None, OF load_no_files])
     (auto simp: empty_store_def add_cli_rules_def add_session_rule_def build_context_def merged_rules_def
       find_matching_rule_def allow_ls_def new_rule_def target_tool_def target_matches_def)



text \<open>Removing a rule from the global settings takes it out of the rules in memory; the settings
  that are persisted still stand for it, so that it is back after a restart, exactly when they
  also spell its target in another way than the store would, as a hand-edited file may.\<close>

theorem removed_rule_may_return:
  assumes "rl_source r = GlobalSettings" "rl_behavior r \<noteq> PbPassthrough"
    and "settings_to_rules (rs_global_settings store) GlobalSettings = Some rules"
    and "remove_rule tm env store r = (env', store', res)"
  shows "r \<notin> set (rs_global_rules store') \<and>
     (\<exists>reloaded. settings_to_rules (rs_global_settings store') GlobalSettings = Some reloaded \<and>
        (r \<in> set reloaded \<longleftrightarrow>
           (\<exists>s \<in> set (strings_of (rs_global_settings store) (rl_behavior r)).
              s \<noteq> to_rule_string (rl_target r) \<and> parse_rule_string s = Some (rl_target r))))"
proof -
  have st: "rs_global_rules store' = retain_others r (rs_global_rules store)"
    "rs_global_settings store' = remove_from_settings (rs_global_settings store) r"
    using assms(1,4) by (auto simp: remove_rule_def split: prod.splits)
  have "\<forall>b. \<forall>s \<in> set (strings_of (rs_global_settings store) b). parse_rule_string s \<noteq> None"
    using settings_to_rules_total assms(3) by blast
  then have "\<forall>b. \<forall>s \<in> set (strings_of (rs_global_settings store') b). parse_rule_string s \<noteq> None"
    by (auto simp: st strings_of_remove)
  then obtain reloaded where rl: "settings_to_rules (rs_global_settings store') GlobalSettings = Some reloaded"
    using settings_to_rules_total by blast
  then show ?thesis using settings_to_rules_mem [OF rl, of r] assms(1)
    by (auto simp: st strings_of_remove retain_others_def)
qed

theorem removed_rule_may_return_witness:
  "\<exists>env' store' res reloaded.
     remove_rule settings_toml no_files
       (empty_store\<lparr>rs_global_settings := empty_settings\<lparr>ps_allow := ['' ls'']\<rparr>\<rparr>) (allow_ls GlobalSettings) =
       (env', store', res) \<and>
     settings_to_rules (rs_global_settings store') GlobalSettings = Some reloaded \<and>
     allow_ls GlobalSettings \<in> set reloaded"
proof -
  let ?st = "empty_store\<lparr>rs_global_settings := empty_settings\<lparr>ps_allow := ['' ls'']\<rparr>\<rparr>"
  have p: "parse_rule_string '' ls'' = Some (target_tool ''ls'')"
    by (simp add: parse_rule_string_def str_trim_def trim_start_def trim_end_def is_ws_def)
  obtain env' store' res where rm: "remove_rule settings_toml no_files ?st (allow_ls GlobalSettings) = (env', store', res)"
    by (cases "remove_rule settings_toml no_files ?st (allow_ls GlobalSettings)")
  have "settings_to_rules (rs_global_settings ?st) GlobalSettings = Some [allow_ls GlobalSettings]"
    using p by (simp add: settings_to_rules_def parse_rules_def empty_settings_def allow_ls_def)
  from removed_rule_may_return [OF _ _ this rm] p rm show ?thesis
    by (simp add: allow_ls_def new_rule_def target_tool_def to_rule_string_def)
qed

end
