(* ===== verification/LoopGuard.thy ===== *)
theory LoopGuard
  imports RuleStore Complex_Main
begin

text \<open>
  The loop detector of \<open>y-guardrails/src/loop_guard.rs\<close> with its configuration from
  \<open>config.rs\<close>: a bounded history of actions, a progress metric, and four pattern
  checks tried in priority order.  Thresholds and counters are naturals: the code multiplies
  them by at most four, far below the range of \<open>usize\<close>.

  Below the model: an unbounded guard that keeps every action since the last progress, the
  proof that the bounded one reports the same patterns, and what each pattern means.
\<close>

section \<open>Progress metrics\<close>

text \<open>An IEEE double as the code uses it, which only compares: not a number, the infinities,
  or a finite value.\<close>

datatype f64 = F64_NaN | F64_NegInf | F64_Fin rat | F64_PosInf

fun f64_gt :: "f64 \<Rightarrow> f64 \<Rightarrow> bool" where
  "f64_gt F64_NaN _ = False"
| "f64_gt _ F64_NaN = False"
| "f64_gt F64_NegInf _ = False"
| "f64_gt (F64_Fin a) F64_NegInf = True"
| "f64_gt (F64_Fin a) (F64_Fin b) = (b < a)"
| "f64_gt (F64_Fin a) F64_PosInf = False"
| "f64_gt F64_PosInf F64_PosInf = False"
| "f64_gt F64_PosInf _ = True"

section \<open>The guard\<close>

record loop_guard_config =
  lc_repetition_threshold :: nat
  lc_oscillation_threshold :: nat
  lc_drift_threshold :: nat
  lc_redundant_threshold :: nat
  lc_enabled :: bool

definition default_loop_config :: loop_guard_config where
  "default_loop_config = \<lparr>lc_repetition_threshold = 5, lc_oscillation_threshold = 3,
     lc_drift_threshold = 10, lc_redundant_threshold = 3, lc_enabled = True\<rparr>"

record action_record =
  ac_key :: string
  ac_args_hash :: "string option"

record loop_detection =
  ld_pattern :: loop_pattern
  ld_details :: string

record loop_guard =
  lg_config :: loop_guard_config
  lg_history :: "action_record list"
  lg_last_progress :: f64
  lg_steps :: nat

definition guard_new :: "loop_guard_config \<Rightarrow> loop_guard" where
  "guard_new cfg = \<lparr>lg_config = cfg, lg_history = [], lg_last_progress = F64_Fin 0, lg_steps = 0\<rparr>"

definition max_history :: "loop_guard_config \<Rightarrow> nat" where
  "max_history cfg = max (max (max (lc_repetition_threshold cfg) (lc_oscillation_threshold cfg * 2))
     (lc_drift_threshold cfg)) (lc_redundant_threshold cfg) * 2"

text \<open>\<open>while self.history.len() > max_history { self.history.pop_front(); }\<close>\<close>

function pop_to :: "nat \<Rightarrow> 'a list \<Rightarrow> 'a list" where
  "pop_to n xs = (if length xs > n then pop_to n (tl xs) else xs)"
  by pat_completeness auto
termination by (relation "measure (\<lambda>(n, xs). length xs)") auto

declare pop_to.simps [simp del]

definition quoted :: "string \<Rightarrow> string" where
  "quoted s = [CHR 0x60] @ s @ [CHR 0x60]"

definition check_redundant_tool :: "loop_guard \<Rightarrow> loop_detection option" where
  "check_redundant_tool g =
     (let th = lc_redundant_threshold (lg_config g); full = lg_history g
      in if length full < th then None
         else if full = [] then None
         else let l = last full
              in case ac_args_hash l of
                   None \<Rightarrow> None
                 | Some h \<Rightarrow>
                     let consecutive = length (takeWhile
                           (\<lambda>a. ac_key a = ac_key l \<and> ac_args_hash a = Some h) (rev full))
                     in if consecutive \<ge> th
                        then Some \<lparr>ld_pattern = RedundantToolCall,
                               ld_details = ''tool '' @ quoted (ac_key l) @ '' called with same args '' @
                                 show_nat consecutive @ '' times (threshold: '' @ show_nat th @ '')''\<rparr>
                        else None)"

definition check_repetition :: "loop_guard \<Rightarrow> loop_detection option" where
  "check_repetition g =
     (let th = lc_repetition_threshold (lg_config g); full = lg_history g
      in if length full < th then None
         else if full = [] then None
         else let l = last full;
                  consecutive = length (takeWhile (\<lambda>a. ac_key a = ac_key l) (rev full))
              in if consecutive \<ge> th
                 then Some \<lparr>ld_pattern = Repetition,
                        ld_details = ''action '' @ quoted (ac_key l) @ '' repeated '' @
                          show_nat consecutive @ '' times (threshold: '' @ show_nat th @ '')''\<rparr>
                 else None)"

text \<open>\<open>tail[0]\<close> and \<open>tail[1]\<close> panic on a tail that is too short, which only a threshold
  of zero gives.  The outer option is the panic.\<close>

definition check_oscillation :: "loop_guard \<Rightarrow> loop_detection option option" where
  "check_oscillation g =
     (let th = lc_oscillation_threshold (lg_config g); needed = th * 2; full = lg_history g
      in if length full < needed then Some None
         else let t = drop (length full - needed) full
              in if length t < 2 then None
                 else let a = ac_key (t ! 0); b = ac_key (t ! 1)
                      in if a = b then Some None
                         else if \<forall>i < length t. ac_key (t ! i) = (if i mod 2 = 0 then a else b)
                         then Some (Some \<lparr>ld_pattern = Oscillation,
                                ld_details = ''oscillation between '' @ quoted a @ '' and '' @ quoted b @
                                  '' for '' @ show_nat th @ '' cycles''\<rparr>)
                         else Some None)"

definition check_drift :: "loop_guard \<Rightarrow> loop_detection option" where
  "check_drift g =
     (if lg_steps g \<ge> lc_drift_threshold (lg_config g)
      then Some \<lparr>ld_pattern = Drift,
             ld_details = ''no progress for '' @ show_nat (lg_steps g) @ '' steps (threshold: '' @
               show_nat (lc_drift_threshold (lg_config g)) @ '')''\<rparr>
      else None)"

definition track_progress :: "loop_guard \<Rightarrow> f64 option \<Rightarrow> loop_guard" where
  "track_progress g progress =
     (case progress of
        Some m \<Rightarrow>
          if f64_gt m (lg_last_progress g)
          then g\<lparr>lg_last_progress := m, lg_steps := 0, lg_history := []\<rparr>
          else g\<lparr>lg_steps := lg_steps g + 1\<rparr>
      | None \<Rightarrow> g\<lparr>lg_steps := lg_steps g + 1\<rparr>)"

definition check_patterns :: "loop_guard \<Rightarrow> loop_detection option option" where
  "check_patterns g =
     (case check_redundant_tool g of
        Some d \<Rightarrow> Some (Some d)
      | None \<Rightarrow>
          (case check_repetition g of
             Some d \<Rightarrow> Some (Some d)
           | None \<Rightarrow>
               (case check_oscillation g of
                  None \<Rightarrow> None
                | Some (Some d) \<Rightarrow> Some (Some d)
                | Some None \<Rightarrow> Some (check_drift g))))"

definition guard_record ::
  "loop_guard \<Rightarrow> action_record \<Rightarrow> f64 option \<Rightarrow> (loop_guard \<times> loop_detection option) option" where
  "guard_record g act progress =
     (if \<not> lc_enabled (lg_config g) then Some (g, None)
      else let g1 = track_progress g progress;
               g2 = g1\<lparr>lg_history := pop_to (max_history (lg_config g)) (lg_history g1 @ [act])\<rparr>
           in map_option (\<lambda>d. (g2, d)) (check_patterns g2))"

definition guard_reset :: "loop_guard \<Rightarrow> loop_guard" where
  "guard_reset g = g\<lparr>lg_history := [], lg_steps := 0\<rparr>"

section \<open>The unbounded guard\<close>

lemma pop_to_keep_last: "pop_to n xs = keep_last n xs"
proof (induction n xs rule: pop_to.induct)
  case (1 n xs)
  then show ?case
    by (subst pop_to.simps) (auto simp: keep_last_def Suc_diff_Suc simp flip: drop_Suc)
qed

lemma keep_last_rev: "keep_last n xs = rev (take n (rev xs))"
  by (simp add: keep_last_def take_rev)

lemma keep_last_keep_last: "n \<le> m \<Longrightarrow> keep_last n (keep_last m xs) = keep_last n xs"
  by (simp add: keep_last_rev min_absorb1)

lemma le_takeWhile: "n \<le> length (takeWhile P xs) \<longleftrightarrow> n \<le> length xs \<and> (\<forall>x \<in> set (take n xs). P x)"
proof (induction xs arbitrary: n)
  case (Cons a xs)
  then show ?case by (cases n) auto
qed simp

text \<open>The last \<open>n\<close> actions all satisfy \<open>P\<close>.\<close>

definition ends_in_run :: "(action_record \<Rightarrow> bool) \<Rightarrow> nat \<Rightarrow> action_record list \<Rightarrow> bool" where
  "ends_in_run P n xs \<longleftrightarrow> n \<le> length xs \<and> (\<forall>a \<in> set (keep_last n xs). P a)"

lemma run_iff: "n \<le> length (takeWhile P (rev xs)) \<longleftrightarrow> ends_in_run P n xs"
  by (simp add: le_takeWhile ends_in_run_def keep_last_rev)

lemma ends_in_run_keep_last: "n \<le> m \<Longrightarrow> ends_in_run P n (keep_last m xs) \<longleftrightarrow> ends_in_run P n xs"
  by (auto simp: ends_in_run_def keep_last_keep_last)

text \<open>The patterns, on the actions since the last progress and the steps since then.\<close>

definition redundant_run :: "nat \<Rightarrow> action_record list \<Rightarrow> bool" where
  "redundant_run n xs \<longleftrightarrow> xs \<noteq> [] \<and> ac_args_hash (last xs) \<noteq> None \<and>
     ends_in_run (\<lambda>a. ac_key a = ac_key (last xs) \<and> ac_args_hash a = ac_args_hash (last xs)) n xs"

definition repeated_run :: "nat \<Rightarrow> action_record list \<Rightarrow> bool" where
  "repeated_run n xs \<longleftrightarrow> xs \<noteq> [] \<and> ends_in_run (\<lambda>a. ac_key a = ac_key (last xs)) n xs"

definition alternating_run :: "nat \<Rightarrow> action_record list \<Rightarrow> bool" where
  "alternating_run n xs \<longleftrightarrow> (\<exists>a b. a \<noteq> b \<and> n * 2 \<le> length xs \<and>
     map ac_key (keep_last (n * 2) xs) = concat (replicate n [a, b]))"

definition expected_pattern :: "loop_guard_config \<Rightarrow> action_record list \<Rightarrow> nat \<Rightarrow> loop_pattern option" where
  "expected_pattern cfg since steps =
     (if redundant_run (lc_redundant_threshold cfg) since then Some RedundantToolCall
      else if repeated_run (lc_repetition_threshold cfg) since then Some Repetition
      else if alternating_run (lc_oscillation_threshold cfg) since then Some Oscillation
      else if lc_drift_threshold cfg \<le> steps then Some Drift
      else None)"

section \<open>The checks and the patterns\<close>

lemma last_keep_last: "0 < n \<Longrightarrow> xs \<noteq> [] \<Longrightarrow> last (keep_last n xs) = last xs"
  by (simp add: keep_last_def last_drop)

lemma check_redundant_iff:
  "(\<exists>d. check_redundant_tool g = Some d \<and> ld_pattern d = RedundantToolCall) \<longleftrightarrow>
     redundant_run (lc_redundant_threshold (lg_config g)) (lg_history g)"
  "check_redundant_tool g = None \<longleftrightarrow>
     \<not> redundant_run (lc_redundant_threshold (lg_config g)) (lg_history g)"
  by (auto simp: check_redundant_tool_def redundant_run_def Let_def run_iff ends_in_run_def
        split: option.splits if_splits)

lemma check_repetition_iff:
  "(\<exists>d. check_repetition g = Some d \<and> ld_pattern d = Repetition) \<longleftrightarrow>
     repeated_run (lc_repetition_threshold (lg_config g)) (lg_history g)"
  "check_repetition g = None \<longleftrightarrow>
     \<not> repeated_run (lc_repetition_threshold (lg_config g)) (lg_history g)"
  by (auto simp: check_repetition_def repeated_run_def Let_def run_iff ends_in_run_def
        split: option.splits if_splits)

lemma nth_cycle: "i < n * 2 \<Longrightarrow> concat (replicate n [a, b]) ! i = (if i mod 2 = 0 then a else b)"
proof (induction n arbitrary: i)
  case (Suc n)
  consider "i = 0" | "i = 1" | j where "i = Suc (Suc j)" by (metis One_nat_def not0_implies_Suc)
  then show ?case using Suc by cases auto
qed simp

lemma length_cycle [simp]: "length (concat (replicate n [a, b])) = n * 2"
  by (induction n) auto

lemma cycle_iff: "length xs = n * 2 \<Longrightarrow>
    xs = concat (replicate n [a, b]) \<longleftrightarrow> (\<forall>i < length xs. xs ! i = (if i mod 2 = 0 then a else b))"
  by (auto simp: list_eq_iff_nth_eq nth_cycle)

lemma if_chain:
  "if a \<noteq> b \<and> Q then \<exists>d. (if a = b then Some None else if Q then Some (Some (f d0)) else Some None) = Some (Some (f d))
   else (if a = b then Some None else if Q then Some (Some (f d0)) else Some None) = Some None"
  by auto

lemma check_oscillation_eq:
  assumes "0 < lc_oscillation_threshold (lg_config g)"
  shows "if alternating_run (lc_oscillation_threshold (lg_config g)) (lg_history g)
     then \<exists>details. check_oscillation g = Some (Some \<lparr>ld_pattern = Oscillation, ld_details = details\<rparr>)
     else check_oscillation g = Some None"
proof -
  let ?n = "lc_oscillation_threshold (lg_config g)" let ?xs = "lg_history g"
  let ?t = "keep_last (?n * 2) ?xs"
  show ?thesis
  proof (cases "?n * 2 \<le> length ?xs")
    case False
    then show ?thesis by (auto simp: check_oscillation_def alternating_run_def Let_def)
  next
    case True
    then have len: "length ?t = ?n * 2" by simp
    have alt: "alternating_run ?n ?xs \<longleftrightarrow> ac_key (?t ! 0) \<noteq> ac_key (?t ! 1) \<and>
        (\<forall>i < length ?t. ac_key (?t ! i) = (if i mod 2 = 0 then ac_key (?t ! 0) else ac_key (?t ! 1)))"
      (is "_ \<longleftrightarrow> ?R")
    proof
      assume "alternating_run ?n ?xs"
      then obtain a b where ab: "a \<noteq> b" "map ac_key ?t = concat (replicate ?n [a, b])"
        by (auto simp: alternating_run_def)
      then have h: "\<forall>i < ?n * 2. ac_key (?t ! i) = (if i mod 2 = 0 then a else b)"
        using len by (simp add: nth_cycle flip: nth_map [of _ ?t ac_key])
      have "ac_key (?t ! 0) = a" "ac_key (?t ! 1) = b"
        using h [rule_format, of 0] h [rule_format, of 1] assms by auto
      then show ?R using ab(1) h unfolding len by auto
    next
      assume ?R
      then have "map ac_key ?t = concat (replicate ?n [ac_key (?t ! 0), ac_key (?t ! 1)])"
        using cycle_iff [of "map ac_key ?t" ?n] len by simp
      with \<open>?R\<close> True show "alternating_run ?n ?xs" by (auto simp: alternating_run_def)
    qed
    have t: "drop (length ?xs - ?n * 2) ?xs = ?t" by (simp add: keep_last_def)
    have two: "(length ?t < 2) = False" "(length ?xs < ?n * 2) = False" using len assms True by simp_all
    show ?thesis
      unfolding check_oscillation_def Let_def t two alt if_False by (rule if_chain)
  qed
qed

lemma alternating_keep_last: "n * 2 \<le> m \<Longrightarrow> alternating_run n (keep_last m xs) \<longleftrightarrow> alternating_run n xs"
  by (auto simp: alternating_run_def keep_last_keep_last)

lemma keep_last_Nil_iff: "keep_last m xs = [] \<longleftrightarrow> m = 0 \<or> xs = []"
  by (cases xs) (auto simp: keep_last_def)

lemma redundant_keep_last: "n \<le> m \<Longrightarrow> 0 < m \<Longrightarrow> redundant_run n (keep_last m xs) \<longleftrightarrow> redundant_run n xs"
  by (auto simp: redundant_run_def ends_in_run_keep_last last_keep_last keep_last_Nil_iff)

lemma repeated_keep_last: "n \<le> m \<Longrightarrow> 0 < m \<Longrightarrow> repeated_run n (keep_last m xs) \<longleftrightarrow> repeated_run n xs"
  by (auto simp: repeated_run_def ends_in_run_keep_last last_keep_last keep_last_Nil_iff)

text \<open>The history is long enough for every check.\<close>

lemma history_suffices:
  "lc_redundant_threshold cfg \<le> max_history cfg" "lc_repetition_threshold cfg \<le> max_history cfg"
  "lc_oscillation_threshold cfg * 2 \<le> max_history cfg"
  "0 < lc_oscillation_threshold cfg \<Longrightarrow> 0 < max_history cfg"
  by (auto simp: max_history_def)

lemma expected_keep_last:
  "0 < lc_oscillation_threshold cfg \<Longrightarrow>
   expected_pattern cfg (keep_last (max_history cfg) xs) steps = expected_pattern cfg xs steps"
  unfolding expected_pattern_def
  by (simp add: redundant_keep_last repeated_keep_last alternating_keep_last history_suffices)

lemma check_patterns_expected:
  assumes "0 < lc_oscillation_threshold (lg_config g)"
  shows "map_option (map_option ld_pattern) (check_patterns g) =
     Some (expected_pattern (lg_config g) (lg_history g) (lg_steps g))"
proof -
  note red = check_redundant_iff [of g] and rep = check_repetition_iff [of g]
  show ?thesis
    using red rep check_oscillation_eq [OF assms]
    by (auto simp: check_patterns_def expected_pattern_def check_drift_def
          split: option.split if_splits)
qed

section \<open>Runs\<close>

fun guard_run ::
  "loop_guard \<Rightarrow> (action_record \<times> f64 option) list \<Rightarrow> (loop_guard \<times> loop_pattern option list) option" where
  "guard_run g [] = Some (g, [])"
| "guard_run g ((a, p) # xs) =
     (case guard_record g a p of
        None \<Rightarrow> None
      | Some (g', d) \<Rightarrow> map_option (\<lambda>(g'', ds). (g'', map_option ld_pattern d # ds)) (guard_run g' xs))"

text \<open>The unbounded guard: the actions since the last progress, the best metric, the steps since.\<close>

type_synonym view = "action_record list \<times> f64 \<times> nat"

fun view_step :: "view \<Rightarrow> action_record \<times> f64 option \<Rightarrow> view" where
  "view_step (xs, best, n) (a, p) =
     (case p of
        Some m \<Rightarrow> if f64_gt m best then ([a], m, 0) else (xs @ [a], best, n + 1)
      | None \<Rightarrow> (xs @ [a], best, n + 1))"

fun view_run :: "loop_guard_config \<Rightarrow> view \<Rightarrow> (action_record \<times> f64 option) list \<Rightarrow> loop_pattern option list" where
  "view_run cfg v [] = []"
| "view_run cfg v (x # xs) =
     (let v' = view_step v x
      in expected_pattern cfg (fst v') (snd (snd v')) # view_run cfg v' xs)"

definition represents :: "loop_guard_config \<Rightarrow> loop_guard \<Rightarrow> view \<Rightarrow> bool" where
  "represents cfg g v \<longleftrightarrow> lg_config g = cfg \<and> lg_history g = keep_last (max_history cfg) (fst v) \<and>
     lg_last_progress g = fst (snd v) \<and> lg_steps g = snd (snd v)"

lemma keep_last_push: "keep_last n (keep_last n xs @ [a]) = keep_last n (xs @ [a])"
  by (cases n) (simp_all add: keep_last_rev take_Cons')

lemma guard_record_represents:
  assumes "represents cfg g v" "lc_enabled cfg" "0 < lc_oscillation_threshold cfg"
  shows "\<exists>g' d. guard_record g a p = Some (g', d) \<and> represents cfg g' (view_step v (a, p)) \<and>
     map_option ld_pattern d = expected_pattern cfg (fst (view_step v (a, p))) (snd (snd (view_step v (a, p))))"
proof -
  obtain xs best n where v: "v = (xs, best, n)" by (cases v)
  let ?g1 = "track_progress g p"
  let ?g = "?g1\<lparr>lg_history := pop_to (max_history (lg_config g)) (lg_history ?g1 @ [a])\<rparr>"
  have cfg: "lg_config ?g = cfg" "lg_config g = cfg"
    using assms(1) by (auto simp: represents_def track_progress_def split: option.split)
  have rep: "represents cfg ?g (view_step v (a, p))"
    using assms(1) v
    by (auto simp: represents_def track_progress_def pop_to_keep_last keep_last_push split: option.split)
  have "map_option (map_option ld_pattern) (check_patterns ?g) =
      Some (expected_pattern cfg (fst (view_step v (a, p))) (snd (snd (view_step v (a, p)))))"
    using check_patterns_expected [of ?g] rep assms(3) expected_keep_last [OF assms(3)]
    by (simp add: cfg(1) represents_def)
  then obtain d where "check_patterns ?g = Some d"
    "map_option ld_pattern d = expected_pattern cfg (fst (view_step v (a, p))) (snd (snd (view_step v (a, p))))"
    by auto
  then show ?thesis using rep assms(2) cfg by (auto simp: guard_record_def Let_def)
qed

lemma guard_run_represents:
  assumes "lc_enabled cfg" "0 < lc_oscillation_threshold cfg"
  shows "represents cfg g v \<Longrightarrow> \<exists>g'. guard_run g xs = Some (g', view_run cfg v xs)"
proof (induction xs arbitrary: g v)
  case (Cons x xs)
  obtain a p where x: "x = (a, p)" by (cases x)
  obtain g' d where g': "guard_record g a p = Some (g', d)" "represents cfg g' (view_step v x)"
    "map_option ld_pattern d = expected_pattern cfg (fst (view_step v x)) (snd (snd (view_step v x)))"
    using guard_record_represents [OF Cons.prems assms] x by blast
  then show ?case using Cons.IH [OF g'(2)] x by (auto simp: Let_def)
qed simp

lemma represents_new: "represents cfg (guard_new cfg) ([], F64_Fin 0, 0)"
  by (simp add: represents_def guard_new_def)

text \<open>The history stays within its bound, and recording never panics, for a positive
  oscillation threshold.\<close>

definition guard_ok :: "loop_guard \<Rightarrow> bool" where
  "guard_ok g \<longleftrightarrow> 0 < lc_oscillation_threshold (lg_config g) \<and>
     length (lg_history g) \<le> max_history (lg_config g)"

lemma check_patterns_total: "0 < lc_oscillation_threshold (lg_config g) \<Longrightarrow> check_patterns g \<noteq> None"
  using check_patterns_expected [of g] by auto

lemma track_progress_config [simp]: "lg_config (track_progress g p) = lg_config g"
  by (auto simp: track_progress_def split: option.split)

interpretation guard_machine: total_machine
  "\<lambda>(a, p) g. map_option fst (guard_record g a p)" "\<lambda>_. True" guard_ok
proof
  fix s s' :: loop_guard and x :: "action_record \<times> f64 option"
  assume s: "guard_ok s" and st: "(case x of (a, p) \<Rightarrow> \<lambda>g. map_option fst (guard_record g a p)) s = Some s'"
  obtain a p where x: "x = (a, p)" by (cases x)
  from st show "guard_ok s'"
    using s by (auto simp: x guard_record_def guard_ok_def Let_def pop_to_keep_last split: if_splits)
next
  fix s :: loop_guard and x :: "action_record \<times> f64 option"
  assume s: "guard_ok s"
  then show "(case x of (a, p) \<Rightarrow> \<lambda>g. map_option fst (guard_record g a p)) s \<noteq> None"
    using check_patterns_total
    by (auto simp: guard_record_def guard_ok_def Let_def split: prod.split)
qed

section \<open>Properties\<close>



text \<open>A configuration with an oscillation threshold of zero makes the detector panic on the very
  first action of a session (with the other thresholds at two or more): the check indexes an
  empty tail.\<close>

theorem zero_oscillation_threshold_panics:
  assumes "lc_enabled cfg" "lc_oscillation_threshold cfg = 0"
    and "2 \<le> lc_redundant_threshold cfg" "2 \<le> lc_repetition_threshold cfg"
  shows "guard_record (guard_new cfg) a p = None"
proof -
  have "2 \<le> max_history cfg" using assms(3) by (simp add: max_history_def)
  then have h: "pop_to (max_history cfg) [a] = [a]" by (simp add: pop_to_keep_last)
  have t: "lg_history (track_progress (guard_new cfg) p) = []" "lg_config (guard_new cfg) = cfg"
    by (auto simp: track_progress_def guard_new_def split: option.split)
  show ?thesis using assms t h
    by (simp add: guard_record_def Let_def check_patterns_def check_redundant_tool_def
          check_repetition_def check_oscillation_def)
qed

theorem zero_oscillation_threshold_panics_witness:
  "guard_record (guard_new (default_loop_config\<lparr>lc_oscillation_threshold := 0\<rparr>))
     \<lparr>ac_key = ''read'', ac_args_hash = None\<rparr> None = None"
  by (rule zero_oscillation_threshold_panics) (simp_all add: default_loop_config_def)

end
