(* ===== verification/RiskScore.thy ===== *)
theory RiskScore
  imports LoopGuard
begin

text \<open>
  The risk scorer of \<open>y-guardrails/src/risk.rs\<close>, in the single precision arithmetic that
  it uses: a finite value is the rational it stands for, and every sum is rounded to the nearest
  single, ties to even.  Signed zeros are one value: the code only adds and compares.
\<close>

section \<open>Single precision\<close>

datatype f32 = F32_NaN | F32_NegInf | F32_Fin rat | F32_PosInf

fun ilog2 :: "nat \<Rightarrow> nat" where
  "ilog2 n = (if n < 2 then 0 else Suc (ilog2 (n div 2)))"

declare ilog2.simps [simp del]

abbreviation pow2 :: "int \<Rightarrow> rat" where
  "pow2 k \<equiv> 2 powi k"

text \<open>The exponent of a positive rational: the largest power of two not above it.\<close>

definition exponent :: "rat \<Rightarrow> int" where
  "exponent q = (let (n, d) = quotient_of q; k = int (ilog2 (nat n)) - int (ilog2 (nat d))
     in if pow2 k \<le> q then k else k - 1)"

definition round_half_even :: "rat \<Rightarrow> int" where
  "round_half_even q = (let f = \<lfloor>q\<rfloor>; r = q - of_int f
     in if r < 1 / 2 then f else if r > 1 / 2 then f + 1 else if even f then f else f + 1)"

definition f32_round :: "rat \<Rightarrow> f32" where
  "f32_round q =
     (if q = 0 then F32_Fin 0
      else let u = pow2 (max (exponent \<bar>q\<bar>) (- 126) - 23);
               r = of_int (round_half_even (q / u)) * u
           in if r \<ge> pow2 128 then F32_PosInf else if r \<le> - pow2 128 then F32_NegInf else F32_Fin r)"

fun f32_add :: "f32 \<Rightarrow> f32 \<Rightarrow> f32" where
  "f32_add (F32_Fin a) (F32_Fin b) = f32_round (a + b)"
| "f32_add F32_NaN _ = F32_NaN"
| "f32_add _ F32_NaN = F32_NaN"
| "f32_add F32_PosInf F32_NegInf = F32_NaN"
| "f32_add F32_NegInf F32_PosInf = F32_NaN"
| "f32_add F32_PosInf _ = F32_PosInf"
| "f32_add _ F32_PosInf = F32_PosInf"
| "f32_add F32_NegInf _ = F32_NegInf"
| "f32_add _ F32_NegInf = F32_NegInf"

fun f32_ge :: "f32 \<Rightarrow> f32 \<Rightarrow> bool" where
  "f32_ge F32_NaN _ = False"
| "f32_ge _ F32_NaN = False"
| "f32_ge F32_PosInf _ = True"
| "f32_ge _ F32_NegInf = True"
| "f32_ge (F32_Fin a) (F32_Fin b) = (b \<le> a)"
| "f32_ge (F32_Fin a) F32_PosInf = False"
| "f32_ge F32_NegInf _ = False"

text \<open>\<open>f32::clamp(0.0, 1.0)\<close>: not a number stays itself.\<close>

definition clamp01 :: "f32 \<Rightarrow> f32" where
  "clamp01 x = (if x = F32_NaN then x
     else if f32_ge x (F32_Fin 0)
          then (if f32_ge x (F32_Fin 1) then F32_Fin 1 else x)
          else F32_Fin 0)"

section \<open>Rounding a literal\<close>

lemma ilog2_bounds: "0 < n \<Longrightarrow> 2 ^ ilog2 n \<le> n \<and> n < 2 * 2 ^ ilog2 n"
proof (induction n rule: ilog2.induct)
  case (1 n)
  show ?case
  proof (cases "n < 2")
    case True
    then show ?thesis using 1(2) by (subst (1 2) ilog2.simps) auto
  next
    case False
    then have "2 ^ ilog2 (n div 2) \<le> n div 2 \<and> n div 2 < 2 * 2 ^ ilog2 (n div 2)" using 1 by simp
    then show ?thesis using False by (subst (1 2) ilog2.simps) auto
  qed
qed

lemma ilog2_powi: "0 < n \<Longrightarrow> pow2 (int (ilog2 n)) \<le> of_nat n \<and> of_nat n < pow2 (int (ilog2 n) + 1)"
proof -
  assume "0 < n"
  then have "(of_nat (2 ^ ilog2 n) :: rat) \<le> of_nat n" "(of_nat n :: rat) < of_nat (2 * 2 ^ ilog2 n)"
    using ilog2_bounds [of n] by (simp_all only: of_nat_le_iff of_nat_less_iff)
  then show ?thesis by (simp add: power_int_add)
qed

lemma exponent_bounds: "0 < q \<Longrightarrow> pow2 (exponent q) \<le> q \<and> q < pow2 (exponent q + 1)"
proof -
  assume q: "0 < q"
  obtain n d where nd: "quotient_of q = (n, d)" by (cases "quotient_of q")
  then have d: "0 < d" and eq: "q = of_int n / of_int d"
    using quotient_of_denom_pos quotient_of_div by auto
  then have n: "0 < n" using q by (simp add: zero_less_divide_iff)
  let ?a = "int (ilog2 (nat n))" let ?b = "int (ilog2 (nat d))"
  have N: "pow2 ?a \<le> of_int n" "of_int n < pow2 (?a + 1)"
    using ilog2_powi [of "nat n"] n by auto
  have D: "pow2 ?b \<le> of_int d" "of_int d < pow2 (?b + 1)"
    using ilog2_powi [of "nat d"] d by auto
  have "q < pow2 (?a + 1) / pow2 ?b" unfolding eq using N D n d
    by (intro frac_less) auto
  moreover have "pow2 ?a / pow2 (?b + 1) < q" unfolding eq using N D n d
    by (intro frac_less2) auto
  ultimately have "pow2 (?a - ?b - 1) < q" "q < pow2 (?a - ?b + 1)"
    by (simp_all add: power_int_diff power_int_add field_simps)
  then show ?thesis by (auto simp: exponent_def nd Let_def algebra_simps)
qed

lemma exponent_unique: "pow2 e \<le> q \<Longrightarrow> q < pow2 (e + 1) \<Longrightarrow> exponent q = e"
proof -
  assume e: "pow2 e \<le> q" "q < pow2 (e + 1)"
  have "0 < pow2 e" by simp
  then have b: "pow2 (exponent q) \<le> q" "q < pow2 (exponent q + 1)"
    using exponent_bounds [of q] e by linarith+
  have "i < j + 1" if "pow2 i \<le> q" "q < pow2 (j + 1)" for i j
  proof (rule ccontr)
    assume "\<not> i < j + 1"
    then have "pow2 (j + 1) \<le> pow2 i" by (intro power_int_increasing) auto
    then show False using that by simp
  qed
  from this [OF e(1) b(2)] this [OF b(1) e(2)] show ?thesis by simp
qed

lemma round_half_evenI:
  "of_int n - 1 / 2 < q \<and> q < of_int n + 1 / 2 \<or> \<bar>q - of_int n\<bar> = 1 / 2 \<and> even n \<Longrightarrow> round_half_even q = n"
proof (elim disjE conjE)
  assume b: "of_int n - 1 / 2 < q" "q < of_int n + 1 / 2"
  show ?thesis
  proof (cases "of_int n \<le> q")
    case True
    then have "\<lfloor>q\<rfloor> = n" using b by (simp add: floor_eq_iff)
    then show ?thesis using b by (simp add: round_half_even_def Let_def)
  next
    case False
    then have "\<lfloor>q\<rfloor> = n - 1" using b by (simp add: floor_eq_iff)
    then show ?thesis using b by (simp add: round_half_even_def Let_def)
  qed
next
  assume b: "\<bar>q - of_int n\<bar> = 1 / 2" "even n"
  then consider "q = of_int n + 1 / 2" | "q = of_int n - 1 / 2" by linarith
  then show ?thesis
  proof cases
    case 1
    then have "\<lfloor>q\<rfloor> = n" by (simp add: floor_eq_iff)
    then show ?thesis using b 1 by (simp add: round_half_even_def Let_def)
  next
    case 2
    then have "\<lfloor>q\<rfloor> = n - 1" by (simp add: floor_eq_iff)
    then show ?thesis using b 2 by (simp add: round_half_even_def Let_def)
  qed
qed

text \<open>A positive value in the binade of \<open>e\<close> whose nearest multiple of the spacing is \<open>n\<close>.\<close>

lemma f32_round_binade:
  assumes "pow2 e \<le> q" "q < pow2 (e + 1)" "- 126 \<le> e"
    and "of_int n - 1 / 2 < q / pow2 (e - 23) \<and> q / pow2 (e - 23) < of_int n + 1 / 2 \<or>
         \<bar>q / pow2 (e - 23) - of_int n\<bar> = 1 / 2 \<and> even n"
    and "of_int n * pow2 (e - 23) < pow2 128" "0 \<le> n"
  shows "f32_round q = F32_Fin (of_int n * pow2 (e - 23))"
proof -
  have "0 < pow2 e" by simp
  then have "0 < q" using assms(1) by linarith
  moreover have "exponent q = e" by (rule exponent_unique [OF assms(1,2)])
  moreover have "round_half_even (q / pow2 (e - 23)) = n" by (rule round_half_evenI [OF assms(4)])
  moreover have "- pow2 128 < of_int n * pow2 (e - 23)"
  proof -
    have "0 \<le> of_int n * pow2 (e - 23)" using assms(6) by simp
    moreover have "0 < pow2 128" by simp
    ultimately show ?thesis by linarith
  qed
  ultimately show ?thesis using assms(3,5) by (simp add: f32_round_def Let_def)
qed

section \<open>The scorer\<close>

record risk_factors =
  rf_is_dangerous :: bool
  rf_category :: string
  rf_requires_network :: bool
  rf_requires_fs_write :: bool
  rf_custom_risk :: "f32 option"

text \<open>The entries of the breakdown, with what the code formats into them.\<close>

datatype risk_note =
  NoteDangerous
| NoteCategory string f32
| NoteNetwork
| NoteFsWrite
| NoteCustom f32

record risk_assessment =
  ra_score :: f32
  ra_requires_escalation :: bool
  ra_factors :: "risk_note list"

definition default_escalation_threshold :: f32 where
  "default_escalation_threshold = f32_round (7 / 10)"

definition category_risk :: "string \<Rightarrow> f32" where
  "category_risk c =
     (if c = ''shell'' then f32_round (3 / 10)
      else if c = ''network'' then f32_round (2 / 10)
      else if c = ''agent'' then f32_round (15 / 100)
      else if c = ''filesystem'' \<or> c = ''workflow'' then f32_round (1 / 10)
      else if c = ''search'' \<or> c = ''memory'' \<or> c = ''knowledge'' then F32_Fin 0
      else f32_round (5 / 100))"

text \<open>One factor: when it applies, its weight is added and its note is recorded.\<close>

definition add_factor :: "bool \<Rightarrow> f32 \<Rightarrow> risk_note \<Rightarrow> f32 \<times> risk_note list \<Rightarrow> f32 \<times> risk_note list" where
  "add_factor applies weight note acc =
     (if applies then (f32_add (fst acc) weight, snd acc @ [note]) else acc)"

definition f32_positive :: "f32 \<Rightarrow> bool" where
  "f32_positive x = (f32_ge x (F32_Fin 0) \<and> x \<noteq> F32_Fin 0)"

definition risk_score :: "f32 \<Rightarrow> risk_factors \<Rightarrow> risk_assessment" where
  "risk_score threshold f =
     (let acc0 = (F32_Fin 0, []);
          acc1 = add_factor (rf_is_dangerous f) (f32_round (4 / 10)) NoteDangerous acc0;
          cr = category_risk (rf_category f);
          acc2 = add_factor (f32_positive cr) cr (NoteCategory (rf_category f) cr) acc1;
          acc3 = add_factor (rf_requires_network f) (f32_round (1 / 10)) NoteNetwork acc2;
          acc4 = add_factor (rf_requires_fs_write f) (f32_round (1 / 10)) NoteFsWrite acc3;
          acc5 = (case rf_custom_risk f of
                    Some custom \<Rightarrow> add_factor True custom (NoteCustom custom) acc4
                  | None \<Rightarrow> acc4);
          score = clamp01 (fst acc5)
      in \<lparr>ra_score = score, ra_requires_escalation = f32_ge score threshold, ra_factors = snd acc5\<rparr>)"

section \<open>Facts\<close>

lemma f32_round_not_NaN [simp]: "f32_round q \<noteq> F32_NaN"
  by (simp add: f32_round_def Let_def)

lemma f32_add_not_NaN:
  "(\<exists>q. a = F32_Fin q) \<or> a = F32_PosInf \<Longrightarrow> b \<noteq> F32_NaN \<Longrightarrow> b \<noteq> F32_NegInf \<Longrightarrow> f32_add a b \<noteq> F32_NaN"
  by (cases a; cases b) auto

lemma clamp01_range: "x \<noteq> F32_NaN \<Longrightarrow> \<exists>q. clamp01 x = F32_Fin q \<and> 0 \<le> q \<and> q \<le> 1"
  by (cases x) (auto simp: clamp01_def)

lemma f32_lit:
  assumes "1 / 2 ^ nat (- e) \<le> q \<and> q < 2 / 2 ^ nat (- e) \<and> - 126 \<le> e \<and> e < 0 \<and> 0 \<le> n \<and> n < 2 ^ 25 \<and>
     (of_int n - 1 / 2 < q * 2 ^ nat (23 - e) \<and> q * 2 ^ nat (23 - e) < of_int n + 1 / 2 \<or>
      \<bar>q * 2 ^ nat (23 - e) - of_int n\<bar> = 1 / 2 \<and> even n)"
    and "r = of_int n / 2 ^ nat (23 - e)"
  shows "f32_round q = F32_Fin r"
proof -
  have "pow2 e = 1 / 2 ^ nat (- e)" "pow2 (e - 23) = 1 / 2 ^ nat (23 - e)"
    using assms(1) by (auto simp: power_int_def power_one_over)
  moreover have "pow2 (e + 1) = 2 * pow2 e" by (simp add: power_int_add)
  ultimately have p: "pow2 e = 1 / 2 ^ nat (- e)" "pow2 (e + 1) = 2 * (1 / 2 ^ nat (- e))"
      "pow2 (e - 23) = 1 / 2 ^ nat (23 - e)" by simp_all
  have "r \<le> of_int n"
    using assms mult_left_mono [of 1 "2 ^ nat (23 - e)" "of_int n :: rat"] by (simp add: divide_le_eq)
  also have "\<dots> < of_int (2 ^ 25)" using assms(1) by (simp only: of_int_less_iff)
  also have "\<dots> < pow2 128" by simp
  finally have "of_int n * pow2 (e - 23) < pow2 128" using assms(2) by (simp add: p(3))
  then show ?thesis
    using f32_round_binade [of e q n] assms p by (simp add: mult.commute)
qed

text \<open>The literals of the scorer, and the sums that it can reach.\<close>

lemma single_literals:
  "f32_round (2 / 5) = F32_Fin (13421773 / 33554432)"
  "f32_round (3 / 10) = F32_Fin (5033165 / 16777216)"
  "f32_round (1 / 5) = F32_Fin (13421773 / 67108864)"
  "f32_round (3 / 20) = F32_Fin (5033165 / 33554432)"
  "f32_round (1 / 10) = F32_Fin (13421773 / 134217728)"
  "f32_round (1 / 20) = F32_Fin (13421773 / 268435456)"
  "f32_round (7 / 10) = F32_Fin (11744051 / 16777216)"
proof -
  show "f32_round (2 / 5) = F32_Fin (13421773 / 33554432)" by (rule f32_lit [of "-2" _ 13421773]) simp_all
  show "f32_round (3 / 10) = F32_Fin (5033165 / 16777216)" by (rule f32_lit [of "-2" _ 10066330]) simp_all
  show "f32_round (1 / 5) = F32_Fin (13421773 / 67108864)" by (rule f32_lit [of "-3" _ 13421773]) simp_all
  show "f32_round (3 / 20) = F32_Fin (5033165 / 33554432)" by (rule f32_lit [of "-3" _ 10066330]) simp_all
  show "f32_round (1 / 10) = F32_Fin (13421773 / 134217728)" by (rule f32_lit [of "-4" _ 13421773]) simp_all
  show "f32_round (1 / 20) = F32_Fin (13421773 / 268435456)" by (rule f32_lit [of "-5" _ 13421773]) simp_all
  show "f32_round (7 / 10) = F32_Fin (11744051 / 16777216)" by (rule f32_lit [of "-1" _ 11744051]) simp_all
qed

lemma single_sums:
  "f32_round (13421773 / 268435456) = F32_Fin (13421773 / 268435456)"
  "f32_round (13421773 / 134217728) = F32_Fin (13421773 / 134217728)"
  "f32_round (5033165 / 33554432) = F32_Fin (5033165 / 33554432)"
  "f32_round (13421773 / 67108864) = F32_Fin (13421773 / 67108864)"
  "f32_round (5033165 / 16777216) = F32_Fin (5033165 / 16777216)"
  "f32_round (13421773 / 33554432) = F32_Fin (13421773 / 33554432)"
  "f32_round (40265319 / 268435456) = F32_Fin (5033165 / 33554432)"
  "f32_round (33554433 / 134217728) = F32_Fin (1 / 4)"
  "f32_round (40265319 / 134217728) = F32_Fin (5033165 / 16777216)"
  "f32_round (46976205 / 134217728) = F32_Fin (11744051 / 33554432)"
  "f32_round (53687093 / 134217728) = F32_Fin (13421773 / 33554432)"
  "f32_round (120795957 / 268435456) = F32_Fin (15099495 / 33554432)"
  "f32_round (67108865 / 134217728) = F32_Fin (1 / 2)"
  "f32_round (9227469 / 16777216) = F32_Fin (9227469 / 16777216)"
  "f32_round (40265319 / 67108864) = F32_Fin (5033165 / 8388608)"
  "f32_round (23488103 / 33554432) = F32_Fin (2936013 / 4194304)"
  "f32_round (73819753 / 134217728) = F32_Fin (9227469 / 16777216)"
  "f32_round (80530637 / 134217728) = F32_Fin (5033165 / 8388608)"
  "f32_round (87241525 / 134217728) = F32_Fin (10905191 / 16777216)"
  "f32_round (93952413 / 134217728) = F32_Fin (2936013 / 4194304)"
  "f32_round (100663301 / 134217728) = F32_Fin (12582913 / 16777216)"
  "f32_round (107374189 / 134217728) = F32_Fin (6710887 / 8388608)"
  "f32_round (120795965 / 134217728) = F32_Fin (1887437 / 2097152)"
proof -
  show "f32_round (13421773 / 268435456) = F32_Fin (13421773 / 268435456)" by (rule f32_lit [of "-5" _ 13421773]) simp_all
  show "f32_round (13421773 / 134217728) = F32_Fin (13421773 / 134217728)" by (rule f32_lit [of "-4" _ 13421773]) simp_all
  show "f32_round (5033165 / 33554432) = F32_Fin (5033165 / 33554432)" by (rule f32_lit [of "-3" _ 10066330]) simp_all
  show "f32_round (13421773 / 67108864) = F32_Fin (13421773 / 67108864)" by (rule f32_lit [of "-3" _ 13421773]) simp_all
  show "f32_round (5033165 / 16777216) = F32_Fin (5033165 / 16777216)" by (rule f32_lit [of "-2" _ 10066330]) simp_all
  show "f32_round (13421773 / 33554432) = F32_Fin (13421773 / 33554432)" by (rule f32_lit [of "-2" _ 13421773]) simp_all
  show "f32_round (40265319 / 268435456) = F32_Fin (5033165 / 33554432)" by (rule f32_lit [of "-3" _ 10066330]) simp_all
  show "f32_round (33554433 / 134217728) = F32_Fin (1 / 4)" by (rule f32_lit [of "-2" _ 8388608]) simp_all
  show "f32_round (40265319 / 134217728) = F32_Fin (5033165 / 16777216)" by (rule f32_lit [of "-2" _ 10066330]) simp_all
  show "f32_round (46976205 / 134217728) = F32_Fin (11744051 / 33554432)" by (rule f32_lit [of "-2" _ 11744051]) simp_all
  show "f32_round (53687093 / 134217728) = F32_Fin (13421773 / 33554432)" by (rule f32_lit [of "-2" _ 13421773]) simp_all
  show "f32_round (120795957 / 268435456) = F32_Fin (15099495 / 33554432)" by (rule f32_lit [of "-2" _ 15099495]) simp_all
  show "f32_round (67108865 / 134217728) = F32_Fin (1 / 2)" by (rule f32_lit [of "-1" _ 8388608]) simp_all
  show "f32_round (9227469 / 16777216) = F32_Fin (9227469 / 16777216)" by (rule f32_lit [of "-1" _ 9227469]) simp_all
  show "f32_round (40265319 / 67108864) = F32_Fin (5033165 / 8388608)" by (rule f32_lit [of "-1" _ 10066330]) simp_all
  show "f32_round (23488103 / 33554432) = F32_Fin (2936013 / 4194304)" by (rule f32_lit [of "-1" _ 11744052]) simp_all
  show "f32_round (73819753 / 134217728) = F32_Fin (9227469 / 16777216)" by (rule f32_lit [of "-1" _ 9227469]) simp_all
  show "f32_round (80530637 / 134217728) = F32_Fin (5033165 / 8388608)" by (rule f32_lit [of "-1" _ 10066330]) simp_all
  show "f32_round (87241525 / 134217728) = F32_Fin (10905191 / 16777216)" by (rule f32_lit [of "-1" _ 10905191]) simp_all
  show "f32_round (93952413 / 134217728) = F32_Fin (2936013 / 4194304)" by (rule f32_lit [of "-1" _ 11744052]) simp_all
  show "f32_round (100663301 / 134217728) = F32_Fin (12582913 / 16777216)" by (rule f32_lit [of "-1" _ 12582913]) simp_all
  show "f32_round (107374189 / 134217728) = F32_Fin (6710887 / 8388608)" by (rule f32_lit [of "-1" _ 13421774]) simp_all
  show "f32_round (120795965 / 134217728) = F32_Fin (1887437 / 2097152)" by (rule f32_lit [of "-1" _ 15099496]) simp_all
qed

section \<open>Properties\<close>

definition base_score :: "f32 \<Rightarrow> bool \<Rightarrow> bool \<Rightarrow> bool \<Rightarrow> f32" where
  "base_score cr d n w = fst (add_factor w (f32_round (1 / 10)) NoteFsWrite
     (add_factor n (f32_round (1 / 10)) NoteNetwork
     (add_factor (f32_positive cr) cr NoteNetwork
     (add_factor d (f32_round (4 / 10)) NoteDangerous (F32_Fin 0, [])))))"

lemma add_factor_fst: "fst (add_factor b w note acc) = (if b then f32_add (fst acc) w else fst acc)"
  by (simp add: add_factor_def)

lemma risk_score_base:
  "ra_score (risk_score th f) =
     (let b = base_score (category_risk (rf_category f)) (rf_is_dangerous f) (rf_requires_network f) (rf_requires_fs_write f)
      in clamp01 (case rf_custom_risk f of None \<Rightarrow> b | Some c \<Rightarrow> f32_add b c))"
  by (simp add: risk_score_def base_score_def Let_def add_factor_fst split: option.split)

definition category_class :: "string \<Rightarrow> nat" where
  "category_class c =
     (if c = ''shell'' then 0 else if c = ''network'' then 1 else if c = ''agent'' then 2
      else if c = ''filesystem'' \<or> c = ''workflow'' then 3
      else if c = ''search'' \<or> c = ''memory'' \<or> c = ''knowledge'' then 4 else 5)"

definition class_risk :: "nat \<Rightarrow> f32" where
  "class_risk k = [f32_round (3 / 10), f32_round (2 / 10), f32_round (15 / 100), f32_round (1 / 10),
     F32_Fin 0, f32_round (5 / 100)] ! k"

lemma category_risk_class: "category_risk c = class_risk (category_class c) \<and> category_class c < 6"
  by (simp add: category_risk_def class_risk_def category_class_def numeral_eq_Suc)

lemma base_score_values:
  "k < 6 \<Longrightarrow> (case base_score (class_risk k) d n w of
      F32_Fin q \<Rightarrow> 0 \<le> q \<and> q \<le> 1 \<and>
        (11744051 / 16777216 \<le> q \<longleftrightarrow>
          d \<and> (k = 0 \<or> k = 1 \<and> (n \<or> w) \<or> (k = 2 \<or> k = 3) \<and> n \<and> w))
    | _ \<Rightarrow> False)"
  by (simp add: less_Suc_eq numeral_eq_Suc, elim disjE; cases d; cases n; cases w)
     (simp_all add: base_score_def class_risk_def add_factor_fst f32_positive_def
        single_literals single_sums)

lemma base_score_finite: "\<exists>q. base_score (category_risk c) d n w = F32_Fin q \<and> 0 \<le> q \<and> q \<le> 1"
  using base_score_values [of "category_class c" d n w] category_risk_class [of c]
  by (cases "base_score (category_risk c) d n w") auto

text \<open>A custom risk that is a number keeps the score between 0 and 1.\<close>

theorem risk_score_bounded:
  assumes "rf_custom_risk f \<noteq> Some F32_NaN"
  shows "\<exists>q. ra_score (risk_score th f) = F32_Fin q \<and> 0 \<le> q \<and> q \<le> 1"
proof -
  obtain b where b: "base_score (category_risk (rf_category f)) (rf_is_dangerous f)
      (rf_requires_network f) (rf_requires_fs_write f) = F32_Fin b"
    using base_score_finite by blast
  have add: "f32_add (F32_Fin b) c \<noteq> F32_NaN" if "c \<noteq> F32_NaN" for c using that by (cases c) auto
  show ?thesis
  proof (cases "rf_custom_risk f")
    case None
    show ?thesis unfolding risk_score_base Let_def b None option.case by (rule clamp01_range) simp
  next
    case (Some c)
    then have "c \<noteq> F32_NaN" using assms by simp
    then show ?thesis unfolding risk_score_base Let_def b Some option.case
      by (intro clamp01_range add)
  qed
qed

theorem risk_score_bounded_witness:
  "\<exists>q. ra_score (risk_score default_escalation_threshold \<lparr>rf_is_dangerous = True, rf_category = ''shell'',
     rf_requires_network = True, rf_requires_fs_write = True, rf_custom_risk = Some F32_PosInf\<rparr>) = F32_Fin q \<and>
     0 \<le> q \<and> q \<le> 1"
  by (rule risk_score_bounded) simp

text \<open>With the default threshold and no custom risk, exactly these calls escalate: dangerous tools of
  the shell category; dangerous network tools that also need network access or write files; and
  dangerous agent, filesystem or workflow tools that need both.  The three sums of exactly 0.7
  in decimals round up in single precision, so they reach the threshold.\<close>

theorem escalation_table:
  assumes "rf_custom_risk f = None"
  shows "ra_requires_escalation (risk_score default_escalation_threshold f) \<longleftrightarrow>
     rf_is_dangerous f \<and>
     (rf_category f = ''shell'' \<or>
      rf_category f = ''network'' \<and> (rf_requires_network f \<or> rf_requires_fs_write f) \<or>
      rf_category f \<in> {''agent'', ''filesystem'', ''workflow''} \<and> rf_requires_network f \<and> rf_requires_fs_write f)"
proof -
  let ?k = "category_class (rf_category f)"
  obtain q where q: "base_score (category_risk (rf_category f)) (rf_is_dangerous f)
      (rf_requires_network f) (rf_requires_fs_write f) = F32_Fin q" "0 \<le> q" "q \<le> 1"
    using base_score_finite by blast
  then have score: "ra_score (risk_score default_escalation_threshold f) = F32_Fin q"
    using assms by (auto simp: risk_score_base clamp01_def)
  have th: "default_escalation_threshold = F32_Fin (11744051 / 16777216)"
    unfolding default_escalation_threshold_def by (rule single_literals)
  have "ra_requires_escalation (risk_score default_escalation_threshold f) =
      f32_ge (ra_score (risk_score default_escalation_threshold f)) default_escalation_threshold"
    by (simp add: risk_score_def Let_def)
  also have "\<dots> \<longleftrightarrow> 11744051 / 16777216 \<le> q" unfolding score unfolding th by (rule f32_ge.simps)
  also have "\<dots> \<longleftrightarrow> rf_is_dangerous f \<and> (?k = 0 \<or> ?k = 1 \<and> (rf_requires_network f \<or> rf_requires_fs_write f) \<or>
      (?k = 2 \<or> ?k = 3) \<and> rf_requires_network f \<and> rf_requires_fs_write f)"
    using base_score_values [of ?k "rf_is_dangerous f" "rf_requires_network f" "rf_requires_fs_write f"]
      category_risk_class [of "rf_category f"] q(1) by simp
  finally show ?thesis by (auto simp: category_class_def)
qed

theorem escalation_table_witness:
  "ra_requires_escalation (risk_score default_escalation_threshold \<lparr>rf_is_dangerous = True,
     rf_category = ''filesystem'', rf_requires_network = True, rf_requires_fs_write = True, rf_custom_risk = None\<rparr>)"
  using escalation_table [of "\<lparr>rf_is_dangerous = True, rf_category = ''filesystem'',
     rf_requires_network = True, rf_requires_fs_write = True, rf_custom_risk = None\<rparr>"] by simp

end
