(* ===== verification/MiddlewareChain.thy ===== *)
theory MiddlewareChain
  imports Prelude "HOL-Library.Multiset" "HOL-Library.Product_Lexorder"
begin

text \<open>
  The middleware chain: contexts, results and errors of \<open>y-core/src/hook.rs\<close>, the
  priority-sorted chain of \<open>y-hooks/src/chain.rs\<close> and the timeout-guarded runner of
  \<open>y-hooks/src/chain_runner.rs\<close>.  A middleware is the function that it computes on the
  state it shares with the other middlewares (\<open>'s\<close>, what is behind their
  \<open>Arc\<close>s and locks) and on the context; JSON values are the type parameter
  \<open>'v\<close>.

  A chain behaves as the list of the live middlewares in registration order, sorted stably by
  priority: the simulation below shows it for every sequence of registrations.
\<close>

section \<open>Contexts\<close>

datatype chain_type = CtContext | CtTool | CtLlm | CtCompaction | CtMemory

fun chain_type_debug :: "chain_type \<Rightarrow> string" where
  "chain_type_debug CtContext = ''Context''"
| "chain_type_debug CtTool = ''Tool''"
| "chain_type_debug CtLlm = ''Llm''"
| "chain_type_debug CtCompaction = ''Compaction''"
| "chain_type_debug CtMemory = ''Memory''"

record 'v middleware_context =
  mc_chain_type :: chain_type
  mc_payload :: 'v
  mc_metadata :: 'v
  mc_aborted :: bool
  mc_abort_reason :: "string option"

text \<open>\<open>empty_object\<close> is the empty JSON object.\<close>

definition context_new :: "'v \<Rightarrow> chain_type \<Rightarrow> 'v \<Rightarrow> 'v middleware_context" where
  "context_new empty_object ct payload = \<lparr>mc_chain_type = ct, mc_payload = payload,
     mc_metadata = empty_object, mc_aborted = False, mc_abort_reason = None\<rparr>"

definition context_abort :: "'v middleware_context \<Rightarrow> string \<Rightarrow> 'v middleware_context" where
  "context_abort ctx reason = ctx\<lparr>mc_aborted := True, mc_abort_reason := Some reason\<rparr>"

datatype middleware_result = MwContinue | MwShortCircuit

datatype middleware_error =
  MeTimeout string nat
| MePanic string string
| MeExecution string string
| MeOther string

record ('s, 'v) middleware =
  mw_execute :: "'s \<Rightarrow> 'v middleware_context \<Rightarrow>
     's \<times> 'v middleware_context \<times> (middleware_error + middleware_result)"
  mw_chain_type :: chain_type
  mw_priority :: nat
  mw_name :: string

section \<open>The chain\<close>

datatype hook_error =
  HeMiddlewareNotFound string
| HeMiddlewareAlreadyRegistered string
| HeRegistrationError string
| HeEventBusError string
| HeChainError string
| HeHookHandlerError string string
| HeHookHandlerTimeout string nat
| HeHookHandlerValidation string
| HeOther string

record ('s, 'v) middleware_entry =
  en_middleware :: "('s, 'v) middleware"
  en_insertion_order :: nat

record ('s, 'v) middleware_chain =
  ch_chain_type :: chain_type
  ch_entries :: "('s, 'v) middleware_entry list"
  ch_next_insertion_order :: nat

definition chain_new :: "chain_type \<Rightarrow> ('s, 'v) middleware_chain" where
  "chain_new ct = \<lparr>ch_chain_type = ct, ch_entries = [], ch_next_insertion_order = 0\<rparr>"

definition entry_key :: "('s, 'v) middleware_entry \<Rightarrow> nat \<times> nat" where
  "entry_key e = (mw_priority (en_middleware e), en_insertion_order e)"

definition chain_register ::
  "('s, 'v) middleware_chain \<Rightarrow> ('s, 'v) middleware \<Rightarrow> hook_error + ('s, 'v) middleware_chain" where
  "chain_register ch mw =
     (if mw_chain_type mw \<noteq> ch_chain_type ch
      then Inl (HeRegistrationError (''middleware '' @ [CHR 0x27] @ mw_name mw @ [CHR 0x27] @ '' belongs to '' @
             chain_type_debug (mw_chain_type mw) @ '', cannot register in '' @
             chain_type_debug (ch_chain_type ch) @ '' chain''))
      else if \<exists>e \<in> set (ch_entries ch). mw_name (en_middleware e) = mw_name mw
      then Inl (HeMiddlewareAlreadyRegistered (mw_name mw))
      else Inr (ch\<lparr>ch_next_insertion_order := ch_next_insertion_order ch + 1,
             ch_entries := sort_key entry_key (ch_entries ch @
               [\<lparr>en_middleware = mw, en_insertion_order = ch_next_insertion_order ch\<rparr>])\<rparr>))"

definition chain_unregister ::
  "('s, 'v) middleware_chain \<Rightarrow> string \<Rightarrow> hook_error + ('s, 'v) middleware_chain" where
  "chain_unregister ch name =
     (let kept = filter (\<lambda>e. mw_name (en_middleware e) \<noteq> name) (ch_entries ch)
      in if length kept = length (ch_entries ch) then Inl (HeMiddlewareNotFound name)
         else Inr (ch\<lparr>ch_entries := kept\<rparr>))"

fun execute_entries ::
  "('s, 'v) middleware_entry list \<Rightarrow> 's \<Rightarrow> 'v middleware_context \<Rightarrow>
     's \<times> 'v middleware_context \<times> (middleware_error + unit)" where
  "execute_entries [] s ctx = (s, ctx, Inr ())"
| "execute_entries (e # es) s ctx =
     (if mc_aborted ctx then (s, ctx, Inr ())
      else case mw_execute (en_middleware e) s ctx of
             (s', ctx', Inl err) \<Rightarrow> (s', ctx', Inl err)
           | (s', ctx', Inr MwContinue) \<Rightarrow> execute_entries es s' ctx'
           | (s', ctx', Inr MwShortCircuit) \<Rightarrow> (s', ctx', Inr ()))"

definition chain_execute ::
  "('s, 'v) middleware_chain \<Rightarrow> 's \<Rightarrow> 'v middleware_context \<Rightarrow>
     's \<times> 'v middleware_context \<times> (middleware_error + unit)" where
  "chain_execute ch = execute_entries (ch_entries ch)"

definition middleware_names :: "('s, 'v) middleware_chain \<Rightarrow> string list" where
  "middleware_names ch = map (mw_name \<circ> en_middleware) (ch_entries ch)"

definition get_middleware :: "('s, 'v) middleware_chain \<Rightarrow> string \<Rightarrow> ('s, 'v) middleware option" where
  "get_middleware ch name =
     map_option en_middleware (List.find (\<lambda>e. mw_name (en_middleware e) = name) (ch_entries ch))"

section \<open>The runner\<close>

text \<open>
  \<open>tokio::time::timeout\<close> either lets the middleware finish or drops it when the deadline
  passes, whatever it has done by then.  \<open>expired\<close> tells for which calls the deadline
  passes, and with which partial effect.
\<close>

type_synonym ('s, 'v) expiry =
  "('s, 'v) middleware \<Rightarrow> 's \<Rightarrow> 'v middleware_context \<Rightarrow> ('s \<times> 'v middleware_context) option"

definition run_one ::
  "('s, 'v) expiry \<Rightarrow> nat \<Rightarrow> ('s, 'v) middleware \<Rightarrow> 's \<Rightarrow> 'v middleware_context \<Rightarrow>
     's \<times> 'v middleware_context \<times> (middleware_error + middleware_result)" where
  "run_one expired timeout_ms mw s ctx =
     (case expired mw s ctx of
        Some (s', ctx') \<Rightarrow> (s', ctx', Inl (MeTimeout (mw_name mw) (min timeout_ms (2 ^ 64 - 1))))
      | None \<Rightarrow> mw_execute mw s ctx)"

fun run_chain ::
  "('s, 'v) expiry \<Rightarrow> nat \<Rightarrow> ('s, 'v) middleware list \<Rightarrow> 's \<Rightarrow> 'v middleware_context \<Rightarrow>
     's \<times> 'v middleware_context \<times> (middleware_error + unit)" where
  "run_chain expired timeout_ms [] s ctx = (s, ctx, Inr ())"
| "run_chain expired timeout_ms (mw # mws) s ctx =
     (if mc_aborted ctx then (s, ctx, Inr ())
      else case run_one expired timeout_ms mw s ctx of
             (s', ctx', Inr MwContinue) \<Rightarrow> run_chain expired timeout_ms mws s' ctx'
           | (s', ctx', Inr MwShortCircuit) \<Rightarrow> (s', ctx', Inr ())
           | (s', ctx', Inl err) \<Rightarrow> (s', ctx', Inl err))"

section \<open>Stable order\<close>

lemma sort_key_stable_pair:
  assumes "sorted (map snd_key xs)"
  shows "sort_key (\<lambda>x. (fst_key x, snd_key x)) xs = sort_key fst_key xs"
proof -
  let ?f = "\<lambda>x. (fst_key x, snd_key x)"
  have sub: "sorted (map snd_key (filter P xs))" for P
    using assms by (rule sorted_filter)
  show ?thesis
  proof (rule sym, rule properties_for_sort_key)
    show "mset (sort_key ?f xs) = mset xs" by simp
    show "filter (\<lambda>x. fst_key k = fst_key x) (sort_key ?f xs) = filter (\<lambda>x. fst_key k = fst_key x) xs"
      if "k \<in> set (sort_key ?f xs)" for k
    proof -
      have "sorted (map ?f (filter (\<lambda>x. fst_key k = fst_key x) xs))"
        using sub [of "\<lambda>x. fst_key k = fst_key x"]
        by (induction xs) (auto simp: less_eq_prod_def)
      then show ?thesis by (simp add: filter_sort sorted_sort_id flip: map_map)
          (metis (no_types, lifting) filter_sort sort_key_id_if_sorted)
    qed
    show "sorted (map fst_key (sort_key ?f xs))"
    proof -
      have "sorted (map ?f (sort_key ?f xs))" by simp
      then have "sorted (map fst (map ?f (sort_key ?f xs)))"
        by (rule sorted_map_mono) (auto simp: mono_on_def less_eq_prod_def)
      then show ?thesis by (simp add: comp_def)
    qed
  qed
qed

section \<open>Simulation by the list of live middlewares\<close>

datatype ('s, 'v) chain_op = Register "('s, 'v) middleware" | Unregister string

text \<open>A failed operation leaves the chain as it is.\<close>

fun chain_step :: "('s, 'v) chain_op \<Rightarrow> ('s, 'v) middleware_chain \<Rightarrow> ('s, 'v) middleware_chain" where
  "chain_step (Register mw) ch = (case chain_register ch mw of Inl _ \<Rightarrow> ch | Inr ch' \<Rightarrow> ch')"
| "chain_step (Unregister name) ch = (case chain_unregister ch name of Inl _ \<Rightarrow> ch | Inr ch' \<Rightarrow> ch')"

fun live_step :: "chain_type \<Rightarrow> ('s, 'v) chain_op \<Rightarrow> ('s, 'v) middleware list \<Rightarrow> ('s, 'v) middleware list" where
  "live_step ct (Register mw) live =
     (if mw_chain_type mw = ct \<and> mw_name mw \<notin> mw_name ` set live then live @ [mw] else live)"
| "live_step ct (Unregister name) live = filter (\<lambda>mw. mw_name mw \<noteq> name) live"

definition simulates :: "chain_type \<Rightarrow> ('s, 'v) middleware_chain \<Rightarrow> ('s, 'v) middleware list \<Rightarrow> bool" where
  "simulates ct ch live \<longleftrightarrow> ch_chain_type ch = ct \<and>
     (\<exists>es. live = map en_middleware es \<and> sorted_wrt (<) (map en_insertion_order es) \<and>
           (\<forall>e \<in> set es. en_insertion_order e < ch_next_insertion_order ch) \<and>
           ch_entries ch = sort_key entry_key es)"

lemma simulates_new: "simulates ct (chain_new ct) []"
  by (simp add: simulates_def chain_new_def)

lemma strict_sorted_orders:
  "sorted_wrt (<) (map en_insertion_order es) \<Longrightarrow> sorted (map en_insertion_order es) \<and> inj_on entry_key (set es)"
proof
  assume s: "sorted_wrt (<) (map en_insertion_order es)"
  then show "sorted (map en_insertion_order es)" by (simp add: strict_sorted_iff)
  have "distinct (map en_insertion_order es)" using s by (simp add: strict_sorted_iff)
  then show "inj_on entry_key (set es)"
    by (auto simp: distinct_map inj_on_def entry_key_def)
qed

lemma map_insort_key: "map g (insort_key (\<lambda>y. f (g y)) x xs) = insort_key f (g x) (map g xs)"
  by (induction xs) simp_all

lemma map_sort_key: "map g (sort_key (\<lambda>y. f (g y)) xs) = sort_key f (map g xs)"
  by (induction xs) (simp_all add: map_insort_key)

lemma simulates_order:
  assumes "simulates ct ch live"
  shows "map en_middleware (ch_entries ch) = sort_key mw_priority live"
proof -
  obtain es where es: "live = map en_middleware es" "sorted_wrt (<) (map en_insertion_order es)"
    "ch_entries ch = sort_key entry_key es" using assms by (auto simp: simulates_def)
  have "ch_entries ch = sort_key (\<lambda>e. mw_priority (en_middleware e)) es"
    unfolding es(3) entry_key_def [abs_def]
    by (rule sort_key_stable_pair) (use strict_sorted_orders [OF es(2)] in blast)
  then have "map en_middleware (ch_entries ch) = map en_middleware (sort_key (\<lambda>e. mw_priority (en_middleware e)) es)"
    by simp
  also have "\<dots> = sort_key mw_priority live"
    unfolding es(1) by (rule map_sort_key)
  finally show ?thesis .
qed

lemma simulates_set: "simulates ct ch live \<Longrightarrow> set (map en_middleware (ch_entries ch)) = set live"
  by (simp add: simulates_order)

lemma sort_key_append_sorted:
  assumes "inj_on f (set (es @ [e]))"
  shows "sort_key f (sort_key f es @ [e]) = sort_key f (es @ [e])"
  by (rule sym, rule sort_key_inj_key_eq) (use assms in auto)

lemma simulates_register:
  assumes "simulates ct ch live"
  shows "simulates ct (chain_step (Register mw) ch) (live_step ct (Register mw) live)"
proof -
  obtain es where es: "live = map en_middleware es" "sorted_wrt (<) (map en_insertion_order es)"
    "\<forall>e \<in> set es. en_insertion_order e < ch_next_insertion_order ch"
    "ch_entries ch = sort_key entry_key es" "ch_chain_type ch = ct"
    using assms by (auto simp: simulates_def)
  have names: "(\<exists>e \<in> set (ch_entries ch). mw_name (en_middleware e) = mw_name mw) \<longleftrightarrow> mw_name mw \<in> mw_name ` set live"
    using es(1,4) by (auto simp: image_iff, metis)
  show ?thesis
  proof (cases "mw_chain_type mw = ct \<and> mw_name mw \<notin> mw_name ` set live")
    case True
    let ?e = "\<lparr>en_middleware = mw, en_insertion_order = ch_next_insertion_order ch\<rparr>"
    have ord: "sorted_wrt (<) (map en_insertion_order (es @ [?e]))"
      using es(2,3) by (simp add: sorted_wrt_append)
    have "sort_key entry_key (ch_entries ch @ [?e]) = sort_key entry_key (es @ [?e])"
      unfolding es(4) by (rule sort_key_append_sorted) (use strict_sorted_orders [OF ord] in blast)
    then show ?thesis
      using True es ord names unfolding simulates_def
      by (auto simp: chain_register_def less_SucI intro!: exI [of _ "es @ [?e]"])
  next
    case False
    then show ?thesis using assms names es(5) by (auto simp: chain_register_def)
  qed
qed

lemma simulates_unregister:
  assumes "simulates ct ch live"
  shows "simulates ct (chain_step (Unregister name) ch) (live_step ct (Unregister name) live)"
proof -
  let ?P = "\<lambda>e. mw_name (en_middleware e) \<noteq> name"
  obtain es where es: "live = map en_middleware es" "sorted_wrt (<) (map en_insertion_order es)"
    "\<forall>e \<in> set es. en_insertion_order e < ch_next_insertion_order ch"
    "ch_entries ch = sort_key entry_key es" "ch_chain_type ch = ct"
    using assms by (auto simp: simulates_def)
  have f: "live_step ct (Unregister name) live = map en_middleware (filter ?P es)"
    by (simp add: es(1) filter_map comp_def)
  have ord: "sorted_wrt (<) (map en_insertion_order (filter ?P es))"
    using es(2) by (simp add: sorted_wrt_map sorted_wrt_filter)
  have "ch_entries (chain_step (Unregister name) ch) = filter ?P (ch_entries ch) \<and>
      ch_chain_type (chain_step (Unregister name) ch) = ct \<and>
      ch_next_insertion_order (chain_step (Unregister name) ch) = ch_next_insertion_order ch"
  proof (cases "length (filter ?P (ch_entries ch)) = length (ch_entries ch)")
    case True
    then have "filter ?P (ch_entries ch) = ch_entries ch"
      by (metis filter_id_conv length_filter_less less_irrefl)
    then show ?thesis using True es(5) by (simp add: chain_unregister_def)
  qed (simp add: chain_unregister_def es(5) Let_def)
  moreover have "filter ?P (ch_entries ch) = sort_key entry_key (filter ?P es)"
    unfolding es(4) by (rule filter_sort)
  ultimately show ?thesis using es(3) ord unfolding simulates_def f
    by (auto intro!: exI [of _ "filter ?P es"])
qed

lemma simulates_step: "simulates ct ch live \<Longrightarrow> simulates ct (chain_step x ch) (live_step ct x live)"
  by (cases x) (simp_all only: simulates_register simulates_unregister)

interpretation chain_sim: machine
  "\<lambda>x (ch, live). Some (chain_step x ch, live_step ct x live)" "\<lambda>_. True"
  "\<lambda>(ch, live). simulates ct ch live" for ct
  by unfold_locales (auto simp: simulates_step)

lemma run_both: "run_steps (\<lambda>x (ch, live). Some (chain_step x ch, live_step ct x live)) xs (ch, live) =
    Some (fold chain_step xs ch, fold (live_step ct) xs live)"
  by (induction xs arbitrary: ch live) auto

lemma simulates_fold: "simulates ct (fold chain_step xs (chain_new ct)) (fold (live_step ct) xs [])"
  using chain_sim.run_inv [where s = "(chain_new ct, [])" and xs = xs, OF _ _ run_both]
  by (simp add: simulates_new)

section \<open>Execution\<close>

text \<open>What a list of middlewares does when it is run in order.\<close>

lemma execute_entries_cong:
  "map en_middleware es = map en_middleware es' \<Longrightarrow> execute_entries es s ctx = execute_entries es' s ctx"
proof (induction es arbitrary: es' s ctx)
  case (Cons e es)
  then obtain e' es'' where "es' = e' # es''" "en_middleware e = en_middleware e'"
    "map en_middleware es = map en_middleware es''" by (auto simp: Cons_eq_map_conv)
  then show ?case using Cons.IH
    by (auto split: prod.split sum.split middleware_result.split)
qed simp

text \<open>A chain that has aborted or failed ignores whatever is appended to it.\<close>

lemma execute_stops:
  "execute_entries es s ctx = (s', ctx', r) \<Longrightarrow> (\<exists>err. r = Inl err) \<or> mc_aborted ctx' \<Longrightarrow>
   execute_entries (es @ es') s ctx = (s', ctx', r)"
proof (induction es arbitrary: s ctx)
  case Nil
  then show ?case by (cases es') auto
next
  case (Cons e es)
  show ?case
  proof (cases "mc_aborted ctx")
    case False
    obtain s1 c1 q where q: "mw_execute (en_middleware e) s ctx = (s1, c1, q)"
      by (cases "mw_execute (en_middleware e) s ctx")
    show ?thesis
      using Cons.IH [of s1 c1] Cons.prems False q
      by (cases q) (auto split: middleware_result.splits)
  qed (use Cons.prems in simp)
qed

lemma run_chain_execute:
  assumes "\<forall>mw s ctx. expired mw s ctx = None"
  shows "run_chain expired ms (map en_middleware es) s ctx = execute_entries es s ctx"
  using assms
  by (induction es arbitrary: s ctx)
     (auto simp: run_one_def split: prod.split sum.split middleware_result.split)

lemma run_chain_error:
  "run_chain expired ms mws s ctx = (s', ctx', Inl err) \<Longrightarrow>
   run_chain expired ms (mws @ post) s ctx = (s', ctx', Inl err)"
proof (induction mws arbitrary: s ctx)
  case (Cons mw mws)
  show ?case
  proof (cases "mc_aborted ctx")
    case False
    obtain s1 c1 q where q: "run_one expired ms mw s ctx = (s1, c1, q)"
      by (cases "run_one expired ms mw s ctx")
    show ?thesis using Cons.IH [of s1 c1] Cons.prems False q
      by (cases q) (auto split: middleware_result.splits)
  qed (use Cons.prems in simp)
qed simp

section \<open>Properties\<close>

text \<open>Whatever is registered and unregistered, in whatever order and with whatever failures, the
  chain runs exactly the live middlewares, in ascending priority and, at equal priority, in the
  order of their registration.\<close>

theorem chain_order_is_stable:
  "map en_middleware (ch_entries (fold chain_step xs (chain_new ct))) =
     sort_key mw_priority (fold (live_step ct) xs [])"
  by (rule simulates_order [OF simulates_fold])

text \<open>The timeout-guarded runner and the plain chain agree when no deadline passes; and any
  error, a timeout or one that a middleware returns, ends the run: whatever middlewares come
  after, the outcome is the same, so none of them runs.\<close>

theorem runner_agrees_and_stops_on_error:
  "((\<forall>mw s ctx. expired mw s ctx = None) \<longrightarrow>
      run_chain expired ms (map en_middleware (ch_entries ch)) s ctx = chain_execute ch s ctx) \<and>
   (run_chain expired ms mws s ctx = (s', ctx', Inl err) \<longrightarrow>
      run_chain expired ms (mws @ post) s ctx = (s', ctx', Inl err))"
  using run_chain_execute run_chain_error by (auto simp: chain_execute_def)

definition failing_mw :: "(nat, unit) middleware" where
  "failing_mw = \<lparr>mw_execute = (\<lambda>s ctx. (s, ctx, Inl (MeOther ''boom''))), mw_chain_type = CtTool,
     mw_priority = 10, mw_name = ''failing''\<rparr>"

definition counting_mw :: "(nat, unit) middleware" where
  "counting_mw = \<lparr>mw_execute = (\<lambda>s ctx. (s + 1, ctx, Inr MwContinue)), mw_chain_type = CtTool,
     mw_priority = 20, mw_name = ''counting''\<rparr>"

theorem runner_agrees_and_stops_on_error_witness:
  "run_chain (\<lambda>_ _ _. None) 5 [failing_mw, counting_mw] 0 (context_new () CtTool ()) =
     (0, context_new () CtTool (), Inl (MeOther ''boom''))"
proof -
  have "run_chain (\<lambda>_ _ _. None) 5 [failing_mw] 0 (context_new () CtTool ()) =
     (0, context_new () CtTool (), Inl (MeOther ''boom''))"
    by (simp add: run_one_def failing_mw_def context_new_def)
  then show ?thesis
    using runner_agrees_and_stops_on_error [of "\<lambda>_ _ _. None" 5 undefined 0 "context_new () CtTool ()"
        "[failing_mw]" 0 "context_new () CtTool ()" "MeOther ''boom''" "[counting_mw]"] by simp
qed

end
