(* ===== verification/Guards.thy ===== *)
theory Guards
  imports RuleStoreCorrect RiskScore MiddlewareChain PermPipelineCorrect
begin

text \<open>
  The guardrail manager and what it wires together: the configuration (\<open>config.rs\<close>), the
  compatibility evaluator \<open>PermissionModel\<close> (\<open>permission.rs\<close>), the authoritative
  evaluation of a tool request (\<open>lib.rs\<close>, \<open>permission_pipeline.rs\<close>), the mode
  manager (\<open>mode_manager.rs\<close>), the human-in-the-loop protocol (\<open>hitl.rs\<close>), and the
  two guards that run in the tool chain (\<open>middleware/tool_guard.rs\<close>,
  \<open>middleware/loop_detector.rs\<close>).

  A configuration's map of tool permissions is the list of its entries in iteration order,
  without duplicate keys.
\<close>

section \<open>Configuration and the compatibility evaluator\<close>

datatype permission_action = PaAllow | PaNotify | PaAsk | PaDeny

record guardrail_config =
  gc_default_permission :: permission_action
  gc_tool_permissions :: "(string \<times> permission_action) list"
  gc_dangerous_auto_ask :: bool
  gc_max_tool_iterations :: nat
  gc_loop_guard :: loop_guard_config
  gc_escalation_threshold :: f32
  gc_hitl_timeout_ms :: nat
  gc_plan_review_manual :: bool
  gc_policy_file :: "string option"

definition default_guardrail_config :: guardrail_config where
  "default_guardrail_config = \<lparr>gc_default_permission = PaAllow, gc_tool_permissions = [],
     gc_dangerous_auto_ask = True, gc_max_tool_iterations = 10, gc_loop_guard = default_loop_config,
     gc_escalation_threshold = default_escalation_threshold, gc_hitl_timeout_ms = 120000,
     gc_plan_review_manual = True, gc_policy_file = None\<rparr>"

datatype decision_reason = DrOverride string | DrDangerous string | DrGlobalDefault

record permission_decision =
  pd_action :: permission_action
  pd_reason :: decision_reason

definition model_evaluate :: "guardrail_config \<Rightarrow> string \<Rightarrow> bool \<Rightarrow> permission_decision" where
  "model_evaluate cfg tool is_dangerous =
     (case map_of (gc_tool_permissions cfg) tool of
        Some action \<Rightarrow> \<lparr>pd_action = action, pd_reason = DrOverride tool\<rparr>
      | None \<Rightarrow>
          if is_dangerous \<and> gc_dangerous_auto_ask cfg
          then \<lparr>pd_action = PaAsk, pd_reason = DrDangerous tool\<rparr>
          else \<lparr>pd_action = gc_default_permission cfg, pd_reason = DrGlobalDefault\<rparr>)"

section \<open>The authoritative evaluation\<close>

record 'v tool_permission_request =
  tr_tool_name :: string
  tr_input_content :: "string option"
  tr_is_dangerous :: bool
  tr_tool_result :: "'v permission_result"
  tr_mode :: "permission_mode option"
  tr_exec_policy :: "exec_eval option"

definition request_new :: "string \<Rightarrow> bool \<Rightarrow> 'v permission_result \<Rightarrow> 'v tool_permission_request" where
  "request_new tool is_dangerous tool_result = \<lparr>tr_tool_name = tool, tr_input_content = None,
     tr_is_dangerous = is_dangerous, tr_tool_result = tool_result, tr_mode = None, tr_exec_policy = None\<rparr>"

definition with_mode :: "'v tool_permission_request \<Rightarrow> permission_mode \<Rightarrow> 'v tool_permission_request" where
  "with_mode r m = r\<lparr>tr_mode := Some m\<rparr>"

fun behavior_of_action :: "permission_action \<Rightarrow> permission_behavior" where
  "behavior_of_action PaAllow = PbAllow"
| "behavior_of_action PaNotify = PbNotify"
| "behavior_of_action PaAsk = PbAsk"
| "behavior_of_action PaDeny = PbDeny"

record guardrail_manager =
  gm_config :: guardrail_config
  gm_rule_store :: rule_store

definition config_rules :: "guardrail_config \<Rightarrow> permission_rule list" where
  "config_rules cfg = map (\<lambda>(tool, action). new_rule GlobalSettings (behavior_of_action action) (target_tool tool))
     (gc_tool_permissions cfg)"

definition permission_context_of :: "guardrail_manager \<Rightarrow> permission_mode option \<Rightarrow> permission_context" where
  "permission_context_of gm m =
     (let ctx = build_context (gm_rule_store gm) m; cfg = gm_config gm
      in ctx\<lparr>cx_rules := cx_rules ctx @ config_rules cfg,
             cx_default_behavior := behavior_of_action (gc_default_permission cfg),
             cx_dangerous_auto_ask := gc_dangerous_auto_ask cfg\<rparr>)"

definition evaluate_tool_permission :: "guardrail_manager \<Rightarrow> 'v tool_permission_request \<Rightarrow> 'v permission_result" where
  "evaluate_tool_permission gm r =
     evaluate_pipeline_with_exec_policy (tr_tool_name r) (tr_input_content r) (tr_is_dangerous r)
       (tr_tool_result r) (permission_context_of gm (tr_mode r)) (tr_exec_policy r)"

definition reload_config :: "guardrail_manager \<Rightarrow> guardrail_config \<Rightarrow> guardrail_manager" where
  "reload_config gm cfg = gm\<lparr>gm_config := cfg\<rparr>"

section \<open>Modes\<close>

text \<open>The mode manager's own state is the current mode; the rule store is shared.\<close>

definition mode_manager_new :: "rule_store \<Rightarrow> permission_mode" where
  "mode_manager_new store = rs_default_mode store"

definition mode_transition :: "permission_mode \<Rightarrow> permission_mode \<Rightarrow> permission_mode \<times> (guardrail_error + unit)" where
  "mode_transition current to = (to, Inr ())"

definition mode_build_context :: "permission_mode \<Rightarrow> rule_store \<Rightarrow> permission_context" where
  "mode_build_context current store = build_context store (Some current)"

section \<open>Human in the loop\<close>

datatype hitl_response =
  HrApprove
| HrApproveAlways permission_rule_source
| HrDeny string
| HrDenyAlways permission_rule_source string

fun is_approved :: "hitl_response \<Rightarrow> bool" where
  "is_approved HrApprove = True"
| "is_approved (HrApproveAlways _) = True"
| "is_approved _ = False"

fun is_always :: "hitl_response \<Rightarrow> bool" where
  "is_always (HrApproveAlways _) = True"
| "is_always (HrDenyAlways _ _) = True"
| "is_always _ = False"

text \<open>What happens on the channels: the request cannot be sent, the deadline passes, the response
  channel is dropped, or a response arrives.\<close>

datatype hitl_event = EvHandlerGone | EvElapsed | EvDropped | EvResponse hitl_response

definition escalate_full :: "nat \<Rightarrow> hitl_event \<Rightarrow> guardrail_error + hitl_response" where
  "escalate_full timeout_ms ev = (case ev of
      EvHandlerGone \<Rightarrow> Inl (GeOther ''HITL handler disconnected'')
    | EvResponse r \<Rightarrow> Inr r
    | EvDropped \<Rightarrow> Inl (GeOther ''HITL response channel dropped'')
    | EvElapsed \<Rightarrow> Inl (GeHitlTimeout timeout_ms))"

definition escalate :: "nat \<Rightarrow> hitl_event \<Rightarrow> guardrail_error + unit" where
  "escalate timeout_ms ev =
     and_then (escalate_full timeout_ms ev) (\<lambda>response.
       if is_approved response then Inr ()
       else Inl (GeHitlDenied (case response of
              HrDeny reason \<Rightarrow> reason | HrDenyAlways _ reason \<Rightarrow> reason | _ \<Rightarrow> ''denied'')))"

section \<open>The guards in the tool chain\<close>

text \<open>
  The JSON operations the guards use, from \<open>serde_json\<close>: reading a string, boolean or number
  member of a payload (\<open>None\<close> when it is absent or of another type), inserting into an
  object (which leaves a value that is no object as it is), and building values.
\<close>

record 'v json_ops =
  js_str :: "'v \<Rightarrow> string \<Rightarrow> string option"
  js_bool :: "'v \<Rightarrow> string \<Rightarrow> bool option"
  js_f64 :: "'v \<Rightarrow> string \<Rightarrow> f64 option"
  js_insert :: "'v \<Rightarrow> string \<Rightarrow> 'v \<Rightarrow> 'v"
  js_of_string :: "string \<Rightarrow> 'v"
  js_of_bool :: "bool \<Rightarrow> 'v"
  js_of_f32 :: "f32 \<Rightarrow> 'v"
  js_risk_text :: "f32 \<Rightarrow> string"

definition or_else :: "'a option \<Rightarrow> 'a \<Rightarrow> 'a" where
  "or_else x d = (case x of None \<Rightarrow> d | Some y \<Rightarrow> y)"

definition extract_tool_info :: "'v json_ops \<Rightarrow> 'v middleware_context \<Rightarrow> (string \<times> bool \<times> string) option" where
  "extract_tool_info js ctx =
     (case js_str js (mc_payload ctx) ''tool_name'' of
        None \<Rightarrow> None
      | Some tool \<Rightarrow> Some (tool, or_else (js_bool js (mc_payload ctx) ''is_dangerous'') False,
                        or_else (js_str js (mc_payload ctx) ''category'') ''custom''))"

text \<open>The message of a denial.  The reason of the dangerous escalation, which only comes with an ask,
  is not shown in any message.\<close>

definition reason_text :: "decision_reason \<Rightarrow> string" where
  "reason_text r = (case r of
      DrOverride tool \<Rightarrow> ''per-tool override for '' @ quoted tool
    | DrDangerous tool \<Rightarrow> quoted tool @ '' is dangerous, auto-escalated to ask''
    | DrGlobalDefault \<Rightarrow> ''global default policy'')"

definition tool_name_quoted :: "string \<Rightarrow> string" where
  "tool_name_quoted tool = [CHR 0x27] @ tool @ [CHR 0x27]"

definition blocked_message :: "string \<Rightarrow> decision_reason \<Rightarrow> string" where
  "blocked_message tool r = ''[SYSTEM] Tool '' @ tool_name_quoted tool @ '' is blocked by security policy ('' @
     reason_text r @ ''). Do NOT ask the user for permission or retry this tool. '' @
     ''Use an alternative approach or skip this action.''"

definition no_hitl_message :: "string \<Rightarrow> string" where
  "no_hitl_message tool = ''[SYSTEM] Tool '' @ tool_name_quoted tool @
     '' requires permission approval (ask) but was run in a context without HITL support. '' @
     ''Do NOT ask the user for permission or retry this tool. '' @
     ''Use an alternative approach or skip this action.''"

definition insert_meta :: "'v json_ops \<Rightarrow> string \<Rightarrow> 'v \<Rightarrow> 'v middleware_context \<Rightarrow> 'v middleware_context" where
  "insert_meta js k v ctx = ctx\<lparr>mc_metadata := js_insert js (mc_metadata ctx) k v\<rparr>"

definition tool_guard_execute ::
  "'v json_ops \<Rightarrow> guardrail_config \<Rightarrow> 'v middleware_context \<Rightarrow>
     'v middleware_context \<times> (middleware_error + middleware_result)" where
  "tool_guard_execute js cfg ctx =
     (let (tool, is_dangerous, category) = or_else (extract_tool_info js ctx) (''unknown'', False, ''custom'');
          decision = model_evaluate cfg tool is_dangerous
      in case pd_action decision of
           PaDeny \<Rightarrow> (context_abort ctx (blocked_message tool (pd_reason decision)), Inr MwShortCircuit)
         | PaAsk \<Rightarrow> (context_abort ctx (no_hitl_message tool), Inr MwShortCircuit)
         | action \<Rightarrow>
             (let ctx1 = (if action = PaNotify then insert_meta js ''permission_notify'' (js_of_bool js True) ctx else ctx);
                  assessment = risk_score (gc_escalation_threshold cfg)
                    \<lparr>rf_is_dangerous = is_dangerous, rf_category = category,
                     rf_requires_network = or_else (js_bool js (mc_payload ctx) ''requires_network'') False,
                     rf_requires_fs_write = or_else (js_bool js (mc_payload ctx) ''requires_fs_write'') False,
                     rf_custom_risk = None\<rparr>;
                  ctx2 = insert_meta js ''risk_score'' (js_of_f32 js (ra_score assessment)) ctx1;
                  ctx3 = (if ra_requires_escalation assessment \<and> action \<noteq> PaAsk
                          then insert_meta js ''hitl_reason'' (js_of_string js (''risk score '' @
                                   js_risk_text js (ra_score assessment) @ '' exceeds threshold''))
                                 (insert_meta js ''hitl_required'' (js_of_bool js True) ctx2)
                          else ctx2)
              in (ctx3, Inr MwContinue)))"

text \<open>The loop detector keeps its guard behind a mutex; a panic while it is locked poisons it, so
  the state is \<open>None\<close> after a panic and every later call fails.  The call that panics is
  itself reported as the caller's panic, the outer \<open>None\<close>.\<close>

definition loop_detector_execute ::
  "'v json_ops \<Rightarrow> loop_guard option \<Rightarrow> 'v middleware_context \<Rightarrow>
     (loop_guard option \<times> 'v middleware_context \<times> (middleware_error + middleware_result)) option" where
  "loop_detector_execute js guard ctx =
     (let tool = or_else (js_str js (mc_payload ctx) ''tool_name'') ''unknown'';
          act = \<lparr>ac_key = tool, ac_args_hash = js_str js (mc_payload ctx) ''args_hash''\<rparr>;
          progress = js_f64 js (mc_payload ctx) ''progress_metric''
      in case guard of
           None \<Rightarrow> Some (None, ctx, Inl (MeOther ''LoopGuard lock poisoned: poisoned lock: another task failed inside''))
         | Some g \<Rightarrow>
             (case guard_record g act progress of
                None \<Rightarrow> None
              | Some (g', Some d) \<Rightarrow>
                  Some (Some g', insert_meta js ''loop_pattern'' (js_of_string js (pattern_display (ld_pattern d)))
                     (context_abort ctx (''Loop detected ('' @ pattern_display (ld_pattern d) @ ''): '' @ ld_details d)),
                     Inr MwShortCircuit)
              | Some (g', None) \<Rightarrow> Some (Some g', ctx, Inr MwContinue)))"

definition tool_guard_mw :: "'v json_ops \<Rightarrow> guardrail_config \<Rightarrow> ('s, 'v) middleware" where
  "tool_guard_mw js cfg = \<lparr>
     mw_execute = (\<lambda>s ctx. case tool_guard_execute js cfg ctx of (ctx', res) \<Rightarrow> (s, ctx', res)),
     mw_chain_type = CtTool, mw_priority = 10, mw_name = ''ToolGuardMiddleware''\<rparr>"

section \<open>Lookup in the configured rules\<close>

lemma find_config_rules:
  assumes "distinct (map fst perms)"
  shows "find_matching_rule (map (\<lambda>(tool, action). new_rule GlobalSettings (behavior_of_action action) (target_tool tool)) perms)
       tool content b =
     (case map_of perms tool of
        Some action \<Rightarrow> if behavior_of_action action = b
                       then Some (new_rule GlobalSettings b (target_tool tool)) else None
      | None \<Rightarrow> None)"
proof -
  let ?f = "\<lambda>(tool, action). new_rule GlobalSettings (behavior_of_action action) (target_tool tool)"
  have spec: "List.find (\<lambda>r. rl_behavior r = b \<and> tg_content_pattern (rl_target r) \<noteq> None \<and>
      target_matches (rl_target r) tool content) (map ?f perms) = None"
    by (auto simp: find_is_none new_rule_def target_tool_def)
  have tool_level: "List.find (\<lambda>r. rl_behavior r = b \<and> tg_content_pattern (rl_target r) = None \<and>
      target_matches (rl_target r) tool content) (map ?f perms) =
     (case map_of perms tool of
        Some action \<Rightarrow> if behavior_of_action action = b
                       then Some (new_rule GlobalSettings b (target_tool tool)) else None
      | None \<Rightarrow> None)"
    using assms
  proof (induction perms)
    case (Cons p perms)
    obtain t a where p: "p = (t, a)" by (cases p)
    have "map_of perms t = None" using Cons.prems p by (simp add: map_of_eq_None_iff)
    then show ?case using Cons p
      by (auto simp: new_rule_def target_tool_def target_matches_def)
  qed simp
  show ?thesis unfolding find_matching_rule_def spec tool_level by simp
qed

section \<open>Properties\<close>

text \<open>With no stored rules, in default mode, for a tool that leaves the decision to the permission
  system, the authoritative evaluation decides as the compatibility evaluator does, with one
  exception: under a global default of deny, a dangerous tool without an override is denied,
  where the compatibility evaluator would ask.\<close>

theorem compat_evaluator_agrees:
  assumes "distinct (map fst (gc_tool_permissions cfg))"
    and "tr_tool_result r = pr_passthrough" "tr_exec_policy r = None" "tr_mode r = None"
  shows "pr_behavior (evaluate_tool_permission \<lparr>gm_config = cfg, gm_rule_store = empty_store\<rparr> r) =
     (if map_of (gc_tool_permissions cfg) (tr_tool_name r) = None \<and> gc_default_permission cfg = PaDeny
      then PbDeny
      else behavior_of_action (pd_action (model_evaluate cfg (tr_tool_name r) (tr_is_dangerous r))))"
proof -
  let ?find = "find_matching_rule (config_rules cfg) (tr_tool_name r) (tr_input_content r)"
  have find: "?find b = (case map_of (gc_tool_permissions cfg) (tr_tool_name r) of
        Some action \<Rightarrow> if behavior_of_action action = b
                       then Some (new_rule GlobalSettings b (target_tool (tr_tool_name r))) else None
      | None \<Rightarrow> None)" for b
    unfolding config_rules_def by (rule find_config_rules [OF assms(1)])
  have ctx: "permission_context_of \<lparr>gm_config = cfg, gm_rule_store = empty_store\<rparr> None =
     \<lparr>cx_mode = MDefault, cx_rules = config_rules cfg, cx_additional_directories = [],
      cx_default_behavior = behavior_of_action (gc_default_permission cfg),
      cx_dangerous_auto_ask = gc_dangerous_auto_ask cfg\<rparr>"
    by (simp add: permission_context_of_def build_context_def empty_store_def default_context_def
        merged_rules_def Let_def)
  note stages = stage_exec_deny_def stage_deny_rule_def stage_default_deny_def stage_tool_deny_def
    stage_mode_def stage_exec_final_def stage_allow_rule_def stage_notify_rule_def by_rule_def
    stage_tool_allow_def stage_default_def final_stage_def denied_by_default_def allows_def
    exec_policy_stage_def
  show ?thesis
  proof (cases "map_of (gc_tool_permissions cfg) (tr_tool_name r)")
    case None
    then show ?thesis
      unfolding evaluate_tool_permission_def assms(2-4) ctx evaluate_pipeline_with_exec_policy_def Let_def
      by (cases "gc_default_permission cfg"; cases "tr_is_dangerous r \<and> gc_dangerous_auto_ask cfg")
         (simp_all add: find stages model_evaluate_def pr_passthrough_def)
  next
    case (Some action)
    then show ?thesis
      unfolding evaluate_tool_permission_def assms(2-4) ctx evaluate_pipeline_with_exec_policy_def Let_def
      by (cases action) (simp_all add: find stages model_evaluate_def pr_passthrough_def)
  qed
qed

theorem compat_evaluator_agrees_witness:
  "pr_behavior (evaluate_tool_permission
      \<lparr>gm_config = default_guardrail_config\<lparr>gc_default_permission := PaDeny\<rparr>, gm_rule_store = empty_store\<rparr>
      (request_new ''Deploy'' True (pr_passthrough :: unit permission_result))) = PbDeny \<and>
   pd_action (model_evaluate (default_guardrail_config\<lparr>gc_default_permission := PaDeny\<rparr>) ''Deploy'' True) = PaAsk"
  by (subst compat_evaluator_agrees)
     (simp_all add: default_guardrail_config_def request_new_def model_evaluate_def)

section \<open>Denied calls in the tool chain\<close>

lemma sort_key_first:
  assumes "\<forall>x \<in> set (a @ b). f g < f x"
  shows "sort_key f (a @ g # b) = g # sort_key f (a @ b)"
proof (rule properties_for_sort_key)
  show "sorted (map f (g # sort_key f (a @ b)))" using assms by (auto simp: less_imp_le)
  show "filter (\<lambda>x. f k = f x) (g # sort_key f (a @ b)) = filter (\<lambda>x. f k = f x) (a @ g # b)"
    if "k \<in> set (g # sort_key f (a @ b))" for k
  proof (cases "k = g")
    case True
    have ne: "f g \<noteq> f x" if "x \<in> set (a @ b)" for x using assms that by force
    then have "filter (\<lambda>x. f g = f x) a = []" "filter (\<lambda>x. f g = f x) b = []"
        "filter (\<lambda>x. f g = f x) (sort_key f (a @ b)) = []"
      by (simp_all add: filter_empty_conv)
    with True show ?thesis by simp
  next
    case False
    then have "k \<in> set (a @ b)" using that by simp
    from bspec [OF assms this] have "f k \<noteq> f g" by simp
    moreover have "filter (\<lambda>x. f k = f x) (sort_key f (a @ b)) = filter (\<lambda>x. f k = f x) (a @ b)"
      using sort_key_stable [of f "f k" "a @ b"] by (simp only: eq_commute [of "f k"])
    ultimately show ?thesis by simp
  qed
qed simp

lemma execute_first:
  assumes "map en_middleware es = mw # mws" "\<not> mc_aborted ctx"
    and "mw_execute mw s ctx = (s', ctx', Inr MwShortCircuit)"
  shows "execute_entries es s ctx = (s', ctx', Inr ())"
  using assms by (cases es) auto

text \<open>C7: Whatever is registered in the tool chain, as long as the tool guard is and everything else runs
  at a later priority: a call of a tool that the configuration denies (or asks for) aborts with the
  guard's message, and no other middleware runs or changes anything.\<close>

theorem denied_tool_runs_nothing:
  assumes "fold (live_step CtTool) xs [] = before @ tool_guard_mw js cfg # behind"
    and "\<forall>mw \<in> set (before @ behind). 10 < mw_priority mw"
    and "\<not> mc_aborted ctx" "js_str js (mc_payload ctx) ''tool_name'' = Some tool"
    and "pd_action (model_evaluate cfg tool (or_else (js_bool js (mc_payload ctx) ''is_dangerous'') False)) \<in> {PaDeny, PaAsk}"
  shows "\<exists>message. chain_execute (fold chain_step xs (chain_new CtTool)) s ctx =
     (s, context_abort ctx message, Inr ())"
proof -
  have order: "map en_middleware (ch_entries (fold chain_step xs (chain_new CtTool))) =
      tool_guard_mw js cfg # sort_key mw_priority (before @ behind)"
    unfolding simulates_order [OF simulates_fold] assms(1)
    by (rule sort_key_first) (use assms(2) in \<open>simp add: tool_guard_mw_def\<close>)
  obtain message where exec: "mw_execute (tool_guard_mw js cfg) s ctx = (s, context_abort ctx message, Inr MwShortCircuit)"
    using assms(4,5)
    by (auto simp: tool_guard_mw_def tool_guard_execute_def extract_tool_info_def or_else_def Let_def
          split: permission_action.splits)
  show ?thesis unfolding chain_execute_def
    by (rule exI [of _ message], rule execute_first [OF order assms(3) exec])
qed

text \<open>A payload that is just a tool name.\<close>

definition name_json :: "string json_ops" where
  "name_json = \<lparr>js_str = (\<lambda>v k. if k = ''tool_name'' then Some v else None), js_bool = (\<lambda>_ _. None),
     js_f64 = (\<lambda>_ _. None), js_insert = (\<lambda>v k x. v), js_of_string = id, js_of_bool = (\<lambda>b. []),
     js_of_f32 = (\<lambda>x. []), js_risk_text = (\<lambda>x. [])\<rparr>"

definition deny_rm :: guardrail_config where
  "deny_rm = default_guardrail_config\<lparr>gc_tool_permissions := [(''rm'', PaDeny)]\<rparr>"

definition late_mw :: "(nat, string) middleware" where
  "late_mw = \<lparr>mw_execute = (\<lambda>s ctx. (s + 1, ctx, Inr MwContinue)), mw_chain_type = CtTool,
     mw_priority = 20, mw_name = ''late''\<rparr>"

lemma name_json_simps:
  "js_str name_json v ''tool_name'' = Some v" "js_bool name_json v k = None"
  by (simp_all add: name_json_def)

lemma deny_rm_action: "pd_action (model_evaluate deny_rm ''rm'' d) = PaDeny"
  by (simp add: model_evaluate_def deny_rm_def)

theorem denied_tool_runs_nothing_witness:
  "\<exists>message. chain_execute (fold chain_step [Register late_mw, Register (tool_guard_mw name_json deny_rm)]
       (chain_new CtTool)) 0 (context_new [] CtTool ''rm'') =
     (0, context_abort (context_new [] CtTool ''rm'') message, Inr ())"
proof (rule denied_tool_runs_nothing [where before = "[late_mw]" and behind = "[]" and tool = "''rm''"])
  show "fold (live_step CtTool) [Register late_mw, Register (tool_guard_mw name_json deny_rm)] [] =
      [late_mw] @ [tool_guard_mw name_json deny_rm]"
    by (simp add: late_mw_def tool_guard_mw_def)
qed (simp_all add: late_mw_def context_new_def name_json_simps deny_rm_action)

section \<open>Answers that last for the session\<close>

lemma permission_context_sorted:
  "layered (gm_rule_store gm) \<Longrightarrow> sorted (map (precedence \<circ> rl_source) (cx_rules (permission_context_of gm m)))"
  using layered_sorted [of "gm_rule_store gm"]
  by (auto simp: permission_context_of_def build_context_def config_rules_def new_rule_def Let_def
        sorted_append layered_def merged_rules_def intro!: sorted_const [where c = 3])

lemma allow_rule_wins:
  assumes "cx_mode ctx = MDefault" "exec_policy_stage ep tool content tr = None"
    and "\<not> hard_deny ctx tool content None tr"
    and "find_matching_rule (cx_rules ctx) tool content PbAllow = Some a"
    and "\<forall>k. find_matching_rule (cx_rules ctx) tool content PbAsk = Some k \<longrightarrow> rule_is_more_specific a k"
  shows "pr_behavior (evaluate_pipeline_with_exec_policy tool content dang tr ctx ep) = PbAllow"
proof -
  have "stage_mode ctx tool tr = None" "stage_exec_final ctx tool (None :: 'a permission_result option) = None"
    using assms(1) by (simp_all add: stage_mode_def stage_exec_final_def)
  moreover have "stage_allow_rule (Some a) (find_matching_rule (cx_rules ctx) tool content PbAsk) tr =
      Some (by_rule PbAllow a tr)"
    using assms(5) by (auto simp: stage_allow_rule_def split: option.split)
  ultimately have "after_denials ctx tool content dang None tr = by_rule PbAllow a tr"
    by (simp only: after_denials_def Let_def assms(4) option.case or_return_simps)
  moreover have "evaluate_pipeline_with_exec_policy tool content dang tr ctx ep = after_denials ctx tool content dang None tr"
    using no_hard_deny assms(2,3) by metis
  ultimately show ?thesis by (simp add: by_rule_def)
qed

text \<open>"Always allow for this session" takes effect at once: after the update, in default mode, a call
  of the tool that no exec policy decides and nothing denies is allowed, dangerous or not and
  whatever the tool itself says, unless an ask rule for the call's content or an ask rule of the
  same session stands against it.\<close>

theorem session_allow_takes_effect:
  assumes "layered (gm_rule_store gm)"
    and "apply_update tm env (gm_rule_store gm) \<lparr>up_destination = SessionSource,
           up_target = target_tool (tr_tool_name r), up_behavior = PbAllow\<rparr> = (env', store', Inr ())"
    and "ctx = permission_context_of (gm\<lparr>gm_rule_store := store'\<rparr>) (tr_mode r)" "cx_mode ctx = MDefault"
    and "exec_policy_stage (tr_exec_policy r) (tr_tool_name r) (tr_input_content r) (tr_tool_result r) = None"
    and "\<not> hard_deny ctx (tr_tool_name r) (tr_input_content r) None (tr_tool_result r)"
    and "\<forall>k \<in> set (cx_rules ctx). rl_behavior k = PbAsk \<longrightarrow>
           target_matches (rl_target k) (tr_tool_name r) (tr_input_content r) \<longrightarrow>
           tg_content_pattern (rl_target k) = None \<and> rl_source k \<noteq> SessionSource"
  shows "pr_behavior (evaluate_tool_permission (gm\<lparr>gm_rule_store := store'\<rparr>) r) = PbAllow"
proof -
  let ?tool = "tr_tool_name r" let ?content = "tr_input_content r"
  let ?new = "new_rule SessionSource PbAllow (target_tool ?tool)"
  have store': "store' = (gm_rule_store gm)\<lparr>rs_session_rules := rs_session_rules (gm_rule_store gm) @ [?new]\<rparr>"
    using assms(2) by (auto simp: apply_update_def Let_def)
  have sorted: "sorted (map (precedence \<circ> rl_source) (cx_rules ctx))"
    unfolding assms(3) by (rule permission_context_sorted)
      (use layered_update [OF assms(1,2)] in simp)
  have new: "?new \<in> set (cx_rules ctx)" "rl_behavior ?new = PbAllow" "target_matches (rl_target ?new) ?tool ?content"
    by (auto simp: assms(3) store' permission_context_of_def build_context_def merged_rules_def Let_def
          new_rule_def target_tool_def target_matches_def)
  obtain a where a: "find_matching_rule (cx_rules ctx) ?tool ?content PbAllow = Some a"
    using new find_matching_rule_None_iff [of "cx_rules ctx" ?tool ?content PbAllow] by fastforce
  have best: "\<not> rule_is_more_specific ?new a" by (rule found_is_most_specific [OF sorted a new])
  have "rule_is_more_specific a k" if k: "find_matching_rule (cx_rules ctx) ?tool ?content PbAsk = Some k" for k
  proof -
    have "tg_content_pattern (rl_target k) = None" "rl_source k \<noteq> SessionSource"
      using find_matching_rule_SomeD [OF k] assms(7) by auto
    then show ?thesis using best
      by (cases "rl_source k")
         (auto simp: rule_is_more_specific_def new_rule_def target_tool_def Let_def split: if_splits)
  qed
  then show ?thesis unfolding evaluate_tool_permission_def assms(3) [symmetric]
    by (intro allow_rule_wins [OF assms(4,5,6) a]) blast
qed

definition ask_default_gm :: guardrail_manager where
  "ask_default_gm = \<lparr>gm_config = default_guardrail_config\<lparr>gc_tool_permissions := [(''Deploy'', PaAsk)]\<rparr>,
     gm_rule_store = empty_store\<rparr>"

theorem session_allow_takes_effect_witness:
  "pr_behavior (evaluate_tool_permission (ask_default_gm\<lparr>gm_rule_store :=
      empty_store\<lparr>rs_session_rules := [new_rule SessionSource PbAllow (target_tool ''Deploy'')]\<rparr>\<rparr>)
      (request_new ''Deploy'' True (pr_passthrough :: unit permission_result))) = PbAllow"
  by (rule session_allow_takes_effect [where tm = settings_toml and env = no_files and env' = no_files, OF _ _ refl])
     (auto simp: ask_default_gm_def layered_def empty_store_def apply_update_def request_new_def Let_def
       permission_context_of_def build_context_def default_context_def merged_rules_def config_rules_def
       default_guardrail_config_def exec_policy_stage_def hard_deny_def pr_passthrough_def new_rule_def target_tool_def)

end
