(* ===== verification/Taint.thy ===== *)
theory Taint
  imports Prelude
begin

text \<open>
  Taint tracking (\<open>y-guardrails/src/taint.rs\<close>): tags on data, propagated to derived data
  and removed by sanitizers, checked where data reaches a sink.  \<open>check_sink\<close> reports some
  tag of the data's hash set; which one the set's iteration gives first is the parameter
  \<open>pick\<close>.

  The provenance relation below says which tags a datum carries after a history of operations,
  without the tracker's maps.
\<close>

section \<open>The tracker\<close>

record taint_tag =
  tt_source :: string
  tt_applied_at :: string

record taint_tracker =
  tk_tags :: "string \<rightharpoonup> taint_tag set"
  tk_dangerous_sinks :: "string set"
  tk_sanitizers :: "string set"

datatype taint_check_result = TcClean | TcTaintedButSafe | TcBlocked taint_tag string

definition tracker_new :: taint_tracker where
  "tracker_new = \<lparr>tk_tags = Map.empty,
     tk_dangerous_sinks = {''filesystem_write'', ''shell_execute'', ''network_send''},
     tk_sanitizers = {}\<rparr>"

definition add_dangerous_sink :: "taint_tracker \<Rightarrow> string \<Rightarrow> taint_tracker" where
  "add_dangerous_sink tk sink = tk\<lparr>tk_dangerous_sinks := insert sink (tk_dangerous_sinks tk)\<rparr>"

definition add_sanitizer :: "taint_tracker \<Rightarrow> string \<Rightarrow> taint_tracker" where
  "add_sanitizer tk s = tk\<lparr>tk_sanitizers := insert s (tk_sanitizers tk)\<rparr>"

definition tag_set :: "taint_tracker \<Rightarrow> string \<Rightarrow> taint_tag set" where
  "tag_set tk d = (case tk_tags tk d of None \<Rightarrow> {} | Some ts \<Rightarrow> ts)"

definition taint :: "taint_tracker \<Rightarrow> string \<Rightarrow> taint_tag \<Rightarrow> taint_tracker" where
  "taint tk d tag = tk\<lparr>tk_tags := (tk_tags tk)(d \<mapsto> insert tag (tag_set tk d))\<rparr>"

definition propagate :: "taint_tracker \<Rightarrow> string \<Rightarrow> string \<Rightarrow> taint_tracker" where
  "propagate tk src derived =
     (case tk_tags tk src of
        None \<Rightarrow> tk
      | Some source_tags \<Rightarrow>
          tk\<lparr>tk_tags := (tk_tags tk)(derived \<mapsto> tag_set tk derived \<union> source_tags)\<rparr>)"

definition sanitize :: "taint_tracker \<Rightarrow> string \<Rightarrow> taint_tracker" where
  "sanitize tk d = tk\<lparr>tk_tags := (tk_tags tk)(d := None)\<rparr>"

definition is_clean :: "taint_tracker \<Rightarrow> string \<Rightarrow> bool" where
  "is_clean tk d = (case tk_tags tk d of None \<Rightarrow> True | Some ts \<Rightarrow> ts = {})"

definition check_sink :: "(taint_tag set \<Rightarrow> taint_tag) \<Rightarrow> taint_tracker \<Rightarrow> string \<Rightarrow> string \<Rightarrow> taint_check_result" where
  "check_sink pick tk d sink =
     (case tk_tags tk d of
        None \<Rightarrow> TcClean
      | Some ts \<Rightarrow>
          if ts = {} then TcClean
          else if sink \<in> tk_dangerous_sinks tk then TcBlocked (pick ts) sink
          else TcTaintedButSafe)"

definition apply_sanitizer :: "taint_tracker \<Rightarrow> string \<Rightarrow> string \<Rightarrow> taint_tracker \<times> bool" where
  "apply_sanitizer tk d s =
     (if s \<in> tk_sanitizers tk then (sanitize tk d, True) else (tk, False))"

section \<open>Histories\<close>

datatype taint_op =
  OpTaint string taint_tag
| OpPropagate string string
| OpSanitize string
| OpApplySanitizer string string
| OpSink string
| OpSanitizer string

fun taint_step :: "taint_op \<Rightarrow> taint_tracker \<Rightarrow> taint_tracker" where
  "taint_step (OpTaint d tag) tk = taint tk d tag"
| "taint_step (OpPropagate src d) tk = propagate tk src d"
| "taint_step (OpSanitize d) tk = sanitize tk d"
| "taint_step (OpApplySanitizer d s) tk = fst (apply_sanitizer tk d s)"
| "taint_step (OpSink s) tk = add_dangerous_sink tk s"
| "taint_step (OpSanitizer s) tk = add_sanitizer tk s"

definition tracker_after :: "taint_op list \<Rightarrow> taint_tracker" where
  "tracker_after ops = fold taint_step ops tracker_new"

text \<open>The sanitizers that are known after a history.\<close>

definition known_sanitizer :: "taint_op list \<Rightarrow> string \<Rightarrow> bool" where
  "known_sanitizer ops s \<longleftrightarrow> OpSanitizer s \<in> set ops"

definition known_sink :: "taint_op list \<Rightarrow> string \<Rightarrow> bool" where
  "known_sink ops s \<longleftrightarrow> s \<in> {''filesystem_write'', ''shell_execute'', ''network_send''} \<or> OpSink s \<in> set ops"

text \<open>\<open>cleans ops x d\<close>: the operation \<open>x\<close> after the history \<open>ops\<close> sanitizes \<open>d\<close>.\<close>

fun cleans :: "taint_op list \<Rightarrow> taint_op \<Rightarrow> string \<Rightarrow> bool" where
  "cleans ops (OpSanitize d') d \<longleftrightarrow> d' = d"
| "cleans ops (OpApplySanitizer d' s) d \<longleftrightarrow> d' = d \<and> known_sanitizer ops s"
| "cleans ops _ d \<longleftrightarrow> False"

text \<open>Provenance: a tag flows to a datum when it was put there, or propagated from a datum it had
  flown to, and the datum was not sanitized since.\<close>

inductive flows :: "taint_op list \<Rightarrow> taint_tag \<Rightarrow> string \<Rightarrow> bool" where
  put: "flows (ops @ [OpTaint d tag]) tag d"
| derive: "flows ops tag src \<Longrightarrow> flows (ops @ [OpPropagate src d]) tag d"
| keep: "flows ops tag d \<Longrightarrow> \<not> cleans ops x d \<Longrightarrow> flows (ops @ [x]) tag d"

inductive_simps flows_Nil: "flows [] tag d"
inductive_simps flows_snoc: "flows (ops @ [x]) tag d"

lemma tracker_after_Nil [simp]: "tracker_after [] = tracker_new"
  by (simp add: tracker_after_def)

lemma tracker_after_snoc [simp]: "tracker_after (ops @ [x]) = taint_step x (tracker_after ops)"
  by (simp add: tracker_after_def)

lemma tag_set_new [simp]: "tag_set tracker_new d = {}"
  by (simp add: tag_set_def tracker_new_def)

lemma tag_set_taint [simp]: "tag_set (taint tk d tag) e = (if e = d then insert tag (tag_set tk d) else tag_set tk e)"
  by (simp add: tag_set_def taint_def)

lemma tag_set_propagate [simp]:
  "tag_set (propagate tk src d) e = (if e = d then tag_set tk d \<union> tag_set tk src else tag_set tk e)"
  by (auto simp: tag_set_def propagate_def split: option.splits)

lemma tag_set_sanitize [simp]: "tag_set (sanitize tk d) e = (if e = d then {} else tag_set tk e)"
  by (simp add: tag_set_def sanitize_def)

lemma tag_set_apply [simp]: "tag_set (fst (apply_sanitizer tk d s)) e =
    (if e = d \<and> s \<in> tk_sanitizers tk then {} else tag_set tk e)"
  by (simp add: apply_sanitizer_def)

lemma tag_set_config [simp]: "tag_set (add_dangerous_sink tk s) e = tag_set tk e"
  "tag_set (add_sanitizer tk s) e = tag_set tk e"
  by (simp_all add: tag_set_def add_dangerous_sink_def add_sanitizer_def)

lemma step_sanitizers: "tk_sanitizers (taint_step x tk) =
    (case x of OpSanitizer s \<Rightarrow> insert s (tk_sanitizers tk) | _ \<Rightarrow> tk_sanitizers tk)"
  by (cases x) (auto simp: taint_def propagate_def sanitize_def apply_sanitizer_def add_dangerous_sink_def
      add_sanitizer_def split: option.splits)

lemma step_sinks: "tk_dangerous_sinks (taint_step x tk) =
    (case x of OpSink s \<Rightarrow> insert s (tk_dangerous_sinks tk) | _ \<Rightarrow> tk_dangerous_sinks tk)"
  by (cases x) (auto simp: taint_def propagate_def sanitize_def apply_sanitizer_def add_dangerous_sink_def
      add_sanitizer_def split: option.splits)

lemma sanitizers_after: "s \<in> tk_sanitizers (tracker_after ops) \<longleftrightarrow> known_sanitizer ops s"
  by (induction ops rule: rev_induct)
     (auto simp: known_sanitizer_def step_sanitizers tracker_new_def split: taint_op.splits)

lemma sinks_after: "s \<in> tk_dangerous_sinks (tracker_after ops) \<longleftrightarrow> known_sink ops s"
  by (induction ops rule: rev_induct)
     (auto simp: known_sink_def step_sinks tracker_new_def split: taint_op.splits)

lemma tags_are_flows: "tag \<in> tag_set (tracker_after ops) d \<longleftrightarrow> flows ops tag d"
proof (induction ops arbitrary: tag d rule: rev_induct)
  case Nil
  show ?case by (simp add: flows_Nil)
next
  case (snoc x ops)
  show ?case unfolding flows_snoc using snoc sanitizers_after
    by (cases x) auto
qed

lemma check_sink_tag_set: "check_sink pick tk d sink =
    (if tag_set tk d = {} then TcClean
     else if sink \<in> tk_dangerous_sinks tk then TcBlocked (pick (tag_set tk d)) sink else TcTaintedButSafe)"
  by (simp add: check_sink_def tag_set_def split: option.split)

section \<open>Properties\<close>

text \<open>After any history of tainting, propagation, sanitizing and registration, a datum is blocked at
  a sink exactly when some tag flows to it and the sink is dangerous by default or was
  registered; the reported tag is one that flows to it.\<close>

theorem sink_blocks_exactly_flows:
  assumes "tag_set (tracker_after ops) d \<noteq> {} \<longrightarrow>
     pick (tag_set (tracker_after ops) d) \<in> tag_set (tracker_after ops) d"
  shows "(check_sink pick (tracker_after ops) d sink = TcClean \<longleftrightarrow> (\<nexists>tag. flows ops tag d)) \<and>
     (\<forall>tag s. check_sink pick (tracker_after ops) d sink = TcBlocked tag s \<longrightarrow> s = sink \<and> flows ops tag d) \<and>
     ((\<exists>tag. check_sink pick (tracker_after ops) d sink = TcBlocked tag sink) \<longleftrightarrow>
        known_sink ops sink \<and> (\<exists>tag. flows ops tag d))"
proof -
  have e: "tag_set (tracker_after ops) d = {} \<longleftrightarrow> (\<nexists>tag. flows ops tag d)"
    using tags_are_flows by blast
  have p: "flows ops (pick (tag_set (tracker_after ops) d)) d" if "tag_set (tracker_after ops) d \<noteq> {}"
    using assms that tags_are_flows by blast
  show ?thesis
    unfolding check_sink_tag_set sinks_after using e p by auto
qed

theorem sink_blocks_exactly_flows_witness:
  "(\<exists>tag. check_sink (\<lambda>_. \<lparr>tt_source = ''web'', tt_applied_at = ''t''\<rparr>)
     (tracker_after [OpTaint ''page'' \<lparr>tt_source = ''web'', tt_applied_at = ''t''\<rparr>, OpPropagate ''page'' ''script'',
        OpSanitize ''page'']) ''script'' ''shell_execute'' = TcBlocked tag ''shell_execute'') \<and>
   flows [OpTaint ''page'' \<lparr>tt_source = ''web'', tt_applied_at = ''t''\<rparr>, OpPropagate ''page'' ''script'',
        OpSanitize ''page''] \<lparr>tt_source = ''web'', tt_applied_at = ''t''\<rparr> ''script''"
proof -
  let ?t = "\<lparr>tt_source = ''web'', tt_applied_at = ''t''\<rparr>"
  let ?ops = "[OpTaint ''page'' ?t, OpPropagate ''page'' ''script'', OpSanitize ''page'']"
  have t: "tag_set (tracker_after ?ops) ''script'' = {?t}" by (simp add: tracker_after_def)
  have "?t \<in> tag_set (tracker_after ?ops) ''script''" unfolding t by (rule singletonI)
  then have f: "flows ?ops ?t ''script''" by (rule tags_are_flows [THEN iffD1])
  moreover have "known_sink ?ops ''shell_execute''" by (simp add: known_sink_def)
  moreover have "?t \<in> tag_set (tracker_after ?ops) ''script''" unfolding t by (rule singletonI)
  ultimately show ?thesis
    using sink_blocks_exactly_flows [of ?ops "''script''" "\<lambda>_. ?t" "''shell_execute''"] by blast
qed

end
