(* ===== verification/Dag.thy ===== *)
theory Dag
  imports Prelude "HOL-Library.Product_Lexorder" "HOL-Library.List_Lexorder" "HOL-Library.Char_ord"
begin

text \<open>
  The task graph of the workflow orchestrator (\<open>y-agent/src/orchestrator/dag.rs\<close>) with
  the failure configuration of its nodes (\<open>failure.rs\<close>): adding tasks, validation, the
  tasks that are ready, and the topological order by Kahn's algorithm.

  The order in which a hash map or hash set yields its elements is the parameter
  \<open>iter\<close>: some list without duplicates of the elements of a finite set.  JSON values
  in task parameters are the type parameter \<open>'v\<close>.
\<close>

section \<open>Failure configuration\<close>

datatype failure_strategy =
  FsFailFast | FsContinueOnError | FsRetry | FsRollback | FsIgnore | FsCompensation string

datatype backoff_strategy = BsFixed | BsLinear | BsExponential

record retry_config =
  rc_max_attempts :: nat
  rc_delay_ms :: nat
  rc_backoff :: backoff_strategy

definition default_retry_config :: retry_config where
  "default_retry_config = \<lparr>rc_max_attempts = 3, rc_delay_ms = 500, rc_backoff = BsExponential\<rparr>"

definition u64_max :: nat where "u64_max = 2 ^ 64 - 1"

text \<open>\<open>u64::saturating_mul\<close>, and \<open>2u64.saturating_pow\<close>.\<close>

definition saturating_mul :: "nat \<Rightarrow> nat \<Rightarrow> nat" where
  "saturating_mul a b = min (a * b) u64_max"

definition saturating_pow2 :: "nat \<Rightarrow> nat" where
  "saturating_pow2 n = (if n < 64 then 2 ^ n else u64_max)"

definition delay_for_attempt :: "retry_config \<Rightarrow> nat \<Rightarrow> nat" where
  "delay_for_attempt c attempt = (case rc_backoff c of
      BsFixed \<Rightarrow> rc_delay_ms c
    | BsLinear \<Rightarrow> saturating_mul (rc_delay_ms c) attempt
    | BsExponential \<Rightarrow> saturating_mul (rc_delay_ms c) (saturating_pow2 (attempt - 1)))"

section \<open>Tasks\<close>

datatype task_priority = TpCritical | TpHigh | TpNormal | TpLow | TpBackground

fun priority_rank :: "task_priority \<Rightarrow> nat" where
  "priority_rank TpCritical = 0"
| "priority_rank TpHigh = 1"
| "priority_rank TpNormal = 2"
| "priority_rank TpLow = 3"
| "priority_rank TpBackground = 4"

datatype 'v task_type =
  TtLlmCall "string option" "string option"
| TtToolExecution string 'v
| TtSubAgent string
| TtSubWorkflow string
| TtScript string "string list"
| TtHumanApproval
| TtNoop

text \<open>The semantic role of a node (\<open>artifact.rs\<close>).\<close>

datatype node_kind =
  NkUnspecified | NkExplore | NkImplement | NkVerify | NkFix | NkSynthesize | NkCritique

record 'v task_node =
  tn_id :: string
  tn_name :: string
  tn_priority :: task_priority
  tn_dependencies :: "string list"
  tn_task_type :: "'v task_type"
  tn_node_kind :: node_kind
  tn_timeout_ms :: "nat option"
  tn_retry :: "retry_config option"
  tn_failure_strategy :: failure_strategy

section \<open>The graph\<close>

record 'v task_dag =
  td_nodes :: "string \<rightharpoonup> 'v task_node"
  td_dependents :: "string \<rightharpoonup> string set"

datatype dag_error =
  DeCycleDetected | DeMissingDependency string string | DeDuplicateTask string

definition dag_new :: "'v task_dag" where
  "dag_new = \<lparr>td_nodes = Map.empty, td_dependents = Map.empty\<rparr>"

definition dependents_of :: "(string \<rightharpoonup> string set) \<Rightarrow> string \<Rightarrow> string set" where
  "dependents_of m d = (case m d of None \<Rightarrow> {} | Some s \<Rightarrow> s)"

definition add_dependent :: "string \<Rightarrow> string \<Rightarrow> (string \<rightharpoonup> string set) \<Rightarrow> (string \<rightharpoonup> string set)" where
  "add_dependent i dep m = m(dep \<mapsto> insert i (dependents_of m dep))"

definition dag_add_task :: "'v task_dag \<Rightarrow> 'v task_node \<Rightarrow> dag_error + 'v task_dag" where
  "dag_add_task dag node =
     (if td_nodes dag (tn_id node) \<noteq> None then Inl (DeDuplicateTask (tn_id node))
      else Inr \<lparr>td_nodes = (td_nodes dag)(tn_id node \<mapsto> node),
                td_dependents = fold (add_dependent (tn_id node)) (tn_dependencies node) (td_dependents dag)\<rparr>)"

type_synonym iteration = "string set \<Rightarrow> string list"

definition deps :: "'v task_dag \<Rightarrow> string \<Rightarrow> string list" where
  "deps dag i = (case td_nodes dag i of None \<Rightarrow> [] | Some n \<Rightarrow> tn_dependencies n)"

text \<open>The first missing dependency, in the order of the iteration.\<close>

definition missing_dependency :: "iteration \<Rightarrow> 'v task_dag \<Rightarrow> (string \<times> string) option" where
  "missing_dependency iter dag =
     List.find (\<lambda>(t, d). td_nodes dag d = None)
       (concat (map (\<lambda>i. map (\<lambda>d. (i, d)) (deps dag i)) (iter (dom (td_nodes dag)))))"

definition in_degrees :: "'v task_dag \<Rightarrow> (string \<rightharpoonup> nat)" where
  "in_degrees dag = (\<lambda>i. map_option (\<lambda>n. length (tn_dependencies n)) (td_nodes dag i))"

text \<open>Decrementing the degree of each dependent, queueing those that reach zero.\<close>

fun relax :: "string list \<Rightarrow> (string \<rightharpoonup> nat) \<times> string list \<Rightarrow> (string \<rightharpoonup> nat) \<times> string list" where
  "relax [] (deg, q) = (deg, q)"
| "relax (d # ds) (deg, q) =
     (case deg d of
        None \<Rightarrow> relax ds (deg, q)
      | Some k \<Rightarrow> relax ds (deg(d \<mapsto> k - 1), if k - 1 = 0 then q @ [d] else q))"

text \<open>\<open>while let Some(id) = queue.pop_front()\<close>: \<open>None\<close> would be a loop that never ends.\<close>

partial_function (option) kahn_loop ::
  "iteration \<Rightarrow> 'v task_dag \<Rightarrow> (string \<rightharpoonup> nat) \<Rightarrow> string list \<Rightarrow> string list \<Rightarrow> string list option" where
  "kahn_loop iter dag deg queue result =
     (case queue of
        [] \<Rightarrow> Some result
      | i # queue' \<Rightarrow>
          (case relax (case td_dependents dag i of None \<Rightarrow> [] | Some s \<Rightarrow> iter s) (deg, queue') of
             (deg', queue'') \<Rightarrow> kahn_loop iter dag deg' queue'' (result @ [i])))"

definition topological_order :: "iteration \<Rightarrow> 'v task_dag \<Rightarrow> (dag_error + string list) option" where
  "topological_order iter dag =
     map_option (\<lambda>result.
         if length result \<noteq> card (dom (td_nodes dag)) then Inl DeCycleDetected else Inr result)
       (kahn_loop iter dag (in_degrees dag)
          (filter (\<lambda>i. in_degrees dag i = Some 0) (iter (dom (td_nodes dag)))) [])"

definition dag_validate :: "iteration \<Rightarrow> 'v task_dag \<Rightarrow> (dag_error + unit) option" where
  "dag_validate iter dag =
     (case missing_dependency iter dag of
        Some (t, d) \<Rightarrow> Some (Inl (DeMissingDependency t d))
      | None \<Rightarrow> map_option (\<lambda>r. and_then r (\<lambda>_. Inr ())) (topological_order iter dag))"

definition ready_tasks :: "iteration \<Rightarrow> 'v task_dag \<Rightarrow> string set \<Rightarrow> 'v task_node list" where
  "ready_tasks iter dag completed =
     sort_key (\<lambda>n. (priority_rank (tn_priority n), tn_id n))
       (filter (\<lambda>n. tn_id n \<notin> completed \<and> set (tn_dependencies n) \<subseteq> completed)
          (map (\<lambda>i. the (td_nodes dag i)) (iter (dom (td_nodes dag)))))"

section \<open>Graphs that are built by adding tasks\<close>

definition good_iter :: "iteration \<Rightarrow> bool" where
  "good_iter iter \<longleftrightarrow> (\<forall>A. finite A \<longrightarrow> set (iter A) = A \<and> distinct (iter A))"

lemma good_iter_sorted: "good_iter sorted_list_of_set"
  by (simp add: good_iter_def)

definition dag_wf :: "'v task_dag \<Rightarrow> bool" where
  "dag_wf dag \<longleftrightarrow> finite (dom (td_nodes dag)) \<and>
     (\<forall>i n. td_nodes dag i = Some n \<longrightarrow> tn_id n = i) \<and>
     (\<forall>d. dependents_of (td_dependents dag) d = {i. d \<in> set (deps dag i)})"

definition add_step :: "'v task_node \<Rightarrow> 'v task_dag \<Rightarrow> 'v task_dag" where
  "add_step n dag = (case dag_add_task dag n of Inl _ \<Rightarrow> dag | Inr dag' \<Rightarrow> dag')"

definition build :: "'v task_node list \<Rightarrow> 'v task_dag" where
  "build ns = fold add_step ns dag_new"

lemma dependents_fold: "dependents_of (fold (add_dependent i) ds m) d =
    (if d \<in> set ds then insert i (dependents_of m d) else dependents_of m d)"
  by (induction ds arbitrary: m) (auto simp: add_dependent_def dependents_of_def)

lemma dag_wf_new: "dag_wf dag_new"
  by (simp add: dag_wf_def dag_new_def dependents_of_def deps_def)

lemma dag_wf_add: "dag_wf dag \<Longrightarrow> dag_wf (add_step n dag)"
proof (cases "td_nodes dag (tn_id n)")
  case None
  assume wf: "dag_wf dag"
  let ?dag = "\<lparr>td_nodes = (td_nodes dag)(tn_id n \<mapsto> n),
     td_dependents = fold (add_dependent (tn_id n)) (tn_dependencies n) (td_dependents dag)\<rparr>"
  have d: "deps ?dag i = (if i = tn_id n then tn_dependencies n else deps dag i)" for i
    by (simp add: deps_def)
  have "deps dag (tn_id n) = []" using None by (simp add: deps_def)
  then have "dependents_of (td_dependents ?dag) e = {i. e \<in> set (deps ?dag i)}" for e
    using wf unfolding d by (auto simp: dependents_fold dag_wf_def)
  then have "dag_wf ?dag" using wf by (auto simp: dag_wf_def)
  then show ?thesis using None by (simp add: add_step_def dag_add_task_def)
qed (simp add: add_step_def dag_add_task_def)

interpretation dag_machine: machine "\<lambda>n dag. Some (add_step n dag)" "\<lambda>_. True" dag_wf
  by unfold_locales (auto simp: dag_wf_add)

lemma run_build: "run_steps (\<lambda>n dag. Some (add_step n dag)) ns dag = Some (fold add_step ns dag)"
  by (induction ns arbitrary: dag) auto

lemma dag_wf_build: "dag_wf (build ns)"
  unfolding build_def by (rule dag_machine.run_inv [OF dag_wf_new _ run_build]) simp

section \<open>The loop\<close>

lemma relax_spec:
  "distinct l \<Longrightarrow> set l \<subseteq> dom deg \<Longrightarrow>
   relax l (deg, q) = ((\<lambda>n. if n \<in> set l then Some (the (deg n) - 1) else deg n),
     q @ filter (\<lambda>n. the (deg n) - 1 = 0) l)"
proof (induction l arbitrary: deg q)
  case (Cons d l)
  obtain k where k: "deg d = Some k" using Cons.prems by auto
  have f: "filter (\<lambda>n. the ((deg(d \<mapsto> k - 1)) n) - 1 = 0) l = filter (\<lambda>n. the (deg n) - 1 = 0) l"
    using Cons.prems by (intro filter_cong) auto
  have "relax (d # l) (deg, q) = relax l (deg(d \<mapsto> k - 1), if k - 1 = 0 then q @ [d] else q)"
    by (simp add: k)
  also have "\<dots> = ((\<lambda>n. if n \<in> set l then Some (the ((deg(d \<mapsto> k - 1)) n) - 1) else (deg(d \<mapsto> k - 1)) n),
      (if k - 1 = 0 then q @ [d] else q) @ filter (\<lambda>n. the ((deg(d \<mapsto> k - 1)) n) - 1 = 0) l)"
    using Cons.prems by (intro Cons.IH) auto
  also have "\<dots> = ((\<lambda>n. if n \<in> set (d # l) then Some (the (deg n) - 1) else deg n),
      q @ filter (\<lambda>n. the (deg n) - 1 = 0) (d # l))"
    unfolding f using Cons.prems k by (auto simp: fun_eq_iff)
  finally show ?case .
qed simp

text \<open>The number of entries of a node's dependency list that are not yet worked off: an entry that
  repeats an earlier one never is.\<close>

definition open_deps :: "'v task_dag \<Rightarrow> string list \<Rightarrow> string \<Rightarrow> nat" where
  "open_deps dag res n = length (deps dag n) - card (set (deps dag n) \<inter> set res)"

definition in_order :: "'v task_dag \<Rightarrow> string list \<Rightarrow> bool" where
  "in_order dag xs \<longleftrightarrow> (\<forall>i < length xs. set (deps dag (xs ! i)) \<subseteq> set (take i xs))"

definition kahn_inv :: "'v task_dag \<Rightarrow> (string \<rightharpoonup> nat) \<Rightarrow> string list \<Rightarrow> string list \<Rightarrow> bool" where
  "kahn_inv dag deg q res \<longleftrightarrow>
     distinct (res @ q) \<and>
     (\<forall>n. n \<in> set (res @ q) \<longleftrightarrow> n \<in> dom (td_nodes dag) \<and> open_deps dag res n = 0) \<and>
     (\<forall>n. deg n = (if n \<in> dom (td_nodes dag) then Some (open_deps dag res n) else None)) \<and>
     in_order dag res"

lemma card_deps_le: "card (set (deps dag n) \<inter> A) \<le> length (deps dag n)"
  by (meson List.finite_set card_length card_mono inf_le1 le_trans)

lemma open_deps_0: "open_deps dag res n = 0 \<longleftrightarrow> distinct (deps dag n) \<and> set (deps dag n) \<subseteq> set res"
proof
  assume "open_deps dag res n = 0"
  then have c: "length (deps dag n) = card (set (deps dag n) \<inter> set res)"
    using card_deps_le [of dag n "set res"] by (simp add: open_deps_def)
  have "card (set (deps dag n) \<inter> set res) \<le> card (set (deps dag n))" by (simp add: card_mono)
  with c have "card (set (deps dag n)) = length (deps dag n)"
    using card_length [of "deps dag n"] by linarith
  moreover from this c have "set (deps dag n) \<inter> set res = set (deps dag n)"
    by (intro card_subset_eq) auto
  ultimately show "distinct (deps dag n) \<and> set (deps dag n) \<subseteq> set res"
    by (auto simp: card_distinct)
next
  assume "distinct (deps dag n) \<and> set (deps dag n) \<subseteq> set res"
  then show "open_deps dag res n = 0"
    by (simp add: open_deps_def Int_absorb2 distinct_card)
qed

lemma in_order_snoc: "in_order dag (xs @ [n]) \<longleftrightarrow> in_order dag xs \<and> set (deps dag n) \<subseteq> set xs"
  by (auto simp: in_order_def nth_append less_Suc_eq)

lemma open_deps_snoc:
  assumes "i \<notin> set res"
  shows "open_deps dag (res @ [i]) n =
     (if i \<in> set (deps dag n) then open_deps dag res n - 1 else open_deps dag res n)"
    and "i \<in> set (deps dag n) \<Longrightarrow> 0 < open_deps dag res n"
proof -
  show "open_deps dag (res @ [i]) n =
     (if i \<in> set (deps dag n) then open_deps dag res n - 1 else open_deps dag res n)"
    using assms by (simp add: open_deps_def Int_insert_right)
  show "0 < open_deps dag res n" if "i \<in> set (deps dag n)"
    using open_deps_0 [of dag res n] assms that by fastforce
qed

lemma deps_None: "n \<notin> dom (td_nodes dag) \<Longrightarrow> deps dag n = []"
  by (auto simp: deps_def split: option.split)

text \<open>One round of the loop keeps the invariant.\<close>

lemma kahn_step:
  assumes wf: "dag_wf dag" and iter: "good_iter iter" and inv: "kahn_inv dag deg (i # q) res"
    and step: "relax (case td_dependents dag i of None \<Rightarrow> [] | Some s \<Rightarrow> iter s) (deg, q) = (deg', q')"
  shows "kahn_inv dag deg' q' (res @ [i])"
proof -
  let ?N = "dom (td_nodes dag)" let ?S = "{n. i \<in> set (deps dag n)}"
  let ?l = "case td_dependents dag i of None \<Rightarrow> [] | Some s \<Rightarrow> iter s"
  have SN: "?S \<subseteq> ?N" using deps_None [of _ dag] by fastforce
  then have "finite ?S" using wf finite_subset by (auto simp: dag_wf_def)
  moreover have dep: "dependents_of (td_dependents dag) i = ?S" using wf by (simp add: dag_wf_def)
  ultimately have l: "set ?l = ?S" "distinct ?l"
    using iter by (cases "td_dependents dag i"; simp add: good_iter_def dependents_of_def)+
  have i: "i \<in> ?N" "i \<notin> set res" "i \<notin> set q" "open_deps dag res i = 0"
    using inv by (auto simp: kahn_inv_def)
  have degs: "deg n = (if n \<in> ?N then Some (open_deps dag res n) else None)" for n
    using inv by (simp add: kahn_inv_def)
  then have "set ?l \<subseteq> dom deg" using l(1) SN by auto
  note relax = relax_spec [OF l(2) this, of q]
  note opn = open_deps_snoc [OF i(2), of dag]
  have deg': "deg' n = (if n \<in> ?N then Some (open_deps dag (res @ [i]) n) else None)" for n
  proof -
    have "deg' n = (if n \<in> ?S then Some (the (deg n) - 1) else deg n)"
      using step unfolding relax l(1) by auto
    then show ?thesis using SN unfolding degs opn(1) by (cases "n \<in> ?S") auto
  qed
  let ?new = "filter (\<lambda>n. the (deg n) - 1 = 0) ?l"
  have q': "q' = q @ ?new" using step relax by simp
  have new: "n \<in> set ?new \<longleftrightarrow> i \<in> set (deps dag n) \<and> open_deps dag (res @ [i]) n = 0" for n
    using l(1) SN degs opn(1) [of n] by auto
  have "n \<notin> set (res @ i # q)" if "i \<in> set (deps dag n)" for n
    using inv opn(2) [OF that] by (auto simp: kahn_inv_def)
  then have dist: "distinct ((res @ [i]) @ q')"
    using inv l(2) new by (auto simp: kahn_inv_def q')
  have "n \<in> set ((res @ [i]) @ q') \<longleftrightarrow> n \<in> ?N \<and> open_deps dag (res @ [i]) n = 0" for n
  proof -
    have old: "n \<in> set (res @ i # q) \<longleftrightarrow> n \<in> ?N \<and> open_deps dag res n = 0"
      using inv by (simp add: kahn_inv_def)
    have "n \<in> ?N" if "i \<in> set (deps dag n)" using that SN by auto
    then show ?thesis using old new [of n] opn [of n] by (auto simp: q')
  qed
  moreover have "in_order dag (res @ [i])"
    using inv i(4) open_deps_0 [of dag res i] by (simp add: kahn_inv_def in_order_snoc)
  ultimately show ?thesis using dist deg' by (simp add: kahn_inv_def)
qed

lemma kahn_loop_spec:
  assumes "dag_wf dag" "good_iter iter"
  shows "kahn_inv dag deg q res \<Longrightarrow>
     \<exists>r deg'. kahn_loop iter dag deg q res = Some r \<and> kahn_inv dag deg' [] r"
proof (induction "card (dom (td_nodes dag)) - length res" arbitrary: deg q res rule: less_induct)
  case less
  show ?case
  proof (cases q)
    case Nil
    then show ?thesis using less.prems by (subst kahn_loop.simps) auto
  next
    case (Cons i q0)
    obtain deg' q' where step:
      "relax (case td_dependents dag i of None \<Rightarrow> [] | Some s \<Rightarrow> iter s) (deg, q0) = (deg', q')"
      by (cases "relax (case td_dependents dag i of None \<Rightarrow> [] | Some s \<Rightarrow> iter s) (deg, q0)")
    have inv: "kahn_inv dag deg' q' (res @ [i])"
      using kahn_step [OF assms _ step] less.prems Cons by simp
    have "distinct (res @ [i])" "set (res @ [i]) \<subseteq> dom (td_nodes dag)"
      using inv by (auto simp: kahn_inv_def)
    then have "length (res @ [i]) \<le> card (dom (td_nodes dag))"
      using assms(1) by (metis card_mono dag_wf_def distinct_card)
    then have "card (dom (td_nodes dag)) - length (res @ [i]) < card (dom (td_nodes dag)) - length res"
      by simp
    from less.hyps [OF this inv] show ?thesis
      using step by (subst kahn_loop.simps) (simp add: Cons)
  qed
qed

lemma kahn_start:
  assumes "dag_wf dag" "good_iter iter"
  shows "kahn_inv dag (in_degrees dag)
     (filter (\<lambda>i. in_degrees dag i = Some 0) (iter (dom (td_nodes dag)))) []"
  using assms
  by (auto simp: kahn_inv_def dag_wf_def good_iter_def in_degrees_def open_deps_def in_order_def deps_def
      split: option.splits)

text \<open>What is left when the queue runs empty: every node that is not in the result repeats a
  dependency or waits for another node that is left.\<close>

lemma topological_order_eq:
  assumes "dag_wf dag" "good_iter iter"
  shows "\<exists>r. kahn_loop iter dag (in_degrees dag)
       (filter (\<lambda>i. in_degrees dag i = Some 0) (iter (dom (td_nodes dag)))) [] = Some r \<and>
     distinct r \<and> in_order dag r \<and>
     (\<forall>n. n \<in> set r \<longleftrightarrow> n \<in> dom (td_nodes dag) \<and> distinct (deps dag n) \<and> set (deps dag n) \<subseteq> set r) \<and>
     (length r = card (dom (td_nodes dag)) \<longleftrightarrow> set r = dom (td_nodes dag))"
proof -
  obtain r deg' where r: "kahn_loop iter dag (in_degrees dag)
       (filter (\<lambda>i. in_degrees dag i = Some 0) (iter (dom (td_nodes dag)))) [] = Some r"
    and inv: "kahn_inv dag deg' [] r"
    using kahn_loop_spec [OF assms kahn_start [OF assms]] by blast
  then have d: "distinct r" "set r \<subseteq> dom (td_nodes dag)" by (auto simp: kahn_inv_def)
  have "length r = card (dom (td_nodes dag)) \<longleftrightarrow> set r = dom (td_nodes dag)"
    using d assms(1) by (metis card_subset_eq dag_wf_def distinct_card)
  then show ?thesis using r inv d(1) by (simp add: kahn_inv_def open_deps_0)
qed

section \<open>Validation\<close>

definition edges :: "'v task_dag \<Rightarrow> (string \<times> string) set" where
  "edges dag = {(d, n). d \<in> set (deps dag n)}"

lemma in_order_acyclic:
  assumes order: "in_order dag r" and dist: "distinct r" and all: "\<forall>n. deps dag n \<noteq> [] \<longrightarrow> n \<in> set r"
  shows "acyclic (edges dag)"
proof -
  let ?pos = "\<lambda>n. length (takeWhile (\<lambda>x. x \<noteq> n) r)"
  have "(d, n) \<in> measure ?pos" if "(d, n) \<in> edges dag" for d n
  proof -
    have dn: "d \<in> set (deps dag n)" using that by (simp add: edges_def)
    then have "n \<in> set r" using all by (metis empty_iff empty_set)
    then obtain ys zs where r: "r = ys @ n # zs" "n \<notin> set ys" by (meson split_list_first)
    have "set (deps dag n) \<subseteq> set ys"
      using order r by (auto simp: in_order_def dest!: spec [of _ "length ys"])
    then obtain us vs where ys: "ys = us @ d # vs" "d \<notin> set us" using dn by (meson split_list_first subsetD)
    have "?pos n = length ys" unfolding r(1) using r(2) by (rule takeWhile_first [THEN arg_cong])
    moreover have "r = us @ d # (vs @ n # zs)" using r(1) ys(1) by simp
    then have "?pos d = length us" using takeWhile_first [OF ys(2), of "vs @ n # zs"] by simp
    ultimately show ?thesis using ys by simp
  qed
  then have "edges dag \<subseteq> measure ?pos" by auto
  then show ?thesis by (meson wf_measure wf_subset wf_acyclic)
qed

lemma acyclic_all_ordered:
  assumes "finite N" "acyclic (edges dag)" "\<forall>n \<in> N. set (deps dag n) \<subseteq> N"
    and R: "R \<subseteq> N" "\<forall>n \<in> N. set (deps dag n) \<subseteq> R \<longrightarrow> n \<in> R"
  shows "R = N"
proof (rule ccontr)
  assume "R \<noteq> N"
  then have ne: "N - R \<noteq> {}" using R(1) by auto
  let ?E = "edges dag \<inter> N \<times> N"
  have "finite ?E" using assms(1) by simp
  moreover have "acyclic ?E" using assms(2) by (meson acyclic_subset inf_le1)
  ultimately have "wf ?E" by (rule finite_acyclic_wf)
  then obtain n where n: "n \<in> N - R" "\<forall>d. (d, n) \<in> ?E \<longrightarrow> d \<notin> N - R"
    using ne by (metis wf_eq_minimal ex_in_conv)
  then have "set (deps dag n) \<subseteq> R" using assms(3) by (auto simp: edges_def)
  then show False using n(1) R(2) by auto
qed

lemma missing_dependency_None:
  assumes "dag_wf dag" "good_iter iter"
  shows "missing_dependency iter dag = None \<longleftrightarrow> (\<forall>n. set (deps dag n) \<subseteq> dom (td_nodes dag))"
proof -
  have "set (iter (dom (td_nodes dag))) = dom (td_nodes dag)" using assms by (simp add: good_iter_def dag_wf_def)
  then show ?thesis using deps_None [of _ dag]
    by (auto simp: missing_dependency_def find_is_none) (metis domIff empty_iff empty_set)+
qed

text \<open>When a well-formed graph validates.\<close>

lemma dag_validate_spec:
  assumes wf: "dag_wf dag" and iter: "good_iter iter"
  shows "dag_validate iter dag = Some (Inr ()) \<longleftrightarrow>
     (\<forall>n. set (deps dag n) \<subseteq> dom (td_nodes dag)) \<and>
     (\<forall>n. distinct (deps dag n)) \<and> acyclic (edges dag)"
proof -
  let ?N = "dom (td_nodes dag)"
  obtain r where r: "kahn_loop iter dag (in_degrees dag)
       (filter (\<lambda>i. in_degrees dag i = Some 0) (iter ?N)) [] = Some r"
    and dist: "distinct r" and order: "in_order dag r"
    and mem: "\<forall>n. n \<in> set r \<longleftrightarrow> n \<in> ?N \<and> distinct (deps dag n) \<and> set (deps dag n) \<subseteq> set r"
    and len: "length r = card ?N \<longleftrightarrow> set r = ?N"
    using topological_order_eq [OF wf iter] by blast
  have none: "n \<notin> ?N \<Longrightarrow> deps dag n = []" for n by (rule deps_None)
  have "dag_validate iter dag = Some (Inr ()) \<longleftrightarrow> missing_dependency iter dag = None \<and> set r = ?N"
    by (auto simp: dag_validate_def topological_order_def r len split: option.split)
  also have "\<dots> \<longleftrightarrow> (\<forall>n. set (deps dag n) \<subseteq> ?N) \<and> set r = ?N"
    using missing_dependency_None [OF wf iter] by blast
  also have "\<dots> \<longleftrightarrow> (\<forall>n. set (deps dag n) \<subseteq> ?N) \<and> (\<forall>n. distinct (deps dag n)) \<and> acyclic (edges dag)"
  proof (intro conj_cong refl iffI conjI)
    assume s: "set r = ?N"
    show "\<forall>n. distinct (deps dag n)"
    proof
      fix n
      show "distinct (deps dag n)" using mem s none [of n] by (cases "n \<in> ?N") auto
    qed
    show "acyclic (edges dag)"
      by (rule in_order_acyclic [OF order dist]) (use s none in blast)
  next
    assume closed: "\<forall>n. set (deps dag n) \<subseteq> ?N"
      and ok: "(\<forall>n. distinct (deps dag n)) \<and> acyclic (edges dag)"
    show "set r = ?N"
    proof (rule acyclic_all_ordered)
      show "finite ?N" using wf by (simp add: dag_wf_def)
      show "\<forall>n \<in> ?N. set (deps dag n) \<subseteq> set r \<longrightarrow> n \<in> set r" using mem ok by blast
      show "set r \<subseteq> ?N" using mem by blast
    qed (use closed ok in auto)
  qed
  finally show ?thesis .
qed

section \<open>Properties\<close>

text \<open>The topological sort always ends, and when it gives an order, the order lists every task
  once, after all its dependencies, whatever order the hash maps iterate in.\<close>

theorem topological_order_correct:
  assumes "good_iter iter"
  shows "\<exists>res. topological_order iter (build ns) = Some res \<and>
     (\<forall>r. res = Inr r \<longrightarrow> distinct r \<and> set r = dom (td_nodes (build ns)) \<and>
        (\<forall>i < length r. set (deps (build ns) (r ! i)) \<subseteq> set (take i r)))"
  using topological_order_eq [OF dag_wf_build assms, of ns]
  by (auto simp: topological_order_def in_order_def)

definition demo_task :: "string \<Rightarrow> string list \<Rightarrow> 'v task_node" where
  "demo_task i ds = \<lparr>tn_id = i, tn_name = i, tn_priority = TpNormal, tn_dependencies = ds,
     tn_task_type = TtNoop, tn_node_kind = NkUnspecified, tn_timeout_ms = None, tn_retry = None,
     tn_failure_strategy = FsFailFast\<rparr>"

lemma deps_two: "deps (build [demo_task ''a'' [], demo_task ''b'' ds]) n = (if n = ''b'' then ds else [])"
  by (simp add: build_def add_step_def dag_add_task_def dag_new_def demo_task_def deps_def)

lemma nodes_two: "dom (td_nodes (build [demo_task ''a'' [], demo_task ''b'' ds])) = {''a'', ''b''}"
  by (auto simp add: build_def add_step_def dag_add_task_def dag_new_def demo_task_def)

theorem topological_order_correct_witness:
  "\<exists>res. topological_order sorted_list_of_set (build [demo_task ''a'' [], demo_task ''b'' [''a''] :: unit task_node]) = Some res \<and>
     (\<forall>r. res = Inr r \<longrightarrow> distinct r \<and> set r = {''a'', ''b''} \<and> (\<forall>i < length r. r ! i = ''b'' \<longrightarrow> ''a'' \<in> set (take i r)))"
  using topological_order_correct [OF good_iter_sorted, of "[demo_task ''a'' [], demo_task ''b'' [''a''] :: unit task_node]"]
  by (auto simp: deps_two nodes_two subset_iff)

lemma acyclic_two:
  assumes "set ds \<subseteq> {''a''}"
  shows "acyclic (edges (build [demo_task ''a'' [], demo_task ''b'' ds]))"
  by (rule in_order_acyclic [of _ "[''a'', ''b'']"]) (use assms in \<open>auto simp: in_order_def deps_two less_Suc_eq\<close>)

text \<open>C10: A graph built by adding tasks validates exactly when every dependency is a task of it, no
  task names a dependency twice, and the dependencies have no cycle.  A repeated dependency is
  reported as a cycle although there is none.\<close>

theorem dag_validate_iff:
  assumes "good_iter iter"
  shows "dag_validate iter (build ns) = Some (Inr ()) \<longleftrightarrow>
     (\<forall>n. set (deps (build ns) n) \<subseteq> dom (td_nodes (build ns))) \<and>
     (\<forall>n. distinct (deps (build ns) n)) \<and> acyclic (edges (build ns))"
  by (rule dag_validate_spec [OF dag_wf_build assms])

theorem dag_validate_iff_witness:
  "dag_validate sorted_list_of_set (build [demo_task ''a'' [], demo_task ''b'' [''a''] :: unit task_node]) = Some (Inr ()) \<and>
   dag_validate sorted_list_of_set (build [demo_task ''a'' [], demo_task ''b'' [''a'', ''a''] :: unit task_node]) \<noteq> Some (Inr ()) \<and>
   acyclic (edges (build [demo_task ''a'' [], demo_task ''b'' [''a'', ''a''] :: unit task_node]))"
  unfolding dag_validate_iff [OF good_iter_sorted] by (auto simp: deps_two nodes_two acyclic_two)

lemma two_valid: "dag_validate sorted_list_of_set (build [demo_task ''a'' [], demo_task ''b'' [''a'']]) = Some (Inr ())"
  unfolding dag_validate_spec [OF dag_wf_build good_iter_sorted] by (auto simp: deps_two nodes_two acyclic_two)

end
