(* ===== verification/Channels.thy ===== *)
theory Channels
  imports Dag
begin

text \<open>
  Typed state channels (\<open>y-agent/src/orchestrator/channel.rs\<close>), the mapping of task inputs
  and outputs (\<open>io_mapping.rs\<close>) and the handoff artifacts of nodes (\<open>artifact.rs\<close>,
  without the reading of the confidence text).

  JSON values come from \<open>serde_json\<close>: the type parameter \<open>'v\<close> with the operations
  \<open>json_values\<close> and the laws \<open>json_laws\<close> of its value type (the null value is neither
  array nor object; an array or object gives back what it was made of).
\<close>

section \<open>JSON values\<close>

record 'v json_values =
  jv_null :: 'v
  jv_array :: "'v list \<Rightarrow> 'v"
  jv_as_array :: "'v \<Rightarrow> 'v list option"
  jv_object :: "(string \<rightharpoonup> 'v) \<Rightarrow> 'v"
  jv_as_object :: "'v \<Rightarrow> (string \<rightharpoonup> 'v) option"
  jv_string :: "string \<Rightarrow> 'v"
  jv_number :: "nat \<Rightarrow> 'v"

definition json_laws :: "'v json_values \<Rightarrow> bool" where
  "json_laws js \<longleftrightarrow>
     (\<forall>xs. jv_as_array js (jv_array js xs) = Some xs) \<and>
     (\<forall>m. jv_as_object js (jv_object js m) = Some m) \<and>
     jv_as_array js (jv_null js) = None \<and> jv_as_object js (jv_null js) = None \<and>
     (\<forall>xs. jv_array js xs \<noteq> jv_null js) \<and> (\<forall>m. jv_object js m \<noteq> jv_null js)"

definition jv_get :: "'v json_values \<Rightarrow> 'v \<Rightarrow> string \<Rightarrow> 'v option" where
  "jv_get js v k = (case jv_as_object js v of None \<Rightarrow> None | Some m \<Rightarrow> m k)"

section \<open>Channels\<close>

datatype channel_type = ChLastValue | ChAppend | ChMerge

record 'v channel =
  cn_name :: string
  cn_value :: 'v
  cn_channel_type :: channel_type
  cn_version :: nat

definition channel_new :: "'v json_values \<Rightarrow> string \<Rightarrow> channel_type \<Rightarrow> 'v channel" where
  "channel_new js name ty = \<lparr>cn_name = name, cn_value = jv_null js, cn_channel_type = ty, cn_version = 0\<rparr>"

definition channel_write :: "'v json_values \<Rightarrow> 'v \<Rightarrow> 'v channel \<Rightarrow> 'v channel" where
  "channel_write js v ch =
     (let ch = ch\<lparr>cn_version := cn_version ch + 1\<rparr>
      in case cn_channel_type ch of
           ChLastValue \<Rightarrow> ch\<lparr>cn_value := v\<rparr>
         | ChAppend \<Rightarrow>
             (case jv_as_array js (cn_value ch) of
                Some arr \<Rightarrow> ch\<lparr>cn_value := jv_array js (arr @ [v])\<rparr>
              | None \<Rightarrow> ch\<lparr>cn_value := jv_array js [v]\<rparr>)
         | ChMerge \<Rightarrow>
             (let ch = (if cn_value ch = jv_null js then ch\<lparr>cn_value := jv_object js Map.empty\<rparr> else ch)
              in case (jv_as_object js (cn_value ch), jv_as_object js v) of
                   (Some existing, Some incoming) \<Rightarrow> ch\<lparr>cn_value := jv_object js (existing ++ incoming)\<rparr>
                 | _ \<Rightarrow> ch))"

type_synonym 'v workflow_context = "string \<rightharpoonup> 'v channel"

definition define_channel :: "'v json_values \<Rightarrow> string \<Rightarrow> channel_type \<Rightarrow> 'v workflow_context \<Rightarrow> 'v workflow_context" where
  "define_channel js name ty ctx = ctx(name \<mapsto> channel_new js name ty)"

definition ctx_write :: "'v json_values \<Rightarrow> string \<Rightarrow> 'v \<Rightarrow> 'v workflow_context \<Rightarrow> 'v workflow_context" where
  "ctx_write js name v ctx =
     (let ch = (case ctx name of Some ch \<Rightarrow> ch | None \<Rightarrow> channel_new js name ChLastValue)
      in ctx(name \<mapsto> channel_write js v ch))"

definition ctx_read :: "'v workflow_context \<Rightarrow> string \<Rightarrow> 'v option" where
  "ctx_read ctx name = map_option cn_value (ctx name)"

section \<open>Input and output mappings\<close>

datatype 'v input_mapping =
  ImWorkflowInput string
| ImTaskOutput string string
| ImContext string
| ImConstant 'v
| ImExpression string

datatype output_mapping = OmWorkflowOutput string | OmContext string

datatype input_resolve_error = IeMissingWorkflowInput string | IeMissingTaskOutput string

definition or_null :: "'v json_values \<Rightarrow> 'v option \<Rightarrow> 'v" where
  "or_null js x = (case x of None \<Rightarrow> jv_null js | Some v \<Rightarrow> v)"

definition resolve_input ::
  "'v json_values \<Rightarrow> (string \<rightharpoonup> 'v) \<Rightarrow> (string \<rightharpoonup> 'v) \<Rightarrow> 'v workflow_context \<Rightarrow> 'v input_mapping \<Rightarrow>
     input_resolve_error + 'v" where
  "resolve_input js workflow_inputs task_outputs ctx m =
     (case m of
        ImWorkflowInput field \<Rightarrow>
          (case workflow_inputs field of Some v \<Rightarrow> Inr v | None \<Rightarrow> Inl (IeMissingWorkflowInput field))
      | ImTaskOutput task_id field \<Rightarrow>
          (case task_outputs task_id of
             None \<Rightarrow> Inl (IeMissingTaskOutput task_id)
           | Some output \<Rightarrow> Inr (or_null js (jv_get js output field)))
      | ImContext channel \<Rightarrow> Inr (or_null js (ctx_read ctx channel))
      | ImConstant v \<Rightarrow> Inr v
      | ImExpression expr \<Rightarrow>
          (case Option.bind (strip_prefix expr ''{{ workflow.input.'') (\<lambda>s. strip_suffix s '' }}'') of
             Some field \<Rightarrow> Inr (or_null js (workflow_inputs field))
           | None \<Rightarrow> Inr (jv_string js expr)))"

fun resolve_inputs ::
  "'v json_values \<Rightarrow> (string \<rightharpoonup> 'v) \<Rightarrow> (string \<rightharpoonup> 'v) \<Rightarrow> 'v workflow_context \<Rightarrow>
     (string \<times> 'v input_mapping) list \<Rightarrow> (string \<rightharpoonup> 'v) \<Rightarrow> input_resolve_error + (string \<rightharpoonup> 'v)" where
  "resolve_inputs js wi to ctx [] resolved = Inr resolved"
| "resolve_inputs js wi to ctx ((name, m) # ms) resolved =
     and_then (resolve_input js wi to ctx m) (\<lambda>v. resolve_inputs js wi to ctx ms (resolved(name \<mapsto> v)))"

section \<open>Artifacts\<close>

fun asserts_coverage :: "node_kind \<Rightarrow> bool" where
  "asserts_coverage NkExplore = True"
| "asserts_coverage NkVerify = True"
| "asserts_coverage NkSynthesize = True"
| "asserts_coverage NkCritique = True"
| "asserts_coverage _ = False"

fun requires_evidence :: "node_kind \<Rightarrow> bool" where
  "requires_evidence NkVerify = True"
| "requires_evidence NkCritique = True"
| "requires_evidence _ = False"

datatype rigor = RigorLight | RigorDeep

record task_artifact =
  ta_summary :: string
  ta_findings :: "string list"
  ta_evidence :: "string list"
  ta_edge_cases_considered :: "string list"
  ta_what_i_did_not_check :: "string list"
  ta_confidence :: string

definition default_artifact :: task_artifact where
  "default_artifact = \<lparr>ta_summary = [], ta_findings = [], ta_evidence = [], ta_edge_cases_considered = [],
     ta_what_i_did_not_check = [], ta_confidence = []\<rparr>"

datatype artifact_error = AeUnspecifiedKind | AeMissing | AeMissingField string

fun artifact_error_display :: "artifact_error \<Rightarrow> string" where
  "artifact_error_display AeUnspecifiedKind =
     ''node kind is unspecified; deep rigor requires a declared node kind''"
| "artifact_error_display AeMissing = ''node produced no handoff artifact''"
| "artifact_error_display (AeMissingField f) =
     ''handoff artifact is missing required field '' @ [CHR 0x60] @ f @ [CHR 0x60]"

text \<open>\<open>from_value\<close> is the deserializer that serde derives for an artifact.\<close>

definition artifact_from_output ::
  "'v json_values \<Rightarrow> ('v \<Rightarrow> task_artifact option) \<Rightarrow> 'v \<Rightarrow> task_artifact option" where
  "artifact_from_output js from_value output =
     (let candidate = (case jv_get js output ''artifact'' of None \<Rightarrow> output | Some v \<Rightarrow> v)
      in if jv_as_object js candidate = None then None
         else case from_value candidate of
                None \<Rightarrow> None
              | Some a \<Rightarrow> if a \<noteq> default_artifact then Some a else None)"

definition artifact_validate_for :: "task_artifact \<Rightarrow> node_kind \<Rightarrow> artifact_error + unit" where
  "artifact_validate_for a kind =
     (if str_trim (ta_summary a) = [] then Inl (AeMissingField ''summary'')
      else if ta_what_i_did_not_check a = [] then Inl (AeMissingField ''what_i_did_not_check'')
      else if asserts_coverage kind \<and> ta_findings a = [] then Inl (AeMissingField ''findings'')
      else if requires_evidence kind \<and> ta_evidence a = [] then Inl (AeMissingField ''evidence'')
      else Inr ())"

definition validate_completion ::
  "'v json_values \<Rightarrow> ('v \<Rightarrow> task_artifact option) \<Rightarrow> node_kind \<Rightarrow> rigor \<Rightarrow> 'v \<Rightarrow>
     artifact_error + task_artifact option" where
  "validate_completion js from_value kind r output =
     (let artifact = artifact_from_output js from_value output
      in if r = RigorLight then Inr artifact
         else if kind = NkUnspecified then Inl AeUnspecifiedKind
         else case artifact of
                None \<Rightarrow> Inl AeMissing
              | Some a \<Rightarrow> and_then (artifact_validate_for a kind) (\<lambda>_. Inr (Some a)))"

section \<open>What a channel holds after a history of writes\<close>

definition objects_merged :: "'v json_values \<Rightarrow> 'v list \<Rightarrow> (string \<rightharpoonup> 'v)" where
  "objects_merged js vs = foldl (\<lambda>m v. case jv_as_object js v of None \<Rightarrow> m | Some m' \<Rightarrow> m ++ m') Map.empty vs"

locale json =
  fixes js :: "'v json_values"
  assumes laws: "json_laws js"
begin

lemma json_simps [simp]:
  "jv_as_array js (jv_array js xs) = Some xs" "jv_as_object js (jv_object js m) = Some m"
  "jv_as_array js (jv_null js) = None" "jv_as_object js (jv_null js) = None"
  "jv_array js xs \<noteq> jv_null js" "jv_object js m \<noteq> jv_null js"
  using laws by (simp_all add: json_laws_def)

lemma writes_meta:
  "cn_version (fold (channel_write js) vs ch) = cn_version ch + length vs \<and>
   cn_channel_type (fold (channel_write js) vs ch) = cn_channel_type ch \<and>
   cn_name (fold (channel_write js) vs ch) = cn_name ch"
proof (induction vs arbitrary: ch)
  case (Cons v vs)
  have "cn_version (channel_write js v ch) = cn_version ch + 1 \<and>
      cn_channel_type (channel_write js v ch) = cn_channel_type ch \<and> cn_name (channel_write js v ch) = cn_name ch"
    by (auto simp: channel_write_def Let_def split: channel_type.split option.split)
  then show ?case using Cons by simp
qed simp

lemma last_value_writes:
  "cn_channel_type ch = ChLastValue \<Longrightarrow>
   cn_value (fold (channel_write js) vs ch) = (if vs = [] then cn_value ch else last vs)"
proof (induction vs rule: rev_induct)
  case (snoc v vs)
  then show ?case using writes_meta [of vs ch] by (simp add: channel_write_def [of js v] Let_def)
qed simp

lemma append_writes:
  "vs \<noteq> [] \<Longrightarrow> cn_value (fold (channel_write js) vs (channel_new js name ChAppend)) = jv_array js vs"
proof (induction vs rule: rev_induct)
  case (snoc v vs)
  let ?ch = "channel_new js name ChAppend"
  have ty: "cn_channel_type (fold (channel_write js) vs ?ch) = ChAppend"
    using writes_meta [of vs ?ch] by (simp add: channel_new_def)
  show ?case
  proof (cases vs)
    case Nil
    then show ?thesis by (simp add: channel_write_def channel_new_def Let_def)
  next
    case (Cons u us)
    then show ?thesis using snoc ty by (simp add: channel_write_def [of js v] Let_def del: fold_simps)
  qed
qed simp

lemma merge_writes:
  "vs \<noteq> [] \<Longrightarrow> cn_value (fold (channel_write js) vs (channel_new js name ChMerge)) = jv_object js (objects_merged js vs)"
proof (induction vs rule: rev_induct)
  case (snoc v vs)
  let ?ch = "channel_new js name ChMerge"
  have ty: "cn_channel_type (fold (channel_write js) vs ?ch) = ChMerge"
    using writes_meta [of vs ?ch] by (simp add: channel_new_def)
  show ?case
  proof (cases vs)
    case Nil
    then show ?thesis by (simp add: channel_write_def channel_new_def Let_def objects_merged_def split: option.split)
  next
    case (Cons u us)
    then show ?thesis using snoc ty
      by (simp add: channel_write_def [of js v] objects_merged_def Let_def del: fold_simps split: option.split)
  qed
qed simp

end

section \<open>A concrete value type\<close>

text \<open>JSON values themselves meet the laws.\<close>

datatype jval =
  JNull
| JBool bool
| JNum int
| JStr string
| JArr "jval list"
| JObj "string \<Rightarrow> jval option"

definition jval_values :: "jval json_values" where
  "jval_values = \<lparr>jv_null = JNull, jv_array = JArr, jv_as_array = (\<lambda>v. case v of JArr xs \<Rightarrow> Some xs | _ \<Rightarrow> None),
     jv_object = JObj, jv_as_object = (\<lambda>v. case v of JObj m \<Rightarrow> Some m | _ \<Rightarrow> None), jv_string = JStr, jv_number = (\<lambda>n. JNum (int n))\<rparr>"

lemma jval_values_simps [simp]:
  "jv_null jval_values = JNull" "jv_array jval_values xs = JArr xs" "jv_object jval_values m = JObj m"
  "jv_as_array jval_values v = (case v of JArr xs \<Rightarrow> Some xs | _ \<Rightarrow> None)"
  "jv_as_object jval_values v = (case v of JObj m \<Rightarrow> Some m | _ \<Rightarrow> None)"
  "jv_string jval_values s = JStr s" "jv_number jval_values n = JNum (int n)"
  by (simp_all add: jval_values_def)

lemma jval_laws: "json_laws jval_values"
  by (simp add: json_laws_def)

interpretation jval: json jval_values
  by unfold_locales (rule jval_laws)

section \<open>A defined channel after writes to the context\<close>

text \<open>A sequence of writes to the context, each to a named channel.\<close>

definition ctx_writes :: "'v json_values \<Rightarrow> (string \<times> 'v) list \<Rightarrow> 'v workflow_context \<Rightarrow> 'v workflow_context" where
  "ctx_writes js ws ctx = fold (\<lambda>(name, v). ctx_write js name v) ws ctx"

definition writes_to :: "string \<Rightarrow> (string \<times> 'v) list \<Rightarrow> 'v list" where
  "writes_to name ws = map snd (filter (\<lambda>(n, v). n = name) ws)"

lemma ctx_writes_defined:
  "ctx name = Some ch \<Longrightarrow> ctx_writes js ws ctx name = Some (fold (channel_write js) (writes_to name ws) ch)"
  by (induction ws arbitrary: ctx ch) (auto simp: ctx_writes_def writes_to_def ctx_write_def Let_def)

lemma ctx_writes_undefined:
  "ctx name = None \<Longrightarrow> writes_to name ws = v # vs \<Longrightarrow>
   ctx_writes js ws ctx name = Some (fold (channel_write js) (v # vs) (channel_new js name ChLastValue))"
proof (induction ws arbitrary: ctx)
  case (Cons w ws)
  obtain n u where w: "w = (n, u)" by (cases w)
  show ?case
  proof (cases "n = name")
    case True
    have "ctx_writes js (w # ws) ctx = ctx_writes js ws (ctx_write js name u ctx)"
      by (simp add: ctx_writes_def w True)
    moreover have "writes_to name ws = vs" "u = v" using Cons.prems w True by (simp_all add: writes_to_def)
    moreover have "ctx_write js name u ctx name = Some (channel_write js u (channel_new js name ChLastValue))"
      using Cons.prems by (simp add: ctx_write_def)
    ultimately show ?thesis using ctx_writes_defined by fastforce
  next
    case False
    have "ctx_writes js (w # ws) ctx = ctx_writes js ws (ctx_write js n u ctx)"
      by (simp add: ctx_writes_def w)
    moreover have "ctx_write js n u ctx name = None" using Cons.prems False by (simp add: ctx_write_def Let_def)
    moreover have "writes_to name ws = v # vs" using Cons.prems w False by (simp add: writes_to_def)
    ultimately show ?thesis using Cons.IH by simp
  qed
qed (simp add: writes_to_def)



end
