(* ===== verification/Workflow.thy ===== *)
theory Workflow
  imports Channels
begin

text \<open>
  The workflow executor (\<open>y-agent/src/orchestrator/executor.rs\<close>) with its checkpoints
  (\<open>checkpoint.rs\<close>), the errors of task executors (\<open>task_executor.rs\<close>) and the
  interrupts of running workflows (\<open>interrupt.rs\<close>).

  A task executor is a parameter of the model: which task types it supports and what each
  attempt of a task gives.  Attempts are functions of the task, its inputs, the snapshot
  of the context it was started with and the number of the attempt.  An execution starts a
  task at most once, so these functions cover every behaviour of executors whose attempts
  end, however the tasks of a round interleave; the executor itself reads its own state
  only between rounds.
\<close>

section \<open>Task executors\<close>

datatype task_execute_error =
  TeUnsupported | TeTransient string | TePermanent string | TeCancelled | TeTimeout nat

fun is_transient :: "task_execute_error \<Rightarrow> bool" where
  "is_transient (TeTransient _) = True"
| "is_transient (TeTimeout _) = True"
| "is_transient _ = False"

fun execute_error_display :: "task_execute_error \<Rightarrow> string" where
  "execute_error_display TeUnsupported = ''unsupported task type for executor''"
| "execute_error_display (TeTransient m) = ''transient error: '' @ m"
| "execute_error_display (TePermanent m) = ''permanent error: '' @ m"
| "execute_error_display TeCancelled = ''task cancelled''"
| "execute_error_display (TeTimeout n) = ''task timed out after '' @ show_nat n @ ''ms''"

record 'v task_output =
  to_task_id :: string
  to_output :: 'v
  to_completed_at :: nat

text \<open>What one attempt gives: an output, an error, or a panic (with its message).\<close>

datatype 'v attempt = AtOk "'v task_output" | AtErr task_execute_error | AtPanic string

record 'v task_executor =
  te_supports :: "'v task_type \<Rightarrow> bool"
  te_execute :: "'v task_node \<Rightarrow> (string \<rightharpoonup> 'v) \<Rightarrow> 'v workflow_context \<Rightarrow> nat \<Rightarrow> 'v attempt"

text \<open>
  The retry loop of a spawned task over the attempts still to make.  The result is the
  outcome of joining the task (\<open>Inl\<close> a panic) with the delays it slept in between.
\<close>

type_synonym 'v joined = "string + (task_execute_error + 'v task_output)"

definition loop_exit_error :: "task_execute_error option \<Rightarrow> task_execute_error" where
  "loop_exit_error last_err = (case last_err of
      Some e \<Rightarrow> e
    | None \<Rightarrow> TePermanent ''task retry loop exited without an execution attempt'')"

fun retry_loop ::
  "(nat \<Rightarrow> 'v attempt) \<Rightarrow> retry_config option \<Rightarrow> nat \<Rightarrow> nat list \<Rightarrow> task_execute_error option \<Rightarrow>
     'v joined \<times> nat list" where
  "retry_loop f retry max_attempts [] last_err = (Inr (Inl (loop_exit_error last_err)), [])"
| "retry_loop f retry max_attempts (k # ks) last_err =
     (case f k of
        AtOk out \<Rightarrow> (Inr (Inr out), [])
      | AtPanic m \<Rightarrow> (Inl m, [])
      | AtErr e \<Rightarrow>
          (if is_transient e \<and> k < max_attempts then
             (case retry of
                Some cfg \<Rightarrow>
                  (case retry_loop f retry max_attempts ks (Some e) of
                     (r, sleeps) \<Rightarrow> (r, delay_for_attempt cfg k # sleeps))
              | None \<Rightarrow> (Inr (Inl (loop_exit_error (Some e))), []))
           else (Inr (Inl (loop_exit_error (Some e))), [])))"

definition max_attempts_of :: "retry_config option \<Rightarrow> nat" where
  "max_attempts_of retry = (case retry of None \<Rightarrow> 1 | Some r \<Rightarrow> max (rc_max_attempts r) 1)"

definition run_attempts :: "(nat \<Rightarrow> 'v attempt) \<Rightarrow> retry_config option \<Rightarrow> 'v joined \<times> nat list" where
  "run_attempts f retry =
     retry_loop f retry (max_attempts_of retry) [1 ..< Suc (max_attempts_of retry)] None"

section \<open>Checkpoints\<close>

record 'v channel_snapshot =
  cs_name :: string
  cs_value :: 'v
  cs_version :: nat

record 'v workflow_checkpoint =
  wc_execution_id :: string
  wc_committed_channels :: "string \<rightharpoonup> 'v channel_snapshot"
  wc_committed_tasks :: "string \<rightharpoonup> 'v task_output"
  wc_pending_channel_writes :: "(string \<times> 'v) list"
  wc_pending_task_outputs :: "'v task_output list"
  wc_step_number :: nat
  wc_checkpoint_time :: nat

type_synonym 'v checkpoint_store = "string \<rightharpoonup> 'v workflow_checkpoint list"

definition checkpoint_save :: "'v workflow_checkpoint \<Rightarrow> 'v checkpoint_store \<Rightarrow> 'v checkpoint_store" where
  "checkpoint_save cp store =
     store(wc_execution_id cp \<mapsto> (case store (wc_execution_id cp) of None \<Rightarrow> [] | Some cps \<Rightarrow> cps) @ [cp])"

definition load_latest :: "'v checkpoint_store \<Rightarrow> string \<Rightarrow> 'v workflow_checkpoint option" where
  "load_latest store execution_id =
     (case store execution_id of None \<Rightarrow> None | Some cps \<Rightarrow> if cps = [] then None else Some (last cps))"

definition checkpoint_count :: "'v checkpoint_store \<Rightarrow> string \<Rightarrow> nat" where
  "checkpoint_count store execution_id =
     (case store execution_id of None \<Rightarrow> 0 | Some cps \<Rightarrow> length cps)"

definition create_checkpoint ::
  "string \<Rightarrow> nat \<Rightarrow> (string \<rightharpoonup> 'v channel_snapshot) \<Rightarrow> (string \<rightharpoonup> 'v task_output) \<Rightarrow> nat \<Rightarrow>
     'v workflow_checkpoint" where
  "create_checkpoint execution_id step channels tasks now =
     \<lparr>wc_execution_id = execution_id, wc_committed_channels = channels, wc_committed_tasks = tasks,
      wc_pending_channel_writes = [], wc_pending_task_outputs = [], wc_step_number = step,
      wc_checkpoint_time = now\<rparr>"

section \<open>The executor\<close>

datatype workflow_state = WsDefined | WsRunning | WsInterrupted | WsCompleted | WsFailed

datatype stream_mode = SmNone | SmValues | SmUpdates | SmMessages | SmDebug

record execution_config =
  ec_stream_mode :: stream_mode
  ec_max_concurrent_tasks :: nat
  ec_rigor :: rigor

definition default_execution_config :: execution_config where
  "default_execution_config =
     \<lparr>ec_stream_mode = SmDebug, ec_max_concurrent_tasks = 50, ec_rigor = RigorLight\<rparr>"

record 'v workflow_executor =
  wx_state :: workflow_state
  wx_context :: "'v workflow_context"
  wx_config :: execution_config
  wx_completed_tasks :: "string set"
  wx_task_outputs :: "string \<rightharpoonup> 'v task_output"
  wx_artifacts :: "string \<rightharpoonup> task_artifact"
  wx_step_number :: nat
  wx_executors :: "'v task_executor list"

definition executor_new :: "execution_config \<Rightarrow> 'v workflow_executor" where
  "executor_new config =
     \<lparr>wx_state = WsDefined, wx_context = Map.empty, wx_config = config, wx_completed_tasks = {},
      wx_task_outputs = Map.empty, wx_artifacts = Map.empty, wx_step_number = 0, wx_executors = []\<rparr>"

definition register_executor :: "'v task_executor \<Rightarrow> 'v workflow_executor \<Rightarrow> 'v workflow_executor" where
  "register_executor e ex = ex\<lparr>wx_executors := wx_executors ex @ [e]\<rparr>"

datatype workflow_error =
  WeInvalidConfig string
| WeDagInvalid string
| WeNoExecutor string
| WeInputResolution string string
| WeTaskFailed string string
| WeTaskPanicked string

text \<open>
  What an execution takes from outside: the fresh execution id, the JSON values and the
  serde conversions of artifacts, the clock (read once for each ignored failure and each
  checkpoint) and the iteration order of the hash map of tasks.
\<close>

record 'v wf_env =
  en_json :: "'v json_values"
  en_execution_id :: string
  en_artifact_from :: "'v \<Rightarrow> task_artifact option"
  en_artifacts_json :: "(string \<rightharpoonup> task_artifact) \<Rightarrow> 'v"
  en_settled_at :: "string \<Rightarrow> nat"
  en_saved_at :: "nat \<Rightarrow> nat"
  en_iter :: iteration

record 'v wf_job =
  jb_inputs :: "string \<rightharpoonup> 'v"
  jb_input_mappings :: "string \<rightharpoonup> (string \<times> 'v input_mapping) list"
  jb_output_mappings :: "string \<rightharpoonup> output_mapping list"

definition upstream_artifacts :: "'v workflow_executor \<Rightarrow> 'v task_node \<Rightarrow> (string \<rightharpoonup> task_artifact)" where
  "upstream_artifacts ex t = (\<lambda>d. if d \<in> set (tn_dependencies t) then wx_artifacts ex d else None)"

definition has_upstream :: "'v workflow_executor \<Rightarrow> 'v task_node \<Rightarrow> bool" where
  "has_upstream ex t \<longleftrightarrow> (\<exists>d \<in> set (tn_dependencies t). upstream_artifacts ex t d \<noteq> None)"

fun input_error_display :: "input_resolve_error \<Rightarrow> string" where
  "input_error_display (IeMissingWorkflowInput f) =
     ''workflow input field '' @ [CHR 0x27] @ f @ [CHR 0x27] @ '' not provided''"
| "input_error_display (IeMissingTaskOutput t) =
     ''task output for '' @ [CHR 0x27] @ t @ [CHR 0x27] @ '' not available (task may not have run yet)''"

fun dag_error_display :: "dag_error \<Rightarrow> string" where
  "dag_error_display DeCycleDetected = ''cycle detected in task DAG''"
| "dag_error_display (DeMissingDependency t d) =
     ''task '' @ [CHR 0x27] @ t @ [CHR 0x27] @ '' depends on missing task '' @ [CHR 0x27] @ d @ [CHR 0x27]"
| "dag_error_display (DeDuplicateTask t) = ''duplicate task ID '' @ [CHR 0x27] @ t @ [CHR 0x27]"

definition map_error :: "('e \<Rightarrow> 'f) \<Rightarrow> 'e + 'a \<Rightarrow> 'f + 'a" where
  "map_error g r = (case r of Inl e \<Rightarrow> Inl (g e) | Inr x \<Rightarrow> Inr x)"

text \<open>The inputs of a ready task and its executor.\<close>

definition resolved_inputs ::
  "'v wf_env \<Rightarrow> 'v wf_job \<Rightarrow> 'v workflow_executor \<Rightarrow> 'v task_node \<Rightarrow> workflow_error + (string \<rightharpoonup> 'v)" where
  "resolved_inputs env job ex t =
     (case jb_input_mappings job (tn_id t) of
        None \<Rightarrow> Inr Map.empty
      | Some ms \<Rightarrow>
          map_error (\<lambda>e. WeInputResolution (tn_id t) (input_error_display e))
            (resolve_inputs (en_json env) (jb_inputs job) (map_option to_output \<circ> wx_task_outputs ex)
               (wx_context ex) ms Map.empty))"

definition upstream_key :: string where "upstream_key = ''upstream_artifacts''"

definition with_upstream ::
  "'v wf_env \<Rightarrow> 'v workflow_executor \<Rightarrow> 'v task_node \<Rightarrow> (string \<rightharpoonup> 'v) \<Rightarrow> (string \<rightharpoonup> 'v)" where
  "with_upstream env ex t inputs =
     (if has_upstream ex t \<and> inputs upstream_key = None
      then inputs(upstream_key \<mapsto> en_artifacts_json env (upstream_artifacts ex t))
      else inputs)"

definition find_executor :: "'v workflow_executor \<Rightarrow> 'v task_node \<Rightarrow> workflow_error + 'v task_executor" where
  "find_executor ex t =
     (case List.find (\<lambda>e. te_supports e (tn_task_type t)) (wx_executors ex) of
        None \<Rightarrow> Inl (WeNoExecutor (tn_id t))
      | Some e \<Rightarrow> Inr e)"

text \<open>A spawned task, and what joining it gives.\<close>

definition spawn ::
  "'v wf_env \<Rightarrow> 'v wf_job \<Rightarrow> 'v workflow_executor \<Rightarrow> 'v task_node \<Rightarrow>
     workflow_error + 'v task_node \<times> 'v joined" where
  "spawn env job ex t =
     and_then (resolved_inputs env job ex t) (\<lambda>inputs.
     and_then (find_executor ex t) (\<lambda>e.
       Inr (t, fst (run_attempts (te_execute e t (with_upstream env ex t inputs) (wx_context ex)) (tn_retry t)))))"

section \<open>Settling the results of a round\<close>

definition apply_output_mapping ::
  "'v json_values \<Rightarrow> 'v \<Rightarrow> output_mapping \<Rightarrow> 'v workflow_context \<Rightarrow> 'v workflow_context" where
  "apply_output_mapping js v m ctx =
     (case m of
        OmContext channel \<Rightarrow> ctx_write js channel v ctx
      | OmWorkflowOutput field \<Rightarrow> ctx_write js (''__workflow_output.'' @ field) v ctx)"

definition output_channel :: "string \<Rightarrow> string" where
  "output_channel task_id = task_id @ ''.output''"

definition accepted ::
  "'v wf_env \<Rightarrow> rigor \<Rightarrow> 'v task_node \<Rightarrow> task_execute_error + 'v task_output \<Rightarrow>
     task_execute_error + 'v task_output \<times> task_artifact option" where
  "accepted env r t result =
     and_then result (\<lambda>output.
       case validate_completion (en_json env) (en_artifact_from env) (tn_node_kind t) r (to_output output) of
         Inr a \<Rightarrow> Inr (output, a)
       | Inl e \<Rightarrow> Inl (TePermanent (''handoff artifact rejected: '' @ artifact_error_display e)))"

definition complete_task ::
  "'v wf_env \<Rightarrow> 'v wf_job \<Rightarrow> string \<Rightarrow> 'v task_output \<Rightarrow> task_artifact option \<Rightarrow>
     'v workflow_executor \<Rightarrow> 'v workflow_executor" where
  "complete_task env job task_id output produced ex =
     (let js = en_json env;
          ctx = (case jb_output_mappings job task_id of
                   None \<Rightarrow> wx_context ex
                 | Some ms \<Rightarrow> fold (apply_output_mapping js (to_output output)) ms (wx_context ex))
      in ex\<lparr>wx_step_number := wx_step_number ex + 1,
            wx_context := ctx_write js (output_channel task_id) (to_output output) ctx,
            wx_artifacts := (case produced of None \<Rightarrow> wx_artifacts ex | Some a \<Rightarrow> (wx_artifacts ex)(task_id \<mapsto> a)),
            wx_task_outputs := (wx_task_outputs ex)(task_id \<mapsto> output),
            wx_completed_tasks := insert task_id (wx_completed_tasks ex)\<rparr>)"

definition ignored_output :: "'v wf_env \<Rightarrow> string \<Rightarrow> task_execute_error \<Rightarrow> 'v task_output" where
  "ignored_output env task_id e =
     \<lparr>to_task_id = task_id,
      to_output = jv_object (en_json env)
        [''ignored_error'' \<mapsto> jv_string (en_json env) (execute_error_display e)],
      to_completed_at = en_settled_at env task_id\<rparr>"

definition ignore_failure ::
  "'v wf_env \<Rightarrow> string \<Rightarrow> task_execute_error \<Rightarrow> 'v workflow_executor \<Rightarrow> 'v workflow_executor" where
  "ignore_failure env task_id e ex =
     (let output = ignored_output env task_id e
      in ex\<lparr>wx_step_number := wx_step_number ex + 1,
            wx_context := ctx_write (en_json env) (output_channel task_id) (to_output output) (wx_context ex),
            wx_task_outputs := (wx_task_outputs ex)(task_id \<mapsto> output),
            wx_completed_tasks := insert task_id (wx_completed_tasks ex)\<rparr>)"

definition fail_task ::
  "string \<Rightarrow> task_execute_error \<Rightarrow> 'v workflow_executor \<Rightarrow> (workflow_error + unit) \<times> 'v workflow_executor" where
  "fail_task task_id e ex =
     (Inl (WeTaskFailed task_id (execute_error_display e)), ex\<lparr>wx_state := WsFailed\<rparr>)"

definition settle ::
  "'v wf_env \<Rightarrow> 'v wf_job \<Rightarrow> 'v task_node \<times> 'v joined \<Rightarrow> 'v workflow_executor \<Rightarrow>
     (workflow_error + unit) \<times> 'v workflow_executor" where
  "settle env job h ex =
     (case h of (t, j) \<Rightarrow>
        case j of
          Inl m \<Rightarrow> (Inl (WeTaskPanicked m), ex)
        | Inr result \<Rightarrow>
            (case accepted env (ec_rigor (wx_config ex)) t result of
               Inr (output, produced) \<Rightarrow> (Inr (), complete_task env job (tn_id t) output produced ex)
             | Inl e \<Rightarrow>
                 (case tn_failure_strategy t of
                    FsFailFast \<Rightarrow> fail_task (tn_id t) e ex
                  | FsContinueOnError \<Rightarrow>
                      (Inr (), ex\<lparr>wx_completed_tasks := insert (tn_id t) (wx_completed_tasks ex)\<rparr>)
                  | FsIgnore \<Rightarrow> (Inr (), ignore_failure env (tn_id t) e ex)
                  | FsRetry \<Rightarrow> fail_task (tn_id t) e ex
                  | _ \<Rightarrow> fail_task (tn_id t) e ex)))"

fun settle_all ::
  "'v wf_env \<Rightarrow> 'v wf_job \<Rightarrow> ('v task_node \<times> 'v joined) list \<Rightarrow> 'v workflow_executor \<Rightarrow>
     (workflow_error + unit) \<times> 'v workflow_executor" where
  "settle_all env job [] ex = (Inr (), ex)"
| "settle_all env job (h # hs) ex =
     (case settle env job h ex of
        (Inl e, ex') \<Rightarrow> (Inl e, ex')
      | (Inr _, ex') \<Rightarrow> settle_all env job hs ex')"

section \<open>Rounds\<close>

definition snapshot_channels :: "'v workflow_executor \<Rightarrow> (string \<rightharpoonup> 'v channel_snapshot)" where
  "snapshot_channels ex = (\<lambda>name. map_option
     (\<lambda>ch. \<lparr>cs_name = name, cs_value = cn_value ch, cs_version = 0\<rparr>) (wx_context ex name))"

definition save_round :: "'v wf_env \<Rightarrow> 'v workflow_executor \<Rightarrow> 'v checkpoint_store \<Rightarrow> 'v checkpoint_store" where
  "save_round env ex store =
     checkpoint_save (create_checkpoint (en_execution_id env) (wx_step_number ex) (snapshot_channels ex)
       (wx_task_outputs ex) (en_saved_at env (checkpoint_count store (en_execution_id env)))) store"

definition run_round ::
  "'v wf_env \<Rightarrow> 'v wf_job \<Rightarrow> 'v task_node list \<Rightarrow> 'v workflow_executor \<Rightarrow>
     (workflow_error + unit) \<times> 'v workflow_executor" where
  "run_round env job ready ex =
     (case collect_results (spawn env job ex) ready of
        Inl e \<Rightarrow> (Inl e, ex)
      | Inr handles \<Rightarrow> settle_all env job handles ex)"

text \<open>The loop: \<open>None\<close> would be a loop that never ends.\<close>

type_synonym 'v wf_result = "(workflow_error + unit) \<times> 'v workflow_executor \<times> 'v checkpoint_store"

partial_function (option) execute_rounds ::
  "'v wf_env \<Rightarrow> 'v wf_job \<Rightarrow> 'v task_dag \<Rightarrow> 'v workflow_executor \<Rightarrow> 'v checkpoint_store \<Rightarrow> 'v wf_result option" where
  "execute_rounds env job dag ex store =
     (let ready = ready_tasks (en_iter env) dag (wx_completed_tasks ex)
      in if ready = [] then Some (Inr (), ex\<lparr>wx_state := WsCompleted\<rparr>, store)
         else case run_round env job ready ex of
                (Inl e, ex') \<Rightarrow> Some (Inl e, ex', store)
              | (Inr _, ex') \<Rightarrow> execute_rounds env job dag ex' (save_round env ex' store))"

definition wf_execute ::
  "'v wf_env \<Rightarrow> 'v wf_job \<Rightarrow> 'v task_dag \<Rightarrow> 'v workflow_executor \<Rightarrow> 'v checkpoint_store \<Rightarrow> 'v wf_result option" where
  "wf_execute env job dag ex store =
     (case dag_validate (en_iter env) dag of
        None \<Rightarrow> None
      | Some (Inl e) \<Rightarrow> Some (Inl (WeDagInvalid (dag_error_display e)), ex, store)
      | Some (Inr _) \<Rightarrow>
          if ec_max_concurrent_tasks (wx_config ex) = 0
          then Some (Inl (WeInvalidConfig ''max_concurrent_tasks must be greater than zero''), ex, store)
          else execute_rounds env job dag (ex\<lparr>wx_state := WsRunning\<rparr>) store)"

section \<open>The synchronous path and recovery\<close>

definition sync_output :: "'v wf_env \<Rightarrow> 'v task_node \<Rightarrow> nat \<Rightarrow> 'v task_output" where
  "sync_output env t step =
     \<lparr>to_task_id = tn_id t,
      to_output = jv_object (en_json env)
        [''task'' \<mapsto> jv_string (en_json env) (tn_name t), ''step'' \<mapsto> jv_number (en_json env) step,
         ''status'' \<mapsto> jv_string (en_json env) ''completed''],
      to_completed_at = en_settled_at env (tn_id t)\<rparr>"

definition sync_task :: "'v wf_env \<Rightarrow> 'v task_node \<Rightarrow> 'v workflow_executor \<Rightarrow> 'v workflow_executor" where
  "sync_task env t ex =
     (let step = wx_step_number ex + 1; output = sync_output env t step
      in ex\<lparr>wx_step_number := step,
            wx_context := ctx_write (en_json env) (output_channel (tn_id t)) (to_output output) (wx_context ex),
            wx_task_outputs := (wx_task_outputs ex)(tn_id t \<mapsto> output),
            wx_completed_tasks := insert (tn_id t) (wx_completed_tasks ex)\<rparr>)"

partial_function (option) sync_rounds ::
  "'v wf_env \<Rightarrow> 'v task_dag \<Rightarrow> 'v workflow_executor \<Rightarrow> 'v checkpoint_store \<Rightarrow> 'v wf_result option" where
  "sync_rounds env dag ex store =
     (let ready = ready_tasks (en_iter env) dag (wx_completed_tasks ex)
      in if ready = [] then Some (Inr (), ex\<lparr>wx_state := WsCompleted\<rparr>, store)
         else let ex' = fold (sync_task env) ready ex
              in sync_rounds env dag ex' (save_round env ex' store))"

definition execute_sync ::
  "'v wf_env \<Rightarrow> 'v task_dag \<Rightarrow> 'v workflow_executor \<Rightarrow> 'v checkpoint_store \<Rightarrow> 'v wf_result option" where
  "execute_sync env dag ex store =
     (if ec_rigor (wx_config ex) = RigorDeep
      then Some (Inl (WeDagInvalid
        ''execute_sync cannot satisfy deep rigor; use execute() with registered executors''), ex, store)
      else case dag_validate (en_iter env) dag of
        None \<Rightarrow> None
      | Some (Inl e) \<Rightarrow> Some (Inl (WeDagInvalid (dag_error_display e)), ex, store)
      | Some (Inr _) \<Rightarrow> sync_rounds env dag (ex\<lparr>wx_state := WsRunning\<rparr>) store)"

definition recover_from :: "'v workflow_checkpoint \<Rightarrow> 'v workflow_executor \<Rightarrow> 'v workflow_executor" where
  "recover_from cp ex =
     ex\<lparr>wx_step_number := wc_step_number cp,
        wx_completed_tasks := wx_completed_tasks ex \<union> dom (wc_committed_tasks cp),
        wx_task_outputs := wx_task_outputs ex ++ wc_committed_tasks cp,
        wx_state := WsRunning\<rparr>"

section \<open>Interrupts\<close>

datatype 'v workflow_interrupt =
  WiHumanApproval string "string list" | WiConfirmation string | WiInputRequired string "'v option"

datatype 'v resume_command = RcApprove 'v | RcReject string | RcProvide 'v | RcCancel

record 'v interrupt_state =
  is_execution_id :: string
  is_task_id :: string
  is_interrupt :: "'v workflow_interrupt"
  is_resolved :: bool
  is_resume_command :: "'v resume_command option"

text \<open>The manager is its list of interrupts; \<open>raise\<close> returns the index of the new one.\<close>

definition interrupt_raise ::
  "string \<Rightarrow> string \<Rightarrow> 'v workflow_interrupt \<Rightarrow> 'v interrupt_state list \<Rightarrow> nat \<times> 'v interrupt_state list" where
  "interrupt_raise execution_id task_id i is =
     (length is, is @ [\<lparr>is_execution_id = execution_id, is_task_id = task_id, is_interrupt = i,
        is_resolved = False, is_resume_command = None\<rparr>])"

definition interrupt_resolve ::
  "nat \<Rightarrow> 'v resume_command \<Rightarrow> 'v interrupt_state list \<Rightarrow> bool \<times> 'v interrupt_state list" where
  "interrupt_resolve index command is =
     (if index < length is \<and> \<not> is_resolved (is ! index)
      then (True, is[index := (is ! index)\<lparr>is_resolved := True, is_resume_command := Some command\<rparr>])
      else (False, is))"

definition interrupts_pending :: "string \<Rightarrow> 'v interrupt_state list \<Rightarrow> 'v interrupt_state list" where
  "interrupts_pending execution_id is = filter (\<lambda>i. is_execution_id i = execution_id \<and> \<not> is_resolved i) is"

definition is_interrupted :: "string \<Rightarrow> 'v interrupt_state list \<Rightarrow> bool" where
  "is_interrupted execution_id is \<longleftrightarrow> interrupts_pending execution_id is \<noteq> []"

end
