(* ===== verification/WorkflowCorrect.thy ===== *)
theory WorkflowCorrect
  imports Workflow
begin

text \<open>
  What the workflow executor promises: every execution ends, a successful one has completed
  every task, which errors can occur, what the retry loop does, and what a recovered
  executor has.
\<close>

section \<open>Ready tasks\<close>

lemma set_ready_tasks:
  assumes "dag_wf dag" "good_iter iter"
  shows "set (ready_tasks iter dag completed) =
     {n. td_nodes dag (tn_id n) = Some n \<and> tn_id n \<notin> completed \<and> set (tn_dependencies n) \<subseteq> completed}"
proof -
  have iter: "set (iter (dom (td_nodes dag))) = dom (td_nodes dag)"
    using assms by (simp add: good_iter_def dag_wf_def)
  have nodes: "n \<in> (\<lambda>i. the (td_nodes dag i)) ` dom (td_nodes dag) \<longleftrightarrow> td_nodes dag (tn_id n) = Some n" for n
  proof
    assume "n \<in> (\<lambda>i. the (td_nodes dag i)) ` dom (td_nodes dag)"
    then obtain i where "td_nodes dag i = Some n" by auto
    moreover from this have "tn_id n = i" using assms(1) unfolding dag_wf_def by blast
    ultimately show "td_nodes dag (tn_id n) = Some n" by simp
  next
    assume n: "td_nodes dag (tn_id n) = Some n"
    then show "n \<in> (\<lambda>i. the (td_nodes dag i)) ` dom (td_nodes dag)"
      by (intro image_eqI [of _ _ "tn_id n"]) auto
  qed
  show ?thesis unfolding ready_tasks_def set_sort set_filter set_map iter nodes by blast
qed

lemma none_ready_all_completed:
  assumes "dag_wf dag" "good_iter iter" "ready_tasks iter dag completed = []"
    and "\<forall>n. set (deps dag n) \<subseteq> dom (td_nodes dag)" "acyclic (edges dag)"
  shows "dom (td_nodes dag) \<subseteq> completed"
proof -
  let ?N = "dom (td_nodes dag)"
  have none: "{n. td_nodes dag (tn_id n) = Some n \<and> tn_id n \<notin> completed \<and> set (tn_dependencies n) \<subseteq> completed} = {}"
    using assms(3) set_ready_tasks [OF assms(1,2), of completed] by simp
  have "completed \<inter> ?N = ?N"
  proof (rule acyclic_all_ordered)
    show "finite ?N" using assms(1) by (simp add: dag_wf_def)
    show "\<forall>n \<in> ?N. set (deps dag n) \<subseteq> completed \<inter> ?N \<longrightarrow> n \<in> completed \<inter> ?N"
    proof (intro ballI impI)
      fix i assume i: "i \<in> ?N" "set (deps dag i) \<subseteq> completed \<inter> ?N"
      then obtain n where n: "td_nodes dag i = Some n" by auto
      have id: "tn_id n = i" using n assms(1) unfolding dag_wf_def by blast
      have "set (tn_dependencies n) \<subseteq> completed" using i(2) n by (simp add: deps_def)
      then have "i \<in> completed" using none n id by auto
      then show "i \<in> completed \<inter> ?N" using i(1) by simp
    qed
  qed (use assms in auto)
  then show ?thesis by blast
qed

section \<open>Loops over rounds\<close>

text \<open>The contract of the two round loops: a round that succeeds completes its ready tasks.\<close>

locale round_loop =
  fixes iter :: iteration
    and dag :: "'v task_dag"
    and round :: "'v task_node list \<Rightarrow> 'v workflow_executor \<Rightarrow> (workflow_error + unit) \<times> 'v workflow_executor"
    and save :: "'v workflow_executor \<Rightarrow> 'v checkpoint_store \<Rightarrow> 'v checkpoint_store"
    and loop :: "'v workflow_executor \<Rightarrow> 'v checkpoint_store \<Rightarrow> 'v wf_result option"
  assumes loop_eq: "loop ex store =
     (let ready = ready_tasks iter dag (wx_completed_tasks ex)
      in if ready = [] then Some (Inr (), ex\<lparr>wx_state := WsCompleted\<rparr>, store)
         else case round ready ex of
                (Inl e, ex') \<Rightarrow> Some (Inl e, ex', store)
              | (Inr _, ex') \<Rightarrow> loop ex' (save ex' store))"
    and round_completes: "round ready ex = (Inr u, ex') \<Longrightarrow>
       wx_completed_tasks ex' = wx_completed_tasks ex \<union> tn_id ` set ready"
begin

text \<open>The loop ends; \<open>good\<close> is kept by rounds that succeed, \<open>bad\<close> holds after one that fails.\<close>

lemma loop_result:
  assumes wf: "dag_wf dag" "good_iter iter"
    and ok: "\<And>ready ex ex' store. good ex store \<Longrightarrow> ready = ready_tasks iter dag (wx_completed_tasks ex) \<Longrightarrow>
       ready \<noteq> [] \<Longrightarrow> round ready ex = (Inr (), ex') \<Longrightarrow> good ex' (save ex' store)"
    and err: "\<And>ready ex ex' store e. good ex store \<Longrightarrow> ready = ready_tasks iter dag (wx_completed_tasks ex) \<Longrightarrow>
       ready \<noteq> [] \<Longrightarrow> round ready ex = (Inl e, ex') \<Longrightarrow> bad e ex' store"
  shows "good ex store \<Longrightarrow> \<exists>res ex' store'. loop ex store = Some (res, ex', store') \<and>
     (case res of
        Inl e \<Rightarrow> bad e ex' store'
      | Inr _ \<Rightarrow> \<exists>ex0. good ex0 store' \<and> ex' = ex0\<lparr>wx_state := WsCompleted\<rparr> \<and>
          ready_tasks iter dag (wx_completed_tasks ex0) = [])"
proof (induction "card (dom (td_nodes dag) - wx_completed_tasks ex)" arbitrary: ex store rule: less_induct)
  case less
  let ?ready = "ready_tasks iter dag (wx_completed_tasks ex)"
  show ?case
  proof (cases "?ready = []")
    case True
    then show ?thesis using less.prems by (subst loop_eq) (auto simp: Let_def)
  next
    case False
    obtain r ex' where round: "round ?ready ex = (r, ex')" by (cases "round ?ready ex")
    show ?thesis
    proof (cases r)
      case (Inl e)
      then have "loop ex store = Some (Inl e, ex', store)" using False round by (subst loop_eq) (simp add: Let_def)
      then show ?thesis using err [OF less.prems refl False] round Inl by auto
    next
      case (Inr u)
      then have next_loop: "loop ex store = loop ex' (save ex' store)" using False round by (subst loop_eq) (simp add: Let_def)
      have completed: "wx_completed_tasks ex' = wx_completed_tasks ex \<union> tn_id ` set ?ready"
        using round Inr by (intro round_completes) simp
      obtain n where "n \<in> set ?ready" using False by (meson hd_in_set)
      then have "tn_id n \<in> dom (td_nodes dag) - wx_completed_tasks ex" "tn_id n \<in> wx_completed_tasks ex'"
        using set_ready_tasks [OF wf] completed by auto
      then have "dom (td_nodes dag) - wx_completed_tasks ex' \<subset> dom (td_nodes dag) - wx_completed_tasks ex"
        using completed by blast
      then have "card (dom (td_nodes dag) - wx_completed_tasks ex') < card (dom (td_nodes dag) - wx_completed_tasks ex)"
        using wf(1) by (intro psubset_card_mono) (auto simp: dag_wf_def)
      moreover have "good ex' (save ex' store)" using ok [OF less.prems refl False] round Inr by simp
      ultimately show ?thesis unfolding next_loop by (rule less.hyps)
    qed
  qed
qed

end

section \<open>Rounds of the executor\<close>

lemma settle_ok:
  assumes "settle env job h ex = (Inr u, ex')"
  shows "wx_completed_tasks ex' = insert (tn_id (fst h)) (wx_completed_tasks ex) \<and>
     wx_state ex' = wx_state ex \<and> wx_config ex' = wx_config ex \<and> wx_executors ex' = wx_executors ex \<and>
     dom (wx_task_outputs ex') \<subseteq> insert (tn_id (fst h)) (dom (wx_task_outputs ex)) \<and>
     dom (wx_task_outputs ex) \<subseteq> dom (wx_task_outputs ex') \<and>
     (tn_failure_strategy (fst h) \<noteq> FsContinueOnError \<longrightarrow> tn_id (fst h) \<in> dom (wx_task_outputs ex'))"
  using assms
  by (auto simp: settle_def fail_task_def complete_task_def ignore_failure_def Let_def
      split: prod.splits sum.splits failure_strategy.splits)

lemma settle_err:
  "settle env job h ex = (Inl e, ex') \<Longrightarrow>
     (\<exists>m. e = WeTaskPanicked m \<and> snd h = Inl m \<and> ex' = ex) \<or>
     (\<exists>m. e = WeTaskFailed (tn_id (fst h)) m) \<and> ex' = ex\<lparr>wx_state := WsFailed\<rparr>"
  by (auto simp: settle_def fail_task_def split: prod.splits sum.splits failure_strategy.splits)

lemma settle_all_ok:
  "settle_all env job hs ex = (Inr u, ex') \<Longrightarrow>
     wx_completed_tasks ex' = wx_completed_tasks ex \<union> (tn_id \<circ> fst) ` set hs \<and>
     wx_state ex' = wx_state ex \<and> wx_config ex' = wx_config ex \<and> wx_executors ex' = wx_executors ex \<and>
     dom (wx_task_outputs ex') \<subseteq> dom (wx_task_outputs ex) \<union> (tn_id \<circ> fst) ` set hs \<and>
     dom (wx_task_outputs ex) \<subseteq> dom (wx_task_outputs ex') \<and>
     (\<forall>h \<in> set hs. tn_failure_strategy (fst h) \<noteq> FsContinueOnError \<longrightarrow> tn_id (fst h) \<in> dom (wx_task_outputs ex'))"
proof (induction hs arbitrary: ex)
  case (Cons h hs)
  obtain r ex1 where s: "settle env job h ex = (r, ex1)" by (cases "settle env job h ex")
  then obtain v where r: "r = Inr v" using Cons.prems by (cases r) auto
  have rest: "settle_all env job hs ex1 = (Inr u, ex')" using Cons.prems s r by simp
  note ih = Cons.IH [OF rest] and st = settle_ok [OF s [unfolded r]]
  have sub: "dom (wx_task_outputs ex') \<subseteq> dom (wx_task_outputs ex1) \<union> (tn_id \<circ> fst) ` set hs"
    "dom (wx_task_outputs ex1) \<subseteq> dom (wx_task_outputs ex')"
    "dom (wx_task_outputs ex1) \<subseteq> insert (tn_id (fst h)) (dom (wx_task_outputs ex))"
    "dom (wx_task_outputs ex) \<subseteq> dom (wx_task_outputs ex1)"
    using ih st by simp_all
  show ?case
  proof (intro conjI ballI impI)
    fix g assume g: "g \<in> set (h # hs)" "tn_failure_strategy (fst g) \<noteq> FsContinueOnError"
    show "tn_id (fst g) \<in> dom (wx_task_outputs ex')"
    proof (cases "g = h")
      case True
      then have "tn_id (fst g) \<in> dom (wx_task_outputs ex1)" using st g(2) by simp
      then show ?thesis using sub(2) by blast
    next
      case False
      then show ?thesis using ih g by simp
    qed
  next
    have img: "(tn_id \<circ> fst) ` set (h # hs) = insert (tn_id (fst h)) ((tn_id \<circ> fst) ` set hs)" by simp
    show "dom (wx_task_outputs ex') \<subseteq> dom (wx_task_outputs ex) \<union> (tn_id \<circ> fst) ` set (h # hs)"
      unfolding img using sub(1,3) by blast
    show "dom (wx_task_outputs ex) \<subseteq> dom (wx_task_outputs ex')" using sub(2,4) by blast
  qed (use ih st in simp_all)
qed simp

lemma settle_all_err:
  "settle_all env job hs ex = (Inl e, ex') \<Longrightarrow>
     (\<exists>m. Inl m \<in> snd ` set hs \<and> e = WeTaskPanicked m \<and> wx_state ex' = wx_state ex) \<or>
     (\<exists>t m. e = WeTaskFailed t m) \<and> wx_state ex' = WsFailed"
proof (induction hs arbitrary: ex)
  case (Cons h hs)
  obtain r ex1 where s: "settle env job h ex = (r, ex1)" by (cases "settle env job h ex")
  show ?case
  proof (cases r)
    case (Inl e1)
    then have "e = e1" "ex' = ex1" using Cons.prems s by simp_all
    then show ?thesis using settle_err [OF s [unfolded Inl]]
      by (elim disjE exE conjE; simp add: image_iff)
  next
    case (Inr v)
    then have "settle_all env job hs ex1 = (Inl e, ex')" using Cons.prems s by simp
    from Cons.IH [OF this] show ?thesis using settle_ok [OF s [unfolded Inr]] by auto
  qed
qed simp

lemma spawn_fst: "spawn env job ex t = Inr h \<Longrightarrow> fst h = t"
  by (auto simp: spawn_def and_then_Inr_iff)

lemma spawned_fst: "collect_results (spawn env job ex) ts = Inr hs \<Longrightarrow> map fst hs = ts"
  by (induction ts arbitrary: hs) (auto simp: and_then_Inr_iff dest: spawn_fst)

lemma run_round_ok:
  assumes "run_round env job ready ex = (Inr u, ex')"
  shows "\<exists>hs. map fst hs = ready \<and> settle_all env job hs ex = (Inr u, ex')"
  using assms spawned_fst [of env job ex ready] by (auto simp: run_round_def split: sum.splits)

lemma ids_of_handles: "(tn_id \<circ> fst) ` set hs = tn_id ` set (map fst hs)"
  by (simp add: image_comp)

interpretation exec: round_loop "en_iter env" dag "run_round env job" "save_round env" "execute_rounds env job dag"
  for env :: "'v wf_env" and dag job
proof unfold_locales
  fix ex :: "'v workflow_executor" and store
  show "execute_rounds env job dag ex store =
     (let ready = ready_tasks (en_iter env) dag (wx_completed_tasks ex)
      in if ready = [] then Some (Inr (), ex\<lparr>wx_state := WsCompleted\<rparr>, store)
         else case run_round env job ready ex of
                (Inl e, ex') \<Rightarrow> Some (Inl e, ex', store)
              | (Inr _, ex') \<Rightarrow> execute_rounds env job dag ex' (save_round env ex' store))"
    by (rule execute_rounds.simps)
next
  fix ready u and ex ex' :: "'v workflow_executor"
  assume "run_round env job ready ex = (Inr u, ex')"
  then show "wx_completed_tasks ex' = wx_completed_tasks ex \<union> tn_id ` set ready"
    using run_round_ok settle_all_ok ids_of_handles by metis
qed

lemma sync_fold:
  "wx_completed_tasks (fold (sync_task env) ts ex) = wx_completed_tasks ex \<union> tn_id ` set ts \<and>
   wx_step_number (fold (sync_task env) ts ex) = wx_step_number ex + length ts \<and>
   dom (wx_task_outputs (fold (sync_task env) ts ex)) = dom (wx_task_outputs ex) \<union> tn_id ` set ts"
  by (induction ts arbitrary: ex) (auto simp: sync_task_def Let_def)

interpretation sync: round_loop "en_iter env" dag "\<lambda>ready ex. (Inr (), fold (sync_task env) ready ex)"
    "save_round env" "sync_rounds env dag"
  for env :: "'v wf_env" and dag
proof unfold_locales
  fix ex :: "'v workflow_executor" and store
  show "sync_rounds env dag ex store =
     (let ready = ready_tasks (en_iter env) dag (wx_completed_tasks ex)
      in if ready = [] then Some (Inr (), ex\<lparr>wx_state := WsCompleted\<rparr>, store)
         else case (Inr (), fold (sync_task env) ready ex) of
                (Inl e, ex') \<Rightarrow> Some (Inl e, ex', store)
              | (Inr _, ex') \<Rightarrow> sync_rounds env dag ex' (save_round env ex' store))"
    by (subst sync_rounds.simps) (simp add: Let_def)
qed (auto simp: sync_fold)

section \<open>Which errors a round gives\<close>

lemma spawn_err: "spawn env job ex t = Inl e \<Longrightarrow>
   (\<exists>m. e = WeInputResolution (tn_id t) m) \<or> e = WeNoExecutor (tn_id t)"
  by (auto simp: spawn_def and_then_def resolved_inputs_def map_error_def find_executor_def split: sum.splits option.splits)

lemma collect_results_Inl: "collect_results f xs = Inl e \<Longrightarrow> \<exists>x \<in> set xs. f x = Inl e"
  by (induction xs) (auto simp: and_then_def split: sum.splits)

lemma collect_results_from: "collect_results f xs = Inr ys \<Longrightarrow> y \<in> set ys \<Longrightarrow> \<exists>x \<in> set xs. f x = Inr y"
  by (induction xs arbitrary: ys) (auto simp: and_then_Inr_iff)

lemma run_round_err:
  assumes "run_round env job ready ex = (Inl e, ex')"
  shows "(\<exists>t \<in> set ready. spawn env job ex t = Inl e) \<and> ex' = ex \<or>
     (\<exists>hs. collect_results (spawn env job ex) ready = Inr hs \<and> settle_all env job hs ex = (Inl e, ex'))"
  using assms collect_results_Inl by (fastforce simp: run_round_def split: sum.splits)

lemma run_round_err_state:
  assumes "run_round env job ready ex = (Inl e, ex')" "wx_state ex = WsRunning"
  shows "(\<exists>t m. e = WeTaskFailed t m) \<and> wx_state ex' = WsFailed \<or>
     ((\<exists>t m. e = WeInputResolution t m) \<or> (\<exists>t. e = WeNoExecutor t) \<or> (\<exists>m. e = WeTaskPanicked m)) \<and>
     wx_state ex' = WsRunning"
  using run_round_err [OF assms(1)]
proof (elim disjE exE conjE bexE)
  fix t assume "spawn env job ex t = Inl e" "ex' = ex"
  then show ?thesis using spawn_err [of env job ex t e] assms(2) by auto
next
  fix hs assume "settle_all env job hs ex = (Inl e, ex')"
  then show ?thesis using settle_all_err [of env job hs ex e ex'] assms(2) by auto
qed

lemma save_round_count:
  "checkpoint_count (save_round env ex store) (en_execution_id env) =
     Suc (checkpoint_count store (en_execution_id env))"
  by (simp add: save_round_def checkpoint_save_def create_checkpoint_def checkpoint_count_def split: option.split)

lemma load_latest_save_round:
  "load_latest (save_round env ex store) (en_execution_id env) =
     Some (create_checkpoint (en_execution_id env) (wx_step_number ex) (snapshot_channels ex)
       (wx_task_outputs ex) (en_saved_at env (checkpoint_count store (en_execution_id env))))"
  by (simp add: save_round_def checkpoint_save_def create_checkpoint_def load_latest_def split: option.split)

lemma dag_validate_total:
  assumes "dag_wf dag" "good_iter iter"
  shows "\<exists>r. dag_validate iter dag = Some r"
  using topological_order_eq [OF assms]
  by (auto simp: dag_validate_def topological_order_def split: option.split)

section \<open>Executions\<close>

text \<open>What holds between rounds, from the state \<open>ex0\<close> and \<open>store0\<close> at the start.\<close>

definition round_inv ::
  "'v wf_env \<Rightarrow> 'v task_dag \<Rightarrow> 'v workflow_executor \<Rightarrow> 'v checkpoint_store \<Rightarrow> 'v workflow_executor \<Rightarrow>
     'v checkpoint_store \<Rightarrow> bool" where
  "round_inv env dag ex0 store0 ex store \<longleftrightarrow>
     wx_state ex = WsRunning \<and> wx_executors ex = wx_executors ex0 \<and>
     dom (wx_task_outputs ex) \<subseteq> dom (wx_task_outputs ex0) \<union> wx_completed_tasks ex \<and>
     dom (wx_task_outputs ex0) \<subseteq> dom (wx_task_outputs ex) \<and>
     (\<forall>t n. td_nodes dag t = Some n \<and> t \<in> wx_completed_tasks ex \<and> t \<notin> wx_completed_tasks ex0 \<and>
        tn_failure_strategy n \<noteq> FsContinueOnError \<longrightarrow> t \<in> dom (wx_task_outputs ex)) \<and>
     checkpoint_count store (en_execution_id env) + card (dom (td_nodes dag) - wx_completed_tasks ex)
       \<le> checkpoint_count store0 (en_execution_id env) + card (dom (td_nodes dag) - wx_completed_tasks ex0) \<and>
     (store = store0 \<and> ex = ex0 \<or>
      (\<exists>now. load_latest store (en_execution_id env) = Some (create_checkpoint (en_execution_id env)
         (wx_step_number ex) (snapshot_channels ex) (wx_task_outputs ex) now)))"

lemma round_inv_step:
  assumes wf: "dag_wf dag" "good_iter (en_iter env)"
    and inv: "round_inv env dag ex0 store0 ex store"
    and ready: "ready = ready_tasks (en_iter env) dag (wx_completed_tasks ex)" "ready \<noteq> []"
    and run: "run_round env job ready ex = (Inr (), ex')"
  shows "round_inv env dag ex0 store0 ex' (save_round env ex' store)"
proof -
  obtain hs where hs: "map fst hs = ready" and settled: "settle_all env job hs ex = (Inr (), ex')"
    using run_round_ok [OF run] by blast
  note st = settle_all_ok [OF settled]
  have ids: "(tn_id \<circ> fst) ` set hs = tn_id ` set ready" unfolding ids_of_handles hs by (rule refl)
  have completed: "wx_completed_tasks ex' = wx_completed_tasks ex \<union> tn_id ` set ready" using st ids by simp
  have nodes: "td_nodes dag (tn_id n) = Some n \<and> tn_id n \<notin> wx_completed_tasks ex" if "n \<in> set ready" for n
    using that set_ready_tasks [OF wf] ready(1) by auto
  have outs: "dom (wx_task_outputs ex) \<subseteq> dom (wx_task_outputs ex')"
    "dom (wx_task_outputs ex') \<subseteq> dom (wx_task_outputs ex) \<union> tn_id ` set ready"
    using st ids by simp_all
  have new: "tn_id n \<in> dom (wx_task_outputs ex')"
    if n: "n \<in> set ready" "tn_failure_strategy n \<noteq> FsContinueOnError" for n
  proof -
    obtain h where h: "h \<in> set hs" "fst h = n" using n(1) hs by auto
    then show ?thesis using st n(2) by blast
  qed
  have old: "wx_state ex = WsRunning" "wx_executors ex = wx_executors ex0"
    "dom (wx_task_outputs ex) \<subseteq> dom (wx_task_outputs ex0) \<union> wx_completed_tasks ex"
    "dom (wx_task_outputs ex0) \<subseteq> dom (wx_task_outputs ex)"
    "\<forall>t n. td_nodes dag t = Some n \<and> t \<in> wx_completed_tasks ex \<and> t \<notin> wx_completed_tasks ex0 \<and>
        tn_failure_strategy n \<noteq> FsContinueOnError \<longrightarrow> t \<in> dom (wx_task_outputs ex)"
    "checkpoint_count store (en_execution_id env) + card (dom (td_nodes dag) - wx_completed_tasks ex)
       \<le> checkpoint_count store0 (en_execution_id env) + card (dom (td_nodes dag) - wx_completed_tasks ex0)"
    using inv unfolding round_inv_def by blast+
  have "hd ready \<in> set ready" using ready(2) by simp
  then have "dom (td_nodes dag) - wx_completed_tasks ex' \<subset> dom (td_nodes dag) - wx_completed_tasks ex"
    unfolding completed using nodes [of "hd ready"] by blast
  then have fewer: "card (dom (td_nodes dag) - wx_completed_tasks ex') < card (dom (td_nodes dag) - wx_completed_tasks ex)"
    using wf(1) by (intro psubset_card_mono) (auto simp: dag_wf_def)
  show ?thesis unfolding round_inv_def
  proof (intro conjI)
    show "wx_state ex' = WsRunning" "wx_executors ex' = wx_executors ex0" using st old by simp_all
    show "dom (wx_task_outputs ex') \<subseteq> dom (wx_task_outputs ex0) \<union> wx_completed_tasks ex'"
      unfolding completed using outs(2) old(3) by blast
    show "dom (wx_task_outputs ex0) \<subseteq> dom (wx_task_outputs ex')" using outs(1) old(4) by blast
    show "\<forall>t n. td_nodes dag t = Some n \<and> t \<in> wx_completed_tasks ex' \<and> t \<notin> wx_completed_tasks ex0 \<and>
        tn_failure_strategy n \<noteq> FsContinueOnError \<longrightarrow> t \<in> dom (wx_task_outputs ex')"
    proof (intro allI impI, elim conjE)
      fix t n assume tn: "td_nodes dag t = Some n" "t \<in> wx_completed_tasks ex'" "t \<notin> wx_completed_tasks ex0"
        "tn_failure_strategy n \<noteq> FsContinueOnError"
      show "t \<in> dom (wx_task_outputs ex')"
      proof (cases "t \<in> wx_completed_tasks ex")
        case True
        then have "t \<in> dom (wx_task_outputs ex)" using old(5) tn by blast
        then show ?thesis using outs(1) by blast
      next
        case False
        then obtain n' where "n' \<in> set ready" "tn_id n' = t" using tn(2) completed by blast
        then show ?thesis using nodes [of n'] tn(1,4) new [of n'] by auto
      qed
    qed
    show "checkpoint_count (save_round env ex' store) (en_execution_id env) + card (dom (td_nodes dag) - wx_completed_tasks ex')
       \<le> checkpoint_count store0 (en_execution_id env) + card (dom (td_nodes dag) - wx_completed_tasks ex0)"
      using fewer old(6) by (simp add: save_round_count)
  qed (use load_latest_save_round in blast)
qed

text \<open>The result of the loop, for any property \<open>good\<close> that rounds keep beside the invariant.\<close>

lemma execute_rounds_result:
  fixes env :: "'v wf_env"
  assumes wf: "dag_wf dag" "good_iter (en_iter env)" and running: "wx_state ex = WsRunning"
    and err: "\<And>ready ex1 store1 ex' e. round_inv env dag ex store ex1 store1 \<Longrightarrow>
       ready = ready_tasks (en_iter env) dag (wx_completed_tasks ex1) \<Longrightarrow>
       run_round env job ready ex1 = (Inl e, ex') \<Longrightarrow> bad e ex' store1"
  shows "\<exists>res ex' store'. execute_rounds env job dag ex store = Some (res, ex', store') \<and>
     (case res of
        Inl e \<Rightarrow> bad e ex' store'
      | Inr _ \<Rightarrow> \<exists>ex0. round_inv env dag ex store ex0 store' \<and> ex' = ex0\<lparr>wx_state := WsCompleted\<rparr> \<and>
          ready_tasks (en_iter env) dag (wx_completed_tasks ex0) = [])"
proof (rule exec.loop_result [where good = "round_inv env dag ex store", OF wf])
  show "round_inv env dag ex store ex store" using running by (auto simp: round_inv_def)
qed (use round_inv_step [OF wf] err in blast)+

lemma validated:
  assumes "dag_wf dag" "good_iter iter" "dag_validate iter dag = Some (Inr u)"
    and "ready_tasks iter dag completed = []"
  shows "dom (td_nodes dag) \<subseteq> completed"
proof -
  have "dag_validate iter dag = Some (Inr ())" using assms(3) by simp
  then show ?thesis using dag_validate_spec [OF assms(1,2)] none_ready_all_completed [OF assms(1,2,4)] by blast
qed

text \<open>The result of an execution, for any \<open>bad\<close> that a failing round establishes.\<close>

lemma wf_execute_result:
  fixes env :: "'v wf_env"
  assumes wf: "dag_wf dag" "good_iter (en_iter env)"
    and err: "\<And>ready ex1 store1 ex' e. round_inv env dag (ex\<lparr>wx_state := WsRunning\<rparr>) store ex1 store1 \<Longrightarrow>
       ready = ready_tasks (en_iter env) dag (wx_completed_tasks ex1) \<Longrightarrow>
       run_round env job ready ex1 = (Inl e, ex') \<Longrightarrow> bad e ex' store1"
  shows "\<exists>res ex' store'. wf_execute env job dag ex store = Some (res, ex', store') \<and>
     (case res of
        Inl e \<Rightarrow> bad e ex' store' \<or>
          ((\<exists>m. e = WeDagInvalid m) \<or> (\<exists>m. e = WeInvalidConfig m)) \<and> ex' = ex \<and> store' = store
      | Inr _ \<Rightarrow> \<exists>ex0. round_inv env dag (ex\<lparr>wx_state := WsRunning\<rparr>) store ex0 store' \<and>
          ex' = ex0\<lparr>wx_state := WsCompleted\<rparr> \<and> dom (td_nodes dag) \<subseteq> wx_completed_tasks ex0)"
proof -
  let ?ex = "ex\<lparr>wx_state := WsRunning\<rparr>"
  obtain v where v: "dag_validate (en_iter env) dag = Some v" using dag_validate_total [OF wf] by blast
  show ?thesis
  proof (cases "is_ok v \<and> ec_max_concurrent_tasks (wx_config ex) \<noteq> 0")
    case False
    then show ?thesis by (auto simp: wf_execute_def v is_ok_def split: sum.splits)
  next
    case True
    then obtain u where u: "v = Inr u" by (cases v) auto
    note complete = validated [OF wf v [unfolded u]]
    have run: "wf_execute env job dag ex store = execute_rounds env job dag ?ex store"
      using True by (simp add: wf_execute_def v u)
    have "\<exists>res ex' store'. execute_rounds env job dag ?ex store = Some (res, ex', store') \<and>
       (case res of
          Inl e \<Rightarrow> bad e ex' store'
        | Inr _ \<Rightarrow> \<exists>ex0. round_inv env dag ?ex store ex0 store' \<and> ex' = ex0\<lparr>wx_state := WsCompleted\<rparr> \<and>
            ready_tasks (en_iter env) dag (wx_completed_tasks ex0) = [])"
      by (rule execute_rounds_result [OF wf _ err]) simp_all
    then show ?thesis unfolding run using complete by (force split: sum.splits)
  qed
qed

lemma round_inv_count:
  assumes "dag_wf dag" "round_inv env dag ex0 store0 ex store"
  shows "checkpoint_count store (en_execution_id env)
     \<le> checkpoint_count store0 (en_execution_id env) + card (dom (td_nodes dag))"
proof -
  have "card (dom (td_nodes dag) - wx_completed_tasks ex0) \<le> card (dom (td_nodes dag))"
    using assms(1) by (intro card_mono) (auto simp: dag_wf_def)
  then show ?thesis using assms(2) by (simp add: round_inv_def)
qed

lemma round_inv_output:
  assumes "round_inv env dag ex0 store0 ex store" "td_nodes dag t = Some n" "t \<in> wx_completed_tasks ex"
    and "tn_failure_strategy n \<noteq> FsContinueOnError"
    and old: "t \<in> wx_completed_tasks ex0 \<Longrightarrow> t \<in> dom (wx_task_outputs ex0)"
  shows "t \<in> dom (wx_task_outputs ex)"
proof (cases "t \<in> wx_completed_tasks ex0")
  case True
  moreover have "dom (wx_task_outputs ex0) \<subseteq> dom (wx_task_outputs ex)"
    using assms(1) unfolding round_inv_def by (elim conjE)
  ultimately show ?thesis using old by blast
next
  case False
  moreover have "\<forall>t n. td_nodes dag t = Some n \<and> t \<in> wx_completed_tasks ex \<and> t \<notin> wx_completed_tasks ex0 \<and>
        tn_failure_strategy n \<noteq> FsContinueOnError \<longrightarrow> t \<in> dom (wx_task_outputs ex)"
    using assms(1) unfolding round_inv_def by (elim conjE)
  ultimately show ?thesis using assms(2-4) by blast
qed

section \<open>Properties\<close>

text \<open>C8: Executing a workflow always ends, after at most one round for each task.  When it succeeds,
  every task is completed and has an output, unless its failure was to be passed over
  (ContinueOnError).  When it fails, nothing was started (an invalid graph or configuration), or a
  task failed and the state is Failed, or the error came from dispatching and the executor is left
  in the state Running.\<close>

theorem execution_ends:
  assumes "good_iter (en_iter env)"
  shows "\<exists>res ex' store'. wf_execute env job (build ns) ex store = Some (res, ex', store') \<and>
     checkpoint_count store' (en_execution_id env)
       \<le> checkpoint_count store (en_execution_id env) + card (dom (td_nodes (build ns))) \<and>
     (case res of
        Inr _ \<Rightarrow> wx_state ex' = WsCompleted \<and> dom (td_nodes (build ns)) \<subseteq> wx_completed_tasks ex' \<and>
          (\<forall>t n. td_nodes (build ns) t = Some n \<and> t \<notin> wx_completed_tasks ex \<and>
             tn_failure_strategy n \<noteq> FsContinueOnError \<longrightarrow> wx_task_outputs ex' t \<noteq> None)
      | Inl (WeDagInvalid _) \<Rightarrow> ex' = ex
      | Inl (WeInvalidConfig _) \<Rightarrow> ex' = ex
      | Inl (WeTaskFailed _ _) \<Rightarrow> wx_state ex' = WsFailed
      | Inl _ \<Rightarrow> wx_state ex' = WsRunning)"
proof -
  let ?dag = "build ns" let ?ex = "ex\<lparr>wx_state := WsRunning\<rparr>"
  let ?count = "\<lambda>store'. checkpoint_count store' (en_execution_id env)
     \<le> checkpoint_count store (en_execution_id env) + card (dom (td_nodes ?dag))"
  let ?bad = "\<lambda>e ex' store'. ?count store' \<and>
     ((\<exists>t m. e = WeTaskFailed t m) \<and> wx_state ex' = WsFailed \<or>
      ((\<exists>t m. e = WeInputResolution t m) \<or> (\<exists>t. e = WeNoExecutor t) \<or> (\<exists>m. e = WeTaskPanicked m)) \<and>
        wx_state ex' = WsRunning)"
  note wf = dag_wf_build [of ns]
  have bad: "?bad e ex' store1"
    if "round_inv env ?dag ?ex store ex1 store1" "ready = ready_tasks (en_iter env) ?dag (wx_completed_tasks ex1)"
      "run_round env job ready ex1 = (Inl e, ex')" for ready ex1 store1 e ex'
    using run_round_err_state [OF that(3)] round_inv_count [OF wf that(1)] that(1) by (simp add: round_inv_def)
  let ?post = "\<lambda>res ex' store'. case res of
        Inl e \<Rightarrow> ?bad e ex' store' \<or>
          ((\<exists>m. e = WeDagInvalid m) \<or> (\<exists>m. e = WeInvalidConfig m)) \<and> ex' = ex \<and> store' = store
      | Inr _ \<Rightarrow> \<exists>ex0. round_inv env ?dag ?ex store ex0 store' \<and>
          ex' = ex0\<lparr>wx_state := WsCompleted\<rparr> \<and> dom (td_nodes ?dag) \<subseteq> wx_completed_tasks ex0"
  have "\<exists>res ex' store'. wf_execute env job ?dag ex store = Some (res, ex', store') \<and> ?post res ex' store'"
    by (rule wf_execute_result [where bad = ?bad, OF wf assms bad]) assumption+
  then obtain res ex' store' where res: "wf_execute env job ?dag ex store = Some (res, ex', store')"
    and post: "?post res ex' store'" by (elim exE conjE)
  show ?thesis
  proof (cases res)
    case (Inl e)
    then show ?thesis using post by (auto simp: res)
  next
    case (Inr u)
    then obtain ex0 where ex0: "round_inv env ?dag ?ex store ex0 store'" "ex' = ex0\<lparr>wx_state := WsCompleted\<rparr>"
      "dom (td_nodes ?dag) \<subseteq> wx_completed_tasks ex0" using post by auto
    have "wx_task_outputs ex0 t \<noteq> None"
      if n: "td_nodes ?dag t = Some n" "t \<notin> wx_completed_tasks ex" "tn_failure_strategy n \<noteq> FsContinueOnError" for t n
    proof -
      have "t \<in> wx_completed_tasks ex0" using ex0(3) n(1) by auto
      then show ?thesis using round_inv_output [OF ex0(1) n(1) _ n(3)] n(2) by auto
    qed
    then show ?thesis using ex0(2,3) round_inv_count [OF wf ex0(1)] Inr by (auto simp: res)
  qed
qed


section \<open>Dispatching\<close>

lemma resolve_inputs_ok:
  "\<forall>(name, m) \<in> set ms. is_ok (resolve_input js wi to ctx m) \<Longrightarrow> is_ok (resolve_inputs js wi to ctx ms r)"
  by (induction ms arbitrary: r) (auto simp: is_ok_iff)

text \<open>A workflow whose mappings only read the inputs it is given and the outputs of direct
  dependencies, whose tasks all have an executor, and none of whose failures are passed over.\<close>

definition mapping_ok :: "'v wf_job \<Rightarrow> 'v task_dag \<Rightarrow> string \<Rightarrow> 'v input_mapping \<Rightarrow> bool" where
  "mapping_ok job dag t m = (case m of
      ImWorkflowInput f \<Rightarrow> jb_inputs job f \<noteq> None
    | ImTaskOutput d _ \<Rightarrow> d \<in> set (deps dag t)
    | _ \<Rightarrow> True)"

definition well_mapped :: "'v wf_job \<Rightarrow> 'v task_dag \<Rightarrow> 'v task_executor list \<Rightarrow> bool" where
  "well_mapped job dag es \<longleftrightarrow>
     (\<forall>t ms. jb_input_mappings job t = Some ms \<longrightarrow> (\<forall>(name, m) \<in> set ms. mapping_ok job dag t m)) \<and>
     (\<forall>t n. td_nodes dag t = Some n \<longrightarrow>
        (\<exists>e \<in> set es. te_supports e (tn_task_type n)) \<and> tn_failure_strategy n \<noteq> FsContinueOnError)"

definition never_panics :: "'v task_executor \<Rightarrow> bool" where
  "never_panics e \<longleftrightarrow> (\<forall>t inputs ctx k m. te_execute e t inputs ctx k \<noteq> AtPanic m)"

lemma retry_loop_panic:
  "fst (retry_loop f retry mx ks last_err) = Inl m \<Longrightarrow> \<exists>k. f k = AtPanic m"
proof (induction ks arbitrary: last_err)
  case (Cons k ks)
  show ?case
  proof (cases "f k")
    case (AtErr e)
    obtain r s where rest: "retry_loop f retry mx ks (Some e) = (r, s)" by (cases "retry_loop f retry mx ks (Some e)")
    show ?thesis
    proof (cases "is_transient e \<and> k < mx \<and> retry \<noteq> None")
      case True
      then have "r = Inl m" using Cons.prems AtErr rest by auto
      then show ?thesis using Cons.IH [of "Some e"] rest by simp
    next
      case False
      then show ?thesis using Cons.prems AtErr by (auto split: if_splits)
    qed
  next
    case (AtPanic m')
    then show ?thesis using Cons.prems by auto
  qed (use Cons.prems in simp)
qed simp

lemma spawn_ok:
  assumes "well_mapped job dag (wx_executors ex)" "td_nodes dag (tn_id t) = Some t"
    and outs: "set (tn_dependencies t) \<subseteq> dom (wx_task_outputs ex)"
  shows "is_ok (spawn env job ex t)"
proof -
  have "\<exists>e \<in> set (wx_executors ex). te_supports e (tn_task_type t)" using assms(1,2) by (auto simp: well_mapped_def)
  then have "\<exists>e. List.find (\<lambda>e. te_supports e (tn_task_type t)) (wx_executors ex) = Some e"
    by (rule find_ex [THEN iffD1])
  then obtain e where e: "List.find (\<lambda>e. te_supports e (tn_task_type t)) (wx_executors ex) = Some e" ..
  have deps: "deps dag (tn_id t) = tn_dependencies t" using assms(2) by (simp add: deps_def)
  have one: "is_ok (resolve_input (en_json env) (jb_inputs job) (map_option to_output \<circ> wx_task_outputs ex) (wx_context ex) m)"
    if "mapping_ok job dag (tn_id t) m" for m
    using that outs by (cases m) (auto simp: mapping_ok_def resolve_input_def deps split: option.splits)
  have "is_ok (resolved_inputs env job ex t)"
  proof (cases "jb_input_mappings job (tn_id t)")
    case None
    then show ?thesis by (simp add: resolved_inputs_def)
  next
    case (Some ms)
    then have "\<forall>(name, m) \<in> set ms. mapping_ok job dag (tn_id t) m" using assms(1) by (simp add: well_mapped_def)
    then have "is_ok (resolve_inputs (en_json env) (jb_inputs job) (map_option to_output \<circ> wx_task_outputs ex)
        (wx_context ex) ms Map.empty)"
      using one by (intro resolve_inputs_ok) blast
    then show ?thesis by (auto simp: resolved_inputs_def Some map_error_def is_ok_iff)
  qed
  then show ?thesis by (auto simp: is_ok_iff spawn_def find_executor_def e)
qed

lemma spawn_panic:
  assumes "\<forall>e \<in> set (wx_executors ex). never_panics e" "spawn env job ex t = Inr (t', Inl m)"
  shows False
proof -
  obtain e inputs where e: "find_executor ex t = Inr e"
    and j: "fst (run_attempts (te_execute e t inputs (wx_context ex)) (tn_retry t)) = Inl m"
    using assms(2) by (auto simp: spawn_def and_then_Inr_iff)
  then have "e \<in> set (wx_executors ex)" by (auto simp: find_executor_def split: option.splits dest: find_Some_iff2)
  moreover have "\<exists>k. te_execute e t inputs (wx_context ex) k = AtPanic m"
    using j retry_loop_panic by (simp add: run_attempts_def)
  ultimately show False using assms(1) by (auto simp: never_panics_def)
qed

text \<open>C9: A workflow whose input mappings read only given inputs and outputs of direct
  dependencies, with an executor for every task type, executors that do not panic and no failure
  passed over by ContinueOnError, never stops in dispatching: its execution succeeds or a task of
  it fails.\<close>

theorem well_mapped_fails_only_by_tasks:
  assumes "good_iter (en_iter env)" and "well_mapped job (build ns) (wx_executors ex)"
    and "\<forall>e \<in> set (wx_executors ex). never_panics e"
    and "dag_validate (en_iter env) (build ns) = Some (Inr ())"
    and "ec_max_concurrent_tasks (wx_config ex) \<noteq> 0"
    and "wx_completed_tasks ex \<subseteq> dom (wx_task_outputs ex)"
  shows "\<exists>res ex' store'. wf_execute env job (build ns) ex store = Some (res, ex', store') \<and>
     (case res of Inr _ \<Rightarrow> True | Inl e \<Rightarrow> \<exists>t m. e = WeTaskFailed t m)"
proof -
  let ?dag = "build ns" let ?ex = "ex\<lparr>wx_state := WsRunning\<rparr>"
  note wf = dag_wf_build [of ns]
  have bad: "\<exists>t m. e = WeTaskFailed t m"
    if inv: "round_inv env ?dag ?ex store ex1 store1"
      and ready: "ready = ready_tasks (en_iter env) ?dag (wx_completed_tasks ex1)"
      and run: "run_round env job ready ex1 = (Inl e, ex')" for ready ex1 store1 ex' e
  proof -
    have es: "wx_executors ex1 = wx_executors ex" using inv by (simp add: round_inv_def)
    have outputs: "t \<in> dom (wx_task_outputs ex1)" if c: "t \<in> wx_completed_tasks ex1" and d: "t \<in> dom (td_nodes ?dag)" for t
    proof -
      obtain n where n: "td_nodes ?dag t = Some n" using d by auto
      then have "tn_failure_strategy n \<noteq> FsContinueOnError" using assms(2) by (auto simp: well_mapped_def)
      then show ?thesis using assms(6) by (intro round_inv_output [OF inv n c]) auto
    qed
    have closed: "set (deps ?dag t) \<subseteq> dom (td_nodes ?dag)" for t
      using dag_validate_spec [OF wf assms(1)] assms(4) by blast
    have ok: "is_ok (spawn env job ex1 t)" if "t \<in> set ready" for t
    proof -
      have t: "td_nodes ?dag (tn_id t) = Some t" "set (tn_dependencies t) \<subseteq> wx_completed_tasks ex1"
        using that set_ready_tasks [OF wf assms(1)] ready by auto
      then have "set (tn_dependencies t) \<subseteq> dom (td_nodes ?dag)" using closed [of "tn_id t"] by (simp add: deps_def)
      then have "set (tn_dependencies t) \<subseteq> dom (wx_task_outputs ex1)" using t(2) outputs by blast
      then show ?thesis using assms(2) t(1) es by (intro spawn_ok [where dag = ?dag]) simp_all
    qed
    from run_round_err [OF run] obtain hs where hs: "collect_results (spawn env job ex1) ready = Inr hs"
      and err: "settle_all env job hs ex1 = (Inl e, ex')" using ok by fastforce
    have "Inl m \<notin> snd ` set hs" for m
    proof
      assume "Inl m \<in> snd ` set hs"
      then obtain t' where "(t', Inl m) \<in> set hs" by force
      then obtain t where "spawn env job ex1 t = Inr (t', Inl m)" using collect_results_from [OF hs] by blast
      then show False using assms(3) es by (intro spawn_panic [of ex1]) simp_all
    qed
    then show ?thesis using settle_all_err [OF err] by blast
  qed
  have "wf_execute env job ?dag ex store = execute_rounds env job ?dag ?ex store"
    using assms(4,5) by (simp add: wf_execute_def)
  moreover have "\<exists>res ex' store'. execute_rounds env job ?dag ?ex store = Some (res, ex', store') \<and>
     (case res of
        Inl e \<Rightarrow> \<exists>t m. e = WeTaskFailed t m
      | Inr _ \<Rightarrow> \<exists>ex0. round_inv env ?dag ?ex store ex0 store' \<and> ex' = ex0\<lparr>wx_state := WsCompleted\<rparr> \<and>
          ready_tasks (en_iter env) ?dag (wx_completed_tasks ex0) = [])"
    by (rule execute_rounds_result [where bad = "\<lambda>e _ _. \<exists>t m. e = WeTaskFailed t m", OF wf assms(1) _ bad]) simp_all
  ultimately show ?thesis by (auto split: sum.splits)
qed

section \<open>Retries\<close>

lemma retry_loop_spec:
  assumes "retry_loop f retry mx [k ..< Suc mx] last_err = (r, sleeps)" "1 \<le> k" "k \<le> mx"
  shows "k + length sleeps \<le> mx \<and>
     (\<forall>i < length sleeps. \<exists>e cfg. f (k + i) = AtErr e \<and> is_transient e \<and> retry = Some cfg \<and>
        sleeps ! i = delay_for_attempt cfg (k + i)) \<and>
     (case f (k + length sleeps) of
        AtOk out \<Rightarrow> r = Inr (Inr out)
      | AtPanic m \<Rightarrow> r = Inl m
      | AtErr e \<Rightarrow> r = Inr (Inl e) \<and> (is_transient e \<and> retry \<noteq> None \<longrightarrow> k + length sleeps = mx))"
  using assms
proof (induction "mx - k" arbitrary: k last_err r sleeps)
  case 0
  then have "[k ..< Suc mx] = [mx]" "k = mx" by simp_all
  then show ?case using 0 by (auto simp: loop_exit_error_def split: attempt.splits)
next
  case (Suc n)
  then have ks: "[k ..< Suc mx] = k # [Suc k ..< Suc mx]" and lt: "k < mx"
    by (simp_all add: upt_conv_Cons)
  show ?case
  proof (cases "f k")
    case (AtErr e)
    show ?thesis
    proof (cases "is_transient e \<and> retry \<noteq> None")
      case True
      then obtain cfg where cfg: "retry = Some cfg" by auto
      obtain r' s' where rest: "retry_loop f retry mx [Suc k ..< Suc mx] (Some e) = (r', s')"
        by (cases "retry_loop f retry mx [Suc k ..< Suc mx] (Some e)")
      have now: "r = r'" "sleeps = delay_for_attempt cfg k # s'"
        using Suc.prems(1) rest AtErr True cfg lt unfolding ks by simp_all
      have ih: "Suc k + length s' \<le> mx \<and>
         (\<forall>i < length s'. \<exists>e cfg. f (Suc k + i) = AtErr e \<and> is_transient e \<and> retry = Some cfg \<and>
            s' ! i = delay_for_attempt cfg (Suc k + i)) \<and>
         (case f (Suc k + length s') of
            AtOk out \<Rightarrow> r' = Inr (Inr out)
          | AtPanic m \<Rightarrow> r' = Inl m
          | AtErr e \<Rightarrow> r' = Inr (Inl e) \<and> (is_transient e \<and> retry \<noteq> None \<longrightarrow> Suc k + length s' = mx))"
        using Suc.hyps(2) lt by (intro Suc.hyps(1) [OF _ rest]) simp_all
      have "\<exists>e cfg. f (k + i) = AtErr e \<and> is_transient e \<and> retry = Some cfg \<and>
         sleeps ! i = delay_for_attempt cfg (k + i)" if "i < length sleeps" for i
        using that ih AtErr True cfg by (cases i) (auto simp: now)
      then show ?thesis using ih by (simp add: now split: attempt.splits)
    next
      case False
      then have "r = Inr (Inl e)" "sleeps = []"
        using Suc.prems(1) AtErr unfolding ks by (auto simp: loop_exit_error_def split: if_splits)
      then show ?thesis using AtErr False lt by auto
    qed
  qed (use Suc.prems lt ks in auto)
qed

text \<open>A task is attempted until its first attempt that does not fail with a transient error,
  at most as often as its retry configuration says (once without one); before every further
  attempt it sleeps the delay configured for the attempt that failed, and its result is that of the
  last attempt.\<close>

theorem retries_follow_the_policy:
  assumes "run_attempts f retry = (r, sleeps)"
  shows "length sleeps < max_attempts_of retry \<and>
     (\<forall>i < length sleeps. \<exists>e cfg. f (Suc i) = AtErr e \<and> is_transient e \<and> retry = Some cfg \<and>
        sleeps ! i = delay_for_attempt cfg (Suc i)) \<and>
     (case f (Suc (length sleeps)) of
        AtOk out \<Rightarrow> r = Inr (Inr out)
      | AtPanic m \<Rightarrow> r = Inl m
      | AtErr e \<Rightarrow> r = Inr (Inl e) \<and>
          (is_transient e \<and> retry \<noteq> None \<longrightarrow> Suc (length sleeps) = max_attempts_of retry))"
proof -
  have "1 \<le> max_attempts_of retry" by (simp add: max_attempts_of_def split: option.split)
  then show ?thesis
    using retry_loop_spec [OF assms [unfolded run_attempts_def]] by (simp add: Suc_le_eq split: attempt.splits)
qed

text \<open>Two transient errors, then a result, under the default configuration.\<close>

definition flaky :: "nat \<Rightarrow> unit attempt" where
  "flaky k = (if k < 3 then AtErr (TeTimeout 9)
     else AtOk \<lparr>to_task_id = ''t'', to_output = (), to_completed_at = k\<rparr>)"

theorem retries_follow_the_policy_witness:
  "snd (run_attempts flaky (Some default_retry_config)) = [500, 1000] \<and>
   length (snd (run_attempts flaky (Some default_retry_config))) < 3"
proof -
  have r: "run_attempts flaky (Some default_retry_config) =
      (Inr (Inr \<lparr>to_task_id = ''t'', to_output = (), to_completed_at = 3\<rparr>), [500, 1000])"
    by (simp add: run_attempts_def max_attempts_of_def default_retry_config_def flaky_def upt_conv_Cons
        delay_for_attempt_def saturating_mul_def saturating_pow2_def u64_max_def)
  show ?thesis using retries_follow_the_policy [OF r] r by (simp add: max_attempts_of_def default_retry_config_def)
qed

section \<open>Recovery\<close>

text \<open>After a successful execution from a fresh executor, recovering from the latest checkpoint
  gives back exactly the outputs and the step number, and counts as completed exactly the tasks
  that have an output; the channels and artifacts are not restored, although the checkpoint holds
  every channel's value.\<close>

theorem recovery_restores_outputs_only:
  assumes "good_iter (en_iter env)" and "dom (td_nodes (build ns)) \<noteq> {}"
    and "wf_execute env job (build ns) ((executor_new cfg)\<lparr>wx_executors := es\<rparr>) store = Some (Inr (), ex', store')"
  shows "\<exists>cp. load_latest store' (en_execution_id env) = Some cp \<and>
     (let r = recover_from cp (executor_new cfg')
      in wx_task_outputs r = wx_task_outputs ex' \<and> wx_step_number r = wx_step_number ex' \<and>
         wx_completed_tasks r = dom (wx_task_outputs ex') \<and> wx_state r = WsRunning \<and>
         wx_context r = Map.empty \<and> wx_artifacts r = Map.empty \<and>
         (\<forall>name. map_option cs_value (wc_committed_channels cp name) = ctx_read (wx_context ex') name))"
proof -
  let ?dag = "build ns" let ?ex = "(executor_new cfg)\<lparr>wx_executors := es\<rparr>"
  note wf = dag_wf_build [of ns]
  have "\<exists>res ex' store'. wf_execute env job ?dag ?ex store = Some (res, ex', store') \<and>
     (case res of
        Inl e \<Rightarrow> True \<or> ((\<exists>m. e = WeDagInvalid m) \<or> (\<exists>m. e = WeInvalidConfig m)) \<and> ex' = ?ex \<and> store' = store
      | Inr _ \<Rightarrow> \<exists>ex0. round_inv env ?dag (?ex\<lparr>wx_state := WsRunning\<rparr>) store ex0 store' \<and>
          ex' = ex0\<lparr>wx_state := WsCompleted\<rparr> \<and> dom (td_nodes ?dag) \<subseteq> wx_completed_tasks ex0)"
    by (rule wf_execute_result [where bad = "\<lambda>_ _ _. True", OF wf assms(1)]) simp
  then obtain ex0 where ex0: "round_inv env ?dag (?ex\<lparr>wx_state := WsRunning\<rparr>) store ex0 store'"
    "ex' = ex0\<lparr>wx_state := WsCompleted\<rparr>" "dom (td_nodes ?dag) \<subseteq> wx_completed_tasks ex0"
    using assms(3) by auto
  have "ex0 \<noteq> ?ex\<lparr>wx_state := WsRunning\<rparr>" using ex0(3) assms(2) by (auto simp: executor_new_def)
  then obtain now where "load_latest store' (en_execution_id env) = Some (create_checkpoint (en_execution_id env)
      (wx_step_number ex0) (snapshot_channels ex0) (wx_task_outputs ex0) now)"
    using ex0(1) unfolding round_inv_def by blast
  then show ?thesis
    by (simp add: ex0(2) recover_from_def create_checkpoint_def executor_new_def Let_def
        snapshot_channels_def ctx_read_def option.map_comp comp_def)
qed

section \<open>Interrupts\<close>

datatype 'v interrupt_op =
  IoRaise string string "'v workflow_interrupt" | IoResolve nat "'v resume_command"

fun interrupt_step :: "'v interrupt_op \<Rightarrow> 'v interrupt_state list \<Rightarrow> 'v interrupt_state list" where
  "interrupt_step (IoRaise e t i) is = snd (interrupt_raise e t i is)"
| "interrupt_step (IoResolve k c) is = snd (interrupt_resolve k c is)"

text \<open>A resolved interrupt never changes again.\<close>

lemma resolved_step:
  "k < length is \<Longrightarrow> is ! k = s \<Longrightarrow> is_resolved s \<Longrightarrow>
   k < length (interrupt_step op is) \<and> interrupt_step op is ! k = s"
  by (cases op) (auto simp: interrupt_raise_def interrupt_resolve_def nth_append nth_list_update)

interpretation resolved: machine "\<lambda>op is. Some (interrupt_step op is)" "\<lambda>_. True"
    "\<lambda>is. k < length is \<and> is ! k = s \<and> is_resolved s" for k and s :: "'v interrupt_state"
  by unfold_locales (auto simp: resolved_step)

lemma run_interrupts: "run_steps (\<lambda>op is. Some (interrupt_step op is)) ops is = Some (fold interrupt_step ops is)"
  by (induction ops arbitrary: "is") auto

lemma first_resume_command_wins:
  assumes "interrupt_resolve k c is = (True, is1)"
  shows "is_resume_command (fold interrupt_step ops is1 ! k) = Some c \<and>
     fst (interrupt_resolve k c' (fold interrupt_step ops is1)) = False"
proof -
  have k: "k < length is1 \<and> is1 ! k = is1 ! k \<and> is_resolved (is1 ! k)" "is_resume_command (is1 ! k) = Some c"
    using assms by (auto simp: interrupt_resolve_def split: if_splits)
  show ?thesis
    using resolved.run_inv [OF k(1) _ run_interrupts, of ops] k(2) by (simp add: interrupt_resolve_def)
qed

section \<open>A run\<close>

definition demo_env :: "jval wf_env" where
  "demo_env = \<lparr>en_json = jval_values, en_execution_id = ''exec-1'', en_artifact_from = (\<lambda>_. None),
     en_artifacts_json = (\<lambda>_. JNull), en_settled_at = (\<lambda>_. 0), en_saved_at = id,
     en_iter = sorted_list_of_set\<rparr>"

definition demo_job :: "jval wf_job" where
  "demo_job = \<lparr>jb_inputs = Map.empty,
     jb_input_mappings = [''b'' \<mapsto> [(''x'', ImTaskOutput ''a'' ''v''), (''y'', ImConstant JNull)]],
     jb_output_mappings = Map.empty\<rparr>"

definition echo_executor :: "jval task_executor" where
  "echo_executor = \<lparr>te_supports = (\<lambda>_. True),
     te_execute = (\<lambda>t inputs ctx k. AtOk \<lparr>to_task_id = tn_id t, to_output = JStr (tn_name t), to_completed_at = k\<rparr>)\<rparr>"

abbreviation demo_dag :: "jval task_dag" where
  "demo_dag \<equiv> build [demo_task ''a'' [], demo_task ''b'' [''a'']]"

abbreviation demo_executor :: "jval workflow_executor" where
  "demo_executor \<equiv> (executor_new default_execution_config)\<lparr>wx_executors := [echo_executor]\<rparr>"

lemma demo_env_simps [simp]:
  "en_json demo_env = jval_values" "en_execution_id demo_env = ''exec-1''" "en_artifact_from demo_env v = None"
  "en_iter demo_env = sorted_list_of_set"
  by (simp_all add: demo_env_def)

lemma demo_well_mapped: "well_mapped demo_job demo_dag [echo_executor]"
proof -
  have "tn_failure_strategy n \<noteq> FsContinueOnError" if "td_nodes demo_dag t = Some n" for t n
    using that by (auto simp: build_def add_step_def dag_add_task_def dag_new_def demo_task_def split: if_splits)
  then show ?thesis
    by (auto simp: well_mapped_def demo_job_def mapping_ok_def deps_two echo_executor_def split: if_splits)
qed

lemma echo_never_panics: "never_panics echo_executor"
  by (simp add: never_panics_def echo_executor_def)

text \<open>One task alone.\<close>

abbreviation one_task :: "jval task_dag" where
  "one_task \<equiv> build [demo_task ''a'' []]"

lemma one_task_eq: "td_nodes one_task = [''a'' \<mapsto> demo_task ''a'' []]"
  by (simp add: build_def add_step_def dag_add_task_def dag_new_def demo_task_def)

lemma demo_task_sel [simp]:
  "tn_id (demo_task i ds) = i" "tn_name (demo_task i ds) = i" "tn_retry (demo_task i ds) = None"
  "tn_dependencies (demo_task i ds) = ds"
  by (simp_all add: demo_task_def)

lemma one_task_ready: "ready_tasks sorted_list_of_set one_task C = (if ''a'' \<in> C then [] else [demo_task ''a'' []])"
  by (simp add: ready_tasks_def one_task_eq)

lemma one_task_valid: "dag_validate sorted_list_of_set one_task = Some (Inr ())"
proof -
  have "deps one_task n = []" for n by (simp add: deps_def one_task_eq)
  then show ?thesis unfolding dag_validate_spec [OF dag_wf_build good_iter_sorted] by (simp add: edges_def acyclic_def)
qed

lemma echo_attempts:
  "fst (run_attempts (te_execute echo_executor t inputs ctx) None) =
     Inr (Inr \<lparr>to_task_id = tn_id t, to_output = JStr (tn_name t), to_completed_at = 1\<rparr>)"
  by (simp add: run_attempts_def max_attempts_of_def echo_executor_def)

lemma one_task_run:
  "\<exists>ex' store'. wf_execute demo_env demo_job one_task demo_executor Map.empty = Some (Inr (), ex', store') \<and>
     wx_task_outputs ex' = [''a'' \<mapsto> \<lparr>to_task_id = ''a'', to_output = JStr ''a'', to_completed_at = 1\<rparr>]"
proof -
  let ?out = "\<lparr>to_task_id = ''a'', to_output = JStr ''a'', to_completed_at = 1\<rparr>"
  let ?ex = "demo_executor\<lparr>wx_state := WsRunning\<rparr>"
  have init: "wx_completed_tasks ?ex = {}" "wx_executors ?ex = [echo_executor]" "ec_rigor (wx_config ?ex) = RigorLight"
    "ec_max_concurrent_tasks (wx_config demo_executor) \<noteq> 0" "wx_task_outputs ?ex = Map.empty" "wx_artifacts ?ex = Map.empty"
    by (simp_all add: executor_new_def default_execution_config_def)
  have spawn: "spawn demo_env demo_job ?ex (demo_task ''a'' []) = Inr (demo_task ''a'' [], Inr (Inr ?out))"
    unfolding spawn_def resolved_inputs_def find_executor_def init
    by (simp add: echo_attempts demo_job_def) (simp add: echo_executor_def)
  have accepted: "accepted demo_env RigorLight (demo_task ''a'' []) (Inr ?out) = Inr (?out, None)"
    by (simp add: accepted_def validate_completion_def artifact_from_output_def jv_get_def)
  let ?ex1 = "complete_task demo_env demo_job ''a'' ?out None ?ex"
  have "settle demo_env demo_job (demo_task ''a'' [], Inr (Inr ?out)) ?ex = (Inr (), ?ex1)"
    unfolding settle_def prod.case sum.case init(3) accepted demo_task_sel by (rule refl)
  then have round: "run_round demo_env demo_job [demo_task ''a'' []] ?ex = (Inr (), ?ex1)"
    by (simp only: run_round_def spawn collect_results.simps and_then_simps sum.case settle_all.simps prod.case)
  have "wx_completed_tasks ?ex1 = {''a''}" "wx_task_outputs ?ex1 = [''a'' \<mapsto> ?out]"
    using init by (simp_all add: complete_task_def Let_def)
  then obtain ex1 where round: "run_round demo_env demo_job [demo_task ''a'' []] ?ex = (Inr (), ex1)"
    and ex1: "wx_completed_tasks ex1 = {''a''}" "wx_task_outputs ex1 = [''a'' \<mapsto> ?out]"
    using round by blast
  have "execute_rounds demo_env demo_job one_task ?ex Map.empty =
      Some (Inr (), ex1\<lparr>wx_state := WsCompleted\<rparr>, save_round demo_env ex1 Map.empty)"
    by (subst execute_rounds.simps, subst execute_rounds.simps)
      (simp add: one_task_ready init(1) round ex1 Let_def)
  moreover have "wf_execute demo_env demo_job one_task demo_executor Map.empty =
      execute_rounds demo_env demo_job one_task ?ex Map.empty"
    using init(4) by (simp add: wf_execute_def one_task_valid)
  ultimately show ?thesis using ex1 by simp
qed

theorem recovery_restores_outputs_only_witness:
  "\<exists>cp store'. load_latest (store' :: jval checkpoint_store) ''exec-1'' = Some cp \<and>
     wx_completed_tasks (recover_from cp (executor_new default_execution_config)) = {''a''}"
proof -
  obtain ex' store' where run: "wf_execute demo_env demo_job one_task demo_executor Map.empty = Some (Inr (), ex', store')"
    and out: "wx_task_outputs ex' = [''a'' \<mapsto> \<lparr>to_task_id = ''a'', to_output = JStr ''a'', to_completed_at = 1\<rparr>]"
    using one_task_run by blast
  have nodes: "dom (td_nodes one_task) \<noteq> {}" by (simp add: one_task_eq)
  have iter: "good_iter (en_iter demo_env)" by (simp add: good_iter_sorted)
  obtain cp where "load_latest store' (en_execution_id demo_env) = Some cp"
    "wx_completed_tasks (recover_from cp (executor_new default_execution_config)) = dom (wx_task_outputs ex')"
    using recovery_restores_outputs_only [OF iter nodes run, where cfg' = default_execution_config]
    unfolding Let_def by blast
  then show ?thesis using out by (intro exI [of _ cp] exI [of _ store']) simp
qed

theorem execution_ends_witness:
  "\<exists>res ex' store'. wf_execute demo_env demo_job demo_dag demo_executor Map.empty = Some (res, ex', store') \<and>
     checkpoint_count store' ''exec-1'' \<le> 2"
  using execution_ends [of demo_env demo_job "[demo_task ''a'' [], demo_task ''b'' [''a'']]" demo_executor Map.empty]
  by (auto simp: good_iter_sorted nodes_two checkpoint_count_def)

theorem well_mapped_fails_only_by_tasks_witness:
  "\<exists>res ex' store'. wf_execute demo_env demo_job demo_dag demo_executor Map.empty = Some (res, ex', store') \<and>
     (case res of Inr _ \<Rightarrow> True | Inl e \<Rightarrow> \<exists>t m. e = WeTaskFailed t m)"
  by (rule well_mapped_fails_only_by_tasks)
    (simp_all add: good_iter_sorted demo_well_mapped echo_never_panics two_valid executor_new_def default_execution_config_def)

end
