(* ===== verification/WorkflowDsl.thy ===== *)
theory WorkflowDsl
  imports Dag
begin

text \<open>
  The shorthand syntax of workflows (\<open>y-agent/src/orchestrator/expression_dsl.rs\<close>): the
  tokenizer, the recursive descent parser, the printer and the compilation to a task
  graph, with the expansion of templates.

  The parser's functions call each other, so the model gives them fuel: one unit for each
  nested parenthesis and each round of a loop, and one unit more than there are tokens is
  always enough.  The result \<open>None\<close> is exhausted fuel.
\<close>

section \<open>Tokens\<close>

datatype dsl_token = DtTaskRef string | DtSequential | DtParallel | DtLeftParen | DtRightParen

datatype dsl_workflow =
  DwTask string | DwSequential "dsl_workflow list" | DwParallel "dsl_workflow list"

datatype dsl_error =
  DlUnexpectedChar char nat
| DlUnexpectedEnd nat
| DlUnexpectedToken dsl_token nat
| DlMismatchedParens nat
| DlEmptyExpression
| DlDuplicateTaskName string
| DlInvalidTemplateValue string string
| DlDagError dag_error

definition dsl_alnum :: "char \<Rightarrow> bool" where
  "dsl_alnum c = (let n = (of_char c :: nat)
     in (48 \<le> n \<and> n \<le> 57) \<or> (65 \<le> n \<and> n \<le> 90) \<or> (97 \<le> n \<and> n \<le> 122))"

definition dsl_name_char :: "char \<Rightarrow> bool" where
  "dsl_name_char c \<longleftrightarrow> dsl_alnum c \<or> c = CHR ''_'' \<or> c = CHR ''-''"

definition dsl_blank :: "char \<Rightarrow> bool" where
  "dsl_blank c \<longleftrightarrow> c = CHR '' '' \<or> c = CHR 0x09 \<or> c = CHR 0x0A \<or> c = CHR 0x0D"

definition push_token :: "dsl_token \<times> nat \<Rightarrow> dsl_error + (dsl_token \<times> nat) list \<Rightarrow> dsl_error + (dsl_token \<times> nat) list" where
  "push_token t r = and_then r (\<lambda>ts. Inr (t # ts))"

text \<open>The rest of the input from position \<open>i\<close>; positions before a character that is not
  ASCII are the same in bytes and in characters.\<close>

function dsl_tokenize :: "nat \<Rightarrow> string \<Rightarrow> dsl_error + (dsl_token \<times> nat) list" where
  "dsl_tokenize i [] = Inr []"
| "dsl_tokenize i (c # cs) =
     (if dsl_blank c then dsl_tokenize (i + 1) cs
      else if c = CHR ''('' then push_token (DtLeftParen, i) (dsl_tokenize (i + 1) cs)
      else if c = CHR '')'' then push_token (DtRightParen, i) (dsl_tokenize (i + 1) cs)
      else if c = CHR ''|'' then push_token (DtParallel, i) (dsl_tokenize (i + 1) cs)
      else if c = CHR ''>'' then
        (case cs of
           d # ds \<Rightarrow> if d = CHR ''>'' then push_token (DtSequential, i) (dsl_tokenize (i + 2) ds)
                    else Inl (DlUnexpectedChar c i)
         | [] \<Rightarrow> Inl (DlUnexpectedChar c i))
      else if dsl_name_char c then
        push_token (DtTaskRef (c # takeWhile dsl_name_char cs), i)
          (dsl_tokenize (i + 1 + length (takeWhile dsl_name_char cs)) (dropWhile dsl_name_char cs))
      else Inl (DlUnexpectedChar c i))"
  by pat_completeness auto
termination by (relation "measure (\<lambda>(i, s). length s)") (auto simp: less_Suc_eq_le length_dropWhile_le)

section \<open>The parser\<close>

type_synonym dsl_tokens = "(dsl_token \<times> nat) list"
type_synonym 'a parsed = "(dsl_error + 'a \<times> dsl_tokens) option"

definition bind_parsed :: "'a parsed \<Rightarrow> ('a \<Rightarrow> dsl_tokens \<Rightarrow> 'b parsed) \<Rightarrow> 'b parsed" where
  "bind_parsed p f = (case p of
      None \<Rightarrow> None | Some (Inl e) \<Rightarrow> Some (Inl e) | Some (Inr (x, ts)) \<Rightarrow> f x ts)"

definition peek_is :: "dsl_token \<Rightarrow> dsl_tokens \<Rightarrow> bool" where
  "peek_is t ts = (case ts of [] \<Rightarrow> False | (t', _) # _ \<Rightarrow> t' = t)"

definition input_len :: "dsl_tokens \<Rightarrow> nat" where
  "input_len ts = (if ts = [] then 0 else snd (last ts) + 1)"

definition mk_sequential :: "dsl_workflow list \<Rightarrow> dsl_workflow" where
  "mk_sequential ps = (if length ps = 1 then hd ps else DwSequential ps)"

definition mk_parallel :: "dsl_workflow list \<Rightarrow> dsl_workflow" where
  "mk_parallel ps = (if length ps = 1 then hd ps else DwParallel ps)"

definition close_paren :: "nat \<Rightarrow> dsl_workflow \<Rightarrow> dsl_tokens \<Rightarrow> dsl_workflow parsed" where
  "close_paren n inner ts = (case ts of
      [] \<Rightarrow> Some (Inl (DlMismatchedParens n))
    | (t, pos) # us \<Rightarrow>
        if t = DtRightParen then Some (Inr (inner, us)) else Some (Inl (DlMismatchedParens pos)))"

text \<open>
  \<open>parse_expr\<close> and \<open>parse_parallel\<close> are one loop with two operators: an item, and while
  the next token is the operator, another item.  The parser of the primaries is their
  parameter, which is how the recursion of the three functions is written here; \<open>n\<close> is
  the input length for errors at the end of the input.
\<close>

fun op_loop ::
  "dsl_token \<Rightarrow> (dsl_tokens \<Rightarrow> dsl_workflow parsed) \<Rightarrow> nat \<Rightarrow> dsl_tokens \<Rightarrow> dsl_workflow list parsed" where
  "op_loop t item 0 ts = None"
| "op_loop t item (Suc k) ts =
     (if peek_is t ts then
        bind_parsed (item (tl ts)) (\<lambda>p ts.
        bind_parsed (op_loop t item k ts) (\<lambda>ps ts. Some (Inr (p # ps, ts))))
      else Some (Inr ([], ts)))"

definition parse_items ::
  "dsl_token \<Rightarrow> (dsl_workflow list \<Rightarrow> dsl_workflow) \<Rightarrow> (dsl_tokens \<Rightarrow> dsl_workflow parsed) \<Rightarrow> nat \<Rightarrow>
     dsl_tokens \<Rightarrow> dsl_workflow parsed" where
  "parse_items t mk item k ts =
     bind_parsed (item ts) (\<lambda>p ts.
     bind_parsed (op_loop t item k ts) (\<lambda>ps ts. Some (Inr (mk (p # ps), ts))))"

definition parse_parallel :: "(dsl_tokens \<Rightarrow> dsl_workflow parsed) \<Rightarrow> nat \<Rightarrow> dsl_tokens \<Rightarrow> dsl_workflow parsed" where
  "parse_parallel primary k = parse_items DtParallel mk_parallel primary k"

definition parse_expr :: "(dsl_tokens \<Rightarrow> dsl_workflow parsed) \<Rightarrow> nat \<Rightarrow> dsl_tokens \<Rightarrow> dsl_workflow parsed" where
  "parse_expr primary k = parse_items DtSequential mk_sequential (parse_parallel primary k) k"

fun parse_primary :: "nat \<Rightarrow> nat \<Rightarrow> dsl_tokens \<Rightarrow> dsl_workflow parsed" where
  "parse_primary n 0 ts = None"
| "parse_primary n (Suc k) ts =
     (case ts of
        [] \<Rightarrow> Some (Inl (DlUnexpectedEnd n))
      | (t, pos) # us \<Rightarrow>
          (case t of
             DtTaskRef name \<Rightarrow> Some (Inr (DwTask name, us))
           | DtLeftParen \<Rightarrow> bind_parsed (parse_expr (parse_primary n k) k us) (close_paren n)
           | _ \<Rightarrow> Some (Inl (DlUnexpectedToken t pos))))"

definition parse_fuel :: "dsl_tokens \<Rightarrow> nat" where
  "parse_fuel ts = Suc (length ts)"

definition dsl_parse :: "string \<Rightarrow> (dsl_error + dsl_workflow) option" where
  "dsl_parse input =
     (case dsl_tokenize 0 input of
        Inl e \<Rightarrow> Some (Inl e)
      | Inr tokens \<Rightarrow>
          if tokens = [] then Some (Inl DlEmptyExpression)
          else case parse_expr (parse_primary (input_len tokens) (parse_fuel tokens)) (parse_fuel tokens) tokens of
                 None \<Rightarrow> None
               | Some (Inl e) \<Rightarrow> Some (Inl e)
               | Some (Inr (result, [])) \<Rightarrow> Some (Inr result)
               | Some (Inr (result, (t, pos) # _)) \<Rightarrow> Some (Inl (DlUnexpectedToken t pos)))"

section \<open>The printer\<close>

fun is_parallel :: "dsl_workflow \<Rightarrow> bool" where
  "is_parallel (DwParallel _) = True"
| "is_parallel _ = False"

fun dsl_display :: "dsl_workflow \<Rightarrow> string" where
  "dsl_display (DwTask name) = name"
| "dsl_display (DwSequential steps) =
     str_join '' >> '' (map (\<lambda>s. if is_parallel s then ''('' @ dsl_display s @ '')'' else dsl_display s) steps)"
| "dsl_display (DwParallel branches) = str_join '' | '' (map dsl_display branches)"

section \<open>Compilation\<close>

definition dsl_task :: "string \<Rightarrow> string list \<Rightarrow> 'v task_node" where
  "dsl_task name ds =
     \<lparr>tn_id = name, tn_name = name, tn_priority = TpNormal, tn_dependencies = ds,
      tn_task_type = TtNoop, tn_node_kind = NkUnspecified, tn_timeout_ms = None, tn_retry = None,
      tn_failure_strategy = FsFailFast\<rparr>"

text \<open>The graph is threaded through; the second component are the ids of the tail tasks.\<close>

fun dsl_compile :: "dsl_workflow \<Rightarrow> 'v task_dag \<Rightarrow> string list \<Rightarrow> dsl_error + 'v task_dag \<times> string list"
and compile_steps :: "dsl_workflow list \<Rightarrow> 'v task_dag \<Rightarrow> string list \<Rightarrow> dsl_error + 'v task_dag \<times> string list"
and compile_branches ::
    "dsl_workflow list \<Rightarrow> 'v task_dag \<Rightarrow> string list \<Rightarrow> dsl_error + 'v task_dag \<times> string list" where
  "dsl_compile (DwTask name) dag ds =
     (case dag_add_task dag (dsl_task name ds) of Inl e \<Rightarrow> Inl (DlDagError e) | Inr dag' \<Rightarrow> Inr (dag', [name]))"
| "dsl_compile (DwSequential steps) dag ds = compile_steps steps dag ds"
| "dsl_compile (DwParallel branches) dag ds = compile_branches branches dag ds"
| "compile_steps [] dag ds = Inr (dag, ds)"
| "compile_steps (s # ss) dag ds = and_then (dsl_compile s dag ds) (\<lambda>(dag', tails). compile_steps ss dag' tails)"
| "compile_branches [] dag ds = Inr (dag, [])"
| "compile_branches (b # bs) dag ds =
     and_then (dsl_compile b dag ds) (\<lambda>(dag', tails).
     and_then (compile_branches bs dag' ds) (\<lambda>(dag'', rest). Inr (dag'', tails @ rest)))"

definition to_task_dag :: "dsl_workflow \<Rightarrow> dsl_error + 'v task_dag" where
  "to_task_dag w = and_then (dsl_compile w dag_new []) (\<lambda>(dag, _). Inr dag)"

section \<open>Templates\<close>

definition is_valid_task_name :: "string \<Rightarrow> bool" where
  "is_valid_task_name s \<longleftrightarrow> s \<noteq> [] \<and> list_all dsl_name_char s"

text \<open>\<open>str::replace\<close> for a pattern that is not empty.\<close>

function str_replace :: "string \<Rightarrow> string \<Rightarrow> string \<Rightarrow> string" where
  "str_replace p v [] = []"
| "str_replace p v (c # cs) =
     (if p \<noteq> [] \<and> starts_with (c # cs) p then v @ str_replace p v (drop (length p) (c # cs))
      else c # str_replace p v cs)"
  by pat_completeness auto
termination by (relation "measure (\<lambda>(p, v, s). length s)") auto

text \<open>The variables in the iteration order of the hash map.\<close>

fun expand_template :: "string \<Rightarrow> (string \<times> string) list \<Rightarrow> dsl_error + string" where
  "expand_template result [] = Inr result"
| "expand_template result ((key, v) # vars) =
     (let placeholder = ''{{'' @ key @ ''}}''
      in if str_contains result placeholder \<and> \<not> is_valid_task_name v then Inl (DlInvalidTemplateValue key v)
         else expand_template (str_replace placeholder v result) vars)"

end
