(* ===== verification/WorkflowDslCorrect.thy ===== *)
theory WorkflowDslCorrect
  imports WorkflowDsl
begin

text \<open>
  The workflow expressions: the parser never runs out of fuel and accepts exactly the
  grammar of its comment, which printed expressions parse back, and what a compiled
  expression is.
\<close>

section \<open>The grammar\<close>

text \<open>\<open>expr = parallel (">>" parallel)*\<close>, \<open>parallel = primary ("|" primary)*\<close>,
  \<open>primary = TASK_REF | "(" expr ")"\<close>, over tokens with any positions.\<close>

inductive g_ops ::
  "dsl_token \<Rightarrow> (dsl_workflow \<Rightarrow> dsl_tokens \<Rightarrow> bool) \<Rightarrow> dsl_workflow list \<Rightarrow> dsl_tokens \<Rightarrow> bool"
  for t :: dsl_token and G :: "dsl_workflow \<Rightarrow> dsl_tokens \<Rightarrow> bool" where
  ops_none: "g_ops t G [] []"
| ops_more: "G w ts \<Longrightarrow> g_ops t G ws us \<Longrightarrow> g_ops t G (w # ws) ((t, p) # ts @ us)"

lemma g_ops_mono [mono]:
  assumes "\<And>w ts. G w ts \<longrightarrow> H w ts"
  shows "g_ops t G ws us \<longrightarrow> g_ops t H ws us"
proof
  assume "g_ops t G ws us"
  then show "g_ops t H ws us" by induction (auto intro: g_ops.intros assms [rule_format])
qed

definition g_items ::
  "dsl_token \<Rightarrow> (dsl_workflow list \<Rightarrow> dsl_workflow) \<Rightarrow> (dsl_workflow \<Rightarrow> dsl_tokens \<Rightarrow> bool) \<Rightarrow>
     dsl_workflow \<Rightarrow> dsl_tokens \<Rightarrow> bool" where
  "g_items t mk G w us \<longleftrightarrow> (\<exists>x xs ts vs. w = mk (x # xs) \<and> us = ts @ vs \<and> G x ts \<and> g_ops t G xs vs)"

lemma g_items_mono [mono]:
  assumes "\<And>w ts. G w ts \<longrightarrow> H w ts"
  shows "g_items t mk G w us \<longrightarrow> g_items t mk H w us"
proof
  assume "g_items t mk G w us"
  then obtain x xs ts vs where "w = mk (x # xs)" "us = ts @ vs" "G x ts" "g_ops t G xs vs"
    unfolding g_items_def by (elim exE conjE)
  moreover from this have "H x ts" "g_ops t H xs vs" using assms g_ops_mono [OF assms] by simp_all
  ultimately show "g_items t mk H w us" unfolding g_items_def by (intro exI conjI)
qed

inductive g_primary :: "dsl_workflow \<Rightarrow> dsl_tokens \<Rightarrow> bool" where
  prim_task: "g_primary (DwTask name) [(DtTaskRef name, p)]"
| prim_paren: "g_items DtSequential mk_sequential (g_items DtParallel mk_parallel g_primary) w ts \<Longrightarrow>
     g_primary w ((DtLeftParen, p) # ts @ [(DtRightParen, q)])"

definition g_parallel :: "dsl_workflow \<Rightarrow> dsl_tokens \<Rightarrow> bool" where
  "g_parallel = g_items DtParallel mk_parallel g_primary"

definition g_expr :: "dsl_workflow \<Rightarrow> dsl_tokens \<Rightarrow> bool" where
  "g_expr = g_items DtSequential mk_sequential g_parallel"

section \<open>The parser's monad\<close>

lemma bind_parsed_simps [simp]:
  "bind_parsed None f = None" "bind_parsed (Some (Inl e)) f = Some (Inl e)"
  "bind_parsed (Some (Inr (x, ts))) f = f x ts"
  by (simp_all add: bind_parsed_def)

lemma bind_parsed_Inr:
  "bind_parsed p f = Some (Inr (y, us)) \<longleftrightarrow> (\<exists>x ts. p = Some (Inr (x, ts)) \<and> f x ts = Some (Inr (y, us)))"
  by (auto simp: bind_parsed_def split: option.splits sum.splits)

lemma peek_is_simps [simp]: "\<not> peek_is t []" "peek_is t ((t', p) # ts) \<longleftrightarrow> t' = t"
  by (auto simp: peek_is_def)

lemma peek_is_iff: "peek_is t ts \<longleftrightarrow> (\<exists>p us. ts = (t, p) # us)"
  by (cases ts) auto

text \<open>A result that is not exhausted fuel, and leaves less than \<open>b\<close> tokens.\<close>

definition leaves :: "nat \<Rightarrow> 'a parsed \<Rightarrow> bool" where
  "leaves b r = (case r of None \<Rightarrow> False | Some (Inl _) \<Rightarrow> True | Some (Inr (_, ts)) \<Rightarrow> length ts < b)"

lemma leaves_simps [simp]:
  "\<not> leaves b None" "leaves b (Some (Inl e))" "leaves b (Some (Inr (x, ts))) \<longleftrightarrow> length ts < b"
  by (simp_all add: leaves_def)

lemma leaves_bind:
  assumes "leaves b p" "\<And>x ts. length ts < b \<Longrightarrow> leaves c (f x ts)"
  shows "leaves c (bind_parsed p f)"
proof (cases p)
  case (Some r)
  then show ?thesis using assms by (cases r) auto
qed (use assms in simp)

section \<open>Fuel\<close>

text \<open>A parser that on at most \<open>m\<close> tokens has enough fuel and consumes a token.\<close>

definition consumes :: "nat \<Rightarrow> (dsl_tokens \<Rightarrow> 'a parsed) \<Rightarrow> bool" where
  "consumes m p \<longleftrightarrow> (\<forall>ts. length ts \<le> m \<longrightarrow> leaves (max 1 (length ts)) (p ts))"

lemma op_loop_fuel:
  assumes "consumes m item"
  shows "length ts \<le> m \<Longrightarrow> length ts < k \<Longrightarrow> leaves (Suc (length ts)) (op_loop t item k ts)"
proof (induction k arbitrary: ts)
  case (Suc k)
  show ?case
  proof (cases "peek_is t ts")
    case True
    then obtain q us where ts: "ts = (t, q) # us" by (auto simp: peek_is_iff)
    have "leaves (Suc (length ts)) (bind_parsed (item us) (\<lambda>p ts.
        bind_parsed (op_loop t item k ts) (\<lambda>ps ts. Some (Inr (p # ps, ts)))))"
    proof (rule leaves_bind)
      show "leaves (max 1 (length us)) (item us)" using assms Suc.prems ts by (simp add: consumes_def)
      fix x and vs :: dsl_tokens assume "length vs < max 1 (length us)"
      then show "leaves (Suc (length ts)) (bind_parsed (op_loop t item k vs) (\<lambda>ps ts. Some (Inr (x # ps, ts))))"
        using Suc.prems ts by (intro leaves_bind [OF Suc.IH]) auto
    qed
    then show ?thesis using ts by simp
  qed simp
qed simp

lemma parse_items_fuel:
  assumes "consumes m item" "m < k"
  shows "consumes m (parse_items t mk item k)"
  unfolding consumes_def
proof (intro allI impI)
  fix ts :: dsl_tokens assume m: "length ts \<le> m"
  show "leaves (max 1 (length ts)) (parse_items t mk item k ts)"
    unfolding parse_items_def
  proof (rule leaves_bind)
    show "leaves (max 1 (length ts)) (item ts)" using assms m by (simp add: consumes_def)
    fix x and us :: dsl_tokens assume "length us < max 1 (length ts)"
    then show "leaves (max 1 (length ts)) (bind_parsed (op_loop t item k us) (\<lambda>ps ts. Some (Inr (mk (x # ps), ts))))"
      using assms m by (intro leaves_bind [OF op_loop_fuel [OF assms(1)]]) auto
  qed
qed

lemma parse_expr_fuel: "consumes m primary \<Longrightarrow> m < k \<Longrightarrow> consumes m (parse_expr primary k)"
  unfolding parse_expr_def parse_parallel_def by (intro parse_items_fuel)

lemma parse_primary_fuel: "m < k \<Longrightarrow> consumes m (parse_primary n k)"
proof (induction k arbitrary: m)
  case (Suc k)
  show ?case unfolding consumes_def
  proof (intro allI impI)
    fix ts :: dsl_tokens assume m: "length ts \<le> m"
    show "leaves (max 1 (length ts)) (parse_primary n (Suc k) ts)"
    proof (cases ts)
      case (Cons x us)
      then obtain t pos where ts: "ts = (t, pos) # us" by (cases x) auto
      have "leaves (max 1 (length ts)) (bind_parsed (parse_expr (parse_primary n k) k us) (close_paren n))"
      proof (rule leaves_bind)
        have "length us < k" using m ts Suc.prems by simp
        then show "leaves (max 1 (length us)) (parse_expr (parse_primary n k) k us)"
          using parse_expr_fuel [OF Suc.IH] by (simp add: consumes_def)
        fix w and vs :: dsl_tokens assume "length vs < max 1 (length us)"
        then show "leaves (max 1 (length ts)) (close_paren n w vs)"
          using ts by (auto simp: close_paren_def split: list.split prod.split)
      qed
      then show ?thesis using ts by (cases t) simp_all
    qed simp
  qed
qed simp

lemma top_fuel: "leaves (max 1 (length ts)) (parse_expr (parse_primary n (parse_fuel ts)) (parse_fuel ts) ts)"
  using parse_expr_fuel [OF parse_primary_fuel, of "length ts" "parse_fuel ts"]
  by (simp add: parse_fuel_def consumes_def)

lemma parse_ends: "\<exists>r. dsl_parse input = Some r"
proof (cases "dsl_tokenize 0 input")
  case (Inr ts)
  then show ?thesis using top_fuel [of ts "input_len ts"]
    by (auto simp: dsl_parse_def leaves_def split: option.splits sum.splits prod.splits list.splits)
qed (simp add: dsl_parse_def)

section \<open>The parser and the grammar\<close>

definition parses_only :: "(dsl_tokens \<Rightarrow> dsl_workflow parsed) \<Rightarrow> (dsl_workflow \<Rightarrow> dsl_tokens \<Rightarrow> bool) \<Rightarrow> bool" where
  "parses_only p G \<longleftrightarrow> (\<forall>ts w rest. p ts = Some (Inr (w, rest)) \<longrightarrow> (\<exists>us. ts = us @ rest \<and> G w us))"

lemma op_loop_only:
  assumes "parses_only item G"
  shows "op_loop t item k ts = Some (Inr (ws, rest)) \<Longrightarrow> \<exists>us. ts = us @ rest \<and> g_ops t G ws us"
proof (induction k arbitrary: ts ws rest)
  case (Suc k)
  show ?case
  proof (cases "peek_is t ts")
    case True
    then obtain q us where ts: "ts = (t, q) # us" by (auto simp: peek_is_iff)
    then obtain x vs xs where x: "item us = Some (Inr (x, vs))" "op_loop t item k vs = Some (Inr (xs, rest))" "ws = x # xs"
      using Suc.prems by (auto simp: bind_parsed_Inr)
    obtain as where as: "us = as @ vs" "G x as" using assms x(1) unfolding parses_only_def by blast
    obtain bs where bs: "vs = bs @ rest" "g_ops t G xs bs" using Suc.IH [OF x(2)] by blast
    have "g_ops t G ws ((t, q) # as @ bs)" unfolding x(3) using as(2) bs(2) by (rule ops_more)
    then show ?thesis using ts as bs by (intro exI [of _ "(t, q) # as @ bs"]) simp
  next
    case False
    then show ?thesis using Suc.prems by (auto intro: ops_none)
  qed
qed simp

lemma parse_items_only:
  assumes "parses_only item G"
  shows "parses_only (parse_items t mk item k) (g_items t mk G)"
  unfolding parses_only_def
proof (intro allI impI)
  fix ts w rest assume "parse_items t mk item k ts = Some (Inr (w, rest))"
  then obtain x vs xs where x: "item ts = Some (Inr (x, vs))" "op_loop t item k vs = Some (Inr (xs, rest))" "w = mk (x # xs)"
    by (auto simp: parse_items_def bind_parsed_Inr)
  obtain as where "ts = as @ vs" "G x as" using assms x(1) unfolding parses_only_def by blast
  moreover obtain bs where "vs = bs @ rest" "g_ops t G xs bs" using op_loop_only [OF assms x(2)] by blast
  ultimately show "\<exists>us. ts = us @ rest \<and> g_items t mk G w us" using x(3) unfolding g_items_def
    by (intro exI [of _ "as @ bs"]) auto
qed

lemma parse_expr_only: "parses_only primary g_primary \<Longrightarrow> parses_only (parse_expr primary k) g_expr"
  unfolding parse_expr_def parse_parallel_def g_expr_def g_parallel_def by (intro parse_items_only)

lemma parse_primary_only: "parses_only (parse_primary n k) g_primary"
proof (induction k)
  case (Suc k)
  show ?case unfolding parses_only_def
  proof (intro allI impI)
    fix ts w rest assume p: "parse_primary n (Suc k) ts = Some (Inr (w, rest))"
    then obtain t pos us where ts: "ts = (t, pos) # us" by (cases ts) auto
    show "\<exists>us. ts = us @ rest \<and> g_primary w us"
    proof (cases t)
      case (DtTaskRef name)
      then show ?thesis using p ts by (auto intro: prim_task)
    next
      case DtLeftParen
      then obtain x vs where x: "parse_expr (parse_primary n k) k us = Some (Inr (x, vs))"
        and close: "close_paren n x vs = Some (Inr (w, rest))"
        using p ts by (auto simp: bind_parsed_Inr)
      obtain q where vs: "vs = (DtRightParen, q) # rest" "w = x"
        using close by (auto simp: close_paren_def split: list.splits prod.splits if_splits)
      obtain as where as: "us = as @ vs" "g_expr x as"
        using parse_expr_only [OF Suc.IH] x unfolding parses_only_def by blast
      have "g_primary w ((DtLeftParen, pos) # as @ [(DtRightParen, q)])"
        using as(2) unfolding vs(2) g_expr_def g_parallel_def by (rule prim_paren)
      then show ?thesis using ts DtLeftParen as vs by (intro exI [of _ "(DtLeftParen, pos) # as @ [(DtRightParen, q)]"]) simp
    qed (use p ts in auto)
  qed
qed (simp add: parses_only_def)

text \<open>On at most \<open>m\<close> tokens, where what follows is not \<open>stuck\<close>, every phrase of the
  grammar is parsed.\<close>

definition parses_all ::
  "nat \<Rightarrow> dsl_token set \<Rightarrow> (dsl_tokens \<Rightarrow> dsl_workflow parsed) \<Rightarrow> (dsl_workflow \<Rightarrow> dsl_tokens \<Rightarrow> bool) \<Rightarrow> bool" where
  "parses_all m stuck p G \<longleftrightarrow> (\<forall>w us rest. G w us \<and> length (us @ rest) \<le> m \<and> (\<forall>t \<in> stuck. \<not> peek_is t rest) \<longrightarrow>
     us \<noteq> [] \<and> p (us @ rest) = Some (Inr (w, rest)))"

lemma g_ops_next: "g_ops t G ws us \<Longrightarrow> \<not> peek_is t' rest \<Longrightarrow> t' \<noteq> t \<Longrightarrow> \<not> peek_is t' (us @ rest)"
  by (induction rule: g_ops.induct) auto

lemma parses_allD:
  "parses_all m stuck p G \<Longrightarrow> G w us \<Longrightarrow> length (us @ rest) \<le> m \<Longrightarrow> \<forall>t \<in> stuck. \<not> peek_is t rest \<Longrightarrow>
     us \<noteq> [] \<and> p (us @ rest) = Some (Inr (w, rest))"
  unfolding parses_all_def by blast

lemma op_loop_all:
  assumes "parses_all m stuck item G" "t \<notin> stuck"
  shows "g_ops t G ws us \<Longrightarrow> length (us @ rest) \<le> m \<Longrightarrow> length (us @ rest) < k \<Longrightarrow>
     \<forall>t' \<in> insert t stuck. \<not> peek_is t' rest \<Longrightarrow> op_loop t item k (us @ rest) = Some (Inr (ws, rest))"
proof (induction arbitrary: k rule: g_ops.induct)
  case ops_none
  then show ?case by (cases k) auto
next
  case (ops_more w ts ws us p)
  then obtain j where k: "k = Suc j" by (cases k) auto
  have stuck: "\<forall>t' \<in> stuck. \<not> peek_is t' (us @ rest)"
    using g_ops_next [OF ops_more.hyps(2)] ops_more.prems(3) assms(2) by blast
  have "item (ts @ us @ rest) = Some (Inr (w, us @ rest))"
    using parses_allD [OF assms(1) ops_more.hyps(1) _ stuck] ops_more.prems(1) by simp
  moreover have "op_loop t item j (us @ rest) = Some (Inr (ws, rest))"
    using ops_more.prems k by (intro ops_more.IH) auto
  ultimately show ?case by (simp add: k)
qed

lemma parse_items_all:
  assumes "parses_all m stuck item G" "t \<notin> stuck" "m < k"
  shows "parses_all m (insert t stuck) (parse_items t mk item k) (g_items t mk G)"
  unfolding parses_all_def
proof (intro allI impI, elim conjE)
  fix w us rest assume "g_items t mk G w us" and len: "length (us @ rest) \<le> m"
    and stuck: "\<forall>t \<in> insert t stuck. \<not> peek_is t rest"
  then obtain x xs ts vs where us: "w = mk (x # xs)" "us = ts @ vs" "G x ts" "g_ops t G xs vs"
    unfolding g_items_def by (elim exE conjE)
  have "\<forall>t' \<in> stuck. \<not> peek_is t' (vs @ rest)" using g_ops_next [OF us(4)] stuck assms(2) by blast
  then have "ts \<noteq> [] \<and> item (ts @ vs @ rest) = Some (Inr (x, vs @ rest))"
    using us(2) len by (intro parses_allD [OF assms(1) us(3)]) auto
  moreover have "op_loop t item k (vs @ rest) = Some (Inr (xs, rest))"
    using us(2) len assms(3) stuck by (intro op_loop_all [OF assms(1,2) us(4)]) auto
  ultimately show "us \<noteq> [] \<and> parse_items t mk item k (us @ rest) = Some (Inr (w, rest))"
    by (simp add: parse_items_def us(1,2))
qed

lemma parse_expr_all:
  assumes "parses_all m {} primary g_primary" "m < k"
  shows "parses_all m {DtSequential, DtParallel} (parse_expr primary k) g_expr"
proof -
  have "parses_all m {DtParallel} (parse_parallel primary k) g_parallel"
    unfolding parse_parallel_def g_parallel_def using assms by (intro parse_items_all) auto
  then show ?thesis unfolding parse_expr_def g_expr_def using assms(2) by (intro parse_items_all) auto
qed

lemma g_primary_cases:
  assumes "g_primary w us"
  shows "(\<exists>name p. w = DwTask name \<and> us = [(DtTaskRef name, p)]) \<or>
     (\<exists>ts p q. g_expr w ts \<and> us = (DtLeftParen, p) # ts @ [(DtRightParen, q)])"
  using assms by (cases rule: g_primary.cases) (auto simp: g_expr_def g_parallel_def)

lemma parse_primary_all: "m < k \<Longrightarrow> parses_all m {} (parse_primary n k) g_primary"
proof (induction k arbitrary: m)
  case (Suc k)
  show ?case unfolding parses_all_def
  proof (intro allI impI, elim conjE)
    fix w us rest assume g: "g_primary w us" and len: "length (us @ rest) \<le> m"
    from g_primary_cases [OF g] show "us \<noteq> [] \<and> parse_primary n (Suc k) (us @ rest) = Some (Inr (w, rest))"
    proof (elim disjE exE conjE)
      fix ts p q assume us: "g_expr w ts" "us = (DtLeftParen, p) # ts @ [(DtRightParen, q)]"
      let ?m = "length (ts @ (DtRightParen, q) # rest)"
      have "?m < k" using us(2) len Suc.prems by simp
      then have all: "parses_all ?m {DtSequential, DtParallel} (parse_expr (parse_primary n k) k) g_expr"
        by (intro parse_expr_all Suc.IH)
      have "parse_expr (parse_primary n k) k (ts @ (DtRightParen, q) # rest) = Some (Inr (w, (DtRightParen, q) # rest))"
        using parses_allD [OF all us(1), where rest = "(DtRightParen, q) # rest"] by simp
      then show ?thesis by (simp add: us(2) close_paren_def)
    qed simp
  qed
qed simp

lemma parse_of_grammar:
  assumes "dsl_tokenize 0 input = Inr ts" "g_expr w ts"
  shows "dsl_parse input = Some (Inr w)"
proof -
  have all: "parses_all (length ts) {DtSequential, DtParallel}
      (parse_expr (parse_primary (input_len ts) (parse_fuel ts)) (parse_fuel ts)) g_expr"
    by (intro parse_expr_all parse_primary_all) (simp_all add: parse_fuel_def)
  have "ts \<noteq> [] \<and> parse_expr (parse_primary (input_len ts) (parse_fuel ts)) (parse_fuel ts) (ts @ []) = Some (Inr (w, []))"
    using parses_allD [OF all assms(2), where rest = "[]"] by simp
  then show ?thesis using assms(1) by (auto simp: dsl_parse_def)
qed

lemma grammar_of_parse:
  assumes "dsl_parse input = Some (Inr w)"
  shows "\<exists>ts. dsl_tokenize 0 input = Inr ts \<and> g_expr w ts"
proof -
  obtain ts where ts: "dsl_tokenize 0 input = Inr ts"
    using assms by (cases "dsl_tokenize 0 input") (auto simp: dsl_parse_def)
  then have "parse_expr (parse_primary (input_len ts) (parse_fuel ts)) (parse_fuel ts) ts = Some (Inr (w, []))"
    using assms by (auto simp: dsl_parse_def split: if_splits option.splits sum.splits prod.splits list.splits)
  then have "\<exists>us. ts = us @ [] \<and> g_expr w us"
    using parse_expr_only [OF parse_primary_only] unfolding parses_only_def by blast
  then show ?thesis using ts by simp
qed

text \<open>C13: Parsing an expression always ends with a result within the fuel, and it gives a workflow
  exactly when the input has tokens and they form it by the documented grammar.\<close>

theorem parser_implements_grammar:
  "\<exists>r. dsl_parse input = Some r \<and>
     (\<forall>w. r = Inr w \<longleftrightarrow> (\<exists>ts. dsl_tokenize 0 input = Inr ts \<and> g_expr w ts))"
proof -
  obtain r where r: "dsl_parse input = Some r" using parse_ends by blast
  then have "r = Inr w \<longleftrightarrow> (\<exists>ts. dsl_tokenize 0 input = Inr ts \<and> g_expr w ts)" for w
    using grammar_of_parse [of input w] parse_of_grammar [of input _ w] by auto
  then show ?thesis using r by blast
qed

section \<open>Tokens of printed expressions\<close>

definition push_tokens :: "dsl_tokens \<Rightarrow> dsl_error + dsl_tokens \<Rightarrow> dsl_error + dsl_tokens" where
  "push_tokens us r = and_then r (\<lambda>ts. Inr (us @ ts))"

lemma push_tokens_simps [simp]:
  "push_tokens [] r = r" "push_token t (push_tokens us r) = push_tokens (t # us) r"
  "push_tokens us (push_tokens vs r) = push_tokens (us @ vs) r" "push_tokens us (Inr ts) = Inr (us @ ts)"
  "push_token t r = push_tokens [t] r"
  by (cases r; simp add: push_tokens_def push_token_def)+

definition word_ends :: "string \<Rightarrow> bool" where
  "word_ends rest \<longleftrightarrow> rest = [] \<or> \<not> dsl_name_char (hd rest)"

definition lexes :: "(dsl_workflow \<Rightarrow> dsl_tokens \<Rightarrow> bool) \<Rightarrow> dsl_workflow \<Rightarrow> string \<Rightarrow> bool" where
  "lexes G w s \<longleftrightarrow> (\<forall>i rest. word_ends rest \<longrightarrow>
     (\<exists>us. G w us \<and> dsl_tokenize i (s @ rest) = push_tokens us (dsl_tokenize (i + length s) rest)))"

lemma lexesE:
  assumes "lexes G w s" "word_ends rest"
  obtains us where "G w us" "dsl_tokenize i (s @ rest) = push_tokens us (dsl_tokenize (i + length s) rest)"
  using assms unfolding lexes_def by blast

lemma name_char_other:
  "dsl_name_char c \<Longrightarrow> \<not> dsl_blank c \<and> c \<noteq> CHR ''('' \<and> c \<noteq> CHR '')'' \<and> c \<noteq> CHR ''|'' \<and> c \<noteq> CHR ''>''"
  by (auto simp: dsl_name_char_def dsl_alnum_def dsl_blank_def)

lemma lexes_task: "is_valid_task_name name \<Longrightarrow> lexes g_primary (DwTask name) name"
  unfolding lexes_def
proof (intro allI impI)
  fix i rest assume valid: "is_valid_task_name name" and rest: "word_ends rest"
  obtain c cs where name: "name = c # cs" using valid by (cases name) (auto simp: is_valid_task_name_def)
  then have c: "dsl_name_char c" and cs: "\<forall>d \<in> set cs. dsl_name_char d"
    using valid by (auto simp: is_valid_task_name_def list_all_iff)
  have "takeWhile dsl_name_char (cs @ rest) = cs" "dropWhile dsl_name_char (cs @ rest) = rest"
    using cs rest by (cases rest; simp add: word_ends_def takeWhile_append2 dropWhile_append2)+
  then have "dsl_tokenize i (name @ rest) = push_tokens [(DtTaskRef name, i)] (dsl_tokenize (i + length name) rest)"
    using c name_char_other [OF c] by (simp add: name add_ac)
  then show "\<exists>us. g_primary (DwTask name) us \<and>
      dsl_tokenize i (name @ rest) = push_tokens us (dsl_tokenize (i + length name) rest)"
    using prim_task by blast
qed

lemma lexes_paren:
  assumes "lexes g_expr w s"
  shows "lexes g_primary w (''('' @ s @ '')'')"
  unfolding lexes_def
proof (intro allI impI)
  fix i rest assume "word_ends rest"
  have "word_ends ('')'' @ rest)" by (simp add: word_ends_def dsl_name_char_def dsl_alnum_def)
  then obtain us where us: "g_expr w us"
    "dsl_tokenize (i + 1) (s @ ('')'' @ rest)) = push_tokens us (dsl_tokenize (i + 1 + length s) ('')'' @ rest))"
    by (rule lexesE [OF assms])
  have "dsl_tokenize i ((''('' @ s @ '')'') @ rest) =
      push_tokens ((DtLeftParen, i) # us @ [(DtRightParen, i + 1 + length s)])
        (dsl_tokenize (i + length (''('' @ s @ '')'')) rest)"
    using us(2) by (simp add: dsl_blank_def)
  then show "\<exists>us. g_primary w us \<and> dsl_tokenize i ((''('' @ s @ '')'') @ rest) =
      push_tokens us (dsl_tokenize (i + length (''('' @ s @ '')'')) rest)"
    using prim_paren us(1) unfolding g_expr_def g_parallel_def by blast
qed

text \<open>A separator that is one operator between blanks.\<close>

definition separates :: "dsl_token \<Rightarrow> string \<Rightarrow> bool" where
  "separates t sep \<longleftrightarrow> (\<forall>rest. word_ends (sep @ rest)) \<and>
     (\<forall>i rest. \<exists>p. dsl_tokenize i (sep @ rest) = push_tokens [(t, p)] (dsl_tokenize (i + length sep) rest))"

lemma separators: "separates DtSequential '' >> ''" "separates DtParallel '' | ''"
  by (auto simp: separates_def word_ends_def dsl_name_char_def dsl_alnum_def dsl_blank_def)

lemma str_join_Cons: "str_join sep (x # xs) = x @ concat (map (\<lambda>y. sep @ y) xs)"
  by (induction xs arbitrary: x) auto

lemma lexes_ops:
  assumes sep: "separates t sep"
  shows "list_all2 (lexes G) ws ss \<Longrightarrow> word_ends rest \<Longrightarrow>
     \<exists>us. g_ops t G ws us \<and> dsl_tokenize i (concat (map (\<lambda>y. sep @ y) ss) @ rest) =
       push_tokens us (dsl_tokenize (i + length (concat (map (\<lambda>y. sep @ y) ss))) rest)"
proof (induction arbitrary: i rule: list_all2_induct)
  case Nil
  then show ?case by (auto intro: ops_none)
next
  case (Cons w ws s ss)
  let ?tail = "concat (map (\<lambda>y. sep @ y) ss)"
  obtain p where p: "dsl_tokenize i (sep @ (s @ ?tail @ rest)) =
      push_tokens [(t, p)] (dsl_tokenize (i + length sep) (s @ ?tail @ rest))"
    using sep unfolding separates_def by blast
  have "word_ends (?tail @ rest)"
    using Cons.prems sep by (cases ss) (simp_all add: separates_def)
  then obtain us where us: "G w us" "dsl_tokenize (i + length sep) (s @ ?tail @ rest) =
      push_tokens us (dsl_tokenize (i + length sep + length s) (?tail @ rest))"
    by (rule lexesE [OF Cons.hyps(1)])
  obtain vs where vs: "g_ops t G ws vs" "dsl_tokenize (i + length sep + length s) (?tail @ rest) =
      push_tokens vs (dsl_tokenize (i + length sep + length s + length ?tail) rest)"
    using Cons.IH [OF Cons.prems] by blast
  have "g_ops t G (w # ws) ((t, p) # us @ vs)" using us(1) vs(1) by (rule ops_more)
  then show ?case using p us(2) vs(2)
    by (intro exI [of _ "(t, p) # us @ vs"]) (simp add: add_ac)
qed

lemma lexes_items:
  assumes sep: "separates t sep" and items: "list_all2 (lexes G) (w # ws) (s # ss)"
  shows "lexes (g_items t mk G) (mk (w # ws)) (str_join sep (s # ss))"
  unfolding lexes_def
proof (intro allI impI)
  fix i rest assume rest: "word_ends rest"
  let ?tail = "concat (map (\<lambda>y. sep @ y) ss)"
  have "word_ends (?tail @ rest)" using rest sep by (cases ss) (simp_all add: separates_def)
  then obtain us where us: "G w us" "dsl_tokenize i (s @ ?tail @ rest) =
      push_tokens us (dsl_tokenize (i + length s) (?tail @ rest))"
    using items by (auto elim: lexesE)
  have items_tl: "list_all2 (lexes G) ws ss" using items by simp
  obtain vs where vs: "g_ops t G ws vs" "dsl_tokenize (i + length s) (?tail @ rest) =
      push_tokens vs (dsl_tokenize (i + length s + length ?tail) rest)"
    using lexes_ops [OF sep items_tl rest] by blast
  have "g_items t mk G (mk (w # ws)) (us @ vs)" using us(1) vs(1) unfolding g_items_def by blast
  then show "\<exists>us. g_items t mk G (mk (w # ws)) us \<and> dsl_tokenize i (str_join sep (s # ss) @ rest) =
      push_tokens us (dsl_tokenize (i + length (str_join sep (s # ss))) rest)"
    using us(2) vs(2) by (intro exI [of _ "us @ vs"]) (simp add: str_join_Cons add_ac)
qed

section \<open>Printing and parsing\<close>

text \<open>The workflows whose display does not depend on missing parentheses: a parallel one has
  tasks only, a sequential one tasks and such parallel ones.\<close>

fun flat_task :: "dsl_workflow \<Rightarrow> bool" where
  "flat_task (DwTask name) = is_valid_task_name name"
| "flat_task _ = False"

fun flat_parallel :: "dsl_workflow \<Rightarrow> bool" where
  "flat_parallel (DwParallel bs) = (2 \<le> length bs \<and> list_all flat_task bs)"
| "flat_parallel w = flat_task w"

fun displayable :: "dsl_workflow \<Rightarrow> bool" where
  "displayable (DwSequential ss) = (2 \<le> length ss \<and> list_all flat_parallel ss)"
| "displayable w = flat_parallel w"

lemma lexes_mono: "lexes G w s \<Longrightarrow> (\<And>us. G w us \<Longrightarrow> H w us) \<Longrightarrow> lexes H w s"
  unfolding lexes_def by blast

lemma lexes_single:
  assumes "lexes G w s" "mk [w] = w"
  shows "lexes (g_items t mk G) w s"
proof (rule lexes_mono [OF assms(1)])
  fix us assume "G w us"
  then have "w = mk (w # []) \<and> us = us @ [] \<and> G w us \<and> g_ops t G [] []" using assms(2) by (simp add: ops_none)
  then show "g_items t mk G w us" unfolding g_items_def by blast
qed

lemma mk_single [simp]: "mk_parallel [w] = w" "mk_sequential [w] = w"
  by (simp_all add: mk_parallel_def mk_sequential_def)

lemma mk_many: "2 \<le> length ws \<Longrightarrow> mk_parallel ws = DwParallel ws" "2 \<le> length ws \<Longrightarrow> mk_sequential ws = DwSequential ws"
  by (simp_all add: mk_parallel_def mk_sequential_def)

lemma lexes_items_list:
  assumes "separates t sep" "list_all2 (lexes G) ws ss" "2 \<le> length ws"
  shows "lexes (g_items t mk G) (mk ws) (str_join sep ss)"
  using lexes_items [OF assms(1)] assms(2,3) by (cases ws; cases ss) auto

lemma lexes_flat_parallel: "flat_parallel w \<Longrightarrow> lexes g_parallel w (dsl_display w)"
proof (cases w)
  case (DwTask name)
  assume "flat_parallel w"
  then show ?thesis unfolding g_parallel_def using DwTask by (auto intro!: lexes_single lexes_task)
next
  case (DwParallel bs)
  assume flat: "flat_parallel w"
  have "lexes g_primary b (dsl_display b)" if "b \<in> set bs" for b
    using flat that DwParallel by (cases b) (auto simp: list_all_iff intro!: lexes_task)
  then have "list_all2 (lexes g_primary) bs (map dsl_display bs)"
    by (simp add: list.rel_map list.rel_refl_strong)
  then have "lexes g_parallel (mk_parallel bs) (str_join '' | '' (map dsl_display bs))"
    unfolding g_parallel_def using flat DwParallel by (intro lexes_items_list separators) auto
  then show ?thesis using flat DwParallel by (simp add: mk_many)
qed simp

lemma lexes_step:
  assumes "flat_parallel w"
  shows "lexes g_parallel w (if is_parallel w then ''('' @ dsl_display w @ '')'' else dsl_display w)"
proof (cases "is_parallel w")
  case True
  have "lexes g_expr w (dsl_display w)"
    unfolding g_expr_def using lexes_flat_parallel [OF assms] by (intro lexes_single) simp_all
  then have "lexes g_parallel w (''('' @ dsl_display w @ '')'')"
    unfolding g_parallel_def by (intro lexes_single lexes_paren) simp_all
  then show ?thesis using True by simp
qed (use lexes_flat_parallel [OF assms] in simp)

lemma lexes_displayable: "displayable w \<Longrightarrow> lexes g_expr w (dsl_display w)"
proof (cases w)
  case (DwSequential ss)
  assume d: "displayable w"
  let ?print = "\<lambda>s. if is_parallel s then ''('' @ dsl_display s @ '')'' else dsl_display s"
  have "lexes g_parallel s (?print s)" if "s \<in> set ss" for s
    using d DwSequential that by (intro lexes_step) (simp add: list_all_iff)
  then have "list_all2 (lexes g_parallel) ss (map ?print ss)"
    unfolding list.rel_map by (intro list.rel_refl_strong)
  then have "lexes g_expr (mk_sequential ss) (str_join '' >> '' (map ?print ss))"
    unfolding g_expr_def using d DwSequential by (intro lexes_items_list separators) auto
  then show ?thesis using d DwSequential by (simp add: mk_many)
next
  case (DwTask name)
  assume "displayable w"
  then have "flat_parallel w" using DwTask by simp
  then show ?thesis unfolding g_expr_def by (intro lexes_single lexes_flat_parallel) simp_all
next
  case (DwParallel bs)
  assume "displayable w"
  then have "flat_parallel w" using DwParallel by simp
  then show ?thesis unfolding g_expr_def by (intro lexes_single lexes_flat_parallel) simp_all
qed



section \<open>Compilation\<close>

fun dsl_names :: "dsl_workflow \<Rightarrow> string list" where
  "dsl_names (DwTask name) = [name]"
| "dsl_names (DwSequential ws) = concat (map dsl_names ws)"
| "dsl_names (DwParallel ws) = concat (map dsl_names ws)"

fun proper :: "dsl_workflow \<Rightarrow> bool" where
  "proper (DwTask _) = True"
| "proper (DwSequential ws) = (ws \<noteq> [] \<and> list_all proper ws)"
| "proper (DwParallel ws) = (ws \<noteq> [] \<and> list_all proper ws)"

text \<open>The graph holds the tasks \<open>r\<close>, added in this order, each after its dependencies.\<close>

definition built :: "'v task_dag \<Rightarrow> string list \<Rightarrow> bool" where
  "built dag r \<longleftrightarrow> dag_wf dag \<and> in_order dag r \<and> distinct r \<and> set r = dom (td_nodes dag) \<and>
     (\<forall>n. distinct (deps dag n))"

lemma built_new: "built dag_new []"
  by (simp add: built_def dag_wf_new in_order_def) (simp add: dag_new_def deps_def)

lemma built_validates:
  assumes "built dag r" "good_iter iter"
  shows "dag_validate iter dag = Some (Inr ())"
proof -
  have wf: "dag_wf dag" and r: "in_order dag r" "distinct r" "set r = dom (td_nodes dag)"
    and d: "\<forall>n. distinct (deps dag n)" using assms(1) by (simp_all add: built_def)
  have none: "n \<notin> set r \<Longrightarrow> deps dag n = []" for n using deps_None r(3) by auto
  have "set (deps dag n) \<subseteq> dom (td_nodes dag)" for n
  proof (cases "n \<in> set r")
    case True
    then obtain i where i: "i < length r" "r ! i = n" by (auto simp: in_set_conv_nth)
    then have "set (deps dag n) \<subseteq> set (take i r)" using r(1) by (auto simp: in_order_def)
    then show ?thesis using r(3) set_take_subset [of i r] by blast
  qed (simp add: none)
  moreover have "acyclic (edges dag)" by (rule in_order_acyclic [OF r(1,2)]) (use none in blast)
  ultimately show ?thesis using dag_validate_spec [OF wf assms(2)] d by blast
qed

lemma built_add:
  assumes "built dag r" "distinct ds" "set ds \<subseteq> set r" "dag_add_task dag (dsl_task name ds) = Inr dag'"
  shows "built dag' (r @ [name]) \<and> name \<notin> set r"
proof -
  have new: "td_nodes dag name = None" and dag': "dag' = add_step (dsl_task name ds) dag"
    using assms(4) by (auto simp: dag_add_task_def add_step_def dsl_task_def split: if_splits)
  have nodes: "td_nodes dag' = (td_nodes dag)(name \<mapsto> dsl_task name ds)"
    using new by (simp add: dag' add_step_def dag_add_task_def dsl_task_def)
  have name: "name \<notin> set r" using assms(1) new by (auto simp: built_def)
  have deps: "deps dag' n = (if n = name then ds else deps dag n)" for n
    by (simp add: deps_def nodes dsl_task_def)
  have "in_order dag' r"
    unfolding in_order_def
  proof (intro allI impI)
    fix i assume i: "i < length r"
    then have "r ! i \<noteq> name" using name nth_mem by metis
    then show "set (deps dag' (r ! i)) \<subseteq> set (take i r)"
      using assms(1) i by (simp add: deps built_def in_order_def)
  qed
  then have "in_order dag' (r @ [name])" using assms(3) by (simp add: in_order_snoc deps)
  moreover have "dag_wf dag'" unfolding dag' using assms(1) by (intro dag_wf_add) (simp add: built_def)
  ultimately show ?thesis using assms(1,2) name by (auto simp: built_def nodes deps)
qed

lemma compile_result:
  fixes dag :: "'v task_dag"
  shows "built dag r \<Longrightarrow> distinct ds \<Longrightarrow> set ds \<subseteq> set r \<Longrightarrow> proper w \<Longrightarrow>
     (case dsl_compile w dag ds of
        Inr (dag', tails) \<Rightarrow> built dag' (r @ dsl_names w) \<and> distinct tails \<and> set tails \<subseteq> set (dsl_names w)
      | Inl e \<Rightarrow> \<not> distinct (r @ dsl_names w) \<and> (\<exists>n. e = DlDagError (DeDuplicateTask n)))"
  and "built dag r \<Longrightarrow> distinct ds \<Longrightarrow> set ds \<subseteq> set r \<Longrightarrow> list_all proper ws \<Longrightarrow>
     (case compile_steps ws dag ds of
        Inr (dag', tails) \<Rightarrow> built dag' (r @ concat (map dsl_names ws)) \<and> distinct tails \<and>
          set tails \<subseteq> (if ws = [] then set ds else set (concat (map dsl_names ws)))
      | Inl e \<Rightarrow> \<not> distinct (r @ concat (map dsl_names ws)) \<and> (\<exists>n. e = DlDagError (DeDuplicateTask n)))"
  and "built dag r \<Longrightarrow> distinct ds \<Longrightarrow> set ds \<subseteq> set r \<Longrightarrow> list_all proper ws \<Longrightarrow>
     (case compile_branches ws dag ds of
        Inr (dag', tails) \<Rightarrow> built dag' (r @ concat (map dsl_names ws)) \<and> distinct tails \<and>
          set tails \<subseteq> set (concat (map dsl_names ws))
      | Inl e \<Rightarrow> \<not> distinct (r @ concat (map dsl_names ws)) \<and> (\<exists>n. e = DlDagError (DeDuplicateTask n)))"
proof (induction w dag ds and ws dag ds and ws dag ds arbitrary: r and r and r
    rule: dsl_compile_compile_steps_compile_branches.induct)
  case (1 name dag ds)
  show ?case
  proof (cases "dag_add_task dag (dsl_task name ds)")
    case (Inl e)
    then show ?thesis using 1(1) by (auto simp: dag_add_task_def dsl_task_def built_def split: if_splits)
  next
    case (Inr dag')
    then show ?thesis using built_add [OF 1(1-3) Inr] by simp
  qed
next
  case (2 steps dag ds)
  then have "list_all proper steps" "steps \<noteq> []" by simp_all
  then show ?case using "2.IH" [OF "2.prems"(1-3)] by (cases "compile_steps steps dag ds") (auto simp del: set_concat)
next
  case (3 branches dag ds)
  then have "list_all proper branches" "branches \<noteq> []" by simp_all
  then show ?case using "3.IH" [OF "3.prems"(1-3)] by (cases "compile_branches branches dag ds") (auto simp del: set_concat)
next
  case (4 dag ds)
  then show ?case by simp
next
  case (5 s ss dag ds)
  show ?case
  proof (cases "dsl_compile s dag ds")
    case (Inl e)
    then show ?thesis using "5.IH"(1) [OF "5.prems"(1-3)] "5.prems"(4) by auto
  next
    case (Inr p)
    obtain dag' tails where p: "p = (dag', tails)" by (cases p)
    have s: "built dag' (r @ dsl_names s)" "distinct tails" "set tails \<subseteq> set (dsl_names s)"
      using "5.IH"(1) [OF "5.prems"(1-3)] "5.prems"(4) Inr p by simp_all
    have sub: "set tails \<subseteq> set (r @ dsl_names s)" using s(3) by auto
    show ?thesis
      using "5.IH"(2) [OF s(1,2) sub] "5.prems"(4) s(3) Inr p
      by (auto split: sum.splits prod.splits if_splits)
  qed
next
  case (6 dag ds)
  then show ?case by simp
next
  case (7 b bs dag ds)
  show ?case
  proof (cases "dsl_compile b dag ds")
    case (Inl e)
    then show ?thesis using "7.IH"(1) [OF "7.prems"(1-3)] "7.prems"(4) by auto
  next
    case (Inr p)
    obtain dag' tails where p: "p = (dag', tails)" by (cases p)
    have s: "built dag' (r @ dsl_names b)" "distinct tails" "set tails \<subseteq> set (dsl_names b)"
      using "7.IH"(1) [OF "7.prems"(1-3)] "7.prems"(4) Inr p by simp_all
    have sub: "set ds \<subseteq> set (r @ dsl_names b)" using "7.prems"(3) by auto
    note rest = "7.IH"(2) [OF s(1) "7.prems"(2) sub]
    show ?thesis
    proof (cases "compile_branches bs dag' ds")
      case (Inl e)
      then show ?thesis using rest "7.prems"(4) \<open>dsl_compile b dag ds = Inr p\<close> p by auto
    next
      case (Inr q)
      obtain dag'' rest' where q: "q = (dag'', rest')" by (cases q)
      have "distinct (r @ dsl_names b @ concat (map dsl_names bs))"
        using rest "7.prems"(4) Inr q by (auto simp: built_def)
      then show ?thesis using rest "7.prems"(4) Inr q s(2,3) \<open>dsl_compile b dag ds = Inr p\<close> p by auto
    qed
  qed
qed

lemma g_ops_list: "g_ops t G ws us \<Longrightarrow> (\<And>w us. G w us \<Longrightarrow> P w) \<Longrightarrow> list_all P ws"
  by (induction rule: g_ops.induct) auto

lemma proper_items:
  assumes "g_items t mk G w us" "\<And>w us. G w us \<Longrightarrow> proper w"
    and mk: "\<And>ws. ws \<noteq> [] \<Longrightarrow> list_all proper ws \<Longrightarrow> proper (mk ws)"
  shows "proper w"
proof -
  obtain x xs ts vs where w: "w = mk (x # xs)" "G x ts" "g_ops t G xs vs"
    using assms(1) unfolding g_items_def by (elim exE conjE)
  have "list_all proper xs" using w(3) assms(2) by (rule g_ops_list)
  then show ?thesis using assms(2) [OF w(2)] unfolding w(1) by (intro mk) simp_all
qed

lemma proper_mk: "ws \<noteq> [] \<Longrightarrow> list_all proper ws \<Longrightarrow> proper (mk_parallel ws)"
  "ws \<noteq> [] \<Longrightarrow> list_all proper ws \<Longrightarrow> proper (mk_sequential ws)"
  by (cases ws; simp add: mk_parallel_def mk_sequential_def)+

lemma g_primary_proper: "g_primary w us \<Longrightarrow> proper w"
proof (induction rule: g_primary.induct)
  case (prim_paren w ts p q)
  then show ?case
    by (elim proper_items) (auto intro: proper_mk elim!: proper_items)
qed simp

lemma g_expr_proper: "g_expr w us \<Longrightarrow> proper w"
  unfolding g_expr_def g_parallel_def
  by (elim proper_items) (auto intro: proper_mk g_primary_proper)

text \<open>C12: Every expression that parses compiles, when no name occurs twice in it, to a graph that
  validates and whose tasks are exactly its names; when a name occurs twice, compiling it reports a
  duplicate task of the graph (and nothing else).\<close>

theorem parsed_expression_compiles:
  assumes "dsl_parse input = Some (Inr w)" and "good_iter iter"
  shows "case (to_task_dag w :: dsl_error + 'v task_dag) of
       Inr dag \<Rightarrow> distinct (dsl_names w) \<and> dom (td_nodes dag) = set (dsl_names w) \<and>
         dag_validate iter dag = Some (Inr ())
     | Inl e \<Rightarrow> \<not> distinct (dsl_names w) \<and> (\<exists>n. e = DlDagError (DeDuplicateTask n))"
proof -
  have "proper w" using grammar_of_parse [OF assms(1)] g_expr_proper by blast
  then have "case dsl_compile w (dag_new :: 'v task_dag) [] of
        Inr (dag', tails) \<Rightarrow> built dag' ([] @ dsl_names w) \<and> distinct tails \<and> set tails \<subseteq> set (dsl_names w)
      | Inl e \<Rightarrow> \<not> distinct ([] @ dsl_names w) \<and> (\<exists>n. e = DlDagError (DeDuplicateTask n))"
    by (intro compile_result(1)) (simp_all add: built_new)
  then show ?thesis
  proof (cases "dsl_compile w (dag_new :: 'v task_dag) []")
    case (Inr p)
    obtain dag tails where p: "p = (dag, tails)" by (cases p)
    assume "case dsl_compile w (dag_new :: 'v task_dag) [] of
        Inr (dag', tails) \<Rightarrow> built dag' ([] @ dsl_names w) \<and> distinct tails \<and> set tails \<subseteq> set (dsl_names w)
      | Inl e \<Rightarrow> \<not> distinct ([] @ dsl_names w) \<and> (\<exists>n. e = DlDagError (DeDuplicateTask n))"
    then have built: "built dag (dsl_names w)" by (simp add: Inr p)
    then show ?thesis using built_validates [OF built assms(2)]
      by (simp add: to_task_dag_def Inr p) (simp add: built_def)
  qed (simp add: to_task_dag_def)
qed

theorem parsed_expression_compiles_witness:
  "(case to_task_dag (DwSequential [DwTask ''a'', DwParallel [DwTask ''b'', DwTask ''c'']]) of
       Inr dag \<Rightarrow> dag_validate sorted_list_of_set (dag :: unit task_dag) = Some (Inr ())
     | Inl _ \<Rightarrow> False)"
proof -
  let ?w = "DwSequential [DwTask ''a'', DwParallel [DwTask ''b'', DwTask ''c'']]"
  have "dsl_parse ''a >> (b | c)'' = Some (Inr ?w)" by code_simp
  note compiles = parsed_expression_compiles [OF this good_iter_sorted, where 'v = unit]
  have "distinct (dsl_names ?w)" by simp
  then show ?thesis using compiles
    by (cases "to_task_dag ?w :: dsl_error + unit task_dag") (simp_all del: dsl_names.simps)
qed

end
