(* ===== verification/ProviderHealth.thy ===== *)
theory ProviderHealth
  imports Dag "HOL-Library.Word"
begin

unbundle bit_operations_syntax

text \<open>
  Failures of model providers: their classification
  (\<open>y-provider/src/error_classifier.rs\<close>, errors of \<open>y-core/src/provider.rs\<close>), the freeze
  manager (\<open>freeze.rs\<close>) and the retry delays of \<open>config.rs\<close>.

  Instants and durations are natural numbers of nanoseconds.  Adding a duration to an
  instant panics when the seconds leave the range of 64 bit signed integers, which is how
  the standard library represents an instant on Unix; a panic is \<open>None\<close>.
\<close>

section \<open>Errors\<close>

datatype provider_error =
  PeRateLimited string nat
| PeQuotaExhausted string string
| PeAuthenticationFailed string string
| PeKeyInvalid string string
| PeServerError string string
| PeNetworkError "nat option" string
| PeNoProviderAvailable "string list"
| PeCancelled
| PeParseError string
| PeOther string

datatype standard_error =
  SeContextWindowExceeded
| SeRateLimited "nat option"
| SeQuotaExhausted
| SeAuthenticationFailed
| SeKeyInvalid
| SeInsufficientBalance
| SeModelNotFound
| SeServerError
| SeNetworkError
| SeContentFiltered
| SeUnknown

definition from_secs :: "nat \<Rightarrow> nat" where "from_secs s = s * 10 ^ 9"
definition from_millis :: "nat \<Rightarrow> nat" where "from_millis ms = ms * 10 ^ 6"

fun freeze_duration :: "standard_error \<Rightarrow> nat option" where
  "freeze_duration (SeRateLimited retry_after) =
     Some (case retry_after of None \<Rightarrow> from_secs 60 | Some d \<Rightarrow> d)"
| "freeze_duration SeServerError = Some (from_secs 300)"
| "freeze_duration SeNetworkError = Some (from_secs 30)"
| "freeze_duration SeModelNotFound = Some (from_secs 3600)"
| "freeze_duration SeAuthenticationFailed = Some (from_secs 86400)"
| "freeze_duration SeUnknown = Some (from_secs 60)"
| "freeze_duration _ = None"

fun is_permanent :: "standard_error \<Rightarrow> bool" where
  "is_permanent SeKeyInvalid = True"
| "is_permanent SeQuotaExhausted = True"
| "is_permanent SeInsufficientBalance = True"
| "is_permanent _ = False"

fun standard_is_transient :: "standard_error \<Rightarrow> bool" where
  "standard_is_transient (SeRateLimited _) = True"
| "standard_is_transient SeServerError = True"
| "standard_is_transient SeNetworkError = True"
| "standard_is_transient SeUnknown = True"
| "standard_is_transient _ = False"

fun should_freeze :: "standard_error \<Rightarrow> bool" where
  "should_freeze SeContextWindowExceeded = False"
| "should_freeze SeContentFiltered = False"
| "should_freeze _ = True"

fun should_auto_retry :: "standard_error \<Rightarrow> bool" where
  "should_auto_retry SeServerError = True"
| "should_auto_retry SeNetworkError = True"
| "should_auto_retry _ = False"

definition has :: "string \<Rightarrow> string \<Rightarrow> bool" where
  "has s p = str_contains s p"

definition classify_auth_error :: "string \<Rightarrow> standard_error" where
  "classify_auth_error body =
     (let lower = str_lower body
      in if (has lower ''invalid'' \<and> has lower ''key'') \<or> has lower ''expired'' \<or> has lower ''revoked''
         then SeKeyInvalid else SeAuthenticationFailed)"

definition classify_forbidden_error :: "string \<Rightarrow> standard_error" where
  "classify_forbidden_error body =
     (let lower = str_lower body
      in if has lower ''quota'' \<or> (has lower ''exceeded'' \<and> has lower ''limit'') then SeQuotaExhausted
         else if has lower ''balance'' \<or> has lower ''insufficient'' \<or> has lower ''billing'' \<or> has lower ''payment''
         then SeInsufficientBalance
         else SeAuthenticationFailed)"

definition classify_bad_request :: "string \<Rightarrow> standard_error" where
  "classify_bad_request body =
     (let lower = str_lower body
      in if (has lower ''context'' \<and> (has lower ''length'' \<or> has lower ''window'')) \<or>
            (has lower ''maximum'' \<and> has lower ''token'') then SeContextWindowExceeded
         else if has lower ''content_filter'' \<or> has lower ''content filter'' then SeContentFiltered
         else if has lower ''model'' \<and> has lower ''not'' then SeModelNotFound
         else SeUnknown)"

definition classify_from_body :: "string \<Rightarrow> standard_error" where
  "classify_from_body body =
     (let lower = str_lower body
      in if has lower ''rate limit'' \<or> has lower ''rate_limit'' then SeRateLimited None
         else if has lower ''quota'' \<or> (has lower ''exceeded'' \<and> has lower ''limit'') then SeQuotaExhausted
         else if has lower ''invalid api key'' \<or> has lower ''invalid_api_key'' then SeKeyInvalid
         else if has lower ''insufficient'' \<and> has lower ''balance'' then SeInsufficientBalance
         else if has lower ''context'' \<and> has lower ''length'' then SeContextWindowExceeded
         else if has lower ''content_filter'' \<or> has lower ''content filter'' then SeContentFiltered
         else SeUnknown)"

definition body_contains_any :: "string \<Rightarrow> string list \<Rightarrow> bool" where
  "body_contains_any body patterns = (let lower = str_lower body in list_ex (has lower) patterns)"

definition classify :: "nat \<Rightarrow> string \<Rightarrow> standard_error" where
  "classify status body =
     (if status = 401 then classify_auth_error body
      else if status = 403 then classify_forbidden_error body
      else if status = 429 then SeRateLimited None
      else if status = 404 then
        (if body_contains_any body [''model'', ''not found'', ''does not exist''] then SeModelNotFound else SeUnknown)
      else if status = 400 then classify_bad_request body
      else if 500 \<le> status \<and> status \<le> 599 then SeServerError
      else if status = 0 then SeNetworkError
      else classify_from_body body)"

fun classify_provider_error :: "provider_error \<Rightarrow> standard_error" where
  "classify_provider_error (PeRateLimited _ secs) = SeRateLimited (Some (from_secs secs))"
| "classify_provider_error (PeQuotaExhausted _ _) = SeQuotaExhausted"
| "classify_provider_error (PeAuthenticationFailed _ _) = SeAuthenticationFailed"
| "classify_provider_error (PeKeyInvalid _ _) = SeKeyInvalid"
| "classify_provider_error (PeServerError _ m) =
     (if has m ''context'' \<and> has m ''length'' then SeContextWindowExceeded else SeServerError)"
| "classify_provider_error (PeNetworkError _ _) = SeNetworkError"
| "classify_provider_error (PeNoProviderAvailable _) = SeUnknown"
| "classify_provider_error PeCancelled = SeUnknown"
| "classify_provider_error (PeParseError _) = SeUnknown"
| "classify_provider_error (PeOther m) = classify_from_body m"

section \<open>The freeze manager\<close>

record freeze_state =
  fz_frozen :: bool
  fz_reason :: "string option"
  fz_frozen_at :: "nat option"
  fz_thaw_at :: "nat option"
  fz_consecutive_freezes :: nat
  fz_permanent :: bool

record freeze_manager =
  fm_state :: freeze_state
  fm_base_duration_secs :: nat
  fm_max_duration_secs :: nat

definition thawed :: freeze_state where
  "thawed = \<lparr>fz_frozen = False, fz_reason = None, fz_frozen_at = None, fz_thaw_at = None,
     fz_consecutive_freezes = 0, fz_permanent = False\<rparr>"

definition freeze_manager_new :: "nat \<Rightarrow> nat \<Rightarrow> freeze_manager" where
  "freeze_manager_new base mx = \<lparr>fm_state = thawed, fm_base_duration_secs = base, fm_max_duration_secs = mx\<rparr>"

definition instant_add :: "nat \<Rightarrow> nat \<Rightarrow> nat option" where
  "instant_add t d = (if t + d < 2 ^ 63 * 10 ^ 9 then Some (t + d) else None)"

definition adaptive_duration :: "freeze_manager \<Rightarrow> nat \<Rightarrow> nat" where
  "adaptive_duration fm consecutive =
     from_secs (min (saturating_mul (fm_base_duration_secs fm) (saturating_pow2 (consecutive - 1)))
       (fm_max_duration_secs fm))"

text \<open>The counter is a \<open>u32\<close>; incrementing it at its end panics in builds with overflow
  checks.\<close>

definition fm_freeze :: "string \<Rightarrow> nat option \<Rightarrow> nat \<Rightarrow> freeze_manager \<Rightarrow> freeze_manager option" where
  "fm_freeze reason duration now fm =
     (let n = fz_consecutive_freezes (fm_state fm) + 1;
          d = (case duration of Some d \<Rightarrow> d | None \<Rightarrow> adaptive_duration fm n)
      in if n < 2 ^ 32 then
           map_option (\<lambda>t. fm\<lparr>fm_state := \<lparr>fz_frozen = True, fz_reason = Some reason, fz_frozen_at = Some now,
             fz_thaw_at = Some t, fz_consecutive_freezes = n, fz_permanent = False\<rparr>\<rparr>) (instant_add now d)
         else None)"

definition fm_freeze_permanent :: "string \<Rightarrow> nat \<Rightarrow> freeze_manager \<Rightarrow> freeze_manager" where
  "fm_freeze_permanent reason now fm =
     fm\<lparr>fm_state := (fm_state fm)\<lparr>fz_frozen := True, fz_reason := Some reason, fz_frozen_at := Some now,
       fz_thaw_at := None, fz_permanent := True\<rparr>\<rparr>"

definition fm_thaw :: "freeze_manager \<Rightarrow> freeze_manager" where
  "fm_thaw fm = fm\<lparr>fm_state := thawed\<rparr>"

text \<open>Returns whether the provider is still frozen.\<close>

definition try_auto_thaw :: "nat \<Rightarrow> freeze_manager \<Rightarrow> bool \<times> freeze_manager" where
  "try_auto_thaw now fm =
     (let s = fm_state fm
      in if fz_permanent s then (True, fm)
         else case fz_thaw_at s of
                None \<Rightarrow> (True, fm)
              | Some t \<Rightarrow>
                  if t \<le> now then
                    (False, fm\<lparr>fm_state := s\<lparr>fz_frozen := False, fz_reason := None, fz_frozen_at := None,
                       fz_thaw_at := None\<rparr>\<rparr>)
                  else (True, fm))"

definition fm_is_frozen :: "nat \<Rightarrow> freeze_manager \<Rightarrow> bool \<times> freeze_manager" where
  "fm_is_frozen now fm =
     (let s = fm_state fm
      in if \<not> fz_frozen s then (False, fm)
         else case fz_thaw_at s of
                None \<Rightarrow> (True, fm)
              | Some t \<Rightarrow> if t \<le> now then try_auto_thaw now fm else (True, fm))"

text \<open>What the pool does with the freeze manager of a provider after an error
  (\<open>pool.rs\<close>); the text of the error is its display.\<close>

definition report_freeze :: "string \<Rightarrow> nat \<Rightarrow> provider_error \<Rightarrow> freeze_manager \<Rightarrow> freeze_manager option" where
  "report_freeze text now e fm =
     (let se = classify_provider_error e
      in if \<not> should_freeze se then Some fm
         else if is_permanent se then Some (fm_freeze_permanent text now fm)
         else case freeze_duration se of
                Some d \<Rightarrow> fm_freeze text (Some d) now fm
              | None \<Rightarrow> fm_freeze text None now fm)"

text \<open>A health check with the given outcome (\<open>health.rs\<close>).\<close>

definition check_and_thaw ::
  "(provider_error \<Rightarrow> string) \<Rightarrow> nat \<Rightarrow> provider_error option \<Rightarrow> freeze_manager \<Rightarrow>
     (provider_error option \<times> freeze_manager) option" where
  "check_and_thaw display now outcome fm = (case outcome of
      None \<Rightarrow> Some (None, fm_thaw fm)
    | Some e \<Rightarrow> map_option (\<lambda>fm'. (Some e, fm')) (fm_freeze (''health check failed: '' @ display e) None now fm))"

section \<open>Retry delays\<close>

datatype pool_backoff = PbFixed | PbExponential

record pool_retry =
  pr_enabled :: bool
  pr_max_retries :: nat
  pr_initial_delay_ms :: nat
  pr_max_delay_ms :: nat
  pr_backoff :: pool_backoff
  pr_jitter_percent :: nat
  pr_request_timeout_ms :: nat
  pr_stream_start_timeout_ms :: nat
  pr_stream_first_event_timeout_ms :: nat
  pr_stream_idle_timeout_ms :: nat
  pr_total_retry_timeout_ms :: nat

definition default_pool_retry :: pool_retry where
  "default_pool_retry = \<lparr>pr_enabled = True, pr_max_retries = 3, pr_initial_delay_ms = 1000,
     pr_max_delay_ms = 30000, pr_backoff = PbExponential, pr_jitter_percent = 100,
     pr_request_timeout_ms = 120000, pr_stream_start_timeout_ms = 30000,
     pr_stream_first_event_timeout_ms = 30000, pr_stream_idle_timeout_ms = 60000,
     pr_total_retry_timeout_ms = 240000\<rparr>"

definition base_delay :: "pool_retry \<Rightarrow> nat \<Rightarrow> nat" where
  "base_delay cfg attempt =
     min (case pr_backoff cfg of
            PbFixed \<Rightarrow> pr_initial_delay_ms cfg
          | PbExponential \<Rightarrow> saturating_mul (pr_initial_delay_ms cfg) (2 ^ min (attempt - 1) 63))
       (pr_max_delay_ms cfg)"

text \<open>The delay in milliseconds, for a sample of 64 bits.\<close>

definition delay_for_sample :: "pool_retry \<Rightarrow> nat \<Rightarrow> nat \<Rightarrow> nat" where
  "delay_for_sample cfg attempt sample =
     (let base = base_delay cfg attempt;
          jitter = min (pr_jitter_percent cfg) 100;
          lower = saturating_mul base (100 - jitter) div 100;
          span = base - lower;
          sampled = (if sample = u64_max then span else sample * span div u64_max)
      in min (lower + sampled) u64_max)"

text \<open>\<open>delay_for\<close>: the sample is the time since 1970 in nanoseconds, exclusive or the attempt.\<close>

definition delay_for :: "pool_retry \<Rightarrow> nat \<Rightarrow> nat \<Rightarrow> nat" where
  "delay_for cfg attempt unix_nanos = delay_for_sample cfg attempt (min unix_nanos u64_max XOR attempt)"

section \<open>How long a freeze holds\<close>

text \<open>What is reported about a provider between two moments: an error of a request, or the
  question whether it is frozen.\<close>

datatype health_event =
  HeReport string provider_error
| HeAsk
| HeCheck "provider_error option"

text \<open>The events happen at the given moments; the result has the answers to the questions.\<close>

fun health_step :: "(provider_error \<Rightarrow> string) \<Rightarrow> nat \<times> health_event \<Rightarrow> freeze_manager \<Rightarrow>
    (bool list \<times> freeze_manager) option" where
  "health_step disp (now, HeReport text e) fm = map_option (\<lambda>fm'. ([], fm')) (report_freeze text now e fm)"
| "health_step disp (now, HeAsk) fm = Some (let (b, fm') = fm_is_frozen now fm in ([b], fm'))"
| "health_step disp (now, HeCheck outcome) fm = map_option (\<lambda>(_, fm'). ([], fm')) (check_and_thaw disp now outcome fm)"

fun health_run :: "(provider_error \<Rightarrow> string) \<Rightarrow> (nat \<times> health_event) list \<Rightarrow> freeze_manager \<Rightarrow>
    (bool list \<times> freeze_manager) option" where
  "health_run disp [] fm = Some ([], fm)"
| "health_run disp (e # es) fm = (case health_step disp e fm of
      None \<Rightarrow> None
    | Some (bs, fm') \<Rightarrow> map_option (\<lambda>(cs, fm''). (bs @ cs, fm'')) (health_run disp es fm'))"

text \<open>A permanently frozen state; a state frozen until some moment.\<close>

definition frozen_for_good :: "freeze_manager \<Rightarrow> bool" where
  "frozen_for_good fm = (fz_frozen (fm_state fm) \<and> fz_permanent (fm_state fm) \<and> fz_thaw_at (fm_state fm) = None)"

definition frozen_until :: "nat \<Rightarrow> freeze_manager \<Rightarrow> bool" where
  "frozen_until t fm = (fz_frozen (fm_state fm) \<and> \<not> fz_permanent (fm_state fm) \<and> fz_thaw_at (fm_state fm) = Some t)"

lemma is_frozen_for_good [simp]: "frozen_for_good fm \<Longrightarrow> fm_is_frozen now fm = (True, fm)"
  by (simp add: frozen_for_good_def fm_is_frozen_def Let_def)

lemma is_frozen_until: "frozen_until t fm \<Longrightarrow> fst (fm_is_frozen now fm) \<longleftrightarrow> now < t"
  by (auto simp: frozen_until_def fm_is_frozen_def try_auto_thaw_def Let_def)

lemma is_frozen_until_keeps: "frozen_until t fm \<Longrightarrow> now < t \<Longrightarrow> fm_is_frozen now fm = (True, fm)"
  by (auto simp: frozen_until_def fm_is_frozen_def try_auto_thaw_def Let_def)

lemma freeze_permanent_for_good [simp]: "frozen_for_good (fm_freeze_permanent text now fm)"
  by (simp add: frozen_for_good_def fm_freeze_permanent_def)

lemma freeze_until:
  "fm_freeze text (Some d) now fm = Some fm' \<Longrightarrow> frozen_until (now + d) fm'"
  by (auto simp: fm_freeze_def frozen_until_def instant_add_def Let_def split: if_splits)

text \<open>An error that freezes for good, and one that does not freeze.\<close>

definition harmless :: "provider_error \<Rightarrow> bool" where
  "harmless e = (\<not> should_freeze (classify_provider_error e))"

definition fatal :: "provider_error \<Rightarrow> bool" where
  "fatal e = is_permanent (classify_provider_error e)"

lemma fatal_freezes: "is_permanent s \<Longrightarrow> should_freeze s"
  by (cases s) auto

lemma transient_has_duration:
  "should_freeze s \<Longrightarrow> \<not> is_permanent s \<Longrightarrow> freeze_duration s \<noteq> None"
  by (cases s) auto

lemma report_harmless: "harmless e \<Longrightarrow> report_freeze text now e fm = Some fm"
  by (simp add: harmless_def report_freeze_def Let_def)

lemma report_fatal: "fatal e \<Longrightarrow> report_freeze text now e fm = Some (fm_freeze_permanent text now fm)"
  by (simp add: fatal_def report_freeze_def Let_def fatal_freezes)

lemma report_transient:
  assumes "\<not> harmless e" "\<not> fatal e"
  obtains d where "freeze_duration (classify_provider_error e) = Some d"
    "report_freeze text now e fm = fm_freeze text (Some d) now fm"
  using assms transient_has_duration [of "classify_provider_error e"]
  by (cases "freeze_duration (classify_provider_error e)")
    (auto simp: harmless_def fatal_def report_freeze_def Let_def)

section \<open>How long a retry waits\<close>

lemma delay_between:
  "saturating_mul (base_delay cfg k) (100 - min (pr_jitter_percent cfg) 100) div 100 \<le> base_delay cfg k"
proof -
  have "saturating_mul (base_delay cfg k) (100 - min (pr_jitter_percent cfg) 100) \<le> base_delay cfg k * 100"
    by (simp add: saturating_mul_def min.coboundedI1)
  from div_le_mono [OF this, of 100] show ?thesis by simp
qed

lemma scaled_le: "(s::nat) \<le> m \<Longrightarrow> 0 < m \<Longrightarrow> s * d div m \<le> d"
  by (metis div_le_mono mult_le_mono1 nonzero_mult_div_cancel_left not_less_zero)

text \<open>The window of a delay: it is never below the lower end, and above it by the share of
  the sample.\<close>

definition delay_lower :: "pool_retry \<Rightarrow> nat \<Rightarrow> nat" where
  "delay_lower cfg k = saturating_mul (base_delay cfg k) (100 - min (pr_jitter_percent cfg) 100) div 100"

lemma delay_lower_le: "delay_lower cfg k \<le> base_delay cfg k"
  unfolding delay_lower_def by (rule delay_between)

lemma delay_for_sample_eq:
  "delay_for_sample cfg k s = min (delay_lower cfg k + (if s = u64_max then base_delay cfg k - delay_lower cfg k
     else s * (base_delay cfg k - delay_lower cfg k) div u64_max)) u64_max"
  by (simp add: delay_for_sample_def delay_lower_def Let_def)

lemma delay_sample_le:
  assumes "s \<le> u64_max"
  shows "delay_for_sample cfg k s \<le> base_delay cfg k"
proof -
  let ?d = "base_delay cfg k - delay_lower cfg k"
  have "s * ?d div u64_max \<le> ?d"
    by (rule scaled_le) (use assms in \<open>simp_all add: u64_max_def\<close>)
  then have "(if s = u64_max then ?d else s * ?d div u64_max) \<le> ?d" by simp
  then have "delay_lower cfg k + (if s = u64_max then ?d else s * ?d div u64_max) \<le> base_delay cfg k"
    using delay_lower_le [of cfg k] by linarith
  then show ?thesis unfolding delay_for_sample_eq by (rule min.coboundedI1)
qed

lemma delay_sample_ge: "base_delay cfg k \<le> u64_max \<Longrightarrow> delay_lower cfg k \<le> delay_for_sample cfg k s"
  using delay_lower_le [of cfg k] by (simp add: delay_for_sample_eq)

lemma base_delay_le: "base_delay cfg k \<le> pr_max_delay_ms cfg"
  by (simp add: base_delay_def)

lemma xor_nat_less: "a < 2 ^ n \<Longrightarrow> b < 2 ^ n \<Longrightarrow> (a XOR b :: nat) < 2 ^ n"
  by (metis take_bit_nat_eq_self_iff take_bit_xor)

lemma small_sample_delay:
  assumes "s < 2 ^ 61"
  shows "delay_for_sample cfg k s \<le> delay_lower cfg k + (base_delay cfg k - delay_lower cfg k) div 8"
proof -
  let ?d = "base_delay cfg k - delay_lower cfg k"
  have "s * 8 \<le> u64_max" using assms by (simp add: u64_max_def)
  then have "(s * ?d) * 8 \<le> u64_max * ?d" by (metis mult.commute mult.left_commute mult_le_mono1)
  then have "s * ?d \<le> (u64_max * ?d) div 8" by (simp add: less_eq_div_iff_mult_less_eq)
  then have "s * ?d div u64_max \<le> (u64_max * ?d) div 8 div u64_max" by (rule div_le_mono)
  also have "\<dots> = ?d div 8"
    by (simp add: div_mult2_eq [symmetric] mult.commute [of 8] u64_max_def)
  finally show ?thesis using assms by (simp add: delay_for_sample_eq min.coboundedI1 u64_max_def)
qed

section \<open>The theorems\<close>

definition lasting :: "health_event \<Rightarrow> bool" where
  "lasting e = (case e of HeAsk \<Rightarrow> True | HeReport _ x \<Rightarrow> harmless x \<or> fatal x | HeCheck _ \<Rightarrow> False)"

definition asks :: "(nat \<times> health_event) list \<Rightarrow> nat" where
  "asks es = length (filter (\<lambda>e. snd e = HeAsk) es)"

lemma lasting_step:
  assumes "frozen_for_good fm" "lasting (snd e)"
  shows "\<exists>fm'. health_step disp e fm = Some (if snd e = HeAsk then [True] else [], fm') \<and> frozen_for_good fm'"
  using assms by (cases e; cases "snd e") (auto simp: lasting_def report_harmless report_fatal)

lemma lasting_run:
  assumes "frozen_for_good fm" "\<forall>e \<in> set es. lasting (snd e)"
  shows "\<exists>fm'. health_run disp es fm = Some (replicate (asks es) True, fm') \<and> frozen_for_good fm'"
  using assms
proof (induction es arbitrary: fm)
  case (Cons e es)
  obtain fm1 where 1: "health_step disp e fm = Some (if snd e = HeAsk then [True] else [], fm1)"
    "frozen_for_good fm1" using lasting_step Cons.prems by (metis list.set_intros(1))
  with Cons.IH [of fm1] Cons.prems(2) show ?case
    by (auto simp: asks_def)
qed (simp add: asks_def)

lemma transient_ends_freeze:
  assumes "\<not> harmless e \<and> \<not> fatal e \<and> report_freeze text now e fm = Some fm'"
  shows "fst (fm_is_frozen later fm') \<longleftrightarrow> later < now + the (freeze_duration (classify_provider_error e))"
proof -
  obtain d where "freeze_duration (classify_provider_error e) = Some d"
    "report_freeze text now e fm = fm_freeze text (Some d) now fm"
    using assms by (elim conjE report_transient)
  with assms show ?thesis using is_frozen_until [OF freeze_until [of "text" d now fm fm']] by simp
qed

lemma failed_check_ends_freeze:
  assumes "check_and_thaw disp now (Some e) fm = Some (r, fm')"
  shows "fst (fm_is_frozen later fm')
    \<longleftrightarrow> later < now + adaptive_duration fm (fz_consecutive_freezes (fm_state fm) + 1)"
proof -
  have "frozen_until (now + adaptive_duration fm (fz_consecutive_freezes (fm_state fm) + 1)) fm'"
    using assms by (auto simp: check_and_thaw_def fm_freeze_def frozen_until_def instant_add_def Let_def
      split: if_splits)
  then show ?thesis by (rule is_frozen_until)
qed

text \<open>C16: A retry waits at least the lower end of its window and at most the backoff
  delay, which never exceeds the configured maximum.  The sample of the running program is
  the clock itself, so until the year 2043, when the clock reaches \<open>2 ^ 61\<close> nanoseconds,
  the wait uses only the lowest eighth of the jitter range.\<close>

theorem retry_delay_bounds:
  assumes "pr_max_delay_ms cfg \<le> u64_max" and "s \<le> u64_max" and "k < 2 ^ 32" and "nanos < 2 ^ 61"
  shows "base_delay cfg k \<le> pr_max_delay_ms cfg
    \<and> delay_lower cfg k \<le> delay_for_sample cfg k s \<and> delay_for_sample cfg k s \<le> base_delay cfg k
    \<and> delay_lower cfg k \<le> delay_for cfg k nanos
    \<and> delay_for cfg k nanos \<le> delay_lower cfg k + (base_delay cfg k - delay_lower cfg k) div 8"
proof -
  have b: "base_delay cfg k \<le> u64_max"
    using base_delay_le [of cfg k] assms(1) by linarith
  have x: "min nanos u64_max XOR k < 2 ^ 61"
    by (rule xor_nat_less) (use assms(3,4) in auto)
  have "delay_for cfg k nanos \<le> delay_lower cfg k + (base_delay cfg k - delay_lower cfg k) div 8"
    unfolding delay_for_def by (rule small_sample_delay [OF x])
  then show ?thesis
    using base_delay_le [of cfg k] delay_sample_ge [OF b] delay_sample_le [OF assms(2)]
    by (simp add: delay_for_def)
qed

lemma retry_delay_bounds_witness:
  "delay_for default_pool_retry 3 1790000000000000000 \<le> 500 \<and> base_delay default_pool_retry 3 = 4000"
  using retry_delay_bounds [of default_pool_retry 0 3 1790000000000000000]
  by (simp add: delay_lower_def base_delay_def default_pool_retry_def saturating_mul_def u64_max_def)

text \<open>A permanent freeze survives questions, errors that do not freeze and further fatal
  errors.  It does not survive a transient error or a failed health check: each of them turns it
  into a freeze with an end, after which the provider counts as available.\<close>

theorem permanent_freeze_lasts_until_transient_error:
  assumes "frozen_for_good fm" and "\<forall>e \<in> set es. lasting (snd e)"
  shows "\<exists>fm'. health_run disp es fm = Some (replicate (asks es) True, fm') \<and> frozen_for_good fm'
    \<and> (\<forall>now text e fm''. \<not> harmless e \<and> \<not> fatal e \<and> report_freeze text now e fm' = Some fm'' \<longrightarrow>
         (\<forall>later. fst (fm_is_frozen later fm'')
            \<longleftrightarrow> later < now + the (freeze_duration (classify_provider_error e))))
    \<and> (\<forall>now e r fm''. check_and_thaw disp now (Some e) fm' = Some (r, fm'') \<longrightarrow>
         (\<forall>later. fst (fm_is_frozen later fm'')
            \<longleftrightarrow> later < now + adaptive_duration fm' (fz_consecutive_freezes (fm_state fm') + 1)))"
proof -
  obtain fm' where "health_run disp es fm = Some (replicate (asks es) True, fm')" "frozen_for_good fm'"
    using lasting_run [OF assms] by blast
  then show ?thesis using transient_ends_freeze failed_check_ends_freeze by metis
qed

lemma permanent_freeze_lasts_until_transient_error_witness:
  "\<exists>fm'. health_run (\<lambda>_. []) [(5, HeAsk), (6, HeReport ''x'' (PeKeyInvalid ''p'' ''m'')), (7, HeAsk)]
       (fm_freeze_permanent ''k'' 1 (freeze_manager_new 30 3600)) = Some ([True, True], fm') \<and> frozen_for_good fm'"
  using permanent_freeze_lasts_until_transient_error
    [of "fm_freeze_permanent ''k'' 1 (freeze_manager_new 30 3600)"
      "[(5, HeAsk), (6, HeReport ''x'' (PeKeyInvalid ''p'' ''m'')), (7, HeAsk)]" "\<lambda>_. []"]
  by (auto simp: lasting_def fatal_def asks_def numeral_2_eq_2)

end
