(* ===== verification/ProviderPool.thy ===== *)
theory ProviderPool
  imports ProviderHealth LoopGuard
begin

text \<open>
  The provider pool: routing (\<open>y-provider/src/router.rs\<close>), metrics (\<open>metrics.rs\<close>), the
  admission scheduler (\<open>scheduler.rs\<close>), and the requests and streams of \<open>pool.rs\<close>.

  Requests run concurrently.  The model is a step relation: a request waits for the permit of the
  pool, then for the permit of its provider, runs, and gives its permits back; a stream stays
  open after that, and the future of a request can be dropped at every await point.  The
  semaphores are counters here, and a step may serve any waiter, where the code's semaphores
  serve them in order.  What a provider answers, when an attempt starts and ends and what the
  clock shows are parameters of the steps.
\<close>

section \<open>Providers and requests\<close>

datatype provider_type = PtOpenAi | PtAnthropic | PtGemini | PtOllama | PtAzure | PtOpenRouter | PtCustom
datatype tool_calling_mode = TmPromptBased | TmNative
datatype tool_dialect = TdOpenAi | TdAnthropic | TdGemini | TdYAgentXml | TdDeepSeekDsml | TdMiniMaxM2
  | TdLongcat | TdGenericXml
datatype provider_capability = PcText | PcVision | PcImageGeneration
datatype route_priority = RpCritical | RpNormal | RpIdle

record provider_metadata =
  pm_id :: string
  pm_provider_type :: provider_type
  pm_model :: string
  pm_tags :: "string list"
  pm_capabilities :: "provider_capability list"
  pm_max_concurrency :: nat
  pm_context_window :: nat
  pm_cost_per_1k_input :: f64
  pm_cost_per_1k_output :: f64
  pm_tool_calling_mode :: tool_calling_mode
  pm_tool_dialect :: tool_dialect

record route_request =
  rq_required_tags :: "string list"
  rq_required_capabilities :: "provider_capability list"
  rq_preferred_provider_id :: "string option"
  rq_preferred_model :: "string option"
  rq_priority :: route_priority

text \<open>A provider in the routing table; \<open>ro_available\<close> is \<open>available_permits\<close> of its
  semaphore.  The entries of the pool share the freeze manager and the semaphore with the table,
  so an entry extends this record.\<close>

record routable =
  ro_meta :: provider_metadata
  ro_freeze :: freeze_manager
  ro_available :: nat
  ro_max_concurrency :: nat

section \<open>Routing\<close>

datatype selection_strategy = SsPriority | SsRandom | SsLeastLoaded | SsRoundRobin | SsCostOptimized

record router =
  rt_next_index :: nat
  rt_strategy :: selection_strategy

text \<open>\<open>Debug\<close> of a list of strings (characters below 256) and of capabilities.\<close>

definition hex_digit :: "nat \<Rightarrow> char" where
  "hex_digit n = char_of (if n < 10 then 48 + n else 87 + n)"

definition debug_char :: "char \<Rightarrow> string" where
  "debug_char c = (let n = (of_char c :: nat); bs = CHR 0x5C in
     if n = 0 then [bs, CHR ''0''] else if n = 9 then [bs, CHR ''t''] else if n = 10 then [bs, CHR ''n'']
     else if n = 13 then [bs, CHR ''r''] else if n = 34 then [bs, CHR 0x22] else if n = 92 then [bs, bs]
     else if n < 32 \<or> (127 \<le> n \<and> n \<le> 160) \<or> n = 173
     then bs # ''u{'' @ (if n < 16 then [] else [hex_digit (n div 16)]) @ [hex_digit (n mod 16)] @ ''}''
     else [c])"

definition debug_str :: "string \<Rightarrow> string" where
  "debug_str s = [CHR 0x22] @ concat (map debug_char s) @ [CHR 0x22]"

definition debug_list :: "('a \<Rightarrow> string) \<Rightarrow> 'a list \<Rightarrow> string" where
  "debug_list f xs = ''['' @ (case xs of [] \<Rightarrow> [] | y # ys \<Rightarrow> f y @ concat (map (\<lambda>z. '', '' @ f z) ys)) @ '']''"

fun debug_capability :: "provider_capability \<Rightarrow> string" where
  "debug_capability PcText = ''Text''"
| "debug_capability PcVision = ''Vision''"
| "debug_capability PcImageGeneration = ''ImageGeneration''"

definition meta_matches :: "route_request \<Rightarrow> provider_metadata \<Rightarrow> bool" where
  "meta_matches rq m = (list_all (\<lambda>t. t \<in> set (pm_tags m)) (rq_required_tags rq)
     \<and> list_all (\<lambda>c. c \<in> set (pm_capabilities m)) (rq_required_capabilities rq))"

fun admits :: "route_priority \<Rightarrow> nat \<Rightarrow> nat \<Rightarrow> bool" where
  "admits RpIdle available max_concurrency = (available > 0)"
| "admits RpCritical available max_concurrency = True"
| "admits RpNormal available max_concurrency = (available > max_concurrency div 5)"

text \<open>The candidates, and the providers after their freezes were looked at; \<open>clk i\<close> is what
  the clock shows when provider \<open>i\<close> is asked.\<close>

fun scan :: "(nat \<Rightarrow> nat) \<Rightarrow> route_request \<Rightarrow> nat \<Rightarrow> 'a routable_scheme list \<Rightarrow> nat list \<times> 'a routable_scheme list" where
  "scan clk rq i [] = ([], [])"
| "scan clk rq i (p # ps) =
     (let (frozen, fm) = fm_is_frozen (clk i) (ro_freeze p);
          (cs, ps') = scan clk rq (i + 1) ps
      in (if \<not> frozen \<and> meta_matches rq (ro_meta p)
              \<and> admits (rq_priority rq) (ro_available p) (ro_max_concurrency p)
          then i # cs else cs,
          p\<lparr>ro_freeze := fm\<rparr> # ps'))"

text \<open>\<open>Iterator::max_by_key\<close> keeps the last of several maxima, \<open>min_by\<close> the first of several
  minima; incomparable costs count as equal.\<close>

fun last_max :: "('a \<Rightarrow> nat) \<Rightarrow> 'a \<Rightarrow> 'a list \<Rightarrow> 'a" where
  "last_max f x [] = x"
| "last_max f x (y # ys) = last_max f (if f x > f y then x else y) ys"

fun first_min :: "('a \<Rightarrow> f64) \<Rightarrow> 'a \<Rightarrow> 'a list \<Rightarrow> 'a" where
  "first_min f x [] = x"
| "first_min f x (y # ys) = first_min f (if f64_gt (f x) (f y) then y else x) ys"

definition apply_strategy ::
  "nat \<Rightarrow> 'a routable_scheme list \<Rightarrow> nat list \<Rightarrow> router \<Rightarrow> nat \<times> router" where
  "apply_strategy seed ps cs rt = (case rt_strategy rt of
      SsPriority \<Rightarrow> (hd cs, rt)
    | SsRandom \<Rightarrow> (cs ! (seed mod length cs), rt)
    | SsLeastLoaded \<Rightarrow> (last_max (\<lambda>i. ro_available (ps ! i)) (hd cs) (tl cs), rt)
    | SsRoundRobin \<Rightarrow>
        (cs ! (rt_next_index rt mod length cs), rt\<lparr>rt_next_index := (rt_next_index rt + 1) mod 2 ^ 64\<rparr>)
    | SsCostOptimized \<Rightarrow> (first_min (\<lambda>i. pm_cost_per_1k_input (ro_meta (ps ! i))) (hd cs) (tl cs), rt))"

definition select_preferred :: "string \<Rightarrow> 'a routable_scheme list \<Rightarrow> route_request \<Rightarrow> provider_error + nat" where
  "select_preferred pid ps rq =
     (case List.find (\<lambda>i. pm_id (ro_meta (ps ! i)) = pid) [0..<length ps] of
        None \<Rightarrow> Inl (PeOther (''preferred provider '' @ [CHR 0x27] @ pid @ [CHR 0x27] @ '' is not registered''))
      | Some i \<Rightarrow>
          if meta_matches rq (ro_meta (ps ! i)) then Inr i
          else Inl (PeOther (''preferred provider '' @ [CHR 0x27] @ pid @ [CHR 0x27] @
            '' does not match required tags '' @ debug_list debug_str (rq_required_tags rq) @
            '' and capabilities '' @ debug_list debug_capability (rq_required_capabilities rq))))"

text \<open>\<open>select\<close>: the choice, the providers and the router afterwards.\<close>

definition select :: "(nat \<Rightarrow> nat) \<Rightarrow> nat \<Rightarrow> 'a routable_scheme list \<Rightarrow> route_request \<Rightarrow> router \<Rightarrow>
    (provider_error + nat) \<times> 'a routable_scheme list \<times> router" where
  "select clk seed ps rq rt =
     (case rq_preferred_provider_id rq of
        Some pid \<Rightarrow> (select_preferred pid ps rq, ps, rt)
      | None \<Rightarrow>
          (let (cs, ps') = scan clk rq 0 ps
           in if cs = [] then (Inl (PeNoProviderAvailable (rq_required_tags rq)), ps', rt)
              else case (case rq_preferred_model rq of None \<Rightarrow> None
                         | Some m \<Rightarrow> List.find (\<lambda>i. pm_model (ro_meta (ps' ! i)) = m) cs) of
                     Some i \<Rightarrow> (Inr i, ps', rt)
                   | None \<Rightarrow> (let (i, rt') = apply_strategy seed ps' cs rt in (Inr i, ps', rt'))))"

section \<open>The admission scheduler\<close>

record scheduler =
  sc_active_critical :: nat
  sc_active_normal :: nat
  sc_active_idle :: nat
  sc_total_capacity :: nat
  sc_critical_reserve_pct :: nat

definition scheduler_new :: "nat \<Rightarrow> nat \<Rightarrow> scheduler" where
  "scheduler_new capacity pct = \<lparr>sc_active_critical = 0, sc_active_normal = 0, sc_active_idle = 0,
     sc_total_capacity = capacity, sc_critical_reserve_pct = min pct 100\<rparr>"

definition saturating_add :: "nat \<Rightarrow> nat \<Rightarrow> nat" where
  "saturating_add a b = min (a + b) u64_max"

definition active_total :: "scheduler \<Rightarrow> nat" where
  "active_total s = saturating_add (saturating_add (sc_active_critical s) (sc_active_normal s)) (sc_active_idle s)"

text \<open>The product of capacity and percentage stays below \<open>2 ^ 64\<close> for every capacity up to
  \<open>2 ^ 57\<close>, far more requests than fit in memory.\<close>

definition reserved_capacity :: "scheduler \<Rightarrow> nat" where
  "reserved_capacity s = sc_total_capacity s * sc_critical_reserve_pct s div 100"

fun should_admit :: "route_priority \<Rightarrow> scheduler \<Rightarrow> bool" where
  "should_admit RpCritical s = (active_total s < sc_total_capacity s)"
| "should_admit RpNormal s = (saturating_add (active_total s) (reserved_capacity s) < sc_total_capacity s)"
| "should_admit RpIdle s = (active_total s < sc_total_capacity s div 2
     \<and> saturating_add (active_total s) (reserved_capacity s) < sc_total_capacity s)"

fun record_start :: "route_priority \<Rightarrow> scheduler \<Rightarrow> scheduler" where
  "record_start RpCritical s = s\<lparr>sc_active_critical := (sc_active_critical s + 1) mod 2 ^ 64\<rparr>"
| "record_start RpNormal s = s\<lparr>sc_active_normal := (sc_active_normal s + 1) mod 2 ^ 64\<rparr>"
| "record_start RpIdle s = s\<lparr>sc_active_idle := (sc_active_idle s + 1) mod 2 ^ 64\<rparr>"

fun record_complete :: "route_priority \<Rightarrow> scheduler \<Rightarrow> scheduler" where
  "record_complete RpCritical s = s\<lparr>sc_active_critical := sc_active_critical s - 1\<rparr>"
| "record_complete RpNormal s = s\<lparr>sc_active_normal := sc_active_normal s - 1\<rparr>"
| "record_complete RpIdle s = s\<lparr>sc_active_idle := sc_active_idle s - 1\<rparr>"

section \<open>Metrics\<close>

record metrics_event =
  me_input_tokens :: "32 word"
  me_output_tokens :: "32 word"
  me_cost_micros :: "64 word"
  me_is_error :: bool

text \<open>The events are those sent to the persistence layer, in order.  What a request costs in
  millionths of a dollar is computed in floating point and an argument here.\<close>

record metrics =
  mt_total_requests :: "64 word"
  mt_total_errors :: "64 word"
  mt_total_input_tokens :: "64 word"
  mt_total_output_tokens :: "64 word"
  mt_cost_micros :: "64 word"
  mt_events :: "metrics_event list"

definition metrics_new :: metrics where
  "metrics_new = \<lparr>mt_total_requests = 0, mt_total_errors = 0, mt_total_input_tokens = 0,
     mt_total_output_tokens = 0, mt_cost_micros = 0, mt_events = []\<rparr>"

definition add_tokens :: "32 word \<Rightarrow> 32 word \<Rightarrow> 64 word \<Rightarrow> metrics \<Rightarrow> metrics" where
  "add_tokens i out cost m = m\<lparr>mt_total_input_tokens := mt_total_input_tokens m + ucast i,
     mt_total_output_tokens := mt_total_output_tokens m + ucast out,
     mt_cost_micros := mt_cost_micros m + cost,
     mt_events := mt_events m @ [\<lparr>me_input_tokens = i, me_output_tokens = out, me_cost_micros = cost, me_is_error = False\<rparr>]\<rparr>"

definition record_success_with_cost :: "32 word \<Rightarrow> 32 word \<Rightarrow> 64 word \<Rightarrow> metrics \<Rightarrow> metrics" where
  "record_success_with_cost i out cost m =
     add_tokens i out cost (m\<lparr>mt_total_requests := mt_total_requests m + 1\<rparr>)"

definition record_stream_completion :: "32 word \<Rightarrow> 32 word \<Rightarrow> 64 word \<Rightarrow> metrics \<Rightarrow> metrics" where
  "record_stream_completion i out cost m = add_tokens i out cost m"

definition record_success :: "32 word \<Rightarrow> 32 word \<Rightarrow> metrics \<Rightarrow> metrics" where
  "record_success i out m = m\<lparr>mt_total_requests := mt_total_requests m + 1,
     mt_total_input_tokens := mt_total_input_tokens m + ucast i,
     mt_total_output_tokens := mt_total_output_tokens m + ucast out,
     mt_events := mt_events m @ (if i > 0 \<or> out > 0
       then [\<lparr>me_input_tokens = i, me_output_tokens = out, me_cost_micros = 0, me_is_error = False\<rparr>] else [])\<rparr>"

definition metrics_reset :: "metrics \<Rightarrow> metrics" where
  "metrics_reset m = m\<lparr>mt_total_requests := 0, mt_total_errors := 0, mt_total_input_tokens := 0,
     mt_total_output_tokens := 0, mt_cost_micros := 0\<rparr>"

definition record_error :: "metrics \<Rightarrow> metrics" where
  "record_error m = m\<lparr>mt_total_requests := mt_total_requests m + 1, mt_total_errors := mt_total_errors m + 1,
     mt_events := mt_events m @ [\<lparr>me_input_tokens = 0, me_output_tokens = 0, me_cost_micros = 0, me_is_error = True\<rparr>]\<rparr>"

section \<open>The pool\<close>

text \<open>The part of a request and of a response that the pool reads or writes; the rest is a
  type parameter.\<close>

record 'r chat_request =
  cr_max_tokens :: "32 word option"
  cr_temperature :: "f64 option"
  cr_top_p :: "f64 option"
  cr_rest :: 'r

record 'o chat_response =
  co_input_tokens :: "32 word"
  co_output_tokens :: "32 word"
  co_provider_id :: "string option"
  co_rest :: 'o

record stream_response =
  so_provider_id :: "string option"
  so_model :: string
  so_context_window :: nat

record provider_entry = routable +
  pe_default_max_tokens :: "32 word option"
  pe_default_temperature :: "f64 option"
  pe_default_top_p :: "f64 option"
  pe_metrics :: metrics
  pe_active_requests :: nat

record pool =
  po_providers :: "provider_entry list"
  po_router :: router
  po_global :: "nat option"
  po_retry :: pool_retry

definition opt_or :: "'a option \<Rightarrow> 'a option \<Rightarrow> 'a option" where
  "opt_or a b = (case a of None \<Rightarrow> b | Some _ \<Rightarrow> a)"

definition apply_request_defaults :: "'r chat_request \<Rightarrow> provider_entry \<Rightarrow> 'r chat_request" where
  "apply_request_defaults r e = r\<lparr>cr_max_tokens := opt_or (cr_max_tokens r) (pe_default_max_tokens e),
     cr_temperature := opt_or (cr_temperature r) (pe_default_temperature e),
     cr_top_p := opt_or (cr_top_p r) (pe_default_top_p e)\<rparr>"

definition should_retry :: "pool_retry \<Rightarrow> provider_error \<Rightarrow> bool" where
  "should_retry cfg e = (pr_enabled cfg \<and> should_auto_retry (classify_provider_error e))"

text \<open>One attempt: how long the retries already take when it starts, what the provider
  answers within the given deadline (nothing when the deadline passes first), how long the
  retries took when it is over, and the clock the next delay samples.\<close>

record ('r, 'o) request_attempt =
  at_elapsed_before :: nat
  at_answer :: "'r \<Rightarrow> nat \<Rightarrow> (provider_error + 'o) option"
  at_elapsed_after :: nat
  at_unix_nanos :: nat

definition attempt_result :: "string \<Rightarrow> nat \<Rightarrow> nat \<Rightarrow> 'r \<Rightarrow> ('r, 'o) request_attempt \<Rightarrow> provider_error + 'o" where
  "attempt_result what timeout_ms budget req a =
     (case at_answer a req (min (from_millis timeout_ms) budget) of
        Some r \<Rightarrow> r
      | None \<Rightarrow> Inl (PeNetworkError None (what @ '' timeout after '' @ show_nat timeout_ms @ '' ms'')))"

text \<open>The retry loop from attempt \<open>k\<close> on, the same for requests and stream starts, with the
  number of the last attempt.  \<open>Duration::saturating_add\<close> saturates far above the total timeout.\<close>

definition duration_max :: nat where "duration_max = 2 ^ 64 * 10 ^ 9 - 1"

function retry_attempts :: "string \<Rightarrow> nat \<Rightarrow> pool_retry \<Rightarrow> 'r \<Rightarrow> (nat \<Rightarrow> ('r, 'o) request_attempt) \<Rightarrow> nat \<Rightarrow>
    (provider_error + 'o) \<times> nat" where
  "retry_attempts what timeout_ms cfg req w k =
     (let total = from_millis (pr_total_retry_timeout_ms cfg);
          budget = total - at_elapsed_before (w k)
      in if budget = 0 then
           (Inl (PeNetworkError None (''total retry timeout after '' @ show_nat (pr_total_retry_timeout_ms cfg) @ '' ms'')), k)
         else case attempt_result what timeout_ms budget req (w k) of
                Inr x \<Rightarrow> (Inr x, k)
              | Inl e \<Rightarrow>
                  if k < pr_max_retries cfg \<and> should_retry cfg e then
                    (if min (at_elapsed_after (w k) + from_millis (delay_for cfg (k + 1) (at_unix_nanos (w k)))) duration_max \<ge> total
                     then (Inl e, k + 1)
                     else retry_attempts what timeout_ms cfg req w (k + 1))
                  else (Inl e, k))"
  by pat_completeness auto
termination by (relation "measure (\<lambda>(_, _, cfg, _, _, k). pr_max_retries cfg - k)") auto

declare retry_attempts.simps [simp del]

text \<open>\<open>find_entry\<close>, and reporting an error or recording the tokens of a stream under a
  provider's id.\<close>

definition find_entry :: "string \<Rightarrow> provider_entry list \<Rightarrow> nat option" where
  "find_entry pid ps = List.find (\<lambda>i. pm_id (ro_meta (ps ! i)) = pid) [0..<length ps]"

definition report_error :: "(provider_error \<Rightarrow> string) \<Rightarrow> nat \<Rightarrow> string \<Rightarrow> provider_error \<Rightarrow>
    provider_entry list \<Rightarrow> provider_entry list option" where
  "report_error disp now pid e ps = (case find_entry pid ps of
      None \<Rightarrow> Some ps
    | Some j \<Rightarrow> map_option (\<lambda>fm. ps[j := (ps ! j)\<lparr>ro_freeze := fm\<rparr>])
        (report_freeze (disp e) now e (ro_freeze (ps ! j))))"

definition stream_completed :: "(32 word \<Rightarrow> 32 word \<Rightarrow> f64 \<Rightarrow> f64 \<Rightarrow> 64 word) \<Rightarrow> string \<Rightarrow> 32 word \<Rightarrow> 32 word \<Rightarrow>
    provider_entry list \<Rightarrow> provider_entry list" where
  "stream_completed cost pid i out ps = (case find_entry pid ps of
      None \<Rightarrow> ps
    | Some j \<Rightarrow> (let en = ps ! j in ps[j := en\<lparr>pe_metrics := record_stream_completion i out
        (cost i out (pm_cost_per_1k_input (ro_meta en)) (pm_cost_per_1k_output (ro_meta en))) (pe_metrics en)\<rparr>]))"

text \<open>\<open>freeze\<close> and \<open>thaw\<close> of the pool; the latter with the outcome of the health check.\<close>

definition pool_freeze :: "nat \<Rightarrow> string \<Rightarrow> string \<Rightarrow> provider_entry list \<Rightarrow> provider_entry list option" where
  "pool_freeze now pid reason ps = (case find_entry pid ps of
      None \<Rightarrow> Some ps
    | Some j \<Rightarrow> map_option (\<lambda>fm. ps[j := (ps ! j)\<lparr>ro_freeze := fm\<rparr>])
        (fm_freeze reason None now (ro_freeze (ps ! j))))"

definition pool_thaw :: "(provider_error \<Rightarrow> string) \<Rightarrow> nat \<Rightarrow> string \<Rightarrow> provider_error option \<Rightarrow>
    provider_entry list \<Rightarrow> (provider_error option \<times> provider_entry list) option" where
  "pool_thaw disp now pid outcome ps = (case find_entry pid ps of
      None \<Rightarrow> Some (Some (PeOther (''provider not found: '' @ pid)), ps)
    | Some j \<Rightarrow> map_option (\<lambda>(r, fm). (r, ps[j := (ps ! j)\<lparr>ro_freeze := fm\<rparr>]))
        (check_and_thaw disp now outcome (ro_freeze (ps ! j))))"

text \<open>What a request through provider \<open>i\<close> does when its attempts are over: one error is
  recorded and reported, whatever the number of attempts.\<close>

definition metrics_failure :: "nat \<Rightarrow> provider_entry list \<Rightarrow> provider_entry list" where
  "metrics_failure i ps = ps[i := (ps ! i)\<lparr>pe_metrics := record_error (pe_metrics (ps ! i))\<rparr>]"

definition deactivate :: "nat \<Rightarrow> provider_entry list \<Rightarrow> provider_entry list" where
  "deactivate i ps = ps[i := (ps ! i)\<lparr>pe_active_requests := pe_active_requests (ps ! i) - 1\<rparr>]"

definition finish_chat ::
  "(provider_error \<Rightarrow> string) \<Rightarrow> (32 word \<Rightarrow> 32 word \<Rightarrow> f64 \<Rightarrow> f64 \<Rightarrow> 64 word) \<Rightarrow> nat \<Rightarrow>
     provider_error + 'o chat_response \<Rightarrow> nat \<Rightarrow> provider_entry list \<Rightarrow>
     ((provider_error + 'o chat_response) \<times> provider_entry list) option" where
  "finish_chat disp cost now r i ps =
     (let ps1 = deactivate i ps; en = ps1 ! i; m = ro_meta en
      in case r of
           Inr x \<Rightarrow>
             Some (Inr (x\<lparr>co_provider_id := Some (pm_id m)\<rparr>),
               ps1[i := en\<lparr>pe_metrics := record_success_with_cost (co_input_tokens x) (co_output_tokens x)
                 (cost (co_input_tokens x) (co_output_tokens x) (pm_cost_per_1k_input m) (pm_cost_per_1k_output m))
                 (pe_metrics en)\<rparr>])
         | Inl e \<Rightarrow> map_option (\<lambda>ps2. (Inl e, ps2)) (report_error disp now (pm_id m) e (metrics_failure i ps1)))"

text \<open>The start of a stream: on success the counter of active requests stays up, held by the
  guard inside the stream.\<close>

definition finish_stream_start ::
  "(provider_error \<Rightarrow> string) \<Rightarrow> nat \<Rightarrow> provider_error + stream_response \<Rightarrow> nat \<Rightarrow> provider_entry list \<Rightarrow>
     ((provider_error + stream_response) \<times> provider_entry list) option" where
  "finish_stream_start disp now r i ps = (let m = ro_meta (ps ! i) in case r of
      Inr x \<Rightarrow> Some (Inr (x\<lparr>so_provider_id := Some (pm_id m), so_model := pm_model m,
          so_context_window := pm_context_window m\<rparr>), ps)
    | Inl e \<Rightarrow> map_option (\<lambda>ps'. (Inl e, deactivate i ps'))
        (report_error disp now (pm_id m) e (metrics_failure i ps)))"

section \<open>Streams\<close>

record stream_state =
  ss_first :: bool
  ss_terminated :: bool

text \<open>What polling the inner stream gives within the deadline: an item, an error, the end, or
  the deadline.\<close>

datatype 'i stream_poll = SpItem 'i | SpError provider_error | SpEnd | SpTimeout

text \<open>\<open>unfold\<close>: the item given to the consumer (none at the end), the stream and the entry
  afterwards.\<close>

definition record_failure :: "(provider_error \<Rightarrow> string) \<Rightarrow> nat \<Rightarrow> provider_error \<Rightarrow> provider_entry \<Rightarrow> provider_entry option" where
  "record_failure disp now e en =
     map_option (\<lambda>fm. en\<lparr>pe_metrics := record_error (pe_metrics en), ro_freeze := fm\<rparr>)
       (report_freeze (disp e) now e (ro_freeze en))"

definition stream_next ::
  "(provider_error \<Rightarrow> string) \<Rightarrow> nat \<Rightarrow> pool_retry \<Rightarrow> 'i stream_poll \<Rightarrow> stream_state \<Rightarrow> provider_entry \<Rightarrow>
     ((provider_error + 'i) option \<times> stream_state \<times> provider_entry) option" where
  "stream_next disp now cfg poll st en =
     (if ss_terminated st then Some (None, st, en)
      else case poll of
        SpItem x \<Rightarrow> Some (Some (Inr x), \<lparr>ss_first = False, ss_terminated = False\<rparr>, en)
      | SpError e \<Rightarrow> map_option (\<lambda>en'. (Some (Inl e), \<lparr>ss_first = False, ss_terminated = False\<rparr>, en'))
          (record_failure disp now e en)
      | SpEnd \<Rightarrow>
          if ss_first st then
            (let e = PeOther ''provider returned an empty stream''
             in map_option (\<lambda>en'. (Some (Inl e), \<lparr>ss_first = False, ss_terminated = True\<rparr>, en'))
                  (record_failure disp now e en))
          else Some (None, st, en)
      | SpTimeout \<Rightarrow>
          (let e = PeNetworkError None ((if ss_first st then ''first event'' else ''idle stream'') @ '' timeout after '' @
                 show_nat (if ss_first st then pr_stream_first_event_timeout_ms cfg else pr_stream_idle_timeout_ms cfg) @ '' ms'')
           in map_option (\<lambda>en'. (Some (Inl e), \<lparr>ss_first = False, ss_terminated = True\<rparr>, en'))
                (record_failure disp now e en)))"

section \<open>Concurrent requests\<close>

text \<open>\<open>from_providers\<close>: the entries of the given providers with their request defaults.\<close>

definition entry_new :: "nat \<Rightarrow> nat \<Rightarrow>
    provider_metadata \<times> (32 word option \<times> f64 option \<times> f64 option) \<Rightarrow> provider_entry" where
  "entry_new base mx = (\<lambda>(m, max_tokens, temperature, top_p).
     \<lparr>ro_meta = m, ro_freeze = freeze_manager_new base mx, ro_available = pm_max_concurrency m,
      ro_max_concurrency = pm_max_concurrency m, pe_default_max_tokens = max_tokens,
      pe_default_temperature = temperature, pe_default_top_p = top_p, pe_metrics = metrics_new,
      pe_active_requests = 0\<rparr>)"

definition pool_new :: "(provider_metadata \<times> (32 word option \<times> f64 option \<times> f64 option)) list \<Rightarrow> nat \<Rightarrow> nat \<Rightarrow>
    selection_strategy \<Rightarrow> nat option \<Rightarrow> pool_retry \<Rightarrow> pool" where
  "pool_new providers base mx strategy global retry =
     \<lparr>po_providers = map (entry_new base mx) providers,
      po_router = \<lparr>rt_next_index = 0, rt_strategy = strategy\<rparr>, po_global = global, po_retry = retry\<rparr>"

text \<open>Where a request is: waiting for a permit, running, streaming, over, or dropped while its
  provider was being asked.\<close>

datatype phase = AwaitGlobal | AwaitProvider | Running | Streaming stream_state | Ended | DroppedRunning

record flight =
  fl_provider :: nat
  fl_stream :: bool
  fl_phase :: phase

definition set_phase :: "nat \<Rightarrow> phase \<Rightarrow> flight list \<Rightarrow> flight list" where
  "set_phase k ph fs = fs[k := (fs ! k)\<lparr>fl_phase := ph\<rparr>]"

definition begin_flight :: "nat \<Rightarrow> bool \<Rightarrow> pool \<Rightarrow> flight" where
  "begin_flight i stream p = \<lparr>fl_provider = i, fl_stream = stream,
     fl_phase = (case po_global p of None \<Rightarrow> AwaitProvider | Some _ \<Rightarrow> AwaitGlobal)\<rparr>"

text \<open>Acquiring a permit of the provider and counting the request; giving back its permits.\<close>

definition activate :: "nat \<Rightarrow> provider_entry list \<Rightarrow> provider_entry list" where
  "activate i ps = ps[i := (ps ! i)\<lparr>ro_available := ro_available (ps ! i) - 1,
     pe_active_requests := pe_active_requests (ps ! i) + 1\<rparr>]"

definition release_provider :: "nat \<Rightarrow> provider_entry list \<Rightarrow> provider_entry list" where
  "release_provider i ps = ps[i := (ps ! i)\<lparr>ro_available := ro_available (ps ! i) + 1\<rparr>]"

definition release_global :: "pool \<Rightarrow> pool" where
  "release_global p = p\<lparr>po_global := map_option Suc (po_global p)\<rparr>"

definition give_back :: "nat \<Rightarrow> pool \<Rightarrow> pool" where
  "give_back i p = release_global (p\<lparr>po_providers := release_provider i (po_providers p)\<rparr>)"

inductive pool_step ::
  "(provider_error \<Rightarrow> string) \<Rightarrow> (32 word \<Rightarrow> 32 word \<Rightarrow> f64 \<Rightarrow> f64 \<Rightarrow> 64 word) \<Rightarrow>
     pool \<times> flight list \<Rightarrow> pool \<times> flight list \<Rightarrow> bool"
  for disp cost where
  Submit: "select clk seed (po_providers p) rq (po_router p) = (Inr i, ps, rt) \<Longrightarrow>
    pool_step disp cost (p, fs)
      (p\<lparr>po_providers := ps, po_router := rt\<rparr>, fs @ [begin_flight i stream p])"
| Reject: "select clk seed (po_providers p) rq (po_router p) = (Inl e, ps, rt) \<Longrightarrow>
    pool_step disp cost (p, fs) (p\<lparr>po_providers := ps, po_router := rt\<rparr>, fs)"
| TakeGlobal: "\<lbrakk>k < length fs; fl_phase (fs ! k) = AwaitGlobal; po_global p = Some (Suc g)\<rbrakk> \<Longrightarrow>
    pool_step disp cost (p, fs) (p\<lparr>po_global := Some g\<rparr>, set_phase k AwaitProvider fs)"
| TakeProvider: "\<lbrakk>k < length fs; fl_phase (fs ! k) = AwaitProvider; i = fl_provider (fs ! k);
     0 < ro_available (po_providers p ! i)\<rbrakk> \<Longrightarrow>
    pool_step disp cost (p, fs) (p\<lparr>po_providers := activate i (po_providers p)\<rparr>, set_phase k Running fs)"
| FinishChat: "\<lbrakk>k < length fs; fl_phase (fs ! k) = Running; \<not> fl_stream (fs ! k); i = fl_provider (fs ! k);
     retry_attempts ''request'' (pr_request_timeout_ms (po_retry p)) (po_retry p)
       (apply_request_defaults (req :: unit chat_request) (po_providers p ! i)) w 0 = (r, a);
     finish_chat disp cost now (r :: provider_error + unit chat_response) i (po_providers p) = Some (answer, ps)\<rbrakk> \<Longrightarrow>
    pool_step disp cost (p, fs) (give_back i (p\<lparr>po_providers := ps\<rparr>), set_phase k Ended fs)"
| FinishStream: "\<lbrakk>k < length fs; fl_phase (fs ! k) = Running; fl_stream (fs ! k); i = fl_provider (fs ! k);
     retry_attempts ''stream start'' (pr_stream_start_timeout_ms (po_retry p)) (po_retry p)
       (apply_request_defaults (req :: unit chat_request) (po_providers p ! i)) w 0 = (r, a);
     finish_stream_start disp now r i (po_providers p) = Some (answer, ps)\<rbrakk> \<Longrightarrow>
    pool_step disp cost (p, fs) (give_back i (p\<lparr>po_providers := ps\<rparr>),
      set_phase k (case answer of Inl _ \<Rightarrow> Ended | Inr _ \<Rightarrow> Streaming \<lparr>ss_first = True, ss_terminated = False\<rparr>) fs)"
| StreamNext: "\<lbrakk>k < length fs; fl_phase (fs ! k) = Streaming st; i = fl_provider (fs ! k);
     stream_next disp now (po_retry p) (poll :: unit stream_poll) st (po_providers p ! i) = Some (item, st', en)\<rbrakk> \<Longrightarrow>
    pool_step disp cost (p, fs) (p\<lparr>po_providers := (po_providers p)[i := en]\<rparr>, set_phase k (Streaming st') fs)"
| DropStream: "\<lbrakk>k < length fs; fl_phase (fs ! k) = Streaming st; i = fl_provider (fs ! k)\<rbrakk> \<Longrightarrow>
    pool_step disp cost (p, fs) (p\<lparr>po_providers := deactivate i (po_providers p)\<rparr>, set_phase k Ended fs)"
| Completion: "pool_step disp cost (p, fs)
      (p\<lparr>po_providers := stream_completed cost pid inp out (po_providers p)\<rparr>, fs)"
| Freeze: "pool_freeze now pid reason (po_providers p) = Some ps \<Longrightarrow>
    pool_step disp cost (p, fs) (p\<lparr>po_providers := ps\<rparr>, fs)"
| Thaw: "pool_thaw disp now pid outcome (po_providers p) = Some (answer, ps) \<Longrightarrow>
    pool_step disp cost (p, fs) (p\<lparr>po_providers := ps\<rparr>, fs)"
| CancelGlobal: "\<lbrakk>k < length fs; fl_phase (fs ! k) = AwaitGlobal\<rbrakk> \<Longrightarrow>
    pool_step disp cost (p, fs) (p, set_phase k Ended fs)"
| CancelProvider: "\<lbrakk>k < length fs; fl_phase (fs ! k) = AwaitProvider\<rbrakk> \<Longrightarrow>
    pool_step disp cost (p, fs) (release_global p, set_phase k Ended fs)"
| CancelChat: "\<lbrakk>k < length fs; fl_phase (fs ! k) = Running; \<not> fl_stream (fs ! k)\<rbrakk> \<Longrightarrow>
    pool_step disp cost (p, fs) (give_back (fl_provider (fs ! k)) p, set_phase k DroppedRunning fs)"
| CancelStream: "\<lbrakk>k < length fs; fl_phase (fs ! k) = Running; fl_stream (fs ! k); i = fl_provider (fs ! k)\<rbrakk> \<Longrightarrow>
    pool_step disp cost (p, fs)
      (give_back i (p\<lparr>po_providers := deactivate i (po_providers p)\<rparr>), set_phase k Ended fs)"

end
