(* ===== verification/ProviderPoolCorrect.thy ===== *)
theory ProviderPoolCorrect
  imports ProviderPool
begin

text \<open>
  What the router, the retries and the pool of \<open>ProviderPool\<close> guarantee: the chosen provider
  qualifies, only transient errors are retried, permits and counters are accounted for in every
  interleaving of requests, and what the metrics of streams count.
\<close>

section \<open>The router\<close>

text \<open>A provider that can serve a request: its freeze is over, it matches, and the priority of
  the request is admitted.\<close>

definition qualifies :: "(nat \<Rightarrow> nat) \<Rightarrow> route_request \<Rightarrow> nat \<Rightarrow> 'a routable_scheme \<Rightarrow> bool" where
  "qualifies clk rq i p = (\<not> fst (fm_is_frozen (clk i) (ro_freeze p)) \<and> meta_matches rq (ro_meta p)
     \<and> admits (rq_priority rq) (ro_available p) (ro_max_concurrency p))"

definition thaw_due :: "(nat \<Rightarrow> nat) \<Rightarrow> nat \<Rightarrow> 'a routable_scheme \<Rightarrow> 'a routable_scheme" where
  "thaw_due clk i p = p\<lparr>ro_freeze := snd (fm_is_frozen (clk i) (ro_freeze p))\<rparr>"

lemma thaw_due_simps [simp]:
  "ro_meta (thaw_due clk i p) = ro_meta p" "ro_available (thaw_due clk i p) = ro_available p"
  "ro_max_concurrency (thaw_due clk i p) = ro_max_concurrency p"
  by (simp_all add: thaw_due_def)

lemma scan_providers: "snd (scan clk rq n ps) = map (\<lambda>i. thaw_due clk (n + i) (ps ! i)) [0..<length ps]"
proof (induction ps arbitrary: n)
  case (Cons p ps)
  show ?case
    by (simp add: Cons.IH split_beta Let_def thaw_due_def upt_conv_Cons map_Suc_upt [symmetric]
        del: upt_Suc)
qed simp

lemma scan_candidates:
  "fst (scan clk rq n ps) = map (\<lambda>i. n + i) (filter (\<lambda>i. qualifies clk rq (n + i) (ps ! i)) [0..<length ps])"
proof (induction ps arbitrary: n)
  case (Cons p ps)
  show ?case
    by (simp add: Cons.IH split_beta Let_def qualifies_def upt_conv_Cons map_Suc_upt [symmetric] filter_map comp_def
        del: upt_Suc)
qed simp

definition eligible :: "(nat \<Rightarrow> nat) \<Rightarrow> route_request \<Rightarrow> 'a routable_scheme list \<Rightarrow> nat list" where
  "eligible clk rq ps = filter (\<lambda>i. qualifies clk rq i (ps ! i)) [0..<length ps]"

definition thaw_all :: "(nat \<Rightarrow> nat) \<Rightarrow> 'a routable_scheme list \<Rightarrow> 'a routable_scheme list" where
  "thaw_all clk ps = map (\<lambda>i. thaw_due clk i (ps ! i)) [0..<length ps]"

lemma length_thaw_all [simp]: "length (thaw_all clk ps) = length ps"
  by (simp add: thaw_all_def)

lemma nth_thaw_all [simp]: "i < length ps \<Longrightarrow> thaw_all clk ps ! i = thaw_due clk i (ps ! i)"
  by (simp add: thaw_all_def)

lemma scan_eq: "scan clk rq 0 ps = (eligible clk rq ps, thaw_all clk ps)"
  using scan_candidates [of clk rq 0 ps] scan_providers [of clk rq 0 ps]
  by (simp add: eligible_def thaw_all_def prod_eq_iff)

lemma in_eligible: "i \<in> set (eligible clk rq ps) \<longleftrightarrow> i < length ps \<and> qualifies clk rq i (ps ! i)"
  by (auto simp: eligible_def)

lemma last_max_in: "last_max f x ys \<in> set (x # ys)"
  by (induction f x ys rule: last_max.induct) auto

lemma last_max_ge: "y \<in> set (x # ys) \<Longrightarrow> f y \<le> f (last_max f x ys)"
proof (induction f x ys arbitrary: y rule: last_max.induct)
  case (2 f x z zs)
  then show ?case by (cases "f z < f x") (auto, force+)
qed simp

lemma first_min_in: "first_min f x ys \<in> set (x # ys)"
  by (induction f x ys rule: first_min.induct) auto

lemma strategy_in: "cs \<noteq> [] \<Longrightarrow> fst (apply_strategy seed ps cs rt) \<in> set cs"
  using last_max_in [of "\<lambda>i. ro_available (ps ! i)" "hd cs" "tl cs"]
    first_min_in [of "\<lambda>i. pm_cost_per_1k_input (ro_meta (ps ! i))" "hd cs" "tl cs"]
  by (auto simp: apply_strategy_def split: selection_strategy.splits)

lemma find_in: "List.find P xs = Some x \<Longrightarrow> x \<in> set xs \<and> P x"
  by (auto simp: find_Some_iff)

lemma select_range:
  assumes "select clk seed ps rq rt = (Inr i, ps', rt')"
  shows "i < length ps"
proof (cases "rq_preferred_provider_id rq")
  case (Some pid)
  with assms show ?thesis
    by (auto simp: select_def select_preferred_def split: option.splits if_splits dest!: find_in)
next
  case None
  then have "i \<in> set (eligible clk rq ps)"
    using assms strategy_in [of "eligible clk rq ps" seed "thaw_all clk ps" rt]
    by (auto simp: select_def scan_eq Let_def split_beta prod_eq_iff split: option.splits if_splits dest!: find_in)
  then show ?thesis by (simp add: in_eligible)
qed

text \<open>What each strategy promises of its choice among the eligible providers.\<close>

definition best_choice :: "router \<Rightarrow> 'a routable_scheme list \<Rightarrow> nat list \<Rightarrow> nat \<Rightarrow> bool" where
  "best_choice rt ps cs i = (let cost = (\<lambda>j. pm_cost_per_1k_input (ro_meta (ps ! j))) in
     i \<in> set cs \<and> (case rt_strategy rt of
        SsPriority \<Rightarrow> \<forall>j \<in> set cs. i \<le> j
      | SsRandom \<Rightarrow> True
      | SsLeastLoaded \<Rightarrow> \<forall>j \<in> set cs. ro_available (ps ! j) \<le> ro_available (ps ! i)
      | SsRoundRobin \<Rightarrow> i = cs ! (rt_next_index rt mod length cs)
      | SsCostOptimized \<Rightarrow> (\<forall>j \<in> set cs. cost j \<noteq> F64_NaN) \<longrightarrow> (\<forall>j \<in> set cs. \<not> f64_gt (cost i) (cost j))))"

lemma f64_not_gt_trans:
  "\<not> f64_gt a b \<Longrightarrow> \<not> f64_gt b c \<Longrightarrow> a \<noteq> F64_NaN \<Longrightarrow> b \<noteq> F64_NaN \<Longrightarrow> c \<noteq> F64_NaN \<Longrightarrow> \<not> f64_gt a c"
  by (cases a; cases b; cases c) auto

lemma f64_gt_irrefl [simp]: "\<not> f64_gt a a"
  by (cases a) auto

lemma f64_gt_asym: "f64_gt a b \<Longrightarrow> \<not> f64_gt b a"
  by (cases a; cases b) auto

lemma first_min_le:
  "\<forall>y \<in> set (x # ys). f y \<noteq> F64_NaN \<Longrightarrow> y \<in> set (x # ys) \<Longrightarrow> \<not> f64_gt (f (first_min f x ys)) (f y)"
proof (induction f x ys arbitrary: y rule: first_min.induct)
  case (2 f x z zs)
  let ?m = "if f64_gt (f x) (f z) then z else x"
  have fin: "\<forall>y \<in> set (?m # zs). f y \<noteq> F64_NaN" using "2.prems"(1) by auto
  have le: "\<not> f64_gt (f (first_min f ?m zs)) (f ?m)" "\<forall>y \<in> set zs. \<not> f64_gt (f (first_min f ?m zs)) (f y)"
    using "2.IH" [OF fin] by simp_all
  have nn: "f (first_min f ?m zs) \<noteq> F64_NaN" using first_min_in [of f ?m zs] fin by auto
  have "\<not> f64_gt (f ?m) (f x)" "\<not> f64_gt (f ?m) (f z)" using f64_gt_asym [of "f x" "f z"] by auto
  then have "\<not> f64_gt (f (first_min f ?m zs)) (f x)" "\<not> f64_gt (f (first_min f ?m zs)) (f z)"
    using f64_not_gt_trans [OF le(1) _ nn] fin "2.prems"(1) by (auto split: if_splits)
  then show ?case using le(2) "2.prems"(2) by auto
qed simp

lemma hd_least: "sorted cs \<Longrightarrow> j \<in> set cs \<Longrightarrow> hd cs \<le> (j :: nat)"
  by (cases cs) auto

lemma apply_strategy_best:
  assumes "cs \<noteq> []" "sorted cs"
  shows "best_choice rt ps cs (fst (apply_strategy seed ps cs rt))"
proof -
  have cs: "hd cs # tl cs = cs" using assms(1) by simp
  show ?thesis
    using strategy_in [OF assms(1), of seed ps rt] hd_least [OF assms(2)]
      last_max_ge [of _ "hd cs" "tl cs" "\<lambda>i. ro_available (ps ! i)"]
      first_min_le [of "hd cs" "tl cs" "\<lambda>i. pm_cost_per_1k_input (ro_meta (ps ! i))"]
    unfolding cs by (auto simp: best_choice_def apply_strategy_def Let_def split: selection_strategy.splits)
qed

lemma best_choice_thaw [simp]:
  "set cs \<subseteq> {..<length ps} \<Longrightarrow> best_choice rt (thaw_all clk ps) cs i = best_choice rt ps cs i"
  by (auto simp: best_choice_def Let_def subset_iff split: selection_strategy.splits)

lemma eligible_sorted: "sorted (eligible clk rq ps)"
  by (simp add: eligible_def sorted_wrt_filter)

lemma eligible_range: "set (eligible clk rq ps) \<subseteq> {..<length ps}"
  by (auto simp: eligible_def)

definition model_of :: "'a routable_scheme list \<Rightarrow> nat \<Rightarrow> string" where
  "model_of ps i = pm_model (ro_meta (ps ! i))"

lemma model_of_thaw [simp]: "i < length ps \<Longrightarrow> model_of (thaw_all clk ps) i = model_of ps i"
  by (simp add: model_of_def)

text \<open>The provider \<open>select\<close> has to choose.\<close>

definition right_choice :: "(nat \<Rightarrow> nat) \<Rightarrow> route_request \<Rightarrow> router \<Rightarrow> 'a routable_scheme list \<Rightarrow> nat \<Rightarrow> bool" where
  "right_choice clk rq rt ps i =
     (let ids = eligible clk rq ps; wanted = filter (\<lambda>j. rq_preferred_model rq = Some (model_of ps j)) ids
      in if wanted = [] then best_choice rt ps ids i else i = hd wanted)"

lemma find_filter: "List.find P xs = (case filter P xs of [] \<Rightarrow> None | x # _ \<Rightarrow> Some x)"
  by (induction xs) auto

lemma select_free:
  assumes "rq_preferred_provider_id rq = None"
  shows "eligible clk rq ps = [] \<Longrightarrow>
      select clk seed ps rq rt = (Inl (PeNoProviderAvailable (rq_required_tags rq)), thaw_all clk ps, rt)"
    and "eligible clk rq ps \<noteq> [] \<Longrightarrow>
      \<exists>i rt'. select clk seed ps rq rt = (Inr i, thaw_all clk ps, rt') \<and> right_choice clk rq rt ps i"
proof -
  show "eligible clk rq ps = [] \<Longrightarrow>
      select clk seed ps rq rt = (Inl (PeNoProviderAvailable (rq_required_tags rq)), thaw_all clk ps, rt)"
    using assms by (simp add: select_def scan_eq)
next
  let ?ids = "eligible clk rq ps"
  let ?w = "filter (\<lambda>j. rq_preferred_model rq = Some (model_of ps j)) ?ids"
  assume ne: "?ids \<noteq> []"
  have w: "filter (\<lambda>i. pm_model (ro_meta (thaw_all clk ps ! i)) = m) ?ids = filter (\<lambda>j. m = model_of ps j) ?ids" for m
    using eligible_range [of clk rq ps] by (auto simp: model_of_def intro!: filter_cong)
  obtain i rt' where a: "apply_strategy seed (thaw_all clk ps) ?ids rt = (i, rt')" by (cases "apply_strategy seed (thaw_all clk ps) ?ids rt")
  then have b: "best_choice rt ps ?ids i"
    using apply_strategy_best [OF ne eligible_sorted, of rt "thaw_all clk ps" seed] eligible_range [of clk rq ps]
    by simp
  show "\<exists>i rt'. select clk seed ps rq rt = (Inr i, thaw_all clk ps, rt') \<and> right_choice clk rq rt ps i"
    using assms ne a b
    by (cases "rq_preferred_model rq"; cases ?w) (simp_all add: select_def scan_eq find_filter w right_choice_def)
qed

text \<open>Without an explicit choice, a request goes to a provider that is not frozen, has every
  required tag and capability and admits its priority: the first with the preferred model when
  there is one, else the one the strategy promises.  It is refused only when no provider
  qualifies.  Freezes whose time is over end, nothing else changes.\<close>

theorem selected_provider_qualifies:
  assumes "rq_preferred_provider_id rq = None"
  shows "fst (snd (select clk seed ps rq rt)) = thaw_all clk ps
    \<and> (case fst (select clk seed ps rq rt) of
         Inl e \<Rightarrow> e = PeNoProviderAvailable (rq_required_tags rq) \<and> (\<forall>i < length ps. \<not> qualifies clk rq i (ps ! i))
       | Inr i \<Rightarrow> i < length ps \<and> qualifies clk rq i (ps ! i) \<and> right_choice clk rq rt ps i)"
proof (cases "eligible clk rq ps = []")
  case True
  then have "\<forall>i < length ps. \<not> qualifies clk rq i (ps ! i)"
    by (auto simp: eligible_def filter_empty_conv)
  with True select_free(1) [OF assms True, of seed rt] show ?thesis by simp
next
  case False
  obtain i rt' where s: "select clk seed ps rq rt = (Inr i, thaw_all clk ps, rt')" "right_choice clk rq rt ps i"
    using select_free(2) [OF assms False] by blast
  then have "i \<in> set (eligible clk rq ps)"
    by (auto simp: right_choice_def best_choice_def Let_def split: if_splits dest!: hd_in_set)
  with s show ?thesis by (simp add: in_eligible)
qed

text \<open>The scheduler admits the more urgent requests whenever it admits the less urgent ones; the
  router admits idle requests where it refuses normal ones.\<close>

lemma scheduler_priorities:
  "should_admit RpIdle s \<Longrightarrow> should_admit RpNormal s"
  "should_admit RpNormal s \<Longrightarrow> sc_total_capacity s \<le> u64_max \<Longrightarrow> should_admit RpCritical s"
  by (auto simp: saturating_add_def)

lemma router_admits_idle_before_normal:
  "admits RpIdle 1 5 \<and> \<not> admits RpNormal 1 5"
  by simp

definition sample_meta :: "string \<Rightarrow> string \<Rightarrow> nat \<Rightarrow> provider_metadata" where
  "sample_meta pid m n = \<lparr>pm_id = pid, pm_provider_type = PtOpenAi, pm_model = m, pm_tags = [''fast''],
     pm_capabilities = [PcText], pm_max_concurrency = n, pm_context_window = 8, pm_cost_per_1k_input = F64_Fin 1,
     pm_cost_per_1k_output = F64_Fin 2, pm_tool_calling_mode = TmNative, pm_tool_dialect = TdOpenAi\<rparr>"

definition sample_route :: route_request where
  "sample_route = \<lparr>rq_required_tags = [''fast''], rq_required_capabilities = [], rq_preferred_provider_id = None,
     rq_preferred_model = Some ''b'', rq_priority = RpNormal\<rparr>"

lemma selected_provider_qualifies_witness:
  "fst (select (\<lambda>_. 0) 0 (map (entry_new 30 60) [(sample_meta ''p'' ''a'' 5, None, None, None), (sample_meta ''q'' ''b'' 5, None, None, None)])
     sample_route \<lparr>rt_next_index = 0, rt_strategy = SsPriority\<rparr>) = Inr 1
   \<and> qualifies (\<lambda>_. 0) sample_route 1 (entry_new 30 60 (sample_meta ''q'' ''b'' 5, None, None, None))"
proof -
  let ?ps = "map (entry_new 30 60) [(sample_meta ''p'' ''a'' 5, None, None, None), (sample_meta ''q'' ''b'' 5, None, None, None)]"
  let ?s = "select (\<lambda>_. 0) 0 ?ps sample_route \<lparr>rt_next_index = 0, rt_strategy = SsPriority\<rparr>"
  have s: "fst ?s = Inr 1" by code_simp
  have "rq_preferred_provider_id sample_route = None" by (simp add: sample_route_def)
  from selected_provider_qualifies [OF this, of "\<lambda>_. 0" 0 ?ps "\<lparr>rt_next_index = 0, rt_strategy = SsPriority\<rparr>"] s
  show ?thesis by simp
qed

section \<open>Retries\<close>

lemma retry_attempts_trace:
  assumes "retry_attempts what timeout_ms cfg req w k0 = (r, k)" and "k0 \<le> pr_max_retries cfg"
  shows "k0 \<le> k \<and> k \<le> pr_max_retries cfg
    \<and> (\<forall>j. k0 \<le> j \<and> j < k \<longrightarrow>
         (\<exists>e. attempt_result what timeout_ms (from_millis (pr_total_retry_timeout_ms cfg) - at_elapsed_before (w j)) req (w j) = Inl e
            \<and> should_retry cfg e \<and> at_elapsed_before (w j) < from_millis (pr_total_retry_timeout_ms cfg)))
    \<and> (\<forall>x. r = Inr x \<longrightarrow>
         attempt_result what timeout_ms (from_millis (pr_total_retry_timeout_ms cfg) - at_elapsed_before (w k)) req (w k) = Inr x)"
  using assms
proof (induction what timeout_ms cfg req w k0 rule: retry_attempts.induct)
  case (1 what timeout_ms cfg req w k0)
  let ?total = "from_millis (pr_total_retry_timeout_ms cfg)"
  let ?b = "?total - at_elapsed_before (w k0)"
  let ?a = "attempt_result what timeout_ms ?b req (w k0)"
  let ?late = "min (at_elapsed_after (w k0) + from_millis (delay_for cfg (k0 + 1) (at_unix_nanos (w k0)))) duration_max \<ge> ?total"
  show ?case
  proof (cases "\<exists>e. ?a = Inl e \<and> ?b \<noteq> 0 \<and> k0 < pr_max_retries cfg \<and> should_retry cfg e")
    case False
    with "1.prems" show ?thesis
      by (subst (asm) retry_attempts.simps) (auto simp: Let_def split: if_splits sum.splits)
  next
    case True
    then obtain e where e: "?a = Inl e" "?b \<noteq> 0" "k0 < pr_max_retries cfg" "should_retry cfg e" by blast
    show ?thesis
    proof (cases ?late)
      case True
      with e "1.prems" have "r = Inl e" "k = k0 + 1"
        by (subst (asm) retry_attempts.simps, simp)+
      with e show ?thesis by (auto simp: less_Suc_eq)
    next
      case False
      with e "1.prems" have n: "retry_attempts what timeout_ms cfg req w (k0 + 1) = (r, k)"
        by (subst (asm) retry_attempts.simps) (auto simp: Let_def split: if_splits)
      have "k0 + 1 \<le> pr_max_retries cfg" using e by simp
      note ih = "1.IH" [OF refl refl e(2,1) conjI [OF e(3,4)] False n this]
      have "\<And>j. k0 \<le> j \<Longrightarrow> j < k \<Longrightarrow> j = k0 \<or> k0 + 1 \<le> j" by auto
      with ih e show ?thesis by (metis Suc_eq_plus1 Suc_leD zero_less_diff gr0I)
    qed
  qed
qed

text \<open>A request is tried at most once more than the configured retries.  Every attempt but
  the last ended in an error that may be retried, and every attempt started within the total
  time; a successful result is the answer of the last attempt.\<close>

theorem only_transient_errors_are_retried:
  assumes "retry_attempts what timeout_ms cfg req w 0 = (r, k)"
  shows "k \<le> pr_max_retries cfg
    \<and> (\<forall>j < k. \<exists>e. attempt_result what timeout_ms (from_millis (pr_total_retry_timeout_ms cfg) - at_elapsed_before (w j)) req (w j) = Inl e
         \<and> should_retry cfg e \<and> at_elapsed_before (w j) < from_millis (pr_total_retry_timeout_ms cfg))
    \<and> (\<forall>x. r = Inr x \<longrightarrow>
         attempt_result what timeout_ms (from_millis (pr_total_retry_timeout_ms cfg) - at_elapsed_before (w k)) req (w k) = Inr x)"
  using retry_attempts_trace [OF assms] by simp

definition sample_attempts :: "nat \<Rightarrow> (unit, nat) request_attempt" where
  "sample_attempts k = \<lparr>at_elapsed_before = k, at_answer = (\<lambda>_ _. if k < 2 then None else Some (Inr 7)),
     at_elapsed_after = k, at_unix_nanos = 0\<rparr>"

lemma only_transient_errors_are_retried_witness:
  "retry_attempts ''request'' 120000 default_pool_retry () sample_attempts 0 = (Inr 7, 2)
   \<and> 2 \<le> pr_max_retries default_pool_retry \<and> (\<exists>e. should_retry default_pool_retry e)"
proof -
  have r: "retry_attempts ''request'' 120000 default_pool_retry () sample_attempts 0 = (Inr 7, 2)"
    by (simp add: retry_attempts.simps [of _ _ _ _ _ 0] retry_attempts.simps [of _ _ _ _ _ "Suc 0"]
        retry_attempts.simps [of _ _ _ _ _ 2] attempt_result_def sample_attempts_def should_retry_def
        default_pool_retry_def from_millis_def delay_for_def delay_for_sample_def base_delay_def
        saturating_mul_def u64_max_def duration_max_def Let_def numeral_2_eq_2 [symmetric])
  from only_transient_errors_are_retried [OF r] r zero_less_numeral [of "num.Bit0 num.One"] show ?thesis by blast
qed

section \<open>Permits and counters\<close>

text \<open>What the accounts of a provider show: its available permits, their number, and the counter
  of active requests.\<close>

named_theorems acct_simps \<open>how the operations of the pool change the accounts\<close>

definition acct :: "provider_entry \<Rightarrow> nat \<times> nat \<times> nat" where
  "acct e = (ro_available e, ro_max_concurrency e, pe_active_requests e)"

lemma map_acct_same:
  assumes "i < length ps \<Longrightarrow> acct e = acct (ps ! i)"
  shows "map acct (ps[i := e]) = map acct ps"
  by (metis assms list_update_beyond list_update_id map_update not_le)

lemma acct_freeze [acct_simps]: "map acct (ps[j := (ps ! j)\<lparr>ro_freeze := fm\<rparr>]) = map acct ps"
  by (rule map_acct_same) (simp add: acct_def)

lemma acct_metrics [acct_simps]: "map acct (ps[j := (ps ! j)\<lparr>pe_metrics := m\<rparr>]) = map acct ps"
  by (rule map_acct_same) (simp add: acct_def)

lemma acct_failure [acct_simps]: "map acct (metrics_failure i ps) = map acct ps"
  by (simp add: metrics_failure_def acct_simps)

lemma acct_report: "report_error disp now pid e ps = Some ps' \<Longrightarrow> map acct ps' = map acct ps"
  by (auto simp: report_error_def acct_simps split: option.splits)

lemma acct_completed [acct_simps]: "map acct (stream_completed cost pid i out ps) = map acct ps"
  by (auto simp: stream_completed_def Let_def acct_simps split: option.splits)

lemma acct_pool_freeze: "pool_freeze now pid reason ps = Some ps' \<Longrightarrow> map acct ps' = map acct ps"
  by (auto simp: pool_freeze_def acct_simps split: option.splits)

lemma acct_pool_thaw: "pool_thaw disp now pid outcome ps = Some (a, ps') \<Longrightarrow> map acct ps' = map acct ps"
  by (auto simp: pool_thaw_def acct_simps split: option.splits)

lemma acct_thaw_all [acct_simps]: "map acct (thaw_all clk ps) = map acct ps"
  by (rule nth_equalityI) (simp_all add: acct_def thaw_due_def)

lemma acct_select: "select clk seed ps rq rt = (r, ps', rt') \<Longrightarrow> map acct ps' = map acct ps"
  by (auto simp: select_def scan_eq Let_def split_beta acct_simps split: option.splits if_splits)

definition set_acct :: "nat \<Rightarrow> (nat \<Rightarrow> nat) \<Rightarrow> (nat \<Rightarrow> nat) \<Rightarrow> (nat \<times> nat \<times> nat) list \<Rightarrow> (nat \<times> nat \<times> nat) list" where
  "set_acct i f g vs = vs[i := (case vs ! i of (a, m, c) \<Rightarrow> (f a, m, g c))]"

lemma set_acct_id: "set_acct i (\<lambda>a. a) (\<lambda>c. c) vs = vs"
  by (simp add: set_acct_def split_beta)

lemma set_acct_twice: "set_acct i f g (set_acct i f' g' vs) = set_acct i (\<lambda>a. f (f' a)) (\<lambda>c. g (g' c)) vs"
  by (cases "i < length vs") (simp_all add: set_acct_def split_beta list_update_beyond)

lemma map_acct_update:
  "i < length ps \<Longrightarrow> acct e = (case acct (ps ! i) of (a, m, c) \<Rightarrow> (f a, m, g c)) \<Longrightarrow>
     map acct (ps[i := e]) = set_acct i f g (map acct ps)"
  by (simp add: map_update set_acct_def)

lemma acct_deactivate [acct_simps]:
  "i < length ps \<Longrightarrow> map acct (deactivate i ps) = set_acct i (\<lambda>a. a) (\<lambda>c. c - 1) (map acct ps)"
  unfolding deactivate_def by (rule map_acct_update) (simp_all add: acct_def)

lemma acct_activate [acct_simps]:
  "i < length ps \<Longrightarrow> map acct (activate i ps) = set_acct i (\<lambda>a. a - 1) Suc (map acct ps)"
  unfolding activate_def by (rule map_acct_update) (simp_all add: acct_def)

lemma acct_release [acct_simps]:
  "i < length ps \<Longrightarrow> map acct (release_provider i ps) = set_acct i Suc (\<lambda>c. c) (map acct ps)"
  unfolding release_provider_def by (rule map_acct_update) (simp_all add: acct_def)

lemma acct_length: "map acct ps' = map acct ps \<Longrightarrow> length ps' = length ps"
  by (metis length_map)

lemma length_deactivate [simp]: "length (deactivate i ps) = length ps"
  by (simp add: deactivate_def)

lemma length_failure [simp]: "length (metrics_failure i ps) = length ps"
  by (simp add: metrics_failure_def)

lemma acct_finish_chat:
  assumes "finish_chat disp cost now r i ps = Some (answer, ps')" "i < length ps"
  shows "map acct ps' = set_acct i (\<lambda>a. a) (\<lambda>c. c - 1) (map acct ps)"
proof (cases r)
  case (Inr x)
  with assms show ?thesis by (auto simp: finish_chat_def Let_def acct_simps)
next
  case (Inl e)
  with assms show ?thesis by (auto simp: finish_chat_def Let_def acct_simps dest: acct_report)
qed

lemma acct_finish_stream:
  assumes "finish_stream_start disp now r i ps = Some (answer, ps')" "i < length ps"
  shows "map acct ps' = set_acct i (\<lambda>a. a) (\<lambda>c. if answer \<in> range Inr then c else c - 1) (map acct ps)"
proof (cases r)
  case (Inr x)
  with assms have "answer \<in> range Inr" "ps' = ps" by (auto simp: finish_stream_start_def Let_def)
  then show ?thesis by (simp add: set_acct_id)
next
  case (Inl e)
  then obtain ps1 where "report_error disp now (pm_id (ro_meta (ps ! i))) e (metrics_failure i ps) = Some ps1"
    "ps' = deactivate i ps1" "answer = Inl e"
    using assms(1) by (auto simp: finish_stream_start_def Let_def)
  note r = this
  have v: "map acct ps1 = map acct ps" using acct_report [OF r(1)] by (simp only: acct_failure)
  have "i < length ps1" using acct_length [OF v] assms(2) by simp
  moreover have "answer \<notin> range Inr" using r(3) by auto
  ultimately show ?thesis using acct_deactivate [of i ps1] v r(2) by simp
qed

lemma acct_stream_next:
  "stream_next disp now cfg poll st en = Some (item, st', en') \<Longrightarrow> acct en' = acct en"
  by (auto simp: stream_next_def record_failure_def acct_def Let_def split: if_splits stream_poll.splits)

text \<open>Which flights hold a permit of their provider, a permit of the pool, and which are
  counted as active.\<close>

fun running :: "phase \<Rightarrow> bool" where
  "running Running = True"
| "running _ = False"

fun counted :: "phase \<Rightarrow> bool" where
  "counted Running = True"
| "counted (Streaming _) = True"
| "counted DroppedRunning = True"
| "counted _ = False"

fun admitted :: "phase \<Rightarrow> bool" where
  "admitted AwaitProvider = True"
| "admitted Running = True"
| "admitted _ = False"

definition tally :: "(flight \<Rightarrow> bool) \<Rightarrow> flight list \<Rightarrow> nat" where
  "tally P fs = length (filter P fs)"

lemma tally_append [simp]: "tally P (fs @ [f]) = tally P fs + of_bool (P f)"
  by (simp add: tally_def)

lemma tally_set_phase:
  assumes "k < length fs"
  shows "tally P (set_phase k ph fs) + of_bool (P (fs ! k)) = tally P fs + of_bool (P ((fs ! k)\<lparr>fl_phase := ph\<rparr>))"
proof -
  have fs: "fs = take k fs @ fs ! k # drop (Suc k) fs" using assms by (rule id_take_nth_drop)
  have "tally P (set_phase k ph fs) = tally P (take k fs @ (fs ! k)\<lparr>fl_phase := ph\<rparr> # drop (Suc k) fs)"
    using assms by (simp add: set_phase_def upd_conv_take_nth_drop)
  moreover have "tally P fs = tally P (take k fs @ fs ! k # drop (Suc k) fs)" using fs by simp
  ultimately show ?thesis by (simp add: tally_def)
qed

lemma tally_pos: "k < length fs \<Longrightarrow> P (fs ! k) \<Longrightarrow> 0 < tally P fs"
  by (metis filter_empty_conv length_greater_0_conv nth_mem tally_def)

definition via :: "nat \<Rightarrow> (phase \<Rightarrow> bool) \<Rightarrow> flight \<Rightarrow> bool" where
  "via i P f = (fl_provider f = i \<and> P (fl_phase f))"

lemma tally_at_set_phase:
  assumes "k < length fs"
  shows "tally (via i P) (set_phase k ph fs) + of_bool (i = fl_provider (fs ! k) \<and> P (fl_phase (fs ! k)))
    = tally (via i P) fs + of_bool (i = fl_provider (fs ! k) \<and> P ph)"
  using tally_set_phase [OF assms, of "via i P" ph] by (auto simp: via_def split: if_splits)

text \<open>The accounts balance: permits are available or held, the counter counts what it should, for
  every provider and for the pool.\<close>

definition settled :: "nat \<Rightarrow> flight list \<Rightarrow> nat \<Rightarrow> nat \<times> nat \<times> nat \<Rightarrow> bool" where
  "settled i fs l v = (case v of (a, m, c) \<Rightarrow>
     m = l \<and> a + tally (via i running) fs = l \<and> c = tally (via i counted) fs)"

fun settled_global :: "flight list \<Rightarrow> nat option \<Rightarrow> nat option \<Rightarrow> bool" where
  "settled_global fs None g = (g = None)"
| "settled_global fs (Some G) g = (\<exists>n. g = Some n \<and> n + tally (admitted \<circ> fl_phase) fs = G)"

definition balanced :: "nat list \<Rightarrow> nat option \<Rightarrow> (nat \<times> nat \<times> nat) list \<Rightarrow> nat option \<Rightarrow> flight list \<Rightarrow> bool" where
  "balanced L G vs g fs = (length vs = length L \<and> (\<forall>f \<in> set fs. fl_provider f < length L)
     \<and> (\<forall>i < length L. settled i fs (L ! i) (vs ! i)) \<and> settled_global fs G g)"

lemma length_set_acct [simp]: "length (set_acct i f g vs) = length vs"
  by (simp add: set_acct_def)

lemma nth_set_acct: "j < length vs \<Longrightarrow>
    set_acct i f g vs ! j = (if j = i then case vs ! j of (a, m, c) \<Rightarrow> (f a, m, g c) else vs ! j)"
  by (simp add: set_acct_def)

lemma length_set_phase [simp]: "length (set_phase k ph fs) = length fs"
  by (simp add: set_phase_def)

lemma in_set_phase: "k < length fs \<Longrightarrow> f \<in> set (set_phase k ph fs) \<Longrightarrow> \<exists>f' \<in> set fs. fl_provider f = fl_provider f' \<and> fl_stream f = fl_stream f'"
  unfolding set_phase_def by (erule subsetD [OF set_update_subset_insert, THEN insertE]) auto

lemma settled_other:
  assumes "k < length fs" "i \<noteq> fl_provider (fs ! k)" "settled i fs l v"
  shows "settled i (set_phase k ph fs) l v"
  using assms tally_at_set_phase [OF assms(1), of i running ph] tally_at_set_phase [OF assms(1), of i counted ph]
  by (simp add: settled_def split_beta)

lemma balanced_change:
  assumes bal: "balanced L G vs g fs" and k: "k < length fs" "i = fl_provider (fs ! k)"
    and perm: "\<And>a. (0 < tally (via i running) fs \<or> \<not> running (fl_phase (fs ! k))) \<Longrightarrow> fst (vs ! i) = a \<Longrightarrow>
      f a + of_bool (running ph) = a + of_bool (running (fl_phase (fs ! k)))"
    and act: "\<And>c. 0 < c \<or> \<not> counted (fl_phase (fs ! k)) \<Longrightarrow>
      h c + of_bool (counted (fl_phase (fs ! k))) = c + of_bool (counted ph)"
    and glob: "\<And>G'. G = Some G' \<Longrightarrow> \<exists>n n'. g = Some n \<and> g' = Some n'
      \<and> n' + of_bool (admitted ph) = n + of_bool (admitted (fl_phase (fs ! k)))" "g = None \<Longrightarrow> g' = None"
  shows "balanced L G (set_acct i f h vs) g' (set_phase k ph fs)"
proof -
  have l: "length vs = length L" "i < length L" using bal k by (auto simp: balanced_def)
  obtain a m c where v: "vs ! i = (a, m, c)" by (cases "vs ! i")
  have s: "m = L ! i" "a + tally (via i running) fs = L ! i" "c = tally (via i counted) fs"
    using bal l v by (auto simp: balanced_def settled_def)
  have pos: "counted (fl_phase (fs ! k)) \<Longrightarrow> 0 < c" "running (fl_phase (fs ! k)) \<Longrightarrow> 0 < tally (via i running) fs"
    using tally_pos [OF k(1), of "via i counted"] tally_pos [OF k(1), of "via i running"] s(3) k(2) by (auto simp: via_def)
  have "f a + of_bool (running ph) = a + of_bool (running (fl_phase (fs ! k)))" using perm pos(2) v by auto
  moreover have "h c + of_bool (counted (fl_phase (fs ! k))) = c + of_bool (counted ph)" using act pos(1) by auto
  ultimately have "settled i (set_phase k ph fs) (L ! i) (f a, m, h c)"
    using s tally_at_set_phase [OF k(1), of i running ph] tally_at_set_phase [OF k(1), of i counted ph] k(2)
    by (simp add: settled_def)
  then have "\<forall>j < length L. settled j (set_phase k ph fs) (L ! j) (set_acct i f h vs ! j)"
    using bal l v k by (auto simp: nth_set_acct balanced_def intro: settled_other)
  moreover have "settled_global (set_phase k ph fs) G g'"
    using bal glob tally_set_phase [OF k(1), of "admitted \<circ> fl_phase" ph]
    by (cases G) (auto simp: balanced_def)
  moreover have "\<forall>f \<in> set (set_phase k ph fs). fl_provider f < length L"
    using bal in_set_phase [OF k(1)] by (fastforce simp: balanced_def)
  ultimately show ?thesis using l by (simp add: balanced_def)
qed

definition pool_balanced :: "nat list \<Rightarrow> nat option \<Rightarrow> pool \<times> flight list \<Rightarrow> bool" where
  "pool_balanced L G = (\<lambda>(p, fs). balanced L G (map acct (po_providers p)) (po_global p) fs)"

lemma balanced_length: "balanced L G vs g fs \<Longrightarrow> length vs = length L"
  by (simp add: balanced_def)

lemma balanced_provider: "balanced L G vs g fs \<Longrightarrow> k < length fs \<Longrightarrow> fl_provider (fs ! k) < length vs"
  by (simp add: balanced_def)

lemma balanced_global: "balanced L G vs g fs \<Longrightarrow> (g = None) = (G = None)"
  by (cases G) (auto simp: balanced_def)

lemma balanced_submit:
  assumes "balanced L G (map acct (po_providers p)) (po_global p) fs" "i < length (po_providers p)"
  shows "balanced L G (map acct (po_providers p)) (po_global p) (fs @ [begin_flight i b p])"
  using assms by (auto simp: balanced_def settled_def split_beta begin_flight_def via_def split: option.splits)
    (cases G; auto)+

lemma balanced_keep_entry:
  assumes "balanced L G vs g fs" "k < length fs" "running ph = running (fl_phase (fs ! k))"
    "counted ph = counted (fl_phase (fs ! k))" "admitted ph = admitted (fl_phase (fs ! k))"
  shows "balanced L G vs g (set_phase k ph fs)"
  using balanced_change [OF assms(1,2) refl, of "\<lambda>a. a" ph "\<lambda>c. c" g] assms balanced_global [OF assms(1)]
  by (auto simp: set_acct_id)

lemma balanced_finish:
  assumes "balanced L G vs g fs" "k < length fs" "fl_phase (fs ! k) = Running" "\<not> running ph" "\<not> counted ph" "\<not> admitted ph"
  shows "balanced L G (set_acct (fl_provider (fs ! k)) Suc (\<lambda>c. c - 1) vs) (map_option Suc g) (set_phase k ph fs)"
  using assms(1) by (rule balanced_change) (use assms balanced_global [OF assms(1)] in auto)

lemma balanced_running_off:
  assumes "balanced L G vs g fs" "k < length fs" "fl_phase (fs ! k) = Running" "\<not> running ph" "counted ph" "\<not> admitted ph"
  shows "balanced L G (set_acct (fl_provider (fs ! k)) Suc (\<lambda>c. c) vs) (map_option Suc g) (set_phase k ph fs)"
  using assms(1) by (rule balanced_change) (use assms balanced_global [OF assms(1)] in auto)

lemma acct_give_back:
  "i < length (po_providers p) \<Longrightarrow>
     map acct (po_providers (give_back i p)) = set_acct i Suc (\<lambda>c. c) (map acct (po_providers p))"
  "po_global (give_back i p) = map_option Suc (po_global p)"
  by (simp_all add: give_back_def release_global_def acct_simps)

text \<open>Every step keeps the accounts balanced.\<close>

lemma balanced_step:
  assumes "pool_step disp cost s s'" "pool_balanced L G s"
  shows "pool_balanced L G s'"
  using assms
proof (induction rule: pool_step.induct)
  case (Submit clk seed p rq i ps rt fs stream)
  have v: "map acct ps = map acct (po_providers p)" using acct_select [OF Submit(1)] .
  have "i < length (po_providers p)" using select_range [OF Submit(1)] .
  with Submit(2) balanced_submit show ?case by (simp add: pool_balanced_def v)
next
  case (Reject clk seed p rq e ps rt fs)
  then show ?case using acct_select [OF Reject(1)] by (simp add: pool_balanced_def)
next
  case (TakeGlobal k fs p g)
  then have b: "balanced L G (map acct (po_providers p)) (po_global p) fs" by (simp add: pool_balanced_def)
  have "balanced L G (set_acct (fl_provider (fs ! k)) (\<lambda>a. a) (\<lambda>c. c) (map acct (po_providers p))) (Some g) (set_phase k AwaitProvider fs)"
    using b by (rule balanced_change) (use TakeGlobal balanced_global [OF b] in auto)
  then show ?case by (simp add: pool_balanced_def set_acct_id)
next
  case (TakeProvider k fs i p)
  then have b: "balanced L G (map acct (po_providers p)) (po_global p) fs" by (simp add: pool_balanced_def)
  have i: "i < length (po_providers p)" using balanced_provider [OF b TakeProvider(1)] TakeProvider(3) by simp
  have "balanced L G (set_acct i (\<lambda>a. a - 1) Suc (map acct (po_providers p))) (po_global p) (set_phase k Running fs)"
    using b by (rule balanced_change) (use TakeProvider balanced_global [OF b] i in \<open>auto simp: acct_def\<close>)
  then show ?case using i by (simp add: pool_balanced_def acct_simps)
next
  case (FinishChat k fs i p req w r a now answer ps)
  then have b: "balanced L G (map acct (po_providers p)) (po_global p) fs" by (simp add: pool_balanced_def)
  have i: "i < length (po_providers p)" using balanced_provider [OF b FinishChat(1)] FinishChat(4) by simp
  have v: "map acct ps = set_acct i (\<lambda>a. a) (\<lambda>c. c - 1) (map acct (po_providers p))"
    using acct_finish_chat [OF FinishChat(6) i] .
  have "i < length ps" using arg_cong [OF v, of length] i by simp
  then show ?case using balanced_finish [OF b FinishChat(1,2), of Ended] FinishChat(4)
    by (simp add: pool_balanced_def acct_give_back v set_acct_twice)
next
  case (FinishStream k fs i p req w r a now answer ps)
  then have b: "balanced L G (map acct (po_providers p)) (po_global p) fs" by (simp add: pool_balanced_def)
  have i: "i < length (po_providers p)" using balanced_provider [OF b FinishStream(1)] FinishStream(4) by simp
  have v: "map acct ps = set_acct i (\<lambda>a. a) (\<lambda>c. if answer \<in> range Inr then c else c - 1) (map acct (po_providers p))"
    using acct_finish_stream [OF FinishStream(6) i] .
  have l: "i < length ps" using arg_cong [OF v, of length] i by simp
  show ?case
  proof (cases answer)
    case (Inl e)
    then have "answer \<notin> range Inr" by auto
    then show ?thesis using balanced_finish [OF b FinishStream(1,2), of Ended] FinishStream(4) Inl l
      by (simp add: pool_balanced_def acct_give_back v set_acct_twice)
  next
    case (Inr x)
    then show ?thesis using balanced_running_off [OF b FinishStream(1,2), of "Streaming \<lparr>ss_first = True, ss_terminated = False\<rparr>"]
        FinishStream(4) l
      by (simp add: pool_balanced_def acct_give_back v set_acct_twice)
  qed
next
  case (StreamNext k fs st i now p poll item st' en)
  then have b: "balanced L G (map acct (po_providers p)) (po_global p) fs" by (simp add: pool_balanced_def)
  have "map acct ((po_providers p)[i := en]) = map acct (po_providers p)"
    by (rule map_acct_same) (rule acct_stream_next [OF StreamNext(4)])
  with balanced_keep_entry [OF b StreamNext(1), of "Streaming st'"] StreamNext(2) show ?case
    by (simp add: pool_balanced_def)
next
  case (DropStream k fs st i p)
  then have b: "balanced L G (map acct (po_providers p)) (po_global p) fs" by (simp add: pool_balanced_def)
  have i: "i < length (po_providers p)" using balanced_provider [OF b DropStream(1)] DropStream(3) by simp
  have "balanced L G (set_acct i (\<lambda>a. a) (\<lambda>c. c - 1) (map acct (po_providers p))) (po_global p) (set_phase k Ended fs)"
    using b by (rule balanced_change) (use DropStream balanced_global [OF b] in auto)
  then show ?case using i by (simp add: pool_balanced_def acct_simps)
next
  case (Completion p fs pid inp out)
  then show ?case by (simp add: pool_balanced_def acct_simps)
next
  case (Freeze now pid reason p ps fs)
  then show ?case using acct_pool_freeze [OF Freeze(1)] by (simp add: pool_balanced_def)
next
  case (Thaw now pid outcome p answer ps fs)
  then show ?case using acct_pool_thaw [OF Thaw(1)] by (simp add: pool_balanced_def)
next
  case (CancelGlobal k fs p)
  then show ?case by (auto simp: pool_balanced_def intro: balanced_keep_entry)
next
  case (CancelProvider k fs p)
  then have b: "balanced L G (map acct (po_providers p)) (po_global p) fs" by (simp add: pool_balanced_def)
  have "balanced L G (set_acct (fl_provider (fs ! k)) (\<lambda>a. a) (\<lambda>c. c) (map acct (po_providers p))) (map_option Suc (po_global p)) (set_phase k Ended fs)"
    using b by (rule balanced_change) (use CancelProvider balanced_global [OF b] in auto)
  then show ?case by (simp add: pool_balanced_def set_acct_id release_global_def)
next
  case (CancelChat k fs p)
  then have b: "balanced L G (map acct (po_providers p)) (po_global p) fs" by (simp add: pool_balanced_def)
  have "fl_provider (fs ! k) < length (po_providers p)" using balanced_provider [OF b CancelChat(1)] by simp
  with balanced_running_off [OF b CancelChat(1,2), of DroppedRunning] show ?case
    by (simp add: pool_balanced_def acct_give_back)
next
  case (CancelStream k fs i p)
  then have b: "balanced L G (map acct (po_providers p)) (po_global p) fs" by (simp add: pool_balanced_def)
  have "i < length (po_providers p)" using balanced_provider [OF b CancelStream(1)] CancelStream(4) by simp
  with balanced_finish [OF b CancelStream(1,2), of Ended] CancelStream(4) show ?case
    by (simp add: pool_balanced_def acct_give_back acct_simps set_acct_twice)
qed

lemma tally_Nil [simp]: "tally P [] = 0"
  by (simp add: tally_def)

lemma balanced_new: "pool_balanced (map (pm_max_concurrency \<circ> fst) providers) G
    (pool_new providers base mx strategy G retry, [])"
proof -
  have "settled_global [] G G" by (cases G) simp_all
  then show ?thesis
    by (simp add: pool_balanced_def balanced_def pool_new_def settled_def acct_def entry_new_def split_beta)
qed

lemma balanced_reachable:
  assumes "(pool_step disp cost)\<^sup>*\<^sup>* (pool_new providers base mx strategy global retry, []) s"
  shows "pool_balanced (map (pm_max_concurrency \<circ> fst) providers) global s"
  using assms by (induction rule: rtranclp_induct) (rule balanced_new, rule balanced_step)

lemma tally_counted: "tally (via i counted) fs
    = tally (via i running) fs + tally (via i (\<lambda>ph. \<exists>st. ph = Streaming st)) fs + tally (via i ((=) DroppedRunning)) fs"
proof (induction fs)
  case (Cons f fs)
  then show ?case by (cases "fl_phase f") (auto simp: tally_def via_def)
qed simp

text \<open>C15: However requests interleave, are answered, fail, stream or are dropped, a provider
  never runs more of them than its limit and the pool never admits more than its own; every
  permit is available or held.  The counter of active requests is the number of running
  requests and open streams, plus one for every request dropped while it ran, which
  nothing takes back.\<close>

theorem concurrency_limits_hold:
  assumes "(pool_step disp cost)\<^sup>*\<^sup>* (pool_new providers base mx strategy global retry, []) (p, fs)"
    and "i < length providers"
  shows "ro_available (po_providers p ! i) + tally (via i running) fs = pm_max_concurrency (fst (providers ! i))
    \<and> pe_active_requests (po_providers p ! i) = tally (via i running) fs
        + tally (via i (\<lambda>ph. \<exists>st. ph = Streaming st)) fs + tally (via i ((=) DroppedRunning)) fs
    \<and> (\<forall>G. global = Some G \<longrightarrow> (\<exists>n. po_global p = Some n \<and> n + tally (admitted \<circ> fl_phase) fs = G))"
  using balanced_reachable [OF assms(1)] assms(2)
  by (auto simp: pool_balanced_def balanced_def settled_def acct_def tally_counted split_beta)

definition one_provider :: pool where
  "one_provider = pool_new [(sample_meta ''p'' ''b'' 5, None, None, None)] 30 60 SsPriority (Some 3) default_pool_retry"

definition chosen_route :: route_request where
  "chosen_route = sample_route\<lparr>rq_preferred_provider_id := Some ''p''\<rparr>"

lemma sample_select: "select (\<lambda>_. 0) 0 (po_providers one_provider) chosen_route (po_router one_provider)
      = (Inr 0, po_providers one_provider, po_router one_provider)"
proof -
  have "select_preferred ''p'' (po_providers one_provider) chosen_route = Inr 0"
    by (simp add: select_preferred_def one_provider_def pool_new_def entry_new_def sample_meta_def
        chosen_route_def sample_route_def meta_matches_def)
  then show ?thesis by (simp add: select_def chosen_route_def)
qed

lemma dropped_request_reachable:
  "(pool_step disp cost)\<^sup>*\<^sup>* (one_provider, [])
     (give_back 0 (one_provider\<lparr>po_global := Some 2, po_providers := activate 0 (po_providers one_provider)\<rparr>),
      [\<lparr>fl_provider = 0, fl_stream = False, fl_phase = DroppedRunning\<rparr>])"
proof -
  let ?f = "\<lambda>ph. [\<lparr>fl_provider = 0, fl_stream = False, fl_phase = ph\<rparr>]"
  note sel = sample_select
  have av: "0 < ro_available (po_providers one_provider ! 0)"
    by (simp add: one_provider_def pool_new_def entry_new_def sample_meta_def)
  have gl: "po_global one_provider = Some (Suc 2)" by (simp add: one_provider_def pool_new_def)
  have 1: "pool_step disp cost (one_provider, []) (one_provider, ?f AwaitGlobal)"
    using Submit [OF sel, of disp cost "[]" False] gl by (simp add: begin_flight_def)
  have 2: "pool_step disp cost (one_provider, ?f AwaitGlobal) (one_provider\<lparr>po_global := Some 2\<rparr>, ?f AwaitProvider)"
    using TakeGlobal [of 0 "?f AwaitGlobal" one_provider 2] gl by (simp add: set_phase_def)
  have 3: "pool_step disp cost (one_provider\<lparr>po_global := Some 2\<rparr>, ?f AwaitProvider)
      (one_provider\<lparr>po_global := Some 2, po_providers := activate 0 (po_providers one_provider)\<rparr>, ?f Running)"
    using TakeProvider [of 0 "?f AwaitProvider" 0 "one_provider\<lparr>po_global := Some 2\<rparr>"] av by (simp add: set_phase_def)
  have 4: "pool_step disp cost
      (one_provider\<lparr>po_global := Some 2, po_providers := activate 0 (po_providers one_provider)\<rparr>, ?f Running)
      (give_back 0 (one_provider\<lparr>po_global := Some 2, po_providers := activate 0 (po_providers one_provider)\<rparr>), ?f DroppedRunning)"
    using CancelChat [of 0 "?f Running"] by (simp add: set_phase_def)
  show ?thesis using 1 2 3 4 by (meson rtranclp.rtrancl_into_rtrancl rtranclp.rtrancl_refl)
qed

lemma concurrency_limits_hold_witness:
  "\<exists>p fs. (pool_step (\<lambda>_. []) (\<lambda>_ _ _ _. 0))\<^sup>*\<^sup>* (one_provider, []) (p, fs) \<and> tally (via 0 running) fs = 0
     \<and> ro_available (po_providers p ! 0) = 5 \<and> pe_active_requests (po_providers p ! 0) = 1"
proof -
  let ?p = "give_back 0 (one_provider\<lparr>po_global := Some 2, po_providers := activate 0 (po_providers one_provider)\<rparr>)"
  let ?fs = "[\<lparr>fl_provider = 0, fl_stream = False, fl_phase = DroppedRunning\<rparr>]"
  have r: "(pool_step (\<lambda>_. []) (\<lambda>_ _ _ _. 0))\<^sup>*\<^sup>* (one_provider, []) (?p, ?fs)" by (rule dropped_request_reachable)
  have t: "tally (via 0 running) ?fs = 0" "tally (via 0 ((=) DroppedRunning)) ?fs = 1"
    "tally (via 0 (\<lambda>ph. \<exists>st. ph = Streaming st)) ?fs = 0" by (simp_all add: tally_def via_def)
  have m: "pm_max_concurrency (fst ([(sample_meta ''p'' ''b'' 5, None :: 32 word option, None :: f64 option, None :: f64 option)] ! 0)) = 5"
    by (simp add: sample_meta_def)
  have "ro_available (po_providers ?p ! 0) = 5 \<and> pe_active_requests (po_providers ?p ! 0) = 1"
    using concurrency_limits_hold [OF r [unfolded one_provider_def], of 0, folded one_provider_def] unfolding t m
    by simp
  with r t(1) show ?thesis by blast
qed

section \<open>What the metrics of streams count\<close>

definition uncounted :: "provider_entry \<Rightarrow> bool" where
  "uncounted e = (mt_total_requests (pe_metrics e) = mt_total_errors (pe_metrics e))"

lemma ball_update: "\<forall>x \<in> set xs. P x \<Longrightarrow> (i < length xs \<Longrightarrow> P (xs ! i) \<Longrightarrow> P e) \<Longrightarrow> \<forall>x \<in> set (xs[i := e]). P x"
  by (cases "i < length xs") (auto dest!: subsetD [OF set_update_subset_insert] simp: list_update_beyond)

lemma uncounted_error [simp]: "uncounted e \<Longrightarrow> uncounted (e\<lparr>pe_metrics := record_error (pe_metrics e)\<rparr>)"
  by (simp add: uncounted_def record_error_def)

lemma uncounted_fields [simp]:
  "uncounted (e\<lparr>ro_freeze := fm\<rparr>) = uncounted e" "uncounted (e\<lparr>ro_available := a\<rparr>) = uncounted e"
  "uncounted (e\<lparr>pe_active_requests := c\<rparr>) = uncounted e" "uncounted (e\<lparr>ro_available := a, pe_active_requests := c\<rparr>) = uncounted e"
  by (simp_all add: uncounted_def)

definition all_uncounted :: "provider_entry list \<Rightarrow> bool" where
  "all_uncounted ps = (\<forall>e \<in> set ps. uncounted e)"

lemma all_uncounted_update:
  "all_uncounted ps \<Longrightarrow> (uncounted (ps ! i) \<Longrightarrow> uncounted e) \<Longrightarrow> all_uncounted (ps[i := e])"
  unfolding all_uncounted_def by (rule ball_update)

lemma uncounted_failure: "all_uncounted ps \<Longrightarrow> all_uncounted (metrics_failure i ps)"
  unfolding metrics_failure_def by (rule all_uncounted_update) simp_all

lemma uncounted_freeze: "all_uncounted ps \<Longrightarrow> all_uncounted (ps[j := (ps ! j)\<lparr>ro_freeze := fm\<rparr>])"
  by (rule all_uncounted_update) simp_all

lemma uncounted_deactivate: "all_uncounted ps \<Longrightarrow> all_uncounted (deactivate i ps)"
  unfolding deactivate_def by (rule all_uncounted_update) simp_all

lemma uncounted_activate: "all_uncounted ps \<Longrightarrow> all_uncounted (activate i ps)"
  unfolding activate_def by (rule all_uncounted_update) simp_all

lemma uncounted_release: "all_uncounted ps \<Longrightarrow> all_uncounted (release_provider i ps)"
  unfolding release_provider_def by (rule all_uncounted_update) simp_all

lemma uncounted_give_back: "all_uncounted (po_providers p) \<Longrightarrow> all_uncounted (po_providers (give_back i p))"
  by (simp add: give_back_def release_global_def uncounted_release)

lemma uncounted_report: "report_error disp now pid e ps = Some ps' \<Longrightarrow> all_uncounted ps \<Longrightarrow> all_uncounted ps'"
  using uncounted_freeze by (fastforce simp: report_error_def split: option.splits)

lemma uncounted_pool_freeze: "pool_freeze now pid reason ps = Some ps' \<Longrightarrow> all_uncounted ps \<Longrightarrow> all_uncounted ps'"
  using uncounted_freeze by (fastforce simp: pool_freeze_def split: option.splits)

lemma uncounted_pool_thaw: "pool_thaw disp now pid outcome ps = Some (a, ps') \<Longrightarrow> all_uncounted ps \<Longrightarrow> all_uncounted ps'"
  using uncounted_freeze by (fastforce simp: pool_thaw_def split: option.splits)

lemma uncounted_completed: "all_uncounted ps \<Longrightarrow> all_uncounted (stream_completed cost pid i out ps)"
proof (cases "find_entry pid ps")
  case (Some j)
  assume u: "all_uncounted ps"
  show ?thesis unfolding stream_completed_def Let_def Some option.case
    by (rule all_uncounted_update [OF u]) (simp add: uncounted_def record_stream_completion_def add_tokens_def)
qed (simp add: stream_completed_def)

lemma uncounted_select: "select clk seed ps rq rt = (r, ps', rt') \<Longrightarrow> all_uncounted ps \<Longrightarrow> all_uncounted ps'"
  by (auto simp: all_uncounted_def select_def scan_eq Let_def split_beta thaw_all_def thaw_due_def
      split: option.splits if_splits)

lemma uncounted_finish_stream:
  assumes "finish_stream_start disp now r i ps = Some (answer, ps')" "all_uncounted ps"
  shows "all_uncounted ps'"
proof (cases r)
  case (Inl e)
  then obtain ps1 where ps1: "report_error disp now (pm_id (ro_meta (ps ! i))) e (metrics_failure i ps) = Some ps1"
    "ps' = deactivate i ps1"
    using assms(1) by (auto simp: finish_stream_start_def Let_def)
  show ?thesis unfolding ps1(2)
    by (rule uncounted_deactivate) (rule uncounted_report [OF ps1(1) uncounted_failure [OF assms(2)]])
qed (use assms in \<open>auto simp: finish_stream_start_def Let_def\<close>)

lemma uncounted_stream_next:
  "stream_next disp now cfg poll st en = Some (item, st', en') \<Longrightarrow> uncounted en \<Longrightarrow> uncounted en'"
  by (auto simp: stream_next_def record_failure_def uncounted_def record_error_def Let_def
      split: if_splits stream_poll.splits)

lemma streams_stay [simp]:
  "k < length fs \<Longrightarrow> (\<forall>f \<in> set (set_phase k ph fs). fl_stream f) = (\<forall>f \<in> set fs. fl_stream f)"
  unfolding set_phase_def
  by (smt (verit) flight.select_convs(2) flight.surjective flight.update_convs(3) in_set_conv_nth length_list_update
      nth_list_update_eq nth_list_update_neq)

lemma uncounted_step:
  assumes "pool_step disp cost s s'" "\<forall>f \<in> set (snd s). fl_stream f \<Longrightarrow> all_uncounted (po_providers (fst s))"
    "\<forall>f \<in> set (snd s'). fl_stream f"
  shows "all_uncounted (po_providers (fst s'))"
  using assms
proof (induction rule: pool_step.induct)
  case (FinishChat k fs i p req w r a now answer ps)
  then show ?case by auto
next
  case (FinishStream k fs i p req w r a now answer ps)
  then show ?case using uncounted_give_back [of "p\<lparr>po_providers := ps\<rparr>" i] uncounted_finish_stream [OF FinishStream(6)] by simp
next
  case (StreamNext k fs st i now p poll item st' en)
  then have "all_uncounted (po_providers p)" by simp
  then have "all_uncounted ((po_providers p)[i := en])"
    by (rule all_uncounted_update) (rule uncounted_stream_next [OF StreamNext(4)])
  then show ?case by simp
next
  case (CancelStream k fs i p)
  then show ?case using uncounted_give_back [of "p\<lparr>po_providers := deactivate i (po_providers p)\<rparr>" i]
    uncounted_deactivate [of "po_providers p" i] by simp
next
  case (Submit clk seed p rq i ps rt fs stream)
  then show ?case using uncounted_select [OF Submit(1)] by simp
next
  case (Reject clk seed p rq e ps rt fs)
  then show ?case using uncounted_select [OF Reject(1)] by simp
next
  case (TakeProvider k fs i p)
  then show ?case using uncounted_activate [of "po_providers p" i] by simp
next
  case (DropStream k fs st i p)
  then show ?case using uncounted_deactivate [of "po_providers p" i] by simp
next
  case (Completion p fs pid inp out)
  then show ?case using uncounted_completed [of "po_providers p"] by simp
next
  case (Freeze now pid reason p ps fs)
  then show ?case using uncounted_pool_freeze [OF Freeze(1)] by simp
next
  case (Thaw now pid outcome p answer ps fs)
  then show ?case using uncounted_pool_thaw [OF Thaw(1)] by simp
next
  case (CancelChat k fs p)
  then show ?case using uncounted_give_back [of p] by simp
qed (simp_all add: release_global_def)

text \<open>As long as all requests are streams, the counted requests of a provider are exactly
  its errors, however many streams succeed: a provider used for streams alone has an error
  rate of one as soon as one of them fails.\<close>

theorem successful_streams_are_not_counted:
  assumes "(pool_step disp cost)\<^sup>*\<^sup>* (pool_new providers base mx strategy global retry, []) (p, fs)"
    and "\<forall>f \<in> set fs. fl_stream f" and "e \<in> set (po_providers p)"
  shows "mt_total_requests (pe_metrics e) = mt_total_errors (pe_metrics e)"
proof -
  have "\<forall>f \<in> set (snd s). fl_stream f \<Longrightarrow> all_uncounted (po_providers (fst s))"
    if "(pool_step disp cost)\<^sup>*\<^sup>* (pool_new providers base mx strategy global retry, []) s" for s
    using that
  proof (induction rule: rtranclp_induct)
    case base
    then show ?case by (auto simp: all_uncounted_def pool_new_def uncounted_def entry_new_def metrics_new_def split_beta)
  next
    case (step s s')
    then show ?case using uncounted_step [OF step(2)] by blast
  qed
  from this [OF assms(1)] assms(2,3) show ?thesis by (auto simp: all_uncounted_def uncounted_def)
qed

lemma successful_streams_are_not_counted_witness:
  "\<exists>p fs. (pool_step (\<lambda>_. []) (\<lambda>_ _ _ _. 0))\<^sup>*\<^sup>* (one_provider, []) (p, fs) \<and> length fs = 1
     \<and> mt_total_requests (pe_metrics (po_providers p ! 0)) = mt_total_errors (pe_metrics (po_providers p ! 0))"
proof -
  let ?fs = "[\<lparr>fl_provider = 0, fl_stream = True, fl_phase = AwaitGlobal\<rparr>]"
  have "pool_step (\<lambda>_. []) (\<lambda>_ _ _ _. 0) (one_provider, []) (one_provider, ?fs)"
    using Submit [OF sample_select, of "\<lambda>_. []" "\<lambda>_ _ _ _. 0" "[]" True]
    by (simp add: begin_flight_def one_provider_def pool_new_def)
  then have r: "(pool_step (\<lambda>_. []) (\<lambda>_ _ _ _. 0))\<^sup>*\<^sup>* (one_provider, []) (one_provider, ?fs)" by (rule r_into_rtranclp)
  have "po_providers one_provider ! 0 \<in> set (po_providers one_provider)" by (simp add: one_provider_def pool_new_def)
  from successful_streams_are_not_counted [OF r [unfolded one_provider_def] _ this [unfolded one_provider_def],
      folded one_provider_def] r
  show ?thesis by (intro exI [of _ one_provider] exI [of _ ?fs]) simp
qed

end
