(* ===== verification/Sessions.thy ===== *)
theory Sessions
  imports Prelude
begin

text \<open>
  Sessions: the types and traits of \<open>y-core/src/session.rs\<close>, the state machine and the manager of
  \<open>y-session/src\<close>, and their stores in \<open>y-storage/src\<close>: the session table
  (\<open>session_store.rs\<close>), the transcripts as files of one message per line
  (\<open>jsonl_message_store.rs\<close>) and the chat checkpoints (\<open>checkpoint_chat.rs\<close>).

  The stores are one state.  Every statement on the database and every operation on a file is
  atomic and may fail: the state has a list of the coming failures, which the operations take one
  by one.  A table is a list of rows in the order of insertion.
\<close>

section \<open>Types\<close>

datatype session_type = StyMain | StyChild | StyBranch | StyEphemeral | StySubAgent | StyCanonical
datatype session_state = SstActive | SstPaused | SstArchived | SstMerged | SstTombstone

fun session_state_debug :: "session_state \<Rightarrow> string" where
  "session_state_debug SstActive = ''Active''"
| "session_state_debug SstPaused = ''Paused''"
| "session_state_debug SstArchived = ''Archived''"
| "session_state_debug SstMerged = ''Merged''"
| "session_state_debug SstTombstone = ''Tombstone''"

datatype session_error =
  SnNotFound string
| SnInvalidStateTransition session_state session_state
| SnStorageError string
| SnTranscriptError string
| SnOther string

fun session_error_display :: "session_error \<Rightarrow> string" where
  "session_error_display (SnNotFound i) = ''session not found: '' @ i"
| "session_error_display (SnInvalidStateTransition a b) =
     ''invalid session state transition: '' @ session_state_debug a @ '' -> '' @ session_state_debug b"
| "session_error_display (SnStorageError m) = ''storage error: '' @ m"
| "session_error_display (SnTranscriptError m) = ''transcript error: '' @ m"
| "session_error_display (SnOther m) = m"

datatype manager_error =
  SmNotFound string
| SmInvalidTransition string string
| SmStorage string
| SmTranscript string
| SmConfig string
| SmOther string

definition from_session_error :: "session_error \<Rightarrow> manager_error" where
  "from_session_error e = SmStorage (session_error_display e)"

text \<open>A session node without the fields the store always leaves empty (\<open>channel\<close>, \<open>label\<close>,
  \<open>last_compaction\<close>, \<open>compaction_count\<close>); a row of the table has two more columns.\<close>

record session_node =
  sn_id :: string
  sn_parent_id :: "string option"
  sn_root_id :: string
  sn_depth :: nat
  sn_path :: "string list"
  sn_session_type :: session_type
  sn_state :: session_state
  sn_agent_id :: "string option"
  sn_title :: "string option"
  sn_manual_title :: "string option"
  sn_workspace_path :: "string option"
  sn_token_count :: nat
  sn_message_count :: nat
  sn_branch_summary :: "string option"
  sn_created_at :: nat
  sn_updated_at :: nat

record session_row = session_node +
  sr_context_reset_index :: "nat option"
  sr_custom_system_prompt :: "string option"

definition into_session_node :: "session_row \<Rightarrow> session_node" where
  "into_session_node r = session_node.truncate r"

record create_options =
  op_parent_id :: "string option"
  op_session_type :: session_type
  op_agent_id :: "string option"
  op_title :: "string option"

record session_filter =
  sf_state :: "session_state option"
  sf_session_type :: "session_type option"
  sf_agent_id :: "string option"
  sf_root_id :: "string option"
  sf_workspace_path :: "string option"

definition no_filter :: session_filter where
  "no_filter = \<lparr>sf_state = None, sf_session_type = None, sf_agent_id = None, sf_root_id = None, sf_workspace_path = None\<rparr>"

record chat_checkpoint =
  cc_checkpoint_id :: string
  cc_session_id :: string
  cc_turn_number :: nat
  cc_message_count_before :: nat
  cc_journal_scope_id :: string
  cc_invalidated :: bool
  cc_created_at :: nat

section \<open>The state machine\<close>

fun is_valid_transition :: "session_state \<Rightarrow> session_state \<Rightarrow> bool" where
  "is_valid_transition SstActive b = (b \<noteq> SstActive)"
| "is_valid_transition SstPaused b = (b = SstActive \<or> b = SstArchived \<or> b = SstTombstone)"
| "is_valid_transition SstArchived b = (b = SstTombstone)"
| "is_valid_transition SstMerged b = (b = SstTombstone)"
| "is_valid_transition SstTombstone b = False"

definition validate_transition :: "session_state \<Rightarrow> session_state \<Rightarrow> manager_error + unit" where
  "validate_transition a b =
     (if a = b then Inl (SmInvalidTransition (session_state_debug a) (session_state_debug b))
      else if is_valid_transition a b then Inr ()
      else Inl (SmInvalidTransition (session_state_debug a) (session_state_debug b)))"

definition valid_transitions :: "session_state \<Rightarrow> session_state list" where
  "valid_transitions a =
     filter (is_valid_transition a) [SstActive, SstPaused, SstArchived, SstMerged, SstTombstone]"

section \<open>Storage actions\<close>

text \<open>A transcript file is its lines that are not blank: a message, or \<open>None\<close> for a line that
  does not parse.  \<open>st_references\<close> are the sessions that rows of other tables refer to.\<close>

record 'm store =
  st_sessions :: "session_row list"
  st_context :: "string \<Rightarrow> 'm option list"
  st_display :: "string \<Rightarrow> 'm option list"
  st_checkpoints :: "chat_checkpoint list"
  st_references :: "string list"
  st_now :: nat
  st_faults :: "session_error option list"

type_synonym ('m, 'e, 'a) action = "'m store \<Rightarrow> ('e + 'a) \<times> 'm store"

definition act_ret :: "'a \<Rightarrow> ('m, 'e, 'a) action" where
  "act_ret x = (\<lambda>w. (Inr x, w))"

definition act_fail :: "'e \<Rightarrow> ('m, 'e, 'a) action" where
  "act_fail e = (\<lambda>w. (Inl e, w))"

definition act_bind :: "('m, 'e, 'a) action \<Rightarrow> ('a \<Rightarrow> ('m, 'e, 'b) action) \<Rightarrow> ('m, 'e, 'b) action" where
  "act_bind m f = (\<lambda>w. case m w of (Inl e, w') \<Rightarrow> (Inl e, w') | (Inr x, w') \<Rightarrow> f x w')"

definition act_of :: "'e + 'a \<Rightarrow> ('m, 'e, 'a) action" where
  "act_of r = (\<lambda>w. (r, w))"

text \<open>\<open>map_err\<close>, and looking at the result of an action that may fail.\<close>

definition map_error :: "('e \<Rightarrow> 'f) \<Rightarrow> ('m, 'e, 'a) action \<Rightarrow> ('m, 'f, 'a) action" where
  "map_error f m = (\<lambda>w. case m w of (r, w') \<Rightarrow> (map_sum f id r, w'))"

definition try_action :: "('m, 'e, 'a) action \<Rightarrow> ('m, 'f, 'e + 'a) action" where
  "try_action m = (\<lambda>w. case m w of (r, w') \<Rightarrow> (Inr r, w'))"

definition storage_io :: "('m, session_error, 'a) action \<Rightarrow> ('m, session_error, 'a) action" where
  "storage_io m = (\<lambda>w. case st_faults w of
      [] \<Rightarrow> m w
    | None # fs \<Rightarrow> m (w\<lparr>st_faults := fs\<rparr>)
    | Some e # fs \<Rightarrow> (Inl e, w\<lparr>st_faults := fs\<rparr>))"

fun act_iter :: "('x \<Rightarrow> ('m, 'e, unit) action) \<Rightarrow> 'x list \<Rightarrow> ('m, 'e, unit) action" where
  "act_iter f [] = act_ret ()"
| "act_iter f (x # xs) = act_bind (f x) (\<lambda>_. act_iter f xs)"

section \<open>The session table\<close>

definition find_session :: "string \<Rightarrow> session_row list \<Rightarrow> session_row option" where
  "find_session i rs = List.find (\<lambda>r. sn_id r = i) rs"

definition session_get :: "string \<Rightarrow> ('m, session_error, session_node) action" where
  "session_get i = storage_io (\<lambda>w. (case find_session i (st_sessions w) of
      None \<Rightarrow> Inl (SnNotFound i) | Some r \<Rightarrow> Inr (into_session_node r), w))"

definition foreign_key_message :: string where
  "foreign_key_message = ''error returned from database: (code: 787) FOREIGN KEY constraint failed''"

text \<open>\<open>INSERT\<close>: the primary key must be new, the parent and the root must exist.\<close>

definition insert_session :: "session_row \<Rightarrow> ('m, session_error, unit) action" where
  "insert_session r = storage_io (\<lambda>w.
     if find_session (sn_id r) (st_sessions w) \<noteq> None
     then (Inl (SnStorageError ''UNIQUE constraint failed: session_metadata.id''), w)
     else if (case sn_parent_id r of None \<Rightarrow> False
                | Some p \<Rightarrow> p \<noteq> sn_id r \<and> find_session p (st_sessions w) = None)
             \<or> (sn_root_id r \<noteq> sn_id r \<and> find_session (sn_root_id r) (st_sessions w) = None)
     then (Inl (SnStorageError foreign_key_message), w)
     else (Inr (), w\<lparr>st_sessions := st_sessions w @ [r]\<rparr>))"

definition new_row :: "string \<Rightarrow> nat \<Rightarrow> create_options \<Rightarrow> string option \<Rightarrow> session_node option \<Rightarrow> session_row" where
  "new_row i now opts ws parent =
     \<lparr>sn_id = i, sn_parent_id = op_parent_id opts,
      sn_root_id = (case parent of Some p \<Rightarrow> sn_root_id p | None \<Rightarrow> i),
      sn_depth = (case parent of Some p \<Rightarrow> sn_depth p + 1 | None \<Rightarrow> 0),
      sn_path = (case parent of Some p \<Rightarrow> sn_path p @ [sn_id p] | None \<Rightarrow> []),
      sn_session_type = op_session_type opts, sn_state = SstActive, sn_agent_id = op_agent_id opts,
      sn_title = op_title opts, sn_manual_title = None,
      sn_workspace_path = (case ws of Some _ \<Rightarrow> ws | None \<Rightarrow> (case parent of Some p \<Rightarrow> sn_workspace_path p | None \<Rightarrow> None)),
      sn_token_count = 0, sn_message_count = 0, sn_branch_summary = None,
      sn_created_at = now, sn_updated_at = now,
      sr_context_reset_index = None, sr_custom_system_prompt = None\<rparr>"

text \<open>\<open>create_with_workspace\<close> with the identifier and the time it draws.\<close>

definition session_create_in :: "string \<Rightarrow> create_options \<Rightarrow> string option \<Rightarrow> ('m, session_error, session_node) action" where
  "session_create_in i opts ws =
     act_bind (case op_parent_id opts of
                 Some p \<Rightarrow> act_bind (session_get p) (\<lambda>n. act_ret (Some n))
               | None \<Rightarrow> act_ret None)
       (\<lambda>parent. act_bind (\<lambda>w. insert_session (new_row i (st_now w) opts ws parent) w)
          (\<lambda>_. session_get i))"

definition session_create :: "string \<Rightarrow> create_options \<Rightarrow> ('m, session_error, session_node) action" where
  "session_create i opts = session_create_in i opts None"

definition opt_eq :: "'a option \<Rightarrow> 'a option \<Rightarrow> bool" where
  "opt_eq want have_value = (case want of None \<Rightarrow> True | Some x \<Rightarrow> have_value = Some x)"

definition filter_matches :: "session_filter \<Rightarrow> session_row \<Rightarrow> bool" where
  "filter_matches f r = (opt_eq (sf_state f) (Some (sn_state r)) \<and> opt_eq (sf_session_type f) (Some (sn_session_type r))
     \<and> opt_eq (sf_agent_id f) (sn_agent_id r) \<and> opt_eq (sf_root_id f) (Some (sn_root_id r))
     \<and> opt_eq (sf_workspace_path f) (sn_workspace_path r))"

text \<open>\<open>ORDER BY created_at\<close>; rows of the same time stay in the order of insertion.\<close>

definition select_sessions :: "(session_row \<Rightarrow> bool) \<Rightarrow> session_row list \<Rightarrow> session_node list" where
  "select_sessions p rs = map into_session_node (sort_key sn_created_at (filter p rs))"

definition session_list :: "session_filter \<Rightarrow> ('m, session_error, session_node list) action" where
  "session_list f = storage_io (\<lambda>w. (Inr (select_sessions (filter_matches f) (st_sessions w)), w))"

definition session_children :: "string \<Rightarrow> ('m, session_error, session_node list) action" where
  "session_children i = storage_io (\<lambda>w. (Inr (select_sessions (\<lambda>r. sn_parent_id r = Some i) (st_sessions w)), w))"

fun in_path_order :: "string list \<Rightarrow> session_row list \<Rightarrow> session_node list" where
  "in_path_order [] rs = []"
| "in_path_order (a # as) rs = (case find_session a rs of
      None \<Rightarrow> in_path_order as rs
    | Some r \<Rightarrow> into_session_node r # in_path_order as (filter (\<lambda>q. sn_id q \<noteq> a) rs))"

definition session_ancestors :: "string \<Rightarrow> ('m, session_error, session_node list) action" where
  "session_ancestors i = act_bind (session_get i) (\<lambda>n.
     if sn_path n = [] then act_ret []
     else storage_io (\<lambda>w. (Inr (in_path_order (sn_path n)
       (filter (\<lambda>r. sn_id r \<in> set (sn_path n)) (st_sessions w))), w)))"

text \<open>\<open>UPDATE \<dots> WHERE id = ?\<close>; the change may read the current time.\<close>

definition update_session :: "string \<Rightarrow> (nat \<Rightarrow> session_row \<Rightarrow> session_row) \<Rightarrow> ('m, session_error, unit) action" where
  "update_session i f = storage_io (\<lambda>w.
     if find_session i (st_sessions w) = None then (Inl (SnNotFound i), w)
     else (Inr (), w\<lparr>st_sessions := map (\<lambda>r. if sn_id r = i then f (st_now w) r else r) (st_sessions w)\<rparr>))"

definition session_set_state :: "string \<Rightarrow> session_state \<Rightarrow> ('m, session_error, unit) action" where
  "session_set_state i s = update_session i (\<lambda>now r. r\<lparr>sn_state := s, sn_updated_at := now\<rparr>)"

definition session_update_metadata :: "string \<Rightarrow> string option \<Rightarrow> nat \<Rightarrow> nat \<Rightarrow> ('m, session_error, unit) action" where
  "session_update_metadata i title tokens messages = update_session i (\<lambda>now r.
     r\<lparr>sn_title := (case title of Some _ \<Rightarrow> title | None \<Rightarrow> sn_title r), sn_token_count := tokens,
       sn_message_count := messages, sn_updated_at := now\<rparr>)"

definition session_set_title :: "string \<Rightarrow> string \<Rightarrow> ('m, session_error, unit) action" where
  "session_set_title i title = update_session i (\<lambda>now r. r\<lparr>sn_title := Some title, sn_updated_at := now\<rparr>)"

definition session_set_manual_title :: "string \<Rightarrow> string option \<Rightarrow> ('m, session_error, unit) action" where
  "session_set_manual_title i title = update_session i (\<lambda>now r. r\<lparr>sn_manual_title := title, sn_updated_at := now\<rparr>)"

definition session_set_branch_summary :: "string \<Rightarrow> string option \<Rightarrow> ('m, session_error, unit) action" where
  "session_set_branch_summary i s = update_session i (\<lambda>now r. r\<lparr>sn_branch_summary := s, sn_updated_at := now\<rparr>)"

definition session_set_workspace_path :: "string \<Rightarrow> string option \<Rightarrow> ('m, session_error, unit) action" where
  "session_set_workspace_path i ws = update_session i (\<lambda>now r. r\<lparr>sn_workspace_path := ws\<rparr>)"

definition session_set_context_reset_index :: "string \<Rightarrow> nat option \<Rightarrow> ('m, session_error, unit) action" where
  "session_set_context_reset_index i k =
     update_session i (\<lambda>now r. r\<lparr>sn_updated_at := now, sr_context_reset_index := k\<rparr>)"

definition session_set_custom_system_prompt :: "string \<Rightarrow> string option \<Rightarrow> ('m, session_error, unit) action" where
  "session_set_custom_system_prompt i p =
     update_session i (\<lambda>now r. r\<lparr>sn_updated_at := now, sr_custom_system_prompt := p\<rparr>)"

definition session_column :: "string \<Rightarrow> (session_row \<Rightarrow> 'a) \<Rightarrow> ('m, session_error, 'a) action" where
  "session_column i f = storage_io (\<lambda>w. (case find_session i (st_sessions w) of
      None \<Rightarrow> Inl (SnNotFound i) | Some r \<Rightarrow> Inr (f r), w))"

definition session_get_context_reset_index :: "string \<Rightarrow> ('m, session_error, nat option) action" where
  "session_get_context_reset_index i = session_column i sr_context_reset_index"

definition session_get_custom_system_prompt :: "string \<Rightarrow> ('m, session_error, string option) action" where
  "session_get_custom_system_prompt i = session_column i sr_custom_system_prompt"

text \<open>\<open>DELETE\<close>: no other row may refer to the session.\<close>

definition session_delete :: "string \<Rightarrow> ('m, session_error, unit) action" where
  "session_delete i = storage_io (\<lambda>w.
     if find_session i (st_sessions w) = None then (Inl (SnNotFound i), w)
     else if list_ex (\<lambda>r. sn_id r \<noteq> i \<and> (sn_parent_id r = Some i \<or> sn_root_id r = i)) (st_sessions w)
             \<or> i \<in> set (st_references w)
     then (Inl (SnStorageError foreign_key_message), w)
     else (Inr (), w\<lparr>st_sessions := filter (\<lambda>r. sn_id r \<noteq> i) (st_sessions w)\<rparr>))"

end
