(* ===== verification/SessionManager.thy ===== *)
theory SessionManager
  imports Sessions
begin

text \<open>
  Transcripts, chat checkpoints and the session manager (\<open>y-session/src/manager.rs\<close>,
  \<open>checkpoint.rs\<close>, \<open>tree.rs\<close>) over the stores of \<open>Sessions\<close>.  Messages are a type parameter.
  Identifiers of new sessions and checkpoints are arguments.
\<close>

section \<open>Transcripts\<close>

datatype transcript_kind = TkContext | TkDisplay

fun transcript_lines :: "transcript_kind \<Rightarrow> string \<Rightarrow> 'm store \<Rightarrow> 'm option list" where
  "transcript_lines TkContext i w = st_context w i"
| "transcript_lines TkDisplay i w = st_display w i"

fun set_transcript :: "transcript_kind \<Rightarrow> string \<Rightarrow> 'm option list \<Rightarrow> 'm store \<Rightarrow> 'm store" where
  "set_transcript TkContext i ls w = w\<lparr>st_context := (st_context w)(i := ls)\<rparr>"
| "set_transcript TkDisplay i ls w = w\<lparr>st_display := (st_display w)(i := ls)\<rparr>"

text \<open>The messages of a file: the lines that parse.\<close>

definition messages :: "transcript_kind \<Rightarrow> string \<Rightarrow> 'm store \<Rightarrow> 'm list" where
  "messages k i w = List.map_filter id (transcript_lines k i w)"

definition transcript_append :: "transcript_kind \<Rightarrow> string \<Rightarrow> 'm \<Rightarrow> ('m, session_error, unit) action" where
  "transcript_append k i m = storage_io (\<lambda>w. (Inr (), set_transcript k i (transcript_lines k i w @ [Some m]) w))"

definition transcript_read_all :: "transcript_kind \<Rightarrow> string \<Rightarrow> ('m, session_error, 'm list) action" where
  "transcript_read_all k i = storage_io (\<lambda>w. (Inr (messages k i w), w))"

definition transcript_read_last :: "transcript_kind \<Rightarrow> string \<Rightarrow> nat \<Rightarrow> ('m, session_error, 'm list) action" where
  "transcript_read_last k i n =
     (if n = 0 then act_ret []
      else storage_io (\<lambda>w. (let ls = transcript_lines k i w
        in Inr (List.map_filter id (drop (length ls - n) ls)), w)))"

definition transcript_message_count :: "transcript_kind \<Rightarrow> string \<Rightarrow> ('m, session_error, nat) action" where
  "transcript_message_count k i = storage_io (\<lambda>w. (Inr (length (messages k i w)), w))"

definition transcript_rewrite :: "transcript_kind \<Rightarrow> string \<Rightarrow> 'm list \<Rightarrow> ('m, session_error, unit) action" where
  "transcript_rewrite k i ms = storage_io (\<lambda>w. (Inr (), set_transcript k i (map Some ms) w))"

definition transcript_truncate :: "transcript_kind \<Rightarrow> string \<Rightarrow> nat \<Rightarrow> ('m, session_error, nat) action" where
  "transcript_truncate k i keep = act_bind (transcript_read_all k i) (\<lambda>ms.
     if keep \<ge> length ms then act_ret 0
     else act_bind (transcript_rewrite k i (take keep ms)) (\<lambda>_. act_ret (length ms - keep)))"

fun replace_first :: "('m \<Rightarrow> bool) \<Rightarrow> 'm \<Rightarrow> 'm list \<Rightarrow> 'm list" where
  "replace_first p y [] = []"
| "replace_first p y (x # xs) = (if p x then y # xs else x # replace_first p y xs)"

definition transcript_update_message ::
  "('m \<Rightarrow> string) \<Rightarrow> transcript_kind \<Rightarrow> string \<Rightarrow> string \<Rightarrow> 'm \<Rightarrow> ('m, session_error, bool) action" where
  "transcript_update_message message_id k i mid updated = act_bind (transcript_read_all k i) (\<lambda>ms.
     if list_ex (\<lambda>m. message_id m = mid) ms
     then act_bind (transcript_rewrite k i (replace_first (\<lambda>m. message_id m = mid) updated ms)) (\<lambda>_. act_ret True)
     else act_ret False)"

section \<open>Chat checkpoints\<close>

definition same_slot :: "chat_checkpoint \<Rightarrow> chat_checkpoint \<Rightarrow> bool" where
  "same_slot a b = (cc_session_id a = cc_session_id b \<and> cc_turn_number a = cc_turn_number b)"

text \<open>The second statement of \<open>save\<close>: \<open>INSERT \<dots> ON CONFLICT(checkpoint_id) DO UPDATE\<close> under the
  constraint that a session and a turn have one row.\<close>

definition upsert_checkpoint :: "chat_checkpoint \<Rightarrow> chat_checkpoint list \<Rightarrow> session_error + chat_checkpoint list" where
  "upsert_checkpoint cp rows =
     (let conflict = Inl (SnStorageError ''save chat checkpoint: UNIQUE constraint failed'')
      in case List.find (\<lambda>r. cc_checkpoint_id r = cc_checkpoint_id cp) rows of
           Some old \<Rightarrow>
             (let new = old\<lparr>cc_turn_number := cc_turn_number cp, cc_message_count_before := cc_message_count_before cp,
                    cc_journal_scope_id := cc_journal_scope_id cp, cc_invalidated := cc_invalidated cp\<rparr>
              in if list_ex (\<lambda>r. cc_checkpoint_id r \<noteq> cc_checkpoint_id cp \<and> same_slot r new) rows then conflict
                 else Inr (map (\<lambda>r. if cc_checkpoint_id r = cc_checkpoint_id cp then new else r) rows))
         | None \<Rightarrow> if list_ex (\<lambda>r. same_slot r cp) rows then conflict else Inr (rows @ [cp]))"

definition checkpoint_save :: "chat_checkpoint \<Rightarrow> ('m, session_error, unit) action" where
  "checkpoint_save cp = act_bind
     (storage_io (\<lambda>w. (Inr (), w\<lparr>st_checkpoints :=
        filter (\<lambda>r. \<not> (same_slot r cp \<and> cc_invalidated r)) (st_checkpoints w)\<rparr>)))
     (\<lambda>_. storage_io (\<lambda>w. case upsert_checkpoint cp (st_checkpoints w) of
        Inl e \<Rightarrow> (Inl e, w) | Inr rows \<Rightarrow> (Inr (), w\<lparr>st_checkpoints := rows\<rparr>)))"

definition checkpoint_load :: "string \<Rightarrow> ('m, session_error, chat_checkpoint) action" where
  "checkpoint_load c = storage_io (\<lambda>w. (case List.find (\<lambda>r. cc_checkpoint_id r = c) (st_checkpoints w) of
      None \<Rightarrow> Inl (SnNotFound c) | Some r \<Rightarrow> Inr r, w))"

text \<open>\<open>ORDER BY turn_number DESC\<close>.\<close>

definition checkpoints_of :: "string \<Rightarrow> chat_checkpoint list \<Rightarrow> chat_checkpoint list" where
  "checkpoints_of i rows = rev (sort_key cc_turn_number (filter (\<lambda>r. cc_session_id r = i) rows))"

definition checkpoint_list :: "string \<Rightarrow> ('m, session_error, chat_checkpoint list) action" where
  "checkpoint_list i = storage_io (\<lambda>w. (Inr (checkpoints_of i (st_checkpoints w)), w))"

definition checkpoint_latest :: "string \<Rightarrow> ('m, session_error, chat_checkpoint option) action" where
  "checkpoint_latest i = storage_io (\<lambda>w. (Inr (List.find (\<lambda>r. \<not> cc_invalidated r) (checkpoints_of i (st_checkpoints w))), w))"

definition to_invalidate :: "string \<Rightarrow> nat \<Rightarrow> chat_checkpoint \<Rightarrow> bool" where
  "to_invalidate i turn r = (cc_session_id r = i \<and> turn < cc_turn_number r \<and> \<not> cc_invalidated r)"

definition checkpoint_invalidate_after :: "string \<Rightarrow> nat \<Rightarrow> ('m, session_error, nat) action" where
  "checkpoint_invalidate_after i turn = storage_io (\<lambda>w.
     (Inr (length (filter (to_invalidate i turn) (st_checkpoints w))),
      w\<lparr>st_checkpoints := map (\<lambda>r. if to_invalidate i turn r then r\<lparr>cc_invalidated := True\<rparr> else r) (st_checkpoints w)\<rparr>))"

section \<open>The chat checkpoint manager\<close>

record rollback_result =
  rb_messages_removed :: nat
  rb_scopes_rolled_back :: "string list"
  rb_rolled_back_to_turn :: nat
  rb_checkpoints_invalidated :: nat

definition create_checkpoint ::
  "string \<Rightarrow> string \<Rightarrow> nat \<Rightarrow> nat \<Rightarrow> string \<Rightarrow> ('m, session_error, chat_checkpoint) action" where
  "create_checkpoint fresh i turn count scope = act_bind (checkpoint_list i) (\<lambda>cps. \<lambda>w.
     (let cp = \<lparr>cc_checkpoint_id = (case List.find (\<lambda>r. cc_turn_number r = turn) cps of
                   Some r \<Rightarrow> cc_checkpoint_id r | None \<Rightarrow> fresh),
                cc_session_id = i, cc_turn_number = turn, cc_message_count_before = count,
                cc_journal_scope_id = scope, cc_invalidated = False, cc_created_at = st_now w\<rparr>
      in act_bind (checkpoint_save cp) (\<lambda>_. act_ret cp) w))"

definition rollback_to :: "string \<Rightarrow> string \<Rightarrow> ('m, session_error, rollback_result) action" where
  "rollback_to i c = act_bind (checkpoint_load c) (\<lambda>target.
     if cc_session_id target \<noteq> i then
       act_fail (SnOther (''checkpoint '' @ cc_checkpoint_id target @ '' belongs to session '' @
         cc_session_id target @ '', not '' @ i))
     else if cc_invalidated target then
       act_fail (SnOther (''checkpoint '' @ cc_checkpoint_id target @ '' is already invalidated''))
     else act_bind (checkpoint_list i) (\<lambda>cps.
       act_bind (try_action (transcript_truncate TkDisplay i (cc_message_count_before target))) (\<lambda>_.
       act_bind (transcript_truncate TkContext i (cc_message_count_before target)) (\<lambda>removed.
       act_bind (try_action (session_update_metadata i None 0 (cc_message_count_before target))) (\<lambda>_.
       act_bind (checkpoint_invalidate_after i (cc_turn_number target - 1)) (\<lambda>invalidated.
         act_ret \<lparr>rb_messages_removed = removed,
           rb_scopes_rolled_back = map cc_journal_scope_id
             (filter (\<lambda>r. cc_turn_number r \<ge> cc_turn_number target \<and> \<not> cc_invalidated r) cps),
           rb_rolled_back_to_turn = cc_turn_number target - 1,
           rb_checkpoints_invalidated = invalidated\<rparr>))))))"

definition rollback_last :: "string \<Rightarrow> ('m, session_error, rollback_result) action" where
  "rollback_last i = act_bind (checkpoint_latest i) (\<lambda>l. case l of
      None \<Rightarrow> act_fail (SnOther ''no checkpoints available for rollback'')
    | Some cp \<Rightarrow> rollback_to i (cc_checkpoint_id cp))"

definition list_checkpoints :: "string \<Rightarrow> ('m, session_error, chat_checkpoint list) action" where
  "list_checkpoints i = act_bind (checkpoint_list i) (\<lambda>cps. act_ret (filter (\<lambda>r. \<not> cc_invalidated r) cps))"

definition current_turn :: "string \<Rightarrow> ('m, session_error, nat) action" where
  "current_turn i = act_bind (checkpoint_latest i) (\<lambda>l. act_ret (case l of None \<Rightarrow> 0 | Some cp \<Rightarrow> cc_turn_number cp))"

section \<open>The session manager\<close>

abbreviation stored :: "('m, session_error, 'a) action \<Rightarrow> ('m, manager_error, 'a) action" where
  "stored m \<equiv> map_error from_session_error m"

definition transcribed :: "string \<Rightarrow> ('m, session_error, 'a) action \<Rightarrow> ('m, manager_error, 'a) action" where
  "transcribed prefix_text m = map_error (\<lambda>e. SmTranscript (prefix_text @ session_error_display e)) m"

definition depth_error :: "nat \<Rightarrow> manager_error" where
  "depth_error max_depth = SmConfig (''maximum tree depth '' @ show_nat max_depth @ '' exceeded'')"

text \<open>The check of the depth of the parent, then the creation.\<close>

definition check_depth :: "nat \<Rightarrow> session_node \<Rightarrow> ('m, manager_error, unit) action" where
  "check_depth max_depth parent =
     (if sn_depth parent \<ge> max_depth then act_fail (depth_error max_depth) else act_ret ())"

definition check_parent :: "nat \<Rightarrow> create_options \<Rightarrow> ('m, manager_error, unit) action" where
  "check_parent max_depth opts = (case op_parent_id opts of
      None \<Rightarrow> act_ret ()
    | Some p \<Rightarrow> act_bind (stored (session_get p)) (check_depth max_depth))"

definition create_session :: "nat \<Rightarrow> string \<Rightarrow> create_options \<Rightarrow> ('m, manager_error, session_node) action" where
  "create_session max_depth i opts =
     act_bind (check_parent max_depth opts) (\<lambda>_. stored (session_create i opts))"

definition create_session_in_workspace ::
  "nat \<Rightarrow> string \<Rightarrow> create_options \<Rightarrow> string option \<Rightarrow> ('m, manager_error, session_node) action" where
  "create_session_in_workspace max_depth i opts ws =
     act_bind (check_parent max_depth opts) (\<lambda>_. stored (session_create_in i opts ws))"

definition transition_state :: "string \<Rightarrow> session_state \<Rightarrow> ('m, manager_error, unit) action" where
  "transition_state i s = act_bind (stored (session_get i)) (\<lambda>current.
     act_bind (act_of (validate_transition (sn_state current) s)) (\<lambda>_. stored (session_set_state i s)))"

definition u32_max :: nat where "u32_max = 2 ^ 32 - 1"

definition append_message :: "string \<Rightarrow> 'm \<Rightarrow> ('m, manager_error, unit) action" where
  "append_message i m = act_bind (stored (session_get i)) (\<lambda>session.
     if sn_state session \<noteq> SstActive then
       act_fail (SmInvalidTransition (session_state_debug (sn_state session)) ''append message (requires Active)'')
     else act_bind (transcribed ''display transcript: '' (transcript_append TkDisplay i m)) (\<lambda>_.
       act_bind (transcribed [] (transcript_append TkContext i m)) (\<lambda>_.
       act_bind (transcribed [] (transcript_message_count TkContext i)) (\<lambda>count.
         stored (session_update_metadata i None (sn_token_count session) (min count u32_max))))))"

definition copy_custom_system_prompt :: "string \<Rightarrow> string \<Rightarrow> ('m, manager_error, unit) action" where
  "copy_custom_system_prompt source target = act_bind (stored (session_get_custom_system_prompt source)) (\<lambda>p.
     if p \<noteq> None then stored (session_set_custom_system_prompt target p) else act_ret ())"

definition branch_options :: "session_node \<Rightarrow> string \<Rightarrow> string option \<Rightarrow> create_options" where
  "branch_options parent parent_id title = \<lparr>op_parent_id = Some parent_id, op_session_type = StyBranch,
     op_agent_id = sn_agent_id parent, op_title = title\<rparr>"

definition branch :: "nat \<Rightarrow> string \<Rightarrow> string \<Rightarrow> string option \<Rightarrow> ('m, manager_error, session_node) action" where
  "branch max_depth fresh parent_id title = act_bind (stored (session_get parent_id)) (\<lambda>parent.
     act_bind (check_depth max_depth parent) (\<lambda>_.
     act_bind (stored (session_create fresh (branch_options parent parent_id title))) (\<lambda>b.
     act_bind (copy_custom_system_prompt parent_id (sn_id b)) (\<lambda>_. act_ret b))))"

text \<open>\<open>descendants_including_self\<close>.\<close>

definition in_subtree :: "string \<Rightarrow> session_node \<Rightarrow> bool" where
  "in_subtree i n = (sn_id n = i \<or> i \<in> set (sn_path n))"

definition descendants_including_self :: "string \<Rightarrow> ('m, manager_error, session_node list) action" where
  "descendants_including_self i = act_bind (stored (session_get i)) (\<lambda>current.
     act_bind (stored (session_list (no_filter\<lparr>sf_root_id := Some (sn_root_id current)\<rparr>))) (\<lambda>all.
       act_ret (filter (in_subtree (sn_id current)) all)))"

definition is_foreign_key_delete_error :: "session_error \<Rightarrow> bool" where
  "is_foreign_key_delete_error e = (case e of
      SnStorageError m \<Rightarrow> str_contains m ''FOREIGN KEY constraint failed'' | _ \<Rightarrow> False)"

definition delete_session :: "string \<Rightarrow> ('m, manager_error, unit) action" where
  "delete_session i = act_bind (stored (session_get i)) (\<lambda>session.
     act_bind (try_action (session_delete i)) (\<lambda>r.
     act_bind (case r of
         Inr _ \<Rightarrow> act_ret ()
       | Inl e \<Rightarrow>
           if is_foreign_key_delete_error e then
             act_bind (if sn_state session \<noteq> SstTombstone then
                 act_bind (act_of (validate_transition (sn_state session) SstTombstone))
                   (\<lambda>_. stored (session_set_state i SstTombstone))
               else act_ret ())
             (\<lambda>_. act_bind (try_action (session_update_metadata i None 0 0)) (\<lambda>_. act_ret ()))
           else act_fail (from_session_error e))
     (\<lambda>_. act_bind (try_action (transcript_truncate TkDisplay i 0)) (\<lambda>_.
        act_bind (try_action (transcript_truncate TkContext i 0)) (\<lambda>_. act_ret ())))))"

definition fork_title :: "session_node \<Rightarrow> string option \<Rightarrow> string option" where
  "fork_title source title = (case title of Some _ \<Rightarrow> title
     | None \<Rightarrow> map_option (\<lambda>t. t @ '' (Branch)'') (sn_title source))"

definition fork_session :: "nat \<Rightarrow> string \<Rightarrow> string \<Rightarrow> nat \<Rightarrow> string option \<Rightarrow> ('m, manager_error, session_node) action" where
  "fork_session max_depth fresh source_id index title = act_bind (stored (session_get source_id)) (\<lambda>source.
     act_bind (transcribed ''read display transcript: '' (transcript_read_all TkDisplay source_id)) (\<lambda>display.
     act_bind (transcribed [] (transcript_read_all TkContext source_id)) (\<lambda>context.
     if display = [] \<and> context = [] then act_fail (SmOther ''source session has no messages to fork'')
     else act_bind (check_depth max_depth source) (\<lambda>_.
     act_bind (stored (session_create fresh (branch_options source source_id (fork_title source title)))) (\<lambda>fork.
     act_bind (copy_custom_system_prompt source_id (sn_id fork)) (\<lambda>_.
     act_bind (act_iter (\<lambda>m. transcribed ''write forked display transcript: '' (transcript_append TkDisplay (sn_id fork) m))
         (take (index + 1) display)) (\<lambda>_.
     act_bind (act_iter (\<lambda>m. transcribed [] (transcript_append TkContext (sn_id fork) m)) (take (index + 1) context)) (\<lambda>_.
     act_bind (try_action (session_get_context_reset_index source_id)) (\<lambda>reset.
     act_bind (case reset of
         Inr (Some k) \<Rightarrow>
           if k < min (index + 1) (length context)
           then stored (session_set_context_reset_index (sn_id fork) (Some k)) else act_ret ()
       | _ \<Rightarrow> act_ret ()) (\<lambda>_.
     act_bind (stored (session_update_metadata (sn_id fork) None 0 (min (min (index + 1) (length context)) u32_max))) (\<lambda>_.
       stored (session_get (sn_id fork)))))))))))))"

definition fork_session_before_message ::
  "nat \<Rightarrow> string \<Rightarrow> string \<Rightarrow> nat \<Rightarrow> string option \<Rightarrow> ('m, manager_error, session_node) action" where
  "fork_session_before_message max_depth fresh source_id index title =
     (if index > 0 then fork_session max_depth fresh source_id (index - 1) title
      else act_bind (stored (session_get source_id)) (\<lambda>source.
        branch max_depth fresh source_id (fork_title source title)))"

section \<open>Walking the tree\<close>

definition find_root :: "string \<Rightarrow> ('m, manager_error, session_node) action" where
  "find_root i = act_bind (stored (session_get i)) (\<lambda>n.
     if sn_root_id n = sn_id n then act_ret n else stored (session_get (sn_root_id n)))"

definition path_to_root :: "string \<Rightarrow> ('m, manager_error, session_node list) action" where
  "path_to_root i = act_bind (stored (session_get i)) (\<lambda>n.
     act_bind (stored (session_ancestors i)) (\<lambda>as. act_ret (as @ [n])))"

fun leaves_among :: "session_node list \<Rightarrow> ('m, manager_error, session_node list) action" where
  "leaves_among [] = act_ret []"
| "leaves_among (n # ns) = act_bind (stored (session_children (sn_id n))) (\<lambda>cs.
     act_bind (leaves_among ns) (\<lambda>rest. act_ret (if cs = [] then n # rest else rest)))"

definition find_leaves :: "string \<Rightarrow> ('m, manager_error, session_node list) action" where
  "find_leaves root = act_bind (stored (session_list (no_filter\<lparr>sf_root_id := Some root\<rparr>))) leaves_among"

definition subtree_size :: "string \<Rightarrow> ('m, manager_error, nat) action" where
  "subtree_size root = act_bind (stored (session_list (no_filter\<lparr>sf_root_id := Some root\<rparr>))) (\<lambda>all. act_ret (length all))"

definition max_depth_of :: "string \<Rightarrow> ('m, manager_error, nat) action" where
  "max_depth_of root = act_bind (stored (session_list (no_filter\<lparr>sf_root_id := Some root\<rparr>)))
     (\<lambda>all. act_ret (foldl max 0 (map sn_depth all)))"

end
