(* ===== verification/SessionSteps.thy ===== *)
theory SessionSteps
  imports SessionManager
begin

text \<open>
  Runs of the session manager: the operations with every failure of storage, and how any of them
  may change the session table.  An action keeps a property of the table when the property holds
  after it, whatever the action returns.
\<close>

section \<open>Operations and runs\<close>

datatype 'm session_op =
  SoCreate string create_options
| SoCreateIn string create_options "string option"
| SoTransition string session_state
| SoAppend string 'm
| SoBranch string string "string option"
| SoFork string string nat "string option"
| SoForkBefore string string nat "string option"
| SoDelete string
| SoTitle string string
| SoManualTitle string "string option"
| SoBranchSummary string "string option"
| SoWorkspace string "string option"
| SoResetIndex string "nat option"
| SoPrompt string "string option"
| SoCheckpoint string string nat nat string
| SoRollback string string
| SoRollbackLast string
| SoClock nat
| SoFaults "session_error option list"
| SoReferences "string list"

text \<open>What an operation leaves behind, whatever its result.\<close>

fun perform :: "nat \<Rightarrow> 'm session_op \<Rightarrow> 'm store \<Rightarrow> 'm store" where
  "perform d (SoCreate i opts) w = snd (create_session d i opts w)"
| "perform d (SoCreateIn i opts ws) w = snd (create_session_in_workspace d i opts ws w)"
| "perform d (SoTransition i s) w = snd (transition_state i s w)"
| "perform d (SoAppend i m) w = snd (append_message i m w)"
| "perform d (SoBranch i p title) w = snd (branch d i p title w)"
| "perform d (SoFork i src k title) w = snd (fork_session d i src k title w)"
| "perform d (SoForkBefore i src k title) w = snd (fork_session_before_message d i src k title w)"
| "perform d (SoDelete i) w = snd (delete_session i w)"
| "perform d (SoTitle i t) w = snd (session_set_title i t w)"
| "perform d (SoManualTitle i t) w = snd (session_set_manual_title i t w)"
| "perform d (SoBranchSummary i t) w = snd (session_set_branch_summary i t w)"
| "perform d (SoWorkspace i ws) w = snd (session_set_workspace_path i ws w)"
| "perform d (SoResetIndex i k) w = snd (session_set_context_reset_index i k w)"
| "perform d (SoPrompt i p) w = snd (session_set_custom_system_prompt i p w)"
| "perform d (SoCheckpoint c i turn n scope) w = snd (create_checkpoint c i turn n scope w)"
| "perform d (SoRollback i c) w = snd (rollback_to i c w)"
| "perform d (SoRollbackLast i) w = snd (rollback_last i w)"
| "perform d (SoClock t) w = w\<lparr>st_now := t\<rparr>"
| "perform d (SoFaults fs) w = w\<lparr>st_faults := fs\<rparr>"
| "perform d (SoReferences rs) w = w\<lparr>st_references := rs\<rparr>"

definition session_run :: "nat \<Rightarrow> 'm session_op list \<Rightarrow> 'm store \<Rightarrow> 'm store" where
  "session_run d ops w = foldl (\<lambda>w x. perform d x w) w ops"

definition empty_store :: "'m store" where
  "empty_store = \<lparr>st_sessions = [], st_context = (\<lambda>_. []), st_display = (\<lambda>_. []), st_checkpoints = [],
     st_references = [], st_now = 0, st_faults = []\<rparr>"

section \<open>Actions that keep a property of the session table\<close>

named_theorems keeps_intro \<open>rules that an action keeps a property of the table\<close>

definition keeps :: "(session_row list \<Rightarrow> bool) \<Rightarrow> ('m, 'e, 'a) action \<Rightarrow> bool" where
  "keeps P m = (\<forall>w. P (st_sessions w) \<longrightarrow> P (st_sessions (snd (m w))))"

lemma keepsI: "(\<And>w. P (st_sessions w) \<Longrightarrow> P (st_sessions (snd (m w)))) \<Longrightarrow> keeps P m"
  by (simp add: keeps_def)

lemma keepsD: "keeps P m \<Longrightarrow> P (st_sessions w) \<Longrightarrow> P (st_sessions (snd (m w)))"
  by (simp add: keeps_def)

lemma keeps_ret [keeps_intro]: "keeps P (act_ret x)" and keeps_fail [keeps_intro]: "keeps P (act_fail e)"
  and keeps_of [keeps_intro]: "keeps P (act_of r)"
  by (simp_all add: keeps_def act_ret_def act_fail_def act_of_def)

lemma keeps_bind [keeps_intro]: "keeps P m \<Longrightarrow> (\<And>x. keeps P (f x)) \<Longrightarrow> keeps P (act_bind m f)"
  by (auto simp: keeps_def act_bind_def split: prod.splits sum.splits)

lemma keeps_map_error [keeps_intro]: "keeps P m \<Longrightarrow> keeps P (map_error f m)"
  by (auto simp: keeps_def map_error_def split: prod.splits)

lemma keeps_try [keeps_intro]: "keeps P m \<Longrightarrow> keeps P (try_action m)"
  by (auto simp: keeps_def try_action_def split: prod.splits)

lemma keeps_io [keeps_intro]: "keeps P m \<Longrightarrow> keeps P (storage_io m)"
  by (auto simp: keeps_def storage_io_def split: list.splits option.splits)

lemma keeps_iter [keeps_intro]: "(\<And>x. keeps P (f x)) \<Longrightarrow> keeps P (act_iter f xs)"
  by (induction xs) (auto intro: keeps_intro)

lemma keeps_if [keeps_intro]: "(b \<Longrightarrow> keeps P m) \<Longrightarrow> (\<not> b \<Longrightarrow> keeps P m') \<Longrightarrow> keeps P (if b then m else m')"
  by simp

lemma keeps_option [keeps_intro]:
  "keeps P m \<Longrightarrow> (\<And>x. keeps P (f x)) \<Longrightarrow> keeps P (case opt of None \<Rightarrow> m | Some x \<Rightarrow> f x)"
  by (cases opt) auto

lemma keeps_sum [keeps_intro]:
  "(\<And>e. keeps P (g e)) \<Longrightarrow> (\<And>x. keeps P (f x)) \<Longrightarrow> keeps P (case r of Inl e \<Rightarrow> g e | Inr x \<Rightarrow> f x)"
  by (cases r) auto

text \<open>Actions that do not change the table.\<close>

lemma set_transcript_sessions [simp]: "st_sessions (set_transcript k i ls w) = st_sessions w"
  by (cases k) auto

lemma keeps_reads [keeps_intro]:
  "keeps P (session_get i)" "keeps P (session_list f)" "keeps P (session_children i)"
  "keeps P (session_column i c)" "keeps P (session_get_context_reset_index i)"
  "keeps P (session_get_custom_system_prompt i)"
  unfolding session_get_def session_list_def session_children_def session_column_def
    session_get_context_reset_index_def session_get_custom_system_prompt_def
  by (rule keeps_io, simp add: keeps_def)+

lemma keeps_transcripts [keeps_intro]:
  "keeps P (transcript_append k i m)" "keeps P (transcript_read_all k i)"
  "keeps P (transcript_message_count k i)" "keeps P (transcript_rewrite k i ms)"
  unfolding transcript_append_def transcript_read_all_def transcript_message_count_def transcript_rewrite_def
  by (rule keeps_io, simp add: keeps_def)+

lemma keeps_truncate [keeps_intro]: "keeps P (transcript_truncate k i n)"
  unfolding transcript_truncate_def by (intro keeps_intro)

lemma keeps_checkpoints [keeps_intro]:
  "keeps P (checkpoint_load c)" "keeps P (checkpoint_list i)" "keeps P (checkpoint_latest i)"
  "keeps P (checkpoint_invalidate_after i n)"
  unfolding checkpoint_load_def checkpoint_list_def checkpoint_latest_def checkpoint_invalidate_after_def
  by (rule keeps_io, simp add: keeps_def)+

lemma keeps_save [keeps_intro]: "keeps P (checkpoint_save cp)"
  unfolding checkpoint_save_def
  by (rule keeps_bind; rule keeps_io) (auto simp: keeps_def split: sum.splits)

lemma keeps_state: "(\<And>v. keeps P (f v)) \<Longrightarrow> keeps P (\<lambda>w. f w w)"
  by (simp add: keeps_def)

lemma keeps_create_checkpoint [keeps_intro]: "keeps P (create_checkpoint c i turn n scope)"
  unfolding create_checkpoint_def Let_def by (rule keeps_bind, rule keeps_intro, rule keeps_state) (intro keeps_intro)

lemma keeps_transcribed [keeps_intro]: "keeps P m \<Longrightarrow> keeps P (transcribed t m)"
  unfolding transcribed_def by (rule keeps_map_error)

lemma keeps_checks [keeps_intro]: "keeps P (check_depth d n)" "keeps P (check_parent d opts)"
  unfolding check_depth_def check_parent_def by (intro keeps_intro; simp add: check_depth_def keeps_intro)+

section \<open>Well-formed trees\<close>

text \<open>A row with a parent continues the path of its parent, in the same tree, one deeper.\<close>

definition tree_ok :: "session_row list \<Rightarrow> session_row \<Rightarrow> bool" where
  "tree_ok rs r = (case sn_parent_id r of
      None \<Rightarrow> sn_root_id r = sn_id r \<and> sn_depth r = 0 \<and> sn_path r = []
    | Some p \<Rightarrow> \<exists>q \<in> set rs. sn_id q = p \<and> sn_root_id r = sn_root_id q \<and> sn_depth r = sn_depth q + 1
        \<and> sn_path r = sn_path q @ [p])"

definition forest :: "nat \<Rightarrow> session_row list \<Rightarrow> bool" where
  "forest d rs = (distinct (map sn_id rs) \<and> (\<forall>r \<in> set rs. tree_ok rs r \<and> sn_depth r \<le> d))"

definition tree_columns :: "session_row \<Rightarrow> string \<times> string option \<times> string \<times> nat \<times> string list" where
  "tree_columns r = (sn_id r, sn_parent_id r, sn_root_id r, sn_depth r, sn_path r)"

lemma forest_columns:
  assumes "forest d rs" "map tree_columns rs' = map tree_columns rs"
  shows "forest d rs'"
proof -
  have ids: "map sn_id rs' = map sn_id rs"
    using arg_cong [OF assms(2), of "map fst"] by (simp add: tree_columns_def comp_def)
  have same: "\<And>r. r \<in> set rs' \<Longrightarrow> \<exists>q \<in> set rs. tree_columns q = tree_columns r"
    "\<And>q. q \<in> set rs \<Longrightarrow> \<exists>r \<in> set rs'. tree_columns r = tree_columns q"
    using arg_cong [OF assms(2), of set] by (auto, (metis (no_types, lifting) image_iff)+)
  have "tree_ok rs' r \<and> sn_depth r \<le> d" if r: "r \<in> set rs'" for r
  proof -
    obtain q where q: "q \<in> set rs" "tree_columns q = tree_columns r" using same(1) [OF r] by blast
    then have "tree_ok rs q" "sn_depth q \<le> d" using assms(1) by (auto simp: forest_def)
    with q(2) same(2) show ?thesis
      by (fastforce simp: tree_ok_def tree_columns_def split: option.splits)
  qed
  then show ?thesis using assms(1) ids by (simp add: forest_def)
qed

lemma distinct_find: "distinct (map sn_id rs) \<Longrightarrow> r \<in> set rs \<Longrightarrow> find_session (sn_id r) rs = Some r"
  unfolding find_session_def by (induction rs) (auto simp: rev_image_eqI)

lemma forest_find: "forest d rs \<Longrightarrow> r \<in> set rs \<Longrightarrow> find_session (sn_id r) rs = Some r"
  by (rule distinct_find) (simp_all add: forest_def)

lemma find_session_Some: "find_session i rs = Some r \<Longrightarrow> r \<in> set rs \<and> sn_id r = i"
  by (auto simp: find_session_def find_Some_iff)

lemma find_session_None: "find_session i rs = None \<longleftrightarrow> i \<notin> sn_id ` set rs"
  by (auto simp: find_session_def find_None_iff)

lemma forest_unique: "forest d rs \<Longrightarrow> r \<in> set rs \<Longrightarrow> q \<in> set rs \<Longrightarrow> sn_id r = sn_id q \<Longrightarrow> r = q"
  using forest_find by (metis option.inject)

lemma tree_ok_mono: "tree_ok rs r \<Longrightarrow> set rs \<subseteq> set rs' \<Longrightarrow> tree_ok rs' r"
  unfolding tree_ok_def by (cases "sn_parent_id r") auto

text \<open>A new row: a root, or a child of a row of the table that is not too deep, with an identifier
  from \<open>F\<close>.\<close>

definition new_in :: "nat \<Rightarrow> string set \<Rightarrow> session_row list \<Rightarrow> session_row \<Rightarrow> bool" where
  "new_in d F rs r = (find_session (sn_id r) rs = None \<and> sn_id r \<in> F \<and> sn_state r = SstActive \<and> sn_depth r \<le> d
     \<and> (case sn_parent_id r of
          None \<Rightarrow> sn_root_id r = sn_id r \<and> sn_depth r = 0 \<and> sn_path r = []
        | Some p \<Rightarrow> \<exists>q \<in> set rs. sn_id q = p \<and> sn_root_id r = sn_root_id q \<and> sn_depth r = sn_depth q + 1
            \<and> sn_path r = sn_path q @ [p]))"

lemma forest_insert: "forest d rs \<Longrightarrow> new_in d F rs r \<Longrightarrow> forest d (rs @ [r])"
  using tree_ok_mono [of rs _ "rs @ [r]"]
  by (auto simp: forest_def new_in_def find_session_None tree_ok_def split: option.splits)

lemma forest_delete:
  assumes "forest d rs" "\<forall>r \<in> set rs. sn_id r \<noteq> i \<longrightarrow> sn_parent_id r \<noteq> Some i"
  shows "forest d (filter (\<lambda>r. sn_id r \<noteq> i) rs)"
proof -
  have "tree_ok (filter (\<lambda>r. sn_id r \<noteq> i) rs) r" if "r \<in> set rs" "sn_id r \<noteq> i" for r
  proof (cases "sn_parent_id r")
    case (Some p)
    then have "p \<noteq> i" "tree_ok rs r" using assms that by (auto simp: forest_def)
    with Some show ?thesis by (auto simp: tree_ok_def)
  qed (use assms that in \<open>auto simp: forest_def tree_ok_def\<close>)
  then show ?thesis using assms(1) by (auto simp: forest_def distinct_map_filter)
qed

section \<open>What operations do to the table\<close>

text \<open>The possible changes: one row inserted, one row updated outside the tree columns and with a
  permitted change of state, or one row without children deleted.\<close>

inductive table_step :: "nat \<Rightarrow> string set \<Rightarrow> session_row list \<Rightarrow> session_row list \<Rightarrow> bool" for d F where
  Inserted: "new_in d F rs r \<Longrightarrow> table_step d F rs (rs @ [r])"
| Updated: "\<lbrakk>\<And>r. tree_columns (f r) = tree_columns r;
     \<And>r. r \<in> set rs \<Longrightarrow> sn_id r = i \<Longrightarrow> sn_state (f r) = sn_state r \<or> is_valid_transition (sn_state r) (sn_state (f r))\<rbrakk> \<Longrightarrow>
     table_step d F rs (map (\<lambda>r. if sn_id r = i then f r else r) rs)"
| Deleted: "\<forall>r \<in> set rs. sn_id r \<noteq> i \<longrightarrow> sn_parent_id r \<noteq> Some i \<and> sn_root_id r \<noteq> i \<Longrightarrow>
     table_step d F rs (filter (\<lambda>r. sn_id r \<noteq> i) rs)"

lemma forest_step: "table_step d F rs rs' \<Longrightarrow> forest d rs \<Longrightarrow> forest d rs'"
proof (induction rule: table_step.induct)
  case (Updated f rs i)
  then show ?case by (elim forest_columns) (simp add: comp_def if_distrib cong: if_cong)
qed (auto intro: forest_insert forest_delete)

text \<open>A property is stable when every such change keeps it.\<close>

definition stable :: "nat \<Rightarrow> string set \<Rightarrow> (session_row list \<Rightarrow> bool) \<Rightarrow> bool" where
  "stable d F P = (\<forall>rs rs'. P rs \<longrightarrow> table_step d F rs rs' \<longrightarrow> P rs')"

lemma stableD: "stable d F P \<Longrightarrow> P rs \<Longrightarrow> table_step d F rs rs' \<Longrightarrow> P rs'"
  by (auto simp: stable_def)

lemma stable_forest: "stable d F (forest d)"
  by (auto simp: stable_def forest_step)

lemma keeps_update [keeps_intro]:
  assumes "stable d F P" "\<And>now r. tree_columns (f now r) = tree_columns r" "\<And>now r. sn_state (f now r) = sn_state r"
  shows "keeps P (update_session i f)"
  unfolding update_session_def
  by (intro keeps_io keepsI) (auto simp: assms(2,3) intro!: stableD [OF assms(1) _ Updated])

lemma keeps_column_updates [keeps_intro]:
  assumes "stable d F P"
  shows "keeps P (session_update_metadata i title tokens n)" "keeps P (session_set_title i t)"
    "keeps P (session_set_manual_title i mt)" "keeps P (session_set_branch_summary i b)"
    "keeps P (session_set_workspace_path i ws)" "keeps P (session_set_context_reset_index i k)"
    "keeps P (session_set_custom_system_prompt i sp)"
  unfolding session_update_metadata_def session_set_title_def session_set_manual_title_def
    session_set_branch_summary_def session_set_workspace_path_def session_set_context_reset_index_def
    session_set_custom_system_prompt_def
  by (rule keeps_update [OF assms]; simp add: tree_columns_def)+

lemma keeps_delete [keeps_intro]:
  assumes "stable d F P"
  shows "keeps P (session_delete i)"
  unfolding session_delete_def
  by (intro keeps_io keepsI) (auto simp: list_ex_iff intro: stableD [OF assms] Deleted)

lemma run_get:
  assumes "session_get i w = (Inr n, w')"
  shows "st_sessions w' = st_sessions w \<and> (\<exists>q \<in> set (st_sessions w). sn_id q = i \<and>
    find_session i (st_sessions w) = Some q \<and> n = into_session_node q)"
  using assms by (auto simp: session_get_def storage_io_def dest: find_session_Some
      split: list.splits option.splits)

lemma node_columns [simp]:
  "sn_id (into_session_node r) = sn_id r" "sn_root_id (into_session_node r) = sn_root_id r"
  "sn_depth (into_session_node r) = sn_depth r" "sn_path (into_session_node r) = sn_path r"
  "sn_state (into_session_node r) = sn_state r" "sn_parent_id (into_session_node r) = sn_parent_id r"
  "sn_created_at (into_session_node r) = sn_created_at r"
  by (simp_all add: into_session_node_def session_node.truncate_def)

lemma keeps_then:
  assumes "keeps P (m :: ('m, 'e, 'a) action)" "\<And>w x w'. P (st_sessions w) \<Longrightarrow> P (st_sessions w') \<Longrightarrow> m w = (Inr x, w') \<Longrightarrow> P (st_sessions (snd (f x w')))"
  shows "keeps P (act_bind m f)"
proof (rule keepsI)
  fix w :: "'m store" assume P: "P (st_sessions w)"
  obtain r w' where m: "m w = (r, w')" by (cases "m w")
  have P': "P (st_sessions w')" using keepsD [OF assms(1) P] m by simp
  show "P (st_sessions (snd (act_bind m f w)))"
    using assms(2) [OF P P'] m P' by (cases r) (auto simp: act_bind_def)
qed

definition shallow :: "nat \<Rightarrow> string option \<Rightarrow> session_row list \<Rightarrow> bool" where
  "shallow d parent rs = (\<forall>q \<in> set rs. parent = Some (sn_id q) \<longrightarrow> sn_depth q < d)"

lemma keeps_insert:
  assumes "stable d F P" "P (st_sessions w)"
    and "find_session (sn_id r) (st_sessions w) = None \<Longrightarrow> new_in d F (st_sessions w) r"
  shows "P (st_sessions (snd (insert_session r w)))"
  using assms by (auto simp: insert_session_def storage_io_def split: list.splits option.splits
      intro: stableD [OF assms(1) _ Inserted])

lemma create_in_keeps:
  assumes st: "stable d F P" and new: "i \<in> F" and P: "P (st_sessions w)" and sh: "shallow d (op_parent_id opts) (st_sessions w)"
  shows "P (st_sessions (snd (session_create_in i opts ws w)))"
proof -
  have last: "keeps P (session_get i)" by (rule keeps_intro)
  have ins: "P (st_sessions (snd (act_bind (\<lambda>w. insert_session (new_row i (st_now w) opts ws parent) w) (\<lambda>_. session_get i) w')))"
    if "P (st_sessions w')" "find_session i (st_sessions w') = None \<Longrightarrow> new_in d F (st_sessions w') (new_row i (st_now w') opts ws parent)"
    for w' :: "'a store" and parent
  proof -
    obtain r w'' where m: "insert_session (new_row i (st_now w') opts ws parent) w' = (r, w'')" by fastforce
    have "P (st_sessions w'')"
      using keeps_insert [OF st that(1), of "new_row i (st_now w') opts ws parent"] that(2) m
      by (simp add: new_row_def)
    then show ?thesis using keepsD [OF last] m by (cases r) (auto simp: act_bind_def)
  qed
  show ?thesis
  proof (cases "op_parent_id opts")
    case None
    then show ?thesis unfolding session_create_in_def
      using ins [OF P, of None] by (simp add: act_bind_def act_ret_def new_in_def new_row_def new)
  next
    case (Some p)
    obtain r w' where g: "session_get p w = (r, w')" by (cases "session_get p w")
    show ?thesis
    proof (cases r)
      case (Inl e)
      have "P (st_sessions w')" using keepsD [of P "session_get p" w] keeps_reads(1) P g by (metis snd_conv)
      then show ?thesis using g Inl Some by (simp add: session_create_in_def act_bind_def)
    next
      case (Inr n)
      then have q: "st_sessions w' = st_sessions w" "\<exists>q \<in> set (st_sessions w). sn_id q = p \<and> n = into_session_node q"
        using run_get g by blast+
      have "P (st_sessions (snd (act_bind (\<lambda>w. insert_session (new_row i (st_now w) opts ws (Some n)) w) (\<lambda>_. session_get i) w')))"
        by (rule ins) (use P q sh Some new in \<open>force simp: new_in_def new_row_def shallow_def\<close>)+
      then show ?thesis using g Inr Some by (simp add: session_create_in_def act_bind_def act_ret_def)
    qed
  qed
qed

lemma stored_create_keeps:
  assumes "stable d F P" "i \<in> F" "P (st_sessions w)" "shallow d (op_parent_id opts) (st_sessions w)"
  shows "P (st_sessions (snd (map_error f (session_create_in i opts ws) w)))"
  using create_in_keeps [OF assms, of ws] by (auto simp: map_error_def split: prod.splits)

lemma snd_map_error [simp]: "snd (map_error f m w) = snd (m w)"
  by (simp add: map_error_def split: prod.splits)

lemma run_map_error: "map_error f m w = (Inr x, w') \<longleftrightarrow> m w = (Inr x, w')"
proof -
  obtain r v where "m w = (r, v)" by (cases "m w")
  then show ?thesis by (cases r) (auto simp: map_error_def)
qed

lemma run_check_parent:
  assumes "forest d (st_sessions w)" "check_parent d opts w = (Inr u, w')"
  shows "st_sessions w' = st_sessions w \<and> shallow d (op_parent_id opts) (st_sessions w)"
proof (cases "op_parent_id opts")
  case (Some p)
  then obtain n w1 where g: "session_get p w = (Inr n, w1)" "check_depth d n w1 = (Inr u, w')"
    using assms(2) by (auto simp: check_parent_def act_bind_def run_map_error split: prod.splits sum.splits)
  then have "w' = w1" "sn_depth n < d" by (auto simp: check_depth_def act_fail_def act_ret_def split: if_splits)
  moreover obtain q where "q \<in> set (st_sessions w)" "sn_id q = p" "n = into_session_node q" "st_sessions w1 = st_sessions w"
    using run_get [OF g(1)] by blast
  ultimately show ?thesis using forest_unique [OF assms(1)] Some by (auto simp: shallow_def)
qed (use assms in \<open>auto simp: check_parent_def act_ret_def shallow_def\<close>)

text \<open>From here on a stable property that implies a forest.\<close>

lemma keeps_create:
  assumes "stable d F P" "P \<le> forest d" "i \<in> F"
  shows "keeps P (create_session d i opts)" "keeps P (create_session_in_workspace d i opts ws)"
  unfolding create_session_def create_session_in_workspace_def session_create_def
  by (rule keeps_then, rule keeps_intro, rule stored_create_keeps [OF assms(1,3)], assumption,
      use run_check_parent predicate1D [OF assms(2)] in metis)+

text \<open>Keeping a property from tables on which a fact just read still holds.\<close>

definition keeps_from :: "(session_row list \<Rightarrow> bool) \<Rightarrow> (session_row list \<Rightarrow> bool) \<Rightarrow> ('m, 'e, 'a) action \<Rightarrow> bool" where
  "keeps_from P A m = (\<forall>w. P (st_sessions w) \<longrightarrow> A (st_sessions w) \<longrightarrow> P (st_sessions (snd (m w))))"

lemma keeps_weaken: "keeps P m \<Longrightarrow> keeps_from P A m"
  by (simp add: keeps_from_def keeps_def)

lemma keeps_from_fail [intro]: "keeps_from P A (act_fail e)"
  by (rule keeps_weaken, rule keeps_intro)

lemma keeps_from_bind:
  assumes "keeps P m" "keeps A m" "\<And>x. keeps_from P A (f x)"
  shows "keeps_from P A (act_bind m f)"
  using assms by (fastforce simp: keeps_from_def keeps_def act_bind_def split: prod.splits sum.splits)

lemma keeps_from_if: "(b \<Longrightarrow> keeps_from P A m) \<Longrightarrow> (\<not> b \<Longrightarrow> keeps_from P A m') \<Longrightarrow> keeps_from P A (if b then m else m')"
  by simp

definition row_read :: "session_node \<Rightarrow> session_row list \<Rightarrow> bool" where
  "row_read n rs = (\<exists>q. find_session (sn_id n) rs = Some q \<and> sn_depth q = sn_depth n \<and> sn_state q = sn_state n)"

lemma keeps_from_get:
  assumes "\<And>n. sn_id n = i \<Longrightarrow> keeps_from P (row_read n) (f n)"
  shows "keeps P (act_bind (stored (session_get i)) f)"
proof (rule keeps_then, intro keeps_intro)
  fix w n and w' :: "'a store"
  assume P: "P (st_sessions w')" and "stored (session_get i) w = (Inr n, w')"
  then have "session_get i w = (Inr n, w')" by (simp add: run_map_error)
  from run_get [OF this] have "sn_id n = i" "row_read n (st_sessions w')" by (auto simp: row_read_def)
  then show "P (st_sessions (snd (f n w')))" using assms P by (simp add: keeps_from_def)
qed

lemma keeps_set_state:
  assumes "stable d F P" "P \<le> forest d"
  shows "keeps_from P (row_read n)
    (act_bind (act_of (validate_transition (sn_state n) s)) (\<lambda>_. stored (session_set_state (sn_id n) s)))"
proof (cases "validate_transition (sn_state n) s")
  case (Inr u)
  then have valid: "is_valid_transition (sn_state n) s" by (auto simp: validate_transition_def split: if_splits)
  have "P (st_sessions (snd (session_set_state (sn_id n) s w)))"
    if P: "P (st_sessions w)" and n: "row_read n (st_sessions w)" for w :: "'a store"
  proof -
    have "sn_state r = sn_state n" if "r \<in> set (st_sessions w)" "sn_id r = sn_id n" for r
      using n forest_find [OF predicate1D [OF assms(2) P] that(1)] that(2) by (auto simp: row_read_def)
    then show ?thesis using P valid
      by (auto simp: session_set_state_def update_session_def storage_io_def tree_columns_def
        intro!: stableD [OF assms(1) _ Updated] split: list.splits option.splits)
  qed
  with Inr show ?thesis
    by (auto simp: keeps_from_def act_bind_def act_of_def)
qed (auto simp: keeps_from_def act_bind_def act_of_def)

lemma keeps_transition:
  assumes "stable d F P" "P \<le> forest d"
  shows "keeps P (transition_state i s)"
  unfolding transition_state_def
proof (rule keeps_from_get)
  fix n :: session_node assume "sn_id n = i"
  then show "keeps_from P (row_read n) (act_bind (act_of (validate_transition (sn_state n) s))
      (\<lambda>_. stored (session_set_state i s)))"
    using keeps_set_state [OF assms, of n s] by simp
qed

lemma after_bind:
  "P (st_sessions (snd (m w))) \<Longrightarrow> (\<And>x. keeps P (f x)) \<Longrightarrow> P (st_sessions (snd (act_bind m f w)))"
  by (cases "m w"; cases "fst (m w)") (auto simp: act_bind_def keeps_def)

lemma keeps_child:
  assumes "stable d F P" "P \<le> forest d" "op_parent_id opts = Some (sn_id n)" "\<And>x. keeps P (h x)" "fresh \<in> F"
  shows "keeps_from P (row_read n)
    (act_bind (check_depth d n) (\<lambda>_. act_bind (stored (session_create fresh opts)) h))"
proof (cases "sn_depth n < d")
  case True
  have "P (st_sessions (snd (act_bind (stored (session_create fresh opts)) h w)))"
    if P: "P (st_sessions w)" and n: "row_read n (st_sessions w)" for w :: "'a store"
  proof -
    have "shallow d (op_parent_id opts) (st_sessions w)"
      using n True forest_find [OF predicate1D [OF assms(2) P]] assms(3) by (fastforce simp: row_read_def shallow_def)
    then have "P (st_sessions (snd (stored (session_create fresh opts) w)))"
      unfolding session_create_def by (rule stored_create_keeps [OF assms(1,5) P])
    then show ?thesis by (rule after_bind) (rule assms(4))
  qed
  with True show ?thesis by (simp add: keeps_from_def check_depth_def act_bind_def act_ret_def)
qed (simp add: keeps_from_def check_depth_def act_bind_def act_fail_def)


lemma keeps_copy_prompt [keeps_intro]: "stable d F P \<Longrightarrow> keeps P (copy_custom_system_prompt a b)"
  unfolding copy_custom_system_prompt_def by (intro keeps_intro)

lemma keeps_append_message [keeps_intro]: "stable d F P \<Longrightarrow> keeps P (append_message i m)"
  unfolding append_message_def by (intro keeps_intro)

lemma keeps_rollback [keeps_intro]: "stable d F P \<Longrightarrow> keeps P (rollback_to i c)"
  unfolding rollback_to_def by (intro keeps_intro)

lemma keeps_rollback_last [keeps_intro]: "stable d F P \<Longrightarrow> keeps P (rollback_last i)"
  unfolding rollback_last_def by (intro keeps_intro)

lemma keeps_branch:
  assumes "stable d F P" "P \<le> forest d" "fresh \<in> F"
  shows "keeps P (branch d fresh p title)"
  unfolding branch_def
proof (rule keeps_from_get)
  fix n :: session_node assume "sn_id n = p"
  then show "keeps_from P (row_read n) (act_bind (check_depth d n) (\<lambda>_.
      act_bind (stored (session_create fresh (branch_options n p title))) (\<lambda>b.
      act_bind (copy_custom_system_prompt p (sn_id b)) (\<lambda>_. act_ret b))))"
    by (intro keeps_child [OF assms(1,2) _ _ assms(3)] keeps_intro) (simp_all add: branch_options_def, rule assms(1))
qed

lemma keeps_fork:
  assumes "stable d F P" "P \<le> forest d" "fresh \<in> F"
  shows "keeps P (fork_session d fresh src k title)"
  unfolding fork_session_def
  by (rule keeps_from_get, rule keeps_from_bind, (intro keeps_intro)+, rule keeps_from_bind, (intro keeps_intro)+,
      rule keeps_from_if, rule keeps_from_fail, rule keeps_child [OF assms(1)])
    (auto simp: branch_options_def intro!: keeps_intro assms)

lemma keeps_fork_before:
  assumes "stable d F P" "P \<le> forest d" "fresh \<in> F"
  shows "keeps P (fork_session_before_message d fresh src k title)"
  unfolding fork_session_before_message_def
  by (intro keeps_intro keeps_fork [OF assms] keeps_branch [OF assms])

text \<open>Deleting: when the statement fails the table is unchanged, and the row may be marked instead.\<close>

lemma failed_delete: "session_delete i w = (Inl e, w') \<Longrightarrow> st_sessions w' = st_sessions w"
  by (auto simp: session_delete_def storage_io_def split: list.splits option.splits if_splits)

lemma keeps_from_delete:
  assumes "stable d F P" "\<And>e. keeps_from P A (f (Inl e))" "keeps P (f (Inr ()))"
  shows "keeps_from P A (act_bind (try_action (session_delete i)) f)"
proof -
  have "P (st_sessions (snd (f r w')))"
    if "P (st_sessions w)" "A (st_sessions w)" "session_delete i w = (r, w')" for w r and w' :: "'a store"
  proof (cases r)
    case (Inl e)
    then show ?thesis using assms(2) [of e] failed_delete that by (metis keeps_from_def)
  next
    case (Inr u)
    have "P (st_sessions w')" using keepsD [OF keeps_delete [OF assms(1)] that(1), of i] that(3) by simp
    then show ?thesis using keepsD [OF assms(3)] Inr by simp
  qed
  then show ?thesis by (simp add: keeps_from_def act_bind_def try_action_def split: prod.splits)
qed

lemma keeps_from_seq: "keeps_from P A m \<Longrightarrow> (\<And>x. keeps P (f x)) \<Longrightarrow> keeps_from P A (act_bind m f)"
  by (simp add: keeps_from_def after_bind)

lemma keeps_session_delete:
  assumes "stable d F P" "P \<le> forest d"
  shows "keeps P (delete_session i)"
  unfolding delete_session_def
proof (rule keeps_from_get, rule keeps_from_delete [OF assms(1)], goal_cases)
  case (1 n e)
  have set: "keeps_from P (row_read n) (act_bind (act_of (validate_transition (sn_state n) SstTombstone))
      (\<lambda>_. stored (session_set_state i SstTombstone)))"
    using keeps_set_state [OF assms, of n SstTombstone] 1 by simp
  have mark: "keeps_from P (row_read n) (act_bind
      (if sn_state n \<noteq> SstTombstone then act_bind (act_of (validate_transition (sn_state n) SstTombstone))
         (\<lambda>_. stored (session_set_state i SstTombstone)) else act_ret ())
      (\<lambda>_. act_bind (try_action (session_update_metadata i None 0 0)) (\<lambda>_. act_ret ())))"
    by (rule keeps_from_seq, rule keeps_from_if, rule set, rule keeps_weaken [OF keeps_ret])
      (intro keeps_intro; rule assms(1))
  show ?case
    by (simp only: sum.case, rule keeps_from_seq, rule keeps_from_if, rule mark, rule keeps_from_fail)
      (intro keeps_intro)
qed (simp, intro keeps_intro)

text \<open>The identifier an operation creates a session with.\<close>

fun created :: "'m session_op \<Rightarrow> string set" where
  "created (SoCreate i _) = {i}"
| "created (SoCreateIn i _ _) = {i}"
| "created (SoBranch i _ _) = {i}"
| "created (SoFork i _ _ _) = {i}"
| "created (SoForkBefore i _ _ _) = {i}"
| "created _ = {}"

text \<open>Every operation keeps every stable property that implies a forest.\<close>

lemma keeps_perform:
  assumes "stable d F P" "P \<le> forest d" "P (st_sessions w)" "created x \<subseteq> F"
  shows "P (st_sessions (perform d x w))"
proof -
  note kept = keeps_create [OF assms(1,2)] keeps_transition [OF assms(1,2)] keeps_append_message [OF assms(1)]
    keeps_branch [OF assms(1,2)] keeps_fork [OF assms(1,2)] keeps_fork_before [OF assms(1,2)]
    keeps_session_delete [OF assms(1,2)] keeps_column_updates [OF assms(1)] keeps_create_checkpoint [of P]
    keeps_rollback [OF assms(1)] keeps_rollback_last [OF assms(1)]
  show ?thesis using assms(4) by (cases x) (auto simp: assms(3) intro!: keepsD [of P _ w] assms(3) intro: kept)
qed

lemma keeps_run:
  assumes "stable d F P" "P \<le> forest d" "P (st_sessions w)" "\<And>x. x \<in> set ops \<Longrightarrow> created x \<subseteq> F"
  shows "P (st_sessions (session_run d ops w))"
  using assms(3,4) unfolding session_run_def
  by (induction ops arbitrary: w) (auto intro: keeps_perform [OF assms(1,2)])

lemma forest_empty [simp]: "forest d []"
  by (simp add: forest_def)

lemma forest_run: "forest d (st_sessions w) \<Longrightarrow> forest d (st_sessions (session_run d ops w))"
  by (rule keeps_run [OF stable_forest order_refl _ subset_UNIV])

end
