(* ===== verification/SessionTree.thy ===== *)
theory SessionTree
  imports SessionSteps
begin

text \<open>
  The session tree under every sequence of manager operations and storage failures: parents,
  depths and paths stay consistent, the queries on the tree agree with the parent relation, and
  states follow the diagram.
\<close>

section \<open>Paths and queries\<close>

lemma forest_row: "forest d rs \<Longrightarrow> r \<in> set rs \<Longrightarrow> tree_ok rs r \<and> sn_depth r \<le> d"
  by (simp add: forest_def)

text \<open>The sessions on the path of a row are rows too, each with the path up to it.\<close>

lemma on_path:
  assumes "forest d rs" "r \<in> set rs" "k < length (sn_path r)"
  shows "\<exists>q \<in> set rs. sn_id q = sn_path r ! k \<and> sn_path q = take k (sn_path r) \<and> sn_root_id q = sn_root_id r"
  using assms(2,3)
proof (induction "length (sn_path r)" arbitrary: r)
  case (Suc n)
  then obtain p q where q: "q \<in> set rs" "sn_id q = p" "sn_path r = sn_path q @ [p]" "sn_root_id q = sn_root_id r"
    using forest_row [OF assms(1)] by (fastforce simp: tree_ok_def split: option.splits)
  show ?case
  proof (cases "k = n")
    case True
    then show ?thesis using q Suc.hyps(2) by (intro bexI [of _ q]) auto
  next
    case False
    then have "k < length (sn_path q)" using q(3) Suc by simp
    then show ?thesis using Suc.hyps(1) [of q] q Suc by (auto simp: nth_append)
  qed
qed simp

lemma depth_is_length: "forest d rs \<Longrightarrow> r \<in> set rs \<Longrightarrow> sn_depth r = length (sn_path r)"
proof (induction "length (sn_path r)" arbitrary: r)
  case (Suc n)
  then obtain p q where q: "q \<in> set rs" "sn_path r = sn_path q @ [p]" "sn_depth r = sn_depth q + 1"
    using forest_row [of d rs r] by (fastforce simp: tree_ok_def split: option.splits)
  then show ?case using Suc.hyps(1) [of q] Suc by simp
qed (auto dest: forest_row simp: tree_ok_def split: option.splits)

lemma path_distinct:
  assumes "forest d rs" "r \<in> set rs"
  shows "distinct (sn_path r @ [sn_id r])"
proof -
  have id: "\<exists>q \<in> set rs. sn_id q = (sn_path r @ [sn_id r]) ! k \<and> sn_depth q = k" if "k \<le> length (sn_path r)" for k
  proof (cases "k = length (sn_path r)")
    case False
    then have k: "k < length (sn_path r)" using that by simp
    obtain q where "q \<in> set rs" "sn_id q = sn_path r ! k" "sn_path q = take k (sn_path r)"
      using on_path [OF assms k] by blast
    then show ?thesis using k depth_is_length [OF assms(1)] by (auto simp: nth_append)
  qed (use assms depth_is_length [OF assms] in auto)
  show ?thesis unfolding distinct_conv_nth
  proof (intro allI impI)
    fix j k assume jk: "j < length (sn_path r @ [sn_id r])" "k < length (sn_path r @ [sn_id r])" "j \<noteq> k"
    then obtain a b where "a \<in> set rs" "sn_id a = (sn_path r @ [sn_id r]) ! j" "sn_depth a = j"
      "b \<in> set rs" "sn_id b = (sn_path r @ [sn_id r]) ! k" "sn_depth b = k"
      using id [of j] id [of k] by auto
    then show "(sn_path r @ [sn_id r]) ! j \<noteq> (sn_path r @ [sn_id r]) ! k"
      using forest_unique [OF assms(1), of a b] jk(3) by auto
  qed
qed

lemma find_session_filter: "find_session i (filter p rs) = find_session i rs"
  if "\<And>r. r \<in> set rs \<Longrightarrow> sn_id r = i \<Longrightarrow> p r"
  using that unfolding find_session_def by (induction rs) auto

lemma in_path_order_ids:
  "distinct as \<Longrightarrow> (\<And>a. a \<in> set as \<Longrightarrow> find_session a rs \<noteq> None) \<Longrightarrow>
   in_path_order as rs = map (\<lambda>a. into_session_node (the (find_session a rs))) as"
proof (induction as arbitrary: rs)
  case (Cons a as)
  then obtain r where r: "find_session a rs = Some r" by fastforce
  let ?rs = "filter (\<lambda>q. sn_id q \<noteq> a) rs"
  have same: "find_session b ?rs = find_session b rs" if "b \<in> set as" for b
    using Cons.prems(1) that by (intro find_session_filter) auto
  then have "in_path_order as ?rs = map (\<lambda>a. into_session_node (the (find_session a ?rs))) as"
    using Cons by auto
  then show ?case using r same by simp
qed simp

definition child :: "session_row list \<Rightarrow> (string \<times> string) set" where
  "child rs = {(p, sn_id r) |p r. r \<in> set rs \<and> sn_parent_id r = Some p}"

lemma child_iff:
  assumes "forest d rs" "r \<in> set rs"
  shows "(j, sn_id r) \<in> child rs \<longleftrightarrow> sn_parent_id r = Some j"
proof
  assume "(j, sn_id r) \<in> child rs"
  then obtain r' where "r' \<in> set rs" "sn_id r' = sn_id r" "sn_parent_id r' = Some j" by (auto simp: child_def)
  with forest_unique [OF assms(1), of r' r] assms(2) show "sn_parent_id r = Some j" by simp
qed (use assms(2) in \<open>auto simp: child_def\<close>)

text \<open>A session is on the path of another one exactly when the parents lead from this to that.\<close>

lemma path_is_ancestry:
  assumes "forest d rs" "r \<in> set rs"
  shows "i \<in> set (sn_path r) \<longleftrightarrow> (i, sn_id r) \<in> (child rs)\<^sup>+"
  using assms(2)
proof (induction "length (sn_path r)" arbitrary: r)
  case 0
  then have "sn_parent_id r = None" using forest_row [OF assms(1)] by (fastforce simp: tree_ok_def split: option.splits)
  then have "(j, sn_id r) \<notin> child rs" for j
    using child_iff [OF assms(1) 0(2)] by simp
  then show ?case using 0 by (auto elim: tranclE)
next
  case (Suc n)
  then obtain p q where q: "q \<in> set rs" "sn_id q = p" "sn_path r = sn_path q @ [p]" "sn_parent_id r = Some p"
    using forest_row [OF assms(1)] by (fastforce simp: tree_ok_def split: option.splits)
  have up: "(j, sn_id r) \<in> child rs \<longleftrightarrow> j = p" for j
    using child_iff [OF assms(1) Suc.prems] q(4) by auto
  have "(i, sn_id r) \<in> (child rs)\<^sup>+ \<longleftrightarrow> i = p \<or> (i, p) \<in> (child rs)\<^sup>+"
    using up by (metis trancl.simps)
  then show ?case using Suc.hyps(1) [of q] q Suc by auto
qed

lemma no_parent: "forest d rs \<Longrightarrow> r \<in> set rs \<Longrightarrow> sn_path r = [] \<longleftrightarrow> sn_parent_id r = None"
  using forest_row by (fastforce simp: tree_ok_def split: option.splits)

text \<open>The root of a row is a row without a parent above it.\<close>

lemma root_row:
  assumes "forest d rs" "r \<in> set rs"
  shows "\<exists>q \<in> set rs. sn_id q = sn_root_id r \<and> sn_parent_id q = None \<and> sn_root_id q = sn_root_id r \<and>
    sn_id q = hd (sn_path r @ [sn_id r])"
proof (cases "sn_path r")
  case Nil
  then have "sn_parent_id r = None" using no_parent assms by blast
  then show ?thesis using Nil assms forest_row [OF assms] by (auto simp: tree_ok_def)
next
  case (Cons a as)
  then obtain q where q: "q \<in> set rs" "sn_id q = a" "sn_path q = []" "sn_root_id q = sn_root_id r"
    using on_path [OF assms, of 0] by auto
  then have "sn_parent_id q = None" using no_parent [OF assms(1)] by blast
  then show ?thesis using q Cons forest_row [OF assms(1) q(1)] by (auto simp: tree_ok_def)
qed

lemma in_subtree_iff:
  assumes "forest d rs" "r \<in> set rs"
  shows "in_subtree i (into_session_node r) \<longleftrightarrow> (i, sn_id r) \<in> (child rs)\<^sup>*"
  using path_is_ancestry [OF assms] by (auto simp: in_subtree_def rtrancl_eq_or_trancl)

lemma below_is_row:
  assumes "(i, y) \<in> (child rs)\<^sup>*" "i \<in> sn_id ` set rs"
  shows "y \<in> sn_id ` set rs"
  using assms by (induction rule: rtrancl_induct) (auto simp: child_def)

lemma child_same_root:
  assumes "forest d rs" "(sn_id q, sn_id r) \<in> (child rs)\<^sup>*" "q \<in> set rs" "r \<in> set rs"
  shows "sn_root_id r = sn_root_id q"
proof -
  consider "sn_id q = sn_id r" | "sn_id q \<in> set (sn_path r)"
    using assms path_is_ancestry [OF assms(1,4)] by (auto simp: rtrancl_eq_or_trancl)
  then show ?thesis
  proof cases
    case 1
    then show ?thesis using forest_unique [OF assms(1,3,4)] by simp
  next
    case 2
    then obtain k where "k < length (sn_path r)" "sn_path r ! k = sn_id q" by (auto simp: in_set_conv_nth)
    then show ?thesis using on_path [OF assms(1,4)] forest_unique [OF assms(1) _ assms(3)] by metis
  qed
qed

text \<open>Evaluating the queries without faults.\<close>

lemma io_now [simp]: "st_faults w = [] \<Longrightarrow> storage_io m w = m w"
  by (simp add: storage_io_def)

lemma bind_now: "act_bind m f w = (case m w of (Inl e, w') \<Rightarrow> (Inl e, w') | (Inr x, w') \<Rightarrow> f x w')"
  by (simp add: act_bind_def)

lemma map_error_now: "map_error f m w = (case m w of (r, w') \<Rightarrow> (map_sum f id r, w'))"
  by (simp add: map_error_def)

lemmas act_now = bind_now map_error_now act_ret_def act_fail_def act_of_def

lemma get_now: "st_faults w = [] \<Longrightarrow> forest d (st_sessions w) \<Longrightarrow> r \<in> set (st_sessions w) \<Longrightarrow>
    session_get (sn_id r) w = (Inr (into_session_node r), w)"
  by (simp add: session_get_def forest_find)

lemma ancestors_now:
  assumes "st_faults w = []" "forest d (st_sessions w)" "r \<in> set (st_sessions w)"
  shows "session_ancestors (sn_id r) w =
    (Inr (map (\<lambda>a. into_session_node (the (find_session a (st_sessions w)))) (sn_path r)), w)"
proof -
  let ?rs = "filter (\<lambda>q. sn_id q \<in> set (sn_path r)) (st_sessions w)"
  have found: "find_session a ?rs = find_session a (st_sessions w)" if "a \<in> set (sn_path r)" for a
    using that by (intro find_session_filter) auto
  have "find_session a (st_sessions w) \<noteq> None" if a: "a \<in> set (sn_path r)" for a
  proof -
    obtain k where "k < length (sn_path r)" "sn_path r ! k = a" using a by (auto simp: in_set_conv_nth)
    then show ?thesis using on_path [OF assms(2,3), of k] by (auto simp: find_session_None) (metis image_eqI)
  qed
  then have "in_path_order (sn_path r) ?rs = map (\<lambda>a. into_session_node (the (find_session a (st_sessions w)))) (sn_path r)"
    using path_distinct [OF assms(2,3)] found by (subst in_path_order_ids) auto
  then show ?thesis
    using get_now [OF assms] assms(1) by (auto simp: session_ancestors_def act_now)
qed

lemma rows_of_root:
  assumes "st_faults w = []"
  shows "session_list (no_filter\<lparr>sf_root_id := Some i\<rparr>) w =
    (Inr (select_sessions (\<lambda>r. sn_root_id r = i) (st_sessions w)), w)"
proof -
  have "filter_matches (no_filter\<lparr>sf_root_id := Some i\<rparr>) = (\<lambda>r. sn_root_id r = i)"
    by (auto simp: fun_eq_iff filter_matches_def no_filter_def opt_eq_def)
  then show ?thesis using assms by (simp add: session_list_def)
qed

lemma distinct_select: "forest d rs \<Longrightarrow> distinct (map sn_id (select_sessions p rs))"
  by (simp add: select_sessions_def forest_def comp_def distinct_map inj_on_def)

lemma set_select: "set (select_sessions p rs) = into_session_node ` {r \<in> set rs. p r}"
  by (auto simp: select_sessions_def)

lemma find_leaves_none: "find_leaves i w = (Inr [], w)"
  if "st_faults w = []" "\<And>r. r \<in> set (st_sessions w) \<Longrightarrow> sn_root_id r \<noteq> i"
  using that by (simp add: find_leaves_def act_now rows_of_root select_sessions_def)

section \<open>The tree after any run\<close>

text \<open>A manager without sessions, running any operations.\<close>

definition session_reachable :: "nat \<Rightarrow> 'm store \<Rightarrow> bool" where
  "session_reachable d w = (\<exists>ops. w = session_run d ops empty_store)"

lemma forest_reachable: "session_reachable d w \<Longrightarrow> forest d (st_sessions w)"
  using forest_run [of d empty_store] by (auto simp: session_reachable_def empty_store_def)

text \<open>C17: after any sequence of manager operations, with any failures of the database and of the
  transcript files on the way, the path to the root of an existing session is the chain of its
  parents: it starts at a session without a parent, which is also what \<open>find_root\<close> returns, every
  other session on it has the one before as its parent, it ends at the session, and it has at most
  as many steps as the configured depth.\<close>

theorem path_to_root_is_the_parent_chain:
  assumes "session_reachable d w" "st_faults w = []" "r \<in> set (st_sessions w)"
  shows "\<exists>ns. fst (path_to_root (sn_id r) w) = Inr ns \<and> ns \<noteq> [] \<and> fst (find_root (sn_id r) w) = Inr (hd ns)
    \<and> sn_parent_id (hd ns) = None \<and> last ns = into_session_node r \<and> distinct (map sn_id ns)
    \<and> (\<forall>k. Suc k < length ns \<longrightarrow> sn_parent_id (ns ! Suc k) = Some (sn_id (ns ! k))) \<and> length ns \<le> d + 1"
proof -
  note f = forest_reachable [OF assms(1)]
  let ?node = "\<lambda>a. into_session_node (the (find_session a (st_sessions w)))"
  let ?ids = "sn_path r @ [sn_id r]"
  let ?ns = "map ?node ?ids"
  have self: "?node (sn_id r) = into_session_node r" using forest_find [OF f assms(3)] by simp
  have row: "\<exists>q \<in> set (st_sessions w). ?node (?ids ! k) = into_session_node q \<and> sn_id q = ?ids ! k \<and> sn_path q = take k ?ids"
    if k: "k < length ?ids" for k
  proof (cases "k = length (sn_path r)")
    case False
    then have less: "k < length (sn_path r)" using k by simp
    obtain q where q: "q \<in> set (st_sessions w)" "sn_id q = sn_path r ! k" "sn_path q = take k (sn_path r)"
      using on_path [OF f assms(3) less] by blast
    then show ?thesis using forest_find [OF f q(1)] less by (intro bexI [OF _ q(1)]) (auto simp: nth_append)
  qed (use self assms(3) in auto)
  have path: "fst (path_to_root (sn_id r) w) = Inr ?ns"
    using get_now [OF assms(2) f assms(3)] ancestors_now [OF assms(2) f assms(3)] self
    by (simp add: path_to_root_def act_now)
  have ids: "map sn_id ?ns = ?ids"
  proof (rule nth_equalityI)
    fix k assume "k < length (map sn_id ?ns)"
    then have k: "k < length ?ids" by simp
    from row [OF k] obtain q where "?node (?ids ! k) = into_session_node q" "sn_id q = ?ids ! k" by blast
    with k show "map sn_id ?ns ! k = ?ids ! k" by (simp only: length_map nth_map node_columns)
  qed simp
  obtain q where q: "q \<in> set (st_sessions w)" "sn_id q = sn_root_id r" "sn_parent_id q = None" "sn_id q = hd ?ids"
    using root_row [OF f assms(3)] by blast
  have hd: "hd ?ns = into_session_node q"
    using q forest_find [OF f q(1)] by (simp add: hd_map del: map_append hd_append)
  have root: "fst (find_root (sn_id r) w) = Inr (into_session_node q)"
    using get_now [OF assms(2) f assms(3)] get_now [OF assms(2) f q(1)] q forest_unique [OF f q(1) assms(3)]
    by (auto simp: find_root_def act_now)
  have link: "sn_parent_id (?ns ! Suc k) = Some (sn_id (?ns ! k))" if k: "Suc k < length ?ns" for k
  proof -
    obtain b where b: "b \<in> set (st_sessions w)" "?node (?ids ! Suc k) = into_session_node b" "sn_path b = take (Suc k) ?ids"
      using row [of "Suc k"] k by auto
    then obtain p where "sn_parent_id b = Some p" "sn_path b = butlast (sn_path b) @ [p]"
      using forest_row [OF f b(1)] k by (fastforce simp: tree_ok_def split: option.splits)
    moreover have "take (Suc k) ?ids = take k ?ids @ [?ids ! k]" using k by (intro take_Suc_conv_app_nth) simp
    ultimately have "sn_parent_id b = Some (?ids ! k)" using b(3) by (metis append_eq_append_conv last_snoc)
    moreover have "sn_id (?ns ! k) = ?ids ! k" using ids k by (metis Suc_lessD nth_map length_map)
    ultimately show ?thesis using b(2) k by (simp del: map_append)
  qed
  have "length ?ns \<le> d + 1" using depth_is_length [OF f assms(3)] forest_row [OF f assms(3)] by simp
  moreover have "last ?ns = into_session_node r" using self by simp
  moreover have "distinct (map sn_id ?ns)" using ids path_distinct [OF f assms(3)] by simp
  ultimately show ?thesis using path root hd q(3) link by (intro exI [of _ ?ns]) auto
qed

text \<open>After any such run, \<open>descendants_including_self\<close> of an existing session returns each session of
  its subtree exactly once, the session included: the ones that the parent relation reaches from it.\<close>

theorem descendants_are_the_subtree:
  assumes "session_reachable d w" "st_faults w = []" "r \<in> set (st_sessions w)"
  shows "\<exists>ns. fst (descendants_including_self (sn_id r) w) = Inr ns \<and> distinct (map sn_id ns)
    \<and> sn_id ` set ns = {y. (sn_id r, y) \<in> (child (st_sessions w))\<^sup>*}"
proof -
  note f = forest_reachable [OF assms(1)]
  let ?all = "select_sessions (\<lambda>q. sn_root_id q = sn_root_id r) (st_sessions w)"
  let ?ns = "filter (in_subtree (sn_id r)) ?all"
  have run: "fst (descendants_including_self (sn_id r) w) = Inr ?ns"
    using get_now [OF assms(2) f assms(3)] rows_of_root [OF assms(2)]
    by (simp add: descendants_including_self_def act_now)
  have "y \<in> sn_id ` set ?ns \<longleftrightarrow> (sn_id r, y) \<in> (child (st_sessions w))\<^sup>*" for y
  proof
    assume "y \<in> sn_id ` set ?ns"
    then show "(sn_id r, y) \<in> (child (st_sessions w))\<^sup>*"
      using in_subtree_iff [OF f] unfolding set_filter set_select by force
  next
    assume below: "(sn_id r, y) \<in> (child (st_sessions w))\<^sup>*"
    then obtain q where q: "q \<in> set (st_sessions w)" "sn_id q = y" using below_is_row [OF below] assms(3) by auto
    then have "sn_root_id q = sn_root_id r" "in_subtree (sn_id r) (into_session_node q)"
      using below child_same_root [OF f _ assms(3) q(1)] in_subtree_iff [OF f q(1)] by simp_all
    then have "into_session_node q \<in> set ?ns" using q(1) by (simp add: set_select)
    then show "y \<in> sn_id ` set ?ns" using q(2) by (metis image_eqI node_columns(1))
  qed
  then have "sn_id ` set ?ns = {y. (sn_id r, y) \<in> (child (st_sessions w))\<^sup>*}" by blast
  then show ?thesis using run distinct_select [OF f] by (intro exI [of _ ?ns]) (simp add: distinct_map_filter)
qed

text \<open>\<open>subtree_size\<close> and \<open>find_leaves\<close> count the whole tree below a root, but for any session with
  a parent they find nothing, whatever is below it.\<close>

theorem subtree_queries_see_only_roots:
  assumes "session_reachable d w" "st_faults w = []" "r \<in> set (st_sessions w)"
  shows "if sn_parent_id r = None
    then fst (subtree_size (sn_id r) w) = Inr (card {y. (sn_id r, y) \<in> (child (st_sessions w))\<^sup>*})
    else fst (subtree_size (sn_id r) w) = Inr 0 \<and> fst (find_leaves (sn_id r) w) = Inr []"
proof -
  note f = forest_reachable [OF assms(1)]
  have size: "fst (subtree_size i w) = Inr (length (select_sessions (\<lambda>r. sn_root_id r = i) (st_sessions w)))" for i
    using assms(2) by (simp add: subtree_size_def act_now rows_of_root)
  show ?thesis
  proof (cases "sn_parent_id r = None")
    case True
    then have root: "sn_root_id r = sn_id r" using forest_row [OF f assms(3)] by (auto simp: tree_ok_def)
    have below: "sn_root_id q = sn_id r \<longleftrightarrow> (sn_id r, sn_id q) \<in> (child (st_sessions w))\<^sup>*"
      if q: "q \<in> set (st_sessions w)" for q
    proof
      assume "sn_root_id q = sn_id r"
      then have "sn_id r \<in> set (sn_path q @ [sn_id q])"
        using root_row [OF f q] by (metis hd_in_set snoc_eq_iff_butlast)
      then show "(sn_id r, sn_id q) \<in> (child (st_sessions w))\<^sup>*"
        using path_is_ancestry [OF f q] by auto
    qed (use child_same_root [OF f _ assms(3) q] root in simp)
    let ?ids = "map sn_id (select_sessions (\<lambda>q. sn_root_id q = sn_id r) (st_sessions w))"
    have "set ?ids = sn_id ` {q \<in> set (st_sessions w). sn_root_id q = sn_id r}"
      by (simp add: set_select image_image)
    also have "\<dots> = {y. (sn_id r, y) \<in> (child (st_sessions w))\<^sup>*}"
    proof (intro set_eqI iffI)
      fix y assume y: "y \<in> {y. (sn_id r, y) \<in> (child (st_sessions w))\<^sup>*}"
      then obtain q where q: "q \<in> set (st_sessions w)" "y = sn_id q"
        using below_is_row [of "sn_id r" y "st_sessions w"] assms(3) by auto
      then show "y \<in> sn_id ` {q \<in> set (st_sessions w). sn_root_id q = sn_id r}" using below y by simp
    qed (use below in auto)
    finally have "set ?ids = {y. (sn_id r, y) \<in> (child (st_sessions w))\<^sup>*}" .
    then have "card {y. (sn_id r, y) \<in> (child (st_sessions w))\<^sup>*} = length ?ids"
      using distinct_card [OF distinct_select [OF f]] by metis
    then show ?thesis using True size by simp
  next
    case False
    have "sn_root_id q \<noteq> sn_id r" if "q \<in> set (st_sessions w)" for q
      using root_row [OF f that] forest_unique [OF f _ assms(3)] False by metis
    then show ?thesis using False size find_leaves_none [OF assms(2)]
      by (auto simp: select_sessions_def filter_empty_conv)
  qed
qed

section \<open>States over a run\<close>

definition later_state :: "session_row \<Rightarrow> session_row list \<Rightarrow> bool" where
  "later_state r rs = (\<forall>q \<in> set rs. sn_id q = sn_id r \<longrightarrow>
     is_valid_transition\<^sup>*\<^sup>* (sn_state r) (sn_state q) \<and> tree_columns q = tree_columns r)"

lemma stable_later: "stable d (- {sn_id r}) (\<lambda>rs. forest d rs \<and> later_state r rs)"
  unfolding stable_def
proof (intro allI impI conjI; elim conjE)
  fix rs rs' assume rs: "forest d rs" "later_state r rs" "table_step d (- {sn_id r}) rs rs'"
  then show "forest d rs'" by (intro forest_step [OF rs(3)])
  show "later_state r rs'" using rs(3,1,2)
  proof (induction rule: table_step.induct)
    case (Updated f rs i)
    then have "sn_id (f q) = sn_id q" for q by (metis tree_columns_def prod.inject)
    with Updated show ?case unfolding later_state_def
      by (auto intro: rtranclp.rtrancl_into_rtrancl) (metis rtranclp.rtrancl_into_rtrancl)+
  qed (auto simp: later_state_def new_in_def)
qed

lemma from_tombstone: "is_valid_transition\<^sup>*\<^sup>* a b \<Longrightarrow> a = SstTombstone \<Longrightarrow> b = SstTombstone"
  by (induction rule: rtranclp_induct) auto

lemma from_archived: "is_valid_transition\<^sup>*\<^sup>* a b \<Longrightarrow> a = SstArchived \<or> a = SstMerged \<Longrightarrow> b = a \<or> b = SstTombstone"
  by (induction rule: rtranclp_induct) auto

lemma to_merged: "is_valid_transition\<^sup>*\<^sup>* a b \<Longrightarrow> b = SstMerged \<Longrightarrow> a = SstMerged \<or> is_valid_transition\<^sup>*\<^sup>* a SstActive"
  by (induction rule: rtranclp_induct) (auto elim: is_valid_transition.elims)

text \<open>C18: as long as its identifier is not created again, a session keeps its place in the tree and its
  state only moves along the diagram, over any further operations and failures: a tombstone stays one,
  an archived or merged session can only become a tombstone.\<close>

theorem states_follow_the_diagram:
  assumes "session_reachable d w" "r \<in> set (st_sessions w)"
    and "r' \<in> set (st_sessions (session_run d ops w))" "sn_id r' = sn_id r" "\<forall>x \<in> set ops. sn_id r \<notin> created x"
  shows "tree_columns r' = tree_columns r \<and> is_valid_transition\<^sup>*\<^sup>* (sn_state r) (sn_state r')
    \<and> (sn_state r = SstTombstone \<longrightarrow> sn_state r' = SstTombstone)
    \<and> (sn_state r \<in> {SstArchived, SstMerged} \<longrightarrow> sn_state r' \<in> {sn_state r, SstTombstone})"
proof -
  note f = forest_reachable [OF assms(1)]
  have "later_state r (st_sessions w)" using forest_unique [OF f _ assms(2)] by (auto simp: later_state_def)
  then have "forest d (st_sessions (session_run d ops w)) \<and> later_state r (st_sessions (session_run d ops w))"
    using keeps_run [OF stable_later, of d r w ops] f assms(5) by (auto simp: le_fun_def)
  then have "is_valid_transition\<^sup>*\<^sup>* (sn_state r) (sn_state r') \<and> tree_columns r' = tree_columns r"
    using assms(3,4) by (auto simp: later_state_def)
  then show ?thesis using from_tombstone from_archived by blast
qed

section \<open>A concrete tree\<close>

lemmas table_defs = session_get_def insert_session_def new_row_def session_create_in_def session_create_def
  update_session_def session_set_state_def find_session_def session_update_metadata_def
  session_set_custom_system_prompt_def session_get_custom_system_prompt_def session_column_def
  into_session_node_def session_node.truncate_def

lemmas transcript_defs = transcript_append_def transcript_read_all_def transcript_message_count_def
  transcript_rewrite_def transcript_truncate_def messages_def transcribed_def

lemmas manager_defs = create_session_def check_parent_def check_depth_def transition_state_def append_message_def
  branch_def branch_options_def copy_custom_system_prompt_def validate_transition_def

definition main_options :: create_options where
  "main_options = \<lparr>op_parent_id = None, op_session_type = StyMain, op_agent_id = None, op_title = Some ''t''\<rparr>"

definition demo_ops :: "nat session_op list" where
  "demo_ops = [SoCreate ''a'' main_options, SoAppend ''a'' 7, SoBranch ''b'' ''a'' None, SoBranch ''c'' ''b'' None,
     SoTransition ''b'' SstArchived, SoCreate ''z'' main_options]"

definition demo_tree :: "nat store" where
  "demo_tree = session_run 3 demo_ops empty_store"

lemma demo_rows:
  "map (\<lambda>r. (tree_columns r, sn_state r)) (st_sessions demo_tree) =
     [((''a'', None, ''a'', 0, []), SstActive), ((''b'', Some ''a'', ''a'', 1, [''a'']), SstArchived),
      ((''c'', Some ''b'', ''a'', 2, [''a'', ''b'']), SstActive), ((''z'', None, ''z'', 0, []), SstActive)]"
  and demo_calm: "st_faults demo_tree = []"
  by (simp_all add: demo_tree_def demo_ops_def session_run_def empty_store_def main_options_def tree_columns_def
    table_defs transcript_defs manager_defs act_now storage_io_def)

lemma demo_reachable: "session_reachable 3 demo_tree"
  by (auto simp: session_reachable_def demo_tree_def)

lemma demo_shape:
  assumes "x \<in> set (map (\<lambda>r. (tree_columns r, sn_state r)) (st_sessions demo_tree))"
  shows "\<exists>r \<in> set (st_sessions demo_tree). tree_columns r = fst x \<and> sn_state r = snd x"
  using assms by auto

lemma demo_row: "\<exists>r \<in> set (st_sessions demo_tree). tree_columns r = (''c'', Some ''b'', ''a'', 2, [''a'', ''b''])"
  using demo_shape [of "((''c'', Some ''b'', ''a'', 2, [''a'', ''b'']), SstActive)"] by (auto simp: demo_rows)

lemma demo_root: "\<exists>r \<in> set (st_sessions demo_tree). tree_columns r = (''a'', None, ''a'', 0, [])"
  using demo_shape [of "((''a'', None, ''a'', 0, []), SstActive)"] by (auto simp: demo_rows)

lemma demo_archived: "\<exists>r \<in> set (st_sessions demo_tree).
    tree_columns r = (''b'', Some ''a'', ''a'', 1, [''a'']) \<and> sn_state r = SstArchived"
  using demo_shape [of "((''b'', Some ''a'', ''a'', 1, [''a'']), SstArchived)"] by (auto simp: demo_rows)

lemma foreign_key_recognised: "is_foreign_key_delete_error (SnStorageError foreign_key_message)"
proof -
  have parts: "foreign_key_message = ''error returned from database: (code: 787) '' @ ''FOREIGN KEY constraint failed'' @ []"
    by (simp add: foreign_key_message_def)
  show ?thesis
    unfolding is_foreign_key_delete_error_def session_error.case str_contains_def parts by (rule sublist_appendI)
qed

lemma demo_deleted: "\<exists>r \<in> set (st_sessions (session_run 3 [SoDelete ''b''] demo_tree)). sn_id r = ''b''"
  by (simp add: demo_tree_def demo_ops_def session_run_def empty_store_def main_options_def delete_session_def
    session_delete_def try_action_def foreign_key_recognised
    table_defs transcript_defs manager_defs act_now storage_io_def)

lemma path_to_root_is_the_parent_chain_witness:
  "\<exists>ns. fst (path_to_root ''c'' demo_tree) = Inr ns \<and> length ns \<le> 4 \<and> sn_parent_id (hd ns) = None"
  using demo_row path_to_root_is_the_parent_chain [OF demo_reachable demo_calm] by (force simp: tree_columns_def)

lemma descendants_are_the_subtree_witness:
  "\<exists>ns. fst (descendants_including_self ''a'' demo_tree) = Inr ns \<and> distinct (map sn_id ns)"
  using demo_root descendants_are_the_subtree [OF demo_reachable demo_calm] by (force simp: tree_columns_def)

lemma subtree_queries_see_only_roots_witness:
  "fst (subtree_size ''c'' demo_tree) = Inr 0 \<and> fst (find_leaves ''c'' demo_tree) = Inr []"
proof -
  obtain r where "r \<in> set (st_sessions demo_tree)" "sn_id r = ''c''" "sn_parent_id r = Some ''b''"
    using demo_row by (auto simp: tree_columns_def)
  then show ?thesis using subtree_queries_see_only_roots [OF demo_reachable demo_calm, of r] by simp
qed

lemma states_follow_the_diagram_witness:
  "\<exists>r' \<in> set (st_sessions (session_run 3 [SoDelete ''b''] demo_tree)). sn_id r' = ''b'' \<and>
     sn_state r' \<in> {SstArchived, SstTombstone}"
proof -
  obtain r where r: "r \<in> set (st_sessions demo_tree)" "sn_id r = ''b''" "sn_state r = SstArchived"
    using demo_archived by (auto simp: tree_columns_def)
  obtain r' where r': "r' \<in> set (st_sessions (session_run 3 [SoDelete ''b''] demo_tree))" "sn_id r' = ''b''"
    using demo_deleted by blast
  show ?thesis
    using states_follow_the_diagram [OF demo_reachable r(1) r'(1)] r(2,3) r'(2) by (intro bexI [OF _ r'(1)]) auto
qed

end
