(* ===== verification/ChatTurns.thy ===== *)
theory ChatTurns
  imports SessionManager
begin

text \<open>
  Turns of a chat over the transcripts and the checkpoints (\<open>y-service/src/chat.rs\<close>): preparing a
  turn, what a finished, failed or cancelled turn writes, the anchor of the turn, preparing a
  resend, the rewriting of the context (\<open>context_optimization.rs\<close>) and the rewind of
  \<open>rewind.rs\<close>.  The messages a turn produces are arguments, and so is the limit on turns of the
  agent of a session.  Mirrors, skills, prompts and files are left out.
\<close>

section \<open>Preparing a turn\<close>

definition debug_string :: "string \<Rightarrow> string" where
  "debug_string s = [CHR 0x22] @ s @ [CHR 0x22]"

fun manager_error_display :: "manager_error \<Rightarrow> string" where
  "manager_error_display (SmNotFound i) = ''session not found: '' @ i"
| "manager_error_display (SmInvalidTransition a b) =
     ''invalid state transition from '' @ debug_string a @ '' to '' @ debug_string b"
| "manager_error_display (SmStorage m) = ''storage error: '' @ m"
| "manager_error_display (SmTranscript m) = ''transcript error: '' @ m"
| "manager_error_display (SmConfig m) = ''session configuration error: '' @ m"
| "manager_error_display (SmOther m) = m"

datatype prepare_turn_error =
  PtSessionNotFound string
| PtSessionCreationFailed string
| PtPersistFailed string
| PtAttachmentInvalid string
| PtTranscriptReadFailed string
| PtSessionAgentNotFound string
| PtSessionTurnLimitReached string nat

record 'm prepared_turn =
  pt_session_id :: string
  pt_history :: "'m list"
  pt_turn_number :: nat
  pt_pre_turn_message_count :: "nat option"

definition read_transcript :: "string \<Rightarrow> ('m, manager_error, 'm list) action" where
  "read_transcript i = transcribed [] (transcript_read_all TkContext i)"

definition read_display_transcript :: "string \<Rightarrow> ('m, manager_error, 'm list) action" where
  "read_display_transcript i = transcribed ''display transcript: '' (transcript_read_all TkDisplay i)"

abbreviation failing_as :: "(string \<Rightarrow> 'e) \<Rightarrow> ('m, manager_error, 'a) action \<Rightarrow> ('m, 'e, 'a) action" where
  "failing_as f m \<equiv> map_error (\<lambda>e. f (manager_error_display e)) m"

definition length_or :: "nat \<Rightarrow> 'e + 'm list \<Rightarrow> nat" where
  "length_or n r = (case r of Inr ms \<Rightarrow> length ms | Inl _ \<Rightarrow> n)"

text \<open>A turn in an existing session; \<open>limit\<close> is the agent's identifier and its turn limit.\<close>

definition prepare_turn ::
  "('m \<Rightarrow> bool) \<Rightarrow> (string \<times> nat) option \<Rightarrow> string \<Rightarrow> 'm \<Rightarrow> ('m, prepare_turn_error, 'm prepared_turn) action" where
  "prepare_turn is_user limit i user_msg =
     act_bind (failing_as PtSessionNotFound (stored (session_get i))) (\<lambda>session.
     act_bind (failing_as PtTranscriptReadFailed (read_display_transcript i)) (\<lambda>shown.
     act_bind (case limit of
         Some (agent, turns) \<Rightarrow>
           if length (filter is_user shown) \<ge> turns then act_fail (PtSessionTurnLimitReached agent turns) else act_ret ()
       | None \<Rightarrow> act_ret ()) (\<lambda>_.
     act_bind (failing_as PtPersistFailed (append_message i user_msg)) (\<lambda>_.
     act_bind (failing_as PtTranscriptReadFailed (read_transcript i)) (\<lambda>history.
     act_bind (try_action (read_display_transcript i)) (\<lambda>display.
       act_ret \<lparr>pt_session_id = i, pt_history = history,
         pt_turn_number = min (length_or (length history) display) u32_max,
         pt_pre_turn_message_count = None\<rparr>))))))"

section \<open>Executing a turn\<close>

definition u32_or_zero :: "nat \<Rightarrow> nat" where
  "u32_or_zero n = (if n \<le> u32_max then n else 0)"

definition message_count_before :: "'m prepared_turn \<Rightarrow> nat" where
  "message_count_before t = (case pt_pre_turn_message_count t of
      Some n \<Rightarrow> n | None \<Rightarrow> u32_or_zero (length (pt_history t) - 1))"

definition turn_scope :: "string \<Rightarrow> nat \<Rightarrow> string" where
  "turn_scope i turn = ''turn-'' @ i @ ''-'' @ show_nat turn"

definition checkpoint_turn :: "'m prepared_turn \<Rightarrow> nat" where
  "checkpoint_turn t = (pt_turn_number t + 1) mod 2 ^ 32"

text \<open>A failure to save the checkpoint is only logged.\<close>

definition persist_turn_checkpoint :: "string \<Rightarrow> 'm prepared_turn \<Rightarrow> ('m, 'e, unit) action" where
  "persist_turn_checkpoint fresh t = act_bind
     (try_action (create_checkpoint fresh (pt_session_id t) (checkpoint_turn t) (message_count_before t)
        (turn_scope (pt_session_id t) (checkpoint_turn t))))
     (\<lambda>_. act_ret ())"

definition append_ignoring :: "transcript_kind \<Rightarrow> string \<Rightarrow> 'm \<Rightarrow> ('m, 'e, unit) action" where
  "append_ignoring k i m = act_bind (try_action (transcript_append k i m)) (\<lambda>_. act_ret ())"

text \<open>What the agent returns: the messages of the turn; a failed call with the error, the messages before it,
  the consolidated message when there is work to show and the failure marker; a cancellation with
  the messages so far and their consolidation; or another error.\<close>

datatype turn_error =
  TeLlmError string
| TeContextError string
| TeToolLoopLimitExceeded nat
| TeToolCallLimitExceeded nat
| TeCancelled

datatype 'm turn_outcome =
  TurnFinished "'m list"
| TurnLlmError string "'m list" "'m option" 'm
| TurnCancelled "'m list" "'m option"
| TurnOtherError turn_error

definition append_option :: "transcript_kind \<Rightarrow> string \<Rightarrow> 'm option \<Rightarrow> ('m, 'e, unit) action" where
  "append_option k i opt = (case opt of None \<Rightarrow> act_ret () | Some m \<Rightarrow> append_ignoring k i m)"

definition persist_llm_error_partial_state ::
  "'m prepared_turn \<Rightarrow> 'm list \<Rightarrow> 'm option \<Rightarrow> 'm \<Rightarrow> ('m, 'e, unit) action" where
  "persist_llm_error_partial_state t partials work marker =
     act_bind (act_iter (append_ignoring TkContext (pt_session_id t)) partials) (\<lambda>_.
     act_bind (append_option TkDisplay (pt_session_id t) work) (\<lambda>_.
       append_ignoring TkDisplay (pt_session_id t) marker))"

definition persist_cancelled_state :: "'m prepared_turn \<Rightarrow> 'm list \<Rightarrow> 'm option \<Rightarrow> ('m, 'e, unit) action" where
  "persist_cancelled_state t partials work =
     act_bind (act_iter (append_ignoring TkContext (pt_session_id t)) partials) (\<lambda>_.
     act_bind (append_option TkDisplay (pt_session_id t) work) (\<lambda>_.
       append_option TkContext (pt_session_id t) work))"

definition execute_turn :: "string \<Rightarrow> 'm prepared_turn \<Rightarrow> 'm turn_outcome \<Rightarrow> ('m, turn_error, unit) action" where
  "execute_turn fresh t outcome = act_bind (persist_turn_checkpoint fresh t) (\<lambda>_. case outcome of
      TurnLlmError e partials work marker \<Rightarrow>
        act_bind (persist_llm_error_partial_state t partials work marker) (\<lambda>_.
        act_bind (persist_turn_checkpoint fresh t) (\<lambda>_. act_fail (TeLlmError e)))
    | TurnCancelled partials work \<Rightarrow>
        act_bind (persist_cancelled_state t partials work) (\<lambda>_. act_fail TeCancelled)
    | TurnOtherError e \<Rightarrow> act_fail e
    | TurnFinished ms \<Rightarrow>
        act_bind (act_iter (\<lambda>m. act_bind (try_action (append_message (pt_session_id t) m)) (\<lambda>_. act_ret ())) ms) (\<lambda>_.
          persist_turn_checkpoint fresh t))"

text \<open>Compaction, and the removal of pruned messages, write the context anew.\<close>

definition replace_context_transcript :: "string \<Rightarrow> 'm list \<Rightarrow> ('m, string, unit) action" where
  "replace_context_transcript i ms =
     act_bind (map_error session_error_display (transcript_truncate TkContext i 0)) (\<lambda>_.
       act_iter (\<lambda>m. map_error session_error_display (transcript_append TkContext i m)) ms)"

section \<open>Preparing a resend\<close>

datatype resend_turn_error =
  RtCheckpointNotFound string
| RtTruncateFailed string
| RtTranscriptEmpty
| RtTranscriptReadFailed string
| RtSessionAgentNotFound string

text \<open>\<open>is_failure\<close> recognises the failure marker: an assistant message with a stream error.  The
  roles in the messages of the two last errors are left out.\<close>

definition prepare_resend_turn ::
  "('m \<Rightarrow> bool) \<Rightarrow> ('m \<Rightarrow> bool) \<Rightarrow> string \<Rightarrow> string \<Rightarrow> ('m, resend_turn_error, 'm prepared_turn) action" where
  "prepare_resend_turn is_user is_failure i c =
     act_bind (failing_as RtTranscriptReadFailed (stored (session_get i))) (\<lambda>session.
     act_bind (map_error (\<lambda>e. RtCheckpointNotFound (session_error_display e)) (checkpoint_load c)) (\<lambda>cp.
     act_bind (failing_as RtTranscriptReadFailed (read_display_transcript i)) (\<lambda>shown.
     if shown \<noteq> [] \<and> is_failure (last shown) then
       act_bind (map_error (\<lambda>e. RtTruncateFailed (session_error_display e))
         (transcript_truncate TkDisplay i (length shown - 1))) (\<lambda>_.
       act_bind (failing_as RtTranscriptReadFailed (read_transcript i)) (\<lambda>history.
       if cc_message_count_before cp \<ge> length history then act_fail RtTranscriptEmpty
       else if \<not> is_user (history ! cc_message_count_before cp)
       then act_fail (RtTruncateFailed ''expected user message in intra-turn retry'')
       else act_ret \<lparr>pt_session_id = i, pt_history = history,
           pt_turn_number = u32_or_zero (length shown - 1),
           pt_pre_turn_message_count = Some (cc_message_count_before cp)\<rparr>))
     else
       act_bind (map_error (\<lambda>e. RtTruncateFailed (session_error_display e))
         (transcript_truncate TkDisplay i (cc_message_count_before cp + 1))) (\<lambda>_.
       act_bind (map_error (\<lambda>e. RtTruncateFailed (session_error_display e))
         (transcript_truncate TkContext i (cc_message_count_before cp + 1))) (\<lambda>_.
       act_bind (map_error (\<lambda>e. RtTruncateFailed (session_error_display e))
         (checkpoint_invalidate_after i (cc_turn_number cp - 1))) (\<lambda>_.
       act_bind (failing_as RtTranscriptReadFailed (read_transcript i)) (\<lambda>history.
       if history = [] then act_fail RtTranscriptEmpty
       else if \<not> is_user (last history)
       then act_fail (RtTruncateFailed ''expected last message to be User after truncation'')
       else act_bind (try_action (read_display_transcript i)) (\<lambda>display.
         act_ret \<lparr>pt_session_id = i, pt_history = history,
           pt_turn_number = u32_or_zero (length_or (length history) display),
           pt_pre_turn_message_count = None\<rparr>)))))))) "

section \<open>Rewinding\<close>

datatype rewind_error =
  ReSessionNotFound string
| ReNoHistory string
| ReSnapshotNotFound string
| ReTruncateFailed string
| ReCheckpointError string
| ReFileError string

fun position :: "('a \<Rightarrow> bool) \<Rightarrow> 'a list \<Rightarrow> nat option" where
  "position p [] = None"
| "position p (x # xs) = (if p x then Some 0 else map_option Suc (position p xs))"

definition is_synthetic_snapshot_id :: "string \<Rightarrow> bool" where
  "is_synthetic_snapshot_id i = (starts_with i ''plan-phase-'' \<or> starts_with i ''loop-round-'')"

text \<open>A rewind to a message boundary; \<open>files\<close> restores the files.  The truncations run at the same
  time, both to their end, before either result is looked at.\<close>

definition execute_rewind ::
  "('m \<Rightarrow> string) \<Rightarrow> ('m, rewind_error, unit) action \<Rightarrow> string \<Rightarrow> string \<Rightarrow> ('m, rewind_error, nat \<times> nat) action" where
  "execute_rewind message_id files i target =
     (if is_synthetic_snapshot_id target then act_bind files (\<lambda>_. act_ret (0, 0)) else
     act_bind (map_error (\<lambda>e. ReCheckpointError (session_error_display e)) (checkpoint_list i)) (\<lambda>cps.
     act_bind (case List.find (\<lambda>cp. str_contains (cc_journal_scope_id cp) target) cps of
         Some cp \<Rightarrow> act_ret (cc_message_count_before cp + 1)
       | None \<Rightarrow> act_bind (failing_as ReTruncateFailed (read_display_transcript i)) (\<lambda>shown.
           case position (\<lambda>m. message_id m = target) shown of
             None \<Rightarrow> act_fail (ReSnapshotNotFound target)
           | Some k \<Rightarrow> act_ret (k + 1))) (\<lambda>keep.
     act_bind (try_action (transcript_truncate TkDisplay i keep)) (\<lambda>shown.
     act_bind (try_action (transcript_truncate TkContext i keep)) (\<lambda>context.
     act_bind (act_of (map_sum (\<lambda>e. ReTruncateFailed (session_error_display e)) id shown)) (\<lambda>shown_removed.
     act_bind (act_of (map_sum (\<lambda>e. ReTruncateFailed (session_error_display e)) id context)) (\<lambda>context_removed.
     act_bind files (\<lambda>_.
     act_bind (map_error (\<lambda>e. ReCheckpointError (session_error_display e))
       (checkpoint_invalidate_after i
         (case List.find (\<lambda>cp. str_contains (cc_journal_scope_id cp) target) cps of Some cp \<Rightarrow> cc_turn_number cp | None \<Rightarrow> 0)))
       (\<lambda>invalidated. act_ret (max shown_removed context_removed, invalidated))))))))))"

end
