(* ===== verification/ChatRollback.thy ===== *)
theory ChatRollback
  imports ChatTurns
begin

text \<open>
  What undoing a turn restores: the context exactly, the display only as far as both transcripts
  had the same length.
\<close>

section \<open>Transcripts without storage failures\<close>

lemma messages_set [simp]:
  "messages k j (set_transcript k' i ls w) = (if k = k' \<and> j = i then List.map_filter id ls else messages k j w)"
  by (cases k; cases k') (auto simp: messages_def)

lemma set_transcript_rest [simp]:
  "st_faults (set_transcript k i ls w) = st_faults w" "st_sessions (set_transcript k i ls w) = st_sessions w"
  "st_checkpoints (set_transcript k i ls w) = st_checkpoints w"
  by (cases k; simp)+

lemma map_filter_Some [simp]: "List.map_filter id (map Some ms) = ms"
  by (induction ms) (simp_all add: List.map_filter_def)

lemma map_filter_snoc [simp]: "List.map_filter id (ls @ [Some m]) = List.map_filter id ls @ [m]"
  by (induction ls) (auto simp: List.map_filter_def)

lemma messages_rest [simp]:
  "messages k i (w\<lparr>st_sessions := rs\<rparr>) = messages k i w"
  "messages k i (w\<lparr>st_checkpoints := cps\<rparr>) = messages k i w"
  by (cases k; simp add: messages_def)+

lemma io_calm [simp]: "st_faults w = [] \<Longrightarrow> storage_io m w = m w"
  by (simp add: storage_io_def)

lemmas act_run = act_bind_def act_ret_def act_fail_def act_of_def map_error_def try_action_def

lemma append_calm [simp]:
  "st_faults w = [] \<Longrightarrow> transcript_append k i m w = (Inr (), set_transcript k i (transcript_lines k i w @ [Some m]) w)"
  by (simp add: transcript_append_def)

lemma read_calm [simp]: "st_faults w = [] \<Longrightarrow> transcript_read_all k i w = (Inr (messages k i w), w)"
  by (simp add: transcript_read_all_def)

lemma truncate_calm [simp]:
  "st_faults w = [] \<Longrightarrow> transcript_truncate k i n w =
     (if n \<ge> length (messages k i w) then (Inr 0, w)
      else (Inr (length (messages k i w) - n), set_transcript k i (map Some (take n (messages k i w))) w))"
  by (simp add: transcript_truncate_def transcript_rewrite_def act_run)

lemma truncate_now:
  assumes "st_faults w = []"
  shows "\<exists>w'. transcript_truncate k i n w = (Inr (length (messages k i w) - n), w') \<and> st_faults w' = []
    \<and> st_checkpoints w' = st_checkpoints w
    \<and> (\<forall>k' j. messages k' j w' = (if k' = k \<and> j = i then take n (messages k i w) else messages k' j w))"
  using assms by auto

lemma lines_messages [simp]: "List.map_filter id (transcript_lines k i w) = messages k i w"
  by (simp add: messages_def)

definition active :: "string \<Rightarrow> 'm store \<Rightarrow> bool" where
  "active i w = (\<exists>r. find_session i (st_sessions w) = Some r \<and> sn_state r = SstActive)"

declare set_transcript.simps [simp del] transcript_lines.simps [simp del]

text \<open>A step that only adds messages to a session's transcripts.\<close>

definition grown :: "string \<Rightarrow> (transcript_kind \<Rightarrow> 'm list) \<Rightarrow> 'm store \<Rightarrow> 'm store \<Rightarrow> bool" where
  "grown i f w w' = (st_faults w' = [] \<and> st_checkpoints w' = st_checkpoints w \<and> (active i w \<longrightarrow> active i w')
     \<and> (\<forall>k. messages k i w' = messages k i w @ f k))"

definition to_one :: "transcript_kind \<Rightarrow> 'm list \<Rightarrow> transcript_kind \<Rightarrow> 'm list" where
  "to_one k ms k' = (if k' = k then ms else [])"

lemma to_one_Nil [simp]: "to_one k [] = (\<lambda>_. [])"
  by (simp add: to_one_def fun_eq_iff)

lemma to_one_same [simp]: "to_one k ms k = ms"
  by (simp add: to_one_def)

lemma grown_refl: "st_faults w = [] \<Longrightarrow> grown i (\<lambda>_. []) w w"
  by (simp add: grown_def)

lemma grown_trans: "grown i f w w' \<Longrightarrow> grown i g w' w'' \<Longrightarrow> grown i (\<lambda>k. f k @ g k) w w''"
  by (simp add: grown_def)

lemma all_transcript_kind: "(\<forall>k. P k) \<longleftrightarrow> P TkContext \<and> P TkDisplay"
  by (metis transcript_kind.exhaust)

text \<open>An action that always succeeds this way.\<close>

definition adds :: "string \<Rightarrow> (transcript_kind \<Rightarrow> 'm list) \<Rightarrow> ('m, 'e, unit) action \<Rightarrow> bool" where
  "adds i f m = (\<forall>w. st_faults w = [] \<longrightarrow> active i w \<longrightarrow> (\<exists>w'. m w = (Inr (), w') \<and> grown i f w w'))"

lemma adds_run: "adds i f m \<Longrightarrow> st_faults w = [] \<Longrightarrow> active i w \<Longrightarrow> \<exists>w'. m w = (Inr (), w') \<and> grown i f w w'"
  by (simp add: adds_def)

lemma adds_ret: "adds i (\<lambda>_. []) (act_ret ())"
  by (simp add: adds_def act_ret_def grown_refl)

lemma adds_bind:
  assumes "adds i f m" "\<And>x. adds i g (n x)" "h = (\<lambda>k. f k @ g k)"
  shows "adds i h (act_bind m n)"
  unfolding adds_def
proof (intro allI impI)
  fix w :: "'a store" assume w: "st_faults w = []" "active i w"
  obtain w' where m: "m w = (Inr (), w')" "grown i f w w'" using adds_run [OF assms(1) w] by blast
  then have "st_faults w' = []" "active i w'" using w(2) by (auto simp: grown_def)
  then obtain w'' where "n () w' = (Inr (), w'')" "grown i g w' w''" using adds_run [OF assms(2)] by blast
  then show "\<exists>w''. act_bind m n w = (Inr (), w'') \<and> grown i h w w''"
    using m grown_trans [OF m(2)] assms(3) by (auto simp: act_bind_def)
qed

lemma adds_iter: "(\<And>x. adds i (to_one k [x]) (f x)) \<Longrightarrow> adds i (to_one k xs) (act_iter f xs)"
proof (induction xs)
  case (Cons x xs)
  show ?case unfolding act_iter.simps
    by (rule adds_bind, rule Cons.prems, rule Cons.IH, rule Cons.prems) (simp add: to_one_def fun_eq_iff)
qed (simp add: adds_ret)

lemma adds_append_ignoring: "adds i (to_one k [m]) (append_ignoring k i m)"
  by (auto simp: adds_def append_ignoring_def act_run grown_def active_def to_one_def)

definition option_list :: "'a option \<Rightarrow> 'a list" where
  "option_list opt = (case opt of None \<Rightarrow> [] | Some x \<Rightarrow> [x])"

lemma adds_append_option: "adds i (to_one k (option_list opt)) (append_option k i opt)"
  using adds_append_ignoring [of i k] adds_ret [of i]
  by (cases opt) (auto simp: append_option_def option_list_def)

text \<open>A message of an active session goes to both transcripts.\<close>

lemma append_message_calm:
  assumes "st_faults w = []" "active i w"
  shows "\<exists>w'. append_message i m w = (Inr (), w') \<and> grown i (\<lambda>_. [m]) w w'"
proof -
  obtain r where r: "find_session i (st_sessions w) = Some r" "sn_state r = SstActive"
    using assms(2) by (auto simp: active_def)
  have "find_session i (map (\<lambda>q. if sn_id q = i then f q else q) rs) = map_option f (find_session i rs)"
    if "\<And>q. sn_id (f q) = sn_id q" for f and rs :: "session_row list"
    using that unfolding find_session_def by (induction rs) auto
  then show ?thesis using assms(1) r
    by (auto simp: append_message_def session_get_def session_update_metadata_def update_session_def
        transcript_message_count_def transcribed_def into_session_node_def session_node.truncate_def
        act_run grown_def active_def) (metis transcript_kind.exhaust)
qed

lemma adds_append_message: "adds i (\<lambda>_. [m]) (append_message i m)"
  using append_message_calm by (auto simp: adds_def)

lemma adds_tried:
  "adds i f m \<Longrightarrow> adds i f (act_bind (try_action m) (\<lambda>_. act_ret ()))"
  unfolding adds_def by (fastforce simp: act_run)

section \<open>The anchor of a turn\<close>

text \<open>One valid checkpoint stands for the turn, and no other row is in its slot.\<close>

definition anchored :: "string \<Rightarrow> string \<Rightarrow> nat \<Rightarrow> nat \<Rightarrow> chat_checkpoint list \<Rightarrow> bool" where
  "anchored i c turn n cps = ((\<exists>cp \<in> set cps. cc_checkpoint_id cp = c) \<and>
     (\<forall>cp \<in> set cps. cc_checkpoint_id cp = c \<or> (cc_session_id cp = i \<and> cc_turn_number cp = turn) \<longrightarrow>
        cc_checkpoint_id cp = c \<and> cc_session_id cp = i \<and> cc_turn_number cp = turn \<and>
        cc_message_count_before cp = n \<and> \<not> cc_invalidated cp))"

text \<open>The slot of the turn holds at most an invalidated row.\<close>

definition slot_open :: "string \<Rightarrow> string \<Rightarrow> nat \<Rightarrow> chat_checkpoint list \<Rightarrow> bool" where
  "slot_open i c turn cps = (distinct (map cc_checkpoint_id cps) \<and> c \<notin> cc_checkpoint_id ` set cps \<and>
     (\<forall>cp \<in> set cps. cc_session_id cp = i \<and> cc_turn_number cp = turn \<longrightarrow> cc_invalidated cp))"

definition other_rows :: "string \<Rightarrow> nat \<Rightarrow> chat_checkpoint list \<Rightarrow> chat_checkpoint list" where
  "other_rows i turn cps = filter (\<lambda>cp. \<not> (cc_session_id cp = i \<and> cc_turn_number cp = turn)) cps"

lemma checkpoints_of_set: "set (checkpoints_of i cps) = {cp \<in> set cps. cc_session_id cp = i}"
  by (auto simp: checkpoints_of_def)

lemma slot_row:
  assumes "List.find (\<lambda>r. cc_turn_number r = turn) (checkpoints_of i cps) = Some r"
  shows "r \<in> set cps \<and> cc_session_id r = i \<and> cc_turn_number r = turn"
proof -
  have "r \<in> set (checkpoints_of i cps) \<and> cc_turn_number r = turn"
    using assms by (auto simp: find_Some_iff)
  then show ?thesis by (simp add: checkpoints_of_set)
qed

lemma no_slot_row:
  assumes "List.find (\<lambda>r. cc_turn_number r = turn) (checkpoints_of i cps) = None" "r \<in> set cps" "cc_session_id r = i"
  shows "cc_turn_number r \<noteq> turn"
proof -
  have "r \<in> set (checkpoints_of i cps)" using assms by (simp add: checkpoints_of_set)
  then show ?thesis using assms(1) by (auto simp: find_None_iff)
qed

lemma find_id_None: "e \<notin> cc_checkpoint_id ` set cps \<Longrightarrow> List.find (\<lambda>r. cc_checkpoint_id r = e) cps = None"
  by (auto simp: find_None_iff)

definition the_checkpoint :: "string \<Rightarrow> string \<Rightarrow> nat \<Rightarrow> nat \<Rightarrow> string \<Rightarrow> nat \<Rightarrow> chat_checkpoint" where
  "the_checkpoint c i turn n scope now = \<lparr>cc_checkpoint_id = c, cc_session_id = i, cc_turn_number = turn,
     cc_message_count_before = n, cc_journal_scope_id = scope, cc_invalidated = False, cc_created_at = now\<rparr>"

text \<open>A free slot gets a row, with the identifier of the invalidated row it replaces if there is one.\<close>

lemma create_in_open_slot:
  assumes "st_faults w = []" "slot_open i c turn (st_checkpoints w)"
  shows "\<exists>e. create_checkpoint c i turn n scope w =
      (Inr (the_checkpoint e i turn n scope (st_now w)),
       w\<lparr>st_checkpoints := other_rows i turn (st_checkpoints w) @ [the_checkpoint e i turn n scope (st_now w)]\<rparr>)
    \<and> e \<notin> cc_checkpoint_id ` set (other_rows i turn (st_checkpoints w))"
proof -
  let ?cps = "st_checkpoints w"
  let ?e = "case List.find (\<lambda>r. cc_turn_number r = turn) (checkpoints_of i ?cps) of Some r \<Rightarrow> cc_checkpoint_id r | None \<Rightarrow> c"
  let ?cp = "the_checkpoint ?e i turn n scope (st_now w)"
  have rest: "filter (\<lambda>r. \<not> (same_slot r ?cp \<and> cc_invalidated r)) ?cps = other_rows i turn ?cps"
    using assms(2) by (auto simp: slot_open_def other_rows_def same_slot_def the_checkpoint_def intro!: filter_cong)
  have new: "?e \<notin> cc_checkpoint_id ` set (other_rows i turn ?cps)"
  proof (cases "List.find (\<lambda>r. cc_turn_number r = turn) (checkpoints_of i ?cps)")
    case None
    then show ?thesis using assms(2) by (auto simp: slot_open_def other_rows_def)
  next
    case (Some r)
    have "distinct (map cc_checkpoint_id ?cps)" using assms(2) by (simp add: slot_open_def)
    then have "r' = r" if "r' \<in> set ?cps" "cc_checkpoint_id r' = cc_checkpoint_id r" for r'
      using that slot_row [OF Some] by (auto simp: distinct_map inj_on_def)
    with slot_row [OF Some] Some show ?thesis by (auto simp: other_rows_def)
  qed
  have "upsert_checkpoint ?cp (other_rows i turn ?cps) = Inr (other_rows i turn ?cps @ [?cp])"
  proof -
    have "List.find (\<lambda>r. cc_checkpoint_id r = cc_checkpoint_id ?cp) (other_rows i turn ?cps) = None"
      using find_id_None [OF new] by (simp add: the_checkpoint_def)
    moreover have "\<not> list_ex (\<lambda>r. same_slot r ?cp) (other_rows i turn ?cps)"
      by (auto simp: list_ex_iff other_rows_def same_slot_def the_checkpoint_def)
    ultimately show ?thesis by (simp add: upsert_checkpoint_def)
  qed
  then show ?thesis using assms(1) rest new
    by (intro exI [of _ ?e]) (simp add: create_checkpoint_def checkpoint_list_def checkpoint_save_def act_run
        the_checkpoint_def [symmetric] Let_def)
qed

lemma create_again:
  assumes "st_faults w = []" "anchored i c turn n (st_checkpoints w)"
  shows "\<exists>cp cps. create_checkpoint d i turn n' scope w = (Inr cp, w\<lparr>st_checkpoints := cps\<rparr>)
    \<and> anchored i c turn n' cps \<and> other_rows i turn cps = other_rows i turn (st_checkpoints w)"
proof -
  let ?cps = "st_checkpoints w"
  let ?cp = "the_checkpoint c i turn n' scope (st_now w)"
  obtain cp0 where cp0: "cp0 \<in> set ?cps" "cc_checkpoint_id cp0 = c" using conjunct1 [OF assms(2) [unfolded anchored_def]] by blast
  have all: "cc_checkpoint_id cp = c \<longleftrightarrow> cc_session_id cp = i \<and> cc_turn_number cp = turn"
    "cc_checkpoint_id cp = c \<Longrightarrow> \<not> cc_invalidated cp" if "cp \<in> set ?cps" for cp
    using bspec [OF conjunct2 [OF assms(2) [unfolded anchored_def]] that] by blast+
  obtain r where find: "List.find (\<lambda>r. cc_turn_number r = turn) (checkpoints_of i ?cps) = Some r"
    using no_slot_row [of turn i ?cps cp0] all [OF cp0(1)] cp0 by (cases "List.find (\<lambda>r. cc_turn_number r = turn) (checkpoints_of i ?cps)") auto
  then have r: "cc_checkpoint_id r = c" using slot_row [OF find] all by blast
  have rest: "filter (\<lambda>r. \<not> (same_slot r ?cp \<and> cc_invalidated r)) ?cps = ?cps"
    using all by (auto simp: same_slot_def the_checkpoint_def filter_id_conv)
  obtain old where old: "List.find (\<lambda>r. cc_checkpoint_id r = c) ?cps = Some old"
    using cp0 by (cases "List.find (\<lambda>r. cc_checkpoint_id r = c) ?cps") (auto simp: find_None_iff)
  then have o: "old \<in> set ?cps" "cc_checkpoint_id old = c" by (auto simp: find_Some_iff)
  let ?new = "old\<lparr>cc_turn_number := turn, cc_message_count_before := n', cc_journal_scope_id := scope, cc_invalidated := False\<rparr>"
  let ?rows = "map (\<lambda>r. if cc_checkpoint_id r = c then ?new else r) ?cps"
  have "\<not> list_ex (\<lambda>r. cc_checkpoint_id r \<noteq> c \<and> same_slot r ?new) ?cps"
    using all o by (auto simp: list_ex_iff same_slot_def)
  then have ups: "upsert_checkpoint ?cp ?cps = Inr ?rows"
    using old by (simp add: upsert_checkpoint_def the_checkpoint_def Let_def)
  have "create_checkpoint d i turn n' scope w = (Inr ?cp, w\<lparr>st_checkpoints := ?rows\<rparr>)"
    using assms(1) find r rest ups by (simp add: create_checkpoint_def checkpoint_list_def checkpoint_save_def act_run
        the_checkpoint_def [symmetric] Let_def)
  moreover have "anchored i c turn n' ?rows"
  proof -
    have ids: "cc_checkpoint_id old = c" "cc_session_id old = i" using all(1) o by auto
    have row: "?new \<in> set ?rows" using o by (auto intro!: rev_image_eqI [OF o(1)])
    have ok: "cc_checkpoint_id x = c \<and> cc_session_id x = i \<and> cc_turn_number x = turn \<and>
        cc_message_count_before x = n' \<and> \<not> cc_invalidated x"
      if x: "x \<in> set ?rows" "cc_checkpoint_id x = c \<or> (cc_session_id x = i \<and> cc_turn_number x = turn)" for x
    proof -
      consider "x = ?new" | "x \<in> set ?cps" "cc_checkpoint_id x \<noteq> c" using x(1) by auto
      then show ?thesis by cases (use ids x(2) all(1) in auto)
    qed
    show ?thesis unfolding anchored_def
      by (rule conjI, rule bexI [OF _ row], simp add: ids, intro ballI impI, rule ok)
  qed
  moreover have "other_rows i turn ?rows = other_rows i turn ?cps"
  proof -
    have "\<And>rs. set rs \<subseteq> set ?cps \<Longrightarrow> other_rows i turn (map (\<lambda>r. if cc_checkpoint_id r = c then ?new else r) rs) = other_rows i turn rs"
      subgoal for rs using all o by (induction rs) (auto simp: other_rows_def)
      done
    then show ?thesis by blast
  qed
  ultimately show ?thesis by blast
qed

section \<open>Rolling back\<close>

lemma anchored_other:
  assumes "anchored i c turn n cps" "cp \<in> set cps"
  shows "cc_checkpoint_id cp = c \<longleftrightarrow> cc_session_id cp = i \<and> cc_turn_number cp = turn"
    "cc_checkpoint_id cp = c \<Longrightarrow> \<not> cc_invalidated cp \<and> cc_message_count_before cp = n"
  using bspec [OF conjunct2 [OF assms(1) [unfolded anchored_def]] assms(2)] by argo+

lemma anchored_row:
  assumes "anchored i c turn n cps"
  shows "\<exists>cp \<in> set cps. cc_checkpoint_id cp = c"
  using assms unfolding anchored_def by (rule conjunct1)

lemma anchored_found:
  assumes "anchored i c turn n cps"
  shows "\<exists>cp. List.find (\<lambda>r. cc_checkpoint_id r = c) cps = Some cp \<and> cc_session_id cp = i \<and>
    cc_turn_number cp = turn \<and> cc_message_count_before cp = n \<and> \<not> cc_invalidated cp"
proof -
  obtain cp where "List.find (\<lambda>r. cc_checkpoint_id r = c) cps = Some cp"
    using anchored_row [OF assms] by (cases "List.find (\<lambda>r. cc_checkpoint_id r = c) cps") (auto simp: find_None_iff)
  then show ?thesis using anchored_other [OF assms, of cp] by (auto simp: find_Some_iff)
qed

text \<open>The latest valid checkpoint has the greatest turn.\<close>

lemma find_descending:
  "sorted_wrt (\<lambda>a b. f b \<le> f a) ys \<Longrightarrow> List.find p ys = Some r \<Longrightarrow> y \<in> set ys \<Longrightarrow> p y \<Longrightarrow> f y \<le> (f r :: nat)"
  by (induction ys) (auto split: if_splits)

lemma latest_anchored:
  assumes "anchored i c turn n cps"
    and "\<And>cp. cp \<in> set cps \<Longrightarrow> cc_session_id cp = i \<Longrightarrow> \<not> cc_invalidated cp \<Longrightarrow> cc_turn_number cp \<le> turn"
  shows "\<exists>cp. List.find (\<lambda>r. \<not> cc_invalidated r) (checkpoints_of i cps) = Some cp \<and> cc_checkpoint_id cp = c"
proof -
  obtain a where a: "a \<in> set cps" "cc_checkpoint_id a = c" using anchored_row [OF assms(1)] by blast
  then have a': "cc_session_id a = i" "cc_turn_number a = turn" "\<not> cc_invalidated a"
    using anchored_other [OF assms(1) a(1)] by auto
  have in_list: "a \<in> set (checkpoints_of i cps)" using a a' by (simp add: checkpoints_of_set)
  then obtain r where r: "List.find (\<lambda>r. \<not> cc_invalidated r) (checkpoints_of i cps) = Some r"
    using a' by (cases "List.find (\<lambda>r. \<not> cc_invalidated r) (checkpoints_of i cps)") (auto simp: find_None_iff)
  then have "r \<in> set (checkpoints_of i cps)" "\<not> cc_invalidated r" by (auto simp: find_Some_iff)
  then have r': "r \<in> set cps" "cc_session_id r = i" "cc_turn_number r \<le> turn"
    using assms(2) by (auto simp: checkpoints_of_set)
  have sorted: "sorted_wrt (\<lambda>a b. cc_turn_number b \<le> cc_turn_number a) (checkpoints_of i cps)"
    using sorted_sort_key [of cc_turn_number] by (simp add: checkpoints_of_def sorted_wrt_rev sorted_wrt_map)
  then have "turn \<le> cc_turn_number r"
    using find_descending [OF sorted r in_list] a' by simp
  then show ?thesis using r r' anchored_other [OF assms(1) r'(1)] by simp
qed

text \<open>After a rollback the checkpoints from the turn on are invalid and the earlier ones untouched.\<close>

definition invalidated_from :: "string \<Rightarrow> nat \<Rightarrow> chat_checkpoint list \<Rightarrow> chat_checkpoint list" where
  "invalidated_from i turn cps =
     map (\<lambda>r. if cc_session_id r = i \<and> turn \<le> cc_turn_number r then r\<lparr>cc_invalidated := True\<rparr> else r) cps"

lemma invalidate_from:
  "0 < turn \<Longrightarrow> map (\<lambda>r. if to_invalidate i (turn - 1) r then r\<lparr>cc_invalidated := True\<rparr> else r) cps = invalidated_from i turn cps"
  by (auto simp: invalidated_from_def to_invalidate_def)

lemma valid_after:
  assumes "cp \<in> set (invalidated_from i turn cps)" "cc_session_id cp = i" "\<not> cc_invalidated cp"
  shows "cc_turn_number cp < turn"
proof -
  obtain r where "cp = (if cc_session_id r = i \<and> turn \<le> cc_turn_number r then r\<lparr>cc_invalidated := True\<rparr> else r)"
    using assms(1) unfolding invalidated_from_def set_map by blast
  then show ?thesis using assms(2,3) by (cases "cc_session_id r = i \<and> turn \<le> cc_turn_number r") auto
qed

lemma try_update_metadata:
  assumes "st_faults w = []"
  shows "\<exists>r w'. session_update_metadata i t k n w = (r, w') \<and> st_faults w' = [] \<and>
    st_checkpoints w' = st_checkpoints w \<and> (\<forall>k j. messages k j w' = messages k j w)"
  using assms by (auto simp: session_update_metadata_def update_session_def)

lemma rollback_calm:
  assumes "st_faults w = []" "anchored i c turn n (st_checkpoints w)" "0 < turn"
  shows "\<exists>rb w'. rollback_to i c w = (Inr rb, w') \<and> st_faults w' = []
    \<and> st_checkpoints w' = invalidated_from i turn (st_checkpoints w)
    \<and> (\<forall>k. messages k i w' = take n (messages k i w))
    \<and> rb_messages_removed rb = length (messages TkContext i w) - n \<and> rb_rolled_back_to_turn rb = turn - 1"
proof -
  obtain cp where cp: "List.find (\<lambda>r. cc_checkpoint_id r = c) (st_checkpoints w) = Some cp" "cc_session_id cp = i"
    "cc_turn_number cp = turn" "cc_message_count_before cp = n" "\<not> cc_invalidated cp"
    using anchored_found [OF assms(2)] by blast
  obtain d w1 where w1: "transcript_truncate TkDisplay i n w = (Inr d, w1)" "st_faults w1 = []"
    "st_checkpoints w1 = st_checkpoints w" "messages TkDisplay i w1 = take n (messages TkDisplay i w)"
    "messages TkContext i w1 = messages TkContext i w"
    using truncate_now [OF assms(1), of TkDisplay i n] by auto
  obtain w2 where w2: "transcript_truncate TkContext i n w1 = (Inr (length (messages TkContext i w) - n), w2)"
    "st_faults w2 = []" "st_checkpoints w2 = st_checkpoints w" "messages TkDisplay i w2 = take n (messages TkDisplay i w)"
    "messages TkContext i w2 = take n (messages TkContext i w)"
    using truncate_now [OF w1(2), of TkContext i n] w1 by auto
  obtain r w3 where w3: "session_update_metadata i None 0 n w2 = (r, w3)" "st_faults w3 = []"
    "st_checkpoints w3 = st_checkpoints w" "\<And>k. messages k i w3 = messages k i w2"
    using try_update_metadata [OF w2(2), of i None 0 n] w2(3) by metis
  have "\<exists>rb. rollback_to i c w = (Inr rb, w3\<lparr>st_checkpoints := invalidated_from i turn (st_checkpoints w)\<rparr>)
      \<and> rb_messages_removed rb = length (messages TkContext i w) - n \<and> rb_rolled_back_to_turn rb = turn - 1"
    using assms(1) cp w1(1) w2(1) w3(1-3) invalidate_from [OF assms(3), of i "st_checkpoints w"]
    by (simp add: rollback_to_def checkpoint_load_def checkpoint_list_def checkpoint_invalidate_after_def act_run
        del: truncate_calm)
  moreover have "messages k i w3 = take n (messages k i w)" for k
    using w2(4,5) w3(4) by (cases k) simp_all
  ultimately show ?thesis using w3(2) by auto
qed

section \<open>A turn and its undoing\<close>

text \<open>What a turn writes to a transcript after the message of the user.\<close>

fun written :: "'m turn_outcome \<Rightarrow> transcript_kind \<Rightarrow> 'm list" where
  "written (TurnFinished ms) k = ms"
| "written (TurnLlmError e0 partials work marker) TkContext = partials"
| "written (TurnLlmError e0 partials work marker) TkDisplay = option_list work @ [marker]"
| "written (TurnCancelled partials work) TkContext = partials @ option_list work"
| "written (TurnCancelled partials work) TkDisplay = option_list work"
| "written (TurnOtherError e0) k = []"

lemma prepare_calm:
  assumes "st_faults w = []" "active i w" "prepare_turn is_user limit i m w = (Inr t, w1)"
  shows "grown i (\<lambda>_. [m]) w w1 \<and> pt_session_id t = i \<and> pt_history t = messages TkContext i w @ [m]
    \<and> pt_turn_number t = min (length (messages TkDisplay i w) + 1) u32_max \<and> pt_pre_turn_message_count t = None"
proof -
  obtain q where q: "session_get i w = (Inr q, w)"
    using assms(1,2) by (auto simp: session_get_def active_def)
  obtain w' where w': "append_message i m w = (Inr (), w')" "grown i (\<lambda>_. [m]) w w'"
    using append_message_calm [OF assms(1,2)] by blast
  then have "st_faults w' = []" by (simp add: grown_def)
  then show ?thesis using assms(1,3) q w'
    by (auto simp: prepare_turn_def read_display_transcript_def read_transcript_def transcribed_def act_run grown_def
        length_or_def split: option.splits if_splits)
qed

lemma anchored_new:
  assumes "e \<notin> cc_checkpoint_id ` set (other_rows i turn cps)"
  shows "anchored i e turn n (other_rows i turn cps @ [the_checkpoint e i turn n scope now])"
proof -
  have "cc_checkpoint_id cp \<noteq> e \<and> \<not> (cc_session_id cp = i \<and> cc_turn_number cp = turn)"
    if "cp \<in> set (other_rows i turn cps)" for cp
    using assms that by (auto simp: other_rows_def)
  then show ?thesis by (auto simp: anchored_def the_checkpoint_def)
qed

lemma other_rows_new [simp]:
  "other_rows i turn (other_rows i turn cps @ [the_checkpoint e i turn n scope now]) = other_rows i turn cps"
  by (simp add: other_rows_def the_checkpoint_def)

lemma persist_open:
  assumes "st_faults w = []" "slot_open (pt_session_id t) c (checkpoint_turn t) (st_checkpoints w)"
  shows "\<exists>e cps. persist_turn_checkpoint c t w = (Inr (), w\<lparr>st_checkpoints := cps\<rparr>)
    \<and> anchored (pt_session_id t) e (checkpoint_turn t) (message_count_before t) cps
    \<and> other_rows (pt_session_id t) (checkpoint_turn t) cps = other_rows (pt_session_id t) (checkpoint_turn t) (st_checkpoints w)"
proof -
  let ?i = "pt_session_id t" and ?turn = "checkpoint_turn t" and ?n = "message_count_before t"
  obtain e where e: "create_checkpoint c ?i ?turn ?n (turn_scope ?i ?turn) w =
      (Inr (the_checkpoint e ?i ?turn ?n (turn_scope ?i ?turn) (st_now w)),
       w\<lparr>st_checkpoints := other_rows ?i ?turn (st_checkpoints w) @
         [the_checkpoint e ?i ?turn ?n (turn_scope ?i ?turn) (st_now w)]\<rparr>)"
    "e \<notin> cc_checkpoint_id ` set (other_rows ?i ?turn (st_checkpoints w))"
    using create_in_open_slot [OF assms] by blast
  then have "persist_turn_checkpoint c t w = (Inr (), w\<lparr>st_checkpoints := other_rows ?i ?turn (st_checkpoints w) @
         [the_checkpoint e ?i ?turn ?n (turn_scope ?i ?turn) (st_now w)]\<rparr>)"
    by (simp add: persist_turn_checkpoint_def act_run)
  then show ?thesis using anchored_new [OF e(2)] other_rows_new by blast
qed

lemma persist_again:
  assumes "st_faults w = []" "anchored (pt_session_id t) e (checkpoint_turn t) n (st_checkpoints w)"
  shows "\<exists>cps. persist_turn_checkpoint c t w = (Inr (), w\<lparr>st_checkpoints := cps\<rparr>)
    \<and> anchored (pt_session_id t) e (checkpoint_turn t) (message_count_before t) cps
    \<and> other_rows (pt_session_id t) (checkpoint_turn t) cps = other_rows (pt_session_id t) (checkpoint_turn t) (st_checkpoints w)"
  using create_again [OF assms, of c "message_count_before t" "turn_scope (pt_session_id t) (checkpoint_turn t)"]
  by (auto simp: persist_turn_checkpoint_def act_run)

lemma adds_llm_error:
  assumes "i = pt_session_id t"
  shows "adds i (written (TurnLlmError e0 partials work marker)) (persist_llm_error_partial_state t partials work marker)"
  unfolding persist_llm_error_partial_state_def assms
  by (rule adds_bind [OF adds_iter [OF adds_append_ignoring] adds_bind [OF adds_append_option adds_append_ignoring refl]])
    (simp add: fun_eq_iff to_one_def all_transcript_kind)

lemma adds_cancelled:
  assumes "i = pt_session_id t"
  shows "adds i (written (TurnCancelled partials work)) (persist_cancelled_state t partials work)"
  unfolding persist_cancelled_state_def assms
  by (rule adds_bind [OF adds_iter [OF adds_append_ignoring] adds_bind [OF adds_append_option adds_append_option refl]])
    (simp add: fun_eq_iff to_one_def all_transcript_kind)

lemma adds_all: "(\<And>x. adds i (\<lambda>_. [x]) (f x)) \<Longrightarrow> adds i (\<lambda>_. xs) (act_iter f xs)"
proof (induction xs)
  case (Cons x xs)
  show ?case unfolding act_iter.simps
    by (rule adds_bind, rule Cons.prems, rule Cons.IH, rule Cons.prems) simp
qed (simp add: adds_ret)

lemma adds_finished:
  "adds i (written (TurnFinished ms)) (act_iter (\<lambda>m. act_bind (try_action (append_message i m)) (\<lambda>_. act_ret ())) ms)"
proof -
  have "written (TurnFinished ms) = (\<lambda>_. ms)" by (simp add: fun_eq_iff)
  then show ?thesis using adds_all [OF adds_tried [OF adds_append_message], of i ms] by simp
qed

text \<open>Executing a turn leaves its anchor and its messages, and no other checkpoint changes.\<close>

definition left_by ::
  "'m prepared_turn \<Rightarrow> (transcript_kind \<Rightarrow> 'm list) \<Rightarrow> string \<Rightarrow> 'm store \<Rightarrow> 'm store \<Rightarrow> bool" where
  "left_by t f e w w' = (st_faults w' = [] \<and> (active (pt_session_id t) w \<longrightarrow> active (pt_session_id t) w')
     \<and> (\<forall>k. messages k (pt_session_id t) w' = messages k (pt_session_id t) w @ f k)
     \<and> anchored (pt_session_id t) e (checkpoint_turn t) (message_count_before t) (st_checkpoints w')
     \<and> other_rows (pt_session_id t) (checkpoint_turn t) (st_checkpoints w')
        = other_rows (pt_session_id t) (checkpoint_turn t) (st_checkpoints w))"

lemma active_checkpoints [simp]: "active i (w\<lparr>st_checkpoints := cps\<rparr>) = active i w"
  by (simp add: active_def)

lemma left_by_open:
  assumes "st_faults w = []" "slot_open (pt_session_id t) c (checkpoint_turn t) (st_checkpoints w)"
  shows "\<exists>e w'. persist_turn_checkpoint c t w = (Inr (), w') \<and> left_by t (\<lambda>_. []) e w w'"
  using persist_open [OF assms] assms(1) by (fastforce simp: left_by_def)

lemma left_by_again:
  assumes "left_by t f e w w'"
  shows "\<exists>w''. persist_turn_checkpoint c t w' = (Inr (), w'') \<and> left_by t f e w w''"
proof -
  have "st_faults w' = []" "anchored (pt_session_id t) e (checkpoint_turn t) (message_count_before t) (st_checkpoints w')"
    using assms by (simp_all add: left_by_def)
  from persist_again [OF this, of c] assms show ?thesis by (fastforce simp: left_by_def)
qed

lemma left_by_adds:
  assumes "left_by t f e w w'" "adds (pt_session_id t) g m" "active (pt_session_id t) w"
  shows "\<exists>w''. m w' = (Inr (), w'') \<and> left_by t (\<lambda>k. f k @ g k) e w w''"
proof -
  have "st_faults w' = []" "active (pt_session_id t) w'" using assms(1,3) by (simp_all add: left_by_def)
  then obtain w'' where "m w' = (Inr (), w'')" "grown (pt_session_id t) g w' w''" using adds_run [OF assms(2)] by blast
  then show ?thesis using assms(1) by (auto simp: left_by_def grown_def)
qed

lemma bind_run: "m w = (Inr x, w') \<Longrightarrow> act_bind m f w = f x w'"
  by (simp add: act_bind_def)

lemma execute_calm:
  fixes w :: "'m store"
  assumes "st_faults w = []" "active (pt_session_id t) w"
    and "slot_open (pt_session_id t) c (checkpoint_turn t) (st_checkpoints w)"
    and "execute_turn c t outcome w = (r, w')"
  shows "\<exists>e. left_by t (written outcome) e w w'"
proof -
  obtain e w1 where w1: "(persist_turn_checkpoint c t :: ('m, turn_error, unit) action) w = (Inr (), w1)" "left_by t (\<lambda>_. []) e w w1"
    using left_by_open [OF assms(1,3)] by blast
  have adds: "\<exists>w2. m w1 = (Inr (), w2) \<and> left_by t g e w w2" if "adds (pt_session_id t) g m" for g and m :: "('m, turn_error, unit) action"
    using left_by_adds [OF w1(2) that assms(2)] by simp
  show ?thesis
  proof (cases outcome)
    case (TurnFinished ms)
    obtain w2 where w2: "(act_iter (\<lambda>m. act_bind (try_action (append_message (pt_session_id t) m))
        (\<lambda>_. act_ret ())) ms :: ('m, turn_error, unit) action) w1 = (Inr (), w2)" "left_by t (written outcome) e w w2"
      using adds [OF adds_finished] TurnFinished by blast
    obtain w3 where "(persist_turn_checkpoint c t :: ('m, turn_error, unit) action) w2 = (Inr (), w3)" "left_by t (written outcome) e w w3"
      using left_by_again [OF w2(2)] by blast
    then show ?thesis using assms(4) w1 w2 TurnFinished by (auto simp: execute_turn_def bind_run)
  next
    case (TurnLlmError e0 partials work marker)
    obtain w2 where w2: "(persist_llm_error_partial_state t partials work marker :: ('m, turn_error, unit) action) w1 = (Inr (), w2)"
      "left_by t (written outcome) e w w2"
      using adds [OF adds_llm_error [OF refl]] TurnLlmError by blast
    obtain w3 where "(persist_turn_checkpoint c t :: ('m, turn_error, unit) action) w2 = (Inr (), w3)" "left_by t (written outcome) e w w3"
      using left_by_again [OF w2(2)] by blast
    then show ?thesis using assms(4) w1 w2 TurnLlmError
      by (auto simp: execute_turn_def bind_run act_fail_def)
  next
    case (TurnCancelled partials work)
    obtain w2 where "(persist_cancelled_state t partials work :: ('m, turn_error, unit) action) w1 = (Inr (), w2)" "left_by t (written outcome) e w w2"
      using adds [OF adds_cancelled [OF refl]] TurnCancelled by blast
    then show ?thesis using assms(4) w1 TurnCancelled by (auto simp: execute_turn_def bind_run act_fail_def)
  next
    case (TurnOtherError e0)
    then have "written outcome = (\<lambda>_. [])" by (simp add: fun_eq_iff)
    then show ?thesis using assms(4) w1 TurnOtherError
      by (auto simp: execute_turn_def bind_run act_fail_def)
  qed
qed

text \<open>Every valid checkpoint of the session is of a turn before this one, and identifiers are keys.\<close>

definition turns_before :: "string \<Rightarrow> string \<Rightarrow> nat \<Rightarrow> chat_checkpoint list \<Rightarrow> bool" where
  "turns_before i c turn cps = (distinct (map cc_checkpoint_id cps) \<and> c \<notin> cc_checkpoint_id ` set cps \<and>
     (\<forall>cp \<in> set cps. cc_session_id cp = i \<and> \<not> cc_invalidated cp \<longrightarrow> cc_turn_number cp < turn))"

lemma turns_before_open: "turns_before i c turn cps \<Longrightarrow> slot_open i c turn cps"
  by (auto simp: turns_before_def slot_open_def)

lemma other_rows_iff:
  assumes "other_rows i turn cps = other_rows i turn cps'" "\<not> (cc_session_id cp = i \<and> cc_turn_number cp = turn)"
  shows "cp \<in> set cps \<longleftrightarrow> cp \<in> set cps'"
proof -
  have "cp \<in> set (other_rows i turn cps) \<longleftrightarrow> cp \<in> set (other_rows i turn cps')" using assms(1) by simp
  then show ?thesis using assms(2) by (simp add: other_rows_def)
qed

lemma no_later_turn:
  assumes "turns_before i c turn cps" "other_rows i turn cps' = other_rows i turn cps"
    and "cp \<in> set cps'" "cc_session_id cp = i" "\<not> cc_invalidated cp"
  shows "cc_turn_number cp \<le> turn"
  using assms other_rows_iff [OF assms(2), of cp] by (cases "cc_turn_number cp = turn") (auto simp: turns_before_def)

definition short :: "string \<Rightarrow> 'm store \<Rightarrow> bool" where
  "short i w = (length (messages TkContext i w) \<le> u32_max \<and> length (messages TkDisplay i w) + 3 \<le> u32_max)"

lemma prepared_anchor:
  assumes "st_faults w = []" "active i w" "short i w" "prepare_turn is_user limit i m w = (Inr t, w1)"
  shows "pt_session_id t = i \<and> message_count_before t = length (messages TkContext i w)
    \<and> checkpoint_turn t = length (messages TkDisplay i w) + 2"
proof -
  have "pt_session_id t = i" "pt_history t = messages TkContext i w @ [m]" "pt_pre_turn_message_count t = None"
    "pt_turn_number t = length (messages TkDisplay i w) + 1"
    using prepare_calm [OF assms(1,2,4)] assms(3) by (auto simp: short_def)
  moreover have "u32_max < 2 ^ 32" by (simp add: u32_max_def)
  ultimately show ?thesis using assms(3)
    by (auto simp: message_count_before_def checkpoint_turn_def u32_or_zero_def short_def)
qed

lemma turn_calm:
  assumes "st_faults w = []" "active i w" "short i w"
    and "turns_before i c (length (messages TkDisplay i w) + 2) (st_checkpoints w)"
    and "prepare_turn is_user limit i m w = (Inr t, w1)" "execute_turn c t outcome w1 = (r, w2)"
  shows "\<exists>e. left_by t (\<lambda>k. m # written outcome k) e w w2"
proof -
  have g: "grown i (\<lambda>_. [m]) w w1" using prepare_calm [OF assms(1,2,5)] by blast
  note a = prepared_anchor [OF assms(1-3,5)]
  have w1: "st_faults w1 = []" "active (pt_session_id t) w1" "st_checkpoints w1 = st_checkpoints w"
    using g assms(2) a by (auto simp: grown_def)
  have "slot_open (pt_session_id t) c (checkpoint_turn t) (st_checkpoints w1)"
    using turns_before_open [OF assms(4)] w1(3) a by simp
  then obtain e where "left_by t (written outcome) e w1 w2"
    using execute_calm [OF w1(1,2) _ assms(6)] by blast
  then show ?thesis using g a by (intro exI [of _ e]) (auto simp: left_by_def grown_def)
qed


lemma failed_turn_display:
  "messages TkDisplay i w2 = ds @ m # option_list work @ [marker] \<Longrightarrow>
   messages TkDisplay i w2 \<noteq> [] \<and> last (messages TkDisplay i w2) = marker
   \<and> take (length (messages TkDisplay i w2) - 1) (messages TkDisplay i w2) = ds @ m # option_list work"
  by (simp add: butlast_conv_take [symmetric] butlast_append)

text \<open>Resending a turn whose model call failed continues it: only the failure marker leaves the
  display, the context keeps the partial messages, the checkpoints stay, and the count of messages
  before the turn is the one of the failed attempt.  Its checkpoint is for the same turn when there
  was nothing to show; when there was, it is for the next turn number, so the retry leaves a second
  valid checkpoint for the same turn.\<close>

theorem resend_after_a_failure:
  assumes "st_faults w = []" "active i w" "short i w"
    and "turns_before i c (length (messages TkDisplay i w) + 2) (st_checkpoints w)"
    and "prepare_turn is_user limit i m w = (Inr t, w1)"
    and "execute_turn c t (TurnLlmError e0 partials work marker) w1 = (r, w2)" "is_user m" "is_failure marker"
    and "cp \<in> set (st_checkpoints w2)" "cc_session_id cp = i" "cc_turn_number cp = checkpoint_turn t"
  shows "\<exists>t' w3. prepare_resend_turn is_user is_failure i (cc_checkpoint_id cp) w2 = (Inr t', w3)
    \<and> messages TkContext i w3 = messages TkContext i w2 \<and> pt_history t' = messages TkContext i w2
    \<and> messages TkDisplay i w3 = messages TkDisplay i w @ m # option_list work
    \<and> st_checkpoints w3 = st_checkpoints w2 \<and> message_count_before t' = message_count_before t
    \<and> checkpoint_turn t' = checkpoint_turn t + length (option_list work)"
proof -
  let ?n = "length (messages TkContext i w)" and ?shown = "messages TkDisplay i w @ m # option_list work"
  note a = prepared_anchor [OF assms(1-3,5)]
  obtain e where e: "left_by t (\<lambda>k. m # written (TurnLlmError e0 partials work marker) k) e w w2"
    using turn_calm [OF assms(1-6)] by blast
  have w2: "st_faults w2 = []" "active i w2" "anchored i e (checkpoint_turn t) ?n (st_checkpoints w2)"
    "messages TkContext i w2 = messages TkContext i w @ m # partials"
    "messages TkDisplay i w2 = messages TkDisplay i w @ m # option_list work @ [marker]"
    using e a assms(2) by (simp_all add: left_by_def)
  obtain q where q: "session_get i w2 = (Inr q, w2)" using w2(1,2) by (auto simp: session_get_def active_def)
  have "cc_checkpoint_id cp = e" using anchored_other [OF w2(3) assms(9)] assms(10,11) by simp
  then obtain found where load: "checkpoint_load (cc_checkpoint_id cp) w2 = (Inr found, w2)"
    "cc_message_count_before found = ?n"
    using anchored_found [OF w2(3)] w2(1) by (auto simp: checkpoint_load_def)
  note shown = failed_turn_display [OF w2(5)]
  let ?len = "length (messages TkDisplay i w2)"
  obtain k w3 where w3: "transcript_truncate TkDisplay i (?len - 1) w2 = (Inr k, w3)" "st_faults w3 = []"
    "st_checkpoints w3 = st_checkpoints w2" "messages TkDisplay i w3 = ?shown"
    "messages TkContext i w3 = messages TkContext i w2"
    using truncate_now [OF w2(1), of TkDisplay i "?len - 1"] shown by auto
  let ?t = "\<lparr>pt_session_id = i, pt_history = messages TkContext i w2,
    pt_turn_number = u32_or_zero (?len - 1), pt_pre_turn_message_count = Some ?n\<rparr>"
  have "prepare_resend_turn is_user is_failure i (cc_checkpoint_id cp) w2 = (Inr ?t, w3)"
    using w2(1) q load shown w3(1,2,5) assms(7,8)
    by (simp add: prepare_resend_turn_def read_display_transcript_def read_transcript_def transcribed_def act_run
        w2(4) del: truncate_calm)
  moreover have "checkpoint_turn ?t = checkpoint_turn t + length (option_list work)"
  proof -
    have "length (option_list work) \<le> 1" by (simp add: option_list_def split: option.split)
    moreover have "?len - 1 = length (messages TkDisplay i w) + 1 + length (option_list work)" using w2(5) by simp
    ultimately show ?thesis using a assms(3) by (simp add: checkpoint_turn_def u32_or_zero_def short_def u32_max_def)
  qed
  moreover have "message_count_before ?t = message_count_before t" using a by (simp add: message_count_before_def)
  ultimately show ?thesis using w3(3-5) by (intro exI [of _ ?t] exI [of _ w3]) simp
qed

text \<open>A rewind to a message that no scope of a checkpoint names, which is every rewind to a message
  of the user, as the scopes name sessions and turns, keeps the display up to the message and cuts
  the context at the same index; it invalidates all checkpoints of the session, not only the ones
  after the message.\<close>

theorem rewind_invalidates_every_checkpoint:
  assumes "st_faults w = []" "\<not> is_synthetic_snapshot_id target"
    and "\<forall>cp \<in> set (st_checkpoints w). cc_session_id cp = i \<longrightarrow> \<not> str_contains (cc_journal_scope_id cp) target"
    and "position (\<lambda>m. message_id m = target) (messages TkDisplay i w) = Some k"
  shows "\<exists>r w'. execute_rewind message_id (act_ret ()) i target w = (Inr r, w')
    \<and> messages TkDisplay i w' = take (k + 1) (messages TkDisplay i w)
    \<and> messages TkContext i w' = take (k + 1) (messages TkContext i w)
    \<and> (\<forall>cp \<in> set (st_checkpoints w'). cc_session_id cp = i \<and> 0 < cc_turn_number cp \<longrightarrow> cc_invalidated cp)"
proof -
  have none: "List.find (\<lambda>cp. str_contains (cc_journal_scope_id cp) target) (checkpoints_of i (st_checkpoints w)) = None"
    using assms(3) by (auto simp: find_None_iff checkpoints_of_set)
  obtain d w1 where w1: "transcript_truncate TkDisplay i (k + 1) w = (Inr d, w1)" "st_faults w1 = []"
    "st_checkpoints w1 = st_checkpoints w" "messages TkDisplay i w1 = take (k + 1) (messages TkDisplay i w)"
    "messages TkContext i w1 = messages TkContext i w"
    using truncate_now [OF assms(1), of TkDisplay i "k + 1"] by auto
  obtain d' w2 where w2: "transcript_truncate TkContext i (k + 1) w1 = (Inr d', w2)" "st_faults w2 = []"
    "st_checkpoints w2 = st_checkpoints w" "messages TkDisplay i w2 = take (k + 1) (messages TkDisplay i w)"
    "messages TkContext i w2 = take (k + 1) (messages TkContext i w)"
    using truncate_now [OF w1(2), of TkContext i "k + 1"] w1 by auto
  let ?w' = "w2\<lparr>st_checkpoints := invalidated_from i 1 (st_checkpoints w)\<rparr>"
  have "\<exists>r. execute_rewind message_id (act_ret ()) i target w = (Inr r, ?w')"
    using assms(1,2,4) none w1(1,2) w2(1-3) invalidate_from [of 1 i "st_checkpoints w"]
    by (simp add: execute_rewind_def checkpoint_list_def checkpoint_invalidate_after_def read_display_transcript_def
        transcribed_def act_run del: truncate_calm)
  moreover have "cc_invalidated cp"
    if "cp \<in> set (st_checkpoints ?w')" "cc_session_id cp = i" "0 < cc_turn_number cp" for cp
    using valid_after [of cp i 1 "st_checkpoints w"] that by auto
  ultimately show ?thesis using w2(4,5) by (auto intro!: exI [of _ ?w'])
qed

section \<open>A concrete chat\<close>

definition demo_chat :: "nat store" where
  "demo_chat = snd (session_create ''a''
     \<lparr>op_parent_id = None, op_session_type = StyMain, op_agent_id = None, op_title = None\<rparr>
     \<lparr>st_sessions = [], st_context = (\<lambda>_. []), st_display = (\<lambda>_. []), st_checkpoints = [],
      st_references = [], st_now = 0, st_faults = []\<rparr>)"

lemma demo_chat_ready:
  "st_faults demo_chat = [] \<and> active ''a'' demo_chat \<and> short ''a'' demo_chat
   \<and> turns_before ''a'' ''c'' 2 (st_checkpoints demo_chat) \<and> messages k ''a'' demo_chat = []"
  by (cases k) (simp_all add: demo_chat_def session_create_def session_create_in_def insert_session_def session_get_def new_row_def
      find_session_def act_run active_def short_def turns_before_def u32_max_def messages_def transcript_lines.simps
      List.map_filter_def)

lemma prepare_succeeds:
  assumes "st_faults w = []" "active i w"
  shows "\<exists>t w1. prepare_turn is_user None i m w = (Inr t, w1)"
proof -
  obtain w' where w': "append_message i m w = (Inr (), w')" "grown i (\<lambda>_. [m]) w w'"
    using append_message_calm [OF assms] by blast
  moreover have "st_faults w' = []" using w'(2) by (simp add: grown_def)
  moreover obtain q where "session_get i w = (Inr q, w)"
    using assms by (auto simp: session_get_def active_def)
  ultimately show ?thesis using assms(1)
    by (simp add: prepare_turn_def read_display_transcript_def read_transcript_def transcribed_def act_run)
qed

lemma demo_chat_start:
  "st_faults demo_chat = []" "active ''a'' demo_chat" "short ''a'' demo_chat"
  "turns_before ''a'' ''c'' (length (messages TkDisplay ''a'' demo_chat) + 2) (st_checkpoints demo_chat)"
  "messages k ''a'' demo_chat = []"
  using demo_chat_ready by (simp_all add: numeral_2_eq_2)


lemma resend_after_a_failure_witness:
  "\<exists>t w1 r w2 (cp :: chat_checkpoint) t' w3. prepare_turn (\<lambda>_. True) None ''a'' 1 demo_chat = (Inr t, w1)
     \<and> execute_turn ''c'' t (TurnLlmError ''overloaded'' [5] (Some 6) 9) w1 = (r, w2)
     \<and> prepare_resend_turn (\<lambda>_. True) (\<lambda>m. m = 9) ''a'' (cc_checkpoint_id cp) w2 = (Inr t', w3)
     \<and> messages TkDisplay ''a'' w3 = [1, 6] \<and> checkpoint_turn t' = checkpoint_turn t + 1"
proof -
  note d = demo_chat_start
  obtain t w1 where p: "prepare_turn (\<lambda>_. True) None ''a'' 1 demo_chat = (Inr t, w1)"
    using prepare_succeeds [OF d(1,2)] by blast
  obtain r w2 where x: "execute_turn ''c'' t (TurnLlmError ''overloaded'' [5] (Some 6) 9) w1 = (r, w2)" by fastforce
  have s: "pt_session_id t = ''a''" using prepare_calm [OF d(1,2) p] by blast
  obtain e where "left_by t (\<lambda>k. 1 # written (TurnLlmError ''overloaded'' [5] (Some 6) 9) k) e demo_chat w2"
    using turn_calm [OF d(1-4) p x] by blast
  then have "anchored ''a'' e (checkpoint_turn t) (message_count_before t) (st_checkpoints w2)"
    using s by (simp add: left_by_def)
  then obtain cp where cp: "cp \<in> set (st_checkpoints w2)" "cc_session_id cp = ''a''" "cc_turn_number cp = checkpoint_turn t"
    using anchored_found by (metis find_Some_iff nth_mem)
  obtain t' w3 where again: "prepare_resend_turn (\<lambda>_. True) (\<lambda>m. m = 9) ''a'' (cc_checkpoint_id cp) w2 = (Inr t', w3)"
    "messages TkDisplay ''a'' w3 = [1, 6]" "checkpoint_turn t' = checkpoint_turn t + 1"
    using resend_after_a_failure [OF d(1-4) p x _ _ cp, of "\<lambda>m. m = 9"] by (auto simp: d(5) option_list_def)
  show ?thesis
    by (intro exI conjI, rule p, rule x, rule again(1), rule again(2), rule again(3))
qed

definition demo_rewound :: "nat store" where
  "demo_rewound = (set_transcript TkDisplay ''a'' [Some 1, Some 2] demo_chat)
     \<lparr>st_checkpoints := [the_checkpoint ''c'' ''a'' 5 0 [] 0]\<rparr>"

lemma demo_rewound_simps:
  "st_faults demo_rewound = []" "st_checkpoints demo_rewound = [the_checkpoint ''c'' ''a'' 5 0 [] 0]"
  "messages TkDisplay ''a'' demo_rewound = [1, 2]"
  using demo_chat_ready by (simp_all add: demo_rewound_def List.map_filter_def)

lemma rewind_invalidates_every_checkpoint_witness:
  "\<exists>r w'. execute_rewind (\<lambda>_. ''m'') (act_ret ()) ''a'' ''m'' demo_rewound = (Inr r, w')
     \<and> messages TkDisplay ''a'' w' = [1]"
  using rewind_invalidates_every_checkpoint [of demo_rewound "''m''" "''a''" "\<lambda>_. ''m''" 0]
  by (auto simp: demo_rewound_simps is_synthetic_snapshot_id_def starts_with_def the_checkpoint_def str_contains_def)

end
