(* ===== verification/PoolProgress.thy ===== *)
theory PoolProgress
  imports ProviderPoolCorrect
begin

text \<open>
  The pool is never stuck: from whatever state requests, answers, freezes and dropped futures have
  led to, the requests that are left can all be served to their end.
\<close>

text \<open>A step that takes requests forward: none is dropped, a chat ends only after it ran and a
  stream only after it was open.\<close>

fun advances :: "flight \<Rightarrow> phase \<Rightarrow> bool" where
  "advances f AwaitProvider = (fl_phase f = AwaitGlobal)"
| "advances f Running = (fl_phase f = AwaitProvider)"
| "advances f (Streaming st) = (fl_phase f = Running \<and> fl_stream f)"
| "advances f Ended = (\<not> fl_stream f \<and> fl_phase f = Running \<or> (\<exists>st. fl_phase f = Streaming st))"
| "advances f _ = False"

definition serving_step ::
  "(provider_error \<Rightarrow> string) \<Rightarrow> (32 word \<Rightarrow> 32 word \<Rightarrow> f64 \<Rightarrow> f64 \<Rightarrow> 64 word) \<Rightarrow> pool \<times> flight list \<Rightarrow> pool \<times> flight list \<Rightarrow> bool" where
  "serving_step disp cost s s' = (pool_step disp cost s s' \<and>
     (\<exists>k ph. k < length (snd s) \<and> advances (snd s ! k) ph \<and> snd s' = set_phase k ph (snd s)))"

lemma serving_stepI:
  "pool_step disp cost (p, fs) (p', set_phase k ph fs) \<Longrightarrow> k < length fs \<Longrightarrow> advances (fs ! k) ph \<Longrightarrow>
   \<exists>s'. serving_step disp cost (p, fs) s'"
  unfolding serving_step_def by (metis snd_conv)

definition over :: "flight \<Rightarrow> bool" where
  "over f = (fl_phase f \<in> {Ended, DroppedRunning})"

fun phases_left :: "phase \<Rightarrow> nat" where
  "phases_left AwaitGlobal = 4"
| "phases_left AwaitProvider = 3"
| "phases_left Running = 2"
| "phases_left (Streaming _) = 1"
| "phases_left _ = 0"

definition work_left :: "flight list \<Rightarrow> nat" where
  "work_left fs = sum_list (map (phases_left \<circ> fl_phase) fs)"

lemma work_left_set_phase:
  assumes "k < length fs" "phases_left ph < phases_left (fl_phase (fs ! k))"
  shows "work_left (set_phase k ph fs) < work_left fs"
proof -
  have fs: "fs = take k fs @ fs ! k # drop (Suc k) fs" using assms(1) by (rule id_take_nth_drop)
  have "work_left (set_phase k ph fs) = work_left (take k fs @ (fs ! k)\<lparr>fl_phase := ph\<rparr> # drop (Suc k) fs)"
    using assms(1) by (simp add: set_phase_def upd_conv_take_nth_drop)
  moreover have "work_left fs = work_left (take k fs @ fs ! k # drop (Suc k) fs)" using fs by simp
  ultimately show ?thesis using assms(2) by (simp add: work_left_def)
qed

lemma advances_less: "advances f ph \<Longrightarrow> phases_left ph < phases_left (fl_phase f)"
  by (cases ph) (auto split: if_splits)

lemma work_left_zero: "work_left fs = 0 \<Longrightarrow> list_all over fs"
proof (induction fs)
  case (Cons f fs)
  then show ?case by (cases "fl_phase f") (simp_all add: work_left_def over_def)
qed simp

text \<open>A provider that answers at once.\<close>

definition good_answer :: "'o \<Rightarrow> nat \<Rightarrow> ('r, 'o) request_attempt" where
  "good_answer x = (\<lambda>_. \<lparr>at_elapsed_before = 0, at_answer = (\<lambda>_ _. Some (Inr x)), at_elapsed_after = 0, at_unix_nanos = 0\<rparr>)"

lemma good_answer_returns:
  "0 < pr_total_retry_timeout_ms cfg \<Longrightarrow> retry_attempts what t cfg req (good_answer x) 0 = (Inr x, 0)"
  by (simp add: retry_attempts.simps [of _ _ _ _ _ 0] good_answer_def attempt_result_def from_millis_def)

lemma running_served:
  assumes "k < length fs" "fl_phase (fs ! k) = Running" "0 < pr_total_retry_timeout_ms (po_retry p)"
  shows "\<exists>s'. serving_step disp cost (p, fs) s'"
proof (cases "fl_stream (fs ! k)")
  case False
  let ?i = "fl_provider (fs ! k)"
  fix x :: "unit chat_response"
  note ans = good_answer_returns [OF assms(3), of "''request''" "pr_request_timeout_ms (po_retry p)" _ x]
  obtain answer ps where fin: "finish_chat disp cost 0 (Inr x) ?i (po_providers p) = Some (answer, ps)"
    by (simp add: finish_chat_def Let_def)
  have "pool_step disp cost (p, fs) (give_back ?i (p\<lparr>po_providers := ps\<rparr>), set_phase k Ended fs)"
    by (rule FinishChat [OF assms(1,2) False refl ans fin])
  then show ?thesis by (rule serving_stepI) (use assms(1,2) False in simp_all)
next
  case True
  let ?i = "fl_provider (fs ! k)"
  fix x :: stream_response
  note ans = good_answer_returns [OF assms(3), of "''stream start''" "pr_stream_start_timeout_ms (po_retry p)" _ x]
  obtain y where fin: "finish_stream_start disp 0 (Inr x) ?i (po_providers p) = Some (Inr y, po_providers p)"
    by (simp add: finish_stream_start_def Let_def)
  have "pool_step disp cost (p, fs) (give_back ?i (p\<lparr>po_providers := po_providers p\<rparr>),
      set_phase k (Streaming \<lparr>ss_first = True, ss_terminated = False\<rparr>) fs)"
    using FinishStream [OF assms(1,2) True refl ans fin] by simp
  then show ?thesis by (rule serving_stepI) (use assms(1,2) True in simp_all)
qed

lemma streaming_served:
  assumes "k < length fs" "fl_phase (fs ! k) = Streaming st"
  shows "\<exists>s'. serving_step disp cost (p, fs) s'"
  by (rule serving_stepI [OF DropStream [OF assms refl] assms(1)]) (use assms in simp)

text \<open>A request waiting for its provider or for the pool, when none is running.\<close>

lemma none_tally: "(\<And>k. k < length fs \<Longrightarrow> \<not> P (fs ! k)) \<Longrightarrow> tally P fs = 0"
  by (simp add: tally_def filter_empty_conv) (metis in_set_conv_nth)

lemma provider_wait_served:
  assumes "pool_balanced L G (p, fs)" "\<forall>l \<in> set L. 0 < l"
    and "k < length fs" "fl_phase (fs ! k) = AwaitProvider" "\<And>j. j < length fs \<Longrightarrow> fl_phase (fs ! j) \<noteq> Running"
  shows "\<exists>s'. serving_step disp cost (p, fs) s'"
proof -
  let ?i = "fl_provider (fs ! k)"
  have i: "?i < length L" "length (po_providers p) = length L"
    using assms(1,3) by (auto simp: pool_balanced_def balanced_def)
  have "tally (via ?i running) fs = 0"
  proof (rule none_tally)
    fix j assume "j < length fs"
    then show "\<not> via ?i running (fs ! j)" using assms(5) by (cases "fl_phase (fs ! j)") (auto simp: via_def)
  qed
  moreover have "settled ?i fs (L ! ?i) (acct (po_providers p ! ?i))"
    using assms(1) i by (simp add: pool_balanced_def balanced_def)
  ultimately have "0 < ro_available (po_providers p ! ?i)"
    using assms(2) i(1) by (simp add: settled_def acct_def)
  from TakeProvider [OF assms(3,4) refl this] show ?thesis
    by (rule serving_stepI) (use assms(3,4) in simp_all)
qed

lemma global_wait_served:
  assumes "pool_balanced L G (p, fs)" "G \<noteq> Some 0" "po_global p \<noteq> None"
    and "k < length fs" "fl_phase (fs ! k) = AwaitGlobal" "\<And>j. j < length fs \<Longrightarrow> \<not> admitted (fl_phase (fs ! j))"
  shows "\<exists>s'. serving_step disp cost (p, fs) s'"
proof -
  have "tally (admitted \<circ> fl_phase) fs = 0" using assms(6) by (intro none_tally) simp
  then obtain g where "po_global p = Some (Suc g)"
    using assms(1-3) by (cases G) (auto simp: pool_balanced_def balanced_def gr0_conv_Suc)
  from TakeGlobal [OF assms(4,5) this] show ?thesis
    by (rule serving_stepI) (use assms(4,5) in simp_all)
qed

text \<open>Requests wait for the pool only when it has a limit; the configuration stays.\<close>

definition configured :: "nat option \<Rightarrow> pool_retry \<Rightarrow> pool \<times> flight list \<Rightarrow> bool" where
  "configured G cfg = (\<lambda>(p, fs). po_retry p = cfg \<and> (po_global p = None \<longrightarrow> (\<forall>f \<in> set fs. fl_phase f \<noteq> AwaitGlobal)))"

lemma phase_of_set: "f \<in> set (set_phase k ph fs) \<Longrightarrow> f \<in> set fs \<or> fl_phase f = ph"
  using set_update_subset_insert [of fs k "(fs ! k)\<lparr>fl_phase := ph\<rparr>"] by (auto simp: set_phase_def)

lemma configured_step:
  assumes "pool_step disp cost s s'" "configured G cfg s"
  shows "configured G cfg s'"
  using assms
  by (induction rule: pool_step.induct)
    (auto simp: configured_def begin_flight_def give_back_def release_global_def dest!: phase_of_set split: option.splits sum.splits)

lemma configured_reachable:
  assumes "(pool_step disp cost)\<^sup>*\<^sup>* (pool_new providers base mx strategy global retry, []) s"
  shows "configured global retry s"
  using assms
proof (induction rule: rtranclp_induct)
  case base
  show ?case by (simp add: configured_def pool_new_def)
qed (rule configured_step)

text \<open>One step, then all of them.\<close>

lemma some_step:
  assumes bal: "pool_balanced L G (p, fs)" "\<forall>l \<in> set L. 0 < l" "G \<noteq> Some 0"
    and cfg: "configured G cfg (p, fs)" "0 < pr_total_retry_timeout_ms cfg" and left: "\<not> list_all over fs"
  shows "\<exists>s'. serving_step disp cost (p, fs) s'"
proof -
  obtain k where k: "k < length fs" "\<not> over (fs ! k)" using left by (auto simp: list_all_length)
  have retry: "0 < pr_total_retry_timeout_ms (po_retry p)" using cfg by (simp add: configured_def)
  consider (run) j where "j < length fs" "fl_phase (fs ! j) = Running"
    | (stream) j st where "j < length fs" "fl_phase (fs ! j) = Streaming st"
    | (provider) j where "j < length fs" "fl_phase (fs ! j) = AwaitProvider" "\<And>j. j < length fs \<Longrightarrow> fl_phase (fs ! j) \<noteq> Running"
    | (pool) "fl_phase (fs ! k) = AwaitGlobal" "\<And>j. j < length fs \<Longrightarrow> \<not> admitted (fl_phase (fs ! j))"
  proof (cases "\<exists>j < length fs. admitted (fl_phase (fs ! j))")
    case True
    then obtain j where j: "j < length fs" "admitted (fl_phase (fs ! j))" by blast
    then show ?thesis using run provider by (cases "fl_phase (fs ! j)") auto
  next
    case False
    then show ?thesis using k stream pool by (cases "fl_phase (fs ! k)") (auto simp: over_def)
  qed
  then show ?thesis
  proof cases
    case run
    then show ?thesis using running_served retry by blast
  next
    case stream
    then show ?thesis by (rule streaming_served)
  next
    case provider
    show ?thesis by (rule provider_wait_served [OF bal(1,2) provider])
  next
    case pool
    then have "po_global p \<noteq> None" using cfg(1) k(1) by (fastforce simp: configured_def)
    from global_wait_served [OF bal(1,3) this k(1) pool] show ?thesis .
  qed
qed

lemma serving_step_less: "serving_step disp cost s s' \<Longrightarrow> work_left (snd s') < work_left (snd s)"
  unfolding serving_step_def using work_left_set_phase advances_less by metis

lemma all_served:
  assumes "pool_balanced L G s" "\<forall>l \<in> set L. 0 < l" "G \<noteq> Some 0"
    and "configured G cfg s" "0 < pr_total_retry_timeout_ms cfg"
  shows "\<exists>s'. (serving_step disp cost)\<^sup>*\<^sup>* s s' \<and> list_all over (snd s')"
  using assms(1,4)
proof (induction "work_left (snd s)" arbitrary: s rule: less_induct)
  case less
  show ?case
  proof (cases "list_all over (snd s)")
    case False
    then obtain s1 where step: "serving_step disp cost s s1"
      using some_step [OF _ assms(2,3) _ assms(5)] less.prems by (metis prod.collapse)
    then have "pool_step disp cost s s1" by (simp add: serving_step_def)
    then have "pool_balanced L G s1" "configured G cfg s1"
      using balanced_step less.prems(1) configured_step less.prems(2) by blast+
    from less.hyps [OF serving_step_less [OF step] this] obtain s' where
      "(serving_step disp cost)\<^sup>*\<^sup>* s1 s'" "list_all over (snd s')" by blast
    with step show ?thesis by (meson converse_rtranclp_into_rtranclp)
  qed blast
qed

text \<open>C22: When every provider runs at least one request, the pool admits at least one and the
  time for retries is positive, then from every state of the pool that any interleaving of
  requests, answers, failures, freezes and dropped futures reaches, steps that drop no request lead
  to a state where every request is over: no permit is lost in a way that would block one.\<close>

theorem every_request_can_be_served:
  assumes "(pool_step disp cost)\<^sup>*\<^sup>* (pool_new providers base mx strategy global retry, []) s"
    and "\<forall>(m, d) \<in> set providers. 0 < pm_max_concurrency m" "global \<noteq> Some 0" "0 < pr_total_retry_timeout_ms retry"
  shows "\<exists>s'. (serving_step disp cost)\<^sup>*\<^sup>* s s' \<and> list_all over (snd s')"
proof -
  have "\<forall>l \<in> set (map (pm_max_concurrency \<circ> fst) providers). 0 < l" using assms(2) by auto
  from all_served [OF balanced_reachable [OF assms(1)] this assms(3) configured_reachable [OF assms(1)] assms(4)]
  show ?thesis .
qed

text \<open>After a request was dropped while it ran and another one submitted.\<close>

lemma every_request_can_be_served_witness:
  "\<exists>p fs s'. (pool_step (\<lambda>_. []) (\<lambda>_ _ _ _. 0))\<^sup>*\<^sup>* (one_provider, []) (p, fs) \<and> fs \<noteq> []
     \<and> (serving_step (\<lambda>_. []) (\<lambda>_ _ _ _. 0))\<^sup>*\<^sup>* (p, fs) s' \<and> list_all over (snd s')"
proof -
  let ?f = "[begin_flight 0 False one_provider]"
  have r: "(pool_step (\<lambda>_. []) (\<lambda>_ _ _ _. 0))\<^sup>*\<^sup>* (one_provider, []) (one_provider, ?f)"
    using Submit [OF sample_select, of "\<lambda>_. []" "\<lambda>_ _ _ _. 0" "[]" False] by auto
  have "0 < pr_total_retry_timeout_ms default_pool_retry" by (simp add: default_pool_retry_def)
  then show ?thesis
    using every_request_can_be_served [OF r [unfolded one_provider_def]] r
    by (fastforce simp: one_provider_def sample_meta_def)
qed

end
