(* ===== verification/FileHistory.thy ===== *)
theory FileHistory
  imports Prelude "HOL-Library.Word"
begin

unbundle bit_operations_syntax

text \<open>
  The file history of a session (\<open>y-journal/src/file_history.rs\<close>): backups before edits,
  snapshots at the messages of the user, and rewinding to a snapshot.

  The disk has the user's files, the files of the backup directory and the sidecar with the saved
  state.  Each call that copies, removes or writes a file takes the next of a list of failures.
  Hash maps and hash sets are lists, in the order they are iterated in.
\<close>

section \<open>Disk\<close>

type_synonym content = "8 word list"

datatype journal_error =
  JeCaptureFailed string string
| JeConflict string string string
| JeEntryNotFound nat
| JeScopeNotFound string
| JeInvalidScopeState string string string
| JeStorageError string
| JeOther string

record file_backup =
  fb_backup_file_name :: "string option"
  fb_version :: nat
  fb_backup_time :: int

record history_snapshot =
  hs_message_id :: string
  hs_file_backups :: "(string \<times> file_backup) list"
  hs_timestamp :: int

record file_history =
  fh_snapshots :: "history_snapshot list"
  fh_tracked_files :: "string list"
  fh_file_versions :: "string \<Rightarrow> nat option"

datatype sidecar = SidecarMissing | SidecarUnreadable | SidecarState file_history

record disk =
  dk_files :: "string \<Rightarrow> content option"
  dk_backups :: "string \<Rightarrow> content option"
  dk_sidecar :: sidecar
  dk_now :: int
  dk_faults :: "string option list"

definition next_fault :: "disk \<Rightarrow> string option \<times> disk" where
  "next_fault d = (case dk_faults d of [] \<Rightarrow> (None, d) | f # fs \<Rightarrow> (f, d\<lparr>dk_faults := fs\<rparr>))"

text \<open>\<open>std::fs::copy\<close> from a file to the backup directory and back, and \<open>remove_file\<close>.\<close>

definition not_found :: string where
  "not_found = ''No such file or directory (os error 2)''"

definition copy_to_backup :: "string \<Rightarrow> string \<Rightarrow> disk \<Rightarrow> (string + unit) \<times> disk" where
  "copy_to_backup path name d = (case next_fault d of
      (Some e, d') \<Rightarrow> (Inl e, d')
    | (None, d') \<Rightarrow> (case dk_files d' path of
          None \<Rightarrow> (Inl not_found, d')
        | Some c \<Rightarrow> (Inr (), d'\<lparr>dk_backups := (dk_backups d')(name := Some c)\<rparr>)))"

definition copy_from_backup :: "string \<Rightarrow> string \<Rightarrow> disk \<Rightarrow> (string + unit) \<times> disk" where
  "copy_from_backup name path d = (case next_fault d of
      (Some e, d') \<Rightarrow> (Inl e, d')
    | (None, d') \<Rightarrow> (case dk_backups d' name of
          None \<Rightarrow> (Inl not_found, d')
        | Some c \<Rightarrow> (Inr (), d'\<lparr>dk_files := (dk_files d')(path := Some c)\<rparr>)))"

definition remove_user_file :: "string \<Rightarrow> disk \<Rightarrow> (string + unit) \<times> disk" where
  "remove_user_file path d = (case next_fault d of
      (Some e, d') \<Rightarrow> (Inl e, d')
    | (None, d') \<Rightarrow> (if dk_files d' path = None then (Inl not_found, d')
        else (Inr (), d'\<lparr>dk_files := (dk_files d')(path := None)\<rparr>)))"

definition remove_backup :: "string \<Rightarrow> disk \<Rightarrow> disk" where
  "remove_backup name d = (case next_fault d of
      (Some e, d') \<Rightarrow> d' | (None, d') \<Rightarrow> d'\<lparr>dk_backups := (dk_backups d')(name := None)\<rparr>)"

section \<open>State on disk\<close>

text \<open>Creating the sidecar may fail, which leaves the old one, and so may writing it.\<close>

definition save_state :: "file_history \<Rightarrow> disk \<Rightarrow> disk" where
  "save_state h d = (case next_fault d of
      (Some e, d') \<Rightarrow> d'
    | (None, d') \<Rightarrow> (case next_fault d' of
          (Some e, d'') \<Rightarrow> d''\<lparr>dk_sidecar := SidecarUnreadable\<rparr>
        | (None, d'') \<Rightarrow> d''\<lparr>dk_sidecar := SidecarState h\<rparr>))"

definition empty_history :: file_history where
  "empty_history = \<lparr>fh_snapshots = [], fh_tracked_files = [], fh_file_versions = (\<lambda>_. None)\<rparr>"

definition load_state :: "disk \<Rightarrow> file_history \<times> disk" where
  "load_state d = (case dk_sidecar d of
      SidecarMissing \<Rightarrow> (empty_history, d)
    | SidecarUnreadable \<Rightarrow> (case next_fault d of (_, d') \<Rightarrow> (empty_history, d'))
    | SidecarState h \<Rightarrow> (case next_fault d of (Some e, d') \<Rightarrow> (empty_history, d') | (None, d') \<Rightarrow> (h, d')))"

definition history_new :: "disk \<Rightarrow> (journal_error + file_history) \<times> disk" where
  "history_new d = (case next_fault d of
      (Some e, d') \<Rightarrow> (Inl (JeCaptureFailed ''file-history'' (''failed to create backup directory: '' @ e)), d')
    | (None, d') \<Rightarrow> (case load_state d' of (h, d'') \<Rightarrow> (Inr h, d'')))"

section \<open>Names of backups\<close>

definition fnv_step :: "64 word \<Rightarrow> char \<Rightarrow> 64 word" where
  "fnv_step h c = (h XOR of_nat (of_char c)) * 0x100000001b3"

definition hex_char :: "nat \<Rightarrow> char" where
  "hex_char n = (if n < 10 then char_of (48 + n) else char_of (87 + n))"

text \<open>\<open>{:016x}\<close>.\<close>

fun hex_digits :: "nat \<Rightarrow> nat \<Rightarrow> string" where
  "hex_digits 0 n = []"
| "hex_digits (Suc k) n = hex_digits k (n div 16) @ [hex_char (n mod 16)]"

definition path_hash :: "string \<Rightarrow> string" where
  "path_hash path = hex_digits 16 (unat (foldl fnv_step 0xcbf29ce484222325 path))"

definition backup_name :: "string \<Rightarrow> nat \<Rightarrow> string" where
  "backup_name path version = path_hash path @ ''@v'' @ show_nat version"

definition next_version :: "string \<Rightarrow> file_history \<Rightarrow> nat \<times> file_history" where
  "next_version path h =
     (let v = (case fh_file_versions h path of Some n \<Rightarrow> n | None \<Rightarrow> 0) + 1
      in (v, h\<lparr>fh_file_versions := (fh_file_versions h)(path \<mapsto> v)\<rparr>))"

section \<open>Edits\<close>

definition max_backup_file_size :: nat where
  "max_backup_file_size = 10 * 1024 * 1024"

definition max_snapshots_per_session :: nat where
  "max_snapshots_per_session = 100"

definition track :: "string \<Rightarrow> file_history \<Rightarrow> file_history" where
  "track path h = h\<lparr>fh_tracked_files := List.insert path (fh_tracked_files h)\<rparr>"

definition add_backup :: "string \<Rightarrow> file_backup \<Rightarrow> history_snapshot \<Rightarrow> history_snapshot" where
  "add_backup path b s = s\<lparr>hs_file_backups := hs_file_backups s @ [(path, b)]\<rparr>"

definition attach_to_latest_snapshot ::
  "string \<Rightarrow> string option \<Rightarrow> nat \<Rightarrow> file_history \<Rightarrow> disk \<Rightarrow> file_history \<times> disk" where
  "attach_to_latest_snapshot path name version h d =
     (if fh_snapshots h = [] then (h, d)
      else let s = last (fh_snapshots h) in
        if path \<in> fst ` set (hs_file_backups s) then (h, d)
        else let b = \<lparr>fb_backup_file_name = name, fb_version = version, fb_backup_time = dk_now d\<rparr>;
                 h' = h\<lparr>fh_snapshots := butlast (fh_snapshots h) @ [add_backup path b s]\<rparr>
             in (h', save_state h' d))"

definition track_edit :: "string \<Rightarrow> file_history \<Rightarrow> disk \<Rightarrow> (journal_error + bool) \<times> file_history \<times> disk" where
  "track_edit path h d = (case dk_files d path of
      None \<Rightarrow> (case attach_to_latest_snapshot path None 0 (track path h) d of (h', d') \<Rightarrow> (Inr False, h', d'))
    | Some c \<Rightarrow> (case next_fault d of
        (Some e, d1) \<Rightarrow> (Inl (JeCaptureFailed path e), h, d1)
      | (None, d1) \<Rightarrow>
          if max_backup_file_size < length c
          then (Inl (JeCaptureFailed path (''file size '' @ show_nat (length c) @ '' exceeds rewind backup limit '' @
                  show_nat max_backup_file_size)), h, d1)
          else (case next_version path h of (version, h1) \<Rightarrow>
            (case copy_to_backup path (backup_name path version) d1 of
               (Inl e, d2) \<Rightarrow> (Inl (JeCaptureFailed path (''failed to create backup: '' @ e)), h1, d2)
             | (Inr _, d2) \<Rightarrow>
                 (case attach_to_latest_snapshot path (Some (backup_name path version)) version (track path h1) d2 of
                    (h2, d3) \<Rightarrow> (Inr True, h2, d3))))))"

section \<open>Snapshots\<close>

definition no_backup :: "disk \<Rightarrow> file_backup" where
  "no_backup d = \<lparr>fb_backup_file_name = None, fb_version = 0, fb_backup_time = dk_now d\<rparr>"

text \<open>A copy that fails is recorded like a file that does not exist.\<close>

fun backup_tracked :: "string list \<Rightarrow> file_history \<Rightarrow> disk \<Rightarrow> (string \<times> file_backup) list \<times> file_history \<times> disk" where
  "backup_tracked [] h d = ([], h, d)"
| "backup_tracked (p # ps) h d =
     (if dk_files d p = None
      then (case backup_tracked ps h d of (bs, h', d') \<Rightarrow> ((p, no_backup d) # bs, h', d'))
      else (case next_version p h of (version, h1) \<Rightarrow> case copy_to_backup p (backup_name p version) d of
          (Inl e, d1) \<Rightarrow> (case backup_tracked ps h1 d1 of (bs, h', d') \<Rightarrow> ((p, no_backup d) # bs, h', d'))
        | (Inr _, d1) \<Rightarrow> (case backup_tracked ps h1 d1 of (bs, h', d') \<Rightarrow>
            ((p, \<lparr>fb_backup_file_name = Some (backup_name p version), fb_version = version,
                  fb_backup_time = dk_now d\<rparr>) # bs, h', d'))))"

definition backup_names :: "history_snapshot \<Rightarrow> string list" where
  "backup_names s = List.map_filter (\<lambda>b. fb_backup_file_name (snd b)) (hs_file_backups s)"

definition remove_snapshot_backups :: "history_snapshot list \<Rightarrow> history_snapshot \<Rightarrow> disk \<Rightarrow> disk" where
  "remove_snapshot_backups live evicted d =
     foldl (\<lambda>d n. if n \<in> set (concat (map backup_names live)) then d else remove_backup n d) d (backup_names evicted)"

fun evict :: "nat \<Rightarrow> history_snapshot list \<Rightarrow> disk \<Rightarrow> history_snapshot list \<times> disk" where
  "evict cap [] d = ([], d)"
| "evict cap (s # ss) d =
     (if cap < length (s # ss) then evict cap ss (remove_snapshot_backups ss s d) else (s # ss, d))"

definition make_snapshot :: "string \<Rightarrow> file_history \<Rightarrow> disk \<Rightarrow> file_history \<times> disk" where
  "make_snapshot m h d = (case backup_tracked (fh_tracked_files h) h d of (bs, h1, d1) \<Rightarrow>
     (let s = \<lparr>hs_message_id = m, hs_file_backups = bs, hs_timestamp = dk_now d1\<rparr>
      in case evict max_snapshots_per_session (fh_snapshots h1 @ [s]) d1 of (ss, d2) \<Rightarrow>
           (let h2 = h1\<lparr>fh_snapshots := ss\<rparr> in (h2, save_state h2 d2))))"

definition retain_snapshots :: "string list \<Rightarrow> file_history \<Rightarrow> disk \<Rightarrow> file_history \<times> disk" where
  "retain_snapshots ids h d =
     (let h' = h\<lparr>fh_snapshots := filter (\<lambda>s. hs_message_id s \<in> set ids) (fh_snapshots h)\<rparr>
      in (h', if length (fh_snapshots h') \<noteq> length (fh_snapshots h) then save_state h' d else d))"

section \<open>Rewinding\<close>

record rewind_report =
  rr_restored :: "string list"
  rr_deleted :: "string list"
  rr_conflicts :: "(string \<times> string) list"

definition add_restored :: "string \<Rightarrow> rewind_report \<Rightarrow> rewind_report" where
  "add_restored p r = r\<lparr>rr_restored := rr_restored r @ [p]\<rparr>"

definition add_deleted :: "string \<Rightarrow> rewind_report \<Rightarrow> rewind_report" where
  "add_deleted p r = r\<lparr>rr_deleted := rr_deleted r @ [p]\<rparr>"

definition add_conflict :: "string \<Rightarrow> string \<Rightarrow> rewind_report \<Rightarrow> rewind_report" where
  "add_conflict p reason r = r\<lparr>rr_conflicts := rr_conflicts r @ [(p, reason)]\<rparr>"

text \<open>Deleting a file that exists; \<open>what\<close> is the beginning of the message on failure.\<close>

definition delete_existing :: "string \<Rightarrow> string \<Rightarrow> rewind_report \<times> disk \<Rightarrow> rewind_report \<times> disk" where
  "delete_existing what p = (\<lambda>(r, d).
     if dk_files d p = None then (r, d)
     else case remove_user_file p d of
        (Inr _, d') \<Rightarrow> (add_deleted p r, d')
      | (Inl e, d') \<Rightarrow> (add_conflict p (what @ e) r, d'))"

definition restore_entry :: "string \<times> string option \<Rightarrow> rewind_report \<times> disk \<Rightarrow> rewind_report \<times> disk" where
  "restore_entry entry = (\<lambda>(r, d). case entry of
      (p, Some name) \<Rightarrow>
        if dk_backups d name = None then (add_conflict p (''backup file '' @ [CHR 0x27] @ name @ [CHR 0x27] @ '' not found'') r, d)
        else (case copy_from_backup name p d of
            (Inr _, d') \<Rightarrow> (add_restored p r, d')
          | (Inl e, d') \<Rightarrow> (add_conflict p (''failed to restore: '' @ e) r, d'))
    | (p, None) \<Rightarrow> delete_existing ''failed to delete: '' p (r, d))"

fun snapshot_index :: "string \<Rightarrow> history_snapshot list \<Rightarrow> nat option" where
  "snapshot_index m [] = None"
| "snapshot_index m (s # ss) = (if hs_message_id s = m then Some 0 else map_option Suc (snapshot_index m ss))"

definition snapshot_paths :: "history_snapshot \<Rightarrow> string list" where
  "snapshot_paths s = map fst (hs_file_backups s)"

definition files_after :: "nat \<Rightarrow> history_snapshot list \<Rightarrow> string list" where
  "files_after k ss = filter (\<lambda>p. p \<notin> set (snapshot_paths (ss ! k)))
     (remdups (concat (map snapshot_paths (drop (k + 1) ss))))"

definition rewind_to :: "string \<Rightarrow> file_history \<Rightarrow> disk \<Rightarrow> (journal_error + rewind_report) \<times> file_history \<times> disk" where
  "rewind_to m h d = (case snapshot_index m (fh_snapshots h) of
      None \<Rightarrow> (Inl (JeScopeNotFound (''snapshot:'' @ m)), h, d)
    | Some k \<Rightarrow>
        (let entries = map (\<lambda>(p, b). (p, fb_backup_file_name b)) (hs_file_backups (fh_snapshots h ! k));
             later = files_after k (fh_snapshots h);
             h' = h\<lparr>fh_snapshots := take (k + 1) (fh_snapshots h)\<rparr>;
             st = fold restore_entry entries (\<lparr>rr_restored = [], rr_deleted = [], rr_conflicts = []\<rparr>, save_state h' d);
             (r, d') = fold (delete_existing ''failed to delete created file: '') later st
         in (Inr r, h', d')))"

section \<open>Statistics\<close>

record diff_stats =
  ds_files_changed :: nat
  ds_files_created :: nat
  ds_files_deleted :: nat

definition diff_of :: "string list \<Rightarrow> string list \<Rightarrow> diff_stats" where
  "diff_of at_snapshot later = \<lparr>ds_files_changed = length (filter (\<lambda>p. p \<in> set at_snapshot) later),
     ds_files_created = length (filter (\<lambda>p. p \<notin> set at_snapshot) later), ds_files_deleted = 0\<rparr>"

definition diff_stats_for :: "string \<Rightarrow> file_history \<Rightarrow> diff_stats option" where
  "diff_stats_for m h = (case snapshot_index m (fh_snapshots h) of
      None \<Rightarrow> None
    | Some k \<Rightarrow> Some (diff_of (snapshot_paths (fh_snapshots h ! k))
        (remdups (concat (map snapshot_paths (drop (k + 1) (fh_snapshots h)))))))"

text \<open>The single pass from the back, accumulating the paths of the later snapshots.\<close>

fun batch_pass :: "history_snapshot list \<Rightarrow> string list \<Rightarrow> (string \<times> diff_stats) list \<Rightarrow> (string \<times> diff_stats) list" where
  "batch_pass [] later done_list = done_list"
| "batch_pass (s # rest) later done_list =
     batch_pass rest (remdups (later @ snapshot_paths s))
       ((hs_message_id s, diff_of (snapshot_paths s) later) # done_list)"

definition diff_stats_batch :: "file_history \<Rightarrow> (string \<times> diff_stats) list" where
  "diff_stats_batch h = batch_pass (rev (fh_snapshots h)) [] []"

definition has_changes_since :: "string \<Rightarrow> file_history \<Rightarrow> bool" where
  "has_changes_since m h = (case diff_stats_for m h of
      None \<Rightarrow> False | Some s \<Rightarrow> 0 < ds_files_changed s \<or> 0 < ds_files_created s)"

end
