(* ===== verification/FileHistoryCorrect.thy ===== *)
theory FileHistoryCorrect
  imports FileHistory
begin

text \<open>
  What a rewind restores, over any edits, snapshots and restarts after the target snapshot.
\<close>

section \<open>Backup names\<close>

definition read_digits :: "string \<Rightarrow> nat" where
  "read_digits s = foldl (\<lambda>a c. 10 * a + (of_char c - 48)) 0 s"

lemma read_show_nat: "read_digits (show_nat n) = n"
proof (induction n rule: show_nat.induct)
  case (1 n)
  have digit: "(of_char (char_of (48 + k :: nat)) :: nat) - 48 = k" if "k < 10" for k
    using that by (simp add: of_char_of take_bit_eq_mod)
  show ?case using 1 digit [of n] digit [of "n mod 10"]
    by (subst show_nat.simps) (auto simp: read_digits_def)
qed

lemma show_nat_inj: "show_nat m = show_nat n \<longleftrightarrow> m = n"
  by (metis read_show_nat)

lemma length_hex_digits [simp]: "length (hex_digits k n) = k"
  by (induction k arbitrary: n) auto

lemma length_path_hash [simp]: "length (path_hash p) = 16"
  by (simp add: path_hash_def)

lemma backup_name_eq: "backup_name p v = backup_name q u \<longleftrightarrow> path_hash p = path_hash q \<and> v = u"
  by (auto simp: backup_name_def append_eq_append_conv show_nat_inj)

section \<open>A disk without failures\<close>

lemma no_fault [simp]: "dk_faults d = [] \<Longrightarrow> next_fault d = (None, d)"
  by (simp add: next_fault_def)

lemma save_calm [simp]: "dk_faults d = [] \<Longrightarrow> save_state h d = d\<lparr>dk_sidecar := SidecarState h\<rparr>"
  by (simp add: save_state_def)

lemma copy_calm [simp]:
  "dk_faults d = [] \<Longrightarrow> dk_files d p = Some c \<Longrightarrow>
   copy_to_backup p n d = (Inr (), d\<lparr>dk_backups := (dk_backups d)(n := Some c)\<rparr>)"
  by (simp add: copy_to_backup_def)

definition ver :: "file_history \<Rightarrow> string \<Rightarrow> nat" where
  "ver h p = (case fh_file_versions h p of Some n \<Rightarrow> n | None \<Rightarrow> 0)"

lemma next_version_eq: "next_version p h = (ver h p + 1, h\<lparr>fh_file_versions := (fh_file_versions h)(p \<mapsto> ver h p + 1)\<rparr>)"
  by (simp add: next_version_def ver_def Let_def)

lemma ver_simps [simp]:
  "ver (h\<lparr>fh_snapshots := ss\<rparr>) p = ver h p" "ver (h\<lparr>fh_tracked_files := ts\<rparr>) p = ver h p"
  "ver (h\<lparr>fh_file_versions := (fh_file_versions h)(q \<mapsto> v)\<rparr>) p = (if p = q then v else ver h p)"
  by (simp_all add: ver_def)

text \<open>Snapshotting the tracked files.\<close>

definition captured :: "(string \<Rightarrow> content option) \<Rightarrow> disk \<Rightarrow> string \<times> file_backup \<Rightarrow> bool" where
  "captured fs d = (\<lambda>(p, b). case fb_backup_file_name b of
      None \<Rightarrow> fs p = None | Some n \<Rightarrow> fs p \<noteq> None \<and> dk_backups d n = fs p)"

lemma captured_rest [simp]:
  "captured fs (d\<lparr>dk_sidecar := x\<rparr>) = captured fs d" "captured fs (d\<lparr>dk_files := y\<rparr>) = captured fs d"
  by (auto simp: captured_def fun_eq_iff split: option.split)

definition named :: "file_history \<Rightarrow> string \<times> file_backup \<Rightarrow> bool" where
  "named h = (\<lambda>(p, b). \<forall>n. fb_backup_file_name b = Some n \<longrightarrow> (\<exists>v \<le> ver h p. n = backup_name p v))"

lemma named_mono: "named h e \<Longrightarrow> (\<And>p. ver h p \<le> ver h' p) \<Longrightarrow> named h' e"
  by (cases e) (simp add: named_def, meson order_trans)

definition fresh_names :: "string set \<Rightarrow> file_history \<Rightarrow> disk \<Rightarrow> disk \<Rightarrow> bool" where
  "fresh_names U h d d' = (\<forall>p \<in> U. \<forall>v \<le> ver h p. dk_backups d' (backup_name p v) = dk_backups d (backup_name p v))"

lemma captured_keep:
  assumes "captured fs d e" "named h e" "fresh_names U h d d'" "fst e \<in> U"
  shows "captured fs d' e"
  using assms by (auto simp: captured_def named_def fresh_names_def split: option.splits)

lemma fresh_names_trans:
  assumes "fresh_names U h d d'" "fresh_names U h' d' d''" "\<And>p. ver h p \<le> ver h' p"
  shows "fresh_names U h d d''"
  unfolding fresh_names_def
proof (intro ballI allI impI)
  fix p v assume p: "p \<in> U" "v \<le> ver h p"
  then have "v \<le> ver h' p" using assms(3) [of p] by simp
  then show "dk_backups d'' (backup_name p v) = dk_backups d (backup_name p v)"
    using assms(1,2) p by (simp add: fresh_names_def)
qed

lemma fresh_backup:
  assumes "inj_on path_hash U" "p \<in> U"
  shows "fresh_names U h d (d\<lparr>dk_backups := (dk_backups d)(backup_name p (ver h p + 1) := c)\<rparr>)"
  using assms by (auto simp: fresh_names_def backup_name_eq inj_on_eq_iff)

lemma backup_tracked_calm:
  assumes "inj_on path_hash U" "dk_faults d = []" "distinct ps" "set ps \<subseteq> U"
  shows "\<exists>bs h' d'. backup_tracked ps h d = (bs, h', d') \<and> map fst bs = ps
    \<and> (\<forall>e \<in> set bs. captured (dk_files d) d' e \<and> named h' e) \<and> fresh_names U h d d'
    \<and> (\<forall>p. ver h p \<le> ver h' p) \<and> (\<forall>p. p \<notin> set ps \<longrightarrow> ver h' p = ver h p)
    \<and> fh_snapshots h' = fh_snapshots h \<and> fh_tracked_files h' = fh_tracked_files h
    \<and> dk_files d' = dk_files d \<and> dk_faults d' = [] \<and> dk_sidecar d' = dk_sidecar d"
  using assms(2-4)
proof (induction ps arbitrary: h d)
  case Nil
  then show ?case by (simp add: fresh_names_def)
next
  case (Cons p ps)
  show ?case
  proof (cases "dk_files d p")
    case None
    obtain bs h' d' where ih: "backup_tracked ps h d = (bs, h', d')" "map fst bs = ps"
      "\<forall>e \<in> set bs. captured (dk_files d) d' e \<and> named h' e" "fresh_names U h d d'" "\<forall>p. ver h p \<le> ver h' p"
      "\<forall>p. p \<notin> set ps \<longrightarrow> ver h' p = ver h p" "fh_snapshots h' = fh_snapshots h" "fh_tracked_files h' = fh_tracked_files h"
      "dk_files d' = dk_files d" "dk_faults d' = []" "dk_sidecar d' = dk_sidecar d"
      using Cons.IH [of d h] Cons.prems by auto
    with None show ?thesis
      by (intro exI [of _ "(p, no_backup d) # bs"] exI [of _ h'] exI [of _ d'])
        (auto simp: captured_def named_def no_backup_def)
  next
    case (Some c)
    let ?v = "ver h p + 1" and ?h1 = "snd (next_version p h)"
    let ?d1 = "d\<lparr>dk_backups := (dk_backups d)(backup_name p ?v := Some c)\<rparr>"
    obtain bs h' d' where ih: "backup_tracked ps ?h1 ?d1 = (bs, h', d')" "map fst bs = ps"
      "\<forall>e \<in> set bs. captured (dk_files ?d1) d' e \<and> named h' e" "fresh_names U ?h1 ?d1 d'" "\<forall>p. ver ?h1 p \<le> ver h' p"
      "\<forall>p. p \<notin> set ps \<longrightarrow> ver h' p = ver ?h1 p" "fh_snapshots h' = fh_snapshots ?h1"
      "fh_tracked_files h' = fh_tracked_files ?h1" "dk_files d' = dk_files ?d1" "dk_faults d' = []"
      "dk_sidecar d' = dk_sidecar ?d1"
      using Cons.IH [of ?d1 ?h1] Cons.prems by auto
    let ?b = "\<lparr>fb_backup_file_name = Some (backup_name p ?v), fb_version = ?v, fb_backup_time = dk_now d\<rparr>"
    have run: "backup_tracked (p # ps) h d = ((p, ?b) # bs, h', d')"
      using Some Cons.prems(1) ih(1) by (simp add: next_version_eq)
    have less: "ver h q \<le> ver ?h1 q" for q by (simp add: next_version_eq)
    have "dk_backups d' (backup_name p ?v) = Some c"
      using ih(4) Cons.prems(3) by (auto simp: fresh_names_def next_version_eq)
    then have "captured (dk_files d) d' (p, ?b)" using Some by (simp add: captured_def)
    moreover have "named h' (p, ?b)"
    proof -
      have "?v \<le> ver h' p" using ih(5) [rule_format, of p] by (simp add: next_version_eq)
      then show ?thesis by (auto simp: named_def)
    qed
    moreover have "fresh_names U h d d'"
      using fresh_names_trans [OF fresh_backup [OF assms(1), of p h d "Some c"] ih(4) less] Cons.prems(3) by simp
    moreover have "ver h q \<le> ver h' q" for q using less [of q] ih(5) by (meson order_trans)
    ultimately show ?thesis using run ih Cons.prems(2)
      by (intro exI [of _ "(p, ?b) # bs"] exI [of _ h'] exI [of _ d']) (auto simp: next_version_eq)
  qed
qed

section \<open>Following a snapshot\<close>

datatype history_op = HEdit string "content option" | HSnapshot string | HRestart

text \<open>A tool edits a file after it was tracked; it does not run when tracking fails.\<close>

definition perform_edit :: "string \<Rightarrow> content option \<Rightarrow> file_history \<times> disk \<Rightarrow> file_history \<times> disk" where
  "perform_edit p c = (\<lambda>(h, d). case track_edit p h d of
      (Inl e, h', d') \<Rightarrow> (h', d')
    | (Inr _, h', d') \<Rightarrow> (h', d'\<lparr>dk_files := (dk_files d')(p := c)\<rparr>))"

fun perform_op :: "history_op \<Rightarrow> file_history \<times> disk \<Rightarrow> file_history \<times> disk" where
  "perform_op (HEdit p c) st = perform_edit p c st"
| "perform_op (HSnapshot m) (h, d) = make_snapshot m h d"
| "perform_op HRestart (h, d) = (case history_new d of (Inr h', d') \<Rightarrow> (h', d') | (Inl e, d') \<Rightarrow> (h, d'))"

definition history_run :: "history_op list \<Rightarrow> file_history \<times> disk \<Rightarrow> file_history \<times> disk" where
  "history_run ops st = foldl (\<lambda>st x. perform_op x st) st ops"

definition small :: "content option \<Rightarrow> bool" where
  "small c = (\<forall>b. c = Some b \<longrightarrow> length b \<le> max_backup_file_size)"

definition keys_at :: "nat \<Rightarrow> history_snapshot list \<Rightarrow> string set" where
  "keys_at k ss = set (snapshot_paths (ss ! k))"

definition keys_after :: "nat \<Rightarrow> history_snapshot list \<Rightarrow> string set" where
  "keys_after k ss = set (concat (map snapshot_paths (drop (k + 1) ss)))"

definition coherent :: "string set \<Rightarrow> file_history \<Rightarrow> bool" where
  "coherent U h = (distinct (fh_tracked_files h) \<and> set (fh_tracked_files h) \<subseteq> U \<and>
     (\<forall>s \<in> set (fh_snapshots h). set (snapshot_paths s) \<subseteq> set (fh_tracked_files h) \<and>
        (\<forall>e \<in> set (hs_file_backups s). named h e)))"

text \<open>The snapshot at \<open>k\<close> holds the files \<open>fs\<close>, in memory and on disk.\<close>

definition follows :: "string set \<Rightarrow> string \<Rightarrow> (string \<Rightarrow> content option) \<Rightarrow> nat \<Rightarrow> file_history \<times> disk \<Rightarrow> bool" where
  "follows U m fs k = (\<lambda>(h, d). coherent U h \<and> dk_faults d = [] \<and> (\<forall>p. small (dk_files d p))
     \<and> k < length (fh_snapshots h) \<and> snapshot_index m (fh_snapshots h) = Some k
     \<and> distinct (snapshot_paths (fh_snapshots h ! k))
     \<and> (\<forall>e \<in> set (hs_file_backups (fh_snapshots h ! k)). captured fs d e)
     \<and> set (fh_tracked_files h) = keys_at k (fh_snapshots h) \<union> keys_after k (fh_snapshots h)
     \<and> (\<forall>p. p \<notin> set (fh_tracked_files h) \<longrightarrow> dk_files d p = fs p)
     \<and> (\<exists>hs. dk_sidecar d = SidecarState hs \<and> coherent U hs \<and> fh_snapshots hs = fh_snapshots h
          \<and> set (fh_tracked_files hs) = set (fh_tracked_files h)))"

lemma snapshot_index_ids: "map hs_message_id ss = map hs_message_id ss' \<Longrightarrow> snapshot_index m ss = snapshot_index m ss'"
proof (induction ss arbitrary: ss')
  case (Cons s ss)
  then show ?case by (cases ss') auto
qed simp

lemma snapshot_index_append: "snapshot_index m ss = Some k \<Longrightarrow> snapshot_index m (ss @ ss') = Some k"
  by (induction ss arbitrary: k) (auto split: if_splits)

lemma snapshot_index_new: "m \<notin> hs_message_id ` set ss \<Longrightarrow> hs_message_id s = m \<Longrightarrow> snapshot_index m (ss @ [s]) = Some (length ss)"
  by (induction ss) auto

lemma keys_in_tracked: "coherent U h \<Longrightarrow> s \<in> set (fh_snapshots h) \<Longrightarrow> e \<in> set (hs_file_backups s) \<Longrightarrow> named h e \<and> fst e \<in> U"
  by (fastforce simp: coherent_def snapshot_paths_def)

lemma coherent_tracked: "coherent U h \<Longrightarrow> s \<in> set (fh_snapshots h) \<Longrightarrow> set (snapshot_paths s) \<subseteq> set (fh_tracked_files h)"
  by (simp add: coherent_def)

lemma captured_all:
  assumes "coherent U h" "k < length (fh_snapshots h)" "fresh_names U h d d'"
    and "\<forall>e \<in> set (hs_file_backups (fh_snapshots h ! k)). captured fs d e"
  shows "\<forall>e \<in> set (hs_file_backups (fh_snapshots h ! k)). captured fs d' e"
  using keys_in_tracked [OF assms(1) nth_mem [OF assms(2)]] assms(3,4) captured_keep by blast

lemma snapshot_paths_add [simp]: "snapshot_paths (add_backup p b s) = snapshot_paths s @ [p]"
  by (simp add: snapshot_paths_def add_backup_def)

lemma add_backup_rest [simp]: "hs_message_id (add_backup p b s) = hs_message_id s"
  "hs_file_backups (add_backup p b s) = hs_file_backups s @ [(p, b)]"
  by (simp_all add: add_backup_def)

text \<open>Attaching a backup to the latest snapshot.\<close>

lemma keys_attach:
  assumes "ss \<noteq> []" "k < length ss"
  shows "keys_at k (butlast ss @ [add_backup p b (last ss)]) = (if k + 1 = length ss then insert p (keys_at k ss) else keys_at k ss)"
    "keys_after k (butlast ss @ [add_backup p b (last ss)]) = (if k + 1 = length ss then {} else insert p (keys_after k ss))"
proof -
  obtain init s where ss: "ss = init @ [s]" using assms(1) by (metis rev_exhaust)
  show "keys_at k (butlast ss @ [add_backup p b (last ss)]) = (if k + 1 = length ss then insert p (keys_at k ss) else keys_at k ss)"
    using assms(2) by (auto simp: ss keys_at_def nth_append)
  show "keys_after k (butlast ss @ [add_backup p b (last ss)]) = (if k + 1 = length ss then {} else insert p (keys_after k ss))"
    using assms(2) by (auto simp: ss keys_after_def)
qed

lemma keys_after_last: "k + 1 = length ss \<Longrightarrow> keys_after k ss = {}"
  by (simp add: keys_after_def)

text \<open>After tracking an edit: more versions, a new backup, the file among the tracked ones.\<close>

definition tracked_more :: "string set \<Rightarrow> string \<Rightarrow> file_history \<times> disk \<Rightarrow> file_history \<times> disk \<Rightarrow> bool" where
  "tracked_more U p = (\<lambda>(h, d) (h1, d1). fh_snapshots h1 = fh_snapshots h
     \<and> fh_tracked_files h1 = List.insert p (fh_tracked_files h) \<and> (\<forall>q. ver h q \<le> ver h1 q)
     \<and> dk_files d1 = dk_files d \<and> dk_faults d1 = [] \<and> dk_sidecar d1 = dk_sidecar d \<and> fresh_names U h d d1)"

lemma coherent_more:
  assumes "coherent U h" "tracked_more U p (h, d) (h1, d1)" "p \<in> U"
  shows "coherent U h1"
  using assms named_mono by (fastforce simp: coherent_def tracked_more_def)

lemma follows_known:
  assumes "follows U m fs k (h, d)" "tracked_more U p (h, d) (h1, d1)" "p \<in> U" "p \<in> set (fh_tracked_files h)"
  shows "follows U m fs k (h1, d1)"
proof -
  have "\<forall>e \<in> set (hs_file_backups (fh_snapshots h ! k)). captured fs d1 e"
    using assms(1,2) captured_all [of U h k d d1 fs] by (simp add: follows_def tracked_more_def)
  moreover have "coherent U h1" using coherent_more [OF _ assms(2,3)] assms(1) by (simp add: follows_def)
  ultimately show ?thesis using assms(1,2,4) by (simp add: follows_def tracked_more_def insert_absorb) blast
qed

lemma last_or_before: "ss \<noteq> [] \<Longrightarrow> s \<in> set (butlast ss @ [x]) \<Longrightarrow> s = x \<or> s \<in> set ss"
  by (auto dest: in_set_butlastD)

lemma coherent_attach:
  assumes "coherent U h1" "fh_snapshots h1 \<noteq> []" "p \<in> set (fh_tracked_files h1)" "named h1 (p, b)"
  shows "coherent U (h1\<lparr>fh_snapshots := butlast (fh_snapshots h1) @ [add_backup p b (last (fh_snapshots h1))]\<rparr>)"
proof -
  have old: "set (snapshot_paths s) \<subseteq> set (fh_tracked_files h1) \<and> (\<forall>e \<in> set (hs_file_backups s). named h1 e)"
    if "s \<in> set (fh_snapshots h1)" for s
    using assms(1) that by (simp add: coherent_def)
  have new: "set (snapshot_paths s) \<subseteq> set (fh_tracked_files h1) \<and> (\<forall>e \<in> set (hs_file_backups s). named h1 e)"
    if "s \<in> set (butlast (fh_snapshots h1) @ [add_backup p b (last (fh_snapshots h1))])" for s
    using last_or_before [OF assms(2) that] old assms(3,4) old [OF last_in_set [OF assms(2)]] by auto
  then show ?thesis using assms(1) by (simp add: coherent_def named_def)
qed

lemma follows_attach:
  assumes f: "follows U m fs k (h, d)" and t: "tracked_more U p (h, d) (h1, d1)" and p: "p \<in> U"
    and b: "named h1 (p, b)" "captured (dk_files d) d1 (p, b)"
    and new: "p \<notin> set (snapshot_paths (last (fh_snapshots h)))"
    and h2: "h2 = h1\<lparr>fh_snapshots := butlast (fh_snapshots h) @ [add_backup p b (last (fh_snapshots h))]\<rparr>"
  shows "follows U m fs k (h2, d1\<lparr>dk_sidecar := SidecarState h2\<rparr>)"
proof -
  let ?ss = "fh_snapshots h" and ?d2 = "d1\<lparr>dk_sidecar := SidecarState h2\<rparr>"
  have k: "k < length ?ss" "?ss \<noteq> []" "snapshot_index m ?ss = Some k" using f by (auto simp: follows_def)
  have ss2: "fh_snapshots h2 = butlast ?ss @ [add_backup p b (last ?ss)]" using h2 by simp
  have tr: "set (fh_tracked_files h2) = insert p (set (fh_tracked_files h))"
    using t h2 by (simp add: tracked_more_def)
  have cap: "\<forall>e \<in> set (hs_file_backups (?ss ! k)). captured fs d1 e"
    using f t captured_all [of U h k d d1 fs] by (simp add: follows_def tracked_more_def)
  have c2: "coherent U h2"
    using coherent_attach [OF coherent_more [OF _ t p], where b = b] f t b(1) k(2) h2 by (simp add: follows_def tracked_more_def)
  have at: "hs_file_backups (fh_snapshots h2 ! k) = hs_file_backups (?ss ! k) @ (if k + 1 = length ?ss then [(p, b)] else [])"
  proof (cases "k + 1 = length ?ss")
    case True
    then have "length ?ss - Suc 0 = k" by simp
    then show ?thesis using True k(2) by (simp add: ss2 nth_append last_conv_nth)
  next
    case False
    then have "k < length ?ss - Suc 0" using k(1) by simp
    then show ?thesis using False by (simp add: ss2 nth_append nth_butlast)
  qed
  have fresh: "p \<notin> set (fh_tracked_files h) \<and> p \<notin> set (snapshot_paths (?ss ! k))" if "k + 1 = length ?ss"
  proof -
    have "k = length ?ss - 1" using that by simp
    then have "?ss ! k = last ?ss" using k(2) by (simp add: last_conv_nth)
    then show ?thesis using f new keys_after_last [OF that] by (auto simp: follows_def keys_at_def)
  qed
  have "distinct (snapshot_paths (fh_snapshots h2 ! k))"
    using f fresh by (auto simp: snapshot_paths_def at follows_def)
  moreover have "\<forall>e \<in> set (hs_file_backups (fh_snapshots h2 ! k)). captured fs ?d2 e"
  proof -
    have "captured fs d1 (p, b)" if "k + 1 = length ?ss"
    proof -
      have "dk_files d p = fs p" using fresh [OF that] f by (simp add: follows_def)
      then show ?thesis using b(2) by (simp add: captured_def split: option.splits)
    qed
    then show ?thesis using cap by (auto simp: at)
  qed
  moreover have "set (fh_tracked_files h2) = keys_at k (fh_snapshots h2) \<union> keys_after k (fh_snapshots h2)"
    using f keys_attach [OF k(2,1), of p b] keys_after_last [of k ?ss] by (auto simp: ss2 tr follows_def)
  moreover have "snapshot_index m (fh_snapshots h2) = Some k"
  proof -
    have "map hs_message_id (fh_snapshots h2) = map hs_message_id ?ss"
      using k(2) unfolding ss2 by (cases ?ss rule: rev_cases) simp_all
    then show ?thesis using snapshot_index_ids k(3) by metis
  qed
  moreover have "length (fh_snapshots h2) = length ?ss" using k(2) by (simp add: ss2)
  ultimately show ?thesis using f t c2 k(1) tr by (auto simp: follows_def tracked_more_def)
qed

lemma follows_write:
  assumes "follows U m fs k (h, d)" "p \<in> set (fh_tracked_files h)" "small c"
  shows "follows U m fs k (h, d\<lparr>dk_files := (dk_files d)(p := c)\<rparr>)"
  using assms by (auto simp: follows_def captured_def small_def split: option.splits)

lemma backup_eta:
  "\<lparr>fb_backup_file_name = fb_backup_file_name b, fb_version = fb_version b, fb_backup_time = fb_backup_time b\<rparr> = (b :: file_backup)"
  by simp

text \<open>An edit, a further snapshot, a restart.\<close>

definition late_of :: "nat \<Rightarrow> history_snapshot list \<Rightarrow> string set" where
  "late_of k ss = keys_after k ss - keys_at k ss"

definition moved_on :: "nat \<Rightarrow> history_snapshot list \<Rightarrow> bool" where
  "moved_on k ss = (k + 1 < length ss)"

lemma tracked_more_existing:
  assumes "inj_on path_hash U" "p \<in> U" "dk_faults d = []" "dk_files d p = Some c"
  shows "tracked_more U p (h, d) (track p (snd (next_version p h)),
    d\<lparr>dk_backups := (dk_backups d)(backup_name p (ver h p + 1) := Some c)\<rparr>)"
  using fresh_backup [OF assms(1,2), of h d "Some c"] assms(3)
  by (simp add: tracked_more_def track_def next_version_eq)

lemma tracked_more_missing:
  "dk_faults d = [] \<Longrightarrow> tracked_more U p (h, d) (track p h, d)"
  by (simp add: tracked_more_def track_def fresh_names_def)

lemma edit_shape:
  assumes inj: "inj_on path_hash U" and p: "p \<in> U" and calm: "dk_faults d = []" and small: "small (dk_files d p)"
  obtains h1 d1 b where "tracked_more U p (h, d) (h1, d1)" "named h1 (p, b)" "captured (dk_files d) d1 (p, b)"
    "perform_edit p c (h, d) =
      (case attach_to_latest_snapshot p (fb_backup_file_name b) (fb_version b) h1 d1 of
         (h2, d2) \<Rightarrow> (h2, d2\<lparr>dk_files := (dk_files d2)(p := c)\<rparr>))" "fb_backup_time b = dk_now d1"
proof (cases "dk_files d p")
  case None
  let ?b = "\<lparr>fb_backup_file_name = None, fb_version = 0, fb_backup_time = dk_now d\<rparr>"
  show ?thesis
  proof (rule that [of "track p h" d ?b])
    show "perform_edit p c (h, d) = (case attach_to_latest_snapshot p (fb_backup_file_name ?b) (fb_version ?b) (track p h) d of
       (h2, d2) \<Rightarrow> (h2, d2\<lparr>dk_files := (dk_files d2)(p := c)\<rparr>))"
      using None by (simp add: perform_edit_def track_edit_def split: prod.split)
  qed (use None tracked_more_missing [OF calm] in \<open>simp_all add: named_def captured_def\<close>)
next
  case (Some x)
  let ?n = "backup_name p (ver h p + 1)"
  let ?h1 = "track p (snd (next_version p h))" and ?d1 = "d\<lparr>dk_backups := (dk_backups d)(?n := Some x)\<rparr>"
  let ?b = "\<lparr>fb_backup_file_name = Some ?n, fb_version = ver h p + 1, fb_backup_time = dk_now d\<rparr>"
  have ok: "\<not> max_backup_file_size < length x" using small Some by (simp add: small_def)
  show ?thesis
  proof (rule that [of ?h1 ?d1 ?b])
    show "tracked_more U p (h, d) (?h1, ?d1)" by (rule tracked_more_existing [OF inj p calm Some])
    show "perform_edit p c (h, d) = (case attach_to_latest_snapshot p (fb_backup_file_name ?b) (fb_version ?b) ?h1 ?d1 of
       (h2, d2) \<Rightarrow> (h2, d2\<lparr>dk_files := (dk_files d2)(p := c)\<rparr>))"
      using Some calm ok by (simp add: perform_edit_def track_edit_def next_version_eq split: prod.split)
  qed (use Some in \<open>auto simp: named_def captured_def track_def next_version_eq\<close>)
qed

lemma follows_edit:
  assumes inj: "inj_on path_hash U" and p: "p \<in> U" and f: "follows U m fs k (h, d)" and c: "small c"
    and run: "perform_edit p c (h, d) = (h', d')"
  shows "follows U m fs k (h', d')"
    "keys_at k (fh_snapshots h') = (if moved_on k (fh_snapshots h) then keys_at k (fh_snapshots h) else insert p (keys_at k (fh_snapshots h)))"
    "late_of k (fh_snapshots h') = (if moved_on k (fh_snapshots h) then late_of k (fh_snapshots h) \<union> ({p} - keys_at k (fh_snapshots h)) else {})"
    "moved_on k (fh_snapshots h') = moved_on k (fh_snapshots h)" "length (fh_snapshots h') = length (fh_snapshots h)"
proof -
  let ?ss = "fh_snapshots h"
  have k: "k < length ?ss" "?ss \<noteq> []" and calm: "dk_faults d = []" and small: "small (dk_files d p)"
    using f by (auto simp: follows_def)
  obtain h1 d1 b where t: "tracked_more U p (h, d) (h1, d1)" and b: "named h1 (p, b)" "captured (dk_files d) d1 (p, b)"
    and edit: "perform_edit p c (h, d) =
      (case attach_to_latest_snapshot p (fb_backup_file_name b) (fb_version b) h1 d1 of
         (h2, d2) \<Rightarrow> (h2, d2\<lparr>dk_files := (dk_files d2)(p := c)\<rparr>))" and now: "fb_backup_time b = dk_now d1"
    by (rule edit_shape [OF inj p calm small])
  have same: "fh_snapshots h1 = ?ss" "dk_faults d1 = []" using t by (simp_all add: tracked_more_def)
  let ?h2 = "h1\<lparr>fh_snapshots := butlast ?ss @ [add_backup p b (last ?ss)]\<rparr>"
  have known_run: "(h', d') = (h1, d1\<lparr>dk_files := (dk_files d1)(p := c)\<rparr>)" if "p \<in> set (snapshot_paths (last ?ss))"
    using run edit that k(2) same by (simp add: attach_to_latest_snapshot_def snapshot_paths_def Let_def)
  have new_run: "(h', d') = (?h2, d1\<lparr>dk_sidecar := SidecarState ?h2, dk_files := (dk_files d1)(p := c)\<rparr>)"
    if "p \<notin> set (snapshot_paths (last ?ss))"
    using run edit that k(2) same
    by (auto simp: attach_to_latest_snapshot_def snapshot_paths_def Let_def now [symmetric] backup_eta)
  show "follows U m fs k (h', d')"
    "keys_at k (fh_snapshots h') = (if moved_on k ?ss then keys_at k ?ss else insert p (keys_at k ?ss))"
    "late_of k (fh_snapshots h') = (if moved_on k ?ss then late_of k ?ss \<union> ({p} - keys_at k ?ss) else {})"
    "moved_on k (fh_snapshots h') = moved_on k ?ss" "length (fh_snapshots h') = length ?ss"
  proof -
    show "follows U m fs k (h', d')"
    proof (cases "p \<in> set (snapshot_paths (last ?ss))")
      case True
      moreover have "set (snapshot_paths (last ?ss)) \<subseteq> set (fh_tracked_files h)"
      proof (rule coherent_tracked [OF _ last_in_set [OF k(2)]])
        show "coherent U h" using f by (simp add: follows_def)
      qed
      ultimately have known: "p \<in> set (fh_tracked_files h)" by blast
      have "(h', d') = (h1, d1\<lparr>dk_files := (dk_files d1)(p := c)\<rparr>)" using known_run True by blast
      moreover have "p \<in> set (fh_tracked_files h1)" using t by (simp add: tracked_more_def)
      ultimately show ?thesis using follows_write [OF follows_known [OF f t p known] _ c] by simp
    next
      case False
      have "(h', d') = (?h2, d1\<lparr>dk_sidecar := SidecarState ?h2, dk_files := (dk_files d1)(p := c)\<rparr>)"
        using new_run False by blast
      moreover have "p \<in> set (fh_tracked_files ?h2)" using t by (simp add: tracked_more_def)
      ultimately show ?thesis using follows_write [OF follows_attach [OF f t p b False refl] _ c] by simp
    qed
    have snaps: "fh_snapshots h' = (if p \<in> set (snapshot_paths (last ?ss)) then ?ss else butlast ?ss @ [add_backup p b (last ?ss)])"
      using known_run new_run same(1) by auto
    have last_key: "p \<in> keys_at k ?ss" if "p \<in> set (snapshot_paths (last ?ss))" "\<not> moved_on k ?ss"
    proof -
      have "k = length ?ss - 1" using that(2) k by (simp add: moved_on_def)
      then show ?thesis using that(1) k(2) by (simp add: keys_at_def last_conv_nth)
    qed
    have late_key: "p \<in> keys_after k ?ss" if "p \<in> set (snapshot_paths (last ?ss))" "moved_on k ?ss"
    proof -
      have "last (drop (k + 1) ?ss) \<in> set (drop (k + 1) ?ss)" using that(2) by (intro last_in_set) (simp add: moved_on_def)
      then have "last ?ss \<in> set (drop (k + 1) ?ss)" using that(2) by (simp add: moved_on_def last_drop)
      then show ?thesis using that(1) by (auto simp: keys_after_def)
    qed
    show "keys_at k (fh_snapshots h') = (if moved_on k ?ss then keys_at k ?ss else insert p (keys_at k ?ss))"
      using k last_key by (auto simp: snaps keys_attach moved_on_def)
    show "late_of k (fh_snapshots h') = (if moved_on k ?ss then late_of k ?ss \<union> ({p} - keys_at k ?ss) else {})"
      using k late_key keys_after_last [of k ?ss] by (auto simp: snaps keys_attach moved_on_def late_of_def)
    show "moved_on k (fh_snapshots h') = moved_on k ?ss" "length (fh_snapshots h') = length ?ss"
      using k by (simp_all add: snaps moved_on_def)
  qed
qed

lemma evict_short [simp]: "length ss \<le> cap \<Longrightarrow> evict cap ss d = (ss, d)"
  by (cases ss) auto

text \<open>Making a snapshot without reaching the cap.\<close>

lemma make_snapshot_calm:
  assumes "inj_on path_hash U" "dk_faults d = []" "coherent U h" "length (fh_snapshots h) < max_snapshots_per_session"
    and "make_snapshot m h d = (h', d')"
  shows "\<exists>s. fh_snapshots h' = fh_snapshots h @ [s] \<and> hs_message_id s = m \<and> snapshot_paths s = fh_tracked_files h
    \<and> (\<forall>e \<in> set (hs_file_backups s). captured (dk_files d) d' e) \<and> fresh_names U h d d' \<and> coherent U h'
    \<and> fh_tracked_files h' = fh_tracked_files h \<and> dk_files d' = dk_files d \<and> dk_faults d' = [] \<and> dk_sidecar d' = SidecarState h'"
proof -
  have "distinct (fh_tracked_files h)" "set (fh_tracked_files h) \<subseteq> U" using assms(3) by (simp_all add: coherent_def)
  then obtain bs h1 d1 where b: "backup_tracked (fh_tracked_files h) h d = (bs, h1, d1)" "map fst bs = fh_tracked_files h"
    "\<forall>e \<in> set bs. captured (dk_files d) d1 e \<and> named h1 e" "fresh_names U h d d1" "\<forall>p. ver h p \<le> ver h1 p"
    "fh_snapshots h1 = fh_snapshots h" "fh_tracked_files h1 = fh_tracked_files h" "dk_files d1 = dk_files d" "dk_faults d1 = []"
    using backup_tracked_calm [OF assms(1,2)] by blast
  let ?s = "\<lparr>hs_message_id = m, hs_file_backups = bs, hs_timestamp = dk_now d1\<rparr>"
  let ?h = "h1\<lparr>fh_snapshots := fh_snapshots h @ [?s]\<rparr>"
  have run: "(h', d') = (?h, d1\<lparr>dk_sidecar := SidecarState ?h\<rparr>)"
    using assms(4,5) b by (auto simp: make_snapshot_def Let_def Suc_le_eq)
  have "coherent U ?h"
  proof -
    have "named h1 e" if "s \<in> set (fh_snapshots h)" "e \<in> set (hs_file_backups s)" for s e
      using keys_in_tracked [OF assms(3) that] named_mono b(5) by blast
    then have "named ?h e" if "s \<in> set (fh_snapshots h)" "e \<in> set (hs_file_backups s)" for s e
      using that by (simp add: named_def)
    moreover have "named ?h e" if "e \<in> set bs" for e using b(3) that by (simp add: named_def)
    moreover have "set (snapshot_paths ?s) = set (fh_tracked_files h)"
      by (simp add: snapshot_paths_def b(2) [symmetric])
    ultimately show ?thesis using assms(3) b(7) coherent_tracked [OF assms(3)]
      by (auto simp: coherent_def)
  qed
  moreover have "fresh_names U h d (d1\<lparr>dk_sidecar := SidecarState ?h\<rparr>)" using b(4) by (simp add: fresh_names_def)
  ultimately show ?thesis using run b by (intro exI [of _ ?s]) (auto simp: snapshot_paths_def)
qed

lemma keys_snoc:
  "k < length ss \<Longrightarrow> keys_at k (ss @ [s]) = keys_at k ss"
  "k < length ss \<Longrightarrow> keys_after k (ss @ [s]) = keys_after k ss \<union> set (snapshot_paths s)"
  by (auto simp: keys_at_def keys_after_def nth_append)

lemma follows_snapshot:
  assumes "inj_on path_hash U" "follows U m fs k (h, d)" "length (fh_snapshots h) < max_snapshots_per_session"
    and "make_snapshot m' h d = (h', d')"
  shows "follows U m fs k (h', d')" "keys_at k (fh_snapshots h') = keys_at k (fh_snapshots h)"
    "late_of k (fh_snapshots h') = late_of k (fh_snapshots h)" "moved_on k (fh_snapshots h')"
    "length (fh_snapshots h') = Suc (length (fh_snapshots h))"
proof -
  have f: "dk_faults d = []" "coherent U h" "k < length (fh_snapshots h)"
    "set (fh_tracked_files h) = keys_at k (fh_snapshots h) \<union> keys_after k (fh_snapshots h)"
    using assms(2) by (auto simp: follows_def)
  obtain s where s: "fh_snapshots h' = fh_snapshots h @ [s]" "snapshot_paths s = fh_tracked_files h"
    "fresh_names U h d d'" "coherent U h'" "fh_tracked_files h' = fh_tracked_files h" "dk_files d' = dk_files d"
    "dk_faults d' = []" "dk_sidecar d' = SidecarState h'"
    using make_snapshot_calm [OF assms(1) f(1,2) assms(3,4)] by blast
  show keys: "keys_at k (fh_snapshots h') = keys_at k (fh_snapshots h)"
    "late_of k (fh_snapshots h') = late_of k (fh_snapshots h)" "moved_on k (fh_snapshots h')"
    "length (fh_snapshots h') = Suc (length (fh_snapshots h))"
    using f(3,4) s(1,2) by (auto simp: keys_snoc late_of_def moved_on_def)
  have "\<forall>e \<in> set (hs_file_backups (fh_snapshots h ! k)). captured fs d' e"
    using captured_all [OF f(2,3) s(3)] assms(2) by (simp add: follows_def)
  then show "follows U m fs k (h', d')"
    using assms(2) s f(3,4) by (auto simp: follows_def keys_snoc nth_append snapshot_index_append)
qed

lemma follows_restart:
  assumes "follows U m fs k (h, d)" "perform_op HRestart (h, d) = (h', d')"
  shows "follows U m fs k (h', d') \<and> fh_snapshots h' = fh_snapshots h"
proof -
  obtain hs where hs: "dk_sidecar d = SidecarState hs" "coherent U hs" "fh_snapshots hs = fh_snapshots h"
    "set (fh_tracked_files hs) = set (fh_tracked_files h)" "dk_faults d = []"
    using assms(1) by (auto simp: follows_def)
  then have "(h', d') = (hs, d)" using assms(2) by (simp add: history_new_def load_state_def)
  then show ?thesis using assms(1) hs by (auto simp: follows_def)
qed

section \<open>Rewinding to it\<close>

lemma delete_calm:
  assumes "dk_faults d = []"
  shows "\<exists>r' d'. delete_existing what p (r, d) = (r', d') \<and> rr_conflicts r' = rr_conflicts r
    \<and> dk_files d' = (dk_files d)(p := None) \<and> dk_backups d' = dk_backups d \<and> dk_faults d' = []"
  using assms by (auto simp: delete_existing_def remove_user_file_def add_deleted_def fun_upd_idem)

lemma delete_all_calm:
  "dk_faults d = [] \<Longrightarrow> \<exists>r' d'. fold (delete_existing what) ps (r, d) = (r', d') \<and> rr_conflicts r' = rr_conflicts r
    \<and> (\<forall>p. dk_files d' p = (if p \<in> set ps then None else dk_files d p)) \<and> dk_faults d' = []"
proof (induction ps arbitrary: r d)
  case (Cons p ps)
  obtain r1 d1 where one: "delete_existing what p (r, d) = (r1, d1)" "rr_conflicts r1 = rr_conflicts r"
    "dk_files d1 = (dk_files d)(p := None)" "dk_faults d1 = []"
    using delete_calm [OF Cons.prems] by blast
  obtain r2 d2 where "fold (delete_existing what) ps (r1, d1) = (r2, d2)" "rr_conflicts r2 = rr_conflicts r1"
    "\<forall>p. dk_files d2 p = (if p \<in> set ps then None else dk_files d1 p)" "dk_faults d2 = []"
    using Cons.IH [OF one(4)] by blast
  with one show ?case by (intro exI [of _ r2] exI [of _ d2]) auto
qed simp

lemma restore_calm:
  assumes "dk_faults d = []" "captured fs d (p, b)"
  shows "\<exists>r' d'. restore_entry (p, fb_backup_file_name b) (r, d) = (r', d') \<and> rr_conflicts r' = rr_conflicts r
    \<and> dk_files d' = (dk_files d)(p := fs p) \<and> dk_backups d' = dk_backups d \<and> dk_faults d' = []"
proof (cases "fb_backup_file_name b")
  case None
  then have "fs p = None" using assms(2) by (simp add: captured_def)
  then show ?thesis using delete_calm [OF assms(1), of "''failed to delete: ''" p r] None
    by (auto simp: restore_entry_def)
next
  case (Some n)
  then obtain c where "fs p = Some c" "dk_backups d n = Some c" using assms(2) by (auto simp: captured_def)
  then show ?thesis using Some assms(1)
    by (auto simp: restore_entry_def copy_from_backup_def add_restored_def)
qed

lemma captured_backups: "dk_backups d' = dk_backups d \<Longrightarrow> captured fs d' = captured fs d"
  by (auto simp: captured_def fun_eq_iff split: option.split)

lemma restore_all_calm:
  assumes "dk_faults d = []" "\<forall>e \<in> set bs. captured fs d e" "distinct (map fst bs)"
  shows "\<exists>r' d'. fold restore_entry (map (\<lambda>(p, b). (p, fb_backup_file_name b)) bs) (r, d) = (r', d')
    \<and> rr_conflicts r' = rr_conflicts r \<and> dk_faults d' = []
    \<and> (\<forall>p. dk_files d' p = (if p \<in> fst ` set bs then fs p else dk_files d p))"
  using assms
proof (induction bs arbitrary: r d)
  case (Cons e bs)
  obtain p b where e: "e = (p, b)" by (cases e)
  obtain r1 d1 where one: "restore_entry (p, fb_backup_file_name b) (r, d) = (r1, d1)" "rr_conflicts r1 = rr_conflicts r"
    "dk_files d1 = (dk_files d)(p := fs p)" "dk_backups d1 = dk_backups d" "dk_faults d1 = []"
    using restore_calm [of d fs p b r] Cons.prems e by auto
  have cap: "\<forall>e \<in> set bs. captured fs d1 e" using Cons.prems(2) captured_backups [OF one(4)] by simp
  have dis: "distinct (map fst bs)" using Cons.prems(3) by simp
  obtain r2 d2 where "fold restore_entry (map (\<lambda>(p, b). (p, fb_backup_file_name b)) bs) (r1, d1) = (r2, d2)"
    "rr_conflicts r2 = rr_conflicts r1" "dk_faults d2 = []"
    "\<forall>p. dk_files d2 p = (if p \<in> fst ` set bs then fs p else dk_files d1 p)"
    using Cons.IH [OF one(5) cap dis, of r1] by blast
  with one e Cons.prems(3) show ?case by (intro exI [of _ r2] exI [of _ d2]) auto
qed simp

lemma set_files_after: "set (files_after k ss) = late_of k ss"
  by (auto simp: files_after_def late_of_def keys_after_def keys_at_def)

lemma rewind_followed:
  assumes "follows U m fs k (h, d)"
  shows "\<exists>r h' d'. rewind_to m h d = (Inr r, h', d') \<and> rr_conflicts r = []
    \<and> (\<forall>p. dk_files d' p = (if p \<in> late_of k (fh_snapshots h) then None else fs p))
    \<and> fh_snapshots h' = take (k + 1) (fh_snapshots h)"
proof -
  let ?ss = "fh_snapshots h" and ?h = "h\<lparr>fh_snapshots := take (k + 1) (fh_snapshots h)\<rparr>"
  let ?bs = "hs_file_backups (?ss ! k)" and ?d = "d\<lparr>dk_sidecar := SidecarState ?h\<rparr>"
  have f: "dk_faults ?d = []" "\<forall>e \<in> set ?bs. captured fs ?d e" "distinct (map fst ?bs)" "snapshot_index m ?ss = Some k"
    "set (fh_tracked_files h) = keys_at k ?ss \<union> keys_after k ?ss" "\<forall>p. p \<notin> set (fh_tracked_files h) \<longrightarrow> dk_files d p = fs p"
    using assms by (auto simp: follows_def snapshot_paths_def)
  obtain r1 d1 where one: "fold restore_entry (map (\<lambda>(p, b). (p, fb_backup_file_name b)) ?bs)
      (\<lparr>rr_restored = [], rr_deleted = [], rr_conflicts = []\<rparr>, ?d) = (r1, d1)" "rr_conflicts r1 = []" "dk_faults d1 = []"
    "\<forall>p. dk_files d1 p = (if p \<in> fst ` set ?bs then fs p else dk_files d p)"
    using restore_all_calm [OF f(1-3)] by fastforce
  obtain r2 d2 where two: "fold (delete_existing ''failed to delete created file: '') (files_after k ?ss) (r1, d1) = (r2, d2)"
    "rr_conflicts r2 = []" "\<forall>p. dk_files d2 p = (if p \<in> late_of k ?ss then None else dk_files d1 p)"
    using delete_all_calm [OF one(3)] one(2) by (metis set_files_after)
  have "rewind_to m h d = (Inr r2, ?h, d2)"
    using f(1,4) one(1) two(1) by (simp add: rewind_to_def Let_def)
  moreover have "dk_files d2 p = (if p \<in> late_of k ?ss then None else fs p)" for p
    using two(3) one(4) f(5,6) by (auto simp: late_of_def keys_at_def snapshot_paths_def)
  ultimately show ?thesis using two(2) by auto
qed

section \<open>The whole run\<close>

text \<open>Files whose first edit since the snapshot comes after a later snapshot.\<close>

fun late_edits :: "string set \<Rightarrow> bool \<Rightarrow> history_op list \<Rightarrow> string set" where
  "late_edits T later [] = {}"
| "late_edits T later (HEdit p c # ops) =
     (if later then ({p} - T) \<union> late_edits T later ops else late_edits (insert p T) later ops)"
| "late_edits T later (HSnapshot m # ops) = late_edits T True ops"
| "late_edits T later (HRestart # ops) = late_edits T later ops"

fun op_ok :: "string set \<Rightarrow> history_op \<Rightarrow> bool" where
  "op_ok U (HEdit p c) = (p \<in> U \<and> small c)"
| "op_ok U _ = True"

definition snapshots_in :: "history_op list \<Rightarrow> nat" where
  "snapshots_in ops = length (filter (\<lambda>x. case x of HSnapshot _ \<Rightarrow> True | _ \<Rightarrow> False) ops)"

lemma run_followed:
  assumes "inj_on path_hash U" "follows U m fs k (h, d)" "list_all (op_ok U) ops"
    and "length (fh_snapshots h) + snapshots_in ops \<le> max_snapshots_per_session" "history_run ops (h, d) = (h', d')"
  shows "follows U m fs k (h', d') \<and>
    late_of k (fh_snapshots h') = late_of k (fh_snapshots h) \<union>
      late_edits (keys_at k (fh_snapshots h)) (moved_on k (fh_snapshots h)) ops"
  using assms(2-5)
proof (induction ops arbitrary: h d)
  case Nil
  then show ?case by (simp add: history_run_def)
next
  case (Cons x ops)
  obtain h1 d1 where x: "perform_op x (h, d) = (h1, d1)" by fastforce
  then have rest: "history_run ops (h1, d1) = (h', d')" using Cons.prems(4) by (simp add: history_run_def)
  show ?case
  proof (cases x)
    case (HEdit p c)
    have e: "p \<in> U" "small c" "perform_edit p c (h, d) = (h1, d1)" using Cons.prems(2) x HEdit by auto
    note step = follows_edit [OF assms(1) e(1) Cons.prems(1) e(2,3)]
    have none: "late_of k (fh_snapshots h) = {}" if "\<not> moved_on k (fh_snapshots h)"
      using that Cons.prems(1) keys_after_last [of k "fh_snapshots h"] by (auto simp: late_of_def moved_on_def follows_def)
    show ?thesis
      using Cons.IH [OF step(1) _ _ rest] Cons.prems(2,3) step(2-5) none HEdit
      by (cases "moved_on k (fh_snapshots h)") (auto simp: snapshots_in_def)
  next
    case (HSnapshot m')
    have less: "length (fh_snapshots h) < max_snapshots_per_session" and s: "make_snapshot m' h d = (h1, d1)"
      using Cons.prems(3) HSnapshot x by (auto simp: snapshots_in_def)
    note step = follows_snapshot [OF assms(1) Cons.prems(1) less s]
    show ?thesis
      using Cons.IH [OF step(1) _ _ rest] Cons.prems(2,3) step(2-5) HSnapshot by (auto simp: snapshots_in_def)
  next
    case HRestart
    then have step: "follows U m fs k (h1, d1)" "fh_snapshots h1 = fh_snapshots h"
      using follows_restart [OF Cons.prems(1)] x by auto
    show ?thesis
      using Cons.IH [OF step(1) _ _ rest] Cons.prems(2,3) step(2) HRestart by (auto simp: snapshots_in_def)
  qed
qed

section \<open>Runs from an empty history\<close>

definition sound :: "string set \<Rightarrow> file_history \<times> disk \<Rightarrow> bool" where
  "sound U = (\<lambda>(h, d). coherent U h \<and> dk_faults d = [] \<and> (\<forall>p. small (dk_files d p)) \<and>
     (dk_sidecar d = SidecarMissing \<and> fh_snapshots h = [] \<or>
      (\<exists>hs. dk_sidecar d = SidecarState hs \<and> coherent U hs \<and> fh_snapshots hs = fh_snapshots h)))"

lemma sound_edit:
  assumes "inj_on path_hash U" "p \<in> U" "sound U (h, d)" "small c" "perform_edit p c (h, d) = (h', d')"
  shows "sound U (h', d')" "map hs_message_id (fh_snapshots h') = map hs_message_id (fh_snapshots h)"
proof -
  have s: "coherent U h" "dk_faults d = []" "small (dk_files d p)" using assms(3) by (simp_all add: sound_def)
  obtain h1 d1 b where e: "tracked_more U p (h, d) (h1, d1)" "named h1 (p, b)"
    "perform_edit p c (h, d) =
      (case attach_to_latest_snapshot p (fb_backup_file_name b) (fb_version b) h1 d1 of
         (h2, d2) \<Rightarrow> (h2, d2\<lparr>dk_files := (dk_files d2)(p := c)\<rparr>))" "fb_backup_time b = dk_now d1"
    by (rule edit_shape [OF assms(1,2) s(2,3)])
  let ?ss = "fh_snapshots h"
  let ?h2 = "h1\<lparr>fh_snapshots := butlast ?ss @ [add_backup p b (last ?ss)]\<rparr>"
  have same: "fh_snapshots h1 = ?ss" "dk_faults d1 = []" "dk_files d1 = dk_files d" "dk_sidecar d1 = dk_sidecar d"
    "p \<in> set (fh_tracked_files h1)" using e(1) by (simp_all add: tracked_more_def)
  have c1: "coherent U h1" by (rule coherent_more [OF s(1) e(1) assms(2)])
  have "sound U (h', d') \<and> map hs_message_id (fh_snapshots h') = map hs_message_id ?ss"
  proof (cases "?ss = [] \<or> p \<in> set (snapshot_paths (last ?ss))")
    case True
    then have "attach_to_latest_snapshot p (fb_backup_file_name b) (fb_version b) h1 d1 = (h1, d1)"
      using same(1) by (cases "?ss = []") (simp_all add: attach_to_latest_snapshot_def snapshot_paths_def Let_def)
    then have "(h', d') = (h1, d1\<lparr>dk_files := (dk_files d1)(p := c)\<rparr>)"
      using assms(5) e(3) by simp
    then show ?thesis using assms(3,4) c1 same by (auto simp: sound_def)
  next
    case False
    then have run: "(h', d') = (?h2, d1\<lparr>dk_sidecar := SidecarState ?h2, dk_files := (dk_files d1)(p := c)\<rparr>)"
      using assms(5) e(3) same
      by (auto simp: attach_to_latest_snapshot_def snapshot_paths_def Let_def e(4) [symmetric] backup_eta)
    have "coherent U ?h2" using coherent_attach [OF c1 _ same(5) e(2)] False same(1) by simp
    moreover have "map hs_message_id (fh_snapshots ?h2) = map hs_message_id ?ss"
      using False by (cases ?ss rule: rev_cases) simp_all
    ultimately show ?thesis using run assms(3,4) same by (auto simp: sound_def)
  qed
  then show "sound U (h', d')" "map hs_message_id (fh_snapshots h') = map hs_message_id ?ss" by simp_all
qed

lemma sound_op:
  assumes "inj_on path_hash U" "sound U (h, d)" "op_ok U x" "perform_op x (h, d) = (h', d')"
    and "length (fh_snapshots h) < max_snapshots_per_session"
  shows "sound U (h', d')" "map hs_message_id (fh_snapshots h') =
    map hs_message_id (fh_snapshots h) @ (case x of HSnapshot m \<Rightarrow> [m] | _ \<Rightarrow> [])"
proof -
  have s: "coherent U h" "dk_faults d = []" using assms(2) by (simp_all add: sound_def)
  have "sound U (h', d') \<and> map hs_message_id (fh_snapshots h') =
    map hs_message_id (fh_snapshots h) @ (case x of HSnapshot m \<Rightarrow> [m] | _ \<Rightarrow> [])"
  proof (cases x)
    case (HEdit p c)
    then have e: "p \<in> U" "small c" "perform_edit p c (h, d) = (h', d')" using assms(3,4) by simp_all
    show ?thesis using sound_edit [OF assms(1) e(1) assms(2) e(2,3)] HEdit by simp
  next
    case (HSnapshot m)
    then have "make_snapshot m h d = (h', d')" using assms(4) by simp
    from make_snapshot_calm [OF assms(1) s(2,1) assms(5) this] show ?thesis
      using assms(2) HSnapshot by (auto simp: sound_def)
  next
    case HRestart
    have none: "coherent U empty_history" "fh_snapshots empty_history = []" by (simp_all add: empty_history_def coherent_def)
    show ?thesis using assms(2,4) s(2) HRestart none
      by (auto simp: sound_def history_new_def load_state_def)
  qed
  then show "sound U (h', d')" "map hs_message_id (fh_snapshots h') =
    map hs_message_id (fh_snapshots h) @ (case x of HSnapshot m \<Rightarrow> [m] | _ \<Rightarrow> [])" by simp_all
qed

lemma sound_run:
  assumes "inj_on path_hash U" "sound U (h, d)" "list_all (op_ok U) ops"
    and "length (fh_snapshots h) + snapshots_in ops < max_snapshots_per_session" "history_run ops (h, d) = (h', d')"
  shows "sound U (h', d')
    \<and> hs_message_id ` set (fh_snapshots h') = hs_message_id ` set (fh_snapshots h) \<union> {m. HSnapshot m \<in> set ops}
    \<and> length (fh_snapshots h') = length (fh_snapshots h) + snapshots_in ops"
  using assms(2-5)
proof (induction ops arbitrary: h d)
  case Nil
  then show ?case by (simp add: history_run_def snapshots_in_def)
next
  case (Cons x ops)
  obtain h1 d1 where x: "perform_op x (h, d) = (h1, d1)" by fastforce
  then have rest: "history_run ops (h1, d1) = (h', d')" using Cons.prems(4) by (simp add: history_run_def)
  have less: "length (fh_snapshots h) < max_snapshots_per_session" using Cons.prems(3) by simp
  have ok: "op_ok U x" "list_all (op_ok U) ops" using Cons.prems(2) by simp_all
  note step = sound_op [OF assms(1) Cons.prems(1) ok(1) x less]
  have ids: "hs_message_id ` set (fh_snapshots h1) =
      hs_message_id ` set (fh_snapshots h) \<union> (case x of HSnapshot m \<Rightarrow> {m} | _ \<Rightarrow> {})"
    using arg_cong [OF step(2), of set] by (auto split: history_op.splits)
  have len: "length (fh_snapshots h1) = length (fh_snapshots h) + (case x of HSnapshot m \<Rightarrow> 1 | _ \<Rightarrow> 0)"
    using arg_cong [OF step(2), of length] by (auto split: history_op.splits)
  have "length (fh_snapshots h1) + snapshots_in ops < max_snapshots_per_session"
    using len Cons.prems(3) by (cases x) (simp_all add: snapshots_in_def)
  from Cons.IH [OF step(1) ok(2) this rest] show ?case
    using ids len by (cases x) (auto simp: snapshots_in_def)
qed

lemma snapshot_followed:
  assumes "inj_on path_hash U" "sound U (h, d)" "length (fh_snapshots h) < max_snapshots_per_session"
    and "m \<notin> hs_message_id ` set (fh_snapshots h)" "make_snapshot m h d = (h', d')"
  shows "follows U m (dk_files d) (length (fh_snapshots h)) (h', d')"
    "length (fh_snapshots h') = Suc (length (fh_snapshots h))"
    "keys_at (length (fh_snapshots h)) (fh_snapshots h') = set (fh_tracked_files h)"
proof -
  have s: "coherent U h" "dk_faults d = []" using assms(2) by (simp_all add: sound_def)
  let ?k = "length (fh_snapshots h)"
  obtain s where s: "fh_snapshots h' = fh_snapshots h @ [s]" "hs_message_id s = m" "snapshot_paths s = fh_tracked_files h"
    "\<forall>e \<in> set (hs_file_backups s). captured (dk_files d) d' e" "coherent U h'" "fh_tracked_files h' = fh_tracked_files h"
    "dk_files d' = dk_files d" "dk_faults d' = []" "dk_sidecar d' = SidecarState h'"
    using make_snapshot_calm [OF assms(1) s(2,1) assms(3,5)] by blast
  show "length (fh_snapshots h') = Suc ?k" "keys_at ?k (fh_snapshots h') = set (fh_tracked_files h)"
    using s(1,3) by (simp_all add: keys_at_def)
  have "distinct (fh_tracked_files h)" using assms(2) by (simp add: sound_def coherent_def)
  then show "follows U m (dk_files d) ?k (h', d')"
    using s assms(2) snapshot_index_new [OF assms(4) s(2)]
    by (auto simp: follows_def sound_def keys_at_def keys_after_def)
qed


text \<open>A rewind after an edit, a later snapshot, an edit of another file and a restart.\<close>

definition demo_disk :: disk where
  "demo_disk = \<lparr>dk_files = [''a'' \<mapsto> [1], ''b'' \<mapsto> [2]], dk_backups = (\<lambda>_. None), dk_sidecar = SidecarMissing,
     dk_now = 0, dk_faults = []\<rparr>"

definition demo_ops :: "history_op list" where
  "demo_ops = [HEdit ''a'' (Some [3]), HSnapshot ''m2'', HRestart, HEdit ''b'' None]"

lemma last_path_hash: "last (path_hash p) = hex_char (unat (foldl fnv_step 0xcbf29ce484222325 p) mod 16)"
  using hex_digits.simps(2) [of 15] by (simp add: path_hash_def)

lemma demo_hashes: "inj_on path_hash {''a'', ''b''}"
proof -
  have chars: "of_char (CHR ''a'') = (97::nat)" "of_char (CHR ''b'') = (98::nat)" by simp_all
  have "(0xcbf29ce484222325 :: 64 word) XOR 97 = 14695981039346656068"
    "(0xcbf29ce484222325 :: 64 word) XOR 98 = 14695981039346656071" by simp_all
  moreover have "(14695981039346656068 :: 64 word) * 0x100000001b3 = 12638187200555641996"
    "(14695981039346656071 :: 64 word) * 0x100000001b3 = 12638190499090526629" by simp_all
  ultimately have "fnv_step 0xcbf29ce484222325 (CHR ''a'') = 12638187200555641996"
    "fnv_step 0xcbf29ce484222325 (CHR ''b'') = 12638190499090526629"
    unfolding fnv_step_def chars of_nat_numeral by metis+
  then have "last (path_hash ''a'') = hex_char 12" "last (path_hash ''b'') = hex_char 5"
    unfolding last_path_hash by simp_all
  moreover have "hex_char 12 \<noteq> hex_char 5" by code_simp
  ultimately have "path_hash ''a'' \<noteq> path_hash ''b''" by auto
  then show ?thesis by (simp add: inj_on_def)
qed


section \<open>Copies that fail\<close>

text \<open>When the copy of a tracked file into the backup directory fails while the snapshot of a
  message is made, the snapshot records the file as absent, and rewinding to the message at once
  deletes the file.
\<close>
theorem failed_copy_deletes_on_rewind:
  assumes "fh_tracked_files h = [p]" "dk_files d p = Some c" "dk_faults d = [Some e]"
    and "fh_snapshots h = []" "make_snapshot m h d = (h', d')"
  shows "dk_files d' p = Some c \<and> (\<exists>r h'' d''. rewind_to m h' d' = (Inr r, h'', d'')
    \<and> rr_deleted r = [p] \<and> rr_conflicts r = [] \<and> dk_files d'' p = None)"
proof -
  let ?s = "\<lparr>hs_message_id = m, hs_file_backups = [(p, no_backup (d\<lparr>dk_faults := []\<rparr>))], hs_timestamp = dk_now d\<rparr>"
  let ?h = "(snd (next_version p h))\<lparr>fh_snapshots := [?s]\<rparr>"
  have "(h', d') = (?h, d\<lparr>dk_faults := [], dk_sidecar := SidecarState ?h\<rparr>)"
    using assms by (auto simp: make_snapshot_def next_version_eq copy_to_backup_def next_fault_def Let_def
        max_snapshots_per_session_def no_backup_def)
  then show ?thesis using assms(2,4)
    by (simp add: rewind_to_def Let_def next_version_eq restore_entry_def delete_existing_def remove_user_file_def
        add_deleted_def no_backup_def files_after_def)
qed

section \<open>Statistics in one pass\<close>

fun stats_rows :: "history_snapshot list \<Rightarrow> history_snapshot list \<Rightarrow> (string \<times> diff_stats) list" where
  "stats_rows [] tail = []"
| "stats_rows (s # ss) tail =
     (hs_message_id s, diff_of (snapshot_paths s) (remdups (concat (map snapshot_paths (ss @ tail))))) # stats_rows ss tail"

lemma diff_of_set:
  assumes "distinct xs" "distinct ys" "set xs = set ys"
  shows "diff_of known xs = diff_of known ys"
proof -
  have "length (filter Q xs) = length (filter Q ys)" for Q
    using assms distinct_card [of "filter Q xs"] distinct_card [of "filter Q ys"] by simp
  then show ?thesis by (simp add: diff_of_def)
qed

lemma stats_rows_snoc:
  "stats_rows (ss @ [s]) tail = stats_rows ss (s # tail) @
     [(hs_message_id s, diff_of (snapshot_paths s) (remdups (concat (map snapshot_paths tail))))]"
  by (induction ss) simp_all

lemma batch_pass_eq:
  "distinct later \<Longrightarrow> set later = set (concat (map snapshot_paths tail)) \<Longrightarrow>
   batch_pass (rev ss) later acc = stats_rows ss tail @ acc"
proof (induction ss arbitrary: tail later acc rule: rev_induct)
  case (snoc s ss)
  have "diff_of (snapshot_paths s) later = diff_of (snapshot_paths s) (remdups (concat (map snapshot_paths tail)))"
    using snoc.prems by (intro diff_of_set) simp_all
  moreover have "set (remdups (later @ snapshot_paths s)) = set (concat (map snapshot_paths (s # tail)))"
    using snoc.prems(2) by auto
  ultimately show ?case
    using snoc.IH [of "remdups (later @ snapshot_paths s)" "s # tail"] by (simp add: stats_rows_snoc)
qed simp

lemma stats_rows_index:
  "map_of (stats_rows ss []) m = map_option
     (\<lambda>k. diff_of (snapshot_paths (ss ! k)) (remdups (concat (map snapshot_paths (drop (k + 1) ss))))) (snapshot_index m ss)"
  by (induction ss) (auto simp: option.map_comp o_def)

text \<open>The single pass over all snapshots agrees with the statistics computed per message.\<close>

lemma diff_stats_batch_agrees: "map_of (diff_stats_batch h) m = diff_stats_for m h"
proof -
  have "map_of (diff_stats_batch h) m = map_of (stats_rows (fh_snapshots h) []) m"
    using batch_pass_eq [of "[]" "[]" "fh_snapshots h" "[]"] by (simp add: diff_stats_batch_def)
  then show ?thesis
    unfolding stats_rows_index diff_stats_for_def by (cases "snapshot_index m (fh_snapshots h)") simp_all
qed

text \<open>Such a snapshot on a concrete disk.\<close>

lemma failed_copy_deletes_on_rewind_witness:
  "dk_files (snd (make_snapshot ''m'' (empty_history\<lparr>fh_tracked_files := [''a'']\<rparr>)
     (demo_disk\<lparr>dk_faults := [Some ''full'']\<rparr>))) ''a'' = Some [1]"
  using failed_copy_deletes_on_rewind [of "empty_history\<lparr>fh_tracked_files := [''a'']\<rparr>" "''a''"
      "demo_disk\<lparr>dk_faults := [Some ''full'']\<rparr>" "[1]" "''full''" "''m''",
      OF _ _ _ _ surjective_pairing]
  by (simp add: empty_history_def demo_disk_def)

end
