(* ===== verification/Journal.thy ===== *)
theory Journal
  imports FileHistory
begin

text \<open>
  The journal of file operations: scopes and entries (\<open>y-journal/src/storage.rs\<close>), what is captured
  before a tool runs (\<open>middleware.rs\<close>), the check for conflicts (\<open>conflict.rs\<close>) and the rollback of
  a scope (\<open>rollback.rs\<close>), on the disk of the file history.  The digest is a parameter \<open>sha\<close>.
\<close>

section \<open>Store\<close>

datatype scope_type = ScopeTask | ScopePipeline | ScopeCheckpoint

datatype file_operation = OpCreate | OpModify | OpDelete | OpRename string

datatype storage_strategy = Inline | BlobFile string | GitRef string | MetadataOnly

datatype scope_status = ScopeOpen | ScopeClosed | ScopeRolledBack | ScopeAbandoned

record journal_scope =
  js_scope_id :: string
  js_scope_type :: scope_type
  js_status :: scope_status
  js_created_at :: int
  js_closed_at :: "int option"

record journal_entry =
  je_entry_id :: nat
  je_scope_id :: string
  je_scope_type :: scope_type
  je_operation :: file_operation
  je_path :: string
  je_original_hash :: "string option"
  je_storage_strategy :: storage_strategy
  je_original_content :: "content option"
  je_original_mode :: "nat option"
  je_created_at :: int
  je_rolled_back :: bool

record journal_store =
  jn_entries :: "journal_entry list"
  jn_scopes :: "journal_scope list"
  jn_next_entry_id :: nat

definition journal_new :: journal_store where
  "journal_new = \<lparr>jn_entries = [], jn_scopes = [], jn_next_entry_id = 1\<rparr>"

definition open_scope :: "string \<Rightarrow> scope_type \<Rightarrow> int \<Rightarrow> journal_store \<Rightarrow> journal_store" where
  "open_scope i ty now s = s\<lparr>jn_scopes := jn_scopes s @
     [\<lparr>js_scope_id = i, js_scope_type = ty, js_status = ScopeOpen, js_created_at = now, js_closed_at = None\<rparr>]\<rparr>"

fun update_first :: "('a \<Rightarrow> bool) \<Rightarrow> ('a \<Rightarrow> 'a) \<Rightarrow> 'a list \<Rightarrow> 'a list" where
  "update_first P f [] = []"
| "update_first P f (x # xs) = (if P x then f x # xs else x # update_first P f xs)"

definition set_scope_status :: "string \<Rightarrow> scope_status \<Rightarrow> int \<Rightarrow> journal_store \<Rightarrow> bool \<times> journal_store" where
  "set_scope_status i st now s =
     (list_ex (\<lambda>c. js_scope_id c = i) (jn_scopes s),
      s\<lparr>jn_scopes := update_first (\<lambda>c. js_scope_id c = i)
          (\<lambda>c. (if st = ScopeClosed then c\<lparr>js_closed_at := Some now\<rparr> else c)\<lparr>js_status := st\<rparr>) (jn_scopes s)\<rparr>)"

definition close_scope :: "string \<Rightarrow> int \<Rightarrow> journal_store \<Rightarrow> bool \<times> journal_store" where
  "close_scope i now s = set_scope_status i ScopeClosed now s"

definition get_scope :: "string \<Rightarrow> journal_store \<Rightarrow> journal_scope option" where
  "get_scope i s = find (\<lambda>c. js_scope_id c = i) (jn_scopes s)"

definition add_entry :: "journal_entry \<Rightarrow> journal_store \<Rightarrow> nat \<times> journal_store" where
  "add_entry e s = (jn_next_entry_id s,
     s\<lparr>jn_entries := jn_entries s @ [e\<lparr>je_entry_id := jn_next_entry_id s\<rparr>], jn_next_entry_id := jn_next_entry_id s + 1\<rparr>)"

definition get_entries_by_scope :: "string \<Rightarrow> journal_store \<Rightarrow> journal_entry list" where
  "get_entries_by_scope i s = filter (\<lambda>e. je_scope_id e = i) (jn_entries s)"

definition get_entries_by_scope_reverse :: "string \<Rightarrow> journal_store \<Rightarrow> journal_entry list" where
  "get_entries_by_scope_reverse i s = rev (filter (\<lambda>e. je_scope_id e = i) (jn_entries s))"

definition mark_rolled_back :: "nat \<Rightarrow> journal_store \<Rightarrow> bool \<times> journal_store" where
  "mark_rolled_back n s =
     (list_ex (\<lambda>e. je_entry_id e = n) (jn_entries s),
      s\<lparr>jn_entries := update_first (\<lambda>e. je_entry_id e = n) (\<lambda>e. e\<lparr>je_rolled_back := True\<rparr>) (jn_entries s)\<rparr>)"

definition entry_count :: "journal_store \<Rightarrow> nat" where
  "entry_count s = length (jn_entries s)"

section \<open>Capture\<close>

definition blob_threshold :: nat where
  "blob_threshold = 10 * 1024 * 1024"

text \<open>The metadata of an existing file, then its content, are read; both may fail.\<close>

definition compute_hash_from_path :: "(content \<Rightarrow> string) \<Rightarrow> string \<Rightarrow> content \<Rightarrow> disk \<Rightarrow> (journal_error + string) \<times> disk" where
  "compute_hash_from_path sha path c d = (case next_fault d of
      (Some e, d') \<Rightarrow> (Inl (JeCaptureFailed path e), d')
    | (None, d') \<Rightarrow> (Inr (sha c), d'))"

definition read_before ::
  "(content \<Rightarrow> string) \<Rightarrow> nat \<Rightarrow> string \<Rightarrow> disk \<Rightarrow>
   (journal_error + file_operation \<times> content option \<times> string option \<times> nat option) \<times> disk" where
  "read_before sha mode path d = (case dk_files d path of
      None \<Rightarrow> (Inr (OpCreate, None, None, None), d)
    | Some c \<Rightarrow> (case next_fault d of
        (Some e, d1) \<Rightarrow> (Inl (JeCaptureFailed path e), d1)
      | (None, d1) \<Rightarrow>
          if blob_threshold < length c
          then (case compute_hash_from_path sha path c d1 of
              (Inl e, d2) \<Rightarrow> (Inl e, d2)
            | (Inr h, d2) \<Rightarrow> (Inr (OpModify, None, Some h, None), d2))
          else (case next_fault d1 of
              (Some e, d2) \<Rightarrow> (Inl (JeCaptureFailed path e), d2)
            | (None, d2) \<Rightarrow> (Inr (OpModify, Some c, Some (sha c), Some mode), d2))))"

definition capture_before ::
  "(content \<Rightarrow> string) \<Rightarrow> nat \<Rightarrow> string \<Rightarrow> scope_type \<Rightarrow> bool \<Rightarrow> string \<Rightarrow> journal_store \<times> disk \<Rightarrow>
   (journal_error + nat option) \<times> journal_store \<times> disk" where
  "capture_before sha mode i ty mutating path = (\<lambda>(s, d).
     if \<not> mutating then (Inr None, s, d)
     else (case read_before sha mode path d of
        (Inl e, d') \<Rightarrow> (Inl e, s, d')
      | (Inr (op, c, h, m), d') \<Rightarrow>
          (case add_entry \<lparr>je_entry_id = 0, je_scope_id = i, je_scope_type = ty, je_operation = op, je_path = path,
              je_original_hash = h, je_storage_strategy = (if c \<noteq> None then Inline else MetadataOnly),
              je_original_content = c, je_original_mode = m, je_created_at = dk_now d, je_rolled_back = False\<rparr> s of
             (n, s') \<Rightarrow> (Inr (Some n), s', d'))))"

section \<open>Conflicts\<close>

datatype conflict_status = CsSafe | CsConflict string | CsFileMissing | CsNoHashAvailable

definition detect_conflict :: "(content \<Rightarrow> string) \<Rightarrow> journal_entry \<Rightarrow> disk \<Rightarrow> conflict_status \<times> disk" where
  "detect_conflict sha e d = (case dk_files d (je_path e) of
      None \<Rightarrow> (CsFileMissing, d)
    | Some c \<Rightarrow> (case je_original_hash e of
        None \<Rightarrow> (CsNoHashAvailable, d)
      | Some h \<Rightarrow> (case next_fault d of
          (Some _, d') \<Rightarrow> (CsFileMissing, d')
        | (None, d') \<Rightarrow> (if sha c = h then CsSafe else CsConflict (sha c), d'))))"

section \<open>Rollback\<close>

record rollback_report =
  ro_restored :: nat
  ro_skipped :: nat
  ro_conflicts :: "string list"

definition empty_report :: rollback_report where
  "empty_report = \<lparr>ro_restored = 0, ro_skipped = 0, ro_conflicts = []\<rparr>"

definition one_restored :: "rollback_report \<Rightarrow> rollback_report" where
  "one_restored r = r\<lparr>ro_restored := ro_restored r + 1\<rparr>"

definition one_skipped :: "rollback_report \<Rightarrow> rollback_report" where
  "one_skipped r = r\<lparr>ro_skipped := ro_skipped r + 1\<rparr>"

text \<open>\<open>tokio::fs::write\<close>; a failed call leaves the file as it was.\<close>

definition write_file :: "string \<Rightarrow> string \<Rightarrow> content \<Rightarrow> disk \<Rightarrow> (journal_error + unit) \<times> disk" where
  "write_file what path c d = (case next_fault d of
      (Some e, d') \<Rightarrow> (Inl (JeStorageError (what @ path @ '': '' @ e)), d')
    | (None, d') \<Rightarrow> (Inr (), d'\<lparr>dk_files := (dk_files d')(path := Some c)\<rparr>))"

definition undo_entry ::
  "(content \<Rightarrow> string) \<Rightarrow> journal_entry \<Rightarrow> rollback_report \<times> journal_store \<times> disk \<Rightarrow>
   (journal_error + rollback_report) \<times> journal_store \<times> disk" where
  "undo_entry sha e = (\<lambda>(r, s, d).
     let finish = (\<lambda>d'. (Inr (one_restored r), snd (mark_rolled_back (je_entry_id e) s), d'));
         restore = (\<lambda>what d'. case je_original_content e of
             None \<Rightarrow> finish d'
           | Some c \<Rightarrow> (case write_file what (je_path e) c d' of (Inl x, d'') \<Rightarrow> (Inl x, s, d'') | (Inr _, d'') \<Rightarrow> finish d''))
     in if je_rolled_back e then (Inr (one_skipped r), s, d)
     else case je_operation e of
        OpCreate \<Rightarrow>
          if dk_files d (je_path e) = None then finish d
          else (case remove_user_file (je_path e) d of
              (Inl x, d') \<Rightarrow> (Inl (JeStorageError (''failed to delete '' @ je_path e @ '': '' @ x)), s, d')
            | (Inr _, d') \<Rightarrow> finish d')
      | OpModify \<Rightarrow> (case detect_conflict sha e d of
            (CsConflict _, d') \<Rightarrow> (Inr (r\<lparr>ro_conflicts := ro_conflicts r @ [je_path e]\<rparr>), s, d')
          | (CsNoHashAvailable, d') \<Rightarrow> (Inr (one_skipped r), s, d')
          | (_, d') \<Rightarrow> if je_storage_strategy e = Inline then restore ''failed to restore '' d' else finish d')
      | OpDelete \<Rightarrow> restore ''failed to recreate '' d
      | OpRename _ \<Rightarrow> (Inr (one_skipped r), s, d))"

fun undo_all ::
  "(content \<Rightarrow> string) \<Rightarrow> journal_entry list \<Rightarrow> rollback_report \<times> journal_store \<times> disk \<Rightarrow>
   (journal_error + rollback_report) \<times> journal_store \<times> disk" where
  "undo_all sha [] (r, s, d) = (Inr r, s, d)"
| "undo_all sha (e # es) (r, s, d) = (case undo_entry sha e (r, s, d) of
      (Inl x, s', d') \<Rightarrow> (Inl x, s', d')
    | (Inr r', s', d') \<Rightarrow> undo_all sha es (r', s', d'))"

definition rollback_scope ::
  "(content \<Rightarrow> string) \<Rightarrow> string \<Rightarrow> journal_store \<times> disk \<Rightarrow> (journal_error + rollback_report) \<times> journal_store \<times> disk" where
  "rollback_scope sha i = (\<lambda>(s, d).
     let entries = get_entries_by_scope_reverse i s
     in if entries = [] then (Inl (JeScopeNotFound i), s, d)
        else case undo_all sha entries (empty_report, s, d) of
           (Inl x, s', d') \<Rightarrow> (Inl x, s', d')
         | (Inr r, s', d') \<Rightarrow> (Inr r, snd (set_scope_status i ScopeRolledBack (dk_now d') s'), d'))"

section \<open>Captured entries\<close>

definition captured_entry :: "(content \<Rightarrow> string) \<Rightarrow> journal_entry \<Rightarrow> bool" where
  "captured_entry sha e = (case je_operation e of
      OpCreate \<Rightarrow> True
    | OpModify \<Rightarrow> (case je_original_content e of
        None \<Rightarrow> je_original_hash e \<noteq> None
      | Some c \<Rightarrow> je_storage_strategy e = Inline \<and> je_original_hash e = Some (sha c))
    | _ \<Rightarrow> False)"

definition all_captured :: "(content \<Rightarrow> string) \<Rightarrow> journal_store \<Rightarrow> bool" where
  "all_captured sha s = list_all (captured_entry sha) (jn_entries s)"

lemma capture_keeps_captured:
  assumes "all_captured sha s" "capture_before sha mode i ty mutating path (s, d) = (res, s', d')"
  shows "all_captured sha s'" "dk_files d' = dk_files d"
  using assms
  by (auto simp: capture_before_def read_before_def compute_hash_from_path_def add_entry_def next_fault_def
      all_captured_def captured_entry_def split: if_splits option.splits list.splits prod.splits sum.splits)

lemma update_first_all: "list_all P xs \<Longrightarrow> (\<And>x. P x \<Longrightarrow> P (f x)) \<Longrightarrow> list_all P (update_first Q f xs)"
  by (induction xs) auto

section \<open>What a rollback leaves\<close>

text \<open>The content of one file, entry by entry from the newest: a created file is deleted, and a
  modified one is written only when it is missing.\<close>

fun undo_file :: "journal_entry list \<Rightarrow> content option \<Rightarrow> content option" where
  "undo_file [] f = f"
| "undo_file (e # es) f = undo_file es
     (if je_rolled_back e then f
      else if je_operation e = OpCreate then None
      else if f = None then je_original_content e else f)"

lemma no_fault_next: "dk_faults d = [] \<Longrightarrow> next_fault d = (None, d)"
  by (simp add: next_fault_def)

definition contents_in :: "content set \<Rightarrow> disk \<Rightarrow> bool" where
  "contents_in C d = (\<forall>p c. dk_files d p = Some c \<longrightarrow> c \<in> C)"

definition entry_in :: "(content \<Rightarrow> string) \<Rightarrow> content set \<Rightarrow> journal_entry \<Rightarrow> bool" where
  "entry_in sha C e = (captured_entry sha e \<and> (\<forall>c. je_original_content e = Some c \<longrightarrow> c \<in> C))"

lemma undo_modify_calm:
  assumes e: "entry_in sha C e" "je_operation e = OpModify" "\<not> je_rolled_back e"
    and d: "dk_faults d = []" "contents_in C d" and inj: "inj_on sha C"
  shows "\<exists>r' s' d'. undo_entry sha e (r, s, d) = (Inr r', s', d') \<and> dk_faults d' = []
    \<and> dk_files d' = (dk_files d)(je_path e := if dk_files d (je_path e) = None then je_original_content e else dk_files d (je_path e))"
proof (cases "dk_files d (je_path e)")
  case None
  then have "detect_conflict sha e d = (CsFileMissing, d)" by (simp add: detect_conflict_def)
  moreover have "je_original_content e = None \<or> je_storage_strategy e = Inline"
    using e(1,2) by (auto simp: entry_in_def captured_entry_def split: option.splits)
  ultimately show ?thesis
    using None e(2,3) d(1)
    by (cases "je_original_content e") (auto simp: undo_entry_def write_file_def no_fault_next fun_upd_idem)
next
  case (Some c)
  obtain h where h: "je_original_hash e = Some h"
    using e(1,2) by (auto simp: entry_in_def captured_entry_def split: option.splits)
  then have check: "detect_conflict sha e d = (if sha c = h then CsSafe else CsConflict (sha c), d)"
    using Some d(1) by (simp add: detect_conflict_def no_fault_next)
  show ?thesis
  proof (cases "sha c = h \<and> je_storage_strategy e = Inline \<and> je_original_content e \<noteq> None")
    case True
    then obtain c0 where c0: "je_original_content e = Some c0" by blast
    then have "sha c0 = h" "c0 \<in> C" "c \<in> C"
      using e(1,2) h Some d(2) by (auto simp: entry_in_def captured_entry_def contents_in_def)
    then have "c0 = c" using True inj by (metis inj_onD)
    then show ?thesis using True c0 e(2,3) d(1) Some check
      by (simp add: undo_entry_def write_file_def no_fault_next)
  next
    case False
    then show ?thesis using e(2,3) d(1) Some check
      by (cases "je_original_content e") (auto simp: undo_entry_def fun_upd_idem)
  qed
qed

lemma undo_entry_calm:
  assumes e: "entry_in sha C e" and d: "dk_faults d = []" "contents_in C d" and inj: "inj_on sha C"
  shows "\<exists>r' s' d'. undo_entry sha e (r, s, d) = (Inr r', s', d') \<and> dk_faults d' = [] \<and> contents_in C d'
    \<and> (\<forall>p. dk_files d' p = (if p = je_path e then undo_file [e] (dk_files d p) else dk_files d p))"
proof -
  consider "je_rolled_back e" | "\<not> je_rolled_back e" "je_operation e = OpCreate" | "\<not> je_rolled_back e" "je_operation e = OpModify"
    using e by (cases "je_operation e") (auto simp: entry_in_def captured_entry_def)
  then show ?thesis
  proof cases
    case 1
    then show ?thesis using d by (simp add: undo_entry_def)
  next
    case 2
    then show ?thesis using d
      by (cases "dk_files d (je_path e)") (auto simp: undo_entry_def remove_user_file_def no_fault_next contents_in_def)
  next
    case 3
    obtain r' s' d' where u: "undo_entry sha e (r, s, d) = (Inr r', s', d')" "dk_faults d' = []"
      "dk_files d' = (dk_files d)(je_path e := if dk_files d (je_path e) = None then je_original_content e else dk_files d (je_path e))"
      using undo_modify_calm [OF e 3(2,1) d inj] by blast
    moreover have "contents_in C d'" using d(2) e by (auto simp: u(3) contents_in_def entry_in_def split: if_splits)
    ultimately show ?thesis using 3 by auto
  qed
qed

lemma undo_all_calm:
  assumes "\<forall>e \<in> set es. entry_in sha C e" "dk_faults d = []" "contents_in C d" "inj_on sha C"
  shows "\<exists>r' s' d'. undo_all sha es (r, s, d) = (Inr r', s', d')
    \<and> (\<forall>p. dk_files d' p = undo_file (filter (\<lambda>e. je_path e = p) es) (dk_files d p))"
  using assms(1-3)
proof (induction es arbitrary: r s d)
  case (Cons e es)
  have e: "entry_in sha C e" and es: "\<forall>e \<in> set es. entry_in sha C e" using Cons.prems(1) by simp_all
  obtain r1 s1 d1 where one: "undo_entry sha e (r, s, d) = (Inr r1, s1, d1)" "dk_faults d1 = []" "contents_in C d1"
    "\<forall>p. dk_files d1 p = (if p = je_path e then undo_file [e] (dk_files d p) else dk_files d p)"
    using undo_entry_calm [OF e Cons.prems(2,3) assms(4)] by blast
  obtain r2 s2 d2 where two: "undo_all sha es (r1, s1, d1) = (Inr r2, s2, d2)"
    "\<forall>p. dk_files d2 p = undo_file (filter (\<lambda>e. je_path e = p) es) (dk_files d1 p)"
    using Cons.IH [OF es one(2,3)] by blast
  show ?case using one(1,4) two by simp
qed simp

text \<open>C21: A rollback of a scope whose entries were captured before its tools ran, without failures of
  the disk: every file ends as the entries replayed from the newest say, where a created file is
  deleted and a modified file is written back only when it is missing.
\<close>
theorem rollback_outcome:
  assumes "\<forall>e \<in> set (jn_entries s). entry_in sha C e" "dk_faults d = []" "contents_in C d" "inj_on sha C"
    and "get_entries_by_scope i s \<noteq> []"
  shows "\<exists>r s' d'. rollback_scope sha i (s, d) = (Inr r, s', d')
    \<and> (\<forall>p. dk_files d' p = undo_file (filter (\<lambda>e. je_path e = p) (rev (get_entries_by_scope i s))) (dk_files d p))"
proof -
  let ?es = "get_entries_by_scope_reverse i s"
  have "\<forall>e \<in> set ?es. entry_in sha C e" using assms(1) by (simp add: get_entries_by_scope_reverse_def)
  from undo_all_calm [OF this assms(2-4)] obtain r s' d' where u: "undo_all sha ?es (empty_report, s, d) = (Inr r, s', d')"
    "\<forall>p. dk_files d' p = undo_file (filter (\<lambda>e. je_path e = p) ?es) (dk_files d p)" by blast
  have "?es \<noteq> []" "?es = rev (get_entries_by_scope i s)"
    using assms(5) by (simp_all add: get_entries_by_scope_def get_entries_by_scope_reverse_def)
  then show ?thesis using u by (simp add: rollback_scope_def Let_def)
qed

lemma undo_file_keeps: "\<forall>e \<in> set es. je_operation e \<noteq> OpCreate \<Longrightarrow> undo_file es (Some c) = Some c"
  by (induction es) auto

text \<open>A modified file that still exists keeps what the tool wrote.\<close>

lemma rollback_keeps_modified_files:
  assumes "\<forall>e \<in> set (jn_entries s). entry_in sha C e" "dk_faults d = []" "contents_in C d" "inj_on sha C"
    and "get_entries_by_scope i s \<noteq> []" "dk_files d p = Some c"
    and "\<forall>e \<in> set (get_entries_by_scope i s). je_path e = p \<longrightarrow> je_operation e = OpModify"
  shows "\<exists>r s' d'. rollback_scope sha i (s, d) = (Inr r, s', d') \<and> dk_files d' p = Some c"
proof -
  obtain r s' d' where u: "rollback_scope sha i (s, d) = (Inr r, s', d')"
    "\<forall>p. dk_files d' p = undo_file (filter (\<lambda>e. je_path e = p) (rev (get_entries_by_scope i s))) (dk_files d p)"
    using rollback_outcome [OF assms(1-5)] by blast
  have "undo_file (filter (\<lambda>e. je_path e = p) (rev (get_entries_by_scope i s))) (Some c) = Some c"
    using assms(7) by (intro undo_file_keeps) auto
  with u assms(6) show ?thesis by auto
qed

section \<open>Capturing, modifying, rolling back\<close>

lemma capture_existing:
  assumes "dk_files d p = Some c" "length c \<le> blob_threshold" "dk_faults d = []"
  shows "capture_before sha mode i ty True p (s, d) = (Inr (Some (jn_next_entry_id s)),
    s\<lparr>jn_entries := jn_entries s @ [\<lparr>je_entry_id = jn_next_entry_id s, je_scope_id = i, je_scope_type = ty,
        je_operation = OpModify, je_path = p, je_original_hash = Some (sha c), je_storage_strategy = Inline,
        je_original_content = Some c, je_original_mode = Some mode, je_created_at = dk_now d, je_rolled_back = False\<rparr>],
      jn_next_entry_id := jn_next_entry_id s + 1\<rparr>, d)"
  using assms by (simp add: capture_before_def read_before_def no_fault_next add_entry_def)

text \<open>When the only entry of a scope was captured from an existing file of at most the threshold
  and the tool then gave the file a content of another digest, the rollback of the scope reports
  the file as a conflict, restores nothing and leaves what the tool wrote.
\<close>
theorem modified_files_stay_modified:
  assumes "dk_files d p = Some c" "length c \<le> blob_threshold" "dk_faults d = []"
    and "get_entries_by_scope i s = []" "sha c' \<noteq> sha c"
    and "capture_before sha mode i ty True p (s, d) = (res, s1, d1)"
  shows "\<exists>s2 d2. rollback_scope sha i (s1, d1\<lparr>dk_files := (dk_files d1)(p := Some c')\<rparr>) =
      (Inr \<lparr>ro_restored = 0, ro_skipped = 0, ro_conflicts = [p]\<rparr>, s2, d2) \<and> dk_files d2 p = Some c'"
proof -
  have none: "filter (\<lambda>e. je_scope_id e = i) (jn_entries s) = []"
    using assms(4) by (simp add: get_entries_by_scope_def)
  show ?thesis
    using assms(6,5,3) none
    by (auto simp: capture_existing [OF assms(1-3)] rollback_scope_def get_entries_by_scope_reverse_def Let_def
        undo_entry_def detect_conflict_def no_fault_next empty_report_def)
qed

definition note_disk :: disk where
  "note_disk = \<lparr>dk_files = [''note'' \<mapsto> [1, 2]], dk_backups = (\<lambda>_. None), dk_sidecar = SidecarMissing,
     dk_now = 0, dk_faults = []\<rparr>"

definition length_digest :: "content \<Rightarrow> string" where
  "length_digest c = show_nat (length c)"

lemma modified_files_stay_modified_witness:
  "\<exists>s1 d1 s2 d2. capture_before length_digest 420 ''s'' ScopeTask True ''note'' (journal_new, note_disk) = (Inr (Some 1), s1, d1)
    \<and> rollback_scope length_digest ''s'' (s1, d1\<lparr>dk_files := (dk_files d1)(''note'' := Some [9])\<rparr>) =
      (Inr \<lparr>ro_restored = 0, ro_skipped = 0, ro_conflicts = [''note'']\<rparr>, s2, d2) \<and> dk_files d2 ''note'' = Some [9]"
proof -
  have kept: "dk_files note_disk ''note'' = Some [1, 2]" "length [1, 2 :: 8 word] \<le> blob_threshold" "dk_faults note_disk = []"
    by (simp_all add: note_disk_def blob_threshold_def)
  have new: "get_entries_by_scope ''s'' journal_new = []" by (simp add: get_entries_by_scope_def journal_new_def)
  have other: "length_digest [9] \<noteq> length_digest [1, 2]" by code_simp
  obtain res s1 d1 where run: "capture_before length_digest 420 ''s'' ScopeTask True ''note'' (journal_new, note_disk) = (res, s1, d1)"
    by (metis surj_pair)
  have "res = Inr (Some 1)" using run unfolding capture_existing [OF kept] by (simp add: journal_new_def)
  then show ?thesis
    using run modified_files_stay_modified [OF kept new other run] by metis
qed

definition note_entry :: "file_operation \<Rightarrow> string \<Rightarrow> content option \<Rightarrow> journal_entry" where
  "note_entry op p c = \<lparr>je_entry_id = 1, je_scope_id = ''s'', je_scope_type = ScopeTask, je_operation = op, je_path = p,
     je_original_hash = map_option length_digest c, je_storage_strategy = Inline, je_original_content = c,
     je_original_mode = None, je_created_at = 0, je_rolled_back = False\<rparr>"

definition note_store :: journal_store where
  "note_store = \<lparr>jn_entries = [note_entry OpModify ''note'' (Some [1, 2]), note_entry OpModify ''gone'' (Some [7]),
     note_entry OpCreate ''made'' None], jn_scopes = [], jn_next_entry_id = 4\<rparr>"

lemma rollback_outcome_witness:
  "\<exists>r s' d'. rollback_scope length_digest ''s''
      (note_store, note_disk\<lparr>dk_files := [''note'' \<mapsto> [3, 4, 5], ''made'' \<mapsto> [3, 4, 5]]\<rparr>) = (Inr r, s', d')
    \<and> dk_files d' ''note'' = Some [3, 4, 5] \<and> dk_files d' ''gone'' = Some [7] \<and> dk_files d' ''made'' = None"
proof -
  let ?C = "{[1, 2], [7], [3, 4, 5]} :: content set" and ?d = "note_disk\<lparr>dk_files := [''note'' \<mapsto> [3, 4, 5], ''made'' \<mapsto> [3, 4, 5]]\<rparr>"
  have entries: "\<forall>e \<in> set (jn_entries note_store). entry_in length_digest ?C e"
    by (simp add: note_store_def note_entry_def entry_in_def captured_entry_def)
  have calm: "dk_faults ?d = []" "contents_in ?C ?d" by (simp_all add: note_disk_def contents_in_def)
  have "length_digest [1, 2] \<noteq> length_digest [7]" "length_digest [1, 2] \<noteq> length_digest [3, 4, 5]"
    "length_digest [7] \<noteq> length_digest [3, 4, 5]" by code_simp+
  then have inj: "inj_on length_digest ?C" by (simp add: inj_on_def)
  have some: "get_entries_by_scope ''s'' note_store \<noteq> []"
    by (simp add: get_entries_by_scope_def note_store_def note_entry_def)
  obtain r s' d' where u: "rollback_scope length_digest ''s'' (note_store, ?d) = (Inr r, s', d')"
    "\<forall>p. dk_files d' p = undo_file (filter (\<lambda>e. je_path e = p) (rev (get_entries_by_scope ''s'' note_store))) (dk_files ?d p)"
    using rollback_outcome [OF entries calm inj some] by blast
  have "dk_files d' ''note'' = Some [3, 4, 5]" "dk_files d' ''gone'' = Some [7]" "dk_files d' ''made'' = None"
    unfolding u(2) [rule_format] by (simp_all add: get_entries_by_scope_def note_store_def note_entry_def)
  with u(1) show ?thesis by blast
qed

end
