(* ===== verification/Json.thy ===== *)
theory Json
  imports Prelude "HOL-Library.Word"
begin

text \<open>
  The values of \<open>serde_json\<close> as the crate documents them: numbers are unsigned, negative or
  floating (by the bits of the double), and the keys of an object are distinct, in the order of
  their insertion.
\<close>

datatype json_number = PosInt nat | NegInt int | Float "64 word"

datatype json =
  JNull
| JBool bool
| JNumber json_number
| JString string
| JArray "json list"
| JObject "(string \<times> json) list"

abbreviation json_nat :: "nat \<Rightarrow> json" where
  "json_nat n \<equiv> JNumber (PosInt n)"

text \<open>\<open>Map::get\<close> and \<open>Map::insert\<close>, which keeps the place of a key.\<close>

fun obj_insert :: "string \<Rightarrow> 'v \<Rightarrow> (string \<times> 'v) list \<Rightarrow> (string \<times> 'v) list" where
  "obj_insert k v [] = [(k, v)]"
| "obj_insert k v ((k', v') # m) = (if k = k' then (k, v) # m else (k', v') # obj_insert k v m)"

definition obj_get :: "string \<Rightarrow> (string \<times> 'v) list \<Rightarrow> 'v option" where
  "obj_get k m = map_of m k"

text \<open>The object of \<open>json!\<close>.\<close>

definition json_object :: "(string \<times> json) list \<Rightarrow> json" where
  "json_object kvs = JObject (fold (\<lambda>(k, v). obj_insert k v) kvs [])"

fun json_get :: "string \<Rightarrow> json \<Rightarrow> json option" where
  "json_get k (JObject m) = obj_get k m"
| "json_get k _ = None"

definition json_opt_string :: "string option \<Rightarrow> json" where
  "json_opt_string s = (case s of None \<Rightarrow> JNull | Some t \<Rightarrow> JString t)"

lemma obj_get_Nil [simp]: "obj_get k [] = None"
  by (simp add: obj_get_def)

lemma obj_get_insert [simp]: "obj_get k (obj_insert k' v m) = (if k = k' then Some v else obj_get k m)"
  by (induction m) (auto simp: obj_get_def)

lemma obj_get_fold: "obj_get k (fold (\<lambda>(k, v). obj_insert k v) kvs m) =
    (case map_of (rev kvs) k of Some v \<Rightarrow> Some v | None \<Rightarrow> obj_get k m)"
  by (induction kvs arbitrary: m) (auto simp: map_add_def split: option.splits)

lemma json_get_object [simp]: "json_get k (json_object kvs) = map_of (rev kvs) k"
  by (simp add: json_object_def obj_get_fold split: option.split)

lemma keys_insert [simp]: "fst ` set (obj_insert k v m) = insert k (fst ` set m)"
proof (induction m)
  case (Cons a m)
  then show ?case by (cases a) (simp add: insert_commute)
qed simp

lemma distinct_insert: "distinct (map fst m) \<Longrightarrow> distinct (map fst (obj_insert k v m))"
proof (induction m)
  case (Cons a m)
  have "fst a \<notin> fst ` set (obj_insert k v m)" if "k \<noteq> fst a"
    using that Cons.prems by (simp add: keys_insert)
  then show ?case using Cons by (cases a) (auto simp del: keys_insert)
qed simp

text \<open>Values as the crate builds them: the keys are distinct at every level.\<close>

fun json_ok :: "json \<Rightarrow> bool" where
  "json_ok (JArray xs) = (\<forall>x \<in> set xs. json_ok x)"
| "json_ok (JObject m) = (distinct (map fst m) \<and> (\<forall>kv \<in> set m. json_ok (snd kv)))"
| "json_ok _ = True"

end
