(* ===== verification/Scheduler.thy ===== *)
theory Scheduler
  imports Json
begin

text \<open>
  The scheduler (\<open>y-scheduler/src\<close>): schedules and their store (\<open>store.rs\<close>, \<open>config.rs\<close>),
  triggers (\<open>trigger.rs\<close>, \<open>interval.rs\<close>, \<open>cron.rs\<close>, \<open>onetime.rs\<close>), recovery after downtime
  (\<open>recovery.rs\<close>), execution records (\<open>executor.rs\<close>), events (\<open>event_bridge.rs\<close>) and parameters
  (\<open>params.rs\<close>).

  An instant is the number of nanoseconds since 1970 and a \<open>Duration\<close> a number of nanoseconds;
  arithmetic that leaves the range of \<open>chrono\<close> panics, which is \<open>None\<close>.  The next occurrence of
  a cron expression, from a crate outside the repository, and the texts of an instant, that of
  \<open>to_rfc3339\<close> and that of its serialization, are parameters.
\<close>

section \<open>Instants\<close>

type_synonym instant = int

definition second :: int where "second = 10 ^ 9"

definition i64_max :: int where "i64_max = 2 ^ 63 - 1"

definition max_instant :: int where
  "max_instant = 8210266876799 * second + 999999999"

text \<open>\<open>Duration::seconds\<close> and the sum of an instant and a duration.\<close>

definition duration_seconds :: "int \<Rightarrow> int option" where
  "duration_seconds n = (if n \<le> i64_max div 1000 then Some (n * second) else None)"

definition time_add :: "instant \<Rightarrow> int \<Rightarrow> instant option" where
  "time_add t d = (if t + d \<le> max_instant then Some (t + d) else None)"

text \<open>\<open>num_seconds\<close> rounds towards zero.\<close>

definition num_seconds :: "int \<Rightarrow> int" where
  "num_seconds d = (if d < 0 then - ((- d) div second) else d div second)"

definition u64_to_i64 :: "nat \<Rightarrow> int" where
  "u64_to_i64 n = min (int n) i64_max"

section \<open>Schedules\<close>

datatype trigger_config =
  TcCron string string
| TcInterval nat
| TcEvent string nat
| TcOneTime instant

datatype missed_policy = MpCatchUp | MpSkip | MpBackfill

datatype concurrency_policy = CpAllow | CpSkipIfRunning | CpQueue | CpCancelPrevious

record schedule_policies =
  sp_missed :: missed_policy
  sp_concurrency :: concurrency_policy
  sp_max_executions_per_hour :: nat

definition default_policies :: schedule_policies where
  "default_policies = \<lparr>sp_missed = MpSkip, sp_concurrency = CpSkipIfRunning, sp_max_executions_per_hour = 0\<rparr>"

record schedule =
  sch_id :: string
  sch_name :: string
  sch_enabled :: bool
  sch_trigger :: trigger_config
  sch_workflow_id :: string
  sch_parameter_values :: json
  sch_policies :: schedule_policies
  sch_description :: string
  sch_tags :: "string list"
  sch_created_at :: instant
  sch_updated_at :: instant
  sch_last_fire :: "instant option"

definition schedule_new :: "string \<Rightarrow> string \<Rightarrow> trigger_config \<Rightarrow> string \<Rightarrow> instant \<Rightarrow> schedule" where
  "schedule_new i name tc w now = \<lparr>sch_id = i, sch_name = name, sch_enabled = True, sch_trigger = tc,
     sch_workflow_id = w, sch_parameter_values = JObject [], sch_policies = default_policies, sch_description = [],
     sch_tags = [], sch_created_at = now, sch_updated_at = now, sch_last_fire = None\<rparr>"

section \<open>The store\<close>

type_synonym schedule_store = "schedule list"

definition store_get :: "string \<Rightarrow> schedule_store \<Rightarrow> schedule option" where
  "store_get i st = find (\<lambda>s. sch_id s = i) st"

definition store_remove :: "string \<Rightarrow> schedule_store \<Rightarrow> bool \<times> schedule_store" where
  "store_remove i st = (let st' = filter (\<lambda>s. sch_id s \<noteq> i) st in (length st' < length st, st'))"

definition store_register :: "schedule \<Rightarrow> schedule_store \<Rightarrow> schedule_store" where
  "store_register s st = filter (\<lambda>x. sch_id x \<noteq> sch_id s) st @ [s]"

text \<open>The first schedule with the identifier is changed.\<close>

fun change_first :: "string \<Rightarrow> (schedule \<Rightarrow> schedule) \<Rightarrow> schedule_store \<Rightarrow> schedule_store" where
  "change_first i f [] = []"
| "change_first i f (s # st) = (if sch_id s = i then f s # st else s # change_first i f st)"

definition store_update :: "schedule \<Rightarrow> schedule_store \<Rightarrow> bool \<times> schedule_store" where
  "store_update s st = (store_get (sch_id s) st \<noteq> None, change_first (sch_id s) (\<lambda>_. s) st)"

definition set_enabled :: "string \<Rightarrow> bool \<Rightarrow> instant \<Rightarrow> schedule_store \<Rightarrow> bool \<times> schedule_store" where
  "set_enabled i b now st =
     (store_get i st \<noteq> None, change_first i (\<lambda>s. s\<lparr>sch_enabled := b, sch_updated_at := now\<rparr>) st)"

definition update_last_fire :: "string \<Rightarrow> instant \<Rightarrow> schedule_store \<Rightarrow> schedule_store" where
  "update_last_fire i t st = change_first i (\<lambda>s. s\<lparr>sch_last_fire := Some t\<rparr>) st"

definition list_enabled :: "schedule_store \<Rightarrow> schedule list" where
  "list_enabled st = filter sch_enabled st"

definition list_by_tag :: "string \<Rightarrow> schedule_store \<Rightarrow> schedule list" where
  "list_by_tag tag st = filter (\<lambda>s. tag \<in> set (sch_tags s)) st"

section \<open>Triggers\<close>

datatype trigger_type = TtCron | TtInterval | TtEvent | TtOneTime

fun show_trigger_type :: "trigger_type \<Rightarrow> string" where
  "show_trigger_type TtCron = ''cron''"
| "show_trigger_type TtInterval = ''interval''"
| "show_trigger_type TtEvent = ''event''"
| "show_trigger_type TtOneTime = ''onetime''"

fun trigger_type_of :: "trigger_config \<Rightarrow> trigger_type" where
  "trigger_type_of (TcCron e tz) = TtCron"
| "trigger_type_of (TcInterval n) = TtInterval"
| "trigger_type_of (TcEvent e d) = TtEvent"
| "trigger_type_of (TcOneTime t) = TtOneTime"

record fired_trigger =
  ft_schedule_id :: string
  ft_fired_at :: instant
  ft_trigger_type :: trigger_type

definition make_trigger :: "schedule \<Rightarrow> instant \<Rightarrow> fired_trigger" where
  "make_trigger s t = \<lparr>ft_schedule_id = sch_id s, ft_fired_at = t, ft_trigger_type = trigger_type_of (sch_trigger s)\<rparr>"

text \<open>\<open>CronSchedule::next_fire\<close>: the expression is evaluated in the zone of the instant, UTC,
  whatever the timezone of the schedule.\<close>

type_synonym cron_next = "string \<Rightarrow> instant \<Rightarrow> instant option"

definition cron_next_fire :: "cron_next \<Rightarrow> string \<Rightarrow> instant \<Rightarrow> instant option" where
  "cron_next_fire cron expr after = cron expr after"

definition interval_next_fire :: "nat \<Rightarrow> instant \<Rightarrow> instant option" where
  "interval_next_fire n after =
     (case duration_seconds (u64_to_i64 n) of None \<Rightarrow> None | Some d \<Rightarrow> time_add after d)"

text \<open>\<open>OneTimeSchedule::new(at).should_fire(now)\<close>, of a schedule that is new each time.\<close>

record one_time_schedule =
  ot_at :: instant
  ot_fired :: bool

definition should_fire :: "one_time_schedule \<Rightarrow> instant \<Rightarrow> bool" where
  "should_fire o1 now = (\<not> ot_fired o1 \<and> ot_at o1 \<le> now)"

definition trigger_due :: "cron_next \<Rightarrow> schedule \<Rightarrow> instant \<Rightarrow> bool option" where
  "trigger_due cron s now = (case sch_trigger s of
      TcCron expr tz \<Rightarrow> Some (case sch_last_fire s of
          None \<Rightarrow> True
        | Some l \<Rightarrow> (case cron_next_fire cron expr l of None \<Rightarrow> False | Some t \<Rightarrow> t \<le> now))
    | TcInterval n \<Rightarrow> (case sch_last_fire s of
          None \<Rightarrow> Some True
        | Some l \<Rightarrow> map_option (\<lambda>t. t \<le> now) (interval_next_fire n l))
    | TcOneTime at1 \<Rightarrow> Some (should_fire \<lparr>ot_at = at1, ot_fired = False\<rparr> now)
    | TcEvent e d \<Rightarrow> Some False)"

definition evaluate_trigger :: "cron_next \<Rightarrow> schedule \<Rightarrow> instant \<Rightarrow> fired_trigger option option" where
  "evaluate_trigger cron s now =
     (if \<not> sch_enabled s then Some None
      else map_option (\<lambda>due. if due then Some (make_trigger s now) else None) (trigger_due cron s now))"

fun evaluate_all :: "cron_next \<Rightarrow> schedule list \<Rightarrow> instant \<Rightarrow> fired_trigger list option" where
  "evaluate_all cron [] now = Some []"
| "evaluate_all cron (s # ss) now = (case evaluate_trigger cron s now of
      None \<Rightarrow> None
    | Some f \<Rightarrow> map_option (\<lambda>fs. (case f of None \<Rightarrow> fs | Some x \<Rightarrow> x # fs)) (evaluate_all cron ss now))"

section \<open>Recovery\<close>

record recovery_result =
  rr_caught_up :: "string list"
  rr_skipped :: "string list"
  rr_backfilled :: "(string \<times> nat) list"

text \<open>The interval of a schedule, by two occurrences of its expression from a day before the
  clock; \<open>None\<close> outside is a panic, inside a schedule without one.\<close>

definition compute_interval :: "cron_next \<Rightarrow> instant \<Rightarrow> schedule \<Rightarrow> int option option" where
  "compute_interval cron clock s = (case sch_trigger s of
      TcInterval n \<Rightarrow> map_option Some (duration_seconds (u64_to_i64 n))
    | TcCron expr tz \<Rightarrow> Some (case cron_next_fire cron expr (clock - 86400 * second) of
          None \<Rightarrow> None
        | Some a \<Rightarrow> map_option (\<lambda>b. b - a) (cron_next_fire cron expr a))
    | _ \<Rightarrow> Some None)"

definition add_caught_up :: "string \<Rightarrow> recovery_result \<Rightarrow> recovery_result" where
  "add_caught_up i r = r\<lparr>rr_caught_up := rr_caught_up r @ [i]\<rparr>"

definition backfill_count :: "int \<Rightarrow> int \<Rightarrow> nat" where
  "backfill_count elapsed interval = min (nat (max (num_seconds elapsed div num_seconds interval) 1)) 100"

definition backfill_times :: "instant \<Rightarrow> int \<Rightarrow> nat \<Rightarrow> instant list" where
  "backfill_times l interval n = map (\<lambda>i. l + interval * (int i + 1)) [0..<n]"

text \<open>One schedule.  The quotient of whole seconds panics for an interval below a second.\<close>

definition recover_one :: "cron_next \<Rightarrow> instant \<Rightarrow> instant \<Rightarrow> schedule \<Rightarrow>
    fired_trigger list \<times> recovery_result \<Rightarrow> (fired_trigger list \<times> recovery_result) option" where
  "recover_one cron clock now s = (\<lambda>(fs, r). case sch_last_fire s of
      None \<Rightarrow> Some (fs @ [make_trigger s now], add_caught_up (sch_id s) r)
    | Some l \<Rightarrow> (case compute_interval cron clock s of
        None \<Rightarrow> None
      | Some None \<Rightarrow> Some (fs, r)
      | Some (Some interval) \<Rightarrow>
          if interval = 0 \<or> now - l \<le> interval then Some (fs, r)
          else (case sp_missed (sch_policies s) of
              MpSkip \<Rightarrow> Some (fs, r\<lparr>rr_skipped := rr_skipped r @ [sch_id s]\<rparr>)
            | MpCatchUp \<Rightarrow> Some (fs @ [make_trigger s now], add_caught_up (sch_id s) r)
            | MpBackfill \<Rightarrow>
                if num_seconds interval = 0 then None
                else (let n = backfill_count (now - l) interval in
                  Some (fs @ map (make_trigger s) (backfill_times l interval n),
                    r\<lparr>rr_backfilled := rr_backfilled r @ [(sch_id s, n)]\<rparr>)))))"

fun recover_all :: "cron_next \<Rightarrow> instant \<Rightarrow> instant \<Rightarrow> schedule list \<Rightarrow>
    fired_trigger list \<times> recovery_result \<Rightarrow> (fired_trigger list \<times> recovery_result) option" where
  "recover_all cron clock now [] acc = Some acc"
| "recover_all cron clock now (s # ss) acc = (case recover_one cron clock now s acc of
      None \<Rightarrow> None | Some acc' \<Rightarrow> recover_all cron clock now ss acc')"

definition recover_missed :: "cron_next \<Rightarrow> instant \<Rightarrow> instant \<Rightarrow> schedule_store \<Rightarrow>
    (fired_trigger list \<times> recovery_result) option" where
  "recover_missed cron clock now st = recover_all cron clock now (list_enabled st)
     ([], \<lparr>rr_caught_up = [], rr_skipped = [], rr_backfilled = []\<rparr>)"

section \<open>Executions\<close>

datatype execution_status = EsPending | EsRunning | EsCompleted | EsFailed | EsSkipped

fun show_execution_status :: "execution_status \<Rightarrow> string" where
  "show_execution_status EsPending = ''pending''"
| "show_execution_status EsRunning = ''running''"
| "show_execution_status EsCompleted = ''completed''"
| "show_execution_status EsFailed = ''failed''"
| "show_execution_status EsSkipped = ''skipped''"

record execution =
  ex_execution_id :: string
  ex_schedule_id :: string
  ex_triggered_at :: instant
  ex_started_at :: "instant option"
  ex_completed_at :: "instant option"
  ex_status :: execution_status
  ex_workflow_execution_id :: "string option"
  ex_request_summary :: json
  ex_response_summary :: json
  ex_error_message :: "string option"

type_synonym execution_store = "execution list"

definition max_per_schedule :: nat where "max_per_schedule = 100"

text \<open>\<open>retain\<close> without the first few records of a schedule.\<close>

fun drop_oldest :: "string \<Rightarrow> nat \<Rightarrow> execution_store \<Rightarrow> execution_store" where
  "drop_oldest i n [] = []"
| "drop_oldest i n (e # es) =
     (if ex_schedule_id e = i \<and> 0 < n then drop_oldest i (n - 1) es else e # drop_oldest i n es)"

definition record_execution :: "execution \<Rightarrow> execution_store \<Rightarrow> execution_store" where
  "record_execution e es =
     (let es' = es @ [e]; i = ex_schedule_id e; count = length (filter (\<lambda>x. ex_schedule_id x = i) es')
      in if max_per_schedule < count then drop_oldest i (count - max_per_schedule) es' else es')"

fun update_execution :: "string \<Rightarrow> (execution \<Rightarrow> execution) \<Rightarrow> execution_store \<Rightarrow> execution_store" where
  "update_execution i f [] = []"
| "update_execution i f (e # es) = (if ex_execution_id e = i then f e # es else e # update_execution i f es)"

definition get_history :: "string \<Rightarrow> execution_store \<Rightarrow> execution list" where
  "get_history i es = sort_key (\<lambda>e. - ex_triggered_at e) (filter (\<lambda>e. ex_schedule_id e = i) es)"

definition get_execution :: "string \<Rightarrow> execution_store \<Rightarrow> execution option" where
  "get_execution i es = find (\<lambda>e. ex_execution_id e = i) es"

definition list_recent :: "nat \<Rightarrow> execution_store \<Rightarrow> execution list" where
  "list_recent n es = take n (sort_key (\<lambda>e. - ex_triggered_at e) es)"

text \<open>The placeholder executor, with its counter per schedule.\<close>

fun trigger_json :: "(instant \<Rightarrow> string) \<Rightarrow> trigger_config \<Rightarrow> json" where
  "trigger_json ser (TcCron e tz) = json_object [(''type'', JString ''cron''), (''expression'', JString e), (''timezone'', JString tz)]"
| "trigger_json ser (TcInterval n) = json_object [(''type'', JString ''interval''), (''interval_secs'', json_nat n)]"
| "trigger_json ser (TcEvent e d) = json_object [(''type'', JString ''event''), (''event_type'', JString e), (''debounce_secs'', json_nat d)]"
| "trigger_json ser (TcOneTime t) = json_object [(''type'', JString ''one_time''), (''at'', JString (ser t))]"

type_synonym sequences = "string \<rightharpoonup> nat"

definition next_sequence_for :: "string \<Rightarrow> sequences \<Rightarrow> nat \<times> sequences" where
  "next_sequence_for i sq = (let n = (case sq i of Some n \<Rightarrow> n | None \<Rightarrow> 0) + 1 in (n, sq(i \<mapsto> n)))"

definition trigger_execution :: "(instant \<Rightarrow> string) \<Rightarrow> (instant \<Rightarrow> string) \<Rightarrow> instant \<Rightarrow> schedule \<Rightarrow>
    sequences \<times> schedule_store \<times> execution_store \<Rightarrow> string \<times> sequences \<times> schedule_store \<times> execution_store" where
  "trigger_execution rfc ser now s = (\<lambda>(sq, st, es).
     let (n, sq') = next_sequence_for (sch_id s) sq;
         eid = ''exec-'' @ sch_id s @ ''-'' @ show_nat n;
         e = \<lparr>ex_execution_id = eid, ex_schedule_id = sch_id s, ex_triggered_at = now, ex_started_at = Some now,
              ex_completed_at = Some now, ex_status = EsCompleted, ex_workflow_execution_id = Some (''workflow-'' @ eid),
              ex_request_summary = json_object [(''schedule_id'', JString (sch_id s)), (''schedule_name'', JString (sch_name s)),
                (''workflow_id'', JString (sch_workflow_id s)), (''trigger'', trigger_json ser (sch_trigger s)),
                (''parameter_values'', sch_parameter_values s), (''execution_sequence'', json_nat n),
                (''trigger_time'', JString (rfc now))],
              ex_response_summary = json_object [(''status'', JString ''completed''),
                (''message'', JString ''Workflow execution completed (placeholder)''),
                (''workflow_execution_id'', JString (''workflow-'' @ eid))],
              ex_error_message = None\<rparr>
     in (eid, sq', update_last_fire (sch_id s) now st, record_execution e es))"

section \<open>Events\<close>

type_synonym event_times = "string \<rightharpoonup> instant"

record incoming_event =
  ie_event_type :: string
  ie_payload :: "json option"
  ie_timestamp :: instant

text \<open>Sending to the queue; its result is false when the receiver is gone.\<close>

definition accepts_event :: "incoming_event \<Rightarrow> event_times \<Rightarrow> schedule \<Rightarrow> bool" where
  "accepts_event ev seen s = (case sch_trigger s of
      TcEvent ty debounce \<Rightarrow> ty = ie_event_type ev \<and>
        (debounce = 0 \<or> (case seen (sch_id s) of None \<Rightarrow> True
          | Some l \<Rightarrow> \<not> num_seconds (ie_timestamp ev - l) < u64_to_i64 debounce))
    | _ \<Rightarrow> False)"

fun process_schedules :: "incoming_event \<Rightarrow> bool \<Rightarrow> schedule list \<Rightarrow> event_times \<times> fired_trigger list \<times> string list \<Rightarrow>
    event_times \<times> fired_trigger list \<times> string list" where
  "process_schedules ev alive [] acc = acc"
| "process_schedules ev alive (s # ss) (seen, queue, matched) =
     process_schedules ev alive ss
       (if accepts_event ev seen s \<and> alive
        then (seen(sch_id s \<mapsto> ie_timestamp ev),
          queue @ [\<lparr>ft_schedule_id = sch_id s, ft_fired_at = ie_timestamp ev, ft_trigger_type = TtEvent\<rparr>],
          matched @ [sch_id s])
        else (seen, queue, matched))"

definition process_event :: "incoming_event \<Rightarrow> bool \<Rightarrow> schedule_store \<Rightarrow> event_times \<Rightarrow>
    event_times \<times> fired_trigger list \<times> string list" where
  "process_event ev alive st seen = process_schedules ev alive (list_enabled st) (seen, [], [])"

section \<open>Parameters\<close>

record resolution_context =
  rc_trigger_time :: instant
  rc_trigger_type :: trigger_type
  rc_execution_sequence :: nat
  rc_event_payload :: "json option"

text \<open>Merging goes through the overlay key by key.\<close>

function merge_values :: "json \<Rightarrow> json \<Rightarrow> json"
  and merge_entries :: "(string \<times> json) list \<Rightarrow> (string \<times> json) list \<Rightarrow> (string \<times> json) list" where
  "merge_values (JObject b) (JObject ov) = JObject (merge_entries b ov)"
| "(\<nexists>b ov. base = JObject b \<and> overlay = JObject ov) \<Longrightarrow> merge_values base overlay = overlay"
| "merge_entries m [] = m"
| "merge_entries m ((k, v) # ov) =
     merge_entries (obj_insert k (case obj_get k m of Some e \<Rightarrow> merge_values e v | None \<Rightarrow> v) m) ov"
proof -
  fix P and x :: "(json \<times> json) + ((string \<times> json) list \<times> (string \<times> json) list)"
  assume obj: "\<And>b ov. x = Inl (JObject b, JObject ov) \<Longrightarrow> P"
    and other: "\<And>base overlay. \<nexists>b ov. base = JObject b \<and> overlay = JObject ov \<Longrightarrow> x = Inl (base, overlay) \<Longrightarrow> P"
    and nil: "\<And>m. x = Inr (m, []) \<Longrightarrow> P" and cons: "\<And>m k v ov. x = Inr (m, (k, v) # ov) \<Longrightarrow> P"
  show P
  proof (cases x)
    case (Inl a)
    then show ?thesis using obj other by (cases a) blast
  next
    case (Inr a)
    then show ?thesis using nil cons by (cases a) (metis list.exhaust prod.exhaust)
  qed
qed auto
termination
  by (relation "measure (case_sum (\<lambda>(_, v). size v) (\<lambda>(_, ov). size_list (size_prod (\<lambda>_. 0) size) ov))") auto

text \<open>A string that is one expression; \<open>None\<close> leaves the value.\<close>

fun json_path :: "string list \<Rightarrow> json \<Rightarrow> json option" where
  "json_path [] v = Some v"
| "json_path (p # ps) (JObject m) = (case obj_get p m of None \<Rightarrow> None | Some v \<Rightarrow> json_path ps v)"
| "json_path (p # ps) _ = None"

definition try_resolve_expression :: "(instant \<Rightarrow> string) \<Rightarrow> resolution_context \<Rightarrow> string \<Rightarrow> json option" where
  "try_resolve_expression rfc ctx s =
     (let t = str_trim s
      in if \<not> starts_with t ''{{'' \<or> \<not> ends_with t ''}}'' then None
         else let expr = str_trim (take (length t - 4) (drop 2 t))
           in if expr = ''trigger.time'' then Some (JString (rfc (rc_trigger_time ctx)))
              else if expr = ''trigger.type'' then Some (JString (show_trigger_type (rc_trigger_type ctx)))
              else if expr = ''execution.sequence'' then Some (json_nat (rc_execution_sequence ctx))
              else (case strip_prefix expr ''event.payload.'' of
                  Some field \<Rightarrow> (case rc_event_payload ctx of None \<Rightarrow> None | Some p \<Rightarrow> json_path (split_on (CHR ''.'') field) p)
                | None \<Rightarrow> None))"

fun resolve_expressions :: "(instant \<Rightarrow> string) \<Rightarrow> resolution_context \<Rightarrow> json \<Rightarrow> json" where
  "resolve_expressions rfc ctx (JString s) = (case try_resolve_expression rfc ctx s of Some v \<Rightarrow> v | None \<Rightarrow> JString s)"
| "resolve_expressions rfc ctx (JObject m) = JObject (map (\<lambda>(k, v). (k, resolve_expressions rfc ctx v)) m)"
| "resolve_expressions rfc ctx (JArray xs) = JArray (map (resolve_expressions rfc ctx) xs)"
| "resolve_expressions rfc ctx v = v"

definition resolve_parameters :: "(instant \<Rightarrow> string) \<Rightarrow> json \<Rightarrow> json \<Rightarrow> resolution_context \<Rightarrow> json" where
  "resolve_parameters rfc defaults static_values ctx = resolve_expressions rfc ctx (merge_values defaults static_values)"

end
