(* ===== verification/SchedulerRun.thy ===== *)
theory SchedulerRun
  imports Scheduler
begin

text \<open>
  The scheduler manager (\<open>y-scheduler/src/manager.rs\<close>, \<open>queue.rs\<close>, \<open>dispatcher.rs\<close>): starting with
  recovery, the loop that evaluates the triggers, the loop that takes them from the bounded queue,
  and the dispatched workflows, as a step relation.

  The clock, the random part of an identifier and what a workflow returns are parameters of the
  steps; the calls of the persistence adapter are kept in a log, with the failures, which are
  only reported, left out.
\<close>

section \<open>State\<close>

definition queue_capacity :: nat where "queue_capacity = 256"

datatype persist_call = PcRecord execution | PcUpdate execution | PcLastFire string instant

record dispatch =
  dp_execution_id :: string
  dp_workflow_id :: string
  dp_parameters :: json

text \<open>What a dispatched workflow returns; the error is \<open>DispatchError\<close>.\<close>

record dispatch_result =
  dr_success :: bool
  dr_summary :: string
  dr_output :: json
  dr_error :: "string option"

datatype dispatch_error =
  DeWorkflowNotFound string
| DeParseError string
| DeExecutionFailed string
| DeInternal string

fun show_dispatch_error :: "dispatch_error \<Rightarrow> string" where
  "show_dispatch_error (DeWorkflowNotFound i) = ''workflow not found: '' @ i"
| "show_dispatch_error (DeParseError m) = ''workflow parse error: '' @ m"
| "show_dispatch_error (DeExecutionFailed m) = ''execution failed: '' @ m"
| "show_dispatch_error (DeInternal m) = ''internal dispatcher error: '' @ m"

text \<open>\<open>mg_fired\<close> is what the evaluation loop still has to send, \<open>mg_queue\<close> the channel.\<close>

record manager =
  mg_store :: schedule_store
  mg_sequences :: sequences
  mg_executions :: execution_store
  mg_has_dispatcher :: bool
  mg_has_persistence :: bool
  mg_starting :: bool
  mg_eval_running :: bool
  mg_exec_running :: bool
  mg_fired :: "fired_trigger list"
  mg_queue :: "fired_trigger list"
  mg_dispatches :: "dispatch list"
  mg_persisted :: "persist_call list"

definition manager_new :: manager where
  "manager_new = \<lparr>mg_store = [], mg_sequences = Map.empty, mg_executions = [], mg_has_dispatcher = False,
     mg_has_persistence = False, mg_starting = False, mg_eval_running = False, mg_exec_running = False, mg_fired = [],
     mg_queue = [], mg_dispatches = [], mg_persisted = []\<rparr>"

definition persist :: "persist_call \<Rightarrow> manager \<Rightarrow> manager" where
  "persist c m = (if mg_has_persistence m then m\<lparr>mg_persisted := mg_persisted m @ [c]\<rparr> else m)"

section \<open>Starting and stopping\<close>

text \<open>\<open>tx.send\<close> waits while the channel is full: the triggers that fit, and whether all did.  The
  loop that receives is spawned only afterwards.\<close>

definition send_all :: "fired_trigger list \<Rightarrow> fired_trigger list \<Rightarrow> fired_trigger list \<times> bool" where
  "send_all queue fs = (queue @ take (queue_capacity - length queue) fs, length queue + length fs \<le> queue_capacity)"

datatype start_outcome = AlreadyRunning | Started | Panicked | Waiting

definition start :: "cron_next \<Rightarrow> instant \<Rightarrow> instant \<Rightarrow> manager \<Rightarrow> start_outcome \<times> manager" where
  "start cron clock now m =
     (if mg_eval_running m \<or> mg_starting m then (AlreadyRunning, m)
      else let m1 = m\<lparr>mg_starting := True, mg_queue := []\<rparr>
        in case recover_missed cron clock now (mg_store m) of
            None \<Rightarrow> (Panicked, m1)
          | Some (fs, r) \<Rightarrow> (case send_all [] fs of (queue, complete) \<Rightarrow>
              if complete
              then (Started, m1\<lparr>mg_queue := queue, mg_fired := [], mg_eval_running := True, mg_exec_running := True,
                     mg_starting := False\<rparr>)
              else (Waiting, m1\<lparr>mg_queue := queue\<rparr>)))"

definition stop :: "manager \<Rightarrow> manager" where
  "stop m = (if \<not> mg_eval_running m \<and> \<not> mg_exec_running m \<and> \<not> mg_starting m then m
     else m\<lparr>mg_eval_running := False, mg_exec_running := False, mg_starting := False, mg_fired := [], mg_queue := []\<rparr>)"

section \<open>One trigger\<close>

definition running_record :: "(instant \<Rightarrow> string) \<Rightarrow> (instant \<Rightarrow> string) \<Rightarrow> instant \<Rightarrow> string \<Rightarrow> fired_trigger \<Rightarrow> schedule \<Rightarrow> execution" where
  "running_record rfc ser now eid f s = \<lparr>ex_execution_id = eid, ex_schedule_id = sch_id s, ex_triggered_at = ft_fired_at f,
     ex_started_at = Some now, ex_completed_at = None, ex_status = EsRunning, ex_workflow_execution_id = None,
     ex_request_summary = json_object [(''schedule_id'', JString (sch_id s)), (''schedule_name'', JString (sch_name s)),
       (''workflow_id'', JString (sch_workflow_id s)), (''trigger'', trigger_json ser (sch_trigger s)),
       (''parameter_values'', sch_parameter_values s), (''trigger_time'', JString (rfc (ft_fired_at f)))],
     ex_response_summary = JObject [], ex_error_message = None\<rparr>"

definition dispatched_id :: "string \<Rightarrow> fired_trigger \<Rightarrow> string" where
  "dispatched_id uuid f = ''exec-'' @ ft_schedule_id f @ ''-'' @ uuid"

definition handle_fired_trigger ::
  "(instant \<Rightarrow> string) \<Rightarrow> (instant \<Rightarrow> string) \<Rightarrow> instant \<Rightarrow> string \<Rightarrow> fired_trigger \<Rightarrow> manager \<Rightarrow> manager" where
  "handle_fired_trigger rfc ser now uuid f m = (case store_get (ft_schedule_id f) (mg_store m) of
      None \<Rightarrow> m
    | Some s \<Rightarrow>
        if mg_has_dispatcher m then
          (let e = running_record rfc ser now (dispatched_id uuid f) f s
           in persist (PcRecord e) (persist (PcLastFire (sch_id s) now)
               (m\<lparr>mg_executions := record_execution e (mg_executions m),
                  mg_store := update_last_fire (sch_id s) now (mg_store m),
                  mg_dispatches := mg_dispatches m @ [\<lparr>dp_execution_id = ex_execution_id e,
                    dp_workflow_id = sch_workflow_id s, dp_parameters = sch_parameter_values s\<rparr>]\<rparr>)))
        else
          (case trigger_execution rfc ser now s (mg_sequences m, mg_store m, mg_executions m) of (eid, sq, st, es) \<Rightarrow>
             (let m1 = m\<lparr>mg_sequences := sq, mg_store := st, mg_executions := es\<rparr>;
                  fire = (case store_get (sch_id s) st of None \<Rightarrow> now | Some s' \<Rightarrow>
                    (case sch_last_fire s' of None \<Rightarrow> now | Some t \<Rightarrow> t));
                  m2 = persist (PcLastFire (sch_id s) fire) m1
              in case get_execution eid es of None \<Rightarrow> m2 | Some e \<Rightarrow> persist (PcRecord e) m2)))"

section \<open>The end of a dispatch\<close>

definition complete_ok :: "instant \<Rightarrow> nat \<Rightarrow> dispatch_result \<Rightarrow> execution \<Rightarrow> execution" where
  "complete_ok now ms r e = (let st = (if dr_success r then ''completed'' else ''failed'') in
     e\<lparr>ex_status := (if dr_success r then EsCompleted else EsFailed), ex_completed_at := Some now,
       ex_response_summary := json_object [(''status'', JString st), (''summary'', JString (dr_summary r)),
         (''output'', dr_output r), (''duration_ms'', json_nat ms)],
       ex_error_message := (if dr_success r then ex_error_message e else dr_error r)\<rparr>)"

definition complete_error :: "instant \<Rightarrow> dispatch_error \<Rightarrow> execution \<Rightarrow> execution" where
  "complete_error now err e = e\<lparr>ex_status := EsFailed, ex_completed_at := Some now,
     ex_response_summary := json_object [(''status'', JString ''failed''), (''error'', JString (show_dispatch_error err))],
     ex_error_message := Some (show_dispatch_error err)\<rparr>"

definition finish_dispatch :: "instant \<Rightarrow> nat \<Rightarrow> dispatch_error + dispatch_result \<Rightarrow> string \<Rightarrow> manager \<Rightarrow> manager" where
  "finish_dispatch now ms res eid m =
     (let f = (case res of Inr r \<Rightarrow> complete_ok now ms r | Inl err \<Rightarrow> complete_error now err);
          es = update_execution eid f (mg_executions m);
          m1 = m\<lparr>mg_executions := es\<rparr>
      in case get_execution eid es of None \<Rightarrow> m1 | Some e \<Rightarrow> persist (PcUpdate e) m1)"

text \<open>The \<open>k\<close>-th workflow in progress ends.\<close>

definition end_dispatch :: "instant \<Rightarrow> nat \<Rightarrow> dispatch_error + dispatch_result \<Rightarrow> nat \<Rightarrow> manager \<Rightarrow> manager" where
  "end_dispatch now ms res k m = finish_dispatch now ms res (dp_execution_id (mg_dispatches m ! k))
     (m\<lparr>mg_dispatches := take k (mg_dispatches m) @ drop (k + 1) (mg_dispatches m)\<rparr>)"

section \<open>Steps\<close>

text \<open>Identifiers of dispatched executions end in a UUID and are new.\<close>

definition new_id :: "string \<Rightarrow> manager \<Rightarrow> bool" where
  "new_id eid m = (eid \<notin> ex_execution_id ` set (mg_executions m) \<and> eid \<notin> dp_execution_id ` set (mg_dispatches m))"

inductive manager_step :: "cron_next \<Rightarrow> (instant \<Rightarrow> string) \<Rightarrow> (instant \<Rightarrow> string) \<Rightarrow> manager \<Rightarrow> manager \<Rightarrow> bool"
  for cron rfc ser where
  Start: "start cron clock now m = (res, m') \<Longrightarrow> manager_step cron rfc ser m m'"
| Stop: "manager_step cron rfc ser m (stop m)"
| Tick: "\<lbrakk>mg_eval_running m; mg_fired m = []; evaluate_all cron (list_enabled (mg_store m)) now = Some fs\<rbrakk> \<Longrightarrow>
    manager_step cron rfc ser m (m\<lparr>mg_fired := fs\<rparr>)"
| Send: "\<lbrakk>mg_eval_running m; mg_fired m = f # fs; length (mg_queue m) < queue_capacity\<rbrakk> \<Longrightarrow>
    manager_step cron rfc ser m (m\<lparr>mg_fired := fs, mg_queue := mg_queue m @ [f]\<rparr>)"
| Inject: "\<lbrakk>mg_exec_running m; length (mg_queue m) < queue_capacity\<rbrakk> \<Longrightarrow>
    manager_step cron rfc ser m (m\<lparr>mg_queue := mg_queue m @ [f]\<rparr>)"
| Consume: "\<lbrakk>mg_exec_running m; mg_queue m = f # fs; new_id (dispatched_id uuid f) m\<rbrakk> \<Longrightarrow>
    manager_step cron rfc ser m (handle_fired_trigger rfc ser now uuid f (m\<lparr>mg_queue := fs\<rparr>))"
| Finish: "k < length (mg_dispatches m) \<Longrightarrow> manager_step cron rfc ser m (end_dispatch now ms res k m)"
| Register: "manager_step cron rfc ser m (m\<lparr>mg_store := store_register s (mg_store m)\<rparr>)"
| Remove: "manager_step cron rfc ser m (m\<lparr>mg_store := snd (store_remove i (mg_store m))\<rparr>)"
| SetEnabled: "manager_step cron rfc ser m (m\<lparr>mg_store := snd (set_enabled i b now (mg_store m))\<rparr>)"
| SetDispatcher: "manager_step cron rfc ser m (m\<lparr>mg_has_dispatcher := True\<rparr>)"
| SetPersistence: "manager_step cron rfc ser m (m\<lparr>mg_has_persistence := True\<rparr>)"

end
