(* ===== verification/SchedulerCorrect.thy ===== *)
theory SchedulerCorrect
  imports SchedulerRun
begin

text \<open>
  What the scheduler guarantees: which fires a recovery makes up for, when starting waits for ever,
  how executions of an interval are spaced, and the records of executions over all runs.
\<close>

section \<open>Recovery\<close>

lemma second_pos [simp]: "0 < second" "second \<noteq> 0"
  by (simp_all add: second_def)

lemma num_seconds_mult [simp]: "0 \<le> n \<Longrightarrow> num_seconds (n * second) = n"
  by (auto simp: num_seconds_def mult_less_0_iff second_def)

lemma num_seconds_pos: "0 \<le> d \<Longrightarrow> num_seconds d = d div second"
  by (simp add: num_seconds_def)

lemma compute_interval_secs:
  "sch_trigger s = TcInterval n \<Longrightarrow> int n \<le> i64_max div 1000 \<Longrightarrow>
   compute_interval cron clock s = Some (Some (int n * second))"
  by (auto simp: compute_interval_def duration_seconds_def u64_to_i64_def i64_max_def)

lemma int_le_div:
  assumes "0 < (b :: int)"
  shows "a \<le> c div b \<longleftrightarrow> a * b \<le> c"
proof
  assume "a \<le> c div b"
  then have "a * b \<le> c div b * b" using assms by simp
  also have "\<dots> \<le> c" using div_mult_mod_eq [of c b] pos_mod_sign [OF assms, of c] by linarith
  finally show "a * b \<le> c" .
next
  assume "a * b \<le> c"
  then have "a * b div b \<le> c div b" using assms by (rule zdiv_mono1)
  then show "a \<le> c div b" using assms by simp
qed

text \<open>The instants of an interval that were missed.\<close>

definition missed_times :: "instant \<Rightarrow> nat \<Rightarrow> instant \<Rightarrow> instant set" where
  "missed_times l n now = {l + int k * (int n * second) | k. 1 \<le> k \<and> l + int k * (int n * second) \<le> now}"

lemma missed_iff:
  assumes "0 < n" "l \<le> now"
  shows "l + int k * (int n * second) \<le> now \<longleftrightarrow> int k \<le> num_seconds (now - l) div int n"
proof -
  have pos: "0 < int n * second" using assms(1) by simp
  have "l + int k * (int n * second) \<le> now \<longleftrightarrow> int k * (int n * second) \<le> now - l" by linarith
  also have "\<dots> \<longleftrightarrow> int k \<le> (now - l) div (int n * second)"
    using pos by (rule int_le_div [symmetric])
  also have "(now - l) div (int n * second) = num_seconds (now - l) div int n"
    using assms(2) by (simp add: num_seconds_pos zdiv_zmult2_eq mult.commute [of "int n"])
  finally show ?thesis .
qed

lemma backfill_set:
  assumes "0 < n" "int n * second < now - l"
  defines "c \<equiv> backfill_count (now - l) (int n * second)"
  shows "set (backfill_times l (int n * second) c) = {t \<in> missed_times l n now. t \<le> l + 100 * (int n * second)}"
proof -
  have le: "l \<le> now" using assms(1,2) by (smt (verit) mult_nonneg_nonneg of_nat_0_le_iff second_pos)
  let ?q = "num_seconds (now - l) div int n"
  have "1 \<le> ?q" using missed_iff [OF assms(1) le, of 1] assms(2) by simp
  then have c: "c = min (nat ?q) 100" by (simp add: c_def backfill_count_def)
  have "set (backfill_times l (int n * second) c) = {l + int k * (int n * second) | k. 1 \<le> k \<and> k \<le> c}"
  proof (intro equalityI subsetI)
    fix t assume "t \<in> set (backfill_times l (int n * second) c)"
    then obtain i where "i < c" "t = l + (int n * second) * (int i + 1)" by (auto simp: backfill_times_def)
    then show "t \<in> {l + int k * (int n * second) | k. 1 \<le> k \<and> k \<le> c}"
      by (auto intro!: exI [of _ "Suc i"] simp: algebra_simps)
  next
    fix t assume "t \<in> {l + int k * (int n * second) | k. 1 \<le> k \<and> k \<le> c}"
    then obtain k where k: "1 \<le> k" "k \<le> c" "t = l + int k * (int n * second)" by blast
    then have "k - 1 < c" "t = l + (int n * second) * (int (k - 1) + 1)" by (auto simp: algebra_simps)
    then show "t \<in> set (backfill_times l (int n * second) c)" by (auto simp: backfill_times_def)
  qed
  also have "\<dots> = {t \<in> missed_times l n now. t \<le> l + 100 * (int n * second)}"
  proof -
    have "k \<le> c \<longleftrightarrow> l + int k * (int n * second) \<le> now \<and> l + int k * (int n * second) \<le> l + 100 * (int n * second)" for k
    proof -
      have "l + int k * (int n * second) \<le> l + 100 * (int n * second) \<longleftrightarrow> k \<le> 100"
        using assms(1) mult_le_cancel_right [of "int k" "int n * second" 100] by simp
      then show ?thesis unfolding missed_iff [OF assms(1) le] c using \<open>1 \<le> ?q\<close> by (auto simp: le_nat_iff)
    qed
    then show ?thesis by (auto simp: missed_times_def)
  qed
  finally show ?thesis .
qed

text \<open>After downtime, a schedule of a fixed interval that missed fires and has the backfill
  policy fires for exactly the instants of its interval that passed since the last one, the
  oldest hundred of them, in order; one that missed none does not fire.\<close>

theorem backfill_makes_up_for_what_was_missed:
  assumes "sch_trigger s = TcInterval n" "0 < n" "int n \<le> i64_max div 1000"
    and "sch_last_fire s = Some l" "sp_missed (sch_policies s) = MpBackfill" "sch_enabled s"
  shows "\<exists>fs r. recover_missed cron clock now [s] = Some (fs, r)
    \<and> sorted (map ft_fired_at fs) \<and> distinct (map ft_fired_at fs)
    \<and> ft_fired_at ` set fs = (if now - l \<le> int n * second then {}
        else {t \<in> missed_times l n now. t \<le> l + 100 * (int n * second)})
    \<and> (\<forall>f \<in> set fs. ft_schedule_id f = sch_id s \<and> ft_trigger_type f = TtInterval)"
proof -
  note iv = compute_interval_secs [OF assms(1,3), of cron clock]
  show ?thesis
  proof (cases "now - l \<le> int n * second")
    case True
    then show ?thesis using assms iv by (simp add: recover_missed_def list_enabled_def recover_one_def)
  next
    case False
    let ?c = "backfill_count (now - l) (int n * second)"
    let ?ts = "backfill_times l (int n * second) ?c"
    have rec: "\<exists>r. recover_missed cron clock now [s] = Some (map (make_trigger s) ?ts, r)"
      using False assms iv by (simp add: recover_missed_def list_enabled_def recover_one_def Let_def)
    have times: "map ft_fired_at (map (make_trigger s) ?ts) = ?ts"
      by (simp add: make_trigger_def comp_def)
    have "sorted_wrt (<) ?ts"
      using assms(2) by (auto simp: backfill_times_def sorted_wrt_map intro: sorted_wrt_mono_rel [OF _ sorted_wrt_upt])
    then have "sorted ?ts" "distinct ?ts" by (simp_all add: strict_sorted_iff)
    moreover have "set ?ts = {t \<in> missed_times l n now. t \<le> l + 100 * (int n * second)}"
      using backfill_set [OF assms(2), of now l] False by simp
    moreover have "ft_fired_at ` set (map (make_trigger s) ?ts) = set ?ts"
      using times by (metis list.set_map)
    ultimately show ?thesis using rec times False assms(1)
      by (auto simp del: map_map simp: make_trigger_def)
  qed
qed

definition hourly :: schedule where
  "hourly = (schedule_new ''h'' ''hourly'' (TcInterval 3600) ''w'' 0)\<lparr>sch_last_fire := Some 0,
     sch_policies := default_policies\<lparr>sp_missed := MpBackfill\<rparr>\<rparr>"

lemma backfill_makes_up_for_what_was_missed_witness:
  "\<exists>fs r. recover_missed (\<lambda>_ _. None) 0 (9000 * second) [hourly] = Some (fs, r)
    \<and> sorted (map ft_fired_at fs) \<and> 7200 * second \<in> ft_fired_at ` set fs"
proof -
  have h: "sch_trigger hourly = TcInterval 3600" "0 < (3600::nat)" "int 3600 \<le> i64_max div 1000"
    "sch_last_fire hourly = Some 0" "sp_missed (sch_policies hourly) = MpBackfill" "sch_enabled hourly"
    by (simp_all add: hourly_def schedule_new_def i64_max_def)
  obtain fs r where r: "recover_missed (\<lambda>_ _. None) 0 (9000 * second) [hourly] = Some (fs, r)" "sorted (map ft_fired_at fs)"
    "ft_fired_at ` set fs = (if 9000 * second - 0 \<le> int 3600 * second then {}
        else {t \<in> missed_times 0 3600 (9000 * second). t \<le> 0 + 100 * (int 3600 * second)})"
    using backfill_makes_up_for_what_was_missed [OF h, of "\<lambda>_ _. None" 0 "9000 * second"] by blast
  have "7200 * second \<in> missed_times 0 3600 (9000 * second)"
    unfolding missed_times_def by (intro CollectI exI [of _ 2]) (simp add: second_def)
  then have "7200 * second \<in> ft_fired_at ` set fs" unfolding r(3) by (simp add: second_def)
  with r(1,2) show ?thesis by blast
qed

text \<open>The recovery of several schedules, one after the other.\<close>

definition recovered :: "cron_next \<Rightarrow> instant \<Rightarrow> instant \<Rightarrow> schedule \<Rightarrow> fired_trigger list" where
  "recovered cron clock now s = (case recover_one cron clock now s ([], \<lparr>rr_caught_up = [], rr_skipped = [], rr_backfilled = []\<rparr>) of
      None \<Rightarrow> [] | Some (fs, r) \<Rightarrow> fs)"

lemma recover_one_acc:
  "case recover_one cron clock now s (fs, r) of
     None \<Rightarrow> recover_one cron clock now s (fs', r') = None
   | Some (gs, r1) \<Rightarrow> \<exists>new. gs = fs @ new \<and> (\<exists>r2. recover_one cron clock now s (fs', r') = Some (fs' @ new, r2))"
  by (auto simp: recover_one_def Let_def split: option.splits missed_policy.splits)

lemma recover_one_triggers:
  "recover_one cron clock now s (fs, r) = Some (gs, r') \<Longrightarrow> gs = fs @ recovered cron clock now s"
  using recover_one_acc [of cron clock now s "[]" "\<lparr>rr_caught_up = [], rr_skipped = [], rr_backfilled = []\<rparr>" fs r]
  unfolding recovered_def
  by (cases "recover_one cron clock now s ([], \<lparr>rr_caught_up = [], rr_skipped = [], rr_backfilled = []\<rparr>)") auto

lemma recover_all_triggers:
  "recover_all cron clock now ss (fs, r) = Some (gs, r') \<Longrightarrow> gs = fs @ concat (map (recovered cron clock now) ss)"
proof (induction ss arbitrary: fs r)
  case (Cons s ss)
  obtain fs1 r1 where "recover_one cron clock now s (fs, r) = Some (fs1, r1)" "recover_all cron clock now ss (fs1, r1) = Some (gs, r')"
    using Cons.prems by (auto split: option.splits)
  then show ?case using recover_one_triggers Cons.IH by fastforce
qed simp

lemma recovered_backlog:
  assumes "sch_trigger s = TcInterval n" "0 < n" "sch_last_fire s = Some l" "sp_missed (sch_policies s) = MpBackfill"
    and "l + 100 * (int n * second) \<le> now" "int n \<le> i64_max div 1000"
  shows "length (recovered cron clock now s) = 100"
proof -
  note iv = compute_interval_secs [OF assms(1,6), of cron clock]
  have pos: "0 < int n * second" using assms(2) by simp
  then have le: "l \<le> now" "int n * second < now - l" using assms(5) by linarith+
  have "100 \<le> num_seconds (now - l) div int n"
    using missed_iff [OF assms(2) le(1), of 100] assms(5) by simp
  then have "backfill_count (now - l) (int n * second) = 100" by (simp add: backfill_count_def)
  then show ?thesis
    using assms(1-4) iv pos le(2) by (simp add: recovered_def recover_one_def Let_def backfill_times_def)
qed

text \<open>C26: Starting sends what recovery found into the queue before the loop that empties it runs:
  when three enabled schedules of fixed intervals with the backfill policy missed a hundred fires
  each, start never returns (or recovery panics), no loop runs, and a later start finds the
  scheduler running already.\<close>

theorem start_waits_on_a_backlog:
  assumes "\<not> mg_eval_running m" "\<not> mg_starting m" "start cron clock now m = (res, m')"
    and "length (filter (\<lambda>s. sch_enabled s \<and> (\<exists>n l. sch_trigger s = TcInterval n \<and> 0 < n \<and> int n \<le> i64_max div 1000
      \<and> sch_last_fire s = Some l \<and> sp_missed (sch_policies s) = MpBackfill \<and> l + 100 * (int n * second) \<le> now)) (mg_store m)) \<ge> 3"
  shows "res \<in> {Waiting, Panicked} \<and> \<not> mg_eval_running m' \<and> \<not> mg_exec_running m' = (\<not> mg_exec_running m)
    \<and> start cron clock2 now2 m' = (AlreadyRunning, m')"
proof -
  let ?P = "\<lambda>s. \<exists>n l. sch_trigger s = TcInterval n \<and> 0 < n \<and> int n \<le> i64_max div 1000
      \<and> sch_last_fire s = Some l \<and> sp_missed (sch_policies s) = MpBackfill \<and> l + 100 * (int n * second) \<le> now"
  have big: "queue_capacity < length fs" if "recover_missed cron clock now (mg_store m) = Some (fs, r)" for fs r
  proof -
    have fs: "fs = concat (map (recovered cron clock now) (list_enabled (mg_store m)))"
      using that recover_all_triggers [of cron clock now "list_enabled (mg_store m)" "[]"] by (simp add: recover_missed_def)
    have sum: "length (concat (map (recovered cron clock now) ss)) \<ge> 100 * length (filter ?P ss)" for ss
    proof (induction ss)
      case (Cons s ss)
      then show ?case using recovered_backlog [of s _ _ now cron clock] by auto
    qed simp
    have "filter (\<lambda>s. sch_enabled s \<and> ?P s) (mg_store m) = filter ?P (list_enabled (mg_store m))"
      by (simp add: list_enabled_def conj_commute)
    then show ?thesis using sum [of "list_enabled (mg_store m)"] assms(4) fs by (simp add: queue_capacity_def)
  qed
  show ?thesis
  proof (cases "recover_missed cron clock now (mg_store m)")
    case None
    then show ?thesis using assms(1-3) by (auto simp: start_def)
  next
    case (Some a)
    obtain fs r where a: "a = (fs, r)" by (cases a)
    then show ?thesis using assms(1-3) Some big [of fs r] by (auto simp: start_def send_all_def)
  qed
qed

definition backlog_store :: schedule_store where
  "backlog_store = map (\<lambda>i. hourly\<lparr>sch_id := i\<rparr>) [''a'', ''b'', ''c'']"

lemma start_waits_on_a_backlog_witness:
  "fst (start (\<lambda>_ _. None) 0 (360000 * second) (manager_new\<lparr>mg_store := backlog_store\<rparr>)) \<in> {Waiting, Panicked}"
proof -
  let ?m = "manager_new\<lparr>mg_store := backlog_store\<rparr>"
  have idle: "\<not> mg_eval_running ?m" "\<not> mg_starting ?m" by (simp_all add: manager_new_def)
  have all: "\<forall>s \<in> set (mg_store ?m). sch_enabled s \<and> (\<exists>n l. sch_trigger s = TcInterval n \<and> 0 < n \<and> int n \<le> i64_max div 1000
      \<and> sch_last_fire s = Some l \<and> sp_missed (sch_policies s) = MpBackfill \<and> l + 100 * (int n * second) \<le> 360000 * second)"
    by (simp add: backlog_store_def hourly_def schedule_new_def i64_max_def)
  have three: "length (filter (\<lambda>s. sch_enabled s \<and> (\<exists>n l. sch_trigger s = TcInterval n \<and> 0 < n \<and> int n \<le> i64_max div 1000
      \<and> sch_last_fire s = Some l \<and> sp_missed (sch_policies s) = MpBackfill \<and> l + 100 * (int n * second) \<le> 360000 * second)) (mg_store ?m)) \<ge> 3"
    using all by (simp add: filter_id_conv [THEN iffD2, OF all]) (simp add: backlog_store_def)
  obtain res m' where s: "start (\<lambda>_ _. None) 0 (360000 * second) ?m = (res, m')" by fastforce
  show ?thesis using start_waits_on_a_backlog [OF idle s three] s by simp
qed

section \<open>Schedules that fire again\<close>

text \<open>Steps of the scheduler itself: the user changes no schedule.\<close>

definition timeless :: "schedule_store \<Rightarrow> schedule list" where
  "timeless st = map (\<lambda>s. s\<lparr>sch_last_fire := None\<rparr>) st"

definition own_step :: "cron_next \<Rightarrow> (instant \<Rightarrow> string) \<Rightarrow> (instant \<Rightarrow> string) \<Rightarrow> manager \<Rightarrow> manager \<Rightarrow> bool" where
  "own_step cron rfc ser m m' = (manager_step cron rfc ser m m' \<and> timeless (mg_store m') = timeless (mg_store m))"

lemma get_last_fire: "store_get i (update_last_fire j t st) =
    (if i = j then map_option (\<lambda>s. s\<lparr>sch_last_fire := Some t\<rparr>) (store_get i st) else store_get i st)"
  by (induction st) (auto simp: store_get_def update_last_fire_def)

lemma get_set_enabled: "store_get i (snd (set_enabled j b t st)) =
    (if i = j then map_option (\<lambda>s. s\<lparr>sch_enabled := b, sch_updated_at := t\<rparr>) (store_get i st) else store_get i st)"
  by (induction st) (auto simp: store_get_def set_enabled_def)

lemma get_register: "store_get i (store_register s st) = (if i = sch_id s then Some s else store_get i st)"
  unfolding store_get_def store_register_def by (induction st) (auto simp: find_append)

lemma get_remove: "store_get i (snd (store_remove j st)) = (if i = j then None else store_get i st)"
  unfolding store_get_def store_remove_def Let_def by (induction st) auto

lemma persist_rest [simp]:
  "mg_store (persist c m) = mg_store m" "mg_executions (persist c m) = mg_executions m"
  "mg_dispatches (persist c m) = mg_dispatches m" "mg_queue (persist c m) = mg_queue m" "mg_fired (persist c m) = mg_fired m"
  by (simp_all add: persist_def)

lemma handle_store: "mg_store (handle_fired_trigger rfc ser now uuid f m) =
    (case store_get (ft_schedule_id f) (mg_store m) of None \<Rightarrow> mg_store m | Some s \<Rightarrow> update_last_fire (sch_id s) now (mg_store m))"
  by (auto simp: handle_fired_trigger_def trigger_execution_def Let_def split: option.splits prod.splits)

lemma finish_store [simp]: "mg_store (finish_dispatch now ms res eid m) = mg_store m"
  by (auto simp: finish_dispatch_def Let_def split: option.splits)

lemma timeless_last_fire [simp]: "timeless (update_last_fire i t st) = timeless st"
  by (induction st) (simp_all add: timeless_def update_last_fire_def)

lemma timeless_in:
  assumes "timeless st = timeless st'" "s \<in> set st"
  shows "\<exists>s' \<in> set st'. sch_id s' = sch_id s \<and> sch_enabled s' = sch_enabled s \<and> sch_trigger s' = sch_trigger s"
proof -
  have "s\<lparr>sch_last_fire := None\<rparr> \<in> set (timeless st)" using assms(2) by (simp add: timeless_def)
  then have "s\<lparr>sch_last_fire := None\<rparr> \<in> set (timeless st')" unfolding assms(1) .
  then obtain s' where "s' \<in> set st'" "s\<lparr>sch_last_fire := None\<rparr> = s'\<lparr>sch_last_fire := None\<rparr>" by (auto simp: timeless_def)
  then show ?thesis
    by (metis (no_types) schedule.simps(1,3,4) schedule.select_convs(1,3,4) schedule.surjective schedule.update_convs(12))
qed

lemma evaluate_all_in:
  "evaluate_all cron ss now = Some fs \<Longrightarrow> s \<in> set ss \<Longrightarrow> evaluate_trigger cron s now = Some (Some f) \<Longrightarrow> f \<in> set fs"
  by (induction ss arbitrary: fs) (auto split: option.splits)

lemma own_steps_timeless:
  "(own_step cron rfc ser)\<^sup>*\<^sup>* m m' \<Longrightarrow> timeless (mg_store m') = timeless (mg_store m)"
  by (induction rule: rtranclp_induct) (simp_all add: own_step_def)

text \<open>An enabled one-time schedule fires at every tick from its instant on: whatever the
  scheduler did since, executions of the schedule included, as long as the user changes nothing,
  the triggers of a tick at or after the instant contain it again.\<close>

theorem one_time_schedules_fire_at_every_tick:
  assumes "(own_step cron rfc ser)\<^sup>*\<^sup>* m m'" "s \<in> set (mg_store m)" "sch_enabled s" "sch_trigger s = TcOneTime t" "t \<le> now"
    and "evaluate_all cron (list_enabled (mg_store m')) now = Some fs"
  shows "\<lparr>ft_schedule_id = sch_id s, ft_fired_at = now, ft_trigger_type = TtOneTime\<rparr> \<in> set fs"
proof -
  obtain s' where s': "s' \<in> set (mg_store m')" "sch_id s' = sch_id s" "sch_enabled s'" "sch_trigger s' = TcOneTime t"
    using timeless_in [OF own_steps_timeless [OF assms(1), symmetric] assms(2)] assms(3,4) by auto
  have "evaluate_trigger cron s' now = Some (Some \<lparr>ft_schedule_id = sch_id s, ft_fired_at = now, ft_trigger_type = TtOneTime\<rparr>)"
    using s' assms(5) by (simp add: evaluate_trigger_def trigger_due_def should_fire_def make_trigger_def)
  then show ?thesis using evaluate_all_in [OF assms(6)] s'(1,3) by (simp add: list_enabled_def)
qed

definition single :: "schedule \<Rightarrow> manager" where
  "single s = manager_new\<lparr>mg_store := [s]\<rparr>"

definition reminder :: schedule where
  "reminder = schedule_new ''r'' ''reminder'' (TcOneTime 5) ''w'' 0"

definition no_cron :: cron_next where
  "no_cron = (\<lambda>_ _. None)"

text \<open>After recovery fired the schedule and the trigger was executed.\<close>

lemma reminder_executed:
  "\<exists>m. (own_step no_cron (\<lambda>_. []) (\<lambda>_. []))\<^sup>*\<^sup>* (single reminder) m \<and> mg_executions m \<noteq> []
     \<and> mg_store m = [reminder\<lparr>sch_last_fire := Some 11\<rparr>]"
proof -
  let ?f = "make_trigger reminder 10"
  let ?m1 = "(single reminder)\<lparr>mg_queue := [?f], mg_eval_running := True, mg_exec_running := True\<rparr>"
  have s1: "start no_cron 0 10 (single reminder) = (Started, ?m1)"
    by (simp add: start_def single_def manager_new_def recover_missed_def list_enabled_def reminder_def schedule_new_def
        recover_one_def send_all_def queue_capacity_def Let_def)
  let ?m2 = "handle_fired_trigger (\<lambda>_. []) (\<lambda>_. []) 11 [] ?f (?m1\<lparr>mg_queue := []\<rparr>)"
  have store: "mg_store ?m2 = [reminder\<lparr>sch_last_fire := Some 11\<rparr>]"
    by (simp add: handle_store single_def store_get_def make_trigger_def reminder_def schedule_new_def update_last_fire_def)
  have "own_step no_cron (\<lambda>_. []) (\<lambda>_. []) (single reminder) ?m1"
    unfolding own_step_def using Start [OF s1, of "\<lambda>_. []" "\<lambda>_. []"] by (simp add: timeless_def single_def)
  moreover have "own_step no_cron (\<lambda>_. []) (\<lambda>_. []) ?m1 ?m2"
  proof -
    have "new_id (dispatched_id [] ?f) ?m1" by (simp add: new_id_def single_def manager_new_def)
    then have "manager_step no_cron (\<lambda>_. []) (\<lambda>_. []) ?m1 ?m2" by (intro Consume) simp_all
    then show ?thesis unfolding own_step_def store by (simp add: timeless_def single_def reminder_def schedule_new_def)
  qed
  moreover have "mg_executions ?m2 \<noteq> []"
    by (simp add: handle_fired_trigger_def single_def manager_new_def store_get_def make_trigger_def reminder_def
        schedule_new_def trigger_execution_def next_sequence_for_def record_execution_def max_per_schedule_def Let_def split: option.split)
  ultimately show ?thesis using store by (meson rtranclp.rtrancl_into_rtrancl rtranclp.rtrancl_refl)
qed

lemma one_time_schedules_fire_at_every_tick_witness:
  "\<exists>m. (own_step no_cron (\<lambda>_. []) (\<lambda>_. []))\<^sup>*\<^sup>* (single reminder) m \<and> mg_executions m \<noteq> []
     \<and> (\<exists>fs. evaluate_all no_cron (list_enabled (mg_store m)) 20 = Some fs
        \<and> \<lparr>ft_schedule_id = ''r'', ft_fired_at = 20, ft_trigger_type = TtOneTime\<rparr> \<in> set fs)"
proof -
  obtain m where m: "(own_step no_cron (\<lambda>_. []) (\<lambda>_. []))\<^sup>*\<^sup>* (single reminder) m" "mg_executions m \<noteq> []"
    "mg_store m = [reminder\<lparr>sch_last_fire := Some 11\<rparr>]" using reminder_executed by blast
  have s: "reminder \<in> set (mg_store (single reminder))" "sch_enabled reminder" "sch_trigger reminder = TcOneTime 5" "(5::int) \<le> 20"
    by (simp_all add: single_def reminder_def schedule_new_def)
  obtain fs where fs: "evaluate_all no_cron (list_enabled (mg_store m)) 20 = Some fs"
    by (simp add: m(3) list_enabled_def reminder_def schedule_new_def evaluate_trigger_def trigger_due_def)
  have "sch_id reminder = ''r''" by (simp add: reminder_def schedule_new_def)
  then show ?thesis using one_time_schedules_fire_at_every_tick [OF m(1) s fs] m(1,2) fs by auto
qed

lemma start_Started:
  assumes "start cron clock now m = (Started, m')"
  shows "mg_store m' = mg_store m \<and> (\<exists>gs r. recover_missed cron clock now (mg_store m) = Some (gs, r) \<and> mg_queue m' = gs)"
  using assms by (auto simp: start_def send_all_def Let_def split: if_splits option.splits prod.splits)

text \<open>A schedule of a fixed interval that missed a fire while the program was down fires at
  the first tick whatever its policy for missed fires: the skip policy only keeps recovery from
  sending one, and after a catch up, the tick fires a second time unless the first trigger was
  taken from the queue before.\<close>

theorem missed_schedules_fire_at_the_first_tick:
  assumes "start cron clock now m = (Started, m')" "s \<in> set (mg_store m)" "distinct (map sch_id (mg_store m))"
    and "sch_enabled s" "sch_trigger s = TcInterval n" "0 < n" "int n \<le> i64_max div 1000"
    and "sch_last_fire s = Some l" "l + int n * second < now" "now \<le> now'" "now' \<le> max_instant"
    and "sp_missed (sch_policies s) \<noteq> MpBackfill"
    and "evaluate_all cron (list_enabled (mg_store m')) now' = Some fs"
  shows "length (filter (\<lambda>f. ft_schedule_id f = sch_id s) (mg_queue m')) = (if sp_missed (sch_policies s) = MpSkip then 0 else 1)
    \<and> \<lparr>ft_schedule_id = sch_id s, ft_fired_at = now', ft_trigger_type = TtInterval\<rparr> \<in> set fs"
proof -
  note iv = compute_interval_secs [OF assms(5,7), of cron clock]
  have same: "mg_store m' = mg_store m"
    using start_Started [OF assms(1)] by blast
  obtain gs r where rec: "recover_missed cron clock now (mg_store m) = Some (gs, r)" and queue: "mg_queue m' = gs"
    using start_Started [OF assms(1)] by blast
  have gs: "gs = concat (map (recovered cron clock now) (list_enabled (mg_store m)))"
    using rec recover_all_triggers [of cron clock now "list_enabled (mg_store m)" "[]"] by (simp add: recover_missed_def)
  have ids: "f \<in> set (recovered cron clock now x) \<Longrightarrow> ft_schedule_id f = sch_id x" for f x
    by (auto simp: recovered_def recover_one_def make_trigger_def Let_def split: option.splits if_splits missed_policy.splits)
  have count: "length (filter (\<lambda>f. ft_schedule_id f = sch_id s) (concat (map (recovered cron clock now) xs))) =
      (if s \<in> set xs then length (recovered cron clock now s) else 0)"
    if "distinct (map sch_id xs)" "\<forall>x \<in> set xs. x \<noteq> s \<longrightarrow> sch_id x \<noteq> sch_id s" for xs
    using that
  proof (induction xs)
    case (Cons x xs)
    have "filter (\<lambda>f. ft_schedule_id f = sch_id s) (recovered cron clock now x) = (if x = s then recovered cron clock now s else [])"
      using Cons.prems(2) ids by (auto simp: filter_id_conv filter_empty_conv)
    moreover have "length (filter (\<lambda>f. ft_schedule_id f = sch_id s) (concat (map (recovered cron clock now) xs))) =
      (if s \<in> set xs then length (recovered cron clock now s) else 0)"
      using Cons.prems by (intro Cons.IH) simp_all
    moreover have "s \<notin> set xs" if "x = s" using Cons.prems(1) that by auto
    ultimately show ?case by simp
  qed simp
  have others: "\<forall>x \<in> set (mg_store m). x \<noteq> s \<longrightarrow> sch_id x \<noteq> sch_id s"
    using assms(2,3) by (metis distinct_map inj_onD)
  have en: "distinct (map sch_id (list_enabled (mg_store m)))" "\<forall>x \<in> set (list_enabled (mg_store m)). x \<noteq> s \<longrightarrow> sch_id x \<noteq> sch_id s"
    "s \<in> set (list_enabled (mg_store m))"
    using assms(2-4) others by (simp_all add: list_enabled_def distinct_map_filter)
  have "length (filter (\<lambda>f. ft_schedule_id f = sch_id s) gs) = length (recovered cron clock now s)"
    unfolding gs count [OF en(1,2)] using en(3) by simp
  moreover have "length (recovered cron clock now s) = (if sp_missed (sch_policies s) = MpSkip then 0 else 1)"
    using assms(6,8,9,12) iv by (cases "sp_missed (sch_policies s)") (auto simp: recovered_def recover_one_def add_caught_up_def)
  moreover have "evaluate_trigger cron s now' = Some (Some \<lparr>ft_schedule_id = sch_id s, ft_fired_at = now', ft_trigger_type = TtInterval\<rparr>)"
    using assms(4,5,7,8,9,10,11)
    by (auto simp: evaluate_trigger_def trigger_due_def interval_next_fire_def duration_seconds_def u64_to_i64_def
        i64_max_def time_add_def make_trigger_def)
  ultimately show ?thesis
    using evaluate_all_in [OF assms(13)] assms(2,4) by (simp add: queue same list_enabled_def)
qed

definition every_minute :: schedule where
  "every_minute = (schedule_new ''e'' ''every minute'' (TcInterval 60) ''w'' 0)\<lparr>sch_last_fire := Some 0\<rparr>"

lemma missed_schedules_fire_at_the_first_tick_witness:
  "\<exists>m fs. start no_cron 0 (90 * second) (single every_minute) = (Started, m) \<and> mg_queue m = []
     \<and> evaluate_all no_cron (list_enabled (mg_store m)) (91 * second) = Some fs
     \<and> \<lparr>ft_schedule_id = ''e'', ft_fired_at = 91 * second, ft_trigger_type = TtInterval\<rparr> \<in> set fs"
proof -
  let ?m = "(single every_minute)\<lparr>mg_eval_running := True, mg_exec_running := True\<rparr>"
  have s: "start no_cron 0 (90 * second) (single every_minute) = (Started, ?m)"
    by (simp add: start_def single_def manager_new_def recover_missed_def list_enabled_def every_minute_def schedule_new_def
        recover_one_def compute_interval_def duration_seconds_def u64_to_i64_def i64_max_def default_policies_def send_all_def
        queue_capacity_def second_def Let_def)
  have p: "every_minute \<in> set (mg_store (single every_minute))" "distinct (map sch_id (mg_store (single every_minute)))"
    "sch_enabled every_minute" "sch_trigger every_minute = TcInterval 60" "0 < (60::nat)" "int 60 \<le> i64_max div 1000"
    "sch_last_fire every_minute = Some 0" "0 + int 60 * second < 90 * second" "90 * second \<le> 91 * second"
    "91 * second \<le> max_instant" "sp_missed (sch_policies every_minute) \<noteq> MpBackfill"
    by (simp_all add: single_def every_minute_def schedule_new_def i64_max_def second_def max_instant_def default_policies_def)
  obtain fs where fs: "evaluate_all no_cron (list_enabled (mg_store ?m)) (91 * second) = Some fs"
    by (simp add: single_def list_enabled_def every_minute_def schedule_new_def evaluate_trigger_def trigger_due_def
        interval_next_fire_def duration_seconds_def u64_to_i64_def i64_max_def time_add_def max_instant_def second_def)
  have "mg_queue ?m = []" by (simp add: single_def manager_new_def)
  moreover have "sch_id every_minute = ''e''" by (simp add: every_minute_def schedule_new_def)
  ultimately show ?thesis using missed_schedules_fire_at_the_first_tick [OF s p fs] s fs by (metis (no_types, lifting))
qed

section \<open>Executions of an interval\<close>

text \<open>Orderly runs, with the last reading of a clock that does not go back: a tick comes when the
  triggers of the one before were taken from the queue, no trigger comes from outside, and
  schedules are registered as new ones.\<close>

inductive orderly_step :: "cron_next \<Rightarrow> (instant \<Rightarrow> string) \<Rightarrow> (instant \<Rightarrow> string) \<Rightarrow>
    manager \<times> instant \<Rightarrow> manager \<times> instant \<Rightarrow> bool" for cron rfc ser where
  OTick: "\<lbrakk>mg_fired m = []; mg_queue m = []; clk \<le> now; evaluate_all cron (list_enabled (mg_store m)) now = Some fs\<rbrakk> \<Longrightarrow>
    orderly_step cron rfc ser (m, clk) (m\<lparr>mg_fired := fs\<rparr>, now)"
| OSend: "\<lbrakk>mg_fired m = f # fs; length (mg_queue m) < queue_capacity\<rbrakk> \<Longrightarrow>
    orderly_step cron rfc ser (m, clk) (m\<lparr>mg_fired := fs, mg_queue := mg_queue m @ [f]\<rparr>, clk)"
| OConsume: "\<lbrakk>mg_queue m = f # fs; clk \<le> now\<rbrakk> \<Longrightarrow>
    orderly_step cron rfc ser (m, clk) (handle_fired_trigger rfc ser now uuid f (m\<lparr>mg_queue := fs\<rparr>), now)"
| OFinish: "orderly_step cron rfc ser (m, clk) (end_dispatch now ms res k m, clk)"
| ORegister: "sch_last_fire s = None \<Longrightarrow>
    orderly_step cron rfc ser (m, clk) (m\<lparr>mg_store := store_register s (mg_store m)\<rparr>, clk)"
| ORemove: "orderly_step cron rfc ser (m, clk) (m\<lparr>mg_store := snd (store_remove i (mg_store m))\<rparr>, clk)"
| OSetEnabled: "orderly_step cron rfc ser (m, clk) (m\<lparr>mg_store := snd (set_enabled i b now (mg_store m))\<rparr>, clk)"

definition spaced :: "schedule_store \<Rightarrow> instant \<Rightarrow> fired_trigger \<Rightarrow> bool" where
  "spaced st clk f = (ft_fired_at f \<le> clk \<and> (\<forall>s n l. store_get (ft_schedule_id f) st = Some s \<longrightarrow>
     sch_trigger s = TcInterval n \<longrightarrow> sch_last_fire s = Some l \<longrightarrow> l + int n * second \<le> ft_fired_at f))"

definition orderly :: "manager \<times> instant \<Rightarrow> bool" where
  "orderly = (\<lambda>(m, clk). distinct (map sch_id (mg_store m)) \<and> distinct (map ft_schedule_id (mg_queue m @ mg_fired m))
     \<and> (\<forall>f \<in> set (mg_queue m @ mg_fired m). spaced (mg_store m) clk f))"

lemma distinct_change_first:
  "(\<And>s. sch_id (f s) = sch_id s) \<Longrightarrow> map sch_id (change_first i f st) = map sch_id st"
  by (induction st) auto

lemma distinct_register: "distinct (map sch_id st) \<Longrightarrow> distinct (map sch_id (store_register s st))"
  by (auto simp: store_register_def distinct_map_filter)

lemma distinct_remove: "distinct (map sch_id st) \<Longrightarrow> distinct (map sch_id (snd (store_remove i st)))"
  by (simp add: store_remove_def Let_def distinct_map_filter)

lemma get_in_distinct: "distinct (map sch_id st) \<Longrightarrow> s \<in> set st \<Longrightarrow> store_get (sch_id s) st = Some s"
  by (induction st) (auto simp: store_get_def)

lemma evaluate_all_from:
  "evaluate_all cron ss now = Some fs \<Longrightarrow> f \<in> set fs \<Longrightarrow> \<exists>s \<in> set ss. evaluate_trigger cron s now = Some (Some f)"
  by (induction ss arbitrary: fs) (auto split: option.splits)

lemma evaluate_trigger_id: "evaluate_trigger cron s now = Some (Some f) \<Longrightarrow>
    ft_schedule_id f = sch_id s \<and> ft_fired_at f = now \<and> trigger_due cron s now = Some True"
  by (auto simp: evaluate_trigger_def make_trigger_def split: if_splits)

lemma evaluate_all_ids:
  "evaluate_all cron ss now = Some fs \<Longrightarrow> distinct (map sch_id ss) \<Longrightarrow>
   distinct (map ft_schedule_id fs) \<and> ft_schedule_id ` set fs \<subseteq> sch_id ` set ss"
proof (induction ss arbitrary: fs)
  case (Cons s ss)
  then obtain r gs where r: "evaluate_trigger cron s now = Some r" "evaluate_all cron ss now = Some gs"
    "fs = (case r of None \<Rightarrow> gs | Some x \<Rightarrow> x # gs)" by (auto split: option.splits)
  have ih: "distinct (map ft_schedule_id gs)" "ft_schedule_id ` set gs \<subseteq> sch_id ` set ss"
    using Cons.IH [OF r(2)] Cons.prems(2) by simp_all
  show ?case
  proof (cases r)
    case None
    then show ?thesis using ih r(3) by auto
  next
    case (Some f)
    then have "ft_schedule_id f = sch_id s" using r(1) evaluate_trigger_id by blast
    moreover have "sch_id s \<notin> ft_schedule_id ` set gs" using ih(2) Cons.prems(2) by auto
    ultimately show ?thesis using Some ih r(3) by auto
  qed
qed simp

lemma due_interval: "trigger_due cron s now = Some True \<Longrightarrow> sch_trigger s = TcInterval n \<Longrightarrow> sch_last_fire s = Some l \<Longrightarrow>
    l + int n * second \<le> now"
  by (auto simp: trigger_due_def interval_next_fire_def duration_seconds_def u64_to_i64_def time_add_def i64_max_def
      min_def split: if_splits)

lemma spaced_mono: "spaced st clk f \<Longrightarrow> clk \<le> clk' \<Longrightarrow> spaced st clk' f"
  by (simp add: spaced_def)

lemma spaced_get: "spaced st clk f \<Longrightarrow> (\<And>s n l. store_get (ft_schedule_id f) st' = Some s \<Longrightarrow> sch_last_fire s = Some l \<Longrightarrow>
    sch_trigger s = TcInterval n \<Longrightarrow> \<exists>s'. store_get (ft_schedule_id f) st = Some s' \<and> sch_last_fire s' = Some l \<and> sch_trigger s' = TcInterval n) \<Longrightarrow>
    spaced st' clk f"
  by (fastforce simp: spaced_def)

lemma handle_queues [simp]:
  "mg_queue (handle_fired_trigger rfc ser now uuid f m) = mg_queue m"
  "mg_fired (handle_fired_trigger rfc ser now uuid f m) = mg_fired m"
  by (auto simp: handle_fired_trigger_def Let_def split: option.splits prod.splits)

lemma end_rest [simp]:
  "mg_store (end_dispatch now ms res k m) = mg_store m" "mg_queue (end_dispatch now ms res k m) = mg_queue m"
  "mg_fired (end_dispatch now ms res k m) = mg_fired m"
  by (auto simp: end_dispatch_def finish_dispatch_def Let_def split: option.splits)

lemma orderly_spaced: "orderly (m, clk) \<Longrightarrow> f \<in> set (mg_queue m @ mg_fired m) \<Longrightarrow> spaced (mg_store m) clk f"
  unfolding orderly_def prod.case by blast

lemma orderly_distinct: "orderly (m, clk) \<Longrightarrow>
    distinct (map sch_id (mg_store m)) \<and> distinct (map ft_schedule_id (mg_queue m @ mg_fired m))"
  unfolding orderly_def prod.case by blast

lemma orderly_kept:
  assumes "orderly_step cron rfc ser a b" "orderly a"
  shows "orderly b"
  using assms
proof (induction rule: orderly_step.induct)
  case (OTick m clk now fs)
  have d: "distinct (map sch_id (list_enabled (mg_store m)))" "distinct (map sch_id (mg_store m))"
    using OTick.prems by (simp_all add: orderly_def list_enabled_def distinct_map_filter)
  have "spaced (mg_store m) now f" if f: "f \<in> set fs" for f
  proof -
    obtain s where s: "s \<in> set (mg_store m)" "evaluate_trigger cron s now = Some (Some f)"
      using evaluate_all_from [OF OTick.hyps(4) f] by (auto simp: list_enabled_def)
    have "store_get (sch_id s) (mg_store m) = Some s" by (rule get_in_distinct [OF d(2) s(1)])
    then show ?thesis using evaluate_trigger_id [OF s(2)] due_interval by (auto simp: spaced_def)
  qed
  then show ?case using OTick.hyps(1,2) d evaluate_all_ids [OF OTick.hyps(4) d(1)] by (simp add: orderly_def)
next
  case (OSend m f fs clk)
  then show ?case by (auto simp: orderly_def)
next
  case (OConsume m f fs clk now uuid)
  let ?st = "mg_store (handle_fired_trigger rfc ser now uuid f (m\<lparr>mg_queue := fs\<rparr>))"
  have st: "?st = (case store_get (ft_schedule_id f) (mg_store m) of None \<Rightarrow> mg_store m | Some s \<Rightarrow> update_last_fire (sch_id s) now (mg_store m))"
    by (simp add: handle_store split: option.split)
  have d: "distinct (map sch_id ?st)"
    using OConsume.prems unfolding st by (auto simp: orderly_def update_last_fire_def distinct_change_first split: option.split)
  have "spaced ?st now g" if g: "g \<in> set (fs @ mg_fired m)" for g
  proof -
    have "distinct (map ft_schedule_id (mg_queue m @ mg_fired m))" and all: "\<forall>f \<in> set (mg_queue m @ mg_fired m). spaced (mg_store m) clk f"
      using OConsume.prems unfolding orderly_def prod.case by blast+
    then have "ft_schedule_id f \<notin> set (map ft_schedule_id (fs @ mg_fired m))" using OConsume.hyps(1) by simp
    moreover have "ft_schedule_id g \<in> set (map ft_schedule_id (fs @ mg_fired m))" using g by (simp only: set_map imageI)
    ultimately have other: "ft_schedule_id g \<noteq> ft_schedule_id f" by metis
    have "g \<in> set (mg_queue m @ mg_fired m)" using g unfolding OConsume.hyps(1) by simp
    with all have sp: "spaced (mg_store m) clk g" by blast
    have "store_get (ft_schedule_id g) ?st = store_get (ft_schedule_id g) (mg_store m)"
    proof (cases "store_get (ft_schedule_id f) (mg_store m)")
      case (Some s)
      then have "sch_id s = ft_schedule_id f" by (auto simp: store_get_def find_Some_iff)
      then show ?thesis using Some other unfolding st by (simp add: get_last_fire)
    qed (simp add: st)
    then show ?thesis using spaced_mono [OF sp OConsume.hyps(2)] by (simp add: spaced_def)
  qed
  then show ?case using d OConsume.prems OConsume.hyps(1) by (simp add: orderly_def)
next
  case (OFinish m clk now ms res k)
  then show ?case by (simp add: orderly_def)
next
  case (ORegister s m clk)
  have "spaced (store_register s (mg_store m)) clk f" if "f \<in> set (mg_queue m @ mg_fired m)" for f
    by (rule spaced_get [OF orderly_spaced [OF ORegister.prems that]]) (use ORegister.hyps in \<open>auto simp: get_register split: if_splits\<close>)
  then show ?case using orderly_distinct [OF ORegister.prems] distinct_register by (simp add: orderly_def)
next
  case (ORemove m clk i)
  have "spaced (snd (store_remove i (mg_store m))) clk f" if "f \<in> set (mg_queue m @ mg_fired m)" for f
    by (rule spaced_get [OF orderly_spaced [OF ORemove.prems that]]) (auto simp: get_remove split: if_splits)
  then show ?case using orderly_distinct [OF ORemove.prems] distinct_remove by (simp add: orderly_def)
next
  case (OSetEnabled m clk i b now)
  have "spaced (snd (set_enabled i b now (mg_store m))) clk f" if "f \<in> set (mg_queue m @ mg_fired m)" for f
    by (rule spaced_get [OF orderly_spaced [OF OSetEnabled.prems that]]) (auto simp: get_set_enabled split: if_splits)
  then show ?case using orderly_distinct [OF OSetEnabled.prems] by (simp add: orderly_def set_enabled_def distinct_change_first)
qed

text \<open>C24: In an orderly run from an empty scheduler, whenever a trigger of a schedule with a fixed
  interval that has fired before is taken from the queue, at least the interval has passed since
  the schedule last fired.\<close>

theorem executions_respect_the_interval:
  assumes "(orderly_step cron rfc ser)\<^sup>*\<^sup>* (manager_new, t0) (m, clk)"
    and "mg_queue m = f # fs" "clk \<le> now" "store_get (ft_schedule_id f) (mg_store m) = Some s"
    and "sch_trigger s = TcInterval n" "sch_last_fire s = Some l"
  shows "l + int n * second \<le> now"
proof -
  have "orderly (m, clk)" using assms(1)
  proof (induction rule: rtranclp_induct)
    case base
    show ?case by (simp add: orderly_def manager_new_def)
  qed (rule orderly_kept)
  then have "spaced (mg_store m) clk f" using assms(2) by (simp add: orderly_def)
  then show ?thesis using assms(3-6) by (fastforce simp: spaced_def)
qed

text \<open>A schedule that fired at second 60, ticks at 120 and is taken from the queue at 121.\<close>

lemma executions_respect_the_interval_witness:
  "\<exists>m clk f s. (orderly_step no_cron (\<lambda>_. []) (\<lambda>_. []))\<^sup>*\<^sup>* (manager_new, 0) (m, clk) \<and> mg_queue m = [f]
     \<and> clk \<le> 121 * second \<and> store_get (ft_schedule_id f) (mg_store m) = Some s \<and> sch_last_fire s = Some (60 * second)
     \<and> 60 * second + int 60 * second \<le> 121 * second"
proof -
  let ?R = "orderly_step no_cron (\<lambda>_. []) (\<lambda>_. [])"
  let ?s = "schedule_new ''e'' ''every minute'' (TcInterval 60) ''w'' 0"
  let ?m1 = "manager_new\<lparr>mg_store := store_register ?s (mg_store manager_new)\<rparr>"
  let ?f = "make_trigger ?s (60 * second)" and ?g = "make_trigger ?s (120 * second)"
  have en: "evaluate_all no_cron (list_enabled (mg_store ?m1)) (60 * second) = Some [?f]"
    by (simp add: manager_new_def store_register_def list_enabled_def schedule_new_def evaluate_trigger_def trigger_due_def)
  let ?m2 = "?m1\<lparr>mg_fired := [?f]\<rparr>" and ?m3 = "?m1\<lparr>mg_fired := [], mg_queue := [?f]\<rparr>"
  let ?m4 = "handle_fired_trigger (\<lambda>_. []) (\<lambda>_. []) (60 * second) [] ?f (?m3\<lparr>mg_queue := []\<rparr>)"
  have store: "mg_store ?m4 = [?s\<lparr>sch_last_fire := Some (60 * second)\<rparr>]"
    by (simp add: handle_store manager_new_def store_register_def store_get_def make_trigger_def schedule_new_def update_last_fire_def)
  have en4: "evaluate_all no_cron (list_enabled (mg_store ?m4)) (120 * second) = Some [?g]"
    unfolding store by (simp add: list_enabled_def schedule_new_def evaluate_trigger_def trigger_due_def make_trigger_def
        interval_next_fire_def duration_seconds_def u64_to_i64_def i64_max_def time_add_def max_instant_def second_def)
  have empty: "mg_fired ?m4 = []" "mg_queue ?m4 = []" by (simp_all add: manager_new_def)
  let ?m5 = "?m4\<lparr>mg_fired := [?g]\<rparr>" and ?m6 = "?m4\<lparr>mg_fired := [], mg_queue := [?g]\<rparr>"
  have 1: "?R (manager_new, 0) (?m1, 0)" by (rule ORegister) (simp add: schedule_new_def)
  have 2: "?R (?m1, 0) (?m2, 60 * second)" by (rule OTick [OF _ _ _ en]) (simp_all add: manager_new_def second_def)
  have 3: "?R (?m2, 60 * second) (?m3, 60 * second)"
    using OSend [of ?m2 ?f "[]"] by (simp add: manager_new_def queue_capacity_def)
  have 4: "?R (?m3, 60 * second) (?m4, 60 * second)" by (rule OConsume) simp_all
  have 5: "?R (?m4, 60 * second) (?m5, 120 * second)" by (rule OTick [OF empty _ en4]) (simp add: second_def)
  have 6: "?R (?m5, 120 * second) (?m6, 120 * second)"
    using OSend [of ?m5 ?g "[]"] empty by (simp add: queue_capacity_def)
  have run: "?R\<^sup>*\<^sup>* (manager_new, 0) (?m6, 120 * second)"
    using 1 2 3 4 5 6 by (meson rtranclp.rtrancl_into_rtrancl rtranclp.rtrancl_refl)
  have q: "mg_queue ?m6 = ?g # []" "120 * second \<le> 121 * second" by (simp_all add: second_def)
  have get: "store_get (ft_schedule_id ?g) (mg_store ?m6) = Some (?s\<lparr>sch_last_fire := Some (60 * second)\<rparr>)"
    using store by (simp add: store_get_def make_trigger_def schedule_new_def)
  have "60 * second + int 60 * second \<le> 121 * second"
    by (rule executions_respect_the_interval [OF run q get]) (simp_all add: schedule_new_def)
  then show ?thesis using run q get by (intro exI [of _ ?m6] exI [of _ "120 * second"] exI [of _ ?g]) simp
qed

section \<open>Records\<close>

text \<open>At most a hundred records of a schedule are kept; a record is running exactly while its
  workflow is.\<close>

definition records_of :: "string \<Rightarrow> execution_store \<Rightarrow> execution list" where
  "records_of i es = filter (\<lambda>e. ex_schedule_id e = i) es"

lemma records_drop_same: "n \<le> length (records_of i es) \<Longrightarrow> length (records_of i (drop_oldest i n es)) = length (records_of i es) - n"
  by (induction es arbitrary: n) (auto simp: records_of_def)

lemma records_drop_other: "i \<noteq> j \<Longrightarrow> records_of j (drop_oldest i n es) = records_of j es"
  by (induction es arbitrary: n) (auto simp: records_of_def)

lemma drop_oldest_subset: "set (drop_oldest i n es) \<subseteq> set es"
  by (induction es arbitrary: n) auto

lemma record_subset: "set (record_execution e es) \<subseteq> insert e (set es)"
  using drop_oldest_subset [of "ex_schedule_id e" _ "es @ [e]"] by (simp add: record_execution_def Let_def)

lemma record_count:
  assumes "\<forall>i. length (records_of i es) \<le> max_per_schedule"
  shows "length (records_of i (record_execution e es)) \<le> max_per_schedule"
proof (cases "ex_schedule_id e = i")
  case True
  have "length (records_of i (es @ [e])) = Suc (length (records_of i es))" using True by (simp add: records_of_def)
  then show ?thesis using True assms records_drop_same [of _ i "es @ [e]"]
    by (auto simp: record_execution_def Let_def simp flip: records_of_def)
next
  case False
  then have "records_of i (record_execution e es) = records_of i es"
    using records_drop_other [OF False, of _ "es @ [e]"] by (simp add: record_execution_def Let_def records_of_def)
  then show ?thesis using assms by simp
qed

lemma update_ids: "(\<And>e. ex_schedule_id (f e) = ex_schedule_id e) \<Longrightarrow> length (records_of i (update_execution j f es)) = length (records_of i es)"
  by (induction es) (auto simp: records_of_def)

definition settled_records :: "manager \<Rightarrow> bool" where
  "settled_records m = ((\<forall>i. length (records_of i (mg_executions m)) \<le> max_per_schedule)
     \<and> distinct (map dp_execution_id (mg_dispatches m))
     \<and> (mg_dispatches m \<noteq> [] \<longrightarrow> mg_has_dispatcher m)
     \<and> (\<forall>d \<in> set (mg_dispatches m). length (filter (\<lambda>e. ex_execution_id e = dp_execution_id d) (mg_executions m)) \<le> 1)
     \<and> (\<forall>e \<in> set (mg_executions m). ex_status e = EsRunning \<longleftrightarrow> ex_execution_id e \<in> dp_execution_id ` set (mg_dispatches m)))"

lemma drop_filter: "length (filter P (drop_oldest i n es)) \<le> length (filter P es)"
proof (induction es arbitrary: n)
  case (Cons e es)
  show ?case using Cons [of n] Cons [of "n - 1"] by (auto intro: le_SucI)
qed simp

lemma record_filter: "length (filter P (record_execution e es)) \<le> length (filter P (es @ [e]))"
  by (simp add: record_execution_def Let_def drop_filter del: filter_append)

lemma update_none: "eid \<notin> ex_execution_id ` set es \<Longrightarrow> update_execution eid f es = es"
  by (induction es) auto

lemma update_set:
  assumes "length (filter (\<lambda>e. ex_execution_id e = eid) es) \<le> 1"
  shows "set (update_execution eid f es) = (\<lambda>e. if ex_execution_id e = eid then f e else e) ` set es"
  using assms
proof (induction es)
  case (Cons e es)
  show ?case
  proof (cases "ex_execution_id e = eid")
    case True
    then have "filter (\<lambda>e. ex_execution_id e = eid) es = []" using Cons.prems by simp
    then have "(\<lambda>e. if ex_execution_id e = eid then f e else e) ` set es = id ` set es"
      by (intro image_cong) (auto simp: filter_empty_conv)
    then show ?thesis using True by simp
  qed (use Cons in simp)
qed simp

lemma update_filter: "(\<And>e. ex_execution_id (f e) = ex_execution_id e) \<Longrightarrow>
    length (filter (\<lambda>e. ex_execution_id e = j) (update_execution i f es)) = length (filter (\<lambda>e. ex_execution_id e = j) es)"
  by (induction es) auto

lemma persist_dispatcher [simp]: "mg_has_dispatcher (persist c m) = mg_has_dispatcher m"
  by (simp add: persist_def)

lemma trigger_execution_shape:
  "\<exists>eid sq' st' e. trigger_execution rfc ser now s (sq, st, es) = (eid, sq', st', record_execution e es) \<and> ex_status e = EsCompleted"
proof -
  obtain n sq' where n: "next_sequence_for (sch_id s) sq = (n, sq')" by fastforce
  show ?thesis unfolding trigger_execution_def Let_def prod.case n by (intro exI conjI, rule refl) simp
qed

lemma settled_handle:
  assumes "settled_records m" "new_id (dispatched_id uuid f) m"
  shows "settled_records (handle_fired_trigger rfc ser now uuid f m)"
proof (cases "store_get (ft_schedule_id f) (mg_store m)")
  case None
  then show ?thesis using assms(1) by (simp add: handle_fired_trigger_def)
next
  case (Some s)
  show ?thesis
  proof (cases "mg_has_dispatcher m")
    case True
    let ?e = "running_record rfc ser now (dispatched_id uuid f) f s"
    let ?m = "handle_fired_trigger rfc ser now uuid f m"
    have m: "mg_executions ?m = record_execution ?e (mg_executions m)" "mg_has_dispatcher ?m"
      "map dp_execution_id (mg_dispatches ?m) = map dp_execution_id (mg_dispatches m) @ [dispatched_id uuid f]"
      using Some True by (simp_all add: handle_fired_trigger_def running_record_def Let_def)
    then have ids: "dp_execution_id ` set (mg_dispatches ?m) = insert (dispatched_id uuid f) (dp_execution_id ` set (mg_dispatches m))"
      by (metis list.set_map set_append Un_insert_right list.simps(15) set_empty2 sup_bot_right)
    have e: "ex_execution_id ?e = dispatched_id uuid f" "ex_status ?e = EsRunning" by (simp_all add: running_record_def)
    have fresh: "dispatched_id uuid f \<notin> ex_execution_id ` set (mg_executions m)" "dispatched_id uuid f \<notin> dp_execution_id ` set (mg_dispatches m)"
      using assms(2) by (simp_all add: new_id_def)
    have "length (filter (\<lambda>e. ex_execution_id e = i) (record_execution ?e (mg_executions m))) \<le> 1"
      if i: "i \<in> insert (dispatched_id uuid f) (dp_execution_id ` set (mg_dispatches m))" for i
    proof -
      have "length (filter (\<lambda>e. ex_execution_id e = i) (mg_executions m @ [?e])) \<le> 1"
      proof (cases "i = dispatched_id uuid f")
        case True
        then have "filter (\<lambda>e. ex_execution_id e = i) (mg_executions m) = []" using fresh(1) by (auto simp: filter_empty_conv image_iff)
        then show ?thesis by simp
      next
        case False
        then show ?thesis using i e(1) assms(1) by (auto simp: settled_records_def)
      qed
      then show ?thesis using record_filter le_trans by blast
    qed
    moreover have "ex_status x = EsRunning \<longleftrightarrow> ex_execution_id x \<in> insert (dispatched_id uuid f) (dp_execution_id ` set (mg_dispatches m))"
      if x: "x \<in> set (record_execution ?e (mg_executions m))" for x
    proof -
      consider "x = ?e" | "x \<in> set (mg_executions m)" using subsetD [OF record_subset x] by blast
      then show ?thesis
      proof cases
        case 2
        then have "ex_execution_id x \<noteq> dispatched_id uuid f" using fresh(1) by (metis imageI)
        then show ?thesis using 2 assms(1) by (simp add: settled_records_def)
      qed (simp add: e)
    qed
    moreover have "length (records_of i (record_execution ?e (mg_executions m))) \<le> max_per_schedule" for i
      using assms(1) by (intro record_count) (simp add: settled_records_def)
    moreover have "distinct (map dp_execution_id (mg_dispatches ?m))"
      using m(3) fresh(2) assms(1) by (simp add: settled_records_def)
    moreover have "\<forall>d \<in> set (mg_dispatches ?m). dp_execution_id d \<in> insert (dispatched_id uuid f) (dp_execution_id ` set (mg_dispatches m))"
      using ids by (metis imageI)
    ultimately show ?thesis using m(2) unfolding settled_records_def m(1) ids by blast
  next
    case False
    then have none: "mg_dispatches m = []" using assms(1) by (auto simp: settled_records_def)
    obtain eid sq st e where t: "trigger_execution rfc ser now s (mg_sequences m, mg_store m, mg_executions m) =
        (eid, sq, st, record_execution e (mg_executions m))" "ex_status e = EsCompleted"
      using trigger_execution_shape by blast
    have "mg_executions (handle_fired_trigger rfc ser now uuid f m) = record_execution e (mg_executions m)"
      "mg_dispatches (handle_fired_trigger rfc ser now uuid f m) = []"
      using Some False t(1) none by (auto simp: handle_fired_trigger_def Let_def split: option.split)
    moreover have "ex_status x \<noteq> EsRunning" if x: "x \<in> set (record_execution e (mg_executions m))" for x
      using subsetD [OF record_subset x] t(2) assms(1) none by (auto simp: settled_records_def)
    moreover have "length (records_of i (record_execution e (mg_executions m))) \<le> max_per_schedule" for i
      using assms(1) by (intro record_count) (simp add: settled_records_def)
    ultimately show ?thesis by (simp add: settled_records_def)
  qed
qed

lemma image_without:
  assumes "distinct (map g (xs @ y # ys))"
  shows "g ` set (xs @ ys) = g ` set (xs @ y # ys) - {g y}"
proof -
  have "g y \<notin> g ` (set xs \<union> set ys)" using assms by (simp add: image_Un)
  then show ?thesis by (simp add: image_Un)
qed

lemma settled_end:
  assumes "settled_records m" "k < length (mg_dispatches m)"
  shows "settled_records (end_dispatch now ms res k m)"
proof -
  let ?ds = "mg_dispatches m" and ?eid = "dp_execution_id (mg_dispatches m ! k)"
  let ?rest = "take k ?ds @ drop (k + 1) ?ds"
  let ?f = "case res of Inr r \<Rightarrow> complete_ok now ms r | Inl err \<Rightarrow> complete_error now err"
  have f: "ex_schedule_id (?f e) = ex_schedule_id e" "ex_execution_id (?f e) = ex_execution_id e" "ex_status (?f e) \<noteq> EsRunning" for e
    by (auto simp: complete_ok_def complete_error_def Let_def split: sum.split)
  have m: "mg_executions (end_dispatch now ms res k m) = update_execution ?eid ?f (mg_executions m)"
    "mg_dispatches (end_dispatch now ms res k m) = ?rest" "mg_has_dispatcher (end_dispatch now ms res k m) = mg_has_dispatcher m"
    by (auto simp: end_dispatch_def finish_dispatch_def Let_def split: option.split)
  have ds: "?ds = take k ?ds @ ?ds ! k # drop (k + 1) ?ds" using assms(2) by (simp add: id_take_nth_drop)
  have dist: "distinct (map dp_execution_id (take k ?ds @ ?ds ! k # drop (k + 1) ?ds))"
    using assms(1) ds by (simp add: settled_records_def)
  then have out: "dp_execution_id ` set ?rest = dp_execution_id ` set ?ds - {?eid}"
    using image_without ds by metis
  have d2: "distinct (map dp_execution_id ?rest)" using dist by auto
  have sub: "set ?rest \<subseteq> set ?ds" by (auto dest: in_set_takeD in_set_dropD)
  have one: "length (filter (\<lambda>e. ex_execution_id e = ?eid) (mg_executions m)) \<le> 1"
    using assms by (simp add: settled_records_def)
  have "ex_status x = EsRunning \<longleftrightarrow> ex_execution_id x \<in> dp_execution_id ` set ?ds - {?eid}"
    if x: "x \<in> set (update_execution ?eid ?f (mg_executions m))" for x
  proof -
    obtain e where e: "e \<in> set (mg_executions m)" "x = (if ex_execution_id e = ?eid then ?f e else e)"
      using x unfolding update_set [OF one] by blast
    have "ex_status e = EsRunning \<longleftrightarrow> ex_execution_id e \<in> dp_execution_id ` set ?ds"
      using assms(1) e(1) by (simp add: settled_records_def)
    then show ?thesis using e(2) f by (cases "ex_execution_id e = ?eid") simp_all
  qed
  moreover have "length (records_of i (update_execution ?eid ?f (mg_executions m))) \<le> max_per_schedule" for i
    using assms(1) update_ids [of ?f i ?eid] f(1) by (simp add: settled_records_def)
  moreover have "length (filter (\<lambda>e. ex_execution_id e = dp_execution_id d) (update_execution ?eid ?f (mg_executions m))) \<le> 1"
    if "d \<in> set ?rest" for d
    using assms(1) subsetD [OF sub that] update_filter [of ?f "dp_execution_id d" ?eid] f(2) by (simp add: settled_records_def)
  moreover have "?rest \<noteq> [] \<longrightarrow> mg_has_dispatcher m" using assms by (auto simp: settled_records_def)
  ultimately show ?thesis unfolding settled_records_def m out using d2 by blast
qed

lemma other_settled:
  assumes "settled_records m" "mg_executions m' = mg_executions m" "mg_dispatches m' = mg_dispatches m"
    "mg_has_dispatcher m \<longrightarrow> mg_has_dispatcher m'"
  shows "settled_records m'"
  using assms(1) unfolding settled_records_def assms(2,3) using assms(4) by blast

lemma settled_step: "manager_step cron rfc ser m m' \<Longrightarrow> settled_records m \<Longrightarrow> settled_records m'"
proof (induction rule: manager_step.induct)
  case (Start clock now m res m')
  then show ?case by (auto simp: start_def Let_def elim!: other_settled split: if_splits option.splits prod.splits)
next
  case (Consume m f fs uuid now)
  have "settled_records (m\<lparr>mg_queue := fs\<rparr>)" using Consume.prems by (rule other_settled) simp_all
  moreover have "new_id (dispatched_id uuid f) (m\<lparr>mg_queue := fs\<rparr>)" using Consume.hyps(3) by (simp add: new_id_def)
  ultimately show ?case by (rule settled_handle)
next
  case (Finish k m now ms res)
  then show ?case by (simp add: settled_end)
qed (auto simp: stop_def elim!: other_settled)



end
