(* ===== verification/SchedulerService.thy ===== *)
theory SchedulerService
  imports SchedulerRun "HOL-Library.List_Lexorder" "HOL-Library.Char_ord"
begin

text \<open>
  The service around the scheduler (\<open>y-service/src/scheduler_service.rs\<close>) and its tables
  (\<open>y-storage/src/schedule_store.rs\<close>): schedules and executions as rows, creating, changing and
  deleting schedules, the calls of the persistence adapter, and loading after a restart.

  The texts of instants, values and tags, and the clock of the database, are parameters.  A
  statement may fail; of an error only its cause is kept, not the message of the database.
\<close>

section \<open>Texts\<close>

record codec =
  cd_rfc :: "instant \<Rightarrow> string"
  cd_parse_time :: "string \<Rightarrow> instant option"
  cd_json :: "json \<Rightarrow> string"
  cd_parse_json :: "string \<Rightarrow> json option"
  cd_tags :: "string list \<Rightarrow> string"
  cd_parse_tags :: "string \<Rightarrow> string list option"

text \<open>\<open>str::parse::<u64>\<close>.\<close>

definition is_digit :: "char \<Rightarrow> bool" where
  "is_digit c = (48 \<le> (of_char c :: nat) \<and> of_char c \<le> (57 :: nat))"

definition digits_value :: "string \<Rightarrow> nat" where
  "digits_value s = foldl (\<lambda>a c. 10 * a + (of_char c - 48)) 0 s"

definition parse_u64 :: "string \<Rightarrow> nat option" where
  "parse_u64 s = (let ds = (case s of c # t \<Rightarrow> if c = CHR ''+'' then t else s | [] \<Rightarrow> [])
     in if ds = [] \<or> \<not> list_all is_digit ds \<or> 2 ^ 64 \<le> digits_value ds then None else Some (digits_value ds))"

text \<open>\<open>splitn(2, '|')\<close>.\<close>

definition split_bar :: "string \<Rightarrow> string \<times> string option" where
  "split_bar s = (case str_find (CHR ''|'') s of None \<Rightarrow> (s, None) | Some k \<Rightarrow> (take k s, Some (drop (k + 1) s)))"

section \<open>Rows\<close>

record schedule_row =
  sr_id :: string
  sr_name :: string
  sr_description :: "string option"
  sr_schedule_type :: string
  sr_schedule_expr :: string
  sr_workflow_id :: string
  sr_parameter_bindings :: "string option"
  sr_enabled :: bool
  sr_creator :: string
  sr_missed_policy :: string
  sr_concurrency_policy :: string
  sr_max_executions_per_hour :: nat
  sr_tags :: string
  sr_last_fire :: "string option"
  sr_created_at :: string
  sr_updated_at :: string

datatype internal_cause =
  IcPersist | IcUpdate | IcDelete | IcLoad
| IcInvalidInterval string | IcInvalidOneTime string | IcUnknownType string
| IcInvalidTriggeredAt string | IcUnknownStatus string

datatype service_error = SseNotFound string | SseValidation string | SseInternal internal_cause

fun trigger_columns :: "codec \<Rightarrow> trigger_config \<Rightarrow> string \<times> string" where
  "trigger_columns cd (TcCron e tz) = (''cron'', e @ ''|'' @ tz)"
| "trigger_columns cd (TcInterval n) = (''interval'', show_nat n)"
| "trigger_columns cd (TcEvent e d) = (''event'', e @ ''|'' @ show_nat d)"
| "trigger_columns cd (TcOneTime t) = (''onetime'', cd_rfc cd t)"

fun missed_column :: "missed_policy \<Rightarrow> string" where
  "missed_column MpSkip = ''skip''"
| "missed_column MpCatchUp = ''catch_up''"
| "missed_column MpBackfill = ''backfill''"

fun concurrency_column :: "concurrency_policy \<Rightarrow> string" where
  "concurrency_column CpSkipIfRunning = ''skip''"
| "concurrency_column CpQueue = ''queue''"
| "concurrency_column CpCancelPrevious = ''replace''"
| "concurrency_column CpAllow = ''replace''"

definition schedule_to_row :: "codec \<Rightarrow> schedule \<Rightarrow> schedule_row" where
  "schedule_to_row cd s = (case trigger_columns cd (sch_trigger s) of (ty, expr) \<Rightarrow>
     \<lparr>sr_id = sch_id s, sr_name = sch_name s,
      sr_description = (if sch_description s = [] then None else Some (sch_description s)),
      sr_schedule_type = ty, sr_schedule_expr = expr, sr_workflow_id = sch_workflow_id s,
      sr_parameter_bindings = (if sch_parameter_values s = JNull \<or> sch_parameter_values s = JObject [] then None
        else Some (cd_json cd (sch_parameter_values s))),
      sr_enabled = sch_enabled s, sr_creator = ''user'',
      sr_missed_policy = missed_column (sp_missed (sch_policies s)),
      sr_concurrency_policy = concurrency_column (sp_concurrency (sch_policies s)),
      sr_max_executions_per_hour = sp_max_executions_per_hour (sch_policies s), sr_tags = cd_tags cd (sch_tags s),
      sr_last_fire = map_option (cd_rfc cd) (sch_last_fire s), sr_created_at = cd_rfc cd (sch_created_at s),
      sr_updated_at = cd_rfc cd (sch_updated_at s)\<rparr>)"

definition trigger_from_columns :: "codec \<Rightarrow> string \<Rightarrow> string \<Rightarrow> service_error + trigger_config" where
  "trigger_from_columns cd ty expr =
     (if ty = ''cron'' then (case split_bar expr of (e, tz) \<Rightarrow>
        Inr (TcCron e (case tz of Some z \<Rightarrow> z | None \<Rightarrow> ''UTC'')))
      else if ty = ''interval'' then (case parse_u64 expr of
        None \<Rightarrow> Inl (SseInternal (IcInvalidInterval expr)) | Some n \<Rightarrow> Inr (TcInterval n))
      else if ty = ''event'' then (case split_bar expr of (e, d) \<Rightarrow>
        Inr (TcEvent e (case d of None \<Rightarrow> 0 | Some x \<Rightarrow> (case parse_u64 x of None \<Rightarrow> 0 | Some n \<Rightarrow> n))))
      else if ty = ''onetime'' then (case cd_parse_time cd expr of
        None \<Rightarrow> Inl (SseInternal (IcInvalidOneTime expr)) | Some t \<Rightarrow> Inr (TcOneTime t))
      else Inl (SseInternal (IcUnknownType ty)))"

definition missed_from_column :: "string \<Rightarrow> missed_policy" where
  "missed_from_column s = (if s = ''catch_up'' \<or> s = ''catchup'' then MpCatchUp
     else if s = ''backfill'' then MpBackfill else MpSkip)"

definition concurrency_from_column :: "string \<Rightarrow> concurrency_policy" where
  "concurrency_from_column s = (if s = ''allow'' then CpAllow else if s = ''queue'' then CpQueue
     else if s = ''cancel_previous'' then CpCancelPrevious else CpSkipIfRunning)"

definition schedule_from_row :: "codec \<Rightarrow> instant \<Rightarrow> schedule_row \<Rightarrow> service_error + schedule" where
  "schedule_from_row cd now r = (case trigger_from_columns cd (sr_schedule_type r) (sr_schedule_expr r) of
      Inl e \<Rightarrow> Inl e
    | Inr tc \<Rightarrow> Inr \<lparr>sch_id = sr_id r, sch_name = sr_name r, sch_enabled = sr_enabled r, sch_trigger = tc,
        sch_workflow_id = sr_workflow_id r,
        sch_parameter_values = (case sr_parameter_bindings r of None \<Rightarrow> JObject []
          | Some x \<Rightarrow> (case cd_parse_json cd x of None \<Rightarrow> JObject [] | Some v \<Rightarrow> v)),
        sch_policies = \<lparr>sp_missed = missed_from_column (sr_missed_policy r),
          sp_concurrency = concurrency_from_column (sr_concurrency_policy r),
          sp_max_executions_per_hour = (if sr_max_executions_per_hour r < 2 ^ 32 then sr_max_executions_per_hour r else 0)\<rparr>,
        sch_description = (case sr_description r of None \<Rightarrow> [] | Some d \<Rightarrow> d),
        sch_tags = (case cd_parse_tags cd (sr_tags r) of None \<Rightarrow> [] | Some ts \<Rightarrow> ts),
        sch_created_at = (case cd_parse_time cd (sr_created_at r) of None \<Rightarrow> now | Some t \<Rightarrow> t),
        sch_updated_at = (case cd_parse_time cd (sr_updated_at r) of None \<Rightarrow> now | Some t \<Rightarrow> t),
        sch_last_fire = (case sr_last_fire r of None \<Rightarrow> None | Some x \<Rightarrow> cd_parse_time cd x)\<rparr>)"

record execution_row =
  er_id :: string
  er_schedule_id :: string
  er_session_id :: "string option"
  er_status :: string
  er_triggered_at :: "string option"
  er_workflow_execution_id :: "string option"
  er_request_summary :: "string option"
  er_response_summary :: "string option"
  er_resolved_params :: "string option"
  er_error_message :: "string option"
  er_started_at :: string
  er_completed_at :: "string option"

definition execution_to_row :: "codec \<Rightarrow> execution \<Rightarrow> execution_row" where
  "execution_to_row cd e = \<lparr>er_id = ex_execution_id e, er_schedule_id = ex_schedule_id e, er_session_id = None,
     er_status = show_execution_status (ex_status e), er_triggered_at = Some (cd_rfc cd (ex_triggered_at e)),
     er_workflow_execution_id = ex_workflow_execution_id e, er_request_summary = Some (cd_json cd (ex_request_summary e)),
     er_response_summary = Some (cd_json cd (ex_response_summary e)),
     er_resolved_params = (case json_get ''parameter_values'' (ex_request_summary e) of
        None \<Rightarrow> None | Some v \<Rightarrow> if v = JNull then None else Some (cd_json cd v)),
     er_error_message = ex_error_message e,
     er_started_at = cd_rfc cd (case ex_started_at e of Some t \<Rightarrow> t | None \<Rightarrow> ex_triggered_at e),
     er_completed_at = map_option (cd_rfc cd) (ex_completed_at e)\<rparr>"

definition status_from_column :: "string \<Rightarrow> service_error + execution_status" where
  "status_from_column s = (if s = ''pending'' \<or> s = ''triggered'' then Inr EsPending else if s = ''running'' then Inr EsRunning
     else if s = ''completed'' then Inr EsCompleted else if s = ''failed'' then Inr EsFailed
     else if s = ''skipped'' then Inr EsSkipped else Inl (SseInternal (IcUnknownStatus s)))"

definition json_column :: "codec \<Rightarrow> string option \<Rightarrow> json" where
  "json_column cd x = (case x of None \<Rightarrow> JObject [] | Some t \<Rightarrow> (case cd_parse_json cd t of None \<Rightarrow> JObject [] | Some v \<Rightarrow> v))"

definition execution_from_row :: "codec \<Rightarrow> execution_row \<Rightarrow> service_error + execution" where
  "execution_from_row cd r = (let at1 = (case er_triggered_at r of Some x \<Rightarrow> x | None \<Rightarrow> er_started_at r) in
     case cd_parse_time cd at1 of
       None \<Rightarrow> Inl (SseInternal (IcInvalidTriggeredAt at1))
     | Some t \<Rightarrow> (case status_from_column (er_status r) of
         Inl e \<Rightarrow> Inl e
       | Inr st \<Rightarrow> Inr \<lparr>ex_execution_id = er_id r, ex_schedule_id = er_schedule_id r, ex_triggered_at = t,
           ex_started_at = cd_parse_time cd (er_started_at r),
           ex_completed_at = (case er_completed_at r of None \<Rightarrow> None | Some x \<Rightarrow> cd_parse_time cd x), ex_status = st,
           ex_workflow_execution_id = er_workflow_execution_id r, ex_request_summary = json_column cd (er_request_summary r),
           ex_response_summary = json_column cd (er_response_summary r), ex_error_message = er_error_message r\<rparr>))"

section \<open>Tables\<close>

text \<open>The identifiers of the workflow table, which the rows of schedules refer to; the rows of
  executions refer to those of schedules.  Foreign keys are enforced.\<close>

record sched_db =
  db_workflows :: "string list"
  db_schedules :: "schedule_row list"
  db_executions :: "execution_row list"

text \<open>The clock of the database, as it writes it into a row.\<close>

definition row_save :: "string \<Rightarrow> schedule_row \<Rightarrow> sched_db \<Rightarrow> sched_db option" where
  "row_save dbnow r db =
     (if sr_id r \<in> sr_id ` set (db_schedules db) \<or> sr_name r \<in> sr_name ` set (db_schedules db)
         \<or> sr_workflow_id r \<notin> set (db_workflows db) then None
      else Some (db\<lparr>db_schedules := db_schedules db @ [r\<lparr>sr_created_at := dbnow, sr_updated_at := dbnow\<rparr>]\<rparr>))"

definition row_get :: "string \<Rightarrow> sched_db \<Rightarrow> schedule_row option" where
  "row_get i db = find (\<lambda>r. sr_id r = i) (db_schedules db)"

definition row_list :: "sched_db \<Rightarrow> schedule_row list" where
  "row_list db = sort_key sr_name (db_schedules db)"

definition change_rows :: "string \<Rightarrow> (schedule_row \<Rightarrow> schedule_row) \<Rightarrow> sched_db \<Rightarrow> sched_db" where
  "change_rows i f db = db\<lparr>db_schedules := map (\<lambda>r. if sr_id r = i then f r else r) (db_schedules db)\<rparr>"

definition row_update :: "string \<Rightarrow> schedule_row \<Rightarrow> sched_db \<Rightarrow> (bool \<times> sched_db) option" where
  "row_update dbnow r db =
     (let hit = sr_id r \<in> sr_id ` set (db_schedules db) in
      if hit \<and> (sr_workflow_id r \<notin> set (db_workflows db)
          \<or> (\<exists>x \<in> set (db_schedules db). sr_id x \<noteq> sr_id r \<and> sr_name x = sr_name r)) then None
      else Some (hit, change_rows (sr_id r)
        (\<lambda>x. r\<lparr>sr_creator := sr_creator x, sr_created_at := sr_created_at x, sr_updated_at := dbnow\<rparr>) db))"

definition row_update_last_fire :: "string \<Rightarrow> string \<Rightarrow> string \<Rightarrow> sched_db \<Rightarrow> bool \<times> sched_db" where
  "row_update_last_fire dbnow i t db = (i \<in> sr_id ` set (db_schedules db),
     change_rows i (\<lambda>x. x\<lparr>sr_last_fire := Some t, sr_updated_at := dbnow\<rparr>) db)"

definition row_set_enabled :: "string \<Rightarrow> string \<Rightarrow> bool \<Rightarrow> sched_db \<Rightarrow> bool \<times> sched_db" where
  "row_set_enabled dbnow i b db = (i \<in> sr_id ` set (db_schedules db),
     change_rows i (\<lambda>x. x\<lparr>sr_enabled := b, sr_updated_at := dbnow\<rparr>) db)"

definition row_delete :: "string \<Rightarrow> sched_db \<Rightarrow> (bool \<times> sched_db) option" where
  "row_delete i db = (let hit = i \<in> sr_id ` set (db_schedules db) in
     if hit \<and> i \<in> er_schedule_id ` set (db_executions db) then None
     else Some (hit, db\<lparr>db_schedules := filter (\<lambda>r. sr_id r \<noteq> i) (db_schedules db)\<rparr>))"

definition row_record_execution :: "execution_row \<Rightarrow> sched_db \<Rightarrow> sched_db option" where
  "row_record_execution e db =
     (if er_id e \<in> er_id ` set (db_executions db) \<or> er_schedule_id e \<notin> sr_id ` set (db_schedules db) then None
      else Some (db\<lparr>db_executions := db_executions db @ [e]\<rparr>))"

definition row_update_execution :: "execution_row \<Rightarrow> sched_db \<Rightarrow> bool \<times> sched_db" where
  "row_update_execution e db = (er_id e \<in> er_id ` set (db_executions db),
     db\<lparr>db_executions := map (\<lambda>x. if er_id x = er_id e then e\<lparr>er_schedule_id := er_schedule_id x\<rparr> else x) (db_executions db)\<rparr>)"

definition row_list_executions :: "sched_db \<Rightarrow> execution_row list" where
  "row_list_executions db = sort_key er_started_at (db_executions db)"

section \<open>The persistence adapter\<close>

text \<open>The calls of the manager; a statement that fails is only reported.\<close>

fun apply_call :: "codec \<Rightarrow> string \<Rightarrow> persist_call \<Rightarrow> sched_db \<Rightarrow> sched_db" where
  "apply_call cd dbnow (PcRecord e) db = (case row_record_execution (execution_to_row cd e) db of None \<Rightarrow> db | Some db' \<Rightarrow> db')"
| "apply_call cd dbnow (PcUpdate e) db = snd (row_update_execution (execution_to_row cd e) db)"
| "apply_call cd dbnow (PcLastFire i t) db = snd (row_update_last_fire dbnow i (cd_rfc cd t) db)"

definition flush_calls :: "codec \<Rightarrow> string \<Rightarrow> manager \<times> sched_db \<Rightarrow> manager \<times> sched_db" where
  "flush_calls cd dbnow = (\<lambda>(m, db). (m\<lparr>mg_persisted := []\<rparr>, fold (apply_call cd dbnow) (mg_persisted m) db))"

section \<open>Operations\<close>

record create_request =
  cq_name :: string
  cq_trigger :: trigger_config
  cq_workflow_id :: string
  cq_parameter_values :: json
  cq_policies :: schedule_policies
  cq_description :: string
  cq_tags :: "string list"

record update_request =
  uq_name :: "string option"
  uq_trigger :: "trigger_config option"
  uq_workflow_id :: "string option"
  uq_parameter_values :: "json option"
  uq_policies :: "schedule_policies option"
  uq_description :: "string option"
  uq_tags :: "string list option"

definition unwrap_or :: "'a option \<Rightarrow> 'a \<Rightarrow> 'a" where
  "unwrap_or x d = (case x of None \<Rightarrow> d | Some y \<Rightarrow> y)"

text \<open>\<open>get\<close>; the summary of a schedule is the schedule.\<close>

definition service_get :: "string \<Rightarrow> manager \<Rightarrow> service_error + schedule" where
  "service_get i m = (case store_get i (mg_store m) of None \<Rightarrow> Inl (SseNotFound i) | Some s \<Rightarrow> Inr s)"

definition service_create :: "codec \<Rightarrow> string \<Rightarrow> instant \<Rightarrow> string \<Rightarrow> bool \<Rightarrow> create_request \<Rightarrow> manager \<times> sched_db \<Rightarrow>
    (service_error + schedule) \<times> manager \<times> sched_db" where
  "service_create cd dbnow now uuid fail q = (\<lambda>(m, db).
     if cq_name q = [] then (Inl (SseValidation ''schedule name cannot be empty''), m, db)
     else if cq_workflow_id q = [] then (Inl (SseValidation ''workflow_id cannot be empty''), m, db)
     else let s = (schedule_new uuid (cq_name q) (cq_trigger q) (cq_workflow_id q) now)
            \<lparr>sch_parameter_values := cq_parameter_values q, sch_policies := cq_policies q,
             sch_description := cq_description q, sch_tags := cq_tags q\<rparr>
       in case (if fail then None else row_save dbnow (schedule_to_row cd s) db) of
            None \<Rightarrow> (Inl (SseInternal IcPersist), m, db)
          | Some db' \<Rightarrow> (let m' = m\<lparr>mg_store := store_register s (mg_store m)\<rparr> in (service_get uuid m', m', db')))"

definition updated_schedule :: "instant \<Rightarrow> update_request \<Rightarrow> schedule \<Rightarrow> schedule" where
  "updated_schedule now q s =
     (schedule_new (sch_id s) (unwrap_or (uq_name q) (sch_name s)) (unwrap_or (uq_trigger q) (sch_trigger s))
        (unwrap_or (uq_workflow_id q) (sch_workflow_id s)) now)
       \<lparr>sch_parameter_values := unwrap_or (uq_parameter_values q) (sch_parameter_values s),
        sch_policies := unwrap_or (uq_policies q) (sch_policies s),
        sch_description := unwrap_or (uq_description q) (sch_description s), sch_tags := unwrap_or (uq_tags q) (sch_tags s)\<rparr>"

definition service_update :: "codec \<Rightarrow> string \<Rightarrow> instant \<Rightarrow> bool \<Rightarrow> string \<Rightarrow> update_request \<Rightarrow> manager \<times> sched_db \<Rightarrow>
    (service_error + schedule) \<times> manager \<times> sched_db" where
  "service_update cd dbnow now fail i q = (\<lambda>(m, db). case store_get i (mg_store m) of
      None \<Rightarrow> (Inl (SseNotFound i), m, db)
    | Some s \<Rightarrow> let s' = updated_schedule now q s in
        (case (if fail then None else row_update dbnow (schedule_to_row cd s') db) of
            None \<Rightarrow> (Inl (SseInternal IcUpdate), m, db)
          | Some (hit, db') \<Rightarrow>
              (let m' = m\<lparr>mg_store := store_register s' (snd (store_remove i (mg_store m)))\<rparr> in (service_get i m', m', db'))))"

definition service_delete :: "bool \<Rightarrow> string \<Rightarrow> manager \<times> sched_db \<Rightarrow> (service_error + bool) \<times> manager \<times> sched_db" where
  "service_delete fail i = (\<lambda>(m, db). case (if fail then None else row_delete i db) of
      None \<Rightarrow> (Inl (SseInternal IcDelete), m, db)
    | Some (hit, db') \<Rightarrow> (case store_remove i (mg_store m) of (b, st) \<Rightarrow> (Inr b, m\<lparr>mg_store := st\<rparr>, db')))"

text \<open>Pausing and resuming; the result of the statement is ignored.\<close>

definition service_set_enabled :: "string \<Rightarrow> instant \<Rightarrow> bool \<Rightarrow> bool \<Rightarrow> string \<Rightarrow> manager \<times> sched_db \<Rightarrow>
    (service_error + unit) \<times> manager \<times> sched_db" where
  "service_set_enabled dbnow now fail b i = (\<lambda>(m, db). case set_enabled i b now (mg_store m) of
      (True, st) \<Rightarrow> (Inr (), m\<lparr>mg_store := st\<rparr>, if fail then db else snd (row_set_enabled dbnow i b db))
    | (False, st) \<Rightarrow> (Inl (SseNotFound i), m, db))"

definition load_schedules :: "codec \<Rightarrow> instant \<Rightarrow> sched_db \<Rightarrow> manager \<Rightarrow> manager" where
  "load_schedules cd now db m = m\<lparr>mg_store := fold (\<lambda>r st. case schedule_from_row cd now r of
      Inl e \<Rightarrow> st | Inr s \<Rightarrow> store_register s st) (row_list db) (mg_store m)\<rparr>"

definition load_executions :: "codec \<Rightarrow> sched_db \<Rightarrow> manager \<Rightarrow> manager" where
  "load_executions cd db m = m\<lparr>mg_executions := fold (\<lambda>r es. case execution_from_row cd r of
      Inl e \<Rightarrow> es | Inr e \<Rightarrow> record_execution e es) (row_list_executions db) (mg_executions m)\<rparr>"

section \<open>Running by hand\<close>

text \<open>\<open>trigger_now\<close> and \<open>execute_workflow_with_parameters\<close>, which differ in the identifiers and
  the summary of the request.\<close>

definition manual_record :: "instant \<Rightarrow> string \<Rightarrow> string \<Rightarrow> json \<Rightarrow> execution" where
  "manual_record now eid sid req = \<lparr>ex_execution_id = eid, ex_schedule_id = sid, ex_triggered_at = now,
     ex_started_at = Some now, ex_completed_at = None, ex_status = EsRunning, ex_workflow_execution_id = None,
     ex_request_summary = req, ex_response_summary = JObject [], ex_error_message = None\<rparr>"

definition run_by_hand :: "instant \<Rightarrow> string \<Rightarrow> string \<Rightarrow> string \<Rightarrow> json \<Rightarrow> json \<Rightarrow> string option \<Rightarrow> json \<Rightarrow> manager \<Rightarrow>
    (service_error + execution) \<times> manager" where
  "run_by_hand now eid sid wid req params placeholder_id placeholder m =
     (let e = (if mg_has_dispatcher m then manual_record now eid sid req
               else (manual_record now eid sid req)\<lparr>ex_completed_at := Some now, ex_status := EsCompleted,
                 ex_workflow_execution_id := placeholder_id, ex_response_summary := placeholder\<rparr>);
          m1 = persist (PcRecord e) (m\<lparr>mg_executions := record_execution e (mg_executions m)\<rparr>);
          m2 = (if mg_has_dispatcher m then m1\<lparr>mg_dispatches := mg_dispatches m1 @
                 [\<lparr>dp_execution_id = eid, dp_workflow_id = wid, dp_parameters = params\<rparr>]\<rparr> else m1)
      in (case get_execution eid (mg_executions m2) of None \<Rightarrow> Inl (SseNotFound eid) | Some x \<Rightarrow> Inr x, m2))"

definition trigger_now :: "codec \<Rightarrow> instant \<Rightarrow> string \<Rightarrow> string \<Rightarrow> manager \<Rightarrow> (service_error + execution) \<times> manager" where
  "trigger_now cd now uuid i m = (case store_get i (mg_store m) of
      None \<Rightarrow> (Inl (SseNotFound i), m)
    | Some s \<Rightarrow>
        (let eid = ''exec-manual-'' @ uuid
         in run_by_hand now eid i (sch_workflow_id s)
              (json_object [(''schedule_id'', JString (sch_id s)), (''schedule_name'', JString (sch_name s)),
                (''workflow_id'', JString (sch_workflow_id s)), (''trigger'', JString ''manual''),
                (''parameter_values'', sch_parameter_values s), (''trigger_time'', JString (cd_rfc cd now))])
              (sch_parameter_values s) (Some (''workflow-'' @ eid))
              (json_object [(''status'', JString ''completed''), (''message'', JString ''Manual trigger executed (placeholder)''),
                (''workflow_execution_id'', JString (''workflow-'' @ eid))]) m))"

definition execute_workflow :: "codec \<Rightarrow> instant \<Rightarrow> string \<Rightarrow> string \<Rightarrow> string \<Rightarrow> json \<Rightarrow> manager \<Rightarrow> (service_error + execution) \<times> manager" where
  "execute_workflow cd now uuid wid wname params m =
     (let eid = ''exec-wf-'' @ uuid
      in run_by_hand now eid (''workflow-'' @ wid) wid
           (json_object [(''workflow_id'', JString wid), (''workflow_name'', JString wname),
             (''trigger'', JString ''manual_execute''), (''trigger_time'', JString (cd_rfc cd now)), (''parameters'', params)])
           params (Some eid)
           (json_object [(''status'', JString ''completed''), (''message'', JString ''Workflow executed manually (placeholder)'')]) m)"

end
