(* ===== verification/SchedulerServiceCorrect.thy ===== *)
theory SchedulerServiceCorrect
  imports SchedulerService SchedulerCorrect
begin

text \<open>
  Schedules through their rows and restarts, and what changing and deleting a schedule does.
\<close>

section \<open>Numbers and bars\<close>

lemma digit_of_char: "k < 10 \<Longrightarrow> (of_char (char_of (48 + k :: nat)) :: nat) = 48 + k"
  by (simp add: of_char_of take_bit_eq_mod)

lemma show_nat_digits: "list_all is_digit (show_nat n) \<and> show_nat n \<noteq> [] \<and> digits_value (show_nat n) = n"
proof (induction n rule: show_nat.induct)
  case (1 n)
  have "is_digit (char_of (48 + k :: nat))" if "k < 10" for k
    using digit_of_char [OF that] that by (simp add: is_digit_def)
  then show ?case using 1 digit_of_char [of n] digit_of_char [of "n mod 10"]
    by (subst (1 2 3) show_nat.simps) (auto simp: digits_value_def)
qed

lemma digit_not: "is_digit c \<Longrightarrow> c \<noteq> CHR ''+'' \<and> c \<noteq> CHR ''|''"
  by (auto simp: is_digit_def)

lemma parse_show_u64: "n < 2 ^ 64 \<Longrightarrow> parse_u64 (show_nat n) = Some n"
  using show_nat_digits [of n] digit_not
  by (cases "show_nat n") (auto simp: parse_u64_def Let_def)

lemma split_bar_append: "CHR ''|'' \<notin> set a \<Longrightarrow> split_bar (a @ CHR ''|'' # b) = (a, Some b)"
  by (simp add: split_bar_def str_find_first)

section \<open>Rows\<close>

text \<open>What the conversions of texts promise: they are inverse to each other.\<close>

definition codec_laws :: "codec \<Rightarrow> bool" where
  "codec_laws cd = ((\<forall>t. cd_parse_time cd (cd_rfc cd t) = Some t) \<and> (\<forall>ts. cd_parse_tags cd (cd_tags cd ts) = Some ts))"

fun trigger_storable :: "trigger_config \<Rightarrow> bool" where
  "trigger_storable (TcCron e tz) = (CHR ''|'' \<notin> set e)"
| "trigger_storable (TcInterval n) = (n < 2 ^ 64)"
| "trigger_storable (TcEvent e d) = (CHR ''|'' \<notin> set e \<and> d < 2 ^ 64)"
| "trigger_storable (TcOneTime t) = True"

definition storable :: "codec \<Rightarrow> schedule \<Rightarrow> bool" where
  "storable cd s = (trigger_storable (sch_trigger s) \<and> sp_max_executions_per_hour (sch_policies s) < 2 ^ 32
     \<and> cd_parse_json cd (cd_json cd (sch_parameter_values s)) = Some (sch_parameter_values s))"

text \<open>What is left of a schedule: no parameters are an empty object, and the policies that allow a
  second execution become the default.\<close>

definition restored :: "schedule \<Rightarrow> schedule" where
  "restored s = s\<lparr>sch_parameter_values := (if sch_parameter_values s = JNull then JObject [] else sch_parameter_values s),
     sch_policies := (sch_policies s)\<lparr>sp_concurrency := (if sp_concurrency (sch_policies s) = CpQueue then CpQueue else CpSkipIfRunning)\<rparr>\<rparr>"

lemma trigger_roundtrip: "codec_laws cd \<Longrightarrow> trigger_storable tc \<Longrightarrow>
    trigger_from_columns cd (fst (trigger_columns cd tc)) (snd (trigger_columns cd tc)) = Inr tc"
  by (cases tc) (simp_all add: trigger_from_columns_def split_bar_append parse_show_u64 codec_laws_def)

lemma missed_roundtrip: "missed_from_column (missed_column p) = p"
  by (cases p) (simp_all add: missed_from_column_def)

lemma concurrency_roundtrip:
  "concurrency_from_column (concurrency_column p) = (if p = CpQueue then CpQueue else CpSkipIfRunning)"
  by (cases p) (simp_all add: concurrency_from_column_def)

text \<open>A schedule read back from its row is the schedule, if no bar is in its cron expression or
  event type and its numbers fit, with two losses: a null parameter value becomes an empty
  object, and the policies allow and cancel previous become skip if running.\<close>

lemma schedule_rows_roundtrip:
  assumes "codec_laws cd" "storable cd s"
  shows "schedule_from_row cd now (schedule_to_row cd s) = Inr (restored s)"
proof -
  obtain ty expr where t: "trigger_columns cd (sch_trigger s) = (ty, expr)" by fastforce
  then have "trigger_from_columns cd ty expr = Inr (sch_trigger s)"
    using trigger_roundtrip [OF assms(1), of "sch_trigger s"] assms(2) by (simp add: storable_def)
  moreover have laws: "cd_parse_time cd (cd_rfc cd u) = Some u" "cd_parse_tags cd (cd_tags cd ts) = Some ts" for u ts
    using assms(1) by (simp_all add: codec_laws_def)
  moreover have "cd_parse_json cd (cd_json cd (sch_parameter_values s)) = Some (sch_parameter_values s)"
    "sp_max_executions_per_hour (sch_policies s) < 2 ^ 32" using assms(2) by (simp_all add: storable_def)
  ultimately show ?thesis
    using t by (cases "sch_last_fire s")
      (simp_all add: schedule_from_row_def schedule_to_row_def restored_def missed_roundtrip concurrency_roundtrip)
qed

text \<open>Texts that are easily read back, for the examples.\<close>

definition plain_tags :: "string list \<Rightarrow> string" where
  "plain_tags ts = concat (map (\<lambda>t. concat (map (\<lambda>c. [CHR ''c'', c]) t) @ ''.'') ts)"

fun read_tags :: "string \<Rightarrow> string \<Rightarrow> string list" where
  "read_tags t (x # y # s) = (if x = CHR ''c'' then read_tags (t @ [y]) s else t # read_tags [] (y # s))"
| "read_tags t [x] = [t]"
| "read_tags t [] = []"

definition plain_codec :: codec where
  "plain_codec = \<lparr>cd_rfc = (\<lambda>t. (if t < 0 then CHR ''-'' else CHR ''+'') # show_nat (nat (abs t))),
     cd_parse_time = (\<lambda>s. case s of [] \<Rightarrow> None
       | c # ds \<Rightarrow> Some (if c = CHR ''-'' then - int (digits_value ds) else int (digits_value ds))),
     cd_json = (\<lambda>v. if v = JNull then ''null'' else ''{}''),
     cd_parse_json = (\<lambda>s. Some (if s = ''null'' then JNull else JObject [])),
     cd_tags = plain_tags, cd_parse_tags = (\<lambda>s. Some (read_tags [] s))\<rparr>"

lemma read_tag: "read_tags u (concat (map (\<lambda>c. [CHR ''c'', c]) t) @ CHR ''.'' # s) = (u @ t) # read_tags [] s"
  by (induction t arbitrary: u) (auto, cases s, auto)

lemma plain_laws: "codec_laws plain_codec"
proof -
  have "read_tags [] (plain_tags ts) = ts" for ts
    by (induction ts) (simp_all add: plain_tags_def read_tag)
  then show ?thesis using show_nat_digits by (auto simp: codec_laws_def plain_codec_def)
qed

definition nightly :: schedule where
  "nightly = (schedule_new ''n1'' ''nightly'' (TcCron ''0 0 3 * * *'' ''UTC'') ''wf'' 5)
     \<lparr>sch_parameter_values := JNull, sch_policies := default_policies\<lparr>sp_concurrency := CpAllow\<rparr>, sch_tags := [''a'', ''bc'']\<rparr>"

lemma nightly_row:
  "schedule_from_row plain_codec 9 (schedule_to_row plain_codec nightly) =
     Inr (nightly\<lparr>sch_parameter_values := JObject [], sch_policies := default_policies\<lparr>sp_concurrency := CpSkipIfRunning\<rparr>\<rparr>)"
proof -
  have "storable plain_codec nightly"
    by (simp add: storable_def nightly_def schedule_new_def default_policies_def plain_codec_def)
  moreover have "restored nightly = nightly\<lparr>sch_parameter_values := JObject [], sch_policies := default_policies\<lparr>sp_concurrency := CpSkipIfRunning\<rparr>\<rparr>"
    by (simp add: restored_def nightly_def)
  ultimately show ?thesis using schedule_rows_roundtrip [OF plain_laws, of nightly 9] by simp
qed

section \<open>The table\<close>

lemma ids_change_rows:
  assumes "\<And>x. sr_id x = i \<Longrightarrow> sr_id (f x) = i"
  shows "map sr_id (db_schedules (change_rows i f db)) = map sr_id (db_schedules db)"
  using assms by (simp add: change_rows_def)

lemma get_change_rows:
  assumes "\<And>x. sr_id x = i \<Longrightarrow> sr_id (f x) = i"
  shows "row_get j (change_rows i f db) = (if i = j then map_option f (row_get j db) else row_get j db)"
proof -
  have "find (\<lambda>r. sr_id r = j) (map (\<lambda>r. if sr_id r = i then f r else r) rs) =
      (if i = j then map_option f (find (\<lambda>r. sr_id r = j) rs) else find (\<lambda>r. sr_id r = j) rs)" for rs
    using assms by (induction rs) auto
  then show ?thesis by (simp add: row_get_def change_rows_def)
qed

lemma row_get_in: "row_get i db \<noteq> None \<longleftrightarrow> i \<in> sr_id ` set (db_schedules db)"
  by (auto simp: row_get_def find_None_iff image_iff)

lemma row_get_id: "row_get i db = Some r \<Longrightarrow> sr_id r = i"
  by (auto simp: row_get_def find_Some_iff)

section \<open>Changing and deleting\<close>

text \<open>A successful update of a schedule, even one that sets no field, leaves it enabled, without
  a last fire and created anew, in memory and in its row: a paused schedule runs again, and a
  schedule with a cron expression or an interval fires at the next tick.\<close>

theorem updating_restarts_a_schedule:
  assumes "service_update cd dbnow now fail i q (m, db) = (Inr s', m', db')"
  shows "store_get i (mg_store m') = Some s' \<and> sch_enabled s' \<and> sch_last_fire s' = None \<and> sch_created_at s' = now
    \<and> (\<forall>r. row_get i db' = Some r \<longrightarrow> sr_enabled r \<and> sr_last_fire r = None)
    \<and> (trigger_type_of (sch_trigger s') \<in> {TtCron, TtInterval} \<longrightarrow>
         (\<forall>cron t. evaluate_trigger cron s' t = Some (Some (make_trigger s' t))))"
proof -
  obtain s where s: "store_get i (mg_store m) = Some s"
    using assms by (auto simp: service_update_def split: option.splits)
  let ?s = "updated_schedule now q s"
  have id: "sch_id s = i" using s by (auto simp: store_get_def find_Some_iff)
  obtain hit where r: "row_update dbnow (schedule_to_row cd ?s) db = Some (hit, db')"
    and m': "m' = m\<lparr>mg_store := store_register ?s (snd (store_remove i (mg_store m)))\<rparr>" and g: "service_get i m' = Inr s'"
    using assms s by (auto simp: service_update_def Let_def split: option.splits if_splits prod.splits)
  have us: "sch_id ?s = i" "sch_enabled ?s" "sch_last_fire ?s = None" "sch_created_at ?s = now"
    by (simp_all add: updated_schedule_def schedule_new_def id)
  have get: "store_get i (mg_store m') = Some ?s" by (simp add: m' get_register us)
  then have s': "s' = ?s" using g by (simp add: service_get_def)
  have rid: "sr_id (schedule_to_row cd ?s) = i" "sr_enabled (schedule_to_row cd ?s)" "sr_last_fire (schedule_to_row cd ?s) = None"
    using us by (simp_all add: schedule_to_row_def split: prod.split)
  have db': "db' = change_rows i (\<lambda>x. (schedule_to_row cd ?s)\<lparr>sr_creator := sr_creator x,
      sr_created_at := sr_created_at x, sr_updated_at := dbnow\<rparr>) db"
    using r rid(1) by (simp add: row_update_def Let_def split: if_splits)
  have "sr_enabled x \<and> sr_last_fire x = None" if "row_get i db' = Some x" for x
    using that rid unfolding db' by (subst (asm) get_change_rows) auto
  moreover have "evaluate_trigger cron ?s t = Some (Some (make_trigger ?s t))"
    if "trigger_type_of (sch_trigger ?s) \<in> {TtCron, TtInterval}" for cron t
    using that us by (cases "sch_trigger ?s") (auto simp: evaluate_trigger_def trigger_due_def)
  ultimately show ?thesis using get s' us by blast
qed

definition paused_manager :: manager where
  "paused_manager = manager_new\<lparr>mg_store := [nightly\<lparr>sch_enabled := False, sch_last_fire := Some 7\<rparr>], mg_has_persistence := True\<rparr>"

definition nightly_db :: sched_db where
  "nightly_db = \<lparr>db_workflows = [''wf''], db_schedules = [schedule_to_row plain_codec nightly], db_executions = []\<rparr>"

definition no_change :: update_request where
  "no_change = \<lparr>uq_name = None, uq_trigger = None, uq_workflow_id = None, uq_parameter_values = None, uq_policies = None,
     uq_description = None, uq_tags = None\<rparr>"

lemma row_of_nightly: "sr_id (schedule_to_row plain_codec nightly) = ''n1''"
  by (simp add: schedule_to_row_def nightly_def schedule_new_def)

theorem updating_restarts_a_schedule_witness:
  "\<exists>s' m' db'. service_update plain_codec ''now'' 9 False ''n1'' no_change (paused_manager, nightly_db) = (Inr s', m', db')
     \<and> store_get ''n1'' (mg_store paused_manager) = Some (nightly\<lparr>sch_enabled := False, sch_last_fire := Some 7\<rparr>)
     \<and> sch_enabled s' \<and> sch_last_fire s' = None"
proof -
  let ?s = "nightly\<lparr>sch_enabled := False, sch_last_fire := Some 7\<rparr>"
  let ?u = "updated_schedule 9 no_change ?s"
  have get: "store_get ''n1'' (mg_store paused_manager) = Some ?s"
    by (simp add: paused_manager_def store_get_def nightly_def schedule_new_def)
  have u: "sch_id ?u = ''n1''" by (simp add: updated_schedule_def nightly_def schedule_new_def)
  have "sr_workflow_id (schedule_to_row plain_codec ?u) = ''wf''" "sr_id (schedule_to_row plain_codec ?u) = ''n1''"
    by (simp_all add: schedule_to_row_def updated_schedule_def unwrap_or_def no_change_def nightly_def schedule_new_def)
  then have "row_update ''now'' (schedule_to_row plain_codec ?u) nightly_db \<noteq> None"
    by (simp add: row_update_def Let_def nightly_db_def row_of_nightly)
  then obtain hit db' where "row_update ''now'' (schedule_to_row plain_codec ?u) nightly_db = Some (hit, db')" by auto
  then have "\<exists>m'. service_update plain_codec ''now'' 9 False ''n1'' no_change (paused_manager, nightly_db) = (Inr ?u, m', db')"
    using get u by (simp add: service_update_def Let_def service_get_def get_register)
  then show ?thesis using updating_restarts_a_schedule get by blast
qed

lemma persisted_handle:
  assumes "store_get (ft_schedule_id f) (mg_store m) = Some s" "mg_has_dispatcher m" "mg_has_persistence m" "mg_persisted m = []"
  shows "mg_persisted (handle_fired_trigger rfc ser now uuid f m) =
    [PcLastFire (sch_id s) now, PcRecord (running_record rfc ser now (dispatched_id uuid f) f s)]"
  using assms by (simp add: handle_fired_trigger_def persist_def Let_def)

text \<open>Once a trigger of a stored schedule was executed, with a workflow dispatcher and the
  database attached, deleting the schedule fails on the foreign key of its executions, whatever
  else happens to the statement, and the schedule stays in memory and in its table.\<close>

theorem executed_schedules_cannot_be_deleted:
  assumes "store_get (ft_schedule_id f) (mg_store m) = Some s" "mg_has_dispatcher m" "mg_has_persistence m" "mg_persisted m = []"
    and "sch_id s \<in> sr_id ` set (db_schedules db)" "dispatched_id uuid f \<notin> er_id ` set (db_executions db)"
    and "flush_calls cd dbnow (handle_fired_trigger rfc ser now uuid f m, db) = (m1, db1)"
  shows "service_delete fail (sch_id s) (m1, db1) = (Inl (SseInternal IcDelete), m1, db1)
    \<and> store_get (sch_id s) (mg_store m1) \<noteq> None \<and> row_get (sch_id s) db1 \<noteq> None"
proof -
  have id: "sch_id s = ft_schedule_id f" using assms(1) by (auto simp: store_get_def find_Some_iff)
  let ?e = "execution_to_row cd (running_record rfc ser now (dispatched_id uuid f) f s)"
  let ?db = "snd (row_update_last_fire dbnow (sch_id s) (cd_rfc cd now) db)"
  have e: "er_id ?e = dispatched_id uuid f" "er_schedule_id ?e = sch_id s"
    by (simp_all add: execution_to_row_def running_record_def)
  have db: "?db = change_rows (sch_id s) (\<lambda>x. x\<lparr>sr_last_fire := Some (cd_rfc cd now), sr_updated_at := dbnow\<rparr>) db"
    by (simp add: row_update_last_fire_def)
  have "map sr_id (db_schedules ?db) = map sr_id (db_schedules db)" unfolding db by (rule ids_change_rows) simp
  then have ids: "sr_id ` set (db_schedules ?db) = sr_id ` set (db_schedules db)" by (metis list.set_map)
  have exs: "db_executions ?db = db_executions db" by (simp add: db change_rows_def)
  have "row_record_execution ?e ?db = Some (?db\<lparr>db_executions := db_executions db @ [?e]\<rparr>)"
    using e assms(5,6) ids exs by (simp add: row_record_execution_def)
  then have db1: "db1 = ?db\<lparr>db_executions := db_executions db @ [?e]\<rparr>"
    and m1: "m1 = (handle_fired_trigger rfc ser now uuid f m)\<lparr>mg_persisted := []\<rparr>"
    using assms(7) persisted_handle [OF assms(1-4), of rfc ser now uuid] by (simp_all add: flush_calls_def)
  have "row_delete (sch_id s) db1 = None"
    using ids assms(5) e(2) by (simp add: row_delete_def Let_def db1)
  then have "service_delete fail (sch_id s) (m1, db1) = (Inl (SseInternal IcDelete), m1, db1)"
    by (simp add: service_delete_def)
  moreover have "store_get (sch_id s) (mg_store m1) \<noteq> None"
    using assms(1) by (simp add: m1 handle_store get_last_fire id)
  moreover have "row_get (sch_id s) db1 \<noteq> None"
    unfolding row_get_in using ids assms(5) by (simp add: db1)
  ultimately show ?thesis by blast
qed

theorem executed_schedules_cannot_be_deleted_witness:
  "\<exists>m1 db1. flush_calls plain_codec ''now'' (handle_fired_trigger (\<lambda>_. []) (\<lambda>_. []) 10 ''u''
       (make_trigger nightly 10) (paused_manager\<lparr>mg_has_dispatcher := True\<rparr>), nightly_db) = (m1, db1)
     \<and> service_delete False ''n1'' (m1, db1) = (Inl (SseInternal IcDelete), m1, db1)"
proof -
  let ?s = "nightly\<lparr>sch_enabled := False, sch_last_fire := Some 7\<rparr>"
  let ?m = "paused_manager\<lparr>mg_has_dispatcher := True\<rparr>"
  let ?f = "make_trigger nightly 10"
  obtain m1 db1 where st: "flush_calls plain_codec ''now'' (handle_fired_trigger (\<lambda>_. []) (\<lambda>_. []) 10 ''u'' ?f ?m, nightly_db) = (m1, db1)"
    by fastforce
  have id: "sch_id ?s = ''n1''" by (simp add: nightly_def schedule_new_def)
  have get: "store_get (ft_schedule_id ?f) (mg_store ?m) = Some ?s"
    by (simp add: paused_manager_def store_get_def nightly_def schedule_new_def make_trigger_def)
  have rest: "mg_has_dispatcher ?m" "mg_has_persistence ?m" "mg_persisted ?m = []"
    by (simp_all add: paused_manager_def manager_new_def)
  have "sch_id ?s \<in> sr_id ` set (db_schedules nightly_db)" by (simp add: nightly_db_def row_of_nightly id)
  moreover have "dispatched_id ''u'' ?f \<notin> er_id ` set (db_executions nightly_db)" by (simp add: nightly_db_def)
  ultimately have "service_delete False (sch_id ?s) (m1, db1) = (Inl (SseInternal IcDelete), m1, db1)"
    using executed_schedules_cannot_be_deleted [OF get rest _ _ st] by blast
  then show ?thesis using st id by simp
qed

section \<open>Memory and table\<close>

datatype service_op =
  SoCreate instant string bool create_request
| SoUpdate instant bool string update_request
| SoDelete bool string
| SoSetEnabled instant bool string
| SoFire instant string fired_trigger

fun service_step :: "codec \<Rightarrow> string \<Rightarrow> (instant \<Rightarrow> string) \<Rightarrow> service_op \<Rightarrow> manager \<times> sched_db \<Rightarrow> manager \<times> sched_db" where
  "service_step cd dbnow ser (SoCreate now uuid fail q) st = snd (service_create cd dbnow now uuid fail q st)"
| "service_step cd dbnow ser (SoUpdate now fail i q) st = snd (service_update cd dbnow now fail i q st)"
| "service_step cd dbnow ser (SoDelete fail i) st = snd (service_delete fail i st)"
| "service_step cd dbnow ser (SoSetEnabled now b i) st = snd (service_set_enabled dbnow now False b i st)"
| "service_step cd dbnow ser (SoFire now uuid f) (m, db) =
     flush_calls cd dbnow (handle_fired_trigger (cd_rfc cd) ser now uuid f m, db)"

definition row_agrees :: "codec \<Rightarrow> schedule_row \<Rightarrow> schedule \<Rightarrow> bool" where
  "row_agrees cd r s = (r = (schedule_to_row cd s)\<lparr>sr_created_at := sr_created_at r, sr_updated_at := sr_updated_at r\<rparr>)"

definition in_sync :: "codec \<Rightarrow> manager \<times> sched_db \<Rightarrow> bool" where
  "in_sync cd = (\<lambda>(m, db). (\<forall>i. rel_option (row_agrees cd) (row_get i db) (store_get i (mg_store m)))
     \<and> distinct (map sr_id (db_schedules db)) \<and> (\<forall>i s. store_get i (mg_store m) = Some s \<longrightarrow> storable cd s)
     \<and> mg_has_persistence m \<and> mg_persisted m = [])"

definition request_storable :: "codec \<Rightarrow> update_request \<Rightarrow> bool" where
  "request_storable cd q = ((\<forall>tc. uq_trigger q = Some tc \<longrightarrow> trigger_storable tc)
     \<and> (\<forall>v. uq_parameter_values q = Some v \<longrightarrow> cd_parse_json cd (cd_json cd v) = Some v)
     \<and> (\<forall>p. uq_policies q = Some p \<longrightarrow> sp_max_executions_per_hour p < 2 ^ 32))"

fun op_storable :: "codec \<Rightarrow> service_op \<Rightarrow> bool" where
  "op_storable cd (SoCreate now uuid fail q) = (trigger_storable (cq_trigger q)
     \<and> cd_parse_json cd (cd_json cd (cq_parameter_values q)) = Some (cq_parameter_values q)
     \<and> sp_max_executions_per_hour (cq_policies q) < 2 ^ 32)"
| "op_storable cd (SoUpdate now fail i q) = request_storable cd q"
| "op_storable cd _ = True"

lemma in_syncI:
  assumes "\<And>i. rel_option (row_agrees cd) (row_get i db) (store_get i (mg_store m))" "distinct (map sr_id (db_schedules db))"
    "\<And>i s. store_get i (mg_store m) = Some s \<Longrightarrow> storable cd s" "mg_has_persistence m" "mg_persisted m = []"
  shows "in_sync cd (m, db)"
  using assms by (simp add: in_sync_def)

lemma in_syncD:
  assumes "in_sync cd (m, db)"
  shows "rel_option (row_agrees cd) (row_get i db) (store_get i (mg_store m))" "distinct (map sr_id (db_schedules db))"
    "store_get i (mg_store m) = Some s \<Longrightarrow> storable cd s" "mg_has_persistence m" "mg_persisted m = []"
  using assms unfolding in_sync_def prod.case by blast+

lemma agrees_new: "row_agrees cd ((schedule_to_row cd s)\<lparr>sr_created_at := a, sr_updated_at := b\<rparr>) s"
  by (simp add: row_agrees_def)

lemma row_of_shape: "sr_id (schedule_to_row cd s) = sch_id s" "sr_creator (schedule_to_row cd s) = ''user''"
  "sr_enabled (schedule_to_row cd s) = sch_enabled s" "sr_last_fire (schedule_to_row cd s) = map_option (cd_rfc cd) (sch_last_fire s)"
  by (simp_all add: schedule_to_row_def split: prod.split)

lemma row_of_times: "schedule_to_row cd (s\<lparr>sch_enabled := b, sch_updated_at := t\<rparr>) =
    (schedule_to_row cd s)\<lparr>sr_enabled := b, sr_updated_at := cd_rfc cd t\<rparr>"
  "schedule_to_row cd (s\<lparr>sch_last_fire := Some t\<rparr>) = (schedule_to_row cd s)\<lparr>sr_last_fire := Some (cd_rfc cd t)\<rparr>"
  by (simp_all add: schedule_to_row_def split: prod.split)

lemma agrees_creator: "row_agrees cd r s \<Longrightarrow> sr_creator r = ''user''"
  unfolding row_agrees_def by (metis row_of_shape(2) schedule_row.select_convs(9) schedule_row.surjective schedule_row.update_convs(15,16))

lemma agrees_enabled: "row_agrees cd r s \<Longrightarrow>
    row_agrees cd (r\<lparr>sr_enabled := b, sr_updated_at := d\<rparr>) (s\<lparr>sch_enabled := b, sch_updated_at := t\<rparr>)"
  unfolding row_agrees_def row_of_times by (cases r; cases "schedule_to_row cd s") simp

lemma agrees_fired: "row_agrees cd r s \<Longrightarrow>
    row_agrees cd (r\<lparr>sr_last_fire := Some (cd_rfc cd t), sr_updated_at := d\<rparr>) (s\<lparr>sch_last_fire := Some t\<rparr>)"
  unfolding row_agrees_def row_of_times by (cases r; cases "schedule_to_row cd s") simp

lemma agrees_replaced: "row_agrees cd r s \<Longrightarrow>
    row_agrees cd ((schedule_to_row cd s')\<lparr>sr_creator := sr_creator r, sr_created_at := a, sr_updated_at := b\<rparr>) s'"
  using agrees_creator [of cd r s] row_of_shape(2) [of cd s'] unfolding row_agrees_def
  by (cases "schedule_to_row cd s'") simp

text \<open>One schedule and its row change together.\<close>

lemma sync_change:
  assumes "in_sync cd (m, db)"
    and store: "\<And>j. store_get j (mg_store m') = (if i = j then map_option g (store_get j (mg_store m)) else store_get j (mg_store m))"
    and rows: "db_schedules db' = db_schedules (change_rows i f db)"
    and keep: "\<And>x. sr_id x = i \<Longrightarrow> sr_id (f x) = i"
    and agree: "\<And>r s. store_get i (mg_store m) = Some s \<Longrightarrow> row_agrees cd r s \<Longrightarrow> row_agrees cd (f r) (g s)"
    and fits: "\<And>s. store_get i (mg_store m) = Some s \<Longrightarrow> storable cd s \<Longrightarrow> storable cd (g s)"
    and rest: "mg_has_persistence m'" "mg_persisted m' = []"
  shows "in_sync cd (m', db')"
proof (rule in_syncI)
  note sync = in_syncD [OF assms(1)]
  have get: "row_get j db' = (if i = j then map_option f (row_get j db) else row_get j db)" for j
    using get_change_rows [OF keep, where j = j and db = db] rows by (simp add: row_get_def)
  show "rel_option (row_agrees cd) (row_get j db') (store_get j (mg_store m'))" for j
    using sync(1) [of j] agree
    by (cases "row_get j db"; cases "store_get j (mg_store m)") (auto simp: get store)
  show "distinct (map sr_id (db_schedules db'))"
    using sync(2) ids_change_rows [OF keep, where db = db] rows by simp
  show "storable cd s" if "store_get j (mg_store m') = Some s" for j s
    using that sync(3) fits by (auto simp: store split: if_splits)
qed (use rest in simp_all)

lemma sync_create:
  assumes "in_sync cd (m, db)" "op_storable cd (SoCreate now uuid fail q)"
  shows "in_sync cd (snd (service_create cd dbnow now uuid fail q (m, db)))"
proof -
  let ?s = "(schedule_new uuid (cq_name q) (cq_trigger q) (cq_workflow_id q) now)
            \<lparr>sch_parameter_values := cq_parameter_values q, sch_policies := cq_policies q,
             sch_description := cq_description q, sch_tags := cq_tags q\<rparr>"
  let ?r = "schedule_to_row cd ?s"
  note sync = in_syncD [OF assms(1)]
  show ?thesis
  proof (cases "cq_name q = [] \<or> cq_workflow_id q = [] \<or> fail \<or> row_save dbnow ?r db = None")
    case True
    then show ?thesis using assms(1) by (auto simp: service_create_def Let_def)
  next
    case False
    have id: "sr_id ?r = uuid" "sch_id ?s = uuid"
      by (simp_all add: schedule_to_row_def schedule_new_def split: prod.split)
    let ?db = "db\<lparr>db_schedules := db_schedules db @ [?r\<lparr>sr_created_at := dbnow, sr_updated_at := dbnow\<rparr>]\<rparr>"
    let ?m = "m\<lparr>mg_store := store_register ?s (mg_store m)\<rparr>"
    have new: "uuid \<notin> sr_id ` set (db_schedules db)" and save: "row_save dbnow ?r db = Some ?db"
      using False id by (auto simp: row_save_def split: if_splits)
    have step: "snd (service_create cd dbnow now uuid fail q (m, db)) = (?m, ?db)"
      using False save by (simp add: service_create_def Let_def)
    have get: "row_get i ?db = (if i = uuid then Some (?r\<lparr>sr_created_at := dbnow, sr_updated_at := dbnow\<rparr>) else row_get i db)" for i
    proof -
      have "row_get uuid db = None" using new row_get_in by blast
      then show ?thesis using id by (auto simp: row_get_def find_append split: option.split)
    qed
    have fits: "storable cd ?s" using assms(2) by (simp add: storable_def schedule_new_def)
    show ?thesis unfolding step
    proof (rule in_syncI)
      show "rel_option (row_agrees cd) (row_get i ?db) (store_get i (mg_store ?m))" for i
        using sync(1) [of i] agrees_new id by (simp add: get get_register)
      show "distinct (map sr_id (db_schedules ?db))" using sync(2) new id by simp
      show "storable cd s" if "store_get i (mg_store ?m) = Some s" for i s
      proof (cases "i = uuid")
        case True
        then have "s = ?s" using that id(2) by (simp add: get_register)
        then show ?thesis using fits by simp
      next
        case False
        then show ?thesis using that id(2) sync(3) by (simp add: get_register)
      qed
    qed (use sync(4,5) in simp_all)
  qed
qed

lemma sync_update:
  assumes "in_sync cd (m, db)" "op_storable cd (SoUpdate now fail i q)"
  shows "in_sync cd (snd (service_update cd dbnow now fail i q (m, db)))"
proof (cases "store_get i (mg_store m)")
  case None
  then show ?thesis using assms(1) by (simp add: service_update_def)
next
  case (Some s)
  let ?s = "updated_schedule now q s"
  have id: "sch_id s = i" using Some by (auto simp: store_get_def find_Some_iff)
  have sid: "sch_id ?s = i" by (simp add: updated_schedule_def schedule_new_def id)
  note sync = in_syncD [OF assms(1)]
  show ?thesis
  proof (cases "fail \<or> row_update dbnow (schedule_to_row cd ?s) db = None")
    case True
    then show ?thesis using assms(1) Some by (auto simp: service_update_def Let_def)
  next
    case False
    let ?f = "\<lambda>x. (schedule_to_row cd ?s)\<lparr>sr_creator := sr_creator x, sr_created_at := sr_created_at x, sr_updated_at := dbnow\<rparr>"
    have r: "row_update dbnow (schedule_to_row cd ?s) db =
        Some (i \<in> sr_id ` set (db_schedules db), change_rows i ?f db)"
      using False sid by (simp add: row_update_def Let_def row_of_shape split: if_splits)
    let ?m = "m\<lparr>mg_store := store_register ?s (snd (store_remove i (mg_store m)))\<rparr>"
    have step: "snd (service_update cd dbnow now fail i q (m, db)) = (?m, change_rows i ?f db)"
      using False Some r by (simp add: service_update_def Let_def)
    show ?thesis unfolding step
    proof (rule sync_change [OF assms(1), where i = i and f = ?f and g = "\<lambda>_. ?s"])
      show "store_get j (mg_store ?m) = (if i = j then map_option (\<lambda>_. ?s) (store_get j (mg_store m)) else store_get j (mg_store m))" for j
        using Some by (auto simp: get_register get_remove sid)
      show "sr_id (?f x) = i" for x by (simp add: row_of_shape sid)
      show "row_agrees cd (?f r) ?s" if "row_agrees cd r t" for r t using agrees_replaced [OF that] .
      have "storable cd s" using sync(3) Some .
      then show "storable cd ?s" using assms(2)
        by (cases "uq_trigger q"; cases "uq_parameter_values q"; cases "uq_policies q")
          (simp_all add: storable_def updated_schedule_def schedule_new_def unwrap_or_def request_storable_def)
    qed (use sync(4,5) in simp_all)
  qed
qed

lemma sync_set_enabled:
  assumes "in_sync cd (m, db)"
  shows "in_sync cd (snd (service_set_enabled dbnow now False b i (m, db)))"
proof (cases "store_get i (mg_store m)")
  case None
  then show ?thesis using assms by (simp add: service_set_enabled_def set_enabled_def)
next
  case (Some s)
  let ?m = "m\<lparr>mg_store := snd (set_enabled i b now (mg_store m))\<rparr>"
  let ?f = "\<lambda>x. x\<lparr>sr_enabled := b, sr_updated_at := dbnow\<rparr>"
  note sync = in_syncD [OF assms]
  have step: "snd (service_set_enabled dbnow now False b i (m, db)) = (?m, change_rows i ?f db)"
    using Some by (simp add: service_set_enabled_def set_enabled_def row_set_enabled_def)
  show ?thesis unfolding step
  proof (rule sync_change [OF assms, where i = i and f = ?f and g = "\<lambda>s. s\<lparr>sch_enabled := b, sch_updated_at := now\<rparr>"])
    show "row_agrees cd (?f r) (s\<lparr>sch_enabled := b, sch_updated_at := now\<rparr>)" if "row_agrees cd r s" for r s
      using agrees_enabled [OF that] .
  qed (use sync(4,5) in \<open>auto simp: get_set_enabled storable_def\<close>)
qed

lemma sync_delete:
  assumes "in_sync cd (m, db)"
  shows "in_sync cd (snd (service_delete fail i (m, db)))"
proof (cases "fail \<or> row_delete i db = None")
  case True
  then show ?thesis using assms by (auto simp: service_delete_def)
next
  case False
  let ?db = "db\<lparr>db_schedules := filter (\<lambda>r. sr_id r \<noteq> i) (db_schedules db)\<rparr>"
  let ?m = "m\<lparr>mg_store := snd (store_remove i (mg_store m))\<rparr>"
  note sync = in_syncD [OF assms]
  obtain hit where r: "row_delete i db = Some (hit, ?db)"
    using False by (auto simp: row_delete_def Let_def split: if_splits)
  have step: "snd (service_delete fail i (m, db)) = (?m, ?db)"
    using False r by (simp add: service_delete_def split: prod.split)
  have find: "find (\<lambda>r. sr_id r = j) (filter (\<lambda>r. sr_id r \<noteq> i) rs) = (if i = j then None else find (\<lambda>r. sr_id r = j) rs)"
    for j and rs :: "schedule_row list"
    by (induction rs) auto
  show ?thesis unfolding step
  proof (rule in_syncI)
    show "rel_option (row_agrees cd) (row_get j ?db) (store_get j (mg_store ?m))" for j
      using sync(1) [of j] find by (simp add: row_get_def get_remove)
    show "distinct (map sr_id (db_schedules ?db))" using sync(2) by (simp add: distinct_map_filter)
    show "storable cd s" if "store_get j (mg_store ?m) = Some s" for j s
      using that sync(3) by (simp add: get_remove split: if_splits)
  qed (use sync(4,5) in simp_all)
qed

lemma record_keeps: "db_schedules (apply_call cd dbnow (PcRecord e) db) = db_schedules db"
  by (simp add: row_record_execution_def split: option.split)

lemma records_keep: "db_schedules (fold (apply_call cd dbnow) (map PcRecord es) db) = db_schedules db"
  by (induction es arbitrary: db) (simp_all add: record_keeps del: apply_call.simps)

lemma persist_on: "mg_has_persistence m \<Longrightarrow> mg_persisted (persist c m) = mg_persisted m @ [c]"
  "mg_has_persistence (persist c m) = mg_has_persistence m"
  by (simp_all add: persist_def)

lemma fire_calls:
  assumes "store_get (ft_schedule_id f) (mg_store m) = Some s" "mg_has_persistence m" "mg_persisted m = []"
  shows "\<exists>es. mg_persisted (handle_fired_trigger rfc ser now uuid f m) = PcLastFire (ft_schedule_id f) now # map PcRecord es"
proof -
  have id: "sch_id s = ft_schedule_id f" using assms(1) by (auto simp: store_get_def find_Some_iff)
  show ?thesis
  proof (cases "mg_has_dispatcher m")
    case True
    then show ?thesis using persisted_handle [OF assms(1) True assms(2,3)] id by (metis list.simps(8,9))
  next
    case False
    obtain eid sq st es where t: "trigger_execution rfc ser now s (mg_sequences m, mg_store m, mg_executions m) = (eid, sq, st, es)"
      by (metis prod_cases4)
    have st: "st = update_last_fire (sch_id s) now (mg_store m)" using t by (simp add: trigger_execution_def Let_def split: prod.splits)
    have fire: "store_get (sch_id s) st = Some (s\<lparr>sch_last_fire := Some now\<rparr>)"
      unfolding st get_last_fire using assms(1) id by simp
    show ?thesis
    proof (cases "get_execution eid es")
      case None
      then have "mg_persisted (handle_fired_trigger rfc ser now uuid f m) = [PcLastFire (sch_id s) now]"
        using assms False t fire by (simp add: handle_fired_trigger_def persist_on Let_def)
      then show ?thesis using id by auto
    next
      case (Some e)
      then have "mg_persisted (handle_fired_trigger rfc ser now uuid f m) = [PcLastFire (sch_id s) now, PcRecord e]"
        using assms False t fire by (simp add: handle_fired_trigger_def persist_on Let_def)
      then show ?thesis using id by (metis list.simps(8,9))
    qed
  qed
qed

lemma persistence_kept: "mg_has_persistence (handle_fired_trigger rfc ser now uuid f m) = mg_has_persistence m"
  by (auto simp: handle_fired_trigger_def persist_on Let_def split: option.splits prod.splits)

lemma sync_fire:
  assumes "in_sync cd (m, db)"
  shows "in_sync cd (flush_calls cd dbnow (handle_fired_trigger (cd_rfc cd) ser now uuid f m, db))"
proof -
  let ?m = "handle_fired_trigger (cd_rfc cd) ser now uuid f m"
  let ?i = "ft_schedule_id f"
  note sync = in_syncD [OF assms]
  show ?thesis
  proof (cases "store_get ?i (mg_store m)")
    case None
    then have "?m = m" by (simp add: handle_fired_trigger_def)
    moreover have "flush_calls cd dbnow (m, db) = (m, db)" using sync(5) by (cases m) (simp add: flush_calls_def)
    ultimately show ?thesis using assms by simp
  next
    case (Some s)
    obtain es where calls: "mg_persisted ?m = PcLastFire ?i now # map PcRecord es"
      using fire_calls [OF Some sync(4,5)] by blast
    let ?f = "\<lambda>x. x\<lparr>sr_last_fire := Some (cd_rfc cd now), sr_updated_at := dbnow\<rparr>"
    have id: "sch_id s = ?i" using Some by (auto simp: store_get_def find_Some_iff)
    show ?thesis unfolding flush_calls_def prod.case
    proof (rule sync_change [OF assms, where i = ?i and f = ?f and g = "\<lambda>s. s\<lparr>sch_last_fire := Some now\<rparr>"])
      show "store_get j (mg_store (?m\<lparr>mg_persisted := []\<rparr>)) =
          (if ?i = j then map_option (\<lambda>s. s\<lparr>sch_last_fire := Some now\<rparr>) (store_get j (mg_store m)) else store_get j (mg_store m))" for j
        using Some id by (auto simp: handle_store get_last_fire)
      show "db_schedules (fold (apply_call cd dbnow) (mg_persisted ?m) db) = db_schedules (change_rows ?i ?f db)"
        by (simp add: calls records_keep row_update_last_fire_def)
      show "row_agrees cd (?f r) (s\<lparr>sch_last_fire := Some now\<rparr>)" if "row_agrees cd r s" for r s
        using agrees_fired [OF that] .
    qed (use sync(4) in \<open>simp_all add: storable_def persistence_kept\<close>)
  qed
qed

lemma sync_step: "in_sync cd st \<Longrightarrow> op_storable cd x \<Longrightarrow> in_sync cd (service_step cd dbnow ser x st)"
  by (cases st; cases x) (simp_all add: sync_create sync_update sync_delete sync_set_enabled sync_fire del: op_storable.simps)

lemma sync_steps: "in_sync cd st \<Longrightarrow> list_all (op_storable cd) xs \<Longrightarrow> in_sync cd (fold (service_step cd dbnow ser) xs st)"
  by (induction xs arbitrary: st) (simp_all add: sync_step)

section \<open>Restarting\<close>

text \<open>A schedule as a restart brings it back; the times of its row are those of the database.\<close>

definition comes_back :: "schedule \<Rightarrow> schedule \<Rightarrow> bool" where
  "comes_back s s' = (s' = (restored s)\<lparr>sch_created_at := sch_created_at s', sch_updated_at := sch_updated_at s'\<rparr>)"

lemma from_row_times: "schedule_from_row cd now r = Inr s \<Longrightarrow>
    \<exists>c d. schedule_from_row cd now (r\<lparr>sr_created_at := a, sr_updated_at := b\<rparr>) = Inr (s\<lparr>sch_created_at := c, sch_updated_at := d\<rparr>)"
  by (auto simp: schedule_from_row_def split: sum.splits)

lemma agreeing_row_comes_back:
  assumes "codec_laws cd" "storable cd s" "row_agrees cd r s"
  shows "\<exists>s'. schedule_from_row cd now r = Inr s' \<and> comes_back s s'"
proof -
  let ?r = "schedule_to_row cd s"
  have r: "r = ?r\<lparr>sr_created_at := sr_created_at r, sr_updated_at := sr_updated_at r\<rparr>"
    using assms(3) by (simp add: row_agrees_def)
  have restore: "schedule_from_row cd now ?r = Inr (restored s)" using schedule_rows_roundtrip [OF assms(1,2)] .
  obtain a b where "schedule_from_row cd now r = Inr ((restored s)\<lparr>sch_created_at := a, sch_updated_at := b\<rparr>)"
    using from_row_times [OF restore, where a = "sr_created_at r" and b = "sr_updated_at r"] r by metis
  then show ?thesis by (simp add: comes_back_def)
qed

definition load_row :: "codec \<Rightarrow> instant \<Rightarrow> schedule_row \<Rightarrow> schedule list \<Rightarrow> schedule list" where
  "load_row cd now r st = (case schedule_from_row cd now r of Inl e \<Rightarrow> st | Inr s \<Rightarrow> store_register s st)"

lemma from_row_id: "schedule_from_row cd now r = Inr s \<Longrightarrow> sch_id s = sr_id r"
  by (auto simp: schedule_from_row_def split: sum.splits)

lemma load_all:
  assumes "distinct (map sr_id rs)" "\<And>r. r \<in> set rs \<Longrightarrow> \<exists>s. schedule_from_row cd now r = Inr s"
  shows "store_get i (fold (load_row cd now) rs st) = (case find (\<lambda>r. sr_id r = i) rs of
      None \<Rightarrow> store_get i st | Some r \<Rightarrow> (case schedule_from_row cd now r of Inl e \<Rightarrow> None | Inr s \<Rightarrow> Some s))"
  using assms
proof (induction rs arbitrary: st)
  case (Cons r rs)
  obtain s where s: "schedule_from_row cd now r = Inr s" using Cons.prems(2) by auto
  have none: "find (\<lambda>x. sr_id x = sr_id r) rs = None" using Cons.prems(1) unfolding find_None_iff
    by (metis distinct.simps(2) imageI list.set_map list.simps(9))
  show ?case
    using Cons.IH [of "store_register s st"] Cons.prems s none from_row_id [OF s]
    by (auto simp: load_row_def get_register split: option.split)
qed simp

lemma find_row: "distinct (map sr_id rs) \<Longrightarrow> r \<in> set rs \<Longrightarrow> find (\<lambda>x. sr_id x = sr_id r) rs = Some r"
  by (induction rs) (auto simp: image_iff)

lemma find_sorted_rows:
  assumes "distinct (map sr_id rs)"
  shows "find (\<lambda>r. sr_id r = i) (sort_key f rs) = find (\<lambda>r. sr_id r = i) rs"
proof (cases "find (\<lambda>r. sr_id r = i) rs")
  case None
  then have "find (\<lambda>r. sr_id r = i) (sort_key f rs) = None" by (simp add: find_None_iff)
  then show ?thesis using None by simp
next
  case (Some r)
  then have "r \<in> set (sort_key f rs)" "sr_id r = i" by (auto simp: find_Some_iff)
  moreover have "distinct (map sr_id (sort_key f rs))" using assms by (simp add: distinct_map)
  ultimately show ?thesis using find_row Some by fastforce
qed

lemma in_sync_reloads:
  assumes "codec_laws cd" "in_sync cd (m, db)"
  shows "rel_option comes_back (store_get i (mg_store m)) (store_get i (mg_store (load_schedules cd now db manager_new)))"
proof -
  note sync = in_syncD [OF assms(2)]
  have row: "\<exists>s s'. store_get (sr_id r) (mg_store m) = Some s \<and> schedule_from_row cd now r = Inr s' \<and> comes_back s s'"
    if "r \<in> set (db_schedules db)" for r
  proof -
    have "find (\<lambda>x. sr_id x = sr_id r) (db_schedules db) = Some r"
      using find_row [OF sync(2) that] .
    then have "rel_option (row_agrees cd) (Some r) (store_get (sr_id r) (mg_store m))"
      using sync(1) [of "sr_id r"] by (simp add: row_get_def)
    then obtain s where "store_get (sr_id r) (mg_store m) = Some s" "row_agrees cd r s" by (auto simp: option_rel_Some1)
    then show ?thesis using agreeing_row_comes_back [OF assms(1) sync(3)] by blast
  qed
  have load: "store_get i (mg_store (load_schedules cd now db manager_new)) =
      (case row_get i db of None \<Rightarrow> None | Some r \<Rightarrow> (case schedule_from_row cd now r of Inl e \<Rightarrow> None | Inr s \<Rightarrow> Some s))"
  proof -
    have "distinct (map sr_id (row_list db))" unfolding row_list_def using sync(2)
      by (simp add: distinct_map)
    moreover have "\<exists>s. schedule_from_row cd now r = Inr s" if "r \<in> set (row_list db)" for r
      using row [of r] that by (auto simp: row_list_def)
    ultimately show ?thesis
      using load_all [of "row_list db" cd now i "[]"] find_sorted_rows [OF sync(2), of i sr_name]
      by (simp add: load_schedules_def load_row_def [abs_def] manager_new_def row_get_def row_list_def store_get_def [of i "[]"] split: option.split)
  qed
  show ?thesis
  proof (cases "row_get i db")
    case None
    then show ?thesis using load sync(1) [of i] by simp
  next
    case (Some r)
    then have "r \<in> set (db_schedules db)" "sr_id r = i" by (auto simp: row_get_def find_Some_iff)
    then obtain s s' where "store_get i (mg_store m) = Some s" "schedule_from_row cd now r = Inr s'" "comes_back s s'"
      using row by blast
    then show ?thesis using load Some by simp
  qed
qed

lemma sync_start: "in_sync cd (manager_new\<lparr>mg_has_persistence := True, mg_has_dispatcher := d\<rparr>, \<lparr>db_workflows = ws, db_schedules = [], db_executions = []\<rparr>)"
  by (simp add: in_sync_def row_get_def manager_new_def store_get_def)


definition some_request :: create_request where
  "some_request = \<lparr>cq_name = ''nightly'', cq_trigger = TcInterval 60, cq_workflow_id = ''wf'', cq_parameter_values = JNull,
     cq_policies = default_policies, cq_description = [], cq_tags = []\<rparr>"

definition some_steps :: "service_op list" where
  "some_steps = [SoCreate 1 ''n1'' False some_request, SoSetEnabled 2 False ''n1'',
     SoFire 3 ''u'' \<lparr>ft_schedule_id = ''n1'', ft_fired_at = 3, ft_trigger_type = TtInterval\<rparr>]"

lemma flush_store: "mg_store (fst (flush_calls cd dbnow st)) = mg_store (fst st)"
  by (simp add: flush_calls_def split: prod.split)


end
