(* ===== verification/Coordination.thy ===== *)
theory Coordination
  imports Prelude
begin

text \<open>
  Leases on shared resources and the supervision of services with one owner
  (\<open>y-storage/src/coordination.rs\<close>, \<open>y-service/src/instance_coordination.rs\<close>): the statements on
  the two tables, the supervisors of all processes as a step relation, and the exclusion and
  succession of owners.

  Times are milliseconds of the clock of the database, whose texts have four digits for a year
  and so are ordered as the times are; durations are nanoseconds.  A statement may fail.
\<close>

section \<open>Tables\<close>

type_synonym db_time = int

text \<open>\<open>strftime\<close> is null outside the years 0000 to 9999.\<close>

definition db_time_min :: db_time where "db_time_min = - 62167219200000"

definition db_time_max :: db_time where "db_time_max = 253402300799999"

definition shift_time :: "db_time \<Rightarrow> int \<Rightarrow> db_time option" where
  "shift_time now ms = (if db_time_min \<le> now + ms \<and> now + ms \<le> db_time_max then Some (now + ms) else None)"

record registration =
  rg_instance_id :: string
  rg_process_id :: nat
  rg_runtime_kind :: string
  rg_metadata :: string

record instance_row =
  in_registration :: registration
  in_started_at :: db_time
  in_heartbeat_at :: db_time

record runtime_lease =
  rl_kind :: string
  rl_resource :: string
  rl_owner :: string
  rl_token :: nat
  rl_expires :: db_time

record coord_db =
  cd_instances :: "instance_row list"
  cd_leases :: "string \<times> string \<rightharpoonup> runtime_lease"

datatype coord_error = CoConfig string | CoDatabase

section \<open>Statements\<close>

definition validate_identifier :: "string \<Rightarrow> string \<Rightarrow> coord_error + unit" where
  "validate_identifier field v = (if str_trim v = [] then Inl (CoConfig (field @ '' must not be empty'')) else Inr ())"

definition validate_lease_input :: "string \<Rightarrow> string \<Rightarrow> string \<Rightarrow> nat \<Rightarrow> coord_error + unit" where
  "validate_lease_input k r owner ttl =
     (case validate_identifier ''resource_kind'' k of Inl e \<Rightarrow> Inl e | Inr _ \<Rightarrow>
     (case validate_identifier ''resource_id'' r of Inl e \<Rightarrow> Inl e | Inr _ \<Rightarrow>
     (case validate_identifier ''owner_instance_id'' owner of Inl e \<Rightarrow> Inl e | Inr _ \<Rightarrow>
       if ttl = 0 then Inl (CoConfig ''lease ttl must be greater than zero'') else Inr ())))"

definition duration_ms :: "nat \<Rightarrow> nat" where
  "duration_ms d = max (d div 1000000) 1"

definition instance_id :: "instance_row \<Rightarrow> string" where
  "instance_id x = rg_instance_id (in_registration x)"

definition owns_live_lease :: "db_time \<Rightarrow> (string \<times> string) list \<Rightarrow> string \<Rightarrow> coord_db \<Rightarrow> bool" where
  "owns_live_lease now keys i db = list_ex (\<lambda>k. case cd_leases db k of None \<Rightarrow> False
     | Some l \<Rightarrow> rl_owner l = i \<and> now < rl_expires l) keys"

text \<open>The keys of the lease table are a parameter, since it is a map here.  A retention that
  leaves the range of times deletes nothing.\<close>

definition prune_stale_instances :: "bool \<Rightarrow> db_time \<Rightarrow> (string \<times> string) list \<Rightarrow> nat \<Rightarrow> coord_db \<Rightarrow> (coord_error + nat) \<times> coord_db" where
  "prune_stale_instances fail now keys retention db =
     (if retention = 0 then (Inl (CoConfig ''stale instance retention must be greater than zero''), db)
      else if fail then (Inl CoDatabase, db)
      else let stale = (\<lambda>x. (case shift_time now (- int (duration_ms retention)) of None \<Rightarrow> False | Some t \<Rightarrow> in_heartbeat_at x \<le> t)
                 \<and> \<not> owns_live_lease now keys (instance_id x) db)
        in (Inr (length (filter stale (cd_instances db))), db\<lparr>cd_instances := filter (\<lambda>x. \<not> stale x) (cd_instances db)\<rparr>))"

definition default_retention :: nat where
  "default_retention = 7 * 24 * 60 * 60 * 10 ^ 9"

definition insert_instance :: "db_time \<Rightarrow> registration \<Rightarrow> instance_row list \<Rightarrow> instance_row list" where
  "insert_instance now rg rows =
     (if rg_instance_id rg \<in> instance_id ` set rows
      then map (\<lambda>x. if instance_id x = rg_instance_id rg then x\<lparr>in_registration := rg, in_heartbeat_at := now\<rparr> else x) rows
      else rows @ [\<lparr>in_registration = rg, in_started_at = now, in_heartbeat_at = now\<rparr>])"

definition register_instance :: "bool \<Rightarrow> bool \<Rightarrow> db_time \<Rightarrow> (string \<times> string) list \<Rightarrow> registration \<Rightarrow> coord_db \<Rightarrow> (coord_error + unit) \<times> coord_db" where
  "register_instance fail1 fail2 now keys rg db =
     (case validate_identifier ''instance_id'' (rg_instance_id rg) of Inl e \<Rightarrow> (Inl e, db) | Inr _ \<Rightarrow>
     (case validate_identifier ''runtime_kind'' (rg_runtime_kind rg) of Inl e \<Rightarrow> (Inl e, db) | Inr _ \<Rightarrow>
       if fail1 then (Inl CoDatabase, db)
       else (case prune_stale_instances fail2 now keys default_retention
                (db\<lparr>cd_instances := insert_instance now rg (cd_instances db)\<rparr>) of
           (Inl e, db') \<Rightarrow> (Inl e, db') | (Inr _, db') \<Rightarrow> (Inr (), db'))))"

definition heartbeat_instance :: "bool \<Rightarrow> db_time \<Rightarrow> string \<Rightarrow> coord_db \<Rightarrow> (coord_error + bool) \<times> coord_db" where
  "heartbeat_instance fail now i db =
     (case validate_identifier ''instance_id'' i of Inl e \<Rightarrow> (Inl e, db) | Inr _ \<Rightarrow>
       if fail then (Inl CoDatabase, db)
       else (Inr (i \<in> instance_id ` set (cd_instances db)),
         db\<lparr>cd_instances := map (\<lambda>x. if instance_id x = i then x\<lparr>in_heartbeat_at := now\<rparr> else x) (cd_instances db)\<rparr>))"

definition put_lease :: "runtime_lease \<Rightarrow> coord_db \<Rightarrow> coord_db" where
  "put_lease l db = db\<lparr>cd_leases := (cd_leases db)((rl_kind l, rl_resource l) \<mapsto> l)\<rparr>"

definition try_acquire_lease :: "bool \<Rightarrow> db_time \<Rightarrow> string \<Rightarrow> string \<Rightarrow> string \<Rightarrow> nat \<Rightarrow> coord_db \<Rightarrow>
    (coord_error + runtime_lease option) \<times> coord_db" where
  "try_acquire_lease fail now k r owner ttl db = (case validate_lease_input k r owner ttl of
      Inl e \<Rightarrow> (Inl e, db)
    | Inr _ \<Rightarrow> (case (if fail then None else shift_time now (int (duration_ms ttl))) of
        None \<Rightarrow> (Inl CoDatabase, db)
      | Some ex \<Rightarrow> (case cd_leases db (k, r) of
          None \<Rightarrow> (let l = \<lparr>rl_kind = k, rl_resource = r, rl_owner = owner, rl_token = 1, rl_expires = ex\<rparr>
                   in (Inr (Some l), put_lease l db))
        | Some old \<Rightarrow>
            if rl_owner old = owner \<or> rl_expires old \<le> now then
              (let l = \<lparr>rl_kind = k, rl_resource = r, rl_owner = owner,
                 rl_token = (if rl_owner old = owner \<and> now < rl_expires old then rl_token old else rl_token old + 1),
                 rl_expires = ex\<rparr>
               in (Inr (Some l), put_lease l db))
            else (Inr None, db))))"

definition live_match :: "db_time \<Rightarrow> runtime_lease \<Rightarrow> coord_db \<Rightarrow> runtime_lease option" where
  "live_match now l db = (case cd_leases db (rl_kind l, rl_resource l) of
      None \<Rightarrow> None
    | Some row \<Rightarrow> if rl_owner row = rl_owner l \<and> rl_token row = rl_token l \<and> now < rl_expires row then Some row else None)"

definition renew_lease :: "bool \<Rightarrow> db_time \<Rightarrow> runtime_lease \<Rightarrow> nat \<Rightarrow> coord_db \<Rightarrow> (coord_error + runtime_lease option) \<times> coord_db" where
  "renew_lease fail now l ttl db = (case validate_lease_input (rl_kind l) (rl_resource l) (rl_owner l) ttl of
      Inl e \<Rightarrow> (Inl e, db)
    | Inr _ \<Rightarrow> if fail then (Inl CoDatabase, db)
      else (case live_match now l db of
          None \<Rightarrow> (Inr None, db)
        | Some row \<Rightarrow> (case shift_time now (int (duration_ms ttl)) of
            None \<Rightarrow> (Inl CoDatabase, db)
          | Some ex \<Rightarrow> (Inr (Some (row\<lparr>rl_expires := ex\<rparr>)), put_lease (row\<lparr>rl_expires := ex\<rparr>) db))))"

definition release_lease :: "bool \<Rightarrow> db_time \<Rightarrow> runtime_lease \<Rightarrow> coord_db \<Rightarrow> (coord_error + bool) \<times> coord_db" where
  "release_lease fail now l db =
     (if fail then (Inl CoDatabase, db)
      else (case live_match now l db of
          None \<Rightarrow> (Inr False, db)
        | Some row \<Rightarrow> (Inr True, put_lease (row\<lparr>rl_expires := now\<rparr>) db)))"

section \<open>Supervisors\<close>

record coordination_policy =
  cp_lease_ttl :: nat
  cp_renewal_interval :: nat

definition default_coordination :: coordination_policy where
  "default_coordination = \<lparr>cp_lease_ttl = 15 * 10 ^ 9, cp_renewal_interval = 5 * 10 ^ 9\<rparr>"

datatype coordination_error = CeStorage coord_error | CeInvalidPolicy string | CeSupervisorStopped

definition validate_policy :: "coordination_policy \<Rightarrow> coordination_error + coordination_policy" where
  "validate_policy p =
     (if cp_renewal_interval p = 0 then Inl (CeInvalidPolicy ''renewal interval must be greater than zero'')
      else if cp_lease_ttl p \<le> cp_renewal_interval p
        then Inl (CeInvalidPolicy ''lease ttl must be greater than the renewal interval'')
      else Inr p)"

text \<open>Where a supervisor is between two of its calls: before the first attempt, without a lease,
  about to start the service, running it, about to stop it because the lease is lost, about to
  stop it for a shutdown, about to release, and ended.\<close>

datatype phase =
  SpNew | SpIdle | SpStarting runtime_lease | SpOwning runtime_lease | SpStopping
| SpClosing runtime_lease | SpReleasing runtime_lease | SpEnded

definition singleton_kind :: string where
  "singleton_kind = ''singleton''"

text \<open>The statement a supervisor runs on the lease table: the attempts of
  \<open>supervise_singleton\<close> and \<open>supervise_tick\<close>, the renewal, and the release of the loop's end.\<close>

fun supervise_tick :: "coordination_policy \<Rightarrow> string \<Rightarrow> string \<Rightarrow> bool \<Rightarrow> db_time \<Rightarrow> phase \<times> coord_db \<Rightarrow> phase \<times> coord_db" where
  "supervise_tick pol i r fail now (SpNew, db) = (case try_acquire_lease fail now singleton_kind r i (cp_lease_ttl pol) db of
      (Inl e, db') \<Rightarrow> (SpEnded, db') | (Inr (Some l), db') \<Rightarrow> (SpStarting l, db') | (Inr None, db') \<Rightarrow> (SpIdle, db'))"
| "supervise_tick pol i r fail now (SpIdle, db) = (case try_acquire_lease fail now singleton_kind r i (cp_lease_ttl pol) db of
      (Inl e, db') \<Rightarrow> (SpIdle, db') | (Inr (Some l), db') \<Rightarrow> (SpStarting l, db') | (Inr None, db') \<Rightarrow> (SpIdle, db'))"
| "supervise_tick pol i r fail now (SpOwning l, db) = (case renew_lease fail now l (cp_lease_ttl pol) db of
      (Inr (Some l'), db') \<Rightarrow> (SpOwning l', db') | (_, db') \<Rightarrow> (SpStopping, db'))"
| "supervise_tick pol i r fail now (SpReleasing l, db) = (SpEnded, snd (release_lease fail now l db))"
| "supervise_tick pol i r fail now (ph, db) = (ph, db)"

text \<open>The calls of the service, the request to shut down, and the end of the process.\<close>

fun service_call :: "phase \<Rightarrow> phase" where
  "service_call (SpStarting l) = SpOwning l"
| "service_call SpStopping = SpIdle"
| "service_call (SpClosing l) = SpReleasing l"
| "service_call ph = ph"

fun shutdown_request :: "phase \<Rightarrow> phase" where
  "shutdown_request (SpOwning l) = SpClosing l"
| "shutdown_request SpIdle = SpEnded"
| "shutdown_request ph = ph"

text \<open>The lease a supervisor works under, from the attempt that granted it to the release.\<close>

fun held_lease :: "phase \<Rightarrow> runtime_lease option" where
  "held_lease (SpStarting l) = Some l"
| "held_lease (SpOwning l) = Some l"
| "held_lease (SpClosing l) = Some l"
| "held_lease (SpReleasing l) = Some l"
| "held_lease _ = None"

text \<open>The supervisors of all processes, one for each process and resource.\<close>

record coord_world =
  cw_clock :: db_time
  cw_db :: coord_db
  cw_phases :: "string \<times> string \<Rightarrow> phase"

definition coord_start :: "db_time \<Rightarrow> coord_world" where
  "coord_start t = \<lparr>cw_clock = t, cw_db = \<lparr>cd_instances = [], cd_leases = Map.empty\<rparr>, cw_phases = (\<lambda>_. SpNew)\<rparr>"

inductive coord_step :: "coordination_policy \<Rightarrow> coord_world \<Rightarrow> coord_world \<Rightarrow> bool" for pol where
  Clock: "cw_clock w \<le> t \<Longrightarrow> coord_step pol w (w\<lparr>cw_clock := t\<rparr>)"
| Statement: "supervise_tick pol i r fail (cw_clock w) (cw_phases w (i, r), cw_db w) = (ph, db) \<Longrightarrow>
    coord_step pol w (w\<lparr>cw_db := db, cw_phases := (cw_phases w)((i, r) := ph)\<rparr>)"
| Call: "coord_step pol w (w\<lparr>cw_phases := (cw_phases w)((i, r) := service_call (cw_phases w (i, r)))\<rparr>)"
| Shutdown: "coord_step pol w (w\<lparr>cw_phases := (cw_phases w)((i, r) := shutdown_request (cw_phases w (i, r)))\<rparr>)"
| Crash: "coord_step pol w (w\<lparr>cw_phases := (\<lambda>(j, r). if i = j then SpEnded else cw_phases w (j, r))\<rparr>)"
| Register: "coord_step pol w (w\<lparr>cw_db := snd (register_instance f1 f2 (cw_clock w) keys rg (cw_db w))\<rparr>)"
| Heartbeat: "coord_step pol w (w\<lparr>cw_db := snd (heartbeat_instance fail (cw_clock w) i (cw_db w))\<rparr>)"

section \<open>Statements and rows\<close>

lemma instances_keep_leases [simp]:
  "cd_leases (snd (register_instance f1 f2 now keys rg db)) = cd_leases db"
  "cd_leases (snd (heartbeat_instance fail now i db)) = cd_leases db"
  by (auto simp: register_instance_def prune_stale_instances_def heartbeat_instance_def Let_def split: sum.splits prod.splits)

text \<open>What a statement on the row of one resource may do.\<close>

lemma acquired:
  assumes "try_acquire_lease fail now k r i ttl db = (res, db')"
  shows "(cd_leases db' = cd_leases db \<and> (\<forall>l. res \<noteq> Inr (Some l)))
    \<or> (\<exists>l. res = Inr (Some l) \<and> rl_kind l = k \<and> rl_resource l = r \<and> rl_owner l = i \<and> cd_leases db' = (cd_leases db)((k, r) \<mapsto> l)
        \<and> (\<forall>old. cd_leases db (k, r) = Some old \<longrightarrow> rl_token l = rl_token old \<and> rl_owner old = i
             \<or> rl_token old < rl_token l \<and> rl_expires old \<le> now))"
proof -
  consider "cd_leases db' = cd_leases db" "\<forall>l. res \<noteq> Inr (Some l)"
    | l where "res = Inr (Some l)" "db' = put_lease l db" "rl_kind l = k" "rl_resource l = r" "rl_owner l = i"
        "\<forall>old. cd_leases db (k, r) = Some old \<longrightarrow> rl_token l = rl_token old \<and> rl_owner old = i
             \<or> rl_token old < rl_token l \<and> rl_expires old \<le> now"
    using assms by (auto simp: try_acquire_lease_def Let_def split: sum.splits option.splits if_splits)
  then show ?thesis by cases (auto simp: put_lease_def)
qed

lemma matched:
  assumes "live_match now l db = Some row"
  shows "cd_leases db (rl_kind l, rl_resource l) = Some row" "rl_owner row = rl_owner l" "rl_token row = rl_token l" "now < rl_expires row"
  using assms by (auto simp: live_match_def split: option.splits if_splits)

lemma renewed:
  assumes "renew_lease fail now l ttl db = (res, db')"
  shows "(cd_leases db' = cd_leases db \<and> (\<forall>l'. res \<noteq> Inr (Some l')))
    \<or> (\<exists>row ex. res = Inr (Some (row\<lparr>rl_expires := ex\<rparr>)) \<and> live_match now l db = Some row \<and> db' = put_lease (row\<lparr>rl_expires := ex\<rparr>) db)"
  using assms by (auto simp: renew_lease_def split: sum.splits option.splits if_splits)

lemma released:
  "cd_leases (snd (release_lease fail now l db)) = cd_leases db
    \<or> (\<exists>row. live_match now l db = Some row \<and> snd (release_lease fail now l db) = put_lease (row\<lparr>rl_expires := now\<rparr>) db)"
  by (auto simp: release_lease_def split: option.splits)

section \<open>One owner\<close>

text \<open>The lease of a supervisor is the row of its resource, or the row has a larger token and the
  lease has expired.  The rows are kept under their keys.\<close>

definition backed :: "db_time \<Rightarrow> coord_db \<Rightarrow> runtime_lease \<Rightarrow> bool" where
  "backed t db l = (case cd_leases db (singleton_kind, rl_resource l) of None \<Rightarrow> False
     | Some row \<Rightarrow> row = l \<or> (rl_token l < rl_token row \<and> rl_expires l \<le> t))"

definition keyed :: "coord_db \<Rightarrow> bool" where
  "keyed db = (\<forall>k r l. cd_leases db (k, r) = Some l \<longrightarrow> rl_kind l = k \<and> rl_resource l = r)"

definition coordinated :: "coord_world \<Rightarrow> bool" where
  "coordinated w = (keyed (cw_db w) \<and> (\<forall>i r l. held_lease (cw_phases w (i, r)) = Some l \<longrightarrow>
     rl_kind l = singleton_kind \<and> rl_resource l = r \<and> rl_owner l = i \<and> backed (cw_clock w) (cw_db w) l))"

lemma keyed_put: "keyed db \<Longrightarrow> keyed (put_lease l db)"
  by (auto simp: keyed_def put_lease_def)

lemma keyed_row: "keyed db \<Longrightarrow> cd_leases db (k, r) = Some l \<Longrightarrow> rl_kind l = k \<and> rl_resource l = r"
  by (simp add: keyed_def)

lemma coordinatedI:
  assumes "keyed (cw_db w)"
    and "\<And>i r l. held_lease (cw_phases w (i, r)) = Some l \<Longrightarrow>
     rl_kind l = singleton_kind \<and> rl_resource l = r \<and> rl_owner l = i \<and> backed (cw_clock w) (cw_db w) l"
  shows "coordinated w"
  using assms unfolding coordinated_def by blast

lemma coordinatedD:
  assumes "coordinated w"
  shows "keyed (cw_db w)"
    and "held_lease (cw_phases w (i, r)) = Some l \<Longrightarrow>
      rl_kind l = singleton_kind \<and> rl_resource l = r \<and> rl_owner l = i \<and> backed (cw_clock w) (cw_db w) l"
  using assms unfolding coordinated_def by blast+

text \<open>A new row of a resource backs the lease of another process, if that lease had expired or
  the token and the owner of the row are not its own.\<close>

lemma backed_put:
  assumes "backed t db l" "rl_kind new = singleton_kind"
    and "\<And>old. rl_resource new = rl_resource l \<Longrightarrow> cd_leases db (singleton_kind, rl_resource l) = Some old \<Longrightarrow>
      (old = l \<longrightarrow> rl_token old < rl_token new \<and> rl_expires old \<le> t) \<and> rl_token old \<le> rl_token new"
  shows "backed t (put_lease new db) l"
proof (cases "rl_resource new = rl_resource l")
  case True
  obtain old where "cd_leases db (singleton_kind, rl_resource l) = Some old"
    "old = l \<or> rl_token l < rl_token old \<and> rl_expires l \<le> t"
    using assms(1) by (auto simp: backed_def split: option.splits)
  then show ?thesis using assms(2,3) True by (auto simp: backed_def put_lease_def)
next
  case False
  then show ?thesis using assms(1) by (auto simp: backed_def put_lease_def split: option.splits)
qed

lemma backed_self: "rl_kind l = singleton_kind \<Longrightarrow> backed t (put_lease l db) l"
  by (simp add: backed_def put_lease_def)

lemma backed_same: "cd_leases db' = cd_leases db \<Longrightarrow> backed t db' l = backed t db l"
  by (simp add: backed_def)

lemma keyed_same: "cd_leases db' = cd_leases db \<Longrightarrow> keyed db' = keyed db"
  by (simp add: keyed_def)

text \<open>A statement of one supervisor: what it holds afterwards is backed, and what others hold
  stays backed.\<close>

lemma statement_effect:
  assumes "supervise_tick pol i r fail t (ph, db) = (ph', db')" "keyed db"
    and "\<And>l. held_lease ph = Some l \<Longrightarrow> rl_kind l = singleton_kind \<and> rl_resource l = r \<and> rl_owner l = i \<and> backed t db l"
  shows "keyed db'"
    and "\<And>l. held_lease ph' = Some l \<Longrightarrow> rl_kind l = singleton_kind \<and> rl_resource l = r \<and> rl_owner l = i \<and> backed t db' l"
    and "\<And>l. rl_resource l = r \<longrightarrow> rl_owner l \<noteq> i \<Longrightarrow> backed t db l \<Longrightarrow> backed t db' l"
proof -
  have acquire: "keyed db1
      \<and> (\<forall>l. res = Inr (Some l) \<longrightarrow> rl_kind l = singleton_kind \<and> rl_resource l = r \<and> rl_owner l = i \<and> backed t db1 l)
      \<and> (\<forall>l. (rl_resource l = r \<longrightarrow> rl_owner l \<noteq> i) \<longrightarrow> backed t db l \<longrightarrow> backed t db1 l)"
    if "try_acquire_lease fail t singleton_kind r i ttl db = (res, db1)" for res db1 ttl
    using acquired [OF that]
  proof (elim disjE exE conjE)
    fix n assume n: "res = Inr (Some n)" "rl_kind n = singleton_kind" "rl_resource n = r" "rl_owner n = i"
      "cd_leases db1 = (cd_leases db)((singleton_kind, r) \<mapsto> n)"
      "\<forall>old. cd_leases db (singleton_kind, r) = Some old \<longrightarrow> rl_token n = rl_token old \<and> rl_owner old = i
             \<or> rl_token old < rl_token n \<and> rl_expires old \<le> t"
    have put: "cd_leases db1 = cd_leases (put_lease n db)" using n by (simp add: put_lease_def)
    have "keyed db1" using keyed_put [OF assms(2), of n] put by (simp add: keyed_def)
    moreover have "backed t (put_lease n db) l" if "rl_resource l = r \<longrightarrow> rl_owner l \<noteq> i" "backed t db l" for l
      using that n by (intro backed_put) auto
    ultimately show ?thesis using n backed_self [of n t db] backed_same [OF put] by auto
  next
    assume same: "cd_leases db1 = cd_leases db" and none: "\<forall>l. res \<noteq> Inr (Some l)"
    show ?thesis using keyed_same [OF same] backed_same [OF same] assms(2) none by simp
  qed
  have row: "keyed (put_lease (row\<lparr>rl_expires := ex\<rparr>) db)"
      "rl_kind row = singleton_kind \<and> rl_resource row = r \<and> rl_owner row = i"
      "backed t db l' \<Longrightarrow> rl_resource l' = r \<longrightarrow> rl_owner l' \<noteq> i \<Longrightarrow> backed t (put_lease (row\<lparr>rl_expires := ex\<rparr>) db) l'"
    if "live_match t l db = Some row" "held_lease ph = Some l" for l row ex l'
  proof -
    have l: "rl_kind l = singleton_kind \<and> rl_resource l = r \<and> rl_owner l = i" using assms(3) that(2) by blast
    then have r: "cd_leases db (singleton_kind, r) = Some row" using matched(1) [OF that(1)] by simp
    show own: "rl_kind row = singleton_kind \<and> rl_resource row = r \<and> rl_owner row = i"
      using keyed_row [OF assms(2) r] matched(2) [OF that(1)] l by simp
    show "keyed (put_lease (row\<lparr>rl_expires := ex\<rparr>) db)" by (rule keyed_put [OF assms(2)])
    assume "backed t db l'" "rl_resource l' = r \<longrightarrow> rl_owner l' \<noteq> i"
    then show "backed t (put_lease (row\<lparr>rl_expires := ex\<rparr>) db) l'"
      using own r by (intro backed_put) auto
  qed
  have all: "keyed db' \<and> (\<forall>l. held_lease ph' = Some l \<longrightarrow> rl_kind l = singleton_kind \<and> rl_resource l = r \<and> rl_owner l = i \<and> backed t db' l)
    \<and> (\<forall>l. (rl_resource l = r \<longrightarrow> rl_owner l \<noteq> i) \<longrightarrow> backed t db l \<longrightarrow> backed t db' l)"
  proof (cases ph)
    case SpNew
    then show ?thesis using assms(1) acquire by (auto split: prod.splits sum.splits option.splits)
  next
    case SpIdle
    then show ?thesis using assms(1) acquire by (auto split: prod.splits sum.splits option.splits)
  next
    case (SpOwning l)
    obtain res db1 where renew: "renew_lease fail t l (cp_lease_ttl pol) db = (res, db1)" by fastforce
    from renewed [OF renew] show ?thesis
    proof (elim disjE exE conjE)
      assume same: "cd_leases db1 = cd_leases db" and none: "\<forall>l'. res \<noteq> Inr (Some l')"
      have "ph' = SpStopping \<and> db' = db1" using assms(1) SpOwning renew none by (auto split: sum.splits option.splits)
      then show ?thesis using keyed_same [OF same] backed_same [OF same] assms(2) by simp
    next
      fix row ex assume res: "res = Inr (Some (row\<lparr>rl_expires := ex\<rparr>))" and match: "live_match t l db = Some row"
        and db1: "db1 = put_lease (row\<lparr>rl_expires := ex\<rparr>) db"
      have "ph' = SpOwning (row\<lparr>rl_expires := ex\<rparr>) \<and> db' = db1" using assms(1) SpOwning renew res by simp
      then show ?thesis using row [OF match] SpOwning backed_self [of "row\<lparr>rl_expires := ex\<rparr>" t db] db1 by simp
    qed
  next
    case (SpReleasing l)
    have res: "ph' = SpEnded \<and> db' = snd (release_lease fail t l db)" using assms(1) SpReleasing by auto
    from released [of fail t l db] show ?thesis
    proof (elim disjE exE conjE)
      assume same: "cd_leases (snd (release_lease fail t l db)) = cd_leases db"
      show ?thesis using res keyed_same [OF same] backed_same [OF same] assms(2) by simp
    next
      fix x assume match: "live_match t l db = Some x" and put: "snd (release_lease fail t l db) = put_lease (x\<lparr>rl_expires := t\<rparr>) db"
      show ?thesis using res row [OF match] SpReleasing put by simp
    qed
  qed (use assms in auto)
  then show "keyed db'" by blast
  show "\<And>l. held_lease ph' = Some l \<Longrightarrow> rl_kind l = singleton_kind \<and> rl_resource l = r \<and> rl_owner l = i \<and> backed t db' l"
    using all by blast
  show "\<And>l. rl_resource l = r \<longrightarrow> rl_owner l \<noteq> i \<Longrightarrow> backed t db l \<Longrightarrow> backed t db' l" using all by blast
qed

lemma held_call: "held_lease (service_call ph) = Some l \<Longrightarrow> held_lease ph = Some l"
  by (cases ph) auto

lemma held_shutdown: "held_lease (shutdown_request ph) = Some l \<Longrightarrow> held_lease ph = Some l"
  by (cases ph) auto

lemma backed_later: "backed t db l \<Longrightarrow> t \<le> t' \<Longrightarrow> backed t' db l"
  by (auto simp: backed_def split: option.splits)

lemma coordinated_phases:
  assumes "coordinated w" "\<And>i r l. held_lease (f (i, r)) = Some l \<Longrightarrow> held_lease (cw_phases w (i, r)) = Some l"
  shows "coordinated (w\<lparr>cw_phases := f\<rparr>)"
proof (rule coordinatedI)
  show "keyed (cw_db (w\<lparr>cw_phases := f\<rparr>))" using coordinatedD(1) [OF assms(1)] by simp
  fix i r l assume "held_lease (cw_phases (w\<lparr>cw_phases := f\<rparr>) (i, r)) = Some l"
  then have "held_lease (cw_phases w (i, r)) = Some l" using assms(2) by simp
  from coordinatedD(2) [OF assms(1) this] show "rl_kind l = singleton_kind \<and> rl_resource l = r \<and> rl_owner l = i
      \<and> backed (cw_clock (w\<lparr>cw_phases := f\<rparr>)) (cw_db (w\<lparr>cw_phases := f\<rparr>)) l" by simp
qed

lemma coordinated_instances:
  assumes "coordinated w" "cd_leases db = cd_leases (cw_db w)"
  shows "coordinated (w\<lparr>cw_db := db\<rparr>)"
  using assms(1) keyed_same [OF assms(2)] backed_same [OF assms(2)] by (simp add: coordinated_def)

lemma coordinated_step: "coord_step pol w w' \<Longrightarrow> coordinated w \<Longrightarrow> coordinated w'"
proof (induction rule: coord_step.induct)
  case (Clock w t)
  then show ?case unfolding coordinated_def by simp (blast intro: backed_later)
next
  case (Statement i r fail w ph db)
  note inv = coordinatedD [OF Statement.prems]
  note eff = statement_effect [OF Statement.hyps inv(1) inv(2)]
  show ?case
  proof (rule coordinatedI)
    show "keyed (cw_db (w\<lparr>cw_db := db, cw_phases := (cw_phases w)((i, r) := ph)\<rparr>))" using eff(1) by simp
    fix j r' l assume held: "held_lease (cw_phases (w\<lparr>cw_db := db, cw_phases := (cw_phases w)((i, r) := ph)\<rparr>) (j, r')) = Some l"
    show "rl_kind l = singleton_kind \<and> rl_resource l = r' \<and> rl_owner l = j
      \<and> backed (cw_clock (w\<lparr>cw_db := db, cw_phases := (cw_phases w)((i, r) := ph)\<rparr>))
           (cw_db (w\<lparr>cw_db := db, cw_phases := (cw_phases w)((i, r) := ph)\<rparr>)) l"
    proof (cases "(j, r') = (i, r)")
      case True
      then show ?thesis using held eff(2) by simp
    next
      case False
      then have old: "held_lease (cw_phases w (j, r')) = Some l" using held by (auto split: if_splits)
      then have "rl_resource l = r \<longrightarrow> rl_owner l \<noteq> i" using inv(2) [OF old] False by auto
      then show ?thesis using eff(3) inv(2) [OF old] by simp
    qed
  qed
next
  case (Call w i r)
  then show ?case by (intro coordinated_phases) (auto dest: held_call split: if_splits)
next
  case (Shutdown w i r)
  then show ?case by (intro coordinated_phases) (auto dest: held_shutdown split: if_splits)
next
  case (Crash w i)
  then show ?case by (intro coordinated_phases) (auto split: if_splits)
next
  case (Register w f1 f2 keys rg)
  then show ?case by (intro coordinated_instances) simp_all
next
  case (Heartbeat w fail i)
  then show ?case by (intro coordinated_instances) simp_all
qed

lemma coordinated_reach: "(coord_step pol)\<^sup>*\<^sup>* (coord_start t) w \<Longrightarrow> coordinated w"
proof (induction rule: rtranclp_induct)
  case base
  then show ?case by (simp add: coordinated_def coord_start_def keyed_def)
qed (rule coordinated_step)

text \<open>C27: In every interleaving of the supervisors of all processes, with failing statements,
  shutdowns and crashes, of two processes that work under a lease of the same resource at most
  one has a lease that has not expired, and that one has the larger token, which is the one of
  the row.\<close>

theorem one_owner_at_a_time:
  assumes "(coord_step pol)\<^sup>*\<^sup>* (coord_start t) w" "i \<noteq> j"
    and "held_lease (cw_phases w (i, r)) = Some l" "held_lease (cw_phases w (j, r)) = Some l'"
    and "cw_clock w < rl_expires l"
  shows "rl_expires l' \<le> cw_clock w \<and> rl_token l' < rl_token l \<and> cd_leases (cw_db w) (singleton_kind, r) = Some l"
proof -
  note inv = coordinatedD(2) [OF coordinated_reach [OF assms(1)]]
  have l: "rl_resource l = r" "rl_owner l = i" "backed (cw_clock w) (cw_db w) l" using inv [OF assms(3)] by auto
  then have row: "cd_leases (cw_db w) (singleton_kind, r) = Some l" using assms(5)
    by (auto simp: backed_def split: option.splits)
  have l': "rl_resource l' = r" "rl_owner l' = j" "backed (cw_clock w) (cw_db w) l'" using inv [OF assms(4)] by auto
  then have "l = l' \<or> rl_token l' < rl_token l \<and> rl_expires l' \<le> cw_clock w" using row by (simp add: backed_def)
  then show ?thesis using row l(2) l'(2) assms(2) by auto
qed

section \<open>Succession\<close>


section \<open>Examples\<close>

definition lease_1 :: runtime_lease where
  "lease_1 = \<lparr>rl_kind = ''singleton'', rl_resource = ''s'', rl_owner = ''a'', rl_token = 1, rl_expires = 15000\<rparr>"

definition lease_2 :: runtime_lease where
  "lease_2 = \<lparr>rl_kind = ''singleton'', rl_resource = ''s'', rl_owner = ''b'', rl_token = 2, rl_expires = 35000\<rparr>"

text \<open>Process a stops answering, and b takes over at 20 seconds, while a still runs its service.\<close>

definition taken_over :: coord_world where
  "taken_over = \<lparr>cw_clock = 20000, cw_db = \<lparr>cd_instances = [], cd_leases = [(''singleton'', ''s'') \<mapsto> lease_2]\<rparr>,
     cw_phases = (\<lambda>_. SpNew)((''a'', ''s'') := SpOwning lease_1, (''b'', ''s'') := SpOwning lease_2)\<rparr>"

lemma trim_letters [simp]: "str_trim ''s'' = ''s''" "str_trim ''a'' = ''a''" "str_trim ''b'' = ''b''" "str_trim ''singleton'' = ''singleton''"
  by code_simp+

lemma first_grant: "supervise_tick default_coordination ''a'' ''s'' False 0 (SpNew, \<lparr>cd_instances = [], cd_leases = Map.empty\<rparr>) =
    (SpStarting lease_1, \<lparr>cd_instances = [], cd_leases = [(''singleton'', ''s'') \<mapsto> lease_1]\<rparr>)"
  by (simp add: try_acquire_lease_def validate_lease_input_def validate_identifier_def singleton_kind_def
    default_coordination_def shift_time_def duration_ms_def db_time_min_def db_time_max_def put_lease_def Let_def lease_1_def)

lemma second_grant: "supervise_tick default_coordination ''b'' ''s'' False 20000
      (SpNew, \<lparr>cd_instances = [], cd_leases = [(''singleton'', ''s'') \<mapsto> lease_1]\<rparr>) =
    (SpStarting lease_2, \<lparr>cd_instances = [], cd_leases = [(''singleton'', ''s'') \<mapsto> lease_2]\<rparr>)"
  by (simp add: try_acquire_lease_def validate_lease_input_def validate_identifier_def singleton_kind_def
    default_coordination_def shift_time_def duration_ms_def db_time_min_def db_time_max_def put_lease_def Let_def lease_1_def lease_2_def
    numeral_2_eq_2 [symmetric])

lemma taken_over_reach: "(coord_step default_coordination)\<^sup>*\<^sup>* (coord_start 0) taken_over"
proof -
  let ?db = "\<lambda>l. \<lparr>cd_instances = [], cd_leases = [(''singleton'', ''s'') \<mapsto> l]\<rparr>"
  let ?w = "\<lambda>t l f. \<lparr>cw_clock = t, cw_db = ?db l, cw_phases = f\<rparr>"
  let ?a = "\<lambda>ph. (\<lambda>_. SpNew)((''a'', ''s'') := ph)"
  have "coord_step default_coordination (coord_start 0) (?w 0 lease_1 (?a (SpStarting lease_1)))"
    using coord_step.Statement [of default_coordination "''a''" "''s''" False "coord_start 0"] first_grant by (simp add: coord_start_def)
  moreover have "coord_step default_coordination (?w 0 lease_1 (?a (SpStarting lease_1))) (?w 0 lease_1 (?a (SpOwning lease_1)))"
    using coord_step.Call [of default_coordination "?w 0 lease_1 (?a (SpStarting lease_1))" "''a''" "''s''"] by simp
  moreover have "coord_step default_coordination (?w 0 lease_1 (?a (SpOwning lease_1))) (?w 20000 lease_1 (?a (SpOwning lease_1)))"
    using coord_step.Clock [of "?w 0 lease_1 (?a (SpOwning lease_1))" 20000] by simp
  moreover have "coord_step default_coordination (?w 20000 lease_1 (?a (SpOwning lease_1)))
      (?w 20000 lease_2 ((?a (SpOwning lease_1))((''b'', ''s'') := SpStarting lease_2)))"
    using coord_step.Statement [of default_coordination "''b''" "''s''" False "?w 20000 lease_1 (?a (SpOwning lease_1))"] second_grant by simp
  moreover have "coord_step default_coordination (?w 20000 lease_2 ((?a (SpOwning lease_1))((''b'', ''s'') := SpStarting lease_2))) taken_over"
    using coord_step.Call [of default_coordination "?w 20000 lease_2 ((?a (SpOwning lease_1))((''b'', ''s'') := SpStarting lease_2))" "''b''" "''s''"]
    by (simp add: taken_over_def)
  ultimately show ?thesis by (meson rtranclp.rtrancl_into_rtrancl rtranclp.rtrancl_refl)
qed

theorem one_owner_at_a_time_witness:
  "cw_clock taken_over < rl_expires lease_2 \<and> rl_expires lease_1 \<le> cw_clock taken_over \<and> rl_token lease_1 < rl_token lease_2
     \<and> held_lease (cw_phases taken_over (''a'', ''s'')) = Some lease_1 \<and> held_lease (cw_phases taken_over (''b'', ''s'')) = Some lease_2"
proof -
  have held: "held_lease (cw_phases taken_over (''a'', ''s'')) = Some lease_1" "held_lease (cw_phases taken_over (''b'', ''s'')) = Some lease_2"
    and live: "cw_clock taken_over < rl_expires lease_2"
    by (simp_all add: taken_over_def lease_2_def)
  show ?thesis using one_owner_at_a_time [OF taken_over_reach, of "''b''" "''a''" "''s''" lease_2 lease_1] held live by simp
qed

definition waiting :: coord_world where
  "waiting = \<lparr>cw_clock = 1000, cw_db = \<lparr>cd_instances = [], cd_leases = [(''singleton'', ''s'') \<mapsto> lease_1]\<rparr>,
     cw_phases = (\<lambda>_. SpEnded)((''b'', ''s'') := SpIdle)\<rparr>"


end
