(* ===== verification/DurableLog.thy ===== *)
theory DurableLog
  imports Prelude "HOL-Library.Countable"
begin

text \<open>
  Append-only logs of snapshots, one line of JSON each, as the stores of dynamic agents and of
  their proposals keep them (\<open>y-agent/src/agent/persistent_dynamic_store.rs\<close>,
  \<open>persistent_dynamic_proposal_store.rs\<close>), and keyed collections.

  The file is its content.  An append is written and synchronised, or fails after any number of
  its bytes.  The JSON of a record is a parameter.
\<close>

section \<open>Lines\<close>

abbreviation newline :: char where "newline \<equiv> CHR 0x0A"

abbreviation carriage :: char where "carriage \<equiv> CHR 0x0D"

text \<open>\<open>split_inclusive\<close> up to the first part without its newline, which is the torn tail.\<close>

definition log_lines :: "string \<Rightarrow> string list" where
  "log_lines f = butlast (split_on newline f)"

definition log_tail :: "string \<Rightarrow> string" where
  "log_tail f = last (split_on newline f)"

definition strip_carriage :: "string \<Rightarrow> string" where
  "strip_carriage s = (case strip_suffix s [carriage] of Some t \<Rightarrow> t | None \<Rightarrow> s)"

definition log_records :: "string \<Rightarrow> string list" where
  "log_records f = filter (\<lambda>l. l \<noteq> []) (map strip_carriage (log_lines f))"

datatype append_outcome = AoWritten | AoFailed nat

definition append_record :: "append_outcome \<Rightarrow> string \<Rightarrow> string \<Rightarrow> bool \<times> string" where
  "append_record ao enc f = (case ao of
      AoWritten \<Rightarrow> (True, f @ enc @ [newline])
    | AoFailed n \<Rightarrow> (False, f @ take n (enc @ [newline])))"

record 'a log_codec =
  lc_encode :: "'a \<Rightarrow> string"
  lc_decode :: "string \<Rightarrow> 'a option"

text \<open>What JSON texts promise: they are read back, and are one line.\<close>

definition codec_ok :: "'a log_codec \<Rightarrow> bool" where
  "codec_ok cd = (\<forall>x. lc_decode cd (lc_encode cd x) = Some x \<and> newline \<notin> set (lc_encode cd x)
     \<and> carriage \<notin> set (lc_encode cd x) \<and> lc_encode cd x \<noteq> [])"

lemma split_on_ne [simp]: "split_on c s \<noteq> []"
  by (induction s) (auto split: list.split)

lemma split_on_clean: "c \<notin> set s \<Longrightarrow> split_on c s = [s]"
  by (induction s) auto

lemma split_on_cut: "split_on c (a @ c # b) = split_on c a @ split_on c b"
proof (induction a)
  case (Cons x a)
  then show ?case by (cases "split_on c a") auto
qed simp

lemma split_on_append: "c \<notin> set b \<Longrightarrow> split_on c (a @ b) = butlast (split_on c a) @ [last (split_on c a) @ b]"
proof (induction a)
  case Nil
  then show ?case by (simp add: split_on_clean)
next
  case (Cons x a)
  show ?case
  proof (cases "split_on c a")
    case (Cons y ys)
    then show ?thesis using Cons.IH Cons.prems by (cases ys) auto
  qed simp
qed

lemma log_empty [simp]: "log_lines [] = []" "log_tail [] = []" "log_records [] = []"
  by (simp_all add: log_lines_def log_tail_def log_records_def)

lemma log_written:
  assumes "newline \<notin> set enc"
  shows "log_lines (f @ enc @ [newline]) = log_lines f @ [log_tail f @ enc]" "log_tail (f @ enc @ [newline]) = []"
proof -
  have "split_on newline (f @ enc @ [newline]) = butlast (split_on newline f) @ [last (split_on newline f) @ enc, []]"
    using split_on_cut [of newline "f @ enc" "[]"] split_on_append [OF assms, of f] by simp
  then show "log_lines (f @ enc @ [newline]) = log_lines f @ [log_tail f @ enc]" "log_tail (f @ enc @ [newline]) = []"
    by (simp_all add: log_lines_def log_tail_def butlast_append)
qed

lemma log_torn: "newline \<notin> set p \<Longrightarrow> log_lines (f @ p) = log_lines f" "newline \<notin> set p \<Longrightarrow> log_tail (f @ p) = log_tail f @ p"
  using split_on_append [of newline p f] by (simp_all add: log_lines_def log_tail_def)

lemma strip_clean: "carriage \<notin> set s \<Longrightarrow> strip_carriage s = s"
  by (auto simp: strip_carriage_def strip_suffix_Some split: option.split)

text \<open>A record that was written after a clean line is read back.\<close>

lemma records_written:
  assumes "codec_ok cd" "log_tail f = []"
  shows "log_records (f @ lc_encode cd x @ [newline]) = log_records f @ [lc_encode cd x]"
    and "log_tail (f @ lc_encode cd x @ [newline]) = []"
  using assms log_written [of "lc_encode cd x" f] by (simp_all add: log_records_def codec_ok_def strip_clean)

section \<open>Reading back\<close>

fun decode_all :: "'a log_codec \<Rightarrow> string list \<Rightarrow> 'a list option" where
  "decode_all cd [] = Some []"
| "decode_all cd (l # ls) = (case lc_decode cd l of None \<Rightarrow> None
     | Some x \<Rightarrow> (case decode_all cd ls of None \<Rightarrow> None | Some xs \<Rightarrow> Some (x # xs)))"

lemma decode_all_append: "decode_all cd (xs @ ys) = (case decode_all cd xs of None \<Rightarrow> None
    | Some us \<Rightarrow> (case decode_all cd ys of None \<Rightarrow> None | Some vs \<Rightarrow> Some (us @ vs)))"
  by (induction xs) (auto split: option.splits)

lemma decode_written:
  assumes "codec_ok cd" "log_tail f = []" "decode_all cd (log_records f) = Some xs"
  shows "decode_all cd (log_records (f @ lc_encode cd x @ [newline])) = Some (xs @ [x])"
  using assms by (simp add: records_written(1) decode_all_append codec_ok_def)

section \<open>Keyed collections\<close>

text \<open>A hash map from keys inside the values, in the order in which it is iterated.\<close>

definition keyed_get :: "('a \<Rightarrow> string) \<Rightarrow> string \<Rightarrow> 'a list \<Rightarrow> 'a option" where
  "keyed_get key k xs = List.find (\<lambda>x. key x = k) xs"

definition keyed_put :: "('a \<Rightarrow> string) \<Rightarrow> 'a \<Rightarrow> 'a list \<Rightarrow> 'a list" where
  "keyed_put key x xs = (if keyed_get key (key x) xs = None then xs @ [x]
     else map (\<lambda>y. if key y = key x then x else y) xs)"

lemma keyed_get_key: "keyed_get key k xs = Some x \<Longrightarrow> key x = k \<and> x \<in> set xs"
  by (auto simp: keyed_get_def dest: find_Some_iff2)

lemma keyed_get_None: "keyed_get key k xs = None \<longleftrightarrow> (\<forall>x \<in> set xs. key x \<noteq> k)"
  by (simp add: keyed_get_def find_is_none)

lemma keyed_get_map: "keyed_get key k (map (\<lambda>y. if key y = key x then x else y) xs) =
    (if k = key x then (case keyed_get key k xs of None \<Rightarrow> None | Some _ \<Rightarrow> Some x) else keyed_get key k xs)"
  by (induction xs) (auto simp: keyed_get_def)

lemma keyed_get_put: "keyed_get key k (keyed_put key x xs) = (if k = key x then Some x else keyed_get key k xs)"
proof (cases "keyed_get key (key x) xs")
  case None
  then show ?thesis by (auto simp: keyed_put_def keyed_get_def find_append split: option.split)
next
  case (Some y)
  then show ?thesis by (auto simp: keyed_put_def keyed_get_map)
qed

lemma distinct_keyed_put: "distinct (map key xs) \<Longrightarrow> distinct (map key (keyed_put key x xs))"
proof (cases "keyed_get key (key x) xs")
  case None
  then show "distinct (map key xs) \<Longrightarrow> ?thesis" by (auto simp: keyed_put_def keyed_get_None)
next
  case (Some y)
  have "map key (map (\<lambda>y. if key y = key x then x else y) xs) = map key xs" by (induction xs) auto
  then show "distinct (map key xs) \<Longrightarrow> ?thesis" using Some by (simp add: keyed_put_def del: map_map)
qed

lemma keyed_in: "distinct (map key xs) \<Longrightarrow> x \<in> set xs \<Longrightarrow> keyed_get key (key x) xs = Some x"
  by (induction xs) (auto simp: keyed_get_def image_iff)

lemma set_keyed_put: "set (keyed_put key x xs) \<subseteq> insert x (set xs)"
  by (auto simp: keyed_put_def)

section \<open>Torn records\<close>

text \<open>What a failed append leaves is a beginning of a record; text that begins so and goes on with a
  whole record is not JSON.\<close>

definition torn_parts :: "'a log_codec \<Rightarrow> string list \<Rightarrow> bool" where
  "torn_parts cd ts = (\<forall>t \<in> set ts. t \<noteq> [] \<and> (\<exists>x n. t = take n (lc_encode cd x)))"

definition torn_unreadable :: "'a log_codec \<Rightarrow> bool" where
  "torn_unreadable cd = (\<forall>ts x. ts \<noteq> [] \<longrightarrow> torn_parts cd ts \<longrightarrow> lc_decode cd (concat ts @ lc_encode cd x) = None)"

definition readable :: "'a log_codec \<Rightarrow> ('a \<Rightarrow> bool) \<Rightarrow> string \<Rightarrow> bool" where
  "readable cd P f = ((\<exists>ts. torn_parts cd ts \<and> log_tail f = concat ts)
     \<and> (\<forall>xs. decode_all cd (log_records f) = Some xs \<longrightarrow> list_all P xs))"

lemma torn_clean:
  assumes "codec_ok cd" "torn_parts cd ts"
  shows "newline \<notin> set (concat ts)" "carriage \<notin> set (concat ts)"
proof -
  have "newline \<notin> set t \<and> carriage \<notin> set t" if t: "t \<in> set ts" for t
  proof -
    obtain x n where "t = take n (lc_encode cd x)" using bspec [OF assms(2) [unfolded torn_parts_def] t] by blast
    then show ?thesis using assms(1) by (meson codec_ok_def in_set_takeD)
  qed
  then show "newline \<notin> set (concat ts)" "carriage \<notin> set (concat ts)" by auto
qed

lemma concat_torn_Nil: "torn_parts cd ts \<Longrightarrow> concat ts = [] \<longleftrightarrow> ts = []"
  by (cases ts) (auto simp: torn_parts_def)

text \<open>After a torn tail a whole record makes a line that cannot be read.\<close>

lemma records_after_tear:
  assumes "codec_ok cd" "torn_unreadable cd" "torn_parts cd ts" "log_tail f = concat ts" "ts \<noteq> []"
  shows "decode_all cd (log_records (f @ lc_encode cd x @ [newline])) = None" "log_tail (f @ lc_encode cd x @ [newline]) = []"
proof -
  have enc: "newline \<notin> set (lc_encode cd x)" "carriage \<notin> set (lc_encode cd x)" using assms(1) by (auto simp: codec_ok_def)
  note lines = log_written [OF enc(1), of f]
  have "strip_carriage (concat ts @ lc_encode cd x) = concat ts @ lc_encode cd x"
    using torn_clean(2) [OF assms(1,3)] enc(2) by (simp add: strip_clean)
  moreover have "concat ts \<noteq> []" using concat_torn_Nil [OF assms(3)] assms(5) by simp
  ultimately have "log_records (f @ lc_encode cd x @ [newline]) = log_records f @ [concat ts @ lc_encode cd x]"
    using lines(1) assms(4) by (simp add: log_records_def)
  moreover have "lc_decode cd (concat ts @ lc_encode cd x) = None"
    using assms(2,3,5) by (simp add: torn_unreadable_def)
  ultimately show "decode_all cd (log_records (f @ lc_encode cd x @ [newline])) = None"
    by (simp add: decode_all_append split: option.split)
  show "log_tail (f @ lc_encode cd x @ [newline]) = []" using lines(2) .
qed

lemma readable_written:
  assumes "codec_ok cd" "torn_unreadable cd" "readable cd P f" "P x"
  shows "readable cd P (f @ lc_encode cd x @ [newline])"
proof -
  obtain ts where ts: "torn_parts cd ts" "log_tail f = concat ts" using assms(3) by (auto simp: readable_def)
  have none: "\<exists>us. torn_parts cd us \<and> [] = concat us" by (intro exI [of _ "[]"]) (simp add: torn_parts_def)
  show ?thesis
  proof (cases "ts = []")
    case True
    then have tail: "log_tail f = []" using ts by simp
    have "list_all P ys" if "decode_all cd (log_records f @ [lc_encode cd x]) = Some ys" for ys
      using that assms(1,3,4) by (auto simp: decode_all_append readable_def codec_ok_def split: option.splits)
    then show ?thesis unfolding readable_def records_written [OF assms(1) tail] using none by simp
  next
    case False
    show ?thesis unfolding readable_def using records_after_tear [OF assms(1,2) ts False] none by simp
  qed
qed

lemma readable_torn:
  assumes "codec_ok cd" "readable cd P f"
  shows "readable cd P (f @ take n (lc_encode cd x))"
proof -
  obtain ts where ts: "torn_parts cd ts" "log_tail f = concat ts" using assms(2) by (auto simp: readable_def)
  have clean: "newline \<notin> set (take n (lc_encode cd x))"
    using assms(1) by (meson codec_ok_def in_set_takeD)
  let ?us = "if take n (lc_encode cd x) = [] then ts else ts @ [take n (lc_encode cd x)]"
  have "torn_parts cd ?us" using ts(1) by (auto simp: torn_parts_def)
  moreover have "log_tail (f @ take n (lc_encode cd x)) = concat ?us" using log_torn(2) [OF clean] ts(2) by simp
  moreover have "log_records (f @ take n (lc_encode cd x)) = log_records f" using log_torn(1) [OF clean] by (simp add: log_records_def)
  ultimately show ?thesis using assms(2) unfolding readable_def by metis
qed

lemma readable_append:
  assumes "codec_ok cd" "torn_unreadable cd" "readable cd P f" "P x"
  shows "readable cd P (snd (append_record ao (lc_encode cd x) f))"
proof (cases ao)
  case AoWritten
  then show ?thesis using readable_written [OF assms] by (simp add: append_record_def)
next
  case (AoFailed n)
  show ?thesis
  proof (cases "n \<le> length (lc_encode cd x)")
    case True
    then show ?thesis using readable_torn [OF assms(1,3), of n x] AoFailed by (simp add: append_record_def)
  next
    case False
    then show ?thesis using readable_written [OF assms] AoFailed by (simp add: append_record_def)
  qed
qed

lemma unreadable_append:
  assumes "decode_all cd (log_records f) = None"
  shows "decode_all cd (log_records (f @ t)) = None"
proof -
  have "\<exists>us. log_lines (f @ t) = log_lines f @ us" for t
  proof (induction t rule: rev_induct)
    case (snoc c t)
    then obtain us where us: "log_lines (f @ t) = log_lines f @ us" by blast
    show ?case
    proof (cases "c = newline")
      case True
      then show ?thesis using us log_written(1) [of "[]" "f @ t"] by simp
    next
      case False
      then show ?thesis using us log_torn(1) [of "[c]" "f @ t"] by auto
    qed
  qed simp
  then obtain us where "log_lines (f @ t) = log_lines f @ us" by blast
  then show ?thesis using assms by (simp add: log_records_def decode_all_append split: option.split)
qed

section \<open>A codec\<close>

text \<open>A codec for any countable type: a mark, the number of the value in unary, and a full stop.\<close>

definition unary_encode :: "'a::countable \<Rightarrow> string" where
  "unary_encode x = CHR ''#'' # replicate (to_nat x) CHR ''1'' @ ''.''"

definition unary_decode :: "string \<Rightarrow> 'a::countable option" where
  "unary_decode s = (let n = length s - 2 in
     if s = CHR ''#'' # replicate n CHR ''1'' @ ''.'' then Some (from_nat n) else None)"

definition unary_codec :: "'a::countable log_codec" where
  "unary_codec = \<lparr>lc_encode = unary_encode, lc_decode = unary_decode\<rparr>"

lemma unary_codec_ok: "codec_ok unary_codec"
  by (simp add: codec_ok_def unary_codec_def unary_encode_def unary_decode_def)

lemma unary_torn: "torn_unreadable unary_codec"
  unfolding torn_unreadable_def
proof (intro allI impI)
  fix ts and x :: 'a
  assume ts: "ts \<noteq> []" "torn_parts (unary_codec :: 'a log_codec) ts"
  obtain t us where c: "ts = t # us" using ts(1) by (cases ts) auto
  obtain y :: 'a and n where "t \<noteq> []" "t = take n (unary_encode y)"
    using ts(2) c by (auto simp: torn_parts_def unary_codec_def)
  then obtain v where "t = CHR ''#'' # v" by (cases n) (auto simp: unary_encode_def)
  then have s: "concat ts @ unary_encode x = CHR ''#'' # (v @ concat us @ unary_encode x)" by (simp add: c)
  have "CHR ''#'' \<in> set (v @ concat us @ unary_encode x)" by (simp add: unary_encode_def)
  moreover have "CHR ''#'' \<notin> set (replicate m CHR ''1'' @ ''.'')" for m by simp
  ultimately have "v @ concat us @ unary_encode x \<noteq> replicate m CHR ''1'' @ ''.''" for m by metis
  then show "lc_decode unary_codec (concat ts @ lc_encode unary_codec x) = (None :: 'a option)"
    by (simp add: unary_codec_def s unary_decode_def)
qed

end
