(* ===== verification/DynamicAgents.thy ===== *)
theory DynamicAgents
  imports DurableLog PermTypes "HOL-Library.Word" "HOL-Library.List_Lexorder" "HOL-Library.Char_ord"
begin

text \<open>
  Agents that agents create (\<open>y-agent/src/agent/dynamic_agent.rs\<close>, \<open>definition.rs\<close>,
  \<open>registry.rs\<close>, \<open>meta_tools.rs\<close>, \<open>persistent_dynamic_store.rs\<close>, \<open>y-core/src/trust.rs\<close>): their
  permissions, validation, the two stores, and the tools that create and change them.

  The clock is a parameter.  A poisoned lock is not modelled: no modelled code panics while it
  holds one.
\<close>

section \<open>Definitions of agents\<close>

datatype trust_tier = TierDynamic | TierUserDefined | TierBuiltIn

instantiation trust_tier :: linorder
begin

fun tier_rank :: "trust_tier \<Rightarrow> nat" where
  "tier_rank TierDynamic = 0"
| "tier_rank TierUserDefined = 1"
| "tier_rank TierBuiltIn = 2"

definition less_eq_trust_tier :: "trust_tier \<Rightarrow> trust_tier \<Rightarrow> bool" where
  "less_eq_trust_tier a b = (tier_rank a \<le> tier_rank b)"

definition less_trust_tier :: "trust_tier \<Rightarrow> trust_tier \<Rightarrow> bool" where
  "less_trust_tier a b = (tier_rank a < tier_rank b)"

instance
proof
  fix x y :: trust_tier
  show "x \<le> y \<Longrightarrow> y \<le> x \<Longrightarrow> x = y"
    by (cases x; cases y) (simp_all add: less_eq_trust_tier_def)
qed (auto simp: less_eq_trust_tier_def less_trust_tier_def)

end

datatype agent_mode = AmBuild | AmPlan | AmExplore | AmGeneral

datatype context_strategy = CsNone | CsSummary | CsFiltered | CsFull

datatype workspace_isolation = WiAuto | WiShared | WiPreferWorktree | WiRequireWorktree

text \<open>The schema as its JSON text.\<close>

record response_format =
  rf_format_type :: string
  rf_name :: "string option"
  rf_schema :: "string option"
  rf_schema_json :: "string option"

text \<open>The fields that no modelled operation reads; the floating point ones by their bits.\<close>

record agent_settings =
  as_icon :: "string option"
  as_working_directory :: "string option"
  as_workspace_isolation :: workspace_isolation
  as_toolcall_enabled :: "bool option"
  as_skills_enabled :: "bool option"
  as_knowledge_enabled :: "bool option"
  as_skills :: "string list"
  as_knowledge_collections :: "string list"
  as_prompt_section_ids :: "string list"
  as_provider_id :: "string option"
  as_preferred_models :: "string list"
  as_fallback_models :: "string list"
  as_provider_tags :: "string list"
  as_fallback_provider_tags :: "string list list"
  as_temperature :: "64 word option"
  as_top_p :: "64 word option"
  as_plan_mode :: "string option"
  as_thinking_effort :: "string option"
  as_permission_mode :: "permission_mode option"
  as_timeout_secs :: nat
  as_max_context_tokens :: nat
  as_user_callable :: bool
  as_mcp_mode :: "string option"
  as_mcp_servers :: "string list"
  as_prune_tool_history :: bool
  as_auto_update :: bool
  as_response_format :: "response_format option"

definition default_settings :: agent_settings where
  "default_settings = \<lparr>as_icon = None, as_working_directory = None, as_workspace_isolation = WiAuto, as_toolcall_enabled = None, as_skills_enabled = None,
     as_knowledge_enabled = None, as_skills = [], as_knowledge_collections = [], as_prompt_section_ids = [],
     as_provider_id = None, as_preferred_models = [], as_fallback_models = [], as_provider_tags = [],
     as_fallback_provider_tags = [], as_temperature = None, as_top_p = None, as_plan_mode = None,
     as_thinking_effort = None, as_permission_mode = None, as_timeout_secs = 300, as_max_context_tokens = 4096, as_user_callable = False,
     as_mcp_mode = None, as_mcp_servers = [], as_prune_tool_history = False, as_auto_update = True,
     as_response_format = None\<rparr>"

record agent_definition =
  ad_id :: string
  ad_name :: string
  ad_description :: string
  ad_mode :: agent_mode
  ad_trust_tier :: trust_tier
  ad_capabilities :: "string list"
  ad_allowed_tools :: "string list"
  ad_system_prompt :: string
  ad_max_iterations :: nat
  ad_max_tool_calls :: nat
  ad_context_sharing :: context_strategy
  ad_max_completion_tokens :: "nat option"
  ad_settings :: agent_settings

datatype multi_agent_error =
  MaNotFound string
| MaPoolLimitReached nat
| MaDelegationFailed string
| MaInvalidDefinition string
| MaTimeout nat
| MaDepthExceeded nat nat
| MaOther string

fun show_agent_error :: "multi_agent_error \<Rightarrow> string" where
  "show_agent_error (MaNotFound i) = ''agent not found: '' @ i"
| "show_agent_error (MaPoolLimitReached m) = ''pool limit reached: max '' @ show_nat m @ '' agents''"
| "show_agent_error (MaDelegationFailed m) = ''delegation failed: '' @ m"
| "show_agent_error (MaInvalidDefinition m) = ''invalid definition: '' @ m"
| "show_agent_error (MaTimeout t) = ''delegation timeout after '' @ show_nat t @ ''ms''"
| "show_agent_error (MaDepthExceeded d m) = ''delegation depth '' @ show_nat d @ '' exceeds max '' @ show_nat m"
| "show_agent_error (MaOther m) = m"

text \<open>\<open>AgentDefinition::validate\<close>.\<close>

definition validate_agent :: "agent_definition \<Rightarrow> multi_agent_error + unit" where
  "validate_agent d = (if ad_id d = [] then Inl (MaInvalidDefinition ''agent id is required'')
     else if ad_name d = [] then Inl (MaInvalidDefinition ''agent name is required'') else Inr ())"

section \<open>Permissions\<close>

record effective_permissions =
  ep_tools_allowed :: "string list"
  ep_max_iterations :: nat
  ep_max_tool_calls :: nat
  ep_max_tokens :: nat
  ep_delegation_depth :: nat

record creator_snapshot =
  cs_tools_allowed :: "string list"
  cs_max_iterations :: nat
  cs_max_tool_calls :: nat
  cs_max_tokens :: nat
  cs_delegation_depth :: nat

definition u32_max :: nat where "u32_max = 2 ^ 32 - 1"

definition u64_max :: nat where "u64_max = 2 ^ 64 - 1"

text \<open>\<open>u32::try_from(n).unwrap_or(u32::MAX)\<close>; a \<open>usize\<close> always fits a \<open>u64\<close>.\<close>

definition to_u32 :: "nat \<Rightarrow> nat" where
  "to_u32 n = min n u32_max"

definition compute_permissions :: "agent_definition \<Rightarrow> creator_snapshot \<Rightarrow> effective_permissions" where
  "compute_permissions d c = \<lparr>ep_tools_allowed = filter (\<lambda>t. t \<in> set (cs_tools_allowed c)) (ad_allowed_tools d),
     ep_max_iterations = min (to_u32 (ad_max_iterations d)) (cs_max_iterations c),
     ep_max_tool_calls = min (to_u32 (ad_max_tool_calls d)) (cs_max_tool_calls c),
     ep_max_tokens = min (case ad_max_completion_tokens d of None \<Rightarrow> u64_max | Some t \<Rightarrow> t) (cs_max_tokens c),
     ep_delegation_depth = cs_delegation_depth c - 1\<rparr>"

datatype agent_source = SrcBuiltIn | SrcUserDefined | SrcDynamic string

datatype agent_status = StActive | StDeactivated

record dynamic_agent =
  da_id :: string
  da_definition :: agent_definition
  da_trust_tier :: trust_tier
  da_source :: agent_source
  da_created_by :: string
  da_created_at :: string
  da_delegation_depth :: nat
  da_version :: nat
  da_status :: agent_status
  da_deactivated_at :: "string option"
  da_deactivation_reason :: "string option"
  da_effective :: effective_permissions

section \<open>Validation\<close>

datatype validation_error =
  VeEmptyName
| VeReservedName string
| VeEmptyDescription
| VePermissionDenied string string
| VeDelegationDepthExhausted
| VeSecurityViolation string

fun show_validation_error :: "validation_error \<Rightarrow> string" where
  "show_validation_error VeEmptyName = ''agent name is empty''"
| "show_validation_error (VeReservedName n) = ''agent name '' @ [CHR 0x27] @ n @ [CHR 0x27] @ '' is reserved for built-in agents''"
| "show_validation_error VeEmptyDescription = ''agent description is empty''"
| "show_validation_error (VePermissionDenied c t) =
     ''creator '' @ [CHR 0x27] @ c @ [CHR 0x27] @ '' lacks permission to create agents with tool '' @ [CHR 0x27] @ t @ [CHR 0x27]"
| "show_validation_error VeDelegationDepthExhausted = ''delegation depth is 0; agent cannot delegate further''"
| "show_validation_error (VeSecurityViolation r) = ''security violation: '' @ r"

definition dangerous_tools :: "string list" where
  "dangerous_tools = [''ShellExec'', ''FileWrite'']"

definition injection_patterns :: "string list" where
  "injection_patterns = [''ignore previous instructions'', ''ignore all instructions'', ''disregard your instructions'',
     ''you are now'', ''override your system prompt'']"

definition reserved_names :: "string list" where
  "reserved_names = [''tool-engineer'', ''agent-architect'', ''agent-refiner'', ''skill-refiner'', ''compaction-summarizer'',
     ''title-generator'', ''task-intent-analyzer'', ''pattern-extractor'', ''capability-assessor'', ''skill-ingestion'',
     ''skill-security-check'', ''pruning-summarizer'', ''complexity-classifier'', ''knowledge-metadata'',
     ''knowledge-summarizer'', ''translator'', ''plan-writer'', ''plan-phase-executor'']"

definition is_dynamic_source :: "agent_source \<Rightarrow> bool" where
  "is_dynamic_source s = (case s of SrcDynamic _ \<Rightarrow> True | _ \<Rightarrow> False)"

definition validate_definition :: "dynamic_agent \<Rightarrow> validation_error + unit" where
  "validate_definition a = (let d = da_definition a in
     if ad_name d = [] then Inl VeEmptyName
     else if ad_description d = [] then Inl VeEmptyDescription
     else if ad_name d \<in> set reserved_names then Inl (VeReservedName (ad_name d))
     else if da_delegation_depth a = 0 \<and> is_dynamic_source (da_source a) then Inl VeDelegationDepthExhausted
     else (case List.find (\<lambda>t. t \<notin> set (ep_tools_allowed (da_effective a))) (ad_allowed_tools d) of
         Some t \<Rightarrow> Inl (VePermissionDenied (da_created_by a) t)
       | None \<Rightarrow>
          if list_ex (\<lambda>t. t \<in> set dangerous_tools) (ad_allowed_tools d) \<and> ad_trust_tier d < TierUserDefined
          then Inl (VeSecurityViolation ''dangerous tools require at least UserDefined trust tier'')
          else (case List.find (\<lambda>p. str_contains (str_lower (ad_system_prompt d)) p) injection_patterns of
              Some p \<Rightarrow> Inl (VeSecurityViolation (''potential prompt injection detected: '' @ [CHR 0x27] @ p @ [CHR 0x27]))
            | None \<Rightarrow> Inr ())))"

definition make_dynamic_agent :: "string \<Rightarrow> string \<Rightarrow> string \<Rightarrow> string \<Rightarrow> string list \<Rightarrow> creator_snapshot \<Rightarrow> dynamic_agent" where
  "make_dynamic_agent now name desc creator tools c =
     (let d = \<lparr>ad_id = ''dyn-'' @ name, ad_name = name, ad_description = desc, ad_mode = AmGeneral,
          ad_trust_tier = TierDynamic, ad_capabilities = [], ad_allowed_tools = tools, ad_system_prompt = [],
          ad_max_iterations = 20, ad_max_tool_calls = 50, ad_context_sharing = CsNone, ad_max_completion_tokens = None,
          ad_settings = default_settings\<rparr>
      in \<lparr>da_id = ''dyn-'' @ name, da_definition = d, da_trust_tier = TierDynamic, da_source = SrcDynamic creator,
          da_created_by = creator, da_created_at = now, da_delegation_depth = cs_delegation_depth c - 1, da_version = 1,
          da_status = StActive, da_deactivated_at = None, da_deactivation_reason = None,
          da_effective = compute_permissions d c\<rparr>)"

section \<open>The store in memory\<close>

type_synonym agent_map = "dynamic_agent list"

definition find_agent :: "string \<Rightarrow> agent_map \<Rightarrow> dynamic_agent option" where
  "find_agent i m = keyed_get da_id i m"

definition put_agent :: "dynamic_agent \<Rightarrow> agent_map \<Rightarrow> agent_map" where
  "put_agent a m = keyed_put da_id a m"

definition quoted :: "string \<Rightarrow> string" where
  "quoted s = [CHR 0x27] @ s @ [CHR 0x27]"

definition mem_create :: "dynamic_agent \<Rightarrow> agent_map \<Rightarrow> (multi_agent_error + dynamic_agent) \<times> agent_map" where
  "mem_create a m = (case validate_definition a of
      Inl e \<Rightarrow> (Inl (MaDelegationFailed (show_validation_error e)), m)
    | Inr _ \<Rightarrow> if find_agent (da_id a) m \<noteq> None
        then (Inl (MaDelegationFailed (''agent '' @ quoted (da_id a) @ '' already exists'')), m)
        else (Inr a, put_agent a m))"

definition mem_update :: "dynamic_agent \<Rightarrow> agent_map \<Rightarrow> (multi_agent_error + dynamic_agent) \<times> agent_map" where
  "mem_update a m = (case validate_definition a of
      Inl e \<Rightarrow> (Inl (MaDelegationFailed (show_validation_error e)), m)
    | Inr _ \<Rightarrow> (case find_agent (da_id a) m of
        None \<Rightarrow> (Inl (MaDelegationFailed (''agent '' @ quoted (da_id a) @ '' not found'')), m)
      | Some old \<Rightarrow> (let a' = a\<lparr>da_version := da_version old + 1\<rparr> in (Inr a', put_agent a' m))))"

definition deactivated :: "string \<Rightarrow> string \<Rightarrow> dynamic_agent \<Rightarrow> dynamic_agent" where
  "deactivated now reason a =
     a\<lparr>da_status := StDeactivated, da_deactivated_at := Some now, da_deactivation_reason := Some reason\<rparr>"

definition mem_deactivate :: "string \<Rightarrow> string \<Rightarrow> string \<Rightarrow> agent_map \<Rightarrow> (multi_agent_error + unit) \<times> agent_map" where
  "mem_deactivate now i reason m = (case find_agent i m of
      None \<Rightarrow> (Inl (MaDelegationFailed (''agent '' @ quoted i @ '' not found'')), m)
    | Some a \<Rightarrow> (Inr (), put_agent (deactivated now reason a) m))"

definition mem_search :: "string \<Rightarrow> agent_map \<Rightarrow> dynamic_agent list" where
  "mem_search q m = filter (\<lambda>a. da_status a = StActive \<and>
     (str_contains (ad_name (da_definition a)) q \<or> str_contains (ad_description (da_definition a)) q)) m"

definition mem_list_active :: "agent_map \<Rightarrow> dynamic_agent list" where
  "mem_list_active m = filter (\<lambda>a. da_status a = StActive) m"

section \<open>The durable store\<close>

definition agent_schema_version :: nat where "agent_schema_version = 1"

record agent_event =
  ev_schema_version :: nat
  ev_agent :: dynamic_agent

record agent_store =
  st_file :: string
  st_agents :: agent_map

definition agent_store_error :: "string \<Rightarrow> multi_agent_error" where
  "agent_store_error m = MaOther (''dynamic-agent store error: '' @ m)"

text \<open>Replaying the file; the message of the JSON library is not modelled.\<close>

fun replay_agents :: "agent_event log_codec \<Rightarrow> string list \<Rightarrow> agent_map \<Rightarrow> multi_agent_error + agent_map" where
  "replay_agents cd [] m = Inr m"
| "replay_agents cd (l # ls) m = (case lc_decode cd l of
      None \<Rightarrow> Inl (agent_store_error [])
    | Some e \<Rightarrow> if ev_schema_version e \<noteq> agent_schema_version
        then Inl (MaOther (''unsupported dynamic-agent journal schema version '' @ show_nat (ev_schema_version e)))
        else (case validate_definition (ev_agent e) of
            Inl err \<Rightarrow> Inl (agent_store_error (show_validation_error err))
          | Inr _ \<Rightarrow> replay_agents cd ls (put_agent (ev_agent e) m)))"

text \<open>\<open>open\<close>; \<open>fail\<close> is a failure of the file system.\<close>

definition open_agents :: "agent_event log_codec \<Rightarrow> bool \<Rightarrow> string \<Rightarrow> multi_agent_error + agent_store" where
  "open_agents cd fail f = (if fail then Inl (agent_store_error []) else
     (case replay_agents cd (log_records f) [] of Inl e \<Rightarrow> Inl e | Inr m \<Rightarrow> Inr \<lparr>st_file = f, st_agents = m\<rparr>))"

definition append_agent :: "agent_event log_codec \<Rightarrow> append_outcome \<Rightarrow> dynamic_agent \<Rightarrow> string \<Rightarrow> bool \<times> string" where
  "append_agent cd ao a f = append_record ao (lc_encode cd \<lparr>ev_schema_version = agent_schema_version, ev_agent = a\<rparr>) f"

text \<open>Appending a snapshot and, when that succeeded, installing it.\<close>

definition commit_agent :: "agent_event log_codec \<Rightarrow> append_outcome \<Rightarrow> dynamic_agent \<Rightarrow> agent_store \<Rightarrow>
    (multi_agent_error + dynamic_agent) \<times> agent_store" where
  "commit_agent cd ao a st = (case append_agent cd ao a (st_file st) of
      (True, f) \<Rightarrow> (Inr a, st\<lparr>st_file := f, st_agents := put_agent a (st_agents st)\<rparr>)
    | (False, f) \<Rightarrow> (Inl (agent_store_error []), st\<lparr>st_file := f\<rparr>))"

definition store_create :: "agent_event log_codec \<Rightarrow> append_outcome \<Rightarrow> dynamic_agent \<Rightarrow> agent_store \<Rightarrow>
    (multi_agent_error + dynamic_agent) \<times> agent_store" where
  "store_create cd ao a st = (case validate_definition a of
      Inl e \<Rightarrow> (Inl (agent_store_error (show_validation_error e)), st)
    | Inr _ \<Rightarrow> if find_agent (da_id a) (st_agents st) \<noteq> None
        then (Inl (MaDelegationFailed (''agent '' @ quoted (da_id a) @ '' already exists'')), st)
        else commit_agent cd ao a st)"

text \<open>\<open>saturating_add\<close> on the version.\<close>

definition next_agent_version :: "nat \<Rightarrow> nat" where
  "next_agent_version v = min (v + 1) u64_max"

definition store_update_agent :: "agent_event log_codec \<Rightarrow> append_outcome \<Rightarrow> dynamic_agent \<Rightarrow> agent_store \<Rightarrow>
    (multi_agent_error + dynamic_agent) \<times> agent_store" where
  "store_update_agent cd ao a st = (case validate_definition a of
      Inl e \<Rightarrow> (Inl (agent_store_error (show_validation_error e)), st)
    | Inr _ \<Rightarrow> (case find_agent (da_id a) (st_agents st) of
        None \<Rightarrow> (Inl (MaDelegationFailed (''agent '' @ quoted (da_id a) @ '' not found'')), st)
      | Some old \<Rightarrow> commit_agent cd ao (a\<lparr>da_version := next_agent_version (da_version old)\<rparr>) st))"

definition store_deactivate :: "agent_event log_codec \<Rightarrow> append_outcome \<Rightarrow> string \<Rightarrow> string \<Rightarrow> string \<Rightarrow> agent_store \<Rightarrow>
    (multi_agent_error + unit) \<times> agent_store" where
  "store_deactivate cd ao now i reason st = (case find_agent i (st_agents st) of
      None \<Rightarrow> (Inl (MaDelegationFailed (''agent '' @ quoted i @ '' not found'')), st)
    | Some a \<Rightarrow> (case commit_agent cd ao (deactivated now reason a) st of
        (Inl e, st') \<Rightarrow> (Inl e, st') | (Inr _, st') \<Rightarrow> (Inr (), st')))"

fun latest_snapshot :: "string \<Rightarrow> nat \<Rightarrow> agent_event list \<Rightarrow> dynamic_agent option \<Rightarrow> dynamic_agent option" where
  "latest_snapshot i v [] found = found"
| "latest_snapshot i v (e # es) found = latest_snapshot i v es
     (if da_id (ev_agent e) = i \<and> da_version (ev_agent e) = v \<and> da_status (ev_agent e) = StActive
      then Some (ev_agent e) else found)"

definition get_version :: "agent_event log_codec \<Rightarrow> bool \<Rightarrow> string \<Rightarrow> nat \<Rightarrow> agent_store \<Rightarrow> multi_agent_error + dynamic_agent option" where
  "get_version cd fail i v st = (if fail then Inl (agent_store_error []) else
     (case decode_all cd (log_records (st_file st)) of
        None \<Rightarrow> Inl (agent_store_error []) | Some es \<Rightarrow> Inr (latest_snapshot i v es None)))"

definition rollback_agent :: "agent_event log_codec \<Rightarrow> bool \<Rightarrow> append_outcome \<Rightarrow> string \<Rightarrow> nat \<Rightarrow> agent_store \<Rightarrow>
    (multi_agent_error + dynamic_agent) \<times> agent_store" where
  "rollback_agent cd fail ao i v st = (case find_agent i (st_agents st) of
      None \<Rightarrow> (Inl (MaNotFound i), st)
    | Some cur \<Rightarrow>
        if da_version cur \<le> v then (Inl (MaInvalidDefinition (''rollback target version '' @ show_nat v @
          '' must be older than current version '' @ show_nat (da_version cur))), st)
        else (case get_version cd fail i v st of
            Inl e \<Rightarrow> (Inl e, st)
          | Inr None \<Rightarrow> (Inl (MaNotFound (i @ ''@'' @ show_nat v)), st)
          | Inr (Some old) \<Rightarrow>
              (let r = old\<lparr>da_version := next_agent_version (da_version cur), da_status := StActive,
                 da_deactivated_at := None, da_deactivation_reason := None\<rparr>
               in case validate_definition r of
                   Inl e \<Rightarrow> (Inl (agent_store_error (show_validation_error e)), st)
                 | Inr _ \<Rightarrow> commit_agent cd ao r st)))"

definition store_search :: "string \<Rightarrow> agent_store \<Rightarrow> dynamic_agent list" where
  "store_search q st = (let lq = str_lower q in sort_key da_id (filter (\<lambda>a. da_status a = StActive \<and>
     (str_contains (str_lower (ad_name (da_definition a))) lq \<or> str_contains (str_lower (ad_description (da_definition a))) lq
      \<or> list_ex (\<lambda>c. str_contains (str_lower c) lq) (ad_capabilities (da_definition a)))) (st_agents st)))"

definition store_list_active :: "agent_store \<Rightarrow> dynamic_agent list" where
  "store_list_active st = sort_key da_id (filter (\<lambda>a. da_status a = StActive) (st_agents st))"

end
