(* ===== verification/DynamicAgentService.thy ===== *)
theory DynamicAgentService
  imports DynamicAgents
begin

text \<open>
  The tools for dynamic agents (\<open>y-agent/src/agent/meta_tools.rs\<close>), the live registry
  (\<open>registry.rs\<close>), evolution proposals (\<open>dynamic_agent_proposal.rs\<close>,
  \<open>persistent_dynamic_proposal_store.rs\<close>) and the service that ties them together
  (\<open>y-service/src/dynamic_agent_service.rs\<close>, \<open>agent_service/dynamic_agent_tools.rs\<close>).

  Clocks, identifiers and the outcomes of file operations are parameters.
\<close>

section \<open>The tools\<close>

record agent_create_params =
  ac_name :: string
  ac_description :: string
  ac_mode :: agent_mode
  ac_capabilities :: "string list"
  ac_allowed_tools :: "string list"
  ac_system_prompt :: string
  ac_context_sharing :: context_strategy

record agent_update_params =
  au_id :: string
  au_description :: "string option"
  au_mode :: "agent_mode option"
  au_allowed_tools :: "string list option"
  au_system_prompt :: "string option"

record agent_search_params =
  sq_query :: string
  sq_mode :: "agent_mode option"
  sq_trust_tier :: "trust_tier option"
  sq_status :: "agent_status option"

record meta_result =
  mt_success :: bool
  mt_message :: string
  mt_agent :: "dynamic_agent option"
  mt_agents :: "dynamic_agent list option"

definition meta_success :: "string \<Rightarrow> dynamic_agent option \<Rightarrow> meta_result" where
  "meta_success m a = \<lparr>mt_success = True, mt_message = m, mt_agent = a, mt_agents = None\<rparr>"

definition meta_error :: "string \<Rightarrow> meta_result" where
  "meta_error m = \<lparr>mt_success = False, mt_message = m, mt_agent = None, mt_agents = None\<rparr>"

text \<open>The tools work on any store: its operations are arguments.\<close>

definition new_agent :: "string \<Rightarrow> agent_create_params \<Rightarrow> string \<Rightarrow> creator_snapshot \<Rightarrow> dynamic_agent" where
  "new_agent now p creator c =
     (let a = make_dynamic_agent now (ac_name p) (ac_description p) creator (ac_allowed_tools p) c
      in a\<lparr>da_definition := (da_definition a)\<lparr>ad_mode := ac_mode p, ad_capabilities := ac_capabilities p,
             ad_system_prompt := ac_system_prompt p, ad_context_sharing := ac_context_sharing p\<rparr>\<rparr>)"

definition agent_create :: "(dynamic_agent \<Rightarrow> 's \<Rightarrow> (multi_agent_error + dynamic_agent) \<times> 's) \<Rightarrow>
    string \<Rightarrow> agent_create_params \<Rightarrow> string \<Rightarrow> creator_snapshot \<Rightarrow> 's \<Rightarrow> meta_result \<times> 's" where
  "agent_create create now p creator c st = (case create (new_agent now p creator c) st of
      (Inr a, st') \<Rightarrow> (meta_success (''Agent '' @ quoted (ad_name (da_definition a)) @ '' created successfully'') (Some a), st')
    | (Inl e, st') \<Rightarrow> (meta_error (''Failed to create agent: '' @ show_agent_error e), st'))"

definition changed_agent :: "agent_update_params \<Rightarrow> dynamic_agent \<Rightarrow> dynamic_agent" where
  "changed_agent p a = (let d = da_definition a in
     a\<lparr>da_definition := d\<lparr>
         ad_description := (case au_description p of None \<Rightarrow> ad_description d | Some x \<Rightarrow> x),
         ad_mode := (case au_mode p of None \<Rightarrow> ad_mode d | Some x \<Rightarrow> x),
         ad_allowed_tools := (case au_allowed_tools p of None \<Rightarrow> ad_allowed_tools d | Some x \<Rightarrow> x),
         ad_system_prompt := (case au_system_prompt p of None \<Rightarrow> ad_system_prompt d | Some x \<Rightarrow> x)\<rparr>,
       da_effective := (case au_allowed_tools p of None \<Rightarrow> da_effective a
         | Some ts \<Rightarrow> (da_effective a)\<lparr>ep_tools_allowed := filter (\<lambda>t. t \<in> set ts) (ep_tools_allowed (da_effective a))\<rparr>)\<rparr>)"

definition agent_update :: "(string \<Rightarrow> 's \<Rightarrow> dynamic_agent option) \<Rightarrow>
    (dynamic_agent \<Rightarrow> 's \<Rightarrow> (multi_agent_error + dynamic_agent) \<times> 's) \<Rightarrow> agent_update_params \<Rightarrow> 's \<Rightarrow> meta_result \<times> 's" where
  "agent_update get update p st = (case get (au_id p) st of
      None \<Rightarrow> (meta_error (''Agent '' @ quoted (au_id p) @ '' not found''), st)
    | Some a \<Rightarrow> (case update (changed_agent p a) st of
        (Inr r, st') \<Rightarrow> (meta_success (''Agent '' @ quoted (da_id r) @ '' updated (v'' @ show_nat (da_version r) @ '')'') (Some r), st')
      | (Inl e, st') \<Rightarrow> (meta_error (''Failed to update agent: '' @ show_agent_error e), st')))"

definition agent_deactivate :: "(string \<Rightarrow> string \<Rightarrow> 's \<Rightarrow> (multi_agent_error + unit) \<times> 's) \<Rightarrow> string \<Rightarrow> string \<Rightarrow> 's \<Rightarrow> meta_result \<times> 's" where
  "agent_deactivate deactivate i reason st = (case deactivate i reason st of
      (Inr _, st') \<Rightarrow> (meta_success (''Agent '' @ quoted i @ '' deactivated: '' @ reason) None, st')
    | (Inl e, st') \<Rightarrow> (meta_error (''Failed to deactivate agent: '' @ show_agent_error e), st'))"

definition agent_search :: "(string \<Rightarrow> 's \<Rightarrow> dynamic_agent list) \<Rightarrow> agent_search_params \<Rightarrow> 's \<Rightarrow> meta_result" where
  "agent_search search p st = (let rs = filter (\<lambda>a.
       (case sq_mode p of None \<Rightarrow> True | Some m \<Rightarrow> ad_mode (da_definition a) = m)
       \<and> (case sq_trust_tier p of None \<Rightarrow> True | Some t \<Rightarrow> da_trust_tier a = t)
       \<and> (case sq_status p of None \<Rightarrow> True | Some s \<Rightarrow> da_status a = s)) (search (sq_query p) st)
     in \<lparr>mt_success = True, mt_message = ''Found '' @ show_nat (length rs) @ '' agent(s)'', mt_agent = None, mt_agents = Some rs\<rparr>)"

section \<open>The registry\<close>

type_synonym agent_registry = "agent_definition list"

definition registry_get :: "string \<Rightarrow> agent_registry \<Rightarrow> agent_definition option" where
  "registry_get i r = keyed_get ad_id i r"

definition register_agent :: "agent_definition \<Rightarrow> agent_registry \<Rightarrow> (multi_agent_error + unit) \<times> agent_registry" where
  "register_agent d r = (case validate_agent d of
      Inl e \<Rightarrow> (Inl e, r)
    | Inr _ \<Rightarrow> if registry_get (ad_id d) r \<noteq> None
        then (Inl (MaInvalidDefinition (''agent '' @ quoted (ad_id d) @ '' is already registered'')), r)
        else (Inr (), keyed_put ad_id d r))"

fun show_tier :: "trust_tier \<Rightarrow> string" where
  "show_tier TierDynamic = ''Dynamic''"
| "show_tier TierUserDefined = ''UserDefined''"
| "show_tier TierBuiltIn = ''BuiltIn''"

definition register_dynamic :: "agent_definition \<Rightarrow> agent_registry \<Rightarrow> (multi_agent_error + unit) \<times> agent_registry" where
  "register_dynamic d r = (if ad_trust_tier d \<noteq> TierDynamic
     then (Inl (MaInvalidDefinition (''register_dynamic requires trust_tier=Dynamic, got '' @ show_tier (ad_trust_tier d))), r)
     else register_agent d r)"

definition register_or_override :: "agent_definition \<Rightarrow> agent_registry \<Rightarrow> (multi_agent_error + unit) \<times> agent_registry" where
  "register_or_override d r = (case validate_agent d of Inl e \<Rightarrow> (Inl e, r) | Inr _ \<Rightarrow> (Inr (), keyed_put ad_id d r))"

definition unregister :: "string \<Rightarrow> agent_registry \<Rightarrow> (multi_agent_error + agent_definition) \<times> agent_registry" where
  "unregister i r = (case registry_get i r of
      None \<Rightarrow> (Inl (MaNotFound i), r)
    | Some d \<Rightarrow> if ad_trust_tier d = TierBuiltIn
        then (Inl (MaInvalidDefinition (''cannot unregister built-in agent '' @ quoted i)), r)
        else (Inr d, filter (\<lambda>x. ad_id x \<noteq> i) r))"

section \<open>Proposals\<close>

datatype proposal_status = PsPending | PsApproved | PsRejected | PsDeferred | PsApplied | PsFailed

definition proposal_open :: "proposal_status \<Rightarrow> bool" where
  "proposal_open s = (s = PsPending \<or> s = PsApproved \<or> s = PsDeferred)"

record regression_evidence =
  re_baseline_samples :: nat
  re_current_samples :: nat
  re_baseline_success_rate :: "64 word"
  re_current_success_rate :: "64 word"
  re_success_rate_drop :: "64 word"

record candidate_definition =
  cd_description :: string
  cd_mode :: agent_mode
  cd_allowed_tools :: "string list"
  cd_system_prompt :: string
  cd_rationale :: string

datatype proposal_change = PcRollback nat | PcCandidate candidate_definition

record evolution_proposal =
  pr_id :: string
  pr_agent_id :: string
  pr_current_version :: nat
  pr_baseline_version :: nat
  pr_evidence :: regression_evidence
  pr_change :: proposal_change
  pr_status :: proposal_status
  pr_revision :: nat
  pr_created_at :: string
  pr_decided_at :: "string option"
  pr_decision_reason :: "string option"
  pr_applied_version :: "nat option"
  pr_failure_message :: "string option"

definition new_regression :: "string \<Rightarrow> string \<Rightarrow> string \<Rightarrow> nat \<Rightarrow> nat \<Rightarrow> regression_evidence \<Rightarrow> evolution_proposal" where
  "new_regression now uuid i cur base ev = \<lparr>pr_id = uuid, pr_agent_id = i, pr_current_version = cur, pr_baseline_version = base,
     pr_evidence = ev, pr_change = PcRollback base, pr_status = PsPending, pr_revision = 1, pr_created_at = now,
     pr_decided_at = None, pr_decision_reason = None, pr_applied_version = None, pr_failure_message = None\<rparr>"

record proposal_event =
  pe_schema_version :: nat
  pe_proposal :: evolution_proposal

record proposal_store =
  ps_file :: string
  ps_proposals :: "evolution_proposal list"

definition proposal_store_error :: "string \<Rightarrow> multi_agent_error" where
  "proposal_store_error m = MaOther (''dynamic-agent proposal store error: '' @ m)"

fun read_proposals :: "proposal_event log_codec \<Rightarrow> string list \<Rightarrow> multi_agent_error + evolution_proposal list" where
  "read_proposals cd [] = Inr []"
| "read_proposals cd (l # ls) = (case lc_decode cd l of
      None \<Rightarrow> Inl (proposal_store_error [])
    | Some e \<Rightarrow> if pe_schema_version e \<noteq> 1
        then Inl (MaOther (''unsupported dynamic-agent proposal schema version '' @ show_nat (pe_schema_version e)))
        else (case read_proposals cd ls of Inl err \<Rightarrow> Inl err | Inr ps \<Rightarrow> Inr (pe_proposal e # ps)))"

definition open_proposals :: "proposal_event log_codec \<Rightarrow> bool \<Rightarrow> string \<Rightarrow> multi_agent_error + proposal_store" where
  "open_proposals cd fail f = (if fail then Inl (proposal_store_error []) else
     (case read_proposals cd (log_records f) of Inl e \<Rightarrow> Inl e
      | Inr ps \<Rightarrow> Inr \<lparr>ps_file = f, ps_proposals = fold (keyed_put pr_id) ps []\<rparr>))"

definition commit_proposal :: "proposal_event log_codec \<Rightarrow> append_outcome \<Rightarrow> evolution_proposal \<Rightarrow> proposal_store \<Rightarrow>
    (multi_agent_error + evolution_proposal) \<times> proposal_store" where
  "commit_proposal cd ao p st = (case append_record ao (lc_encode cd \<lparr>pe_schema_version = 1, pe_proposal = p\<rparr>) (ps_file st) of
      (True, f) \<Rightarrow> (Inr p, st\<lparr>ps_file := f, ps_proposals := keyed_put pr_id p (ps_proposals st)\<rparr>)
    | (False, f) \<Rightarrow> (Inl (proposal_store_error []), st\<lparr>ps_file := f\<rparr>))"

definition proposal_create :: "proposal_event log_codec \<Rightarrow> append_outcome \<Rightarrow> evolution_proposal \<Rightarrow> proposal_store \<Rightarrow>
    (multi_agent_error + evolution_proposal) \<times> proposal_store" where
  "proposal_create cd ao p st =
     (if keyed_get pr_id (pr_id p) (ps_proposals st) \<noteq> None
      then (Inl (MaInvalidDefinition (''dynamic-agent proposal '' @ quoted (pr_id p) @ '' already exists'')), st)
      else if list_ex (\<lambda>x. pr_agent_id x = pr_agent_id p \<and> pr_current_version x = pr_current_version p
          \<and> proposal_open (pr_status x)) (ps_proposals st)
      then (Inl (MaInvalidDefinition (''an open proposal already exists for '' @
          quoted (pr_agent_id p @ ''@'' @ show_nat (pr_current_version p)))), st)
      else commit_proposal cd ao p st)"

definition proposal_update :: "proposal_event log_codec \<Rightarrow> append_outcome \<Rightarrow> evolution_proposal \<Rightarrow> proposal_store \<Rightarrow>
    (multi_agent_error + evolution_proposal) \<times> proposal_store" where
  "proposal_update cd ao p st = (case keyed_get pr_id (pr_id p) (ps_proposals st) of
      None \<Rightarrow> (Inl (MaNotFound (pr_id p)), st)
    | Some old \<Rightarrow> commit_proposal cd ao (p\<lparr>pr_revision := next_agent_version (pr_revision old)\<rparr>) st)"

definition proposal_list :: "proposal_store \<Rightarrow> evolution_proposal list" where
  "proposal_list st = sort_key pr_created_at (ps_proposals st)"

text \<open>\<open>max_by_key\<close> gives the last of the largest.\<close>

definition max_last :: "('a \<Rightarrow> nat) \<Rightarrow> 'a list \<Rightarrow> 'a option" where
  "max_last f xs = fold (\<lambda>x m. case m of None \<Rightarrow> Some x | Some y \<Rightarrow> if f x < f y then m else Some x) xs None"

definition find_for_version :: "string \<Rightarrow> nat \<Rightarrow> proposal_store \<Rightarrow> evolution_proposal option" where
  "find_for_version i v st = max_last pr_revision
     (filter (\<lambda>p. pr_agent_id p = i \<and> pr_current_version p = v) (ps_proposals st))"

section \<open>The service\<close>

record agent_service =
  sv_agents :: agent_store
  sv_proposals :: proposal_store
  sv_registry :: agent_registry

datatype agent_service_error = AseStore string | AseRegistry multi_agent_error | AseOperation string

text \<open>What the live registry holds of a dynamic agent; a \<open>u64\<close> always fits a \<open>usize\<close>.\<close>

definition runtime_definition :: "dynamic_agent \<Rightarrow> agent_definition" where
  "runtime_definition a = (let e = da_effective a; d = da_definition a in
     d\<lparr>ad_trust_tier := TierDynamic,
       ad_allowed_tools := filter (\<lambda>t. t \<in> set (ep_tools_allowed e)) (ad_allowed_tools d),
       ad_max_iterations := ep_max_iterations e, ad_max_tool_calls := ep_max_tool_calls e,
       ad_max_completion_tokens := (if ep_max_tokens e \<noteq> u64_max then Some (ep_max_tokens e) else ad_max_completion_tokens d)\<rparr>)"

fun register_all :: "dynamic_agent list \<Rightarrow> agent_registry \<Rightarrow> multi_agent_error + agent_registry" where
  "register_all [] r = Inr r"
| "register_all (a # as) r = (case register_dynamic (runtime_definition a) r of
      (Inl e, r') \<Rightarrow> Inl e | (Inr _, r') \<Rightarrow> register_all as r')"

definition service_open :: "agent_event log_codec \<Rightarrow> proposal_event log_codec \<Rightarrow> bool \<Rightarrow> bool \<Rightarrow> string \<Rightarrow> string \<Rightarrow> agent_registry \<Rightarrow>
    agent_service_error + agent_service" where
  "service_open cd pcd fail1 fail2 f pf r = (case open_agents cd fail1 f of
      Inl e \<Rightarrow> Inl (AseStore (show_agent_error e))
    | Inr st \<Rightarrow> (case open_proposals pcd fail2 pf of
        Inl e \<Rightarrow> Inl (AseStore (show_agent_error e))
      | Inr ps \<Rightarrow> (case register_all (store_list_active st) r of
          Inl e \<Rightarrow> Inl (AseRegistry e)
        | Inr r' \<Rightarrow> Inr \<lparr>sv_agents = st, sv_proposals = ps, sv_registry = r'\<rparr>)))"

definition result_agent :: "meta_result \<Rightarrow> agent_service_error + dynamic_agent" where
  "result_agent m = (if mt_success m then (case mt_agent m of
      None \<Rightarrow> Inl (AseOperation ''dynamic-agent operation succeeded without returning a definition'') | Some a \<Rightarrow> Inr a)
    else Inl (AseOperation (mt_message m)))"

definition service_create_agent :: "agent_event log_codec \<Rightarrow> append_outcome \<Rightarrow> append_outcome \<Rightarrow> string \<Rightarrow> agent_create_params \<Rightarrow>
    string \<Rightarrow> creator_snapshot \<Rightarrow> agent_service \<Rightarrow> (agent_service_error + dynamic_agent) \<times> agent_service" where
  "service_create_agent cd ao ao2 now p creator c sv =
     (case agent_create (store_create cd ao) now p creator c (sv_agents sv) of (m, st) \<Rightarrow>
      (case result_agent m of
         Inl e \<Rightarrow> (Inl e, sv\<lparr>sv_agents := st\<rparr>)
       | Inr a \<Rightarrow> (case register_dynamic (runtime_definition a) (sv_registry sv) of
           (Inl e, r) \<Rightarrow> (Inl (AseRegistry e), sv\<lparr>sv_agents := snd (store_deactivate cd ao2 now (da_id a)
             ''runtime registry synchronization failed during creation'' st), sv_registry := r\<rparr>)
         | (Inr _, r) \<Rightarrow> (Inr a, sv\<lparr>sv_agents := st, sv_registry := r\<rparr>))))"

definition service_update_agent :: "agent_event log_codec \<Rightarrow> append_outcome \<Rightarrow> agent_update_params \<Rightarrow> agent_service \<Rightarrow>
    (agent_service_error + dynamic_agent) \<times> agent_service" where
  "service_update_agent cd ao p sv =
     (if au_description p = None \<and> au_mode p = None \<and> au_allowed_tools p = None \<and> au_system_prompt p = None
      then (Inl (AseOperation ''dynamic-agent update contains no changes''), sv)
      else (case agent_update (\<lambda>i st. find_agent i (st_agents st)) (store_update_agent cd ao) p (sv_agents sv) of (m, st) \<Rightarrow>
      (case result_agent m of
         Inl e \<Rightarrow> (Inl e, sv\<lparr>sv_agents := st\<rparr>)
       | Inr a \<Rightarrow> (case register_or_override (runtime_definition a) (sv_registry sv) of
           (Inl e, r) \<Rightarrow> (Inl (AseRegistry e), sv\<lparr>sv_agents := st, sv_registry := r\<rparr>)
         | (Inr _, r) \<Rightarrow> (Inr a, sv\<lparr>sv_agents := st, sv_registry := r\<rparr>)))))"

definition service_deactivate_agent :: "agent_event log_codec \<Rightarrow> append_outcome \<Rightarrow> string \<Rightarrow> string \<Rightarrow> string \<Rightarrow> agent_service \<Rightarrow>
    (agent_service_error + unit) \<times> agent_service" where
  "service_deactivate_agent cd ao now i reason sv =
     (if str_trim reason = [] then (Inl (AseOperation ''dynamic-agent deactivation reason must not be blank''), sv)
      else (case agent_deactivate (store_deactivate cd ao now) i reason (sv_agents sv) of (m, st) \<Rightarrow>
        if \<not> mt_success m then (Inl (AseOperation (mt_message m)), sv\<lparr>sv_agents := st\<rparr>)
        else (case unregister i (sv_registry sv) of
            (Inr _, r) \<Rightarrow> (Inr (), sv\<lparr>sv_agents := st, sv_registry := r\<rparr>)
          | (Inl (MaNotFound _), r) \<Rightarrow> (Inr (), sv\<lparr>sv_agents := st, sv_registry := r\<rparr>)
          | (Inl e, r) \<Rightarrow> (Inl (AseRegistry e), sv\<lparr>sv_agents := st, sv_registry := r\<rparr>))))"

record regression_finding =
  rf_agent_id :: string
  rf_current_version :: nat
  rf_baseline_version :: nat
  rf_evidence :: regression_evidence

text \<open>The identifiers of new proposals and the outcomes of their appends come one for each finding.\<close>

fun propose_regressions :: "proposal_event log_codec \<Rightarrow> string \<Rightarrow> (regression_finding \<times> string \<times> append_outcome) list \<Rightarrow>
    agent_service \<Rightarrow> (agent_service_error + evolution_proposal list) \<times> agent_service" where
  "propose_regressions pcd now [] sv = (Inr [], sv)"
| "propose_regressions pcd now ((f, uuid, ao) # fs) sv = (case find_agent (rf_agent_id f) (st_agents (sv_agents sv)) of
      None \<Rightarrow> propose_regressions pcd now fs sv
    | Some cur \<Rightarrow> if da_version cur \<noteq> rf_current_version f then propose_regressions pcd now fs sv
        else (case find_for_version (rf_agent_id f) (rf_current_version f) (sv_proposals sv) of
            Some p \<Rightarrow> (case propose_regressions pcd now fs sv of (Inl e, sv') \<Rightarrow> (Inl e, sv') | (Inr ps, sv') \<Rightarrow> (Inr (p # ps), sv'))
          | None \<Rightarrow> (case proposal_create pcd ao (new_regression now uuid (rf_agent_id f) (rf_current_version f)
                (rf_baseline_version f) (rf_evidence f)) (sv_proposals sv) of
              (Inl e, ps') \<Rightarrow> (Inl (AseStore (show_agent_error e)), sv\<lparr>sv_proposals := ps'\<rparr>)
            | (Inr p, ps') \<Rightarrow> (case propose_regressions pcd now fs (sv\<lparr>sv_proposals := ps'\<rparr>) of
                (Inl e, sv') \<Rightarrow> (Inl e, sv') | (Inr ps, sv') \<Rightarrow> (Inr (p # ps), sv')))))"

definition not_found_error :: "string \<Rightarrow> string \<Rightarrow> agent_service_error" where
  "not_found_error what i = AseOperation (what @ quoted i @ '' not found'')"

definition stale_message :: "evolution_proposal \<Rightarrow> dynamic_agent \<Rightarrow> string" where
  "stale_message p cur = ''proposal is stale: expected version '' @ show_nat (pr_current_version p) @ '', found '' @ show_nat (da_version cur)"

fun show_proposal_status :: "proposal_status \<Rightarrow> string" where
  "show_proposal_status PsPending = ''Pending''"
| "show_proposal_status PsApproved = ''Approved''"
| "show_proposal_status PsRejected = ''Rejected''"
| "show_proposal_status PsDeferred = ''Deferred''"
| "show_proposal_status PsApplied = ''Applied''"
| "show_proposal_status PsFailed = ''Failed''"

definition invalid_transition :: "evolution_proposal \<Rightarrow> string \<Rightarrow> agent_service_error" where
  "invalid_transition p action = AseOperation (''cannot '' @ action @ '' dynamic-agent proposal '' @ quoted (pr_id p) @
     '' in status '' @ show_proposal_status (pr_status p))"

definition candidate_params :: "string \<Rightarrow> candidate_definition \<Rightarrow> agent_update_params" where
  "candidate_params i c = \<lparr>au_id = i, au_description = Some (cd_description c), au_mode = Some (cd_mode c),
     au_allowed_tools = Some (cd_allowed_tools c), au_system_prompt = Some (cd_system_prompt c)\<rparr>"

definition validate_candidate :: "dynamic_agent \<Rightarrow> candidate_definition \<Rightarrow> agent_service_error + unit" where
  "validate_candidate cur c = (let d = da_definition cur in
     if str_trim (cd_description c) = [] \<or> str_trim (cd_system_prompt c) = [] \<or> str_trim (cd_rationale c) = []
     then Inl (AseOperation ''dynamic-agent candidate fields must not be blank'')
     else if ad_description d = cd_description c \<and> ad_mode d = cd_mode c \<and> ad_allowed_tools d = cd_allowed_tools c
         \<and> ad_system_prompt d = cd_system_prompt c
     then Inl (AseOperation ''dynamic-agent candidate contains no definition changes'')
     else (case validate_definition (changed_agent (candidate_params (da_id cur) c) cur) of
         Inl e \<Rightarrow> Inl (AseOperation (''invalid dynamic-agent candidate: '' @ show_validation_error e)) | Inr _ \<Rightarrow> Inr ()))"

definition update_proposal :: "proposal_event log_codec \<Rightarrow> append_outcome \<Rightarrow> evolution_proposal \<Rightarrow> agent_service \<Rightarrow>
    (agent_service_error + evolution_proposal) \<times> agent_service" where
  "update_proposal pcd ao p sv = (case proposal_update pcd ao p (sv_proposals sv) of
      (Inl e, ps) \<Rightarrow> (Inl (AseStore (show_agent_error e)), sv\<lparr>sv_proposals := ps\<rparr>)
    | (Inr q, ps) \<Rightarrow> (Inr q, sv\<lparr>sv_proposals := ps\<rparr>))"

definition attach_candidate :: "proposal_event log_codec \<Rightarrow> append_outcome \<Rightarrow> string \<Rightarrow> candidate_definition \<Rightarrow> agent_service \<Rightarrow>
    (agent_service_error + evolution_proposal) \<times> agent_service" where
  "attach_candidate pcd ao i c sv = (case keyed_get pr_id i (ps_proposals (sv_proposals sv)) of
      None \<Rightarrow> (Inl (not_found_error ''dynamic-agent proposal '' i), sv)
    | Some p \<Rightarrow> if pr_status p \<noteq> PsPending \<and> pr_status p \<noteq> PsDeferred then (Inl (invalid_transition p ''refine''), sv)
      else (case find_agent (pr_agent_id p) (st_agents (sv_agents sv)) of
          None \<Rightarrow> (Inl (not_found_error ''dynamic agent '' (pr_agent_id p)), sv)
        | Some cur \<Rightarrow> if da_version cur \<noteq> pr_current_version p then (Inl (AseOperation (stale_message p cur)), sv)
          else (case validate_candidate cur c of
              Inl e \<Rightarrow> (Inl e, sv)
            | Inr _ \<Rightarrow> update_proposal pcd ao (p\<lparr>pr_change := PcCandidate c, pr_status := PsPending,
                pr_decision_reason := None, pr_failure_message := None\<rparr>) sv)))"

definition fail_proposal :: "proposal_event log_codec \<Rightarrow> append_outcome \<Rightarrow> evolution_proposal \<Rightarrow> string \<Rightarrow> agent_service \<Rightarrow>
    (agent_service_error + evolution_proposal) \<times> agent_service" where
  "fail_proposal pcd ao p msg sv =
     (Inl (AseOperation (''failed to apply dynamic-agent proposal: '' @ msg)),
      snd (update_proposal pcd ao (p\<lparr>pr_status := PsFailed, pr_failure_message := Some msg\<rparr>) sv))"

definition apply_change :: "agent_event log_codec \<Rightarrow> bool \<Rightarrow> append_outcome \<Rightarrow> evolution_proposal \<Rightarrow> agent_service \<Rightarrow>
    (string + dynamic_agent) \<times> agent_service" where
  "apply_change cd fail ao p sv = (case pr_change p of
      PcRollback v \<Rightarrow> (case rollback_agent cd fail ao (pr_agent_id p) v (sv_agents sv) of
          (Inl e, st) \<Rightarrow> (Inl (show_agent_error e), sv\<lparr>sv_agents := st\<rparr>)
        | (Inr a, st) \<Rightarrow> (Inr a, sv\<lparr>sv_agents := st\<rparr>))
    | PcCandidate c \<Rightarrow> (case agent_update (\<lambda>i st. find_agent i (st_agents st)) (store_update_agent cd ao)
            (candidate_params (pr_agent_id p) c) (sv_agents sv) of
          (m, st) \<Rightarrow> if mt_success m then (case mt_agent m of
              None \<Rightarrow> (Inl ''dynamic-agent operation succeeded without returning a definition'', sv\<lparr>sv_agents := st\<rparr>)
            | Some a \<Rightarrow> (Inr a, sv\<lparr>sv_agents := st\<rparr>))
            else (Inl (mt_message m), sv\<lparr>sv_agents := st\<rparr>)))"

definition apply_approved_proposal :: "agent_event log_codec \<Rightarrow> proposal_event log_codec \<Rightarrow> bool \<Rightarrow> append_outcome \<Rightarrow> append_outcome \<Rightarrow>
    evolution_proposal \<Rightarrow> agent_service \<Rightarrow> (agent_service_error + evolution_proposal) \<times> agent_service" where
  "apply_approved_proposal cd pcd fail ao ao2 p sv = (case find_agent (pr_agent_id p) (st_agents (sv_agents sv)) of
      None \<Rightarrow> fail_proposal pcd ao2 p ''active agent definition not found'' sv
    | Some cur \<Rightarrow> if da_version cur \<noteq> pr_current_version p then fail_proposal pcd ao2 p (stale_message p cur) sv
      else (case apply_change cd fail ao p sv of
          (Inl msg, sv1) \<Rightarrow> fail_proposal pcd ao2 p msg sv1
        | (Inr a, sv1) \<Rightarrow> (case register_or_override (runtime_definition a) (sv_registry sv1) of
            (Inl e, r) \<Rightarrow> (Inl (AseRegistry e), sv1\<lparr>sv_registry := r\<rparr>)
          | (Inr _, r) \<Rightarrow> update_proposal pcd ao2 (p\<lparr>pr_status := PsApplied, pr_applied_version := Some (da_version a),
              pr_failure_message := None\<rparr>) (sv1\<lparr>sv_registry := r\<rparr>))))"

datatype proposal_decision = DecApprove | DecReject | DecDefer

text \<open>The outcomes are those of the append that records the decision, of the change of the agent
  and of the append that records the result.\<close>

definition decide_proposal :: "agent_event log_codec \<Rightarrow> proposal_event log_codec \<Rightarrow> bool \<Rightarrow> append_outcome \<Rightarrow> append_outcome \<Rightarrow> append_outcome \<Rightarrow>
    string \<Rightarrow> string \<Rightarrow> proposal_decision \<Rightarrow> string option \<Rightarrow> agent_service \<Rightarrow> (agent_service_error + evolution_proposal) \<times> agent_service" where
  "decide_proposal cd pcd fail ao1 ao ao2 now i dec reason sv =
     (if (case reason of None \<Rightarrow> False | Some x \<Rightarrow> str_trim x = [])
      then (Inl (AseOperation ''dynamic-agent proposal decision reason must not be blank''), sv)
      else (case keyed_get pr_id i (ps_proposals (sv_proposals sv)) of
        None \<Rightarrow> (Inl (not_found_error ''dynamic-agent proposal '' i), sv)
      | Some p \<Rightarrow> (case dec of
          DecApprove \<Rightarrow>
            if \<not> proposal_open (pr_status p) then (Inl (invalid_transition p ''approve''), sv)
            else if pr_status p \<noteq> PsApproved then
              (case update_proposal pcd ao1 (p\<lparr>pr_status := PsApproved, pr_decided_at := Some now, pr_decision_reason := reason\<rparr>) sv of
                 (Inl e, sv1) \<Rightarrow> (Inl e, sv1)
               | (Inr q, sv1) \<Rightarrow> apply_approved_proposal cd pcd fail ao ao2 q sv1)
            else apply_approved_proposal cd pcd fail ao ao2 p sv
        | DecReject \<Rightarrow>
            if pr_status p \<noteq> PsPending \<and> pr_status p \<noteq> PsDeferred then (Inl (invalid_transition p ''reject''), sv)
            else update_proposal pcd ao1 (p\<lparr>pr_status := PsRejected, pr_decided_at := Some now, pr_decision_reason := reason\<rparr>) sv
        | DecDefer \<Rightarrow>
            if pr_status p \<noteq> PsPending then (Inl (invalid_transition p ''defer''), sv)
            else update_proposal pcd ao1 (p\<lparr>pr_status := PsDeferred, pr_decision_reason := reason\<rparr>) sv)))"

section \<open>Creators\<close>

text \<open>What an execution tells about its agent; \<open>None\<close> is the tier of a chat.\<close>

record creator_config =
  cf_agent_name :: string
  cf_trust_tier :: "trust_tier option"
  cf_agent_allowed_tools :: "string list"
  cf_tool_names :: "string list"
  cf_max_iterations :: nat
  cf_max_tool_calls :: nat
  cf_max_tokens :: "nat option"

text \<open>\<open>sort\<close> and \<open>dedup\<close>.\<close>

definition execution_tool_names :: "creator_config \<Rightarrow> string list" where
  "execution_tool_names cf = remdups_adj (sort (if cf_trust_tier cf \<noteq> None then cf_agent_allowed_tools cf else cf_tool_names cf))"

definition creator_permission_snapshot :: "nat \<Rightarrow> creator_config \<Rightarrow> agent_service \<Rightarrow> string + creator_snapshot" where
  "creator_permission_snapshot max_depth cf sv = (let cur = execution_tool_names cf in
     if cf_trust_tier cf = Some TierDynamic then
       (case find_agent (cf_agent_name cf) (st_agents (sv_agents sv)) of
          None \<Rightarrow> Inl (''dynamic creator '' @ quoted (cf_agent_name cf) @ '' is missing from the durable agent store'')
        | Some a \<Rightarrow> (let e = da_effective a in
            Inr \<lparr>cs_tools_allowed = filter (\<lambda>t. t \<in> set cur) (ep_tools_allowed e),
              cs_max_iterations = min (ep_max_iterations e) (to_u32 (cf_max_iterations cf)),
              cs_max_tool_calls = min (ep_max_tool_calls e) (to_u32 (cf_max_tool_calls cf)),
              cs_max_tokens = min (ep_max_tokens e) (case cf_max_tokens cf of None \<Rightarrow> u64_max | Some t \<Rightarrow> t),
              cs_delegation_depth = ep_delegation_depth e\<rparr>))
     else Inr \<lparr>cs_tools_allowed = cur, cs_max_iterations = to_u32 (cf_max_iterations cf),
       cs_max_tool_calls = to_u32 (cf_max_tool_calls cf), cs_max_tokens = (case cf_max_tokens cf of None \<Rightarrow> u64_max | Some t \<Rightarrow> t),
       cs_delegation_depth = to_u32 max_depth\<rparr>)"

text \<open>\<open>AgentCreate\<close>.\<close>

definition create_tool :: "agent_event log_codec \<Rightarrow> append_outcome \<Rightarrow> append_outcome \<Rightarrow> string \<Rightarrow> nat \<Rightarrow> creator_config \<Rightarrow>
    agent_create_params \<Rightarrow> agent_service \<Rightarrow> (string + (agent_service_error + dynamic_agent)) \<times> agent_service" where
  "create_tool cd ao ao2 now max_depth cf p sv = (case creator_permission_snapshot max_depth cf sv of
      Inl e \<Rightarrow> (Inl e, sv)
    | Inr c \<Rightarrow> (case service_create_agent cd ao ao2 now p (cf_agent_name cf) c sv of (r, sv') \<Rightarrow> (Inr r, sv')))"

text \<open>\<open>filter_tool_definitions\<close>: whether a run of an agent may use a registered tool.\<close>

definition tool_permitted :: "string list \<Rightarrow> string \<Rightarrow> bool" where
  "tool_permitted allowed name = (allowed \<noteq> [] \<and> (''*'' \<in> set allowed \<or> name \<in> set allowed))"

end
