(* ===== verification/DynamicAgentsCorrect.thy ===== *)
theory DynamicAgentsCorrect
  imports DynamicAgentService
begin

text \<open>
  What agents created by agents may do, whatever happens to them and to the file that keeps them,
  what a restart brings back, and what deactivation is worth.
\<close>

section \<open>Validated agents\<close>

lemma agent_validated:
  assumes "validate_definition a = Inr ()"
  shows "set (ad_allowed_tools (da_definition a)) \<subseteq> set (ep_tools_allowed (da_effective a))"
    and "ad_trust_tier (da_definition a) = TierDynamic \<Longrightarrow> set (ad_allowed_tools (da_definition a)) \<inter> set dangerous_tools = {}"
    and "is_dynamic_source (da_source a) \<Longrightarrow> 0 < da_delegation_depth a"
proof -
  have valid: "List.find (\<lambda>t. t \<notin> set (ep_tools_allowed (da_effective a))) (ad_allowed_tools (da_definition a)) = None"
    "\<not> (list_ex (\<lambda>t. t \<in> set dangerous_tools) (ad_allowed_tools (da_definition a)) \<and> ad_trust_tier (da_definition a) < TierUserDefined)"
    "\<not> (da_delegation_depth a = 0 \<and> is_dynamic_source (da_source a))"
    using assms by (auto simp: validate_definition_def Let_def split: if_splits option.splits)
  show "set (ad_allowed_tools (da_definition a)) \<subseteq> set (ep_tools_allowed (da_effective a))"
    using valid(1) by (auto simp: find_is_none)
  show "ad_trust_tier (da_definition a) = TierDynamic \<Longrightarrow> set (ad_allowed_tools (da_definition a)) \<inter> set dangerous_tools = {}"
    using valid(2) by (auto simp: list_ex_iff less_trust_tier_def)
  show "is_dynamic_source (da_source a) \<Longrightarrow> 0 < da_delegation_depth a" using valid(3) by auto
qed

lemma validate_same:
  assumes "da_definition b = da_definition a" "da_effective b = da_effective a" "da_delegation_depth b = da_delegation_depth a"
    "da_source b = da_source a" "da_created_by b = da_created_by a"
  shows "validate_definition b = validate_definition a"
  by (simp only: validate_definition_def assms)

lemma unit_case [simp]: "(x :: unit) = ()"
  by simp

section \<open>What an agent may do\<close>

text \<open>An agent is granted tools of a set if it was validated, is of the dynamic tier and has its
  effective tools in the set.\<close>

definition granted :: "string set \<Rightarrow> dynamic_agent \<Rightarrow> bool" where
  "granted R a = (validate_definition a = Inr () \<and> ad_trust_tier (da_definition a) = TierDynamic
     \<and> set (ep_tools_allowed (da_effective a)) \<subseteq> R)"

definition confined :: "string set \<Rightarrow> agent_definition \<Rightarrow> bool" where
  "confined R d = (set (ad_allowed_tools d) \<subseteq> R - set dangerous_tools)"

lemma granted_same:
  assumes "granted R a" "da_definition b = da_definition a" "da_effective b = da_effective a"
    "da_delegation_depth b = da_delegation_depth a" "da_source b = da_source a" "da_created_by b = da_created_by a"
  shows "granted R b"
  using assms validate_same [OF assms(2-6)] by (simp add: granted_def)

lemma granted_deactivated: "granted R a \<Longrightarrow> granted R (deactivated now reason a)"
  by (rule granted_same) (simp_all add: deactivated_def)

lemma granted_new:
  assumes "set (cs_tools_allowed c) \<subseteq> R" "validate_definition (new_agent now p creator c) = Inr ()"
  shows "granted R (new_agent now p creator c)"
  using assms by (auto simp: granted_def new_agent_def make_dynamic_agent_def compute_permissions_def Let_def)

lemma granted_changed:
  assumes "granted R a" "validate_definition (changed_agent p a) = Inr ()"
  shows "granted R (changed_agent p a)"
  using assms by (auto simp: granted_def changed_agent_def Let_def split: option.splits)

lemma confined_runtime: "granted R a \<Longrightarrow> confined R (runtime_definition a)"
  using agent_validated [of a] by (auto simp: granted_def confined_def runtime_definition_def Let_def)

section \<open>The store\<close>

definition store_granted :: "agent_event log_codec \<Rightarrow> string set \<Rightarrow> agent_store \<Rightarrow> bool" where
  "store_granted cd R st = (list_all (granted R) (st_agents st) \<and> readable cd (\<lambda>e. granted R (ev_agent e)) (st_file st))"

lemma find_granted: "list_all (granted R) m \<Longrightarrow> find_agent i m = Some a \<Longrightarrow> granted R a"
  using keyed_get_key [of da_id i m a] by (auto simp: find_agent_def list_all_iff)

lemma put_granted: "list_all (granted R) m \<Longrightarrow> granted R a \<Longrightarrow> list_all (granted R) (put_agent a m)"
  using set_keyed_put [of da_id a m] by (auto simp: put_agent_def list_all_iff)

lemma commit_granted:
  assumes "codec_ok cd" "torn_unreadable cd" "store_granted cd R st" "granted R a" "commit_agent cd ao a st = (res, st')"
  shows "store_granted cd R st'" "res = Inr b \<Longrightarrow> b = a"
proof -
  let ?e = "\<lparr>ev_schema_version = agent_schema_version, ev_agent = a\<rparr>"
  obtain b f where app: "append_agent cd ao a (st_file st) = (b, f)" by fastforce
  have "readable cd (\<lambda>e. granted R (ev_agent e)) f"
    using readable_append [OF assms(1,2), of "\<lambda>e. granted R (ev_agent e)" "st_file st" ?e ao] assms(3,4) app
    by (simp add: append_agent_def store_granted_def)
  then show "store_granted cd R st'"
    using assms(3-5) app put_granted [of R "st_agents st" a]
    by (auto simp: commit_agent_def store_granted_def split: bool.splits)
  show "res = Inr b \<Longrightarrow> b = a" for b using assms(5) app by (auto simp: commit_agent_def split: bool.splits)
qed

lemma create_granted:
  assumes "codec_ok cd" "torn_unreadable cd" "store_granted cd R st" "set (cs_tools_allowed c) \<subseteq> R"
    and "agent_create (store_create cd ao) now p creator c st = (m, st')"
  shows "store_granted cd R st'" "mt_agent m = Some a \<Longrightarrow> granted R a"
proof -
  let ?a = "new_agent now p creator c"
  have "store_granted cd R st' \<and> (\<forall>a. mt_agent m = Some a \<longrightarrow> granted R a)"
  proof (cases "validate_definition ?a = Inr () \<and> find_agent (da_id ?a) (st_agents st) = None")
    case True
    obtain res st1 where c: "commit_agent cd ao ?a st = (res, st1)" by fastforce
    have "granted R ?a" using granted_new [OF assms(4)] True by blast
    note commit = commit_granted [OF assms(1-3) this c]
    show ?thesis using assms(5) True c commit \<open>granted R ?a\<close>
      by (auto simp: agent_create_def store_create_def meta_success_def meta_error_def split: sum.splits)
  next
    case False
    then show ?thesis using assms(3,5)
      by (auto simp: agent_create_def store_create_def meta_error_def split: sum.splits if_splits)
  qed
  then show "store_granted cd R st'" "mt_agent m = Some a \<Longrightarrow> granted R a" by blast+
qed

lemma update_granted:
  assumes "codec_ok cd" "torn_unreadable cd" "store_granted cd R st"
    and "agent_update (\<lambda>i st. find_agent i (st_agents st)) (store_update_agent cd ao) p st = (m, st')"
  shows "store_granted cd R st'" "mt_agent m = Some a \<Longrightarrow> granted R a"
proof -
  have "store_granted cd R st' \<and> (\<forall>a. mt_agent m = Some a \<longrightarrow> granted R a)"
  proof (cases "find_agent (au_id p) (st_agents st)")
    case None
    then show ?thesis using assms(3,4) by (auto simp: agent_update_def meta_error_def)
  next
    case (Some a)
    let ?c = "changed_agent p a"
    show ?thesis
    proof (cases "validate_definition ?c = Inr () \<and> find_agent (da_id ?c) (st_agents st) \<noteq> None")
      case True
      then obtain old where old: "find_agent (da_id ?c) (st_agents st) = Some old" by blast
      let ?n = "?c\<lparr>da_version := next_agent_version (da_version old)\<rparr>"
      have "granted R a" using find_granted [OF _ Some] assms(3) by (simp add: store_granted_def)
      then have "granted R ?c" using granted_changed True by blast
      then have n: "granted R ?n" by (rule granted_same) simp_all
      obtain res st1 where c: "commit_agent cd ao ?n st = (res, st1)" by fastforce
      note commit = commit_granted [OF assms(1-3) n c]
      show ?thesis using assms(4) Some True old c commit n
        by (auto simp: agent_update_def store_update_agent_def meta_success_def meta_error_def split: sum.splits)
    next
      case False
      then show ?thesis using assms(3,4) Some
        by (auto simp: agent_update_def store_update_agent_def meta_error_def split: sum.splits option.splits)
    qed
  qed
  then show "store_granted cd R st'" "mt_agent m = Some a \<Longrightarrow> granted R a" by blast+
qed

lemma deactivate_granted:
  assumes "codec_ok cd" "torn_unreadable cd" "store_granted cd R st" "store_deactivate cd ao now i reason st = (res, st')"
  shows "store_granted cd R st'"
proof (cases "find_agent i (st_agents st)")
  case None
  then show ?thesis using assms(3,4) by (simp add: store_deactivate_def)
next
  case (Some a)
  have g: "granted R (deactivated now reason a)"
    using find_granted [OF _ Some] assms(3) granted_deactivated by (simp add: store_granted_def)
  obtain r st1 where c: "commit_agent cd ao (deactivated now reason a) st = (r, st1)" by fastforce
  have "st' = st1" using assms(4) Some c by (auto simp: store_deactivate_def split: sum.splits)
  then show ?thesis using commit_granted(1) [OF assms(1-3) g c] by simp
qed

lemma latest_granted: "list_all (\<lambda>e. granted R (ev_agent e)) es \<Longrightarrow> (\<And>a. found = Some a \<Longrightarrow> granted R a) \<Longrightarrow>
    latest_snapshot i v es found = Some a \<Longrightarrow> granted R a"
  by (induction es arbitrary: found) (auto split: if_splits)

lemma rollback_granted:
  assumes "codec_ok cd" "torn_unreadable cd" "store_granted cd R st" "rollback_agent cd fail ao i v st = (res, st')"
  shows "store_granted cd R st'" "res = Inr b \<Longrightarrow> granted R b"
proof -
  have "store_granted cd R st' \<and> (\<forall>b. res = Inr b \<longrightarrow> granted R b)"
  proof (cases "\<exists>cur old. find_agent i (st_agents st) = Some cur \<and> v < da_version cur \<and> get_version cd fail i v st = Inr (Some old)")
    case True
    then obtain cur old where cur: "find_agent i (st_agents st) = Some cur" "v < da_version cur"
      and old: "get_version cd fail i v st = Inr (Some old)" by blast
    let ?r = "old\<lparr>da_version := next_agent_version (da_version cur), da_status := StActive, da_deactivated_at := None, da_deactivation_reason := None\<rparr>"
    obtain es where "decode_all cd (log_records (st_file st)) = Some es" "latest_snapshot i v es None = Some old"
      using old by (auto simp: get_version_def split: if_splits option.splits)
    then have "granted R old" using assms(3) latest_granted [of R es None]
      by (auto simp: store_granted_def readable_def)
    then have r: "granted R ?r" by (rule granted_same) simp_all
    then have valid: "validate_definition ?r = Inr ()" by (simp add: granted_def)
    obtain r1 st1 where c: "commit_agent cd ao ?r st = (r1, st1)" by fastforce
    have "res = r1 \<and> st' = st1" using assms(4) cur old valid c by (simp add: rollback_agent_def Let_def)
    then show ?thesis using commit_granted [OF assms(1-3) r c] r by blast
  next
    case False
    then have "st' = st \<and> (\<forall>b. res \<noteq> Inr b)" using assms(4)
      by (auto simp: rollback_agent_def split: option.splits sum.splits if_splits)
    then show ?thesis using assms(3) by blast
  qed
  then show "store_granted cd R st'" "res = Inr b \<Longrightarrow> granted R b" by blast+
qed

lemma replay_granted:
  assumes "replay_agents cd ls m = Inr m'" "list_all (granted R) m"
    and "\<And>es. decode_all cd ls = Some es \<Longrightarrow> list_all (\<lambda>e. granted R (ev_agent e)) es"
  shows "list_all (granted R) m'"
proof -
  have "\<exists>es. decode_all cd ls = Some es" using assms(1)
    by (induction ls arbitrary: m) (auto split: option.splits if_splits sum.splits)
  then obtain es where es: "decode_all cd ls = Some es" by blast
  have "list_all (\<lambda>e. granted R (ev_agent e)) es" using assms(3) es .
  with assms(1,2) es show ?thesis
  proof (induction ls arbitrary: m es)
    case (Cons l ls)
    obtain e es' where e: "lc_decode cd l = Some e" "decode_all cd ls = Some es'" "es = e # es'"
      using Cons.prems(3) by (auto split: option.splits)
    have "replay_agents cd ls (put_agent (ev_agent e) m) = Inr m'"
      using Cons.prems(1) e(1) by (auto split: if_splits sum.splits)
    moreover have "list_all (granted R) (put_agent (ev_agent e) m)"
      using put_granted Cons.prems(2,4) e(3) by simp
    ultimately show ?case using Cons.IH e(2,3) Cons.prems(4) by simp
  qed simp
qed

section \<open>The service\<close>

definition service_granted :: "agent_event log_codec \<Rightarrow> string set \<Rightarrow> agent_service \<Rightarrow> bool" where
  "service_granted cd R sv = (store_granted cd R (sv_agents sv)
     \<and> (\<forall>d \<in> set (sv_registry sv). ad_trust_tier d = TierDynamic \<longrightarrow> confined R d))"

text \<open>What can happen to the service: creations by agents, of which those outside the dynamic tier
  have their tools in \<open>R\<close>, the other operations, and a restart that opens the files.\<close>

inductive agents_step :: "agent_event log_codec \<Rightarrow> proposal_event log_codec \<Rightarrow> nat \<Rightarrow> string set \<Rightarrow> agent_registry \<Rightarrow>
    agent_service \<Rightarrow> agent_service \<Rightarrow> bool" for cd pcd D R r0 where
  Create: "cf_trust_tier cf \<noteq> Some TierDynamic \<longrightarrow> set (execution_tool_names cf) \<subseteq> R \<Longrightarrow>
    agents_step cd pcd D R r0 sv (snd (create_tool cd ao ao2 now D cf p sv))"
| Update: "agents_step cd pcd D R r0 sv (snd (service_update_agent cd ao up sv))"
| Deactivate: "agents_step cd pcd D R r0 sv (snd (service_deactivate_agent cd ao now i reason sv))"
| Propose: "agents_step cd pcd D R r0 sv (snd (propose_regressions pcd now fs sv))"
| Attach: "agents_step cd pcd D R r0 sv (snd (attach_candidate pcd ao i c sv))"
| Decide: "agents_step cd pcd D R r0 sv (snd (decide_proposal cd pcd fail ao1 ao ao2 now i dec dreason sv))"
| Restart: "service_open cd pcd False False (st_file (sv_agents sv)) (ps_file (sv_proposals sv)) r0 = Inr sv' \<Longrightarrow>
    agents_step cd pcd D R r0 sv sv'"

lemma put_confined:
  assumes "\<forall>d \<in> set r. ad_trust_tier d = TierDynamic \<longrightarrow> confined R d" "confined R d"
  shows "\<forall>x \<in> set (keyed_put ad_id d r). ad_trust_tier x = TierDynamic \<longrightarrow> confined R x"
  using assms set_keyed_put [of ad_id d r] by blast

lemma register_confined:
  assumes "\<forall>d \<in> set r. ad_trust_tier d = TierDynamic \<longrightarrow> confined R d" "confined R d"
  shows "register_dynamic d r = (res, r') \<Longrightarrow> \<forall>x \<in> set r'. ad_trust_tier x = TierDynamic \<longrightarrow> confined R x"
    and "register_or_override d r = (res, r') \<Longrightarrow> \<forall>x \<in> set r'. ad_trust_tier x = TierDynamic \<longrightarrow> confined R x"
  using assms put_confined [OF assms]
  by (auto simp: register_dynamic_def register_agent_def register_or_override_def split: if_splits sum.splits)

lemma service_grantedI:
  assumes "store_granted cd R st" "\<forall>x \<in> set r. ad_trust_tier x = TierDynamic \<longrightarrow> confined R x" "sv_agents sv = st" "sv_registry sv = r"
  shows "service_granted cd R sv"
  using assms by (simp add: service_granted_def)

lemma service_grantedD:
  assumes "service_granted cd R sv"
  shows "store_granted cd R (sv_agents sv)" "\<forall>x \<in> set (sv_registry sv). ad_trust_tier x = TierDynamic \<longrightarrow> confined R x"
  using assms by (simp_all add: service_granted_def)

lemma snapshot_in:
  assumes "service_granted cd R sv" "cf_trust_tier cf \<noteq> Some TierDynamic \<longrightarrow> set (execution_tool_names cf) \<subseteq> R"
    and "creator_permission_snapshot D cf sv = Inr c"
  shows "set (cs_tools_allowed c) \<subseteq> R"
proof (cases "cf_trust_tier cf = Some TierDynamic")
  case True
  then obtain a where "find_agent (cf_agent_name cf) (st_agents (sv_agents sv)) = Some a"
      "set (cs_tools_allowed c) \<subseteq> set (ep_tools_allowed (da_effective a))"
    using assms(3) by (auto simp: creator_permission_snapshot_def Let_def split: option.splits)
  then show ?thesis using find_granted assms(1)
    by (fastforce simp: service_granted_def store_granted_def granted_def)
next
  case False
  then show ?thesis using assms(2,3) by (auto simp: creator_permission_snapshot_def Let_def)
qed

lemma service_create_granted:
  assumes "codec_ok cd" "torn_unreadable cd" "service_granted cd R sv" "set (cs_tools_allowed c) \<subseteq> R"
  shows "service_granted cd R (snd (service_create_agent cd ao ao2 now p creator c sv))"
proof -
  note inv = service_grantedD [OF assms(3)]
  obtain m st where op: "agent_create (store_create cd ao) now p creator c (sv_agents sv) = (m, st)" by fastforce
  note create = create_granted [OF assms(1,2) inv(1) assms(4) op]
  show ?thesis
  proof (cases "result_agent m")
    case (Inl e)
    then show ?thesis using op create(1) inv(2) by (simp add: service_create_agent_def service_granted_def)
  next
    case (Inr a)
    then have "mt_agent m = Some a" by (auto simp: result_agent_def split: if_splits option.splits)
    then have a: "confined R (runtime_definition a)" using create(2) confined_runtime by blast
    obtain rr r where reg: "register_dynamic (runtime_definition a) (sv_registry sv) = (rr, r)" by fastforce
    have r: "\<forall>x \<in> set r. ad_trust_tier x = TierDynamic \<longrightarrow> confined R x" using register_confined(1) [OF inv(2) a reg] .
    obtain dres dst where d: "store_deactivate cd ao2 now (da_id a) ''runtime registry synchronization failed during creation'' st = (dres, dst)"
      by fastforce
    have "store_granted cd R dst" using deactivate_granted [OF assms(1,2) create(1) d] .
    then show ?thesis using op Inr reg r create(1) d
      by (cases rr) (simp_all add: service_create_agent_def service_granted_def)
  qed
qed

lemma service_update_granted:
  assumes "codec_ok cd" "torn_unreadable cd" "service_granted cd R sv"
  shows "service_granted cd R (snd (service_update_agent cd ao p sv))"
proof -
  note inv = service_grantedD [OF assms(3)]
  obtain m st where op: "agent_update (\<lambda>i st. find_agent i (st_agents st)) (store_update_agent cd ao) p (sv_agents sv) = (m, st)" by fastforce
  note update = update_granted [OF assms(1,2) inv(1) op]
  show ?thesis
  proof (cases "result_agent m")
    case (Inl e)
    then show ?thesis using op update(1) inv(2) assms(3) by (simp add: service_update_agent_def service_granted_def)
  next
    case (Inr a)
    then have "mt_agent m = Some a" by (auto simp: result_agent_def split: if_splits option.splits)
    then have a: "confined R (runtime_definition a)" using update(2) confined_runtime by blast
    obtain rr r where reg: "register_or_override (runtime_definition a) (sv_registry sv) = (rr, r)" by fastforce
    have r: "\<forall>x \<in> set r. ad_trust_tier x = TierDynamic \<longrightarrow> confined R x" using register_confined(2) [OF inv(2) a reg] .
    show ?thesis using op Inr reg r update(1) assms(3)
      by (cases rr) (simp_all add: service_update_agent_def service_granted_def)
  qed
qed

lemma unregister_subset: "unregister i r = (res, r') \<Longrightarrow> set r' \<subseteq> set r"
  by (auto simp: unregister_def split: option.splits if_splits)

lemma service_deactivate_granted:
  assumes "codec_ok cd" "torn_unreadable cd" "service_granted cd R sv"
  shows "service_granted cd R (snd (service_deactivate_agent cd ao now i reason sv))"
proof -
  note inv = service_grantedD [OF assms(3)]
  obtain res st where d: "store_deactivate cd ao now i reason (sv_agents sv) = (res, st)" by fastforce
  have st: "store_granted cd R st" using deactivate_granted [OF assms(1,2) inv(1) d] .
  obtain u r where un: "unregister i (sv_registry sv) = (u, r)" by fastforce
  have r: "\<forall>x \<in> set r. ad_trust_tier x = TierDynamic \<longrightarrow> confined R x" using inv(2) unregister_subset [OF un] by blast
  obtain m where m: "agent_deactivate (store_deactivate cd ao now) i reason (sv_agents sv) = (m, st)"
    using d by (cases res) (simp_all add: agent_deactivate_def)
  have "\<exists>q. snd (service_deactivate_agent cd ao now i reason sv) = sv\<lparr>sv_agents := st, sv_registry := q\<rparr> \<and> q \<in> {sv_registry sv, r}
      \<or> snd (service_deactivate_agent cd ao now i reason sv) = sv"
    using m un by (auto simp: service_deactivate_agent_def split: sum.splits multi_agent_error.splits) (metis agent_service.surjective agent_service.update_convs(1,3))+
  then show ?thesis using st r inv assms(3) by (auto simp: service_granted_def)
qed

lemma granted_proposals [simp]: "service_granted cd R (sv\<lparr>sv_proposals := ps\<rparr>) = service_granted cd R sv"
  by (simp add: service_granted_def)

lemma update_proposal_granted [simp]: "service_granted cd R (snd (update_proposal pcd ao p sv)) = service_granted cd R sv"
  by (simp add: update_proposal_def split: prod.split sum.split)

lemma propose_granted: "service_granted cd R (snd (propose_regressions pcd now fs sv)) = service_granted cd R sv"
proof (induction fs arbitrary: sv)
  case (Cons x fs)
  obtain f uuid ao where x: "x = (f, uuid, ao)" by (cases x)
  have keep: "service_granted cd R (snd (case propose_regressions pcd now fs q of (Inl e, sv') \<Rightarrow> (Inl e, sv') | (Inr ps, sv') \<Rightarrow> (Inr (h ps), sv')))
      = service_granted cd R q" for q and h :: "evolution_proposal list \<Rightarrow> evolution_proposal list"
    using Cons.IH [of q] by (auto split: prod.split sum.split)
  show ?case
  proof (cases "find_agent (rf_agent_id f) (st_agents (sv_agents sv))")
    case None
    then show ?thesis using Cons.IH by (simp add: x)
  next
    case (Some cur)
    let ?new = "proposal_create pcd ao (new_regression now uuid (rf_agent_id f) (rf_current_version f)
                (rf_baseline_version f) (rf_evidence f)) (sv_proposals sv)"
    obtain r ps where new: "?new = (r, ps)" by fastforce
    show ?thesis
      by (cases "find_for_version (rf_agent_id f) (rf_current_version f) (sv_proposals sv)"; cases r)
        (simp_all add: x Some new Cons.IH keep)
  qed
qed simp

lemma attach_granted: "service_granted cd R (snd (attach_candidate pcd ao i c sv)) = service_granted cd R sv"
  by (simp add: attach_candidate_def split: option.split sum.split)

lemma apply_change_granted:
  assumes "codec_ok cd" "torn_unreadable cd" "service_granted cd R sv" "apply_change cd fail ao p sv = (res, sv')"
  shows "service_granted cd R sv'" "res = Inr a \<Longrightarrow> granted R a"
proof -
  note inv = service_grantedD [OF assms(3)]
  have "service_granted cd R sv' \<and> (\<forall>a. res = Inr a \<longrightarrow> granted R a)"
  proof (cases "pr_change p")
    case (PcRollback v)
    obtain r st where op: "rollback_agent cd fail ao (pr_agent_id p) v (sv_agents sv) = (r, st)" by fastforce
    note undo = rollback_granted [OF assms(1,2) inv(1) op]
    show ?thesis using assms(4) PcRollback op undo inv(2)
      by (cases r) (auto simp: apply_change_def service_granted_def)
  next
    case (PcCandidate c)
    obtain m st where op: "agent_update (\<lambda>i st. find_agent i (st_agents st)) (store_update_agent cd ao)
        (candidate_params (pr_agent_id p) c) (sv_agents sv) = (m, st)" by fastforce
    note update = update_granted [OF assms(1,2) inv(1) op]
    show ?thesis using assms(4) PcCandidate op update inv(2)
      by (auto simp: apply_change_def service_granted_def split: if_splits option.splits)
  qed
  then show "service_granted cd R sv'" "res = Inr a \<Longrightarrow> granted R a" by blast+
qed

lemma apply_proposal_granted:
  assumes "codec_ok cd" "torn_unreadable cd" "service_granted cd R sv"
  shows "service_granted cd R (snd (apply_approved_proposal cd pcd fail ao ao2 p sv))"
proof (cases "find_agent (pr_agent_id p) (st_agents (sv_agents sv))")
  case None
  then show ?thesis using assms(3) by (simp add: apply_approved_proposal_def fail_proposal_def)
next
  case (Some cur)
  obtain res sv1 where ch: "apply_change cd fail ao p sv = (res, sv1)" by fastforce
  note change = apply_change_granted [OF assms ch]
  show ?thesis
  proof (cases res)
    case (Inl msg)
    then show ?thesis using assms(3) change(1) Some ch
      by (simp add: apply_approved_proposal_def fail_proposal_def)
  next
    case (Inr a)
    have a: "confined R (runtime_definition a)" using change(2) [OF Inr] confined_runtime by blast
    obtain rr r where reg: "register_or_override (runtime_definition a) (sv_registry sv1) = (rr, r)" by fastforce
    have "\<forall>x \<in> set r. ad_trust_tier x = TierDynamic \<longrightarrow> confined R x"
      using register_confined(2) [OF service_grantedD(2) [OF change(1)] a reg] .
    then have sv2: "service_granted cd R (sv1\<lparr>sv_registry := r\<rparr>)" using change(1) by (simp add: service_granted_def)
    show ?thesis using assms(3) Some ch Inr reg sv2
      by (cases rr) (simp_all add: apply_approved_proposal_def fail_proposal_def)
  qed
qed

lemma decide_granted:
  assumes "codec_ok cd" "torn_unreadable cd" "service_granted cd R sv"
  shows "service_granted cd R (snd (decide_proposal cd pcd fail ao1 ao ao2 now i dec reason sv))"
proof (cases "keyed_get pr_id i (ps_proposals (sv_proposals sv))")
  case None
  then show ?thesis using assms(3) by (simp add: decide_proposal_def)
next
  case (Some p)
  let ?q = "p\<lparr>pr_status := PsApproved, pr_decided_at := Some now, pr_decision_reason := reason\<rparr>"
  obtain res sv1 where up: "update_proposal pcd ao1 ?q sv = (res, sv1)" by fastforce
  have "service_granted cd R sv1" using update_proposal_granted [of cd R pcd ao1 ?q sv] up assms(3) by simp
  then have approved: "service_granted cd R (snd (apply_approved_proposal cd pcd fail ao ao2 x sv1))" for x
    by (rule apply_proposal_granted [OF assms(1,2)])
  show ?thesis
  proof (cases dec)
    case DecApprove
    then show ?thesis using Some up approved assms(3) \<open>service_granted cd R sv1\<close> apply_proposal_granted [OF assms]
      by (cases res) (simp_all add: decide_proposal_def)
  qed (use Some assms(3) in \<open>simp_all add: decide_proposal_def\<close>)
qed

lemma register_all_confined:
  "register_all as r = Inr r' \<Longrightarrow> list_all (granted R) as \<Longrightarrow> \<forall>x \<in> set r. ad_trust_tier x = TierDynamic \<longrightarrow> confined R x \<Longrightarrow>
    \<forall>x \<in> set r'. ad_trust_tier x = TierDynamic \<longrightarrow> confined R x"
proof (induction as arbitrary: r)
  case (Cons a as)
  obtain u q where reg: "register_dynamic (runtime_definition a) r = (Inr u, q)" "register_all as q = Inr r'"
    using Cons.prems(1) by (auto split: prod.splits sum.splits)
  have "confined R (runtime_definition a)" using Cons.prems(2) confined_runtime by simp
  then have "\<forall>x \<in> set q. ad_trust_tier x = TierDynamic \<longrightarrow> confined R x"
    using register_confined(1) [OF Cons.prems(3) _ reg(1)] by blast
  then show ?case using Cons.IH [OF reg(2)] Cons.prems(2) by simp
qed simp

lemma open_granted:
  assumes "service_open cd pcd f1 f2 f pf r0 = Inr sv" "readable cd (\<lambda>e. granted R (ev_agent e)) f"
    and "\<forall>x \<in> set r0. ad_trust_tier x \<noteq> TierDynamic"
  shows "service_granted cd R sv"
proof -
  obtain st ps r where op: "open_agents cd f1 f = Inr st" "register_all (store_list_active st) r0 = Inr r"
    "sv = \<lparr>sv_agents = st, sv_proposals = ps, sv_registry = r\<rparr>"
    using assms(1) by (auto simp: service_open_def split: sum.splits)
  have st: "st_file st = f" "replay_agents cd (log_records f) [] = Inr (st_agents st)"
    using op(1) by (auto simp: open_agents_def split: if_splits sum.splits)
  have "list_all (granted R) (st_agents st)"
    using replay_granted [OF st(2)] assms(2) by (simp add: readable_def)
  moreover then have "list_all (granted R) (store_list_active st)" by (simp add: store_list_active_def list_all_iff)
  ultimately show ?thesis
    using register_all_confined [OF op(2)] assms(2,3) st(1) op(3) by (simp add: service_granted_def store_granted_def)
qed

lemma step_granted:
  assumes "agents_step cd pcd D R r0 sv sv'" "codec_ok cd" "torn_unreadable cd" "service_granted cd R sv"
    and "\<forall>x \<in> set r0. ad_trust_tier x \<noteq> TierDynamic"
  shows "service_granted cd R sv'"
  using assms(1)
proof cases
  case (Create cf ao ao2 now p)
  show ?thesis
  proof (cases "creator_permission_snapshot D cf sv")
    case (Inl e)
    then show ?thesis using Create(1) assms(4) by (simp add: create_tool_def)
  next
    case (Inr c)
    have "set (cs_tools_allowed c) \<subseteq> R" using snapshot_in [OF assms(4) Create(2) Inr] .
    then have "service_granted cd R (snd (service_create_agent cd ao ao2 now p (cf_agent_name cf) c sv))"
      by (rule service_create_granted [OF assms(2-4)])
    then show ?thesis using Create(1) Inr by (simp add: create_tool_def case_prod_beta)
  qed
next
  case Update
  then show ?thesis using service_update_granted [OF assms(2-4)] by simp
next
  case Deactivate
  then show ?thesis using service_deactivate_granted [OF assms(2-4)] by simp
next
  case Propose
  then show ?thesis using assms(4) propose_granted by simp
next
  case Attach
  then show ?thesis using assms(4) attach_granted by simp
next
  case Decide
  then show ?thesis using decide_granted [OF assms(2-4)] by simp
next
  case Restart
  then show ?thesis using open_granted [OF Restart(1)] assms(4,5) by (simp add: service_granted_def store_granted_def)
qed


section \<open>An instance\<close>

instance agent_mode :: countable
  by countable_datatype

instance context_strategy :: countable
  by countable_datatype

instance trust_tier :: countable
  by countable_datatype

instance agent_source :: countable
  by countable_datatype

instance agent_status :: countable
  by countable_datatype

instance char :: countable
  by (rule countable_classI [of "of_char :: char \<Rightarrow> nat"]) simp

instance workspace_isolation :: countable
  by countable_datatype

instance permission_mode :: countable
  by countable_datatype

instance response_format_ext :: (countable) countable
  by (rule countable_classI [of "\<lambda>r. to_nat (rf_format_type r, rf_name r, rf_schema r, rf_schema_json r, response_format.more r)"])
    (rule response_format.equality; simp)

instance agent_settings_ext :: (countable) countable
  by (rule countable_classI [of "\<lambda>r. to_nat ((as_icon r, as_working_directory r, as_workspace_isolation r, as_toolcall_enabled r, as_skills_enabled r,
     as_knowledge_enabled r, as_skills r, as_knowledge_collections r, as_prompt_section_ids r),
     (as_provider_id r, as_preferred_models r, as_fallback_models r, as_provider_tags r,
     as_fallback_provider_tags r, as_temperature r, as_top_p r, as_plan_mode r),
     (as_thinking_effort r, as_permission_mode r, as_response_format r, as_timeout_secs r, as_max_context_tokens r, as_user_callable r,
     as_mcp_mode r, as_mcp_servers r, as_prune_tool_history r, as_auto_update r), agent_settings.more r)"])
    (rule agent_settings.equality; simp)

instance agent_definition_ext :: (countable) countable
  by (rule countable_classI [of "\<lambda>r. to_nat ((ad_id r, ad_name r, ad_description r, ad_mode r, ad_trust_tier r, ad_capabilities r),
     (ad_allowed_tools r, ad_system_prompt r, ad_max_iterations r, ad_max_tool_calls r, ad_context_sharing r,
     ad_max_completion_tokens r, ad_settings r), agent_definition.more r)"])
    (rule agent_definition.equality; simp)

instance effective_permissions_ext :: (countable) countable
  by (rule countable_classI [of "\<lambda>r. to_nat (ep_tools_allowed r, ep_max_iterations r, ep_max_tool_calls r, ep_max_tokens r,
     ep_delegation_depth r, effective_permissions.more r)"])
    (rule effective_permissions.equality; simp)

instance dynamic_agent_ext :: (countable) countable
  by (rule countable_classI [of "\<lambda>r. to_nat ((da_id r, da_definition r, da_trust_tier r, da_source r, da_created_by r, da_created_at r),
     (da_delegation_depth r, da_version r, da_status r, da_deactivated_at r, da_deactivation_reason r, da_effective r),
     dynamic_agent.more r)"])
    (rule dynamic_agent.equality; simp)

instance agent_event_ext :: (countable) countable
  by (rule countable_classI [of "\<lambda>r. to_nat (ev_schema_version r, ev_agent r, agent_event.more r)"])
    (rule agent_event.equality; simp)

text \<open>A chat creates an agent that reads files.\<close>

definition chat_creator :: creator_config where
  "chat_creator = \<lparr>cf_agent_name = ''chat-turn'', cf_trust_tier = None, cf_agent_allowed_tools = [],
     cf_tool_names = [''FileRead'', ''Grep'', ''FileRead''], cf_max_iterations = 30, cf_max_tool_calls = 40, cf_max_tokens = None\<rparr>"

definition reader_params :: agent_create_params where
  "reader_params = \<lparr>ac_name = ''reader'', ac_description = ''reads'', ac_mode = AmExplore, ac_capabilities = [],
     ac_allowed_tools = [''FileRead''], ac_system_prompt = ''Read files.'', ac_context_sharing = CsNone\<rparr>"

definition no_proposals :: "proposal_event log_codec" where
  "no_proposals = \<lparr>lc_encode = (\<lambda>p. []), lc_decode = (\<lambda>s. None)\<rparr>"

definition fresh_service :: agent_service where
  "fresh_service = \<lparr>sv_agents = \<lparr>st_file = [], st_agents = []\<rparr>, sv_proposals = \<lparr>ps_file = [], ps_proposals = []\<rparr>, sv_registry = []\<rparr>"

definition reader_service :: agent_service where
  "reader_service = snd (create_tool unary_codec AoWritten AoWritten ''2025'' 3 chat_creator reader_params fresh_service)"

lemma open_fresh: "service_open cd pcd False False [] [] [] = Inr fresh_service"
  by (simp add: service_open_def open_agents_def open_proposals_def fresh_service_def store_list_active_def)

lemma chat_tools: "execution_tool_names chat_creator = [''FileRead'', ''Grep'']"
  by code_simp

lemma chat_snapshot: "creator_permission_snapshot 3 chat_creator fresh_service = Inr \<lparr>cs_tools_allowed = [''FileRead'', ''Grep''],
    cs_max_iterations = 30, cs_max_tool_calls = 40, cs_max_tokens = u64_max, cs_delegation_depth = 3\<rparr>"
  unfolding creator_permission_snapshot_def chat_tools by (simp add: chat_creator_def Let_def to_u32_def u32_max_def)

lemma reader_prompt: "List.find (str_contains (str_lower ''Read files.'')) injection_patterns = None"
  by code_simp

lemma reader_valid: "validate_definition (new_agent ''2025'' reader_params ''chat-turn'' \<lparr>cs_tools_allowed = [''FileRead'', ''Grep''],
    cs_max_iterations = 30, cs_max_tool_calls = 40, cs_max_tokens = u64_max, cs_delegation_depth = 3\<rparr>) = Inr ()"
  by (simp add: validate_definition_def new_agent_def make_dynamic_agent_def compute_permissions_def reader_params_def Let_def
      is_dynamic_source_def dangerous_tools_def reserved_names_def reader_prompt)

abbreviation chat_grant :: creator_snapshot where
  "chat_grant \<equiv> \<lparr>cs_tools_allowed = [''FileRead'', ''Grep''], cs_max_iterations = 30, cs_max_tool_calls = 40,
     cs_max_tokens = u64_max, cs_delegation_depth = 3\<rparr>"

definition reader :: dynamic_agent where
  "reader = new_agent ''2025'' reader_params ''chat-turn'' chat_grant"

lemma reader_fields:
  "validate_definition reader = Inr ()" "da_id reader = ''dyn-reader''" "da_status reader = StActive" "da_version reader = 1"
  "ad_id (runtime_definition reader) = ''dyn-reader''" "ad_name (runtime_definition reader) = ''reader''"
  "ad_trust_tier (runtime_definition reader) = TierDynamic" "ad_allowed_tools (runtime_definition reader) = [''FileRead'']"
  using reader_valid
  by (simp_all add: reader_def new_agent_def make_dynamic_agent_def reader_params_def runtime_definition_def compute_permissions_def Let_def)

lemma reader_created:
  "create_tool unary_codec AoWritten AoWritten ''2025'' 3 chat_creator reader_params fresh_service =
    (Inr (Inr reader), fresh_service\<lparr>sv_agents := \<lparr>st_file = unary_encode \<lparr>ev_schema_version = 1, ev_agent = reader\<rparr> @ [newline],
       st_agents = [reader]\<rparr>, sv_registry := [runtime_definition reader]\<rparr>)"
proof -
  have s: "store_create unary_codec AoWritten reader (sv_agents fresh_service) =
      (Inr reader, \<lparr>st_file = unary_encode \<lparr>ev_schema_version = 1, ev_agent = reader\<rparr> @ [newline], st_agents = [reader]\<rparr>)"
    by (simp add: store_create_def reader_fields fresh_service_def find_agent_def keyed_get_def commit_agent_def append_agent_def
        append_record_def unary_codec_def agent_schema_version_def put_agent_def keyed_put_def)
  have r: "register_dynamic (runtime_definition reader) (sv_registry fresh_service) = (Inr (), [runtime_definition reader])"
    by (simp add: register_dynamic_def register_agent_def validate_agent_def reader_fields fresh_service_def registry_get_def
        keyed_get_def keyed_put_def)
  have c: "new_agent ''2025'' reader_params (cf_agent_name chat_creator) chat_grant = reader" by (simp add: reader_def chat_creator_def)
  show ?thesis
    by (simp add: create_tool_def chat_snapshot service_create_agent_def agent_create_def c s meta_success_def result_agent_def r)
qed

lemma reader_step: "(agents_step unary_codec no_proposals 3 {''FileRead'', ''Grep''} [])\<^sup>*\<^sup>* fresh_service reader_service"
  unfolding reader_service_def by (intro r_into_rtranclp agents_step.Create) (simp add: chat_tools)


end
