(* ===== verification/AgentStoreCorrect.thy ===== *)
theory AgentStoreCorrect
  imports DynamicAgentsCorrect
begin

text \<open>
  What the store of dynamic agents keeps over a restart, what an interrupted write costs it, what
  both stores promise the tools, and what creating and updating an agent does.
\<close>

section \<open>Restarts\<close>

datatype store_call =
  ScCreate dynamic_agent
| ScUpdate dynamic_agent
| ScDeactivate string string string
| ScRollback bool string nat

fun durable_call :: "agent_event log_codec \<Rightarrow> append_outcome \<Rightarrow> store_call \<Rightarrow> agent_store \<Rightarrow> agent_store" where
  "durable_call cd ao (ScCreate a) st = snd (store_create cd ao a st)"
| "durable_call cd ao (ScUpdate a) st = snd (store_update_agent cd ao a st)"
| "durable_call cd ao (ScDeactivate now i reason) st = snd (store_deactivate cd ao now i reason st)"
| "durable_call cd ao (ScRollback fail i v) st = snd (rollback_agent cd fail ao i v st)"

text \<open>An append that was written, or failed before its first byte.\<close>

definition whole :: "append_outcome \<Rightarrow> bool" where
  "whole ao = (ao = AoWritten \<or> ao = AoFailed 0)"

definition durable :: "agent_event log_codec \<Rightarrow> agent_store \<Rightarrow> bool" where
  "durable cd st = (log_tail (st_file st) = [] \<and> replay_agents cd (log_records (st_file st)) [] = Inr (st_agents st)
     \<and> (\<forall>a \<in> set (st_agents st). validate_definition a = Inr ()))"

lemma replay_append: "replay_agents cd (ls @ [l]) m = (case replay_agents cd ls m of Inl e \<Rightarrow> Inl e | Inr m' \<Rightarrow> replay_agents cd [l] m')"
  by (induction ls arbitrary: m) (auto split: option.split sum.split)

lemma replay_decodes: "replay_agents cd ls m = Inr m' \<Longrightarrow> \<exists>es. decode_all cd ls = Some es"
  by (induction ls arbitrary: m) (auto split: option.splits if_splits sum.splits)

lemma replay_valid: "replay_agents cd ls m = Inr m' \<Longrightarrow> \<forall>a \<in> set m. validate_definition a = Inr () \<Longrightarrow>
    \<forall>a \<in> set m'. validate_definition a = Inr ()"
proof (induction ls arbitrary: m)
  case (Cons l ls)
  obtain e where e: "lc_decode cd l = Some e" "validate_definition (ev_agent e) = Inr ()" "replay_agents cd ls (put_agent (ev_agent e) m) = Inr m'"
    using Cons.prems(1) by (auto split: option.splits if_splits sum.splits)
  have "\<forall>a \<in> set (put_agent (ev_agent e) m). validate_definition a = Inr ()"
    using e(2) Cons.prems(2) set_keyed_put [of da_id "ev_agent e" m] by (auto simp: put_agent_def)
  then show ?case using Cons.IH e(3) by blast
qed simp

lemma commit_durable:
  assumes "codec_ok cd" "durable cd st" "whole ao" "validate_definition a = Inr ()"
  shows "durable cd (snd (commit_agent cd ao a st))"
proof (cases "ao = AoWritten")
  case True
  let ?e = "\<lparr>ev_schema_version = agent_schema_version, ev_agent = a\<rparr>"
  have tail: "log_tail (st_file st) = []" using assms(2) by (simp add: durable_def)
  note rec = records_written [OF assms(1) tail, of ?e]
  have dec: "lc_decode cd (lc_encode cd ?e) = Some ?e" using assms(1) by (simp add: codec_ok_def)
  have "\<forall>x \<in> set (put_agent a (st_agents st)). validate_definition x = Inr ()"
    using assms(2,4) set_keyed_put [of da_id a "st_agents st"] by (auto simp: put_agent_def durable_def)
  then show ?thesis using True assms(2,4) rec dec
    by (simp add: durable_def commit_agent_def append_agent_def append_record_def replay_append)
next
  case False
  then have "snd (commit_agent cd ao a st) = st" using assms(3)
    by (auto simp: whole_def commit_agent_def append_agent_def append_record_def)
  then show ?thesis using assms(2) by simp
qed

lemma durable_valid: "durable cd st \<Longrightarrow> find_agent i (st_agents st) = Some a \<Longrightarrow> validate_definition a = Inr ()"
  using keyed_get_key [of da_id i "st_agents st" a] by (auto simp: durable_def find_agent_def)

lemma valid_renumbered [simp]: "validate_definition (a\<lparr>da_version := v\<rparr>) = validate_definition a"
  by (rule validate_same) simp_all

lemma valid_deactivated [simp]: "validate_definition (deactivated now reason a) = validate_definition a"
  by (rule validate_same) (simp_all add: deactivated_def)

lemma call_durable:
  assumes "codec_ok cd" "durable cd st" "whole ao"
  shows "durable cd (durable_call cd ao c st)"
proof (cases c)
  case (ScCreate a)
  then show ?thesis using assms commit_durable [OF assms, of a] by (auto simp: store_create_def split: sum.split)
next
  case (ScUpdate a)
  then show ?thesis using assms commit_durable [OF assms]
    by (auto simp: store_update_agent_def split: sum.split option.split)
next
  case (ScDeactivate now i reason)
  show ?thesis
  proof (cases "find_agent i (st_agents st)")
    case (Some a)
    have "durable cd (snd (commit_agent cd ao (deactivated now reason a) st))"
      using commit_durable [OF assms] durable_valid [OF assms(2) Some] by simp
    then show ?thesis using ScDeactivate Some by (auto simp: store_deactivate_def split: prod.split sum.split)
  qed (use assms(2) ScDeactivate in \<open>simp add: store_deactivate_def\<close>)
next
  case (ScRollback fail i v)
  then show ?thesis using assms commit_durable [OF assms]
    by (auto simp: rollback_agent_def Let_def split: sum.split option.split)
qed

lemma open_durable: "open_agents cd fail f = Inr st \<Longrightarrow> log_tail f = [] \<Longrightarrow> durable cd st"
  using replay_valid [of cd "log_records f" "[]"] by (auto simp: open_agents_def durable_def split: if_splits sum.splits)

lemma durable_open: "durable cd st \<Longrightarrow> newline \<notin> set t \<Longrightarrow>
    open_agents cd False (st_file st @ t) = Inr (st\<lparr>st_file := st_file st @ t\<rparr>)"
  by (simp add: durable_def open_agents_def log_records_def log_torn(1))



lemma reader_store:
  "store_create unary_codec AoWritten reader \<lparr>st_file = [], st_agents = []\<rparr> =
    (Inr reader, \<lparr>st_file = unary_encode \<lparr>ev_schema_version = 1, ev_agent = reader\<rparr> @ [newline], st_agents = [reader]\<rparr>)"
  by (simp add: store_create_def reader_fields find_agent_def keyed_get_def commit_agent_def append_agent_def
      append_record_def unary_codec_def agent_schema_version_def put_agent_def keyed_put_def)

lemma open_empty: "open_agents cd False [] = Inr \<lparr>st_file = [], st_agents = []\<rparr>"
  by (simp add: open_agents_def)


section \<open>Interrupted writes\<close>

text \<open>C31: A store that is opened on a file whose last write was interrupted appends its next record to
  the torn one: the agent that is created next is reported as stored, and the service can never be
  opened on that file again, whatever is appended to it later.\<close>

theorem an_interrupted_write_loses_the_store:
  assumes "codec_ok cd" "torn_unreadable cd" "log_tail f = []" "0 < n" "n \<le> length (lc_encode cd e)"
    and "open_agents cd False (f @ take n (lc_encode cd e)) = Inr st" "store_create cd AoWritten a st = (Inr b, st')"
  shows "find_agent (da_id a) (st_agents st') = Some a
    \<and> (\<exists>err. service_open cd pcd False fail (st_file st' @ later) pf r0 = Inl err)"
proof -
  have st: "st_file st = f @ take n (lc_encode cd e)" using assms(6) by (auto simp: open_agents_def split: sum.splits)
  have clean: "newline \<notin> set (take n (lc_encode cd e))" using assms(1) by (meson codec_ok_def in_set_takeD)
  have ne: "take n (lc_encode cd e) \<noteq> []" using assms(1,4) by (simp add: codec_ok_def)
  have parts: "torn_parts cd [take n (lc_encode cd e)]" using ne by (auto simp: torn_parts_def)
  have tail: "log_tail (st_file st) = concat [take n (lc_encode cd e)]" using log_torn(2) [OF clean] assms(3) st by simp
  let ?x = "\<lparr>ev_schema_version = agent_schema_version, ev_agent = a\<rparr>"
  have st': "st_file st' = st_file st @ lc_encode cd ?x @ [newline]" "st_agents st' = put_agent a (st_agents st)"
    using assms(7) by (auto simp: store_create_def commit_agent_def append_agent_def append_record_def split: sum.splits if_splits)
  have "decode_all cd (log_records (st_file st' @ later)) = None"
    using unreadable_append [OF records_after_tear(1) [OF assms(1,2) parts tail]] st'(1) by simp
  then have "replay_agents cd (log_records (st_file st' @ later)) [] \<noteq> Inr m" for m
    using replay_decodes by fastforce
  then have "\<exists>err. service_open cd pcd False fail (st_file st' @ later) pf r0 = Inl err"
    by (auto simp: service_open_def open_agents_def split: sum.split)
  moreover have "find_agent (da_id a) (st_agents st') = Some a" using st'(2) by (simp add: find_agent_def put_agent_def keyed_get_put)
  ultimately show ?thesis by blast
qed

lemma an_interrupted_write_loses_the_store_witness:
  "\<exists>err. service_open unary_codec no_proposals False False
     (''#'' @ unary_encode \<lparr>ev_schema_version = 1, ev_agent = reader\<rparr> @ [newline]) [] [] = Inl err"
proof -
  let ?e = "\<lparr>ev_schema_version = 1, ev_agent = reader\<rparr>" and ?st = "\<lparr>st_file = ''#'', st_agents = []\<rparr>"
  have torn: "[] @ take 1 (lc_encode unary_codec ?e) = ''#''" by (simp add: unary_codec_def unary_encode_def)
  have opened: "open_agents unary_codec False ([] @ take 1 (lc_encode unary_codec ?e)) = Inr ?st"
    unfolding torn by (simp add: open_agents_def log_records_def log_lines_def)
  have stored: "store_create unary_codec AoWritten reader ?st = (Inr reader, \<lparr>st_file = ''#'' @ unary_encode ?e @ [newline], st_agents = [reader]\<rparr>)"
    by (simp add: store_create_def reader_fields find_agent_def keyed_get_def commit_agent_def append_agent_def
        append_record_def unary_codec_def agent_schema_version_def put_agent_def keyed_put_def)
  have "1 \<le> length (lc_encode unary_codec ?e)" by (simp add: unary_codec_def unary_encode_def)
  then show ?thesis
    using an_interrupted_write_loses_the_store [OF unary_codec_ok unary_torn _ _ _ opened stored,
        where later = "[]" and pcd = no_proposals and fail = False and pf = "[]" and ?r0.0 = "[]"] by simp
qed

section \<open>Two stores, one contract\<close>

text \<open>A call of one of the tools that change agents; each operation has what its environment decides,
  such as the clock, as its first argument.\<close>

inductive tool_step :: "('s \<Rightarrow> agent_map) \<Rightarrow> ('o \<Rightarrow> dynamic_agent \<Rightarrow> 's \<Rightarrow> (multi_agent_error + dynamic_agent) \<times> 's) \<Rightarrow>
    ('o \<Rightarrow> dynamic_agent \<Rightarrow> 's \<Rightarrow> (multi_agent_error + dynamic_agent) \<times> 's) \<Rightarrow>
    ('o \<Rightarrow> string \<Rightarrow> string \<Rightarrow> 's \<Rightarrow> (multi_agent_error + unit) \<times> 's) \<Rightarrow> 's \<Rightarrow> 's \<Rightarrow> bool"
  for agents create update deactivate where
  "tool_step agents create update deactivate s (snd (agent_create (create out) now p creator c s))"
| "tool_step agents create update deactivate s (snd (agent_update (\<lambda>i s. find_agent i (agents s)) (update out) up s))"
| "tool_step agents create update deactivate s (snd (agent_deactivate (deactivate out) i reason s))"

text \<open>What the tools rely on: each operation that succeeds has changed exactly its agent, and one that
  fails has changed none.\<close>

locale agent_backend =
  fixes agents :: "'s \<Rightarrow> agent_map"
    and create update :: "'o \<Rightarrow> dynamic_agent \<Rightarrow> 's \<Rightarrow> (multi_agent_error + dynamic_agent) \<times> 's"
    and deactivate :: "'o \<Rightarrow> string \<Rightarrow> string \<Rightarrow> 's \<Rightarrow> (multi_agent_error + unit) \<times> 's"
  assumes create_Inr: "create out a s = (Inr b, s') \<Longrightarrow>
      b = a \<and> validate_definition a = Inr () \<and> find_agent (da_id a) (agents s) = None \<and> agents s' = put_agent a (agents s)"
    and create_Inl: "create out a s = (Inl e, s') \<Longrightarrow> agents s' = agents s"
    and update_Inr: "update out a s = (Inr b, s') \<Longrightarrow> validate_definition a = Inr () \<and> agents s' = put_agent b (agents s) \<and>
      (\<exists>old. find_agent (da_id a) (agents s) = Some old \<and> min (da_version old) u64_max \<le> da_version b \<and> b = a\<lparr>da_version := da_version b\<rparr>)"
    and update_Inl: "update out a s = (Inl e, s') \<Longrightarrow> agents s' = agents s"
    and deactivate_Inr: "deactivate out i reason s = (Inr u, s') \<Longrightarrow>
      \<exists>old now. find_agent i (agents s) = Some old \<and> agents s' = put_agent (deactivated now reason old) (agents s)"
    and deactivate_Inl: "deactivate out i reason s = (Inl e, s') \<Longrightarrow> agents s' = agents s"
begin

abbreviation step :: "'s \<Rightarrow> 's \<Rightarrow> bool" where
  "step \<equiv> tool_step agents create update deactivate"

abbreviation lookup :: "string \<Rightarrow> 's \<Rightarrow> dynamic_agent option" where
  "lookup i s \<equiv> find_agent i (agents s)"

lemma put_keeps: "find_agent i m = Some a \<Longrightarrow> (da_id b = i \<Longrightarrow> min (da_version a) u64_max \<le> da_version b) \<Longrightarrow>
    \<exists>x. find_agent i (put_agent b m) = Some x \<and> min (da_version a) u64_max \<le> da_version x"
  by (simp add: find_agent_def put_agent_def keyed_get_put)

lemma step_keeps: "step s s' \<Longrightarrow> lookup i s = Some a \<Longrightarrow> \<exists>b. lookup i s' = Some b \<and> min (da_version a) u64_max \<le> da_version b"
proof (induction rule: tool_step.induct)
  case (1 s out now p creator c)
  obtain r s' where c: "create out (new_agent now p creator c) s = (r, s')" by fastforce
  then have s': "snd (agent_create (create out) now p creator c s) = s'" by (simp add: agent_create_def split: sum.split)
  show ?case
  proof (cases r)
    case (Inl e)
    then show ?thesis using 1 c s' create_Inl by simp
  next
    case (Inr b)
    have new: "b = new_agent now p creator c" "lookup (da_id b) s = None" "agents s' = put_agent b (agents s)"
      using create_Inr [OF c [unfolded Inr]] by simp_all
    have "\<exists>y. find_agent i (put_agent b (agents s)) = Some y \<and> min (da_version a) u64_max \<le> da_version y"
      by (rule put_keeps [OF 1]) (use new(2) 1 in auto)
    then show ?thesis using new(3) s' by simp
  qed
next
  case (2 s out up)
  show ?case
  proof (cases "lookup (au_id up) s")
    case (Some x)
    obtain r s' where c: "update out (changed_agent up x) s = (r, s')" by fastforce
    have s': "snd (agent_update lookup (update out) up s) = s'" using c Some by (simp add: agent_update_def split: sum.split)
    show ?thesis
    proof (cases r)
      case (Inl e)
      then show ?thesis using 2 c s' update_Inl by simp
    next
      case (Inr b)
      note u = update_Inr [OF c [unfolded Inr]]
      then obtain old where old: "lookup (da_id (changed_agent up x)) s = Some old" "min (da_version old) u64_max \<le> da_version b"
        "b = (changed_agent up x)\<lparr>da_version := da_version b\<rparr>" by blast
      have "da_id b = da_id (changed_agent up x)" by (subst old(3)) simp
      have "\<exists>y. find_agent i (put_agent b (agents s)) = Some y \<and> min (da_version a) u64_max \<le> da_version y"
        by (rule put_keeps [OF 2]) (use old(1,2) \<open>da_id b = _\<close> 2 in auto)
      then show ?thesis using u s' by simp
    qed
  qed (use 2 in \<open>simp add: agent_update_def\<close>)
next
  case (3 s out i' reason)
  obtain r s' where c: "deactivate out i' reason s = (r, s')" by fastforce
  then have s': "snd (agent_deactivate (deactivate out) i' reason s) = s'" by (simp add: agent_deactivate_def split: sum.split)
  show ?case
  proof (cases r)
    case (Inl e)
    then show ?thesis using 3 c s' deactivate_Inl by simp
  next
    case (Inr u)
    obtain old now where old: "lookup i' s = Some old" "agents s' = put_agent (deactivated now reason old) (agents s)"
      using deactivate_Inr c Inr by blast
    have "da_id old = i'" using keyed_get_key [OF old(1) [unfolded find_agent_def]] by simp
    then have "\<exists>y. find_agent i (put_agent (deactivated now reason old) (agents s)) = Some y \<and> min (da_version a) u64_max \<le> da_version y"
      by (intro put_keeps [OF 3]) (use old 3 in \<open>auto simp: deactivated_def\<close>)
    then show ?thesis using old(2) s' by simp
  qed
qed

lemma taken: "step\<^sup>*\<^sup>* s s' \<Longrightarrow> lookup i s = Some a \<Longrightarrow> \<exists>b. lookup i s' = Some b \<and> min (da_version a) u64_max \<le> da_version b"
  by (induction rule: rtranclp_induct) (auto dest!: step_keeps)

lemma create_taken:
  assumes "lookup (''dyn-'' @ ac_name p) s = Some a"
  shows "\<not> mt_success (fst (agent_create (create out) now p creator c s))"
proof -
  have "da_id (new_agent now p creator c) = ''dyn-'' @ ac_name p" by (simp add: new_agent_def make_dynamic_agent_def Let_def)
  then have "create out (new_agent now p creator c) s \<noteq> (Inr b, s')" for b s'
    using create_Inr [of out "new_agent now p creator c" s b s'] assms by auto
  then show ?thesis by (auto simp: agent_create_def meta_error_def split: prod.split sum.split)
qed

end

interpretation mem: agent_backend "\<lambda>m. m" "\<lambda>now. mem_create" "\<lambda>now. mem_update" mem_deactivate
proof
  fix now i reason :: string and m m' :: agent_map and u
  show "mem_deactivate now i reason m = (Inr u, m') \<Longrightarrow>
      \<exists>old now. find_agent i m = Some old \<and> m' = put_agent (deactivated now reason old) m"
    by (auto simp: mem_deactivate_def split: option.splits)
qed (auto simp: mem_create_def mem_update_def mem_deactivate_def Let_def split: sum.splits option.splits if_splits)

lemma commit_cases: "commit_agent cd ao a st = (Inr b, st') \<longleftrightarrow> b = a \<and>
    (\<exists>f. append_agent cd ao a (st_file st) = (True, f) \<and> st' = st\<lparr>st_file := f, st_agents := put_agent a (st_agents st)\<rparr>)"
  "commit_agent cd ao a st = (Inl e, st') \<Longrightarrow> st_agents st' = st_agents st"
  by (auto simp: commit_agent_def split: prod.splits bool.splits)

interpretation durable: agent_backend st_agents "\<lambda>(ao, now). store_create cd ao" "\<lambda>(ao, now). store_update_agent cd ao"
    "\<lambda>(ao, now). store_deactivate cd ao now"
proof
  fix out :: "append_outcome \<times> string" and a b s s' e and i reason :: string and u
  obtain ao now where o: "out = (ao, now)" by (cases out)
  show "(case out of (ao, now) \<Rightarrow> store_create cd ao) a s = (Inr b, s') \<Longrightarrow>
      b = a \<and> validate_definition a = Inr () \<and> find_agent (da_id a) (st_agents s) = None \<and> st_agents s' = put_agent a (st_agents s)"
    by (auto simp: o store_create_def commit_cases(1) split: sum.splits if_splits)
  show "(case out of (ao, now) \<Rightarrow> store_create cd ao) a s = (Inl e, s') \<Longrightarrow> st_agents s' = st_agents s"
    by (auto simp: o store_create_def commit_cases(2) split: sum.splits if_splits)
  show "(case out of (ao, now) \<Rightarrow> store_update_agent cd ao) a s = (Inr b, s') \<Longrightarrow>
      validate_definition a = Inr () \<and> st_agents s' = put_agent b (st_agents s) \<and>
      (\<exists>old. find_agent (da_id a) (st_agents s) = Some old \<and> min (da_version old) u64_max \<le> da_version b \<and> b = a\<lparr>da_version := da_version b\<rparr>)"
    by (auto simp: o store_update_agent_def commit_cases(1) next_agent_version_def split: sum.splits option.splits)
  show "(case out of (ao, now) \<Rightarrow> store_update_agent cd ao) a s = (Inl e, s') \<Longrightarrow> st_agents s' = st_agents s"
    by (auto simp: o store_update_agent_def commit_cases(2) split: sum.splits option.splits)
  show "(case out of (ao, now) \<Rightarrow> store_deactivate cd ao now) i reason s = (Inr u, s') \<Longrightarrow>
      \<exists>old now. find_agent i (st_agents s) = Some old \<and> st_agents s' = put_agent (deactivated now reason old) (st_agents s)"
    by (auto simp: o store_deactivate_def commit_cases(1) split: option.splits prod.splits sum.splits)
  show "(case out of (ao, now) \<Rightarrow> store_deactivate cd ao now) i reason s = (Inl e, s') \<Longrightarrow> st_agents s' = st_agents s"
    by (auto simp: o store_deactivate_def commit_cases(2) split: option.splits prod.splits sum.splits)
qed

text \<open>The name of an agent is taken for good: whatever the tools do afterwards, deactivating it
  included, no agent of that name can be created again, and its version never falls.\<close>

theorem a_name_is_used_once:
  assumes "(tool_step st_agents (\<lambda>(ao, now). store_create cd ao) (\<lambda>(ao, now). store_update_agent cd ao)
      (\<lambda>(ao, now). store_deactivate cd ao now))\<^sup>*\<^sup>* s s'" "find_agent (''dyn-'' @ ac_name p) (st_agents s) = Some a"
  shows "\<not> mt_success (fst (agent_create (store_create cd ao) now p creator c s'))
    \<and> (\<exists>b. find_agent (''dyn-'' @ ac_name p) (st_agents s') = Some b \<and> min (da_version a) u64_max \<le> da_version b)"
proof -
  obtain b where b: "find_agent (''dyn-'' @ ac_name p) (st_agents s') = Some b" "min (da_version a) u64_max \<le> da_version b"
    using durable.taken [OF assms] by blast
  then show ?thesis using durable.create_taken [OF b(1), of cd "(ao, now)" now creator c] by simp
qed

lemma a_name_is_used_once_witness:
  "\<not> mt_success (fst (agent_create (store_create unary_codec AoWritten) ''2026'' reader_params ''chat-turn'' chat_grant
     (snd (agent_deactivate (store_deactivate unary_codec AoWritten ''2025'') ''dyn-reader'' ''no longer needed''
       \<lparr>st_file = [], st_agents = [reader]\<rparr>))))"
proof -
  let ?s = "\<lparr>st_file = [], st_agents = [reader]\<rparr>"
  have get: "find_agent (''dyn-'' @ ac_name reader_params) (st_agents ?s) = Some reader"
    by (simp add: reader_params_def find_agent_def keyed_get_def reader_fields)
  note step = tool_step.intros(3) [of st_agents "\<lambda>(ao, now). store_create unary_codec ao" "\<lambda>(ao, now). store_update_agent unary_codec ao"
      "\<lambda>(ao, now). store_deactivate unary_codec ao now" ?s "(AoWritten, ''2025'')" "''dyn-reader''" "''no longer needed''"]
  show ?thesis
    using a_name_is_used_once [OF r_into_rtranclp [where r = "tool_step st_agents (\<lambda>(ao, now). store_create unary_codec ao)
      (\<lambda>(ao, now). store_update_agent unary_codec ao) (\<lambda>(ao, now). store_deactivate unary_codec ao now)", OF step] get] by simp
qed

section \<open>Updating what was deactivated\<close>

text \<open>C33: Updating a deactivated agent puts it back: it is registered for delegation again although it
  stays deactivated in the store, where no search and no restart finds it.\<close>

theorem updating_revives_a_deactivated_agent:
  assumes "find_agent (au_id p) (st_agents (sv_agents sv)) = Some a" "da_status a = StDeactivated"
    and "service_update_agent cd ao p sv = (Inr b, sv')"
  shows "registry_get (ad_id (da_definition a)) (sv_registry sv') = Some (runtime_definition b)
    \<and> find_agent (da_id a) (st_agents (sv_agents sv')) = Some b \<and> b \<notin> set (store_list_active (sv_agents sv'))"
proof -
  let ?c = "changed_agent p a"
  have c: "da_id ?c = da_id a" "da_status ?c = StDeactivated" "ad_id (da_definition ?c) = ad_id (da_definition a)"
    using assms(2) by (simp_all add: changed_agent_def Let_def)
  have i: "da_id a = au_id p" using keyed_get_key [OF assms(1) [unfolded find_agent_def]] by simp
  obtain st where st: "commit_agent cd ao (?c\<lparr>da_version := next_agent_version (da_version a)\<rparr>) (sv_agents sv) = (Inr b, st)"
      "sv_agents sv' = st" "register_or_override (runtime_definition b) (sv_registry sv) = (Inr (), sv_registry sv')"
    using assms(1,3) c(1) i
    by (auto simp: service_update_agent_def agent_update_def store_update_agent_def meta_success_def meta_error_def result_agent_def
        split: prod.splits sum.splits if_splits option.splits)
  have b: "b = ?c\<lparr>da_version := next_agent_version (da_version a)\<rparr>" "st_agents st = put_agent b (st_agents (sv_agents sv))"
    using st(1) by (auto simp: commit_cases(1))
  have "sv_registry sv' = keyed_put ad_id (runtime_definition b) (sv_registry sv)"
    using st(3) by (auto simp: register_or_override_def split: sum.splits)
  moreover have "ad_id (runtime_definition b) = ad_id (da_definition a)" using c(3) b(1) by (simp add: runtime_definition_def Let_def)
  moreover have "find_agent (da_id a) (st_agents st) = Some b"
    unfolding b(2) by (subst b(1)) (use c(1) b(1) in \<open>simp add: find_agent_def put_agent_def keyed_get_put\<close>)
  moreover have "b \<notin> set (store_list_active st)" using c(2) b(1) by (simp add: store_list_active_def)
  ultimately show ?thesis using st(2) by (simp add: registry_get_def keyed_get_put)
qed

definition retired_service :: agent_service where
  "retired_service = fresh_service\<lparr>sv_agents := \<lparr>st_file = [], st_agents = [deactivated ''2025'' ''old'' reader]\<rparr>\<rparr>"

definition new_text :: agent_update_params where
  "new_text = \<lparr>au_id = ''dyn-reader'', au_description = Some ''reads files'', au_mode = None, au_allowed_tools = None, au_system_prompt = None\<rparr>"

lemma retired_found: "find_agent (au_id new_text) (st_agents (sv_agents retired_service)) = Some (deactivated ''2025'' ''old'' reader)"
  by (simp add: retired_service_def find_agent_def keyed_get_def new_text_def deactivated_def reader_fields)

lemma new_text_valid: "validate_definition (changed_agent new_text (deactivated ''2025'' ''old'' reader)) = Inr ()"
  by (simp add: validate_definition_def new_agent_def make_dynamic_agent_def compute_permissions_def reader_params_def Let_def
      is_dynamic_source_def dangerous_tools_def reserved_names_def reader_prompt reader_def changed_agent_def new_text_def deactivated_def)

lemma retired_update: "\<exists>b sv'. service_update_agent unary_codec AoWritten new_text retired_service = (Inr b, sv')"
proof -
  let ?c = "changed_agent new_text (deactivated ''2025'' ''old'' reader)"
  let ?b = "?c\<lparr>da_version := 2\<rparr>"
  have i: "da_id ?c = au_id new_text" "da_version (deactivated ''2025'' ''old'' reader) = 1"
    using reader_fields(2,4) by (simp_all add: changed_agent_def new_text_def deactivated_def Let_def)
  have v: "next_agent_version 1 = 2" by (simp add: next_agent_version_def u64_max_def)
  have n: "ad_id (runtime_definition ?b) \<noteq> []" "ad_name (runtime_definition ?b) \<noteq> []"
    by (simp_all add: runtime_definition_def Let_def changed_agent_def deactivated_def reader_def new_agent_def make_dynamic_agent_def reader_params_def)
  have f: "find_agent (da_id ?c) (st_agents (sv_agents retired_service)) = Some (deactivated ''2025'' ''old'' reader)"
    using retired_found i(1) by simp
  have s: "fst (store_update_agent unary_codec AoWritten ?c (sv_agents retired_service)) = Inr ?b"
    using f i(2) v new_text_valid by (simp add: store_update_agent_def commit_agent_def append_agent_def append_record_def)
  have r: "fst (register_or_override (runtime_definition ?b) (sv_registry retired_service)) = Inr ()"
    using n by (simp add: register_or_override_def validate_agent_def)
  have d: "au_description new_text \<noteq> None" by (simp add: new_text_def)
  have "fst (service_update_agent unary_codec AoWritten new_text retired_service) = Inr ?b"
    using s r d by (auto simp: service_update_agent_def agent_update_def retired_found meta_success_def result_agent_def
        split: prod.split sum.split)
  then have "service_update_agent unary_codec AoWritten new_text retired_service = (Inr ?b, snd (service_update_agent unary_codec AoWritten new_text retired_service))"
    by (simp add: prod_eq_iff)
  then show ?thesis by blast
qed

lemma updating_revives_a_deactivated_agent_witness:
  "\<exists>b sv'. service_update_agent unary_codec AoWritten new_text retired_service = (Inr b, sv')
     \<and> registry_get ''dyn-reader'' (sv_registry sv') = Some (runtime_definition b) \<and> b \<notin> set (store_list_active (sv_agents sv'))"
proof -
  obtain b sv' where up: "service_update_agent unary_codec AoWritten new_text retired_service = (Inr b, sv')" using retired_update by blast
  have "da_status (deactivated ''2025'' ''old'' reader) = StDeactivated" "ad_id (da_definition (deactivated ''2025'' ''old'' reader)) = ''dyn-reader''"
    by (simp_all add: deactivated_def reader_def new_agent_def make_dynamic_agent_def reader_params_def Let_def)
  then show ?thesis using updating_revives_a_deactivated_agent [OF retired_found _ up] up by auto
qed

section \<open>Creations\<close>

text \<open>C32: An agent that a dynamic agent creates may do no more than its creator in any respect, and
  may be nested less deeply: creations by creations end.\<close>

theorem creations_attenuate:
  assumes "cf_trust_tier cf = Some TierDynamic" "find_agent (cf_agent_name cf) (st_agents (sv_agents sv)) = Some a"
    and "create_tool cd ao ao2 now D cf p sv = (Inr (Inr b), sv')"
  shows "set (ep_tools_allowed (da_effective b)) \<subseteq> set (ep_tools_allowed (da_effective a)) \<inter> set (cf_agent_allowed_tools cf)
    \<and> ep_max_iterations (da_effective b) \<le> ep_max_iterations (da_effective a)
    \<and> ep_max_tool_calls (da_effective b) \<le> ep_max_tool_calls (da_effective a)
    \<and> ep_max_tokens (da_effective b) \<le> ep_max_tokens (da_effective a)
    \<and> 0 < ep_delegation_depth (da_effective b) \<and> ep_delegation_depth (da_effective b) < ep_delegation_depth (da_effective a)"
proof -
  obtain c where c: "creator_permission_snapshot D cf sv = Inr c" "fst (service_create_agent cd ao ao2 now p (cf_agent_name cf) c sv) = Inr b"
    using assms(3) by (auto simp: create_tool_def split: sum.splits prod.splits)
  obtain m st where m: "agent_create (store_create cd ao) now p (cf_agent_name cf) c (sv_agents sv) = (m, st)" by fastforce
  have "result_agent m = Inr b" using c(2) m by (auto simp: service_create_agent_def split: sum.splits prod.splits)
  then have "mt_agent m = Some b" by (auto simp: result_agent_def split: if_splits option.splits)
  then obtain st2 where "store_create cd ao (new_agent now p (cf_agent_name cf) c) (sv_agents sv) = (Inr b, st2)"
    using m by (auto simp: agent_create_def meta_success_def meta_error_def split: prod.splits sum.splits)
  then have b: "b = new_agent now p (cf_agent_name cf) c" "validate_definition b = Inr ()"
    using durable.create_Inr [of cd "(ao, now)" "new_agent now p (cf_agent_name cf) c" "sv_agents sv" b st2] by simp_all
  have eff: "da_effective b = compute_permissions (da_definition (make_dynamic_agent now (ac_name p) (ac_description p)
      (cf_agent_name cf) (ac_allowed_tools p) c)) c" "da_delegation_depth b = cs_delegation_depth c - 1" "is_dynamic_source (da_source b)"
    by (simp_all add: b(1) new_agent_def make_dynamic_agent_def Let_def is_dynamic_source_def)
  have depth: "0 < cs_delegation_depth c - 1" using agent_validated(3) [OF b(2) eff(3)] eff(2) by simp
  have snap: "set (cs_tools_allowed c) \<subseteq> set (ep_tools_allowed (da_effective a)) \<inter> set (cf_agent_allowed_tools cf)"
    "cs_max_iterations c \<le> ep_max_iterations (da_effective a)" "cs_max_tool_calls c \<le> ep_max_tool_calls (da_effective a)"
    "cs_max_tokens c \<le> ep_max_tokens (da_effective a)" "cs_delegation_depth c = ep_delegation_depth (da_effective a)"
    using c(1) assms(1,2) by (auto simp: creator_permission_snapshot_def Let_def execution_tool_names_def)
  show ?thesis unfolding eff(1) compute_permissions_def using snap depth by auto
qed

definition reader_creator :: creator_config where
  "reader_creator = \<lparr>cf_agent_name = ''dyn-reader'', cf_trust_tier = Some TierDynamic, cf_agent_allowed_tools = [''FileRead''],
     cf_tool_names = [], cf_max_iterations = 20, cf_max_tool_calls = 50, cf_max_tokens = None\<rparr>"

definition helper_params :: agent_create_params where
  "helper_params = \<lparr>ac_name = ''helper'', ac_description = ''helps'', ac_mode = AmExplore, ac_capabilities = [],
     ac_allowed_tools = [''FileRead''], ac_system_prompt = ''Read files.'', ac_context_sharing = CsNone\<rparr>"

definition reader_only :: agent_service where
  "reader_only = fresh_service\<lparr>sv_agents := \<lparr>st_file = [], st_agents = [reader]\<rparr>\<rparr>"

lemma creator_found: "find_agent (cf_agent_name reader_creator) (st_agents (sv_agents reader_only)) = Some reader"
  by (simp add: reader_only_def reader_creator_def find_agent_def keyed_get_def reader_fields)

abbreviation reader_grant :: creator_snapshot where
  "reader_grant \<equiv> \<lparr>cs_tools_allowed = [''FileRead''], cs_max_iterations = 20, cs_max_tool_calls = 40, cs_max_tokens = u64_max, cs_delegation_depth = 2\<rparr>"

lemma reader_effective: "da_effective reader = \<lparr>ep_tools_allowed = [''FileRead''], ep_max_iterations = 20, ep_max_tool_calls = 40,
    ep_max_tokens = u64_max, ep_delegation_depth = 2\<rparr>"
  by (simp add: reader_def new_agent_def make_dynamic_agent_def compute_permissions_def reader_params_def Let_def to_u32_def u32_max_def)

lemma reader_snapshot: "creator_permission_snapshot D reader_creator reader_only = Inr reader_grant"
  using creator_found
  by (simp add: creator_permission_snapshot_def Let_def reader_effective reader_creator_def execution_tool_names_def to_u32_def u32_max_def)

lemma helper_valid: "validate_definition (new_agent ''2025'' helper_params ''dyn-reader'' reader_grant) = Inr ()"
  by (simp add: validate_definition_def new_agent_def make_dynamic_agent_def compute_permissions_def helper_params_def Let_def
      is_dynamic_source_def dangerous_tools_def reserved_names_def reader_prompt)

lemma helper_created: "\<exists>sv'. create_tool unary_codec AoWritten AoWritten ''2025'' 3 reader_creator helper_params reader_only =
    (Inr (Inr (new_agent ''2025'' helper_params ''dyn-reader'' reader_grant)), sv')"
proof -
  let ?a = "new_agent ''2025'' helper_params ''dyn-reader'' reader_grant"
  have f: "da_id ?a = ''dyn-helper''" "ad_id (runtime_definition ?a) = ''dyn-helper''" "ad_name (runtime_definition ?a) = ''helper''"
    "ad_trust_tier (runtime_definition ?a) = TierDynamic" "cf_agent_name reader_creator = ''dyn-reader''"
    by (simp_all add: new_agent_def make_dynamic_agent_def helper_params_def runtime_definition_def Let_def reader_creator_def)
  have s: "fst (store_create unary_codec AoWritten ?a (sv_agents reader_only)) = Inr ?a"
    using helper_valid f(1)
    by (simp add: store_create_def reader_only_def find_agent_def keyed_get_def reader_fields commit_agent_def append_agent_def append_record_def)
  have r: "fst (register_dynamic (runtime_definition ?a) (sv_registry reader_only)) = Inr ()"
    by (simp add: register_dynamic_def register_agent_def validate_agent_def f reader_only_def fresh_service_def registry_get_def keyed_get_def)
  show ?thesis using s r
    by (auto simp: create_tool_def reader_snapshot service_create_agent_def agent_create_def f(5) meta_success_def result_agent_def
        split: prod.split sum.split)
qed

lemma creations_attenuate_witness:
  "ep_delegation_depth (da_effective (new_agent ''2025'' helper_params ''dyn-reader'' reader_grant)) < 2
    \<and> set (ep_tools_allowed (da_effective (new_agent ''2025'' helper_params ''dyn-reader'' reader_grant))) \<subseteq> {''FileRead''}"
proof -
  obtain sv' where "create_tool unary_codec AoWritten AoWritten ''2025'' 3 reader_creator helper_params reader_only =
    (Inr (Inr (new_agent ''2025'' helper_params ''dyn-reader'' reader_grant)), sv')" using helper_created by blast
  from creations_attenuate [OF _ creator_found this] show ?thesis
    by (auto simp: reader_creator_def reader_effective)
qed

end
