(* ===== verification/Conversation.thy ===== *)
theory Conversation
  imports Json
begin

text \<open>
  The conversation an agent sends to its model, and what shortens it while the agent runs
  (\<open>y-core/src/types.rs\<close>, \<open>y-context/src/pruning/patterns.rs\<close>, \<open>intra_turn.rs\<close>, \<open>superseded.rs\<close>,
  \<open>y-context/src/sampling.rs\<close>, \<open>y-service/src/agent_service/pruning.rs\<close>).

  Token counts are bounded by the text in memory and are naturals; timestamps are left out.
\<close>

section \<open>Messages\<close>

datatype role = RoleUser | RoleAssistant | RoleSystem | RoleTool

record tool_call =
  tc_id :: string
  tc_name :: string
  tc_arguments :: json

record chat_msg =
  cm_id :: string
  cm_role :: role
  cm_content :: string
  cm_call_id :: "string option"
  cm_calls :: "tool_call list"
  cm_metadata :: json

text \<open>An assistant message with tool calls.\<close>

definition calling :: "chat_msg \<Rightarrow> bool" where
  "calling m = (cm_role m = RoleAssistant \<and> cm_calls m \<noteq> [])"

text \<open>\<open>str::len\<close> is the length in UTF-8, in which the characters from 128 on take two bytes.\<close>

definition byte_len :: "string \<Rightarrow> nat" where
  "byte_len s = (\<Sum>c \<leftarrow> s. if (of_char c :: nat) < 128 then 1 else 2)"

definition div_ceil :: "nat \<Rightarrow> nat \<Rightarrow> nat" where
  "div_ceil a b = (a + b - 1) div b"

text \<open>The two estimates, from bytes and from characters.\<close>

definition estimate_tokens :: "string \<Rightarrow> nat" where
  "estimate_tokens s = min (div_ceil (byte_len s) 4) (2 ^ 32 - 1)"

definition estimate_chars :: "string \<Rightarrow> nat" where
  "estimate_chars s = min (div_ceil (length s) 4) (2 ^ 32 - 1)"

section \<open>Patterns\<close>

abbreviation dquote :: string where "dquote \<equiv> [CHR 0x22]"

definition error_patterns :: "string list" where
  "error_patterns = [dquote @ ''error'' @ dquote @ '':'', dquote @ ''error_type'' @ dquote @ '':'', ''error:'', ''Error:'',
     ''parameter validation failed'', ''permission denied'']"

definition error_prefix_patterns :: "string list" where
  "error_prefix_patterns = [''FAILED'', ''failed to'', ''not found'']"

definition empty_result_patterns :: "string list" where
  "empty_result_patterns = [dquote @ ''results'' @ dquote @ '': []'', dquote @ ''results'' @ dquote @ '':[]'',
     dquote @ ''count'' @ dquote @ '': 0'', dquote @ ''count'' @ dquote @ '':0'',
     ''no results found'', ''No results found'', ''no matches'', ''No matches'', ''[]'']"

text \<open>The head of ten bytes holds each of the prefix patterns.\<close>

definition matches_error_patterns :: "string list \<Rightarrow> string \<Rightarrow> bool" where
  "matches_error_patterns extra s = (list_ex (str_contains s) error_patterns
     \<or> list_ex (starts_with s) error_prefix_patterns \<or> list_ex (str_contains s) extra)"

definition matches_empty_patterns :: "string \<Rightarrow> bool" where
  "matches_empty_patterns s = (byte_len s < 200 \<and> list_ex (str_contains s) empty_result_patterns)"

text \<open>\<open>content_similarity\<close> above 0.9: the quotient of the doubles is above the double of 0.9
  exactly when the fraction is above 9/10, for texts below \<open>2 ^ 49\<close> bytes.\<close>

definition similar :: "string \<Rightarrow> string \<Rightarrow> bool" where
  "similar a b = (if a = [] \<and> b = [] then True else if a = [] \<or> b = [] then False
     else 9 * max (byte_len a) (byte_len b) < 10 * length (filter (\<lambda>(x, y). x = y) (zip a b)))"

section \<open>Pruning within a turn\<close>

record intra_turn_config =
  it_enabled :: bool
  it_min_iteration :: nat
  it_token_threshold :: nat

definition default_intra_turn :: intra_turn_config where
  "default_intra_turn = \<lparr>it_enabled = True, it_min_iteration = 3, it_token_threshold = 3000\<rparr>"

record intra_turn_report =
  ir_messages_removed :: nat
  ir_tokens_saved :: nat
  ir_skipped :: bool
  ir_pruned :: "chat_msg list"

definition skipped_report :: intra_turn_report where
  "skipped_report = \<lparr>ir_messages_removed = 0, ir_tokens_saved = 0, ir_skipped = True, ir_pruned = []\<rparr>"

definition max_deletions :: nat where "max_deletions = 5"

definition boundary_at :: "chat_msg list \<Rightarrow> nat \<Rightarrow> bool" where
  "boundary_at ms i = (cm_role (ms ! i) = RoleAssistant
     \<and> ((i + 1 < length ms \<and> cm_role (ms ! (i + 1)) = RoleTool)
       \<or> list_ex (\<lambda>tc. list_ex (\<lambda>m. cm_call_id m = Some (tc_id tc)) (drop (i + 1) ms)) (cm_calls (ms ! i))))"

definition last_boundary :: "chat_msg list \<Rightarrow> nat option" where
  "last_boundary ms = List.find (boundary_at ms) (rev [0..<length ms])"

definition is_protected :: "nat \<Rightarrow> nat option \<Rightarrow> bool" where
  "is_protected i b = (case b of None \<Rightarrow> False | Some k \<Rightarrow> k \<le> i)"

text \<open>The set of the identifiers to remove, in the order of their insertion, and the tokens.\<close>

type_synonym marks = "string list \<times> nat"

definition insert_id :: "string \<Rightarrow> string list \<Rightarrow> string list" where
  "insert_id i is = (if i \<in> set is then is else is @ [i])"

definition mark_msg :: "chat_msg \<Rightarrow> marks \<Rightarrow> marks" where
  "mark_msg m a = (insert_id (cm_id m) (fst a), snd a + estimate_tokens (cm_content m))"

text \<open>The first and the third signal differ in the test.\<close>

definition detect_result :: "(string \<Rightarrow> bool) \<Rightarrow> chat_msg list \<Rightarrow> nat option \<Rightarrow> nat \<Rightarrow> marks \<Rightarrow> marks" where
  "detect_result bad ms b i a =
     (if cm_role (ms ! i) \<noteq> RoleTool \<or> is_protected i b \<or> (0 < i \<and> calling (ms ! (i - 1))) \<or> \<not> bad (cm_content (ms ! i)) then a
      else if 0 < i \<and> cm_role (ms ! (i - 1)) = RoleAssistant \<and> \<not> is_protected (i - 1) b
        then mark_msg (ms ! (i - 1)) (mark_msg (ms ! i) a)
      else mark_msg (ms ! i) a)"

definition detect_error_tool_results :: "string list \<Rightarrow> chat_msg list \<Rightarrow> nat option \<Rightarrow> marks \<Rightarrow> marks" where
  "detect_error_tool_results extra ms b a = fold (detect_result (matches_error_patterns extra) ms b) [0..<length ms] a"

definition detect_empty_tool_results :: "chat_msg list \<Rightarrow> nat option \<Rightarrow> marks \<Rightarrow> marks" where
  "detect_empty_tool_results ms b a = fold (detect_result matches_empty_patterns ms b) [0..<length ms] a"

definition detect_repeated_call :: "chat_msg list \<Rightarrow> nat option \<Rightarrow> nat \<times> nat \<Rightarrow> marks \<Rightarrow> marks" where
  "detect_repeated_call ms b p a = (case p of (i, j) \<Rightarrow>
     if 3 < j - i \<or> is_protected i b \<or> cm_calls (ms ! i) \<noteq> []
       \<or> (str_trim (cm_content (ms ! i)) = [] \<and> str_trim (cm_content (ms ! j)) = [])
       \<or> \<not> similar (cm_content (ms ! i)) (cm_content (ms ! j)) then a
     else if i + 1 < length ms \<and> cm_role (ms ! (i + 1)) = RoleTool \<and> \<not> is_protected (i + 1) b
       then mark_msg (ms ! (i + 1)) (mark_msg (ms ! i) a)
     else mark_msg (ms ! i) a)"

definition assistant_indices :: "chat_msg list \<Rightarrow> nat list" where
  "assistant_indices ms = filter (\<lambda>i. cm_role (ms ! i) = RoleAssistant) [0..<length ms]"

definition detect_repeated_calls :: "chat_msg list \<Rightarrow> nat option \<Rightarrow> marks \<Rightarrow> marks" where
  "detect_repeated_calls ms b a = (let is = assistant_indices ms in fold (detect_repeated_call ms b) (zip is (tl is)) a)"

definition answers :: "chat_msg \<Rightarrow> chat_msg \<Rightarrow> bool" where
  "answers r m = (cm_role r = RoleTool \<and> (case cm_call_id r of None \<Rightarrow> False | Some c \<Rightarrow> c \<in> tc_id ` set (cm_calls m)))"

definition forward_pass :: "chat_msg list \<Rightarrow> string list \<Rightarrow> string list" where
  "forward_pass ms ids = fold (\<lambda>m ids. fold (\<lambda>r ids. if answers r m then insert_id (cm_id r) ids else ids) ms ids)
     (filter (\<lambda>m. calling m \<and> cm_id m \<in> set ids) ms) ids"

definition reverse_pass :: "chat_msg list \<Rightarrow> string list \<Rightarrow> string list" where
  "reverse_pass ms ids = fold (\<lambda>m ids. if calling m
       \<and> list_all (\<lambda>r. cm_id r \<in> set ids) (filter (\<lambda>r. answers r m) ms)
       \<and> list_ex (\<lambda>r. answers r m \<and> cm_id r \<in> set ids) ms
     then insert_id (cm_id m) ids else ids) ms ids"

definition ensure_structural_integrity :: "chat_msg list \<Rightarrow> string list \<Rightarrow> string list" where
  "ensure_structural_integrity ms ids = reverse_pass ms (forward_pass ms ids)"

text \<open>What the three signals mark.\<close>

definition detected :: "string list \<Rightarrow> chat_msg list \<Rightarrow> marks" where
  "detected extra ms = (let b = last_boundary ms in
     detect_empty_tool_results ms b (detect_repeated_calls ms b (detect_error_tool_results extra ms b ([], 0))))"

text \<open>The order in which a hash set is iterated is a parameter.\<close>

definition capped :: "(string list \<Rightarrow> string list) \<Rightarrow> string list \<Rightarrow> string list" where
  "capped order ids = (if max_deletions < length ids then take max_deletions (order ids) else ids)"

definition prune_working_history :: "(string list \<Rightarrow> string list) \<Rightarrow> intra_turn_config \<Rightarrow> string list \<Rightarrow> chat_msg list \<Rightarrow> nat \<Rightarrow>
    intra_turn_report \<times> chat_msg list" where
  "prune_working_history order cfg extra ms iteration =
     (if \<not> it_enabled cfg \<or> iteration mod 2 ^ 32 < it_min_iteration cfg then (skipped_report, ms)
      else (let (ids, tokens) = detected extra ms in
        if ids = [] \<or> tokens < it_token_threshold cfg then (skipped_report, ms)
        else (let ids = capped order (ensure_structural_integrity ms ids);
                  gone = filter (\<lambda>m. cm_id m \<in> set ids) ms
          in (\<lparr>ir_messages_removed = length gone, ir_tokens_saved = (\<Sum>m \<leftarrow> gone. estimate_tokens (cm_content m)),
                ir_skipped = False, ir_pruned = gone\<rparr>, filter (\<lambda>m. cm_id m \<notin> set ids) ms))))"

section \<open>Results that are out of date\<close>

definition superseded_notice :: string where
  "superseded_notice = ''[Superseded by a newer read of this file]''"

definition useless_notice :: string where
  "useless_notice = ''[Uneventful result elided]''"

definition min_prune_tokens :: nat where "min_prune_tokens = 50"

record output_prune_config =
  oc_superseded :: bool
  oc_useless :: bool
  oc_suffix_token_limit :: nat
  oc_is_idle :: bool

definition default_output_prune :: output_prune_config where
  "default_output_prune = \<lparr>oc_superseded = True, oc_useless = True, oc_suffix_token_limit = 8000, oc_is_idle = False\<rparr>"

record output_prune_result =
  or_pruned_count :: nat
  or_tokens_saved :: nat
  or_modified :: "string list"

definition is_selector_char :: "char \<Rightarrow> bool" where
  "is_selector_char c = (let n = (of_char c :: nat) in (48 \<le> n \<and> n \<le> 57) \<or> c = CHR ''-'' \<or> c = CHR '','')"

definition normalize_path :: "string \<Rightarrow> string" where
  "normalize_path p = (case str_rfind CHR '':'' p of
      None \<Rightarrow> p
    | Some i \<Rightarrow> if list_all is_selector_char (drop (i + 1) p) then take i p else p)"

definition supersede_key :: "string \<Rightarrow> json \<Rightarrow> string option" where
  "supersede_key name args = (if name = ''FileRead'' \<or> name = ''read''
     then (case json_get ''path'' args of Some (JString p) \<Rightarrow> Some (normalize_path p) | _ \<Rightarrow> None) else None)"

definition is_useless_result :: "string \<Rightarrow> bool" where
  "is_useless_result s = (byte_len s \<le> 200 \<and> list_ex (str_contains s) [''[]'', ''{}'', dquote @ ''results'' @ dquote @ '': []'',
     dquote @ ''count'' @ dquote @ '': 0'', ''no results'', ''No results'', ''no matches'', ''No matches'', ''nothing found''])"

text \<open>The tokens of the messages after each one.\<close>

definition suffix_tokens :: "chat_msg list \<Rightarrow> nat \<Rightarrow> nat" where
  "suffix_tokens ms i = min (\<Sum>m \<leftarrow> drop (i + 1) ms. estimate_chars (cm_content m)) (2 ^ 32 - 1)"

text \<open>The map from call identifiers, in which a later call replaces an earlier one.\<close>

definition tool_call_args :: "chat_msg list \<Rightarrow> string \<Rightarrow> (string \<times> json) option" where
  "tool_call_args ms = map_of (rev (concat (map (\<lambda>m. if cm_role m = RoleAssistant
     then map (\<lambda>tc. (tc_id tc, (tc_name tc, tc_arguments tc))) (cm_calls m) else []) ms)))"

definition result_call :: "chat_msg list \<Rightarrow> chat_msg \<Rightarrow> (string \<times> json) option" where
  "result_call ms m = (if cm_role m \<noteq> RoleTool then None
     else (case cm_call_id m of None \<Rightarrow> None | Some c \<Rightarrow> tool_call_args ms c))"

definition result_key :: "chat_msg list \<Rightarrow> chat_msg \<Rightarrow> string option" where
  "result_key ms m = (case result_call ms m of None \<Rightarrow> None | Some (name, args) \<Rightarrow> supersede_key name args)"

text \<open>The pass from the newest message to the oldest: the keys seen and the two lists of indices.\<close>

definition scan_result :: "output_prune_config \<Rightarrow> chat_msg list \<Rightarrow> nat \<Rightarrow> string list \<times> nat list \<times> nat list \<Rightarrow>
    string list \<times> nat list \<times> nat list" where
  "scan_result cfg ms i a = (case a of (seen, old, use) \<Rightarrow>
     if result_call ms (ms ! i) = None then a
     else (let long = (min_prune_tokens \<le> estimate_chars (cm_content (ms ! i)));
               use' = (if oc_useless cfg \<and> is_useless_result (cm_content (ms ! i)) \<and> long then use @ [i] else use)
       in case (if oc_superseded cfg then result_key ms (ms ! i) else None) of
            None \<Rightarrow> (seen, old, use')
          | Some k \<Rightarrow> if k \<in> set seen then (seen, if long then old @ [i] else old, use') else (insert_id k seen, old, use')))"

definition blank_result :: "output_prune_config \<Rightarrow> chat_msg list \<Rightarrow> nat list \<Rightarrow> nat \<Rightarrow> chat_msg list \<times> output_prune_result \<Rightarrow>
    chat_msg list \<times> output_prune_result" where
  "blank_result cfg ms0 old i st = (case st of (ms, r) \<Rightarrow>
     if \<not> oc_is_idle cfg \<and> oc_suffix_token_limit cfg < suffix_tokens ms0 i then st
     else (let notice = (if i \<in> set old then superseded_notice else useless_notice);
               saved = estimate_chars (cm_content (ms ! i)) - estimate_chars notice
       in if saved = 0 then st
          else (ms[i := (ms ! i)\<lparr>cm_content := notice\<rparr>],
            \<lparr>or_pruned_count = or_pruned_count r + 1, or_tokens_saved = or_tokens_saved r + saved,
             or_modified = or_modified r @ [cm_id (ms ! i)]\<rparr>)))"

definition prune_tool_outputs :: "output_prune_config \<Rightarrow> chat_msg list \<Rightarrow> chat_msg list \<times> output_prune_result" where
  "prune_tool_outputs cfg ms = (case fold (scan_result cfg ms) (rev [0..<length ms]) ([], [], []) of
     (seen, old, use) \<Rightarrow> fold (blank_result cfg ms old) (old @ use) (ms, \<lparr>or_pruned_count = 0, or_tokens_saved = 0, or_modified = []\<rparr>))"

section \<open>Rolling summaries\<close>

text \<open>\<open>str::find(&str)\<close> as what is before and after the first occurrence.\<close>

fun str_cut :: "string \<Rightarrow> string \<Rightarrow> (string \<times> string) option" where
  "str_cut p s = (if starts_with s p then Some ([], drop (length p) s)
     else (case s of [] \<Rightarrow> None | c # s' \<Rightarrow> (case str_cut p s' of None \<Rightarrow> None | Some (a, b) \<Rightarrow> Some (c # a, b))))"

declare str_cut.simps [simp del]

lemma str_cut_length: "str_cut p s = Some (a, b) \<Longrightarrow> length a + length p + length b = length s"
proof (induction p s arbitrary: a b rule: str_cut.induct)
  case (1 p s)
  then show ?case
    by (subst (asm) (2) str_cut.simps)
      (auto simp: starts_with_iff split: if_splits list.splits option.splits)
qed

definition think_open :: string where "think_open = ''<think>''"

definition think_close :: string where "think_close = ''</think>''"

definition iter_mark :: string where "iter_mark = ''<!-- iter -->''"

lemma strip_decreases: "str_cut think_open s = Some (a, b) \<Longrightarrow> str_cut think_close b = Some (c, d) \<Longrightarrow>
    length a + length (trim_start d) < length s"
  using str_cut_length [of think_open s a b] str_cut_length [of think_close b c d] length_dropWhile_le [of is_ws d]
  by (simp add: trim_start_def think_open_def)

text \<open>The loop over the tags; the closing tag is looked for from the opening one on.\<close>

function strip_thinking :: "string \<Rightarrow> string" where
  "strip_thinking s = (case str_cut think_open s of
      None \<Rightarrow> s
    | Some (a, b) \<Rightarrow> (case str_cut think_close b of None \<Rightarrow> a | Some (c, d) \<Rightarrow> strip_thinking (a @ trim_start d)))"
  by pat_completeness auto
termination
  by (relation "measure length") (auto dest: strip_decreases)

declare strip_thinking.simps [simp del]

text \<open>\<open>str::replace\<close> of the iteration marks by nothing.\<close>

function drop_marks :: "string \<Rightarrow> string" where
  "drop_marks s = (case str_cut iter_mark s of None \<Rightarrow> s | Some (a, b) \<Rightarrow> a @ drop_marks b)"
  by pat_completeness auto
termination
  by (relation "measure length") (auto dest: str_cut_length simp: iter_mark_def)

declare drop_marks.simps [simp del]

definition strip_think_tags :: "string \<Rightarrow> string" where
  "strip_think_tags s = str_trim (drop_marks (strip_thinking s))"

definition last_assistant :: "chat_msg list \<Rightarrow> nat option" where
  "last_assistant ms = List.find (\<lambda>i. cm_role (ms ! i) = RoleAssistant) (rev [0..<length ms])"

definition summary_of :: "chat_msg \<Rightarrow> string" where
  "summary_of m = str_trim (strip_think_tags (cm_content m))"

definition prune_old_tool_results :: "chat_msg list \<Rightarrow> nat \<times> chat_msg list" where
  "prune_old_tool_results ms = (case last_assistant ms of
      None \<Rightarrow> (0, ms)
    | Some k \<Rightarrow> (let before = take k ms; calls = filter calling before;
                   removed = filter (\<lambda>m. calling m \<or> cm_role m = RoleTool) before
        in if list_ex (\<lambda>m. summary_of m = []) calls \<or> removed = [] then (0, ms)
           else (let m = ms ! k;
                     merged = (if calls = [] then cm_content m
                       else str_join [CHR 0x0A, CHR 0x0A] (map summary_of calls) @ [CHR 0x0A, CHR 0x0A] @ cm_content m)
             in (length removed, filter (\<lambda>m. \<not> (calling m \<or> cm_role m = RoleTool)) before
                  @ m\<lparr>cm_content := merged\<rparr> # drop (k + 1) ms))))"

definition object_remove :: "string \<Rightarrow> json \<Rightarrow> json" where
  "object_remove k j = (case j of JObject kvs \<Rightarrow> JObject (filter (\<lambda>kv. fst kv \<noteq> k) kvs) | _ \<Rightarrow> j)"

definition strip_historical_thinking :: "chat_msg list \<Rightarrow> chat_msg list" where
  "strip_historical_thinking ms = map (\<lambda>i. let m = ms ! i in
     if cm_role m \<noteq> RoleAssistant \<or> Some i = last_assistant ms then m
     else m\<lparr>cm_content := (if str_contains (cm_content m) think_open then strip_think_tags (cm_content m) else cm_content m),
            cm_metadata := object_remove ''reasoning_content'' (cm_metadata m)\<rparr>) [0..<length ms]"

section \<open>Compaction\<close>

record token_estimate =
  te_message_tokens :: nat
  te_tool_tokens :: nat
  te_reserved_output_tokens :: nat
  te_total_tokens :: nat

definition sat_add :: "nat \<Rightarrow> nat \<Rightarrow> nat" where
  "sat_add a b = min (a + b) (2 ^ 32 - 1)"

text \<open>The text of a JSON value is a parameter.\<close>

definition message_tokens :: "(json \<Rightarrow> string) \<Rightarrow> chat_msg \<Rightarrow> nat" where
  "message_tokens show_json m = fold (\<lambda>n t. sat_add t n)
     [4, estimate_chars (cm_content m),
      fold (\<lambda>tc t. sat_add (sat_add t (estimate_chars (tc_name tc))) (estimate_chars (show_json (tc_arguments tc)))) (cm_calls m) 0,
      (case cm_call_id m of None \<Rightarrow> 0 | Some c \<Rightarrow> estimate_chars c)] 0"

definition estimate_sampling_tokens :: "(json \<Rightarrow> string) \<Rightarrow> chat_msg list \<Rightarrow> json list \<Rightarrow> nat option \<Rightarrow> token_estimate" where
  "estimate_sampling_tokens show_json ms tools max_tokens =
     (let mt = fold (\<lambda>m t. sat_add t (message_tokens show_json m)) ms 0;
          tt = fold (\<lambda>tool t. sat_add t (estimate_chars (show_json tool))) tools 0;
          ro = (case max_tokens of None \<Rightarrow> 4096 | Some n \<Rightarrow> n)
      in \<lparr>te_message_tokens = mt, te_tool_tokens = tt, te_reserved_output_tokens = ro, te_total_tokens = sat_add (sat_add mt tt) ro\<rparr>)"

datatype preflight_verdict = PvUnknownContextWindow | PvFits nat nat | PvCompact nat nat

definition sampling_preflight :: "token_estimate \<Rightarrow> nat \<Rightarrow> nat \<Rightarrow> preflight_verdict" where
  "sampling_preflight est window pct = (if window = 0 then PvUnknownContextWindow
     else (let limit = min (min (window * min pct 100) (2 ^ 64 - 1) div 100) (2 ^ 32 - 1)
       in if limit \<le> te_total_tokens est then PvCompact (te_total_tokens est) limit else PvFits (te_total_tokens est) limit))"

definition generated_kinds :: "string list" where
  "generated_kinds = [''compaction_summary'', ''handoff'']"

definition protected_prefix_len :: "chat_msg list \<Rightarrow> nat" where
  "protected_prefix_len ms = (case ms of [] \<Rightarrow> 0 | m # _ \<Rightarrow>
     if cm_role m = RoleSystem \<and> (case json_get ''type'' (cm_metadata m) of Some (JString k) \<Rightarrow> k \<notin> set generated_kinds | _ \<Rightarrow> True)
     then 1 else 0)"

definition crosses :: "chat_msg list \<Rightarrow> nat \<Rightarrow> nat \<Rightarrow> bool" where
  "crosses ms e i = (calling (ms ! i) \<and> list_ex (\<lambda>r. answers r (ms ! i)) (drop e ms))"

definition safe_compaction_range :: "chat_msg list \<Rightarrow> nat \<Rightarrow> (nat \<times> nat) option" where
  "safe_compaction_range ms retain = (let s = protected_prefix_len ms; e = length ms - retain in
     if e \<le> s then None
     else (let e' = (case List.find (crosses ms e) [0..<e] of None \<Rightarrow> e | Some i \<Rightarrow> i)
       in if s < e' then Some (s, e') else None))"

text \<open>What \<open>optimize_working_history_before_sampling\<close>, \<open>run_handoff\<close> and \<open>run_compaction\<close> put in the place of
  the range.\<close>

definition summary_message :: "string \<Rightarrow> string \<Rightarrow> string \<Rightarrow> chat_msg" where
  "summary_message i kind text = \<lparr>cm_id = i, cm_role = RoleSystem, cm_content = text, cm_call_id = None, cm_calls = [],
     cm_metadata = json_object [(''type'', JString kind)]\<rparr>"

definition replace_range :: "chat_msg list \<Rightarrow> nat \<times> nat \<Rightarrow> chat_msg \<Rightarrow> chat_msg list" where
  "replace_range ms rng m = take (fst rng) ms @ m # drop (snd rng) ms"

end
