(* ===== verification/ConversationCorrect.thy ===== *)
theory ConversationCorrect
  imports Conversation
begin

text \<open>
  What shortening a conversation keeps: calls and their results, the newest results, summaries.
\<close>

section \<open>Marks\<close>

text \<open>What the signals may mark: a tool message that does not directly follow a calling message, or
  an assistant message without calls, before the boundary.\<close>

definition markable :: "chat_msg list \<Rightarrow> nat option \<Rightarrow> nat \<Rightarrow> bool" where
  "markable ms b i = (i < length ms \<and> \<not> is_protected i b
     \<and> (cm_role (ms ! i) = RoleTool \<and> \<not> (0 < i \<and> calling (ms ! (i - 1)))
       \<or> cm_role (ms ! i) = RoleAssistant \<and> cm_calls (ms ! i) = []))"

definition marks_ok :: "chat_msg list \<Rightarrow> nat option \<Rightarrow> marks \<Rightarrow> bool" where
  "marks_ok ms b a = (\<forall>x \<in> set (fst a). \<exists>i. markable ms b i \<and> x = cm_id (ms ! i))"

lemma set_insert_id [simp]: "set (insert_id i is) = insert i (set is)"
  by (auto simp: insert_id_def)

lemma marks_ok_mark: "marks_ok ms b a \<Longrightarrow> markable ms b i \<Longrightarrow> marks_ok ms b (mark_msg (ms ! i) a)"
  by (auto simp: marks_ok_def mark_msg_def)

lemma fold_keeps: "P a \<Longrightarrow> (\<And>x a. x \<in> set xs \<Longrightarrow> P a \<Longrightarrow> P (f x a)) \<Longrightarrow> P (fold f xs a)"
  by (induction xs arbitrary: a) auto

lemma detect_result_ok:
  assumes "marks_ok ms b a" "i < length ms"
  shows "marks_ok ms b (detect_result bad ms b i a)"
proof (cases "cm_role (ms ! i) \<noteq> RoleTool \<or> is_protected i b \<or> (0 < i \<and> calling (ms ! (i - 1))) \<or> \<not> bad (cm_content (ms ! i))")
  case True
  then show ?thesis using assms(1) by (simp add: detect_result_def)
next
  case False
  then have i: "markable ms b i" using assms(2) by (simp add: markable_def)
  note marked = marks_ok_mark [OF assms(1) i]
  show ?thesis
  proof (cases "0 < i \<and> cm_role (ms ! (i - 1)) = RoleAssistant \<and> \<not> is_protected (i - 1) b")
    case True
    then have "markable ms b (i - 1)" using False assms(2) by (auto simp: markable_def calling_def)
    then show ?thesis using marks_ok_mark [OF marked] False True by (simp add: detect_result_def)
  next
    case not_prev: False
    then have "detect_result bad ms b i a = mark_msg (ms ! i) a" using False unfolding detect_result_def by (simp only: if_False)
    then show ?thesis using marked by simp
  qed
qed

lemma repeated_call_ok:
  assumes "marks_ok ms b a" "i < length ms" "cm_role (ms ! i) = RoleAssistant"
  shows "marks_ok ms b (detect_repeated_call ms b (i, j) a)"
proof (cases "3 < j - i \<or> is_protected i b \<or> cm_calls (ms ! i) \<noteq> []
       \<or> (str_trim (cm_content (ms ! i)) = [] \<and> str_trim (cm_content (ms ! j)) = [])
       \<or> \<not> similar (cm_content (ms ! i)) (cm_content (ms ! j))")
  case True
  then show ?thesis using assms(1) by (simp only: detect_repeated_call_def prod.case if_True)
next
  case False
  then have i: "markable ms b i" using assms(2,3) by (simp add: markable_def)
  note marked = marks_ok_mark [OF assms(1) i]
  have "markable ms b (i + 1)" if "i + 1 < length ms \<and> cm_role (ms ! (i + 1)) = RoleTool \<and> \<not> is_protected (i + 1) b"
    using that False by (auto simp: markable_def calling_def)
  then show ?thesis using marks_ok_mark [OF marked] marked False
    by (simp only: detect_repeated_call_def prod.case if_False split: if_split) blast
qed

lemma detected_ok: "marks_ok ms (last_boundary ms) (detected extra ms)"
proof -
  let ?b = "last_boundary ms"
  have results: "marks_ok ms ?b (fold (detect_result bad ms ?b) [0..<length ms] a)" if "marks_ok ms ?b a" for bad a
    by (rule fold_keeps [of "marks_ok ms ?b"]) (use that detect_result_ok in auto)
  let ?is = "assistant_indices ms"
  have repeated: "marks_ok ms ?b (fold (detect_repeated_call ms ?b) (zip ?is (tl ?is)) a)" if "marks_ok ms ?b a" for a
  proof (rule fold_keeps [of "marks_ok ms ?b"])
    fix p a
    assume p: "p \<in> set (zip ?is (tl ?is))" "marks_ok ms ?b a"
    obtain i j where ij: "p = (i, j)" by (cases p)
    then have "i \<in> set ?is" using p(1) by (auto dest: set_zip_leftD)
    then show "marks_ok ms ?b (detect_repeated_call ms ?b p a)"
      using repeated_call_ok [OF p(2)] ij by (simp add: assistant_indices_def)
  qed (rule that)
  have "marks_ok ms ?b ([], 0)" by (simp add: marks_ok_def)
  then show ?thesis
    unfolding detected_def Let_def detect_error_tool_results_def detect_repeated_calls_def detect_empty_tool_results_def
    by (intro results repeated)
qed

lemma forward_none: "(\<forall>m \<in> set ms. calling m \<longrightarrow> cm_id m \<notin> set ids) \<Longrightarrow> forward_pass ms ids = ids"
proof -
  assume "\<forall>m \<in> set ms. calling m \<longrightarrow> cm_id m \<notin> set ids"
  then have "filter (\<lambda>m. calling m \<and> cm_id m \<in> set ids) ms = []" by (simp add: filter_empty_conv)
  then show ?thesis by (simp add: forward_pass_def)
qed

lemma reverse_none:
  assumes "\<forall>r \<in> set ms. cm_role r = RoleTool \<longrightarrow> cm_id r \<notin> set ids"
  shows "reverse_pass ms ids = ids"
proof -
  have "fold (\<lambda>m ids. if calling m \<and> list_all (\<lambda>r. cm_id r \<in> set ids) (filter (\<lambda>r. answers r m) ms)
       \<and> list_ex (\<lambda>r. answers r m \<and> cm_id r \<in> set ids) ms then insert_id (cm_id m) ids else ids) ns ids = ids" for ns
    using assms by (induction ns) (auto simp: list_ex_iff answers_def)
  then show ?thesis by (simp add: reverse_pass_def)
qed

lemma distinct_same: "distinct (map f xs) \<Longrightarrow> i < length xs \<Longrightarrow> j < length xs \<Longrightarrow> f (xs ! i) = f (xs ! j) \<Longrightarrow> i = j"
  using nth_eq_iff_index_eq [of "map f xs" i j] by simp

lemma set_capped: "(\<And>xs. set (order xs) \<subseteq> set xs) \<Longrightarrow> set (capped order ids) \<subseteq> set ids"
  by (auto simp: capped_def dest: in_set_takeD)



definition call_msg :: "string \<Rightarrow> string list \<Rightarrow> chat_msg" where
  "call_msg i cs = \<lparr>cm_id = i, cm_role = RoleAssistant, cm_content = [], cm_call_id = None,
     cm_calls = map (\<lambda>c. \<lparr>tc_id = c, tc_name = ''FileRead'', tc_arguments = JNull\<rparr>) cs, cm_metadata = JNull\<rparr>"

definition result_msg :: "string \<Rightarrow> string \<Rightarrow> string \<Rightarrow> chat_msg" where
  "result_msg i c text = \<lparr>cm_id = i, cm_role = RoleTool, cm_content = text, cm_call_id = Some c, cm_calls = [], cm_metadata = JNull\<rparr>"

definition text_msg :: "string \<Rightarrow> role \<Rightarrow> string \<Rightarrow> chat_msg" where
  "text_msg i r text = \<lparr>cm_id = i, cm_role = r, cm_content = text, cm_call_id = None, cm_calls = [], cm_metadata = JNull\<rparr>"

definition retrying :: "chat_msg list" where
  "retrying = [text_msg ''u'' RoleUser ''find it'', text_msg ''x'' RoleAssistant ''Let me look.'',
     text_msg ''y'' RoleAssistant ''Let me look.'', call_msg ''a'' [''c''], result_msg ''r'' ''c'' ''found'']"

lemma byte_len_simps [simp]: "byte_len [] = 0" "byte_len (c # s) = (if (of_char c :: nat) < 128 then 1 else 2) + byte_len s"
  by (simp_all add: byte_len_def)

lemma byte_len_replicate [simp]: "byte_len (replicate n c) = n * byte_len [c]"
  by (induction n) simp_all

lemma retrying_detected: "detected [] retrying = ([''x''], 3)"
proof -
  have upt: "[0..<length retrying] = [0, 1, 2, 3, 4]" by (simp add: retrying_def upt_rec)
  note defs = retrying_def text_msg_def call_msg_def result_msg_def
  have b: "last_boundary retrying = Some 3" unfolding last_boundary_def upt by (simp add: boundary_at_def defs)
  have "assistant_indices retrying = [1, 2, 3]" unfolding assistant_indices_def upt by (simp add: defs)
  moreover have "str_trim ''Let me look.'' = ''Let me look.''" by code_simp
  ultimately have rep: "detect_repeated_calls retrying (Some 3) ([], 0) = ([''x''], 3)"
    unfolding detect_repeated_calls_def
    by (simp add: detect_repeated_call_def defs is_protected_def similar_def mark_msg_def insert_id_def estimate_tokens_def div_ceil_def)
  have err: "detect_error_tool_results [] retrying (Some 3) a = a" for a
    unfolding detect_error_tool_results_def upt by (simp add: detect_result_def defs is_protected_def)
  have emp: "detect_empty_tool_results retrying (Some 3) a = a" for a
    unfolding detect_empty_tool_results_def upt by (simp add: detect_result_def defs is_protected_def)
  show ?thesis by (simp add: detected_def Let_def b err rep emp)
qed

lemma retrying_pruned:
  "prune_working_history id (default_intra_turn\<lparr>it_token_threshold := 1\<rparr>) [] retrying 3 =
    (\<lparr>ir_messages_removed = 1, ir_tokens_saved = 3, ir_skipped = False, ir_pruned = [retrying ! 1]\<rparr>,
     [retrying ! 0, retrying ! 2, retrying ! 3, retrying ! 4])"
proof -
  note defs = retrying_def text_msg_def call_msg_def result_msg_def
  have "forward_pass retrying [''x''] = [''x'']" by (rule forward_none) (simp add: defs calling_def)
  moreover have "reverse_pass retrying [''x''] = [''x'']" by (rule reverse_none) (simp add: defs)
  ultimately have "capped id (ensure_structural_integrity retrying [''x'']) = [''x'']"
    by (simp add: ensure_structural_integrity_def capped_def max_deletions_def)
  then show ?thesis
    by (simp add: prune_working_history_def default_intra_turn_def retrying_detected Let_def) (simp add: defs estimate_tokens_def div_ceil_def)
qed



section \<open>Outdated results\<close>

definition newer_read :: "chat_msg list \<Rightarrow> nat \<Rightarrow> bool" where
  "newer_read ms i = (\<exists>j > i. j < length ms \<and> result_key ms (ms ! j) \<noteq> None \<and> result_key ms (ms ! j) = result_key ms (ms ! i))"

definition worth :: "chat_msg list \<Rightarrow> nat \<Rightarrow> bool" where
  "worth ms i = (i < length ms \<and> cm_role (ms ! i) = RoleTool \<and> min_prune_tokens \<le> estimate_chars (cm_content (ms ! i)))"

definition scan_ok :: "chat_msg list \<Rightarrow> nat \<Rightarrow> string list \<times> nat list \<times> nat list \<Rightarrow> bool" where
  "scan_ok ms k a = (case a of (seen, old, use) \<Rightarrow> (\<forall>x \<in> set seen. \<exists>j \<ge> k. j < length ms \<and> result_key ms (ms ! j) = Some x)
     \<and> (\<forall>i \<in> set old. worth ms i \<and> newer_read ms i) \<and> (\<forall>i \<in> set use. worth ms i \<and> is_useless_result (cm_content (ms ! i))))"

lemma scan_result_ok:
  assumes "scan_ok ms (Suc i) a" "i < length ms"
  shows "scan_ok ms i (scan_result cfg ms i a)"
proof -
  obtain seen old use where a: "a = (seen, old, use)" by (cases a)
  have later: "\<exists>j \<ge> Suc i. j < length ms \<and> result_key ms (ms ! j) = Some x" if "x \<in> set seen" for x
    using assms(1) that by (auto simp: scan_ok_def a)
  then have weaken: "scan_ok ms i a" using assms(1) by (auto simp: scan_ok_def a) (metis Suc_leD)
  show ?thesis
  proof (cases "result_call ms (ms ! i)")
    case None
    then show ?thesis using weaken by (simp add: scan_result_def a)
  next
    case (Some c)
    then have tool: "cm_role (ms ! i) = RoleTool" by (auto simp: result_call_def split: if_splits)
    have newer: "newer_read ms i" if "result_key ms (ms ! i) = Some x" "x \<in> set seen" for x
      using later [OF that(2)] that(1) unfolding newer_read_def by (metis Suc_le_lessD option.distinct(1))
    show ?thesis using weaken newer tool assms(2) Some
      by (auto simp: scan_result_def scan_ok_def a Let_def worth_def split: option.splits if_splits)
  qed
qed

lemma scan_all_ok: "k \<le> length ms \<Longrightarrow> scan_ok ms k (fold (scan_result cfg ms) (rev [k..<length ms]) ([], [], []))"
proof (induction "length ms - k" arbitrary: k)
  case 0
  then show ?case by (simp add: scan_ok_def)
next
  case (Suc n)
  then have "[k..<length ms] = k # [Suc k..<length ms]" by (simp add: upt_conv_Cons)
  then show ?case using scan_result_ok [OF Suc(1) [of "Suc k"]] Suc(2,3) by simp
qed

definition notice_at :: "nat list \<Rightarrow> nat \<Rightarrow> string" where
  "notice_at old i = (if i \<in> set old then superseded_notice else useless_notice)"

lemma blank_all:
  "set is \<subseteq> {..<length ms0} \<Longrightarrow> fold (blank_result cfg ms1 old) is (ms0, r0) = (ms, r) \<Longrightarrow> length ms = length ms0
    \<and> (\<forall>i < length ms0. ms ! i = ms0 ! i \<or> i \<in> set is \<and> ms ! i = (ms0 ! i)\<lparr>cm_content := notice_at old i\<rparr>)"
proof (induction "is" arbitrary: ms0 r0)
  case (Cons k ks)
  obtain ms' r' where step: "blank_result cfg ms1 old k (ms0, r0) = (ms', r')" by fastforce
  then have one: "ms' = ms0 \<or> ms' = ms0[k := (ms0 ! k)\<lparr>cm_content := notice_at old k\<rparr>]"
    by (auto simp: blank_result_def Let_def notice_at_def split: if_splits)
  then have len: "length ms' = length ms0" by auto
  have rest: "length ms = length ms' \<and> (\<forall>i < length ms'. ms ! i = ms' ! i \<or> i \<in> set ks \<and> ms ! i = (ms' ! i)\<lparr>cm_content := notice_at old i\<rparr>)"
    by (rule Cons.IH) (use Cons.prems step len in auto)
  have "ms ! i = ms0 ! i \<or> i \<in> set (k # ks) \<and> ms ! i = (ms0 ! i)\<lparr>cm_content := notice_at old i\<rparr>" if i: "i < length ms0" for i
  proof (cases "ms' ! i = ms0 ! i")
    case True
    then show ?thesis using rest i len by auto
  next
    case False
    then have "k = i" using one i by (cases "k = i") auto
    then have "ms' ! i = (ms0 ! i)\<lparr>cm_content := notice_at old i\<rparr>" using one i False by auto
    then show ?thesis using rest i len \<open>k = i\<close> by auto
  qed
  then show ?case using rest len by simp
qed simp

lemma long_chars: "50 \<le> estimate_chars s \<Longrightarrow> 197 \<le> length s"
  by (simp add: estimate_chars_def div_ceil_def)

text \<open>C36: Blanking keeps every message, with its identifier, role and calls.  It replaces only the
  text of tool results, either of a read that a newer read of the same file follows, or of a result
  that is called useless, and the second only for texts of 197 to 200 characters, since a shorter
  one is not worth it and a longer one not called useless.\<close>

theorem only_newer_reads_and_odd_lengths_are_blanked:
  fixes cfg ms
  defines "ms' \<equiv> fst (prune_tool_outputs cfg ms)"
  shows "length ms' = length ms \<and> (\<forall>i < length ms. ms' ! i = ms ! i \<or> cm_role (ms ! i) = RoleTool \<and>
    (ms' ! i = (ms ! i)\<lparr>cm_content := superseded_notice\<rparr> \<and> newer_read ms i
     \<or> ms' ! i = (ms ! i)\<lparr>cm_content := useless_notice\<rparr> \<and> 197 \<le> length (cm_content (ms ! i)) \<and> byte_len (cm_content (ms ! i)) \<le> 200))"
proof -
  obtain seen old use where scan: "fold (scan_result cfg ms) (rev [0..<length ms]) ([], [], []) = (seen, old, use)" by (metis prod_cases3)
  have ok: "\<forall>i \<in> set old. worth ms i \<and> newer_read ms i" "\<forall>i \<in> set use. worth ms i \<and> is_useless_result (cm_content (ms ! i))"
    using scan_all_ok [of 0 ms cfg] by (simp_all add: scan scan_ok_def)
  have "set (old @ use) \<subseteq> {..<length ms}" using ok by (auto simp: worth_def)
  then have all: "length ms' = length ms \<and> (\<forall>i < length ms. ms' ! i = ms ! i
      \<or> i \<in> set (old @ use) \<and> ms' ! i = (ms ! i)\<lparr>cm_content := notice_at old i\<rparr>)"
    by (rule blank_all [where r = "snd (prune_tool_outputs cfg ms)"]) (simp add: ms'_def prune_tool_outputs_def scan)
  have "cm_role (ms ! i) = RoleTool \<and>
    (ms' ! i = (ms ! i)\<lparr>cm_content := superseded_notice\<rparr> \<and> newer_read ms i
     \<or> ms' ! i = (ms ! i)\<lparr>cm_content := useless_notice\<rparr> \<and> 197 \<le> length (cm_content (ms ! i)) \<and> byte_len (cm_content (ms ! i)) \<le> 200)"
    if "i \<in> set (old @ use)" "ms' ! i = (ms ! i)\<lparr>cm_content := notice_at old i\<rparr>" for i
  proof (cases "i \<in> set old")
    case True
    then show ?thesis using ok(1) that by (simp add: worth_def notice_at_def)
  next
    case False
    then have "worth ms i" "is_useless_result (cm_content (ms ! i))" using ok(2) that(1) by auto
    then show ?thesis using that(2) False long_chars
      by (simp add: worth_def is_useless_result_def min_prune_tokens_def notice_at_def)
  qed
  then show ?thesis using all by blast
qed

definition two_reads :: "chat_msg list" where
  "two_reads = [(call_msg ''a'' [])\<lparr>cm_calls := [\<lparr>tc_id = ''c1'', tc_name = ''FileRead'', tc_arguments = JObject [(''path'', JString ''m.rs'')]\<rparr>]\<rparr>,
     result_msg ''r1'' ''c1'' ''old text'',
     (call_msg ''b'' [])\<lparr>cm_calls := [\<lparr>tc_id = ''c2'', tc_name = ''FileRead'', tc_arguments = JObject [(''path'', JString ''m.rs:1-20'')]\<rparr>]\<rparr>,
     result_msg ''r2'' ''c2'' ''new text'']"

lemma only_newer_reads_and_odd_lengths_are_blanked_witness:
  "fst (prune_tool_outputs default_output_prune two_reads) ! 3 = result_msg ''r2'' ''c2'' ''new text''"
proof -
  have "length two_reads = 4" "two_reads ! 3 = result_msg ''r2'' ''c2'' ''new text''" by (simp_all add: two_reads_def)
  moreover have "\<not> newer_read two_reads 3" by (simp add: newer_read_def two_reads_def)
  moreover have "length (cm_content (result_msg ''r2'' ''c2'' ''new text'')) = 8" by (simp add: result_msg_def)
  ultimately show ?thesis
    using only_newer_reads_and_odd_lengths_are_blanked [of default_output_prune two_reads, THEN conjunct2, rule_format, of 3] by simp
qed

section \<open>Rolling summaries\<close>

lemma str_contains_join: "x \<in> set xs \<Longrightarrow> str_contains (str_join sep xs @ t) x"
proof (induction sep xs rule: str_join.induct)
  case (2 sep y)
  then show ?case by (simp add: str_contains_def)
next
  case (3 sep y z zs)
  show ?case
  proof (cases "x = y")
    case True
    then show ?thesis by (simp add: str_contains_def)
  next
    case False
    then have "str_contains (str_join sep (z # zs) @ t) x" using 3 by simp
    then show ?thesis unfolding str_contains_def str_join.simps append_assoc by (meson sublist_order.dual_order.trans sublist_append_leftI)
  qed
qed simp

text \<open>Merging old tool results keeps the messages of the user and the system, leaves at most one
  message with calls before the end, and keeps the text of every message it removes.\<close>

theorem rolling_summaries_keep_what_was_said:
  assumes "prune_old_tool_results ms = (Suc n, ms')"
  shows "filter (\<lambda>m. cm_role m = RoleUser \<or> cm_role m = RoleSystem) ms' = filter (\<lambda>m. cm_role m = RoleUser \<or> cm_role m = RoleSystem) ms
    \<and> length (filter calling ms') \<le> 1
    \<and> (\<forall>m \<in> set ms. calling m \<longrightarrow> (\<exists>x \<in> set ms'. cm_role x = RoleAssistant
        \<and> (str_contains (cm_content x) (summary_of m) \<or> str_contains (cm_content x) (cm_content m))))"
proof -
  obtain k where k: "last_assistant ms = Some k" using assms by (auto simp: prune_old_tool_results_def split: option.splits)
  have in_range: "k < length ms" "cm_role (ms ! k) = RoleAssistant"
    using find_Some_iff2 [OF k [unfolded last_assistant_def]] by auto
  obtain i where i: "i < length ms" "rev [0..<length ms] ! i = k" "\<forall>j < i. cm_role (ms ! (rev [0..<length ms] ! j)) \<noteq> RoleAssistant"
    using k by (auto simp: last_assistant_def find_Some_iff)
  then have ik: "i = length ms - 1 - k" by (auto simp: rev_nth)
  have later: "cm_role (ms ! j) \<noteq> RoleAssistant" if "k < j" "j < length ms" for j
    using i(3) [rule_format, of "length ms - 1 - j"] that ik by (auto simp: rev_nth)
  have after: "\<forall>m \<in> set (drop (k + 1) ms). cm_role m \<noteq> RoleAssistant"
    by (auto simp: in_set_conv_nth later)
  let ?before = "take k ms" and ?calls = "filter calling (take k ms)"
  let ?merged = "if ?calls = [] then cm_content (ms ! k)
    else str_join [CHR 0x0A, CHR 0x0A] (map summary_of ?calls) @ [CHR 0x0A, CHR 0x0A] @ cm_content (ms ! k)"
  have ms': "ms' = filter (\<lambda>m. \<not> (calling m \<or> cm_role m = RoleTool)) ?before @ (ms ! k)\<lparr>cm_content := ?merged\<rparr> # drop (k + 1) ms"
    using assms k by (auto simp: prune_old_tool_results_def Let_def split: if_splits)
  have ms: "ms = ?before @ ms ! k # drop (k + 1) ms" using id_take_nth_drop [OF in_range(1)] by simp
  let ?P = "\<lambda>m. cm_role m = RoleUser \<or> cm_role m = RoleSystem"
  have "filter ?P (filter (\<lambda>m. \<not> (calling m \<or> cm_role m = RoleTool)) ?before) = filter ?P ?before"
    by (simp add: filter_filter) (rule filter_cong, auto simp: calling_def)
  then have "filter ?P ms' = filter ?P (?before @ ms ! k # drop (k + 1) ms)"
    unfolding ms' using in_range(2) by (simp only: filter_append filter.simps) simp
  moreover have "filter ?P ms = filter ?P (?before @ ms ! k # drop (k + 1) ms)" by (rule arg_cong [OF ms])
  ultimately have users: "filter ?P ms' = filter ?P ms" by (rule trans [OF _ sym])
  have "filter calling (drop (k + 1) ms) = []" using after by (auto simp: filter_empty_conv calling_def)
  moreover have "filter calling (filter (\<lambda>m. \<not> (calling m \<or> cm_role m = RoleTool)) ?before) = []" by (auto simp: filter_empty_conv)
  ultimately have one: "length (filter calling ms') \<le> 1" unfolding ms' by simp
  have "\<exists>x \<in> set ms'. cm_role x = RoleAssistant \<and> (str_contains (cm_content x) (summary_of m) \<or> str_contains (cm_content x) (cm_content m))"
    if m: "m \<in> set ms" "calling m" for m
  proof -
    have "m \<in> set ?before \<or> m = ms ! k \<or> m \<in> set (drop (k + 1) ms)" using m(1) ms by (metis UnE set_ConsD set_append)
    then consider "m \<in> set ?calls" | "m = ms ! k" using m(2) after by (auto simp: calling_def)
    then have "str_contains ?merged (summary_of m) \<or> str_contains ?merged (cm_content m)"
    proof cases
      case 1
      then show ?thesis using str_contains_join [of "summary_of m" "map summary_of ?calls"] by auto
    next
      case 2
      have "str_contains (u @ cm_content m) (cm_content m)" for u unfolding str_contains_def by (rule sublist_append_leftI)
      from this [of "[]"] this [of "str_join [CHR 0x0A, CHR 0x0A] (map summary_of ?calls) @ [CHR 0x0A, CHR 0x0A]"]
      show ?thesis using 2 by simp
    qed
    then show ?thesis unfolding ms' using in_range(2) by auto
  qed
  with users one show ?thesis by blast
qed

definition summarizing :: "chat_msg list" where
  "summarizing = [text_msg ''u'' RoleUser ''read it'', (call_msg ''a'' [''c1''])\<lparr>cm_content := ''Part one.''\<rparr>, result_msg ''r1'' ''c1'' ''one'',
     (call_msg ''b'' [''c2''])\<lparr>cm_content := ''Part two.''\<rparr>, result_msg ''r2'' ''c2'' ''two'']"

lemma summarizing_pruned: "prune_old_tool_results summarizing = (2, [text_msg ''u'' RoleUser ''read it'',
    (call_msg ''b'' [''c2''])\<lparr>cm_content := ''Part one.'' @ [CHR 0x0A, CHR 0x0A] @ ''Part two.''\<rparr>, result_msg ''r2'' ''c2'' ''two''])"
  by code_simp

lemma rolling_summaries_keep_what_was_said_witness:
  "\<exists>x \<in> {text_msg ''u'' RoleUser ''read it'',
      (call_msg ''b'' [''c2''])\<lparr>cm_content := ''Part one.'' @ [CHR 0x0A, CHR 0x0A] @ ''Part two.''\<rparr>, result_msg ''r2'' ''c2'' ''two''}.
    str_contains (cm_content x) (summary_of (summarizing ! 1)) \<or> str_contains (cm_content x) (cm_content (summarizing ! 1))"
proof -
  have "prune_old_tool_results summarizing = (Suc 1, [text_msg ''u'' RoleUser ''read it'',
    (call_msg ''b'' [''c2''])\<lparr>cm_content := ''Part one.'' @ [CHR 0x0A, CHR 0x0A] @ ''Part two.''\<rparr>, result_msg ''r2'' ''c2'' ''two''])"
    using summarizing_pruned by (simp add: numeral_2_eq_2)
  from rolling_summaries_keep_what_was_said [OF this, THEN conjunct2, THEN conjunct2, rule_format, of "summarizing ! 1"]
  show ?thesis by (auto simp: summarizing_def call_msg_def calling_def)
qed

section \<open>Compaction\<close>

text \<open>Every result follows the message that calls for it, with no other calling message between.\<close>

definition results_follow :: "chat_msg list \<Rightarrow> bool" where
  "results_follow ms = (\<forall>i j. i < length ms \<longrightarrow> j < length ms \<longrightarrow> calling (ms ! i) \<longrightarrow> answers (ms ! j) (ms ! i) \<longrightarrow>
     i < j \<and> (\<forall>k. i < k \<longrightarrow> k < j \<longrightarrow> \<not> calling (ms ! k)))"

lemma crosses_iff: "e \<le> length ms \<Longrightarrow> crosses ms e i \<longleftrightarrow> calling (ms ! i) \<and> (\<exists>j \<ge> e. j < length ms \<and> answers (ms ! j) (ms ! i))"
proof -
  assume e: "e \<le> length ms"
  have "(\<exists>r \<in> set (drop e ms). answers r (ms ! i)) \<longleftrightarrow> (\<exists>j \<ge> e. j < length ms \<and> answers (ms ! j) (ms ! i))" (is "?l = ?r")
  proof
    assume ?l
    then obtain n where "n < length ms - e" "answers (ms ! (e + n)) (ms ! i)" using e by (auto simp: in_set_conv_nth)
    then show ?r by (intro exI [of _ "e + n"]) auto
  next
    assume ?r
    then obtain j where j: "e \<le> j" "j < length ms" "answers (ms ! j) (ms ! i)" by blast
    then have "ms ! j \<in> set (drop e ms)" using e by (auto simp: in_set_conv_nth intro!: exI [of _ "j - e"])
    then show ?l using j(3) by blast
  qed
  then show ?thesis by (simp add: crosses_def list_ex_iff)
qed

lemma found_first:
  "k < (case List.find P [0..<n] of None \<Rightarrow> n | Some i \<Rightarrow> i) \<Longrightarrow> \<not> P k"
  by (cases "List.find P [0..<n]") (force simp: find_None_iff, force simp: find_Some_iff)

lemma found_within: "List.find P [0..<n] = Some i \<Longrightarrow> i < n \<and> P i"
  by (auto simp: find_Some_iff)

lemma found_last:
  "(case List.find P [0..<n] of None \<Rightarrow> n | Some i \<Rightarrow> i) < n \<Longrightarrow> P (case List.find P [0..<n] of None \<Rightarrow> n | Some i \<Rightarrow> i)"
  by (auto dest: found_within split: option.splits)

lemma found_bound: "(case List.find P [0..<n] of None \<Rightarrow> n | Some i \<Rightarrow> i) \<le> n"
  by (auto dest: found_within split: option.splits)

text \<open>A range is closed if it has a call exactly when it has each of its results.\<close>

lemma safe_range:
  assumes "results_follow ms" "safe_compaction_range ms retain = Some (s, e)"
  shows "s < e" "e \<le> length ms - retain" "s = protected_prefix_len ms"
    and "\<lbrakk>i < length ms; j < length ms; calling (ms ! i); answers (ms ! j) (ms ! i)\<rbrakk> \<Longrightarrow> i < e \<longleftrightarrow> j < e"
proof -
  let ?E = "length ms - retain"
  let ?find = "List.find (crosses ms ?E) [0..<?E]"
  have r: "s = protected_prefix_len ms" "s < e" "e = (case ?find of None \<Rightarrow> ?E | Some i \<Rightarrow> i)"
    using assms(2) by (auto simp: safe_compaction_range_def Let_def split: if_splits)
  have e: "e \<le> ?E" using r(3) found_bound by simp
  have first: "\<not> crosses ms ?E k" if "k < e" for k using found_first [where k = k and P = "crosses ms ?E" and n = ?E] that r(3) by simp
  have at_end: "calling (ms ! e)" if "e < ?E" using found_last [where P = "crosses ms ?E" and n = ?E] that r(3) by (simp add: crosses_def)
  show "s < e" "e \<le> ?E" "s = protected_prefix_len ms" using r(1,2) e by auto
  assume ij: "i < length ms" "j < length ms" "calling (ms ! i)" "answers (ms ! j) (ms ! i)"
  have follow: "i < j" "\<And>k. i < k \<Longrightarrow> k < j \<Longrightarrow> \<not> calling (ms ! k)" using assms(1) [unfolded results_follow_def, rule_format, OF ij] by blast+
  show "i < e \<longleftrightarrow> j < e"
  proof
    assume i: "i < e"
    have "j < ?E" using first [OF i] ij(2-4) crosses_iff [of ?E ms i] not_le by (metis diff_le_self)
    moreover have "j \<noteq> e" if "e < ?E" using at_end [OF that] ij(4) unfolding answers_def calling_def by force
    moreover have "\<not> e < j" if "e < ?E" using at_end [OF that] follow(2) i by blast
    ultimately show "j < e" using e by linarith
  qed (use follow(1) in simp)
qed

text \<open>C37: Where every result follows its call, replacing the range chosen for compaction by a summary
  splits no pair: a call that stays has all its results, and a result that stays has its call.  The
  instructions of the system at the start and the last messages of the window stay.\<close>

theorem compaction_splits_no_call_from_its_results:
  assumes "results_follow ms" "safe_compaction_range ms retain = Some (s, e)"
    and "i < length ms" "j < length ms" "calling (ms ! i)" "answers (ms ! j) (ms ! i)"
  shows "(ms ! i \<in> set (take s ms) \<or> i \<ge> e) = (ms ! j \<in> set (take s ms) \<or> j \<ge> e)
    \<and> replace_range ms (s, e) m = take (protected_prefix_len ms) ms @ m # drop e ms \<and> e + retain \<le> length ms"
proof -
  note range = safe_range [OF assms(1,2)]
  have "s < e" "s = protected_prefix_len ms" "e \<le> length ms - retain" using range(1,3,2) .
  have sys: "x \<in> set (take s ms) \<Longrightarrow> cm_role x = RoleSystem" for x
    using \<open>s = _\<close> by (auto simp: protected_prefix_len_def split: list.splits if_splits)
  have "ms ! i \<notin> set (take s ms)" "ms ! j \<notin> set (take s ms)" using sys assms(5,6) by (auto simp: calling_def answers_def)
  moreover have "i < e \<longleftrightarrow> j < e" using range(4) [OF assms(3-6)] .
  moreover have "e + retain \<le> length ms" using range(1,2) by linarith
  ultimately show ?thesis using \<open>s = _\<close> by (auto simp: replace_range_def)
qed

definition reading :: "chat_msg list" where
  "reading = [text_msg ''s'' RoleSystem ''rules'', text_msg ''u'' RoleUser ''read both'', call_msg ''a'' [''c1''], result_msg ''r1'' ''c1'' ''one'',
     call_msg ''b'' [''c2''], result_msg ''r2'' ''c2'' ''two'', text_msg ''d'' RoleAssistant ''Read.'']"

lemma results_follow_code: "results_follow ms = list_all (\<lambda>i. list_all (\<lambda>j. calling (ms ! i) \<longrightarrow> answers (ms ! j) (ms ! i) \<longrightarrow>
    i < j \<and> list_all (\<lambda>k. \<not> calling (ms ! k)) [Suc i..<j]) [0..<length ms]) [0..<length ms]"
proof -
  have inner: "list_all (\<lambda>k. \<not> calling (ms ! k)) [Suc i..<j] \<longleftrightarrow> (\<forall>k. i < k \<longrightarrow> k < j \<longrightarrow> \<not> calling (ms ! k))" for i j
    by (auto simp: list_all_iff Suc_le_eq)
  have outer: "list_all P [0..<n] \<longleftrightarrow> (\<forall>i. i < n \<longrightarrow> P i)" for P :: "nat \<Rightarrow> bool" and n by (auto simp: list_all_iff)
  show ?thesis unfolding results_follow_def inner outer by blast
qed

lemma reading_follows: "results_follow reading"
  unfolding results_follow_code by code_simp

lemma compaction_splits_no_call_from_its_results_witness:
  "safe_compaction_range reading 2 = Some (1, 4)
    \<and> replace_range reading (1, 4) (summary_message ''m'' ''compaction_summary'' ''read one'') ! 2 = call_msg ''b'' [''c2'']"
proof -
  have range: "safe_compaction_range reading 2 = Some (1, 4)" by code_simp
  have "replace_range reading (1, 4) m = take (protected_prefix_len reading) reading @ m # drop 4 reading" for m
    using compaction_splits_no_call_from_its_results [OF reading_follows range, of 4 5 m]
    by (simp add: reading_def calling_def answers_def text_msg_def call_msg_def result_msg_def)
  then show ?thesis using range by (simp add: reading_def protected_prefix_len_def text_msg_def)
qed

end
