(* ===== verification/Compaction.thy ===== *)
theory Compaction
  imports Conversation
begin

text \<open>
  The engine that has old messages summarised (\<open>y-context/src/compaction.rs\<close>), the registry of summaries
  made ahead of time (\<open>y-service/src/compaction_prefire.rs\<close>), the documents of a handoff
  (\<open>y-context/src/handoff.rs\<close>) and the service that puts them into the conversation
  (\<open>y-service/src/context_optimization.rs\<close>).

  The model is asked with a prompt and a number that counts the questions, so that it may answer the
  same prompt differently.  The characters beyond Latin-1 of two texts are written as their bytes in
  UTF-8.  The checks of identifiers only write to the log and are left out.
\<close>

section \<open>The engine\<close>

datatype compaction_strategy = CsSummarize | CsSegmentedSummarize | CsSelectiveRetain

text \<open>The texts of \<open>config/prompts\<close>, and the selection by importance, which sorts by floating-point
  scores: it maps the messages to the indices in the order of falling scores.\<close>

record compaction_config =
  cc_strategy :: compaction_strategy
  cc_retain_window :: nat
  cc_max_retries :: nat
  cc_segment_size :: nat

definition default_compaction :: compaction_config where
  "default_compaction = \<lparr>cc_strategy = CsSummarize, cc_retain_window = 10, cc_max_retries = 3, cc_segment_size = 10\<rparr>"

datatype failure_class = FcDeterministic | FcTransient

record llm_failure =
  lf_class :: failure_class
  lf_message :: string

definition transient :: "string \<Rightarrow> llm_failure" where
  "transient msg = \<lparr>lf_class = FcTransient, lf_message = msg\<rparr>"

definition deterministic :: "string \<Rightarrow> llm_failure" where
  "deterministic msg = \<lparr>lf_class = FcDeterministic, lf_message = msg\<rparr>"

datatype compaction_outcome = CoNoop | CoSummarized | CoFallback "llm_failure option"

record compaction_result =
  cr_summary :: string
  cr_messages_compacted :: nat
  cr_tokens_saved :: nat
  cr_summary_tokens :: nat
  cr_outcome :: compaction_outcome

type_synonym summarizer = "nat \<Rightarrow> string \<Rightarrow> llm_failure + string"

record engine =
  eg_config :: compaction_config
  eg_llm :: "summarizer option"
  eg_summary_prompt :: string
  eg_update_prompt :: string
  eg_segment_prompt :: string
  eg_ranking :: "string list \<Rightarrow> nat list"

abbreviation newline :: char where "newline \<equiv> CHR 0x0A"

definition writeln :: "string \<Rightarrow> string" where "writeln s = s @ [newline]"

definition build_summarize_prompt :: "string \<Rightarrow> string list \<Rightarrow> string" where
  "build_summarize_prompt head ms = head @ [newline]
     @ concat (map (\<lambda>i. writeln (ms ! i) @ (if i < length ms - 1 then [newline] else [])) [0..<length ms])
     @ newline # ''Summary:''"

definition build_update_prompt :: "string \<Rightarrow> string list \<Rightarrow> string \<Rightarrow> string" where
  "build_update_prompt head ms previous = head @ newline # previous @ [newline, newline] @ ''New messages to incorporate:''
     @ [newline, newline] @ concat (map writeln ms) @ newline # ''Updated summary:''"

definition build_segment_prompt :: "string \<Rightarrow> string list \<Rightarrow> nat \<Rightarrow> string" where
  "build_segment_prompt head ms n = head @ newline # ''Segment '' @ show_nat n @ '':'' @ [newline, newline]
     @ concat (map (\<lambda>m. writeln (''- '' @ m)) ms) @ newline # ''Segment summary:''"

definition truncate_fallback :: "string list \<Rightarrow> string" where
  "truncate_fallback ms = ''[Compacted '' @ show_nat (length ms) @ '' messages '' @ [CHR 0xE2, CHR 0x80, CHR 0x94] @ '' LLM unavailable]''"

text \<open>Each call takes the number of the questions asked before and gives the number after.\<close>

fun retry_calls :: "summarizer \<Rightarrow> string \<Rightarrow> nat \<Rightarrow> llm_failure \<Rightarrow> nat \<Rightarrow> (llm_failure + string) \<times> nat" where
  "retry_calls llm prompt 0 err n = (Inl err, n)"
| "retry_calls llm prompt (Suc k) err n = (case llm n prompt of
     Inr s \<Rightarrow> if str_trim s \<noteq> [] then (Inr s, Suc n)
       else retry_calls llm prompt k (transient ''compaction LLM returned an empty summary'') (Suc n)
   | Inl e \<Rightarrow> if lf_class e = FcDeterministic then (Inl e, Suc n) else retry_calls llm prompt k e (Suc n))"

definition call_with_retry :: "engine \<Rightarrow> summarizer \<Rightarrow> string \<Rightarrow> nat \<Rightarrow> (llm_failure + string) \<times> nat" where
  "call_with_retry eg llm prompt n = retry_calls llm prompt (max 1 (cc_max_retries (eg_config eg)))
     (transient ''compaction LLM returned no result'') n"

type_synonym summary_outcome = "string \<times> llm_failure option"

definition summarize_all :: "engine \<Rightarrow> summarizer \<Rightarrow> string list \<Rightarrow> string option \<Rightarrow> nat \<Rightarrow> summary_outcome \<times> nat" where
  "summarize_all eg llm ms previous n =
     (let prompt = (case previous of Some p \<Rightarrow> if p \<noteq> [] then build_update_prompt (eg_update_prompt eg) ms p
                        else build_summarize_prompt (eg_summary_prompt eg) ms
                    | None \<Rightarrow> build_summarize_prompt (eg_summary_prompt eg) ms)
      in case call_with_retry eg llm prompt n of
           (Inr s, n') \<Rightarrow> ((s, None), n')
         | (Inl e, n') \<Rightarrow> ((truncate_fallback ms, Some e), n'))"

text \<open>\<open>slice::chunks\<close>.\<close>

function chunks :: "nat \<Rightarrow> 'a list \<Rightarrow> 'a list list" where
  "chunks k xs = (if xs = [] \<or> k = 0 then [] else take k xs # chunks k (drop k xs))"
  by pat_completeness auto
termination by (relation "measure (\<lambda>(k, xs). length xs)") auto

declare chunks.simps [simp del]

text \<open>The segments so far, the first failure, whether a failure was deterministic, and the number of questions.\<close>

definition summarize_segment :: "engine \<Rightarrow> summarizer \<Rightarrow> string list \<Rightarrow> string list \<times> llm_failure option \<times> bool \<times> nat \<Rightarrow>
    string list \<times> llm_failure option \<times> bool \<times> nat" where
  "summarize_segment eg llm chunk a = (case a of (segments, failure, stopped, n) \<Rightarrow>
     if stopped then (segments @ [truncate_fallback chunk], failure, stopped, n)
     else (case call_with_retry eg llm (build_segment_prompt (eg_segment_prompt eg) chunk (length segments + 1)) n of
         (Inr s, n') \<Rightarrow> (segments @ [s], failure, stopped, n')
       | (Inl e, n') \<Rightarrow> (segments @ [truncate_fallback chunk], (case failure of None \<Rightarrow> Some e | Some f \<Rightarrow> Some f),
                        lf_class e = FcDeterministic, n')))"

definition stitch :: "string list \<Rightarrow> string" where
  "stitch segments = str_join [newline, newline] (map (\<lambda>(i, s). ''[Segment '' @ show_nat (i + 1) @ ''] '' @ s) (enumerate 0 segments))"

definition segmented_summarize :: "engine \<Rightarrow> summarizer \<Rightarrow> string list \<Rightarrow> nat \<Rightarrow> summary_outcome \<times> nat" where
  "segmented_summarize eg llm ms n =
     (case fold (summarize_segment eg llm) (chunks (max 1 (cc_segment_size (eg_config eg))) ms) ([], None, False, n) of
        (segments, failure, _, n') \<Rightarrow> ((stitch segments, failure), n'))"

text \<open>Three tenths of the messages, rounded up, are kept word for word.\<close>

definition selective_retain :: "engine \<Rightarrow> summarizer \<Rightarrow> string list \<Rightarrow> nat \<Rightarrow> summary_outcome \<times> nat" where
  "selective_retain eg llm ms n =
     (let kept = take ((3 * length ms + 9) div 10) (eg_ranking eg ms);
          rest = map (\<lambda>i. ms ! i) (filter (\<lambda>i. i \<notin> set kept) [0..<length ms]);
          ((summary, failure), n') = (if rest = [] then (([], None), n)
            else (case call_with_retry eg llm (build_summarize_prompt (eg_summary_prompt eg) rest) n of
                    (Inr s, n') \<Rightarrow> ((s, None), n')
                  | (Inl e, n') \<Rightarrow> ((truncate_fallback rest, Some e), n')));
          parts = (if summary = [] then [] else [''[Summary of less important messages] '' @ summary])
            @ map (\<lambda>i. ''[Retained] '' @ ms ! i) (filter (\<lambda>i. i \<in> set kept) [0..<length ms])
      in ((str_join [newline, newline] parts, failure), n'))"

definition noop_result :: compaction_result where
  "noop_result = \<lparr>cr_summary = [], cr_messages_compacted = 0, cr_tokens_saved = 0, cr_summary_tokens = 0, cr_outcome = CoNoop\<rparr>"

text \<open>The name of the strategy as \<open>Debug\<close> writes it; a sum of \<open>u32\<close> wraps.\<close>

fun strategy_name :: "compaction_strategy \<Rightarrow> string" where
  "strategy_name CsSummarize = ''Summarize''"
| "strategy_name CsSegmentedSummarize = ''SegmentedSummarize''"
| "strategy_name CsSelectiveRetain = ''SelectiveRetain''"

definition text_tokens :: "string list \<Rightarrow> nat" where
  "text_tokens ms = (\<Sum>m \<leftarrow> ms. estimate_tokens m) mod 2 ^ 32"

definition compacted_to :: "string list \<Rightarrow> string \<Rightarrow> compaction_outcome \<Rightarrow> compaction_result" where
  "compacted_to ms summary outcome = \<lparr>cr_summary = summary, cr_messages_compacted = length ms,
     cr_tokens_saved = text_tokens ms - estimate_tokens summary, cr_summary_tokens = estimate_tokens summary, cr_outcome = outcome\<rparr>"

definition compact_with_retain :: "engine \<Rightarrow> string list \<Rightarrow> nat \<Rightarrow> compaction_result" where
  "compact_with_retain eg ms retain = (if length ms \<le> retain then noop_result
     else (let old = take (length ms - retain) ms
       in compacted_to old (''[Compacted '' @ show_nat (length old) @ '' messages using '' @ strategy_name (cc_strategy (eg_config eg))
            @ '' strategy]'') (CoFallback None)))"

definition compact_async :: "engine \<Rightarrow> string list \<Rightarrow> nat \<Rightarrow> string option \<Rightarrow> nat \<Rightarrow> compaction_result \<times> nat" where
  "compact_async eg ms retain previous n = (if length ms \<le> retain then (noop_result, n)
     else (case eg_llm eg of
         None \<Rightarrow> ((compact_with_retain eg ms retain)\<lparr>cr_outcome := CoFallback (Some (deterministic ''compaction LLM is not configured''))\<rparr>, n)
       | Some llm \<Rightarrow> (let old = take (length ms - retain) ms;
             ((summary, failure), n') = (case cc_strategy (eg_config eg) of
                 CsSummarize \<Rightarrow> summarize_all eg llm old previous n
               | CsSegmentedSummarize \<Rightarrow> segmented_summarize eg llm old n
               | CsSelectiveRetain \<Rightarrow> selective_retain eg llm old n)
           in (compacted_to old summary (case failure of None \<Rightarrow> CoSummarized | Some f \<Rightarrow> CoFallback (Some f)), n'))))"

text \<open>What the model is shown of a message.\<close>

definition tool_result_max :: nat where "tool_result_max = 2000"

definition truncate_tool_result :: "string \<Rightarrow> string" where
  "truncate_tool_result s = (if byte_len s \<le> tool_result_max then s
     else (let head_chars = tool_result_max * 3 div 5; tail_chars = tool_result_max - head_chars
       in take head_chars s @ newline # ''['' @ [CHR 0xE2, CHR 0x80, CHR 0xA6] @ ''truncated'' @ [CHR 0xE2, CHR 0x80, CHR 0xA6] @ '']''
          @ newline # drop (length s - tail_chars) s))"

definition serialize_for_compaction :: "(json \<Rightarrow> string) \<Rightarrow> chat_msg \<Rightarrow> string" where
  "serialize_for_compaction show_json m = (case cm_role m of
     RoleAssistant \<Rightarrow> ''[Assistant] '' @ str_join [newline] ((if cm_content m = [] then [] else [cm_content m])
       @ map (\<lambda>tc. ''  [tool_call: '' @ tc_name tc @ ''('' @ show_json (tc_arguments tc) @ '')]'') (cm_calls m))
   | RoleTool \<Rightarrow> ''[ToolResult id='' @ (case cm_call_id m of None \<Rightarrow> ''?'' | Some c \<Rightarrow> c) @ ''] '' @ truncate_tool_result (cm_content m)
   | RoleUser \<Rightarrow> ''[User] '' @ cm_content m
   | RoleSystem \<Rightarrow> ''[System] '' @ cm_content m)"

end
