(* ===== verification/CompactionService.thy ===== *)
theory CompactionService
  imports Compaction
begin

text \<open>
  The registry of summaries made ahead of time (\<open>y-service/src/compaction_prefire.rs\<close>), the documents of a
  handoff (\<open>y-context/src/handoff.rs\<close>) and the service that puts summaries into the conversation
  (\<open>y-service/src/context_optimization.rs\<close>, with the feature \<open>compaction_prefire\<close>, which is on by default).

  The registry has one entry for each session; the operations of the registry work on the entry of
  the session.  A task that runs in the background is represented by the result it will give, if it
  lives to give one.  Times are in milliseconds.
\<close>

section \<open>Summaries made ahead of time\<close>

record prefire_key =
  pk_fingerprint :: string
  pk_range :: "nat \<times> nat"

datatype prefire_entry =
    PeRunning prefire_key "compaction_result option"
  | PeFailure prefire_key failure_class nat

datatype prefire_consume = PcMiss | PcStale | PcSuppressed
  | PcReady prefire_key compaction_result | PcFailed prefire_key llm_failure

definition failure_backoff :: nat where "failure_backoff = 30000"

definition record_failure :: "prefire_key \<Rightarrow> failure_class \<Rightarrow> nat \<Rightarrow> prefire_entry" where
  "record_failure key c now = PeFailure key c (now + failure_backoff)"

definition in_force :: "failure_class \<Rightarrow> nat \<Rightarrow> nat \<Rightarrow> bool" where
  "in_force c retry_at now = (c = FcDeterministic \<or> now < retry_at)"

definition is_suppressed :: "prefire_entry option \<Rightarrow> string \<Rightarrow> nat \<Rightarrow> bool" where
  "is_suppressed entry f now = (case entry of
     Some (PeFailure key c retry_at) \<Rightarrow> pk_fingerprint key = f \<and> in_force c retry_at now
   | _ \<Rightarrow> False)"

definition schedule_prefire :: "prefire_key \<Rightarrow> compaction_result option \<Rightarrow> nat \<Rightarrow> prefire_entry option \<Rightarrow> bool \<times> prefire_entry option" where
  "schedule_prefire key future now entry =
     (if (case entry of
            Some (PeRunning k _) \<Rightarrow> k = key
          | Some (PeFailure k c retry_at) \<Rightarrow> k = key \<and> in_force c retry_at now
          | None \<Rightarrow> False)
      then (False, entry) else (True, Some (PeRunning key future)))"

text \<open>A running task is waited for until the later time.\<close>

definition consume_prefire :: "string \<Rightarrow> nat \<Rightarrow> nat \<Rightarrow> prefire_entry option \<Rightarrow> prefire_consume \<times> prefire_entry option" where
  "consume_prefire f now later entry = (case entry of
     None \<Rightarrow> (PcMiss, None)
   | Some (PeFailure key c retry_at) \<Rightarrow>
       if pk_fingerprint key = f \<and> in_force c retry_at now then (PcSuppressed, entry) else (PcStale, None)
   | Some (PeRunning key future) \<Rightarrow>
       if pk_fingerprint key \<noteq> f then (PcStale, None)
       else (case future of
           None \<Rightarrow> (let e = transient ''prefire task ended before producing a result''
             in (PcFailed key e, Some (record_failure key (lf_class e) later)))
         | Some r \<Rightarrow> (case cr_outcome r of
               CoFallback (Some e) \<Rightarrow> (PcFailed key e, Some (record_failure key (lf_class e) later))
             | CoFallback None \<Rightarrow> (let e = deterministic ''prefire produced an unclassified fallback''
                 in (PcFailed key e, Some (record_failure key (lf_class e) later)))
             | _ \<Rightarrow> (PcReady key r, None))))"

definition pending_key :: "prefire_entry option \<Rightarrow> prefire_key option" where
  "pending_key entry = (case entry of None \<Rightarrow> None | Some (PeRunning k _) \<Rightarrow> Some k | Some (PeFailure k _ _) \<Rightarrow> Some k)"

section \<open>Handoffs\<close>

text \<open>The agent that writes the document, asked with the earlier summary; no text stands for an error.
  The messages it is shown come from another store.\<close>

record handoff_generator =
  hg_max_retries :: nat
  hg_delegate :: "nat \<Rightarrow> string option \<Rightarrow> string option"

fun handoff_attempts :: "handoff_generator \<Rightarrow> string option \<Rightarrow> nat \<Rightarrow> nat \<Rightarrow> string option \<times> nat" where
  "handoff_attempts hg previous 0 n = (None, n)"
| "handoff_attempts hg previous (Suc k) n = (case hg_delegate hg n previous of
     Some text \<Rightarrow> if str_trim text \<noteq> [] then (Some text, Suc n) else handoff_attempts hg previous k (Suc n)
   | None \<Rightarrow> handoff_attempts hg previous k (Suc n))"

text \<open>The number of active messages, if the store answers.\<close>

definition generate_handoff :: "handoff_generator \<Rightarrow> nat option \<Rightarrow> string option \<Rightarrow> nat \<Rightarrow> string option \<times> nat" where
  "generate_handoff hg active previous n = (case active of
     None \<Rightarrow> (None, n)
   | Some k \<Rightarrow> if k < 2 then (None, n) else handoff_attempts hg previous (hg_max_retries hg) n)"

section \<open>The service\<close>

record compaction_env =
  ce_engine :: engine
  ce_hash :: "nat \<times> nat \<times> compaction_config \<times> chat_msg list \<Rightarrow> string"
  ce_show_json :: "json \<Rightarrow> string"
  ce_threshold_pct :: nat
  ce_prefire_pct :: nat
  ce_handoff :: "handoff_generator option"

text \<open>What the stores answer during an operation: whether reading fails, the number of messages written
  before a write fails, if one does, and the active messages; and whether a background task dies.\<close>

record store_answers =
  sa_read_error :: "string option"
  sa_write_error :: "(nat \<times> string) option"
  sa_active :: "nat option"
  sa_task_dies :: bool

record opt_state =
  os_transcript :: "chat_msg list"
  os_entry :: "prefire_entry option"
  os_asked :: nat

record opt_report =
  rp_triggered :: bool
  rp_messages_compacted :: nat
  rp_summary :: string
  rp_tokens_saved :: nat

definition empty_report :: opt_report where
  "empty_report = \<lparr>rp_triggered = False, rp_messages_compacted = 0, rp_summary = [], rp_tokens_saved = 0\<rparr>"

definition subrange :: "nat \<times> nat \<Rightarrow> 'a list \<Rightarrow> 'a list" where
  "subrange rng xs = take (snd rng - fst rng) (drop (fst rng) xs)"

text \<open>The digest of the range, the configuration and the messages of the range; SHA-256 is a parameter.\<close>

definition prefix_fingerprint :: "compaction_env \<Rightarrow> chat_msg list \<Rightarrow> nat \<times> nat \<Rightarrow> string" where
  "prefix_fingerprint env ms rng = ce_hash env (fst rng, snd rng, eg_config (ce_engine env),
     if fst rng \<le> snd rng \<and> snd rng \<le> length ms then subrange rng ms else [])"

definition find_previous_summary :: "chat_msg list \<Rightarrow> string option" where
  "find_previous_summary ms = map_option cm_content (List.find (\<lambda>m. cm_role m = RoleSystem
     \<and> json_get ''type'' (cm_metadata m) = Some (JString ''compaction_summary'')) ms)"

text \<open>Truncating comes first, then the messages are appended one by one: a failing first operation
  leaves the transcript, a later one the messages appended before.\<close>

definition replace_transcript :: "store_answers \<Rightarrow> chat_msg list \<Rightarrow> opt_state \<Rightarrow> (string + unit) \<times> opt_state" where
  "replace_transcript sa ms st = (case sa_write_error sa of
     Some (0, e) \<Rightarrow> (Inl e, st)
   | Some (Suc k, e) \<Rightarrow> if k < length ms then (Inl e, st\<lparr>os_transcript := take k ms\<rparr>) else (Inr (), st\<lparr>os_transcript := ms\<rparr>)
   | None \<Rightarrow> (Inr (), st\<lparr>os_transcript := ms\<rparr>))"

text \<open>A summary of the messages of the range, asked for at once.\<close>

definition summarize_range :: "compaction_env \<Rightarrow> chat_msg list \<Rightarrow> nat \<times> nat \<Rightarrow> nat \<Rightarrow> compaction_result \<times> nat" where
  "summarize_range env ms rng n = compact_async (ce_engine env) (map (serialize_for_compaction (ce_show_json env)) (drop (fst rng) ms))
     (length ms - snd rng) (find_previous_summary ms) n"

text \<open>The summary made ahead for the messages of its own range, when these are unchanged.\<close>

definition take_prefired :: "compaction_env \<Rightarrow> chat_msg list \<Rightarrow> nat \<Rightarrow> nat \<Rightarrow> prefire_entry option \<Rightarrow> prefire_consume \<times> prefire_entry option" where
  "take_prefired env ms now later entry = (case pending_key entry of
     Some key \<Rightarrow> if snd (pk_range key) \<le> length ms then consume_prefire (prefix_fingerprint env ms (pk_range key)) now later entry
       else (PcMiss, entry)
   | None \<Rightarrow> (PcMiss, entry))"

definition suppressed_message :: string where
  "suppressed_message = ''compaction is suppressed for the unchanged source fingerprint''"

definition fallback_message :: "llm_failure option \<Rightarrow> string" where
  "fallback_message f = (case f of Some e \<Rightarrow> lf_message e | None \<Rightarrow> ''compaction produced a fallback result'')"

text \<open>The end of \<open>run_compaction\<close>: the result becomes the transcript.\<close>

definition apply_compaction :: "compaction_env \<Rightarrow> store_answers \<Rightarrow> string \<Rightarrow> nat \<Rightarrow> bool \<Rightarrow> nat \<times> nat \<Rightarrow> compaction_result \<Rightarrow> string \<Rightarrow>
    opt_state \<Rightarrow> (string + opt_report) \<times> opt_state" where
  "apply_compaction env sa i now manual rng r f st =
     (case cr_outcome r of
        CoFallback failure \<Rightarrow> (Inl (fallback_message failure),
          (case failure of Some e \<Rightarrow> if manual then st
               else st\<lparr>os_entry := Some (record_failure \<lparr>pk_fingerprint = f, pk_range = rng\<rparr> (lf_class e) now)\<rparr>
           | None \<Rightarrow> st))
      | _ \<Rightarrow> if cr_messages_compacted r \<noteq> snd rng - fst rng
          then (Inl (''compaction range mismatch: expected '' @ show_nat (snd rng - fst rng) @ '', got '' @ show_nat (cr_messages_compacted r)), st)
        else if cr_messages_compacted r = 0 then (Inr empty_report, st)
        else (let ms = os_transcript st;
                  rewritten = take (fst rng) ms @ (if cr_summary r = [] then [] else [summary_message i ''compaction_summary'' (cr_summary r)])
                    @ drop (snd rng) ms
          in case replace_transcript sa rewritten st of
               (Inl e, st') \<Rightarrow> (Inl e, st')
             | (Inr _, st') \<Rightarrow> (Inr \<lparr>rp_triggered = True, rp_messages_compacted = cr_messages_compacted r,
                   rp_summary = cr_summary r, rp_tokens_saved = cr_tokens_saved r\<rparr>, st'\<lparr>os_entry := None\<rparr>)))"

definition run_compaction :: "compaction_env \<Rightarrow> store_answers \<Rightarrow> string \<Rightarrow> nat \<Rightarrow> nat \<Rightarrow> nat option \<Rightarrow> opt_state \<Rightarrow>
    (string + opt_report) \<times> opt_state" where
  "run_compaction env sa i now later override st = (case sa_read_error sa of
     Some e \<Rightarrow> (Inl e, st)
   | None \<Rightarrow> (let ms = os_transcript st; manual = (override \<noteq> None);
         retain = (case override of Some k \<Rightarrow> k | None \<Rightarrow> cc_retain_window (eg_config (ce_engine env)))
      in case safe_compaction_range ms retain of
        None \<Rightarrow> (Inr empty_report, st)
      | Some rng \<Rightarrow> (let f = prefix_fingerprint env ms rng in
          if \<not> manual \<and> is_suppressed (os_entry st) f now then (Inl suppressed_message, st)
          else (case (if manual then (PcMiss, os_entry st) else take_prefired env ms now later (os_entry st)) of
              (PcReady key r, entry) \<Rightarrow> apply_compaction env sa i later manual (pk_range key) r (pk_fingerprint key) (st\<lparr>os_entry := entry\<rparr>)
            | (PcFailed _ e, entry) \<Rightarrow> (Inl (''prefired compaction failed: '' @ lf_message e), st\<lparr>os_entry := entry\<rparr>)
            | (PcSuppressed, entry) \<Rightarrow> (Inl suppressed_message, st\<lparr>os_entry := entry\<rparr>)
            | (_, entry) \<Rightarrow> (case summarize_range env ms rng (os_asked st) of (r, n) \<Rightarrow>
                apply_compaction env sa i later manual rng r f (st\<lparr>os_entry := entry, os_asked := n\<rparr>))))))"

text \<open>A document of a handoff is put in the place of the range; the answer says whether it was.\<close>

definition run_handoff :: "compaction_env \<Rightarrow> handoff_generator \<Rightarrow> store_answers \<Rightarrow> string \<Rightarrow> opt_state \<Rightarrow>
    (string + opt_report option) \<times> opt_state" where
  "run_handoff env hg sa i st = (case sa_read_error sa of
     Some e \<Rightarrow> (Inl e, st)
   | None \<Rightarrow> (let ms = os_transcript st in
       case generate_handoff hg (sa_active sa) (find_previous_summary ms) (os_asked st) of
         (None, n) \<Rightarrow> (Inl ''handoff generation failed'', st\<lparr>os_asked := n\<rparr>)
       | (Some doc, n) \<Rightarrow> (let st = st\<lparr>os_asked := n\<rparr> in
           if doc = [] then (Inr None, st)
           else (case safe_compaction_range ms (cc_retain_window (eg_config (ce_engine env))) of
               None \<Rightarrow> (Inr None, st)
             | Some rng \<Rightarrow> (case replace_transcript sa (replace_range ms rng (summary_message i ''handoff'' doc)) st of
                   (Inl e, st') \<Rightarrow> (Inl e, st')
                 | (Inr _, st') \<Rightarrow> (Inr (Some \<lparr>rp_triggered = True, rp_messages_compacted = snd rng - fst rng,
                       rp_summary = doc, rp_tokens_saved = 0\<rparr>), st'\<lparr>os_entry := None\<rparr>))))))"

definition transcript_tokens :: "chat_msg list \<Rightarrow> nat" where
  "transcript_tokens ms = (\<Sum>m \<leftarrow> ms. estimate_chars (cm_content m)) mod 2 ^ 32"

definition threshold_tokens :: "nat \<Rightarrow> nat \<Rightarrow> nat" where
  "threshold_tokens window pct = min (min (window * min pct 100) (2 ^ 64 - 1) div 100) (2 ^ 32 - 1)"

text \<open>The stores may answer differently to the handoff and to the compaction.\<close>

definition run_compaction_if_needed :: "compaction_env \<Rightarrow> store_answers \<Rightarrow> store_answers \<Rightarrow> string \<Rightarrow> nat \<Rightarrow> nat \<Rightarrow> nat \<Rightarrow> opt_state \<Rightarrow>
    (string + opt_report) \<times> opt_state" where
  "run_compaction_if_needed env sa sa' i now later window st =
     (if window = 0 then (Inr empty_report, st)
      else (case sa_read_error sa of
        Some e \<Rightarrow> (Inl e, st)
      | None \<Rightarrow>
          if transcript_tokens (os_transcript st) < min (min window (2 ^ 32 - 1) * ce_threshold_pct env div 100) (2 ^ 32 - 1)
          then (Inr empty_report, st)
          else (case ce_handoff env of
              None \<Rightarrow> run_compaction env sa' i now later None st
            | Some hg \<Rightarrow> (case run_handoff env hg sa i st of
                  (Inr (Some report), st') \<Rightarrow> (Inr report, st')
                | (_, st') \<Rightarrow> run_compaction env sa' i now later None st'))))"

definition schedule_prefire_if_needed :: "compaction_env \<Rightarrow> store_answers \<Rightarrow> nat \<Rightarrow> nat \<Rightarrow> opt_state \<Rightarrow> (string + unit) \<times> opt_state" where
  "schedule_prefire_if_needed env sa now window st =
     (if window = 0 then (Inr (), st)
      else (case sa_read_error sa of
        Some e \<Rightarrow> (Inl e, st)
      | None \<Rightarrow> (let ms = os_transcript st in
          if (case pending_key (os_entry st) of None \<Rightarrow> False
              | Some key \<Rightarrow> snd (pk_range key) \<le> length ms \<and> prefix_fingerprint env ms (pk_range key) = pk_fingerprint key)
          then (Inr (), st)
          else (let total = transcript_tokens ms; hard = threshold_tokens window (ce_threshold_pct env);
                    soft = threshold_tokens window (min (ce_prefire_pct env) (ce_threshold_pct env - 1))
            in if total < soft \<or> hard \<le> total then (Inr (), st)
            else (case safe_compaction_range ms (cc_retain_window (eg_config (ce_engine env))) of
                None \<Rightarrow> (Inr (), st)
              | Some rng \<Rightarrow> (let f = prefix_fingerprint env ms rng in
                  if is_suppressed (os_entry st) f now then (Inr (), st)
                  else (case summarize_range env ms rng (os_asked st) of (r, n) \<Rightarrow>
                    (case schedule_prefire \<lparr>pk_fingerprint = f, pk_range = rng\<rparr> (if sa_task_dies sa then None else Some r) now (os_entry st) of
                       (True, entry) \<Rightarrow> (Inr (), st\<lparr>os_entry := entry, os_asked := n\<rparr>)
                     | (False, entry) \<Rightarrow> (Inr (), st\<lparr>os_entry := entry\<rparr>)))))))))"

text \<open>The working history of a running agent; the transcript is what follows the first messages of the request.\<close>

datatype optimization = OpNotNeeded | OpApplied | OpSuppressed

definition apply_summary :: "string \<Rightarrow> nat \<Rightarrow> nat \<times> nat \<Rightarrow> compaction_result \<Rightarrow> chat_msg list \<Rightarrow> (string + optimization) \<times> chat_msg list" where
  "apply_summary i p rng r history =
     (if cr_messages_compacted r \<noteq> snd rng - fst rng \<or> str_trim (cr_summary r) = []
      then (Inl ''compaction result did not match the selected history range'', history)
      else (Inr OpApplied, replace_range history (p + fst rng, p + snd rng) (summary_message i ''compaction_summary'' (cr_summary r))))"

definition optimize_working_history :: "compaction_env \<Rightarrow> preflight_verdict \<Rightarrow> bool \<Rightarrow> string \<Rightarrow> nat \<Rightarrow> nat \<Rightarrow> nat \<Rightarrow>
    chat_msg list \<Rightarrow> opt_state \<Rightarrow> (string + optimization) \<times> chat_msg list \<times> opt_state" where
  "optimize_working_history env verdict emergency i now later pre_len history st =
     (if \<not> emergency \<and> (case verdict of PvCompact _ _ \<Rightarrow> False | _ \<Rightarrow> True) then (Inr OpNotNeeded, history, st)
      else (let p = min pre_len (length history); ms = drop p history in
        case safe_compaction_range ms (if emergency then 2 else cc_retain_window (eg_config (ce_engine env))) of
          None \<Rightarrow> (if emergency then Inl ''no protocol-safe history range is available for emergency compaction'' else Inr OpNotNeeded, history, st)
        | Some rng \<Rightarrow>
            (case (if emergency then (PcMiss, os_entry st) else take_prefired env ms now later (os_entry st)) of
               (PcReady key r, entry) \<Rightarrow> (let (a, h) = apply_summary i p (pk_range key) r history in (a, h, st\<lparr>os_entry := entry\<rparr>))
             | (PcFailed _ e, entry) \<Rightarrow> (Inl (''prefired compaction failed: '' @ lf_message e), history, st\<lparr>os_entry := entry\<rparr>)
             | (PcSuppressed, entry) \<Rightarrow> (Inr OpSuppressed, history, st\<lparr>os_entry := entry\<rparr>)
             | (_, entry) \<Rightarrow> (let st = st\<lparr>os_entry := entry\<rparr>; f = prefix_fingerprint env ms rng in
                 if is_suppressed entry f now then (Inr OpSuppressed, history, st)
                 else (case summarize_range env ms rng (os_asked st) of (r, n) \<Rightarrow>
                   (let st = st\<lparr>os_asked := n\<rparr> in case cr_outcome r of
                      CoFallback failure \<Rightarrow> (Inl (fallback_message failure), history,
                        (case failure of Some e \<Rightarrow> st\<lparr>os_entry := Some (record_failure \<lparr>pk_fingerprint = f, pk_range = rng\<rparr> (lf_class e) later)\<rparr>
                         | None \<Rightarrow> st))
                    | _ \<Rightarrow> (let (a, h) = apply_summary i p rng r history in (a, h, st))))))))"

end
