(* ===== verification/CompactionCorrect.thy ===== *)
theory CompactionCorrect
  imports CompactionService ConversationCorrect "HOL-Library.Countable"
begin

text \<open>
  Compaction: what the engine answers, what the registry holds, and what becomes of the conversation.
\<close>

section \<open>The engine\<close>

lemma compact_async_prefix:
  assumes "old \<noteq> []"
  shows "compact_async eg (old @ rest) (length rest) previous n = compact_async eg old 0 previous n"
  using assms by (simp add: compact_async_def compact_with_retain_def split: option.splits)

lemma compact_async_counts:
  assumes "old \<noteq> []"
  shows "cr_messages_compacted (fst (compact_async eg old 0 previous n)) = length old"
    and "cr_outcome (fst (compact_async eg old 0 previous n)) \<noteq> CoNoop"
  using assms by (auto simp: compact_async_def compact_with_retain_def compacted_to_def noop_result_def Let_def
      split: option.splits prod.splits compaction_strategy.splits)

lemma retry_calls_nonblank: "retry_calls llm prompt k e n = (Inr s, n') \<Longrightarrow> str_trim s \<noteq> []"
  by (induction llm prompt k e n rule: retry_calls.induct) (auto split: sum.splits if_splits)

lemma retry_calls_bound: "retry_calls llm prompt k e n = (a, n') \<Longrightarrow> n \<le> n' \<and> n' \<le> n + k"
  by (induction llm prompt k e n rule: retry_calls.induct) (fastforce split: sum.splits if_splits)+

section \<open>The registry\<close>

text \<open>A running task was given the messages its key was made from.\<close>

definition made_for :: "compaction_env \<Rightarrow> prefire_key \<Rightarrow> compaction_result \<Rightarrow> bool" where
  "made_for env key r = (\<exists>ms n. pk_fingerprint key = prefix_fingerprint env ms (pk_range key)
     \<and> fst (pk_range key) < snd (pk_range key) \<and> snd (pk_range key) \<le> length ms
     \<and> r = fst (summarize_range env ms (pk_range key) n))"

definition entry_ok :: "compaction_env \<Rightarrow> prefire_entry option \<Rightarrow> bool" where
  "entry_ok env entry = (case entry of Some (PeRunning key (Some r)) \<Rightarrow> made_for env key r | _ \<Rightarrow> True)"

lemma entry_ok_simps [simp]:
  "entry_ok env None" "entry_ok env (Some (PeFailure key c t))" "entry_ok env (Some (PeRunning key None))"
  "entry_ok env (Some (PeRunning key (Some r))) = made_for env key r"
  by (simp_all add: entry_ok_def)

lemma record_failure_ok [simp]: "entry_ok env (Some (record_failure key c now))"
  by (simp add: record_failure_def)

lemma consume_ok: "\<lbrakk>entry_ok env entry; consume_prefire f now later entry = (c, entry')\<rbrakk> \<Longrightarrow> entry_ok env entry'"
  by (auto simp: consume_prefire_def Let_def split: option.splits prefire_entry.splits if_splits compaction_outcome.splits)

lemma take_prefired_ok: "\<lbrakk>entry_ok env entry; take_prefired env ms now later entry = (c, entry')\<rbrakk> \<Longrightarrow> entry_ok env entry'"
  by (auto simp: take_prefired_def consume_ok split: option.splits if_splits)

lemma take_prefired_ready:
  assumes "entry_ok env entry" "take_prefired env ms now later entry = (PcReady key r, entry')"
  shows "made_for env key r" "prefix_fingerprint env ms (pk_range key) = pk_fingerprint key" "snd (pk_range key) \<le> length ms"
    "entry' = None" "\<And>f. cr_outcome r \<noteq> CoFallback f"
  using assms by (auto simp: take_prefired_def consume_prefire_def pending_key_def Let_def
      split: option.splits prefire_entry.splits if_splits compaction_outcome.splits)

text \<open>The digests of two ranges that are compared.\<close>

definition collision_free :: "compaction_env \<Rightarrow> bool" where
  "collision_free env = (\<forall>rng xs ys. ce_hash env (fst rng, snd rng, eg_config (ce_engine env), xs)
     = ce_hash env (fst rng, snd rng, eg_config (ce_engine env), ys) \<longrightarrow> xs = ys)"

text \<open>An answer of the engine for exactly these messages.\<close>

definition summary_of_messages :: "compaction_env \<Rightarrow> chat_msg list \<Rightarrow> compaction_result \<Rightarrow> bool" where
  "summary_of_messages env xs r = (\<exists>previous n. r = fst (compact_async (ce_engine env)
     (map (serialize_for_compaction (ce_show_json env)) xs) 0 previous n))"

lemma subrange_nonempty: "\<lbrakk>fst rng < snd rng; snd rng \<le> length xs\<rbrakk> \<Longrightarrow> subrange rng xs \<noteq> []"
  by (auto simp: subrange_def)

lemma subrange_length: "snd rng \<le> length xs \<Longrightarrow> length (subrange rng xs) = snd rng - fst rng"
  by (simp add: subrange_def)

lemma summarize_range_subrange:
  assumes "fst rng < snd rng" "snd rng \<le> length ms"
  shows "summarize_range env ms rng n = compact_async (ce_engine env) (map (serialize_for_compaction (ce_show_json env)) (subrange rng ms)) 0
    (find_previous_summary ms) n"
proof -
  have "drop (fst rng) ms = subrange rng ms @ drop (snd rng) ms"
    using assms append_take_drop_id [of "snd rng - fst rng" "drop (fst rng) ms"] by (simp add: subrange_def)
  then have "map (serialize_for_compaction (ce_show_json env)) (drop (fst rng) ms)
      = map (serialize_for_compaction (ce_show_json env)) (subrange rng ms) @ map (serialize_for_compaction (ce_show_json env)) (drop (snd rng) ms)"
    by simp
  then show ?thesis unfolding summarize_range_def
    using compact_async_prefix [of "map (serialize_for_compaction (ce_show_json env)) (subrange rng ms)" "ce_engine env"
        "map (serialize_for_compaction (ce_show_json env)) (drop (snd rng) ms)"] subrange_nonempty [OF assms] by simp
qed

lemma summarize_range_of: "\<lbrakk>fst rng < snd rng; snd rng \<le> length ms\<rbrakk> \<Longrightarrow> summary_of_messages env (subrange rng ms) (fst (summarize_range env ms rng n))"
  by (auto simp: summary_of_messages_def summarize_range_subrange)

lemma made_for_same:
  assumes "collision_free env" "made_for env key r" "prefix_fingerprint env ms (pk_range key) = pk_fingerprint key" "snd (pk_range key) \<le> length ms"
  shows "summary_of_messages env (subrange (pk_range key) ms) r" "fst (pk_range key) < snd (pk_range key)"
proof -
  obtain ms' n where m: "pk_fingerprint key = prefix_fingerprint env ms' (pk_range key)" "fst (pk_range key) < snd (pk_range key)"
      "snd (pk_range key) \<le> length ms'" "r = fst (summarize_range env ms' (pk_range key) n)"
    using assms(2) by (auto simp: made_for_def)
  have "subrange (pk_range key) ms = subrange (pk_range key) ms'"
    using assms(1,3,4) m(1-3) by (auto simp: prefix_fingerprint_def collision_free_def)
  then show "summary_of_messages env (subrange (pk_range key) ms) r" "fst (pk_range key) < snd (pk_range key)"
    using summarize_range_of [OF m(2,3)] m(2,4) by auto
qed

lemma summary_counts:
  assumes "summary_of_messages env xs r" "xs \<noteq> []"
  shows "cr_messages_compacted r = length xs" "cr_outcome r \<noteq> CoNoop"
  using assms by (auto simp: summary_of_messages_def compact_async_counts)

section \<open>No summary is blank\<close>

lemma str_trim_bracket: "str_trim (CHR ''['' # xs) \<noteq> []"
proof -
  have "dropWhile is_ws (rev xs @ [CHR ''['']) \<noteq> []" by (simp add: dropWhile_eq_Nil_conv is_ws_def)
  then show ?thesis by (simp add: str_trim_def trim_start_def trim_end_def is_ws_def)
qed

lemma str_join_starts: "xs \<noteq> [] \<Longrightarrow> hd xs = c # x \<Longrightarrow> \<exists>y. str_join sep xs = c # y"
  by (induction sep xs rule: str_join.induct) auto

lemma chunks_nonempty: "xs \<noteq> [] \<Longrightarrow> chunks (max 1 k) xs \<noteq> []"
  by (subst chunks.simps) (simp add: max_def)

lemma segments_grow:
  "fold (summarize_segment eg llm) cs (segs, f, stop, n) = (segs', f', stop', n') \<Longrightarrow> length segs' = length segs + length cs"
proof (induction cs arbitrary: segs f stop n)
  case (Cons c cs)
  obtain segs1 f1 stop1 n1 where one: "summarize_segment eg llm c (segs, f, stop, n) = (segs1, f1, stop1, n1)" by (metis prod_cases4)
  then have "length segs1 = Suc (length segs)"
    by (auto simp: summarize_segment_def split: if_splits prod.splits sum.splits)
  then show ?case using Cons.IH Cons.prems one by simp
qed simp

lemma segmented_nonblank:
  assumes "segmented_summarize eg llm ms n = ((s, f), n')" "ms \<noteq> []"
  shows "str_trim s \<noteq> []"
proof -
  let ?cs = "chunks (max 1 (cc_segment_size (eg_config eg))) ms"
  obtain segs f1 stop n1 where run: "fold (summarize_segment eg llm) ?cs ([], None, False, n) = (segs, f1, stop, n1)" by (metis prod_cases4)
  then have s: "s = stitch segs" using assms(1) by (simp add: segmented_summarize_def)
  have "segs \<noteq> []" using segments_grow [OF run] chunks_nonempty [OF assms(2)] by auto
  then obtain x xs where "segs = x # xs" by (cases segs) auto
  then obtain y where "stitch segs = CHR ''['' # y"
    unfolding stitch_def using str_join_starts [of "map (\<lambda>(i, s). ''[Segment '' @ show_nat (i + 1) @ ''] '' @ s) (enumerate 0 segs)" "CHR ''[''"] by auto
  then show ?thesis using s str_trim_bracket by simp
qed

lemma call_nonblank: "call_with_retry eg llm p n = (Inr s, n') \<Longrightarrow> str_trim s \<noteq> []"
  by (auto simp: call_with_retry_def dest: retry_calls_nonblank)

lemma selective_nonblank:
  assumes "selective_retain eg llm ms n = ((s, None), n')" "ms \<noteq> []"
  shows "str_trim s \<noteq> []"
proof -
  let ?kept = "set (take ((3 * length ms + 9) div 10) (eg_ranking eg ms))"
  let ?rest = "map (\<lambda>i. ms ! i) (filter (\<lambda>i. i \<notin> ?kept) [0..<length ms])"
  let ?retained = "map (\<lambda>i. ''[Retained] '' @ ms ! i) (filter (\<lambda>i. i \<in> ?kept) [0..<length ms])"
  obtain c where c_def: "c = (if ?rest = [] then (([], None), n)
      else (case call_with_retry eg llm (build_summarize_prompt (eg_summary_prompt eg) ?rest) n of
         (Inr s, n') \<Rightarrow> ((s, None), n') | (Inl e, n') \<Rightarrow> ((truncate_fallback ?rest, Some e), n')))" by blast
  obtain summary f m where c: "c = ((summary, f), m)" by (metis prod.exhaust)
  let ?parts = "(if summary = [] then [] else [''[Summary of less important messages] '' @ summary]) @ ?retained"
  have s: "s = str_join [newline, newline] ?parts" "f = None"
    using assms(1) unfolding selective_retain_def Let_def c_def [symmetric] c by simp_all
  have "?parts \<noteq> []"
  proof (cases "?rest = []")
    case True
    then have "0 \<in> ?kept" using assms(2) by (simp add: filter_empty_conv)
    then have "0 \<in> set (filter (\<lambda>i. i \<in> ?kept) [0..<length ms])" using assms(2) by simp
    then have "?retained \<noteq> []" by force
    then show ?thesis by simp
  next
    case False
    then have "summary \<noteq> []" using c c_def s(2) by (auto split: prod.splits sum.splits dest: call_nonblank)
    then show ?thesis by simp
  qed
  moreover have "\<exists>x. p = CHR ''['' # x" if "p \<in> set ?parts" for p using that by (auto split: if_splits)
  ultimately obtain x where "hd ?parts = CHR ''['' # x" by (meson hd_in_set)
  then obtain y where "str_join [newline, newline] ?parts = CHR ''['' # y" using str_join_starts \<open>?parts \<noteq> []\<close> by blast
  then show ?thesis using s(1) str_trim_bracket by simp
qed

lemma summarized_nonblank:
  assumes "summary_of_messages env xs r" "xs \<noteq> []" "cr_outcome r = CoSummarized"
  shows "str_trim (cr_summary r) \<noteq> []"
proof -
  let ?eg = "ce_engine env" and ?ms = "map (serialize_for_compaction (ce_show_json env)) xs"
  obtain previous n where r: "r = fst (compact_async ?eg ?ms 0 previous n)" using assms(1) by (auto simp: summary_of_messages_def)
  have ms: "?ms \<noteq> []" using assms(2) by simp
  obtain llm where llm: "eg_llm ?eg = Some llm" using r assms(3) ms
    by (cases "eg_llm ?eg") (auto simp: compact_async_def)
  obtain a where a_def: "a = (case cc_strategy (eg_config ?eg) of CsSummarize \<Rightarrow> summarize_all ?eg llm ?ms previous n
      | CsSegmentedSummarize \<Rightarrow> segmented_summarize ?eg llm ?ms n | CsSelectiveRetain \<Rightarrow> selective_retain ?eg llm ?ms n)" by blast
  obtain s f n' where a: "a = ((s, f), n')" by (metis prod.exhaust)
  have r': "cr_summary r = s" "f = None" using r llm ms assms(3) a unfolding a_def
    by (auto simp: compact_async_def compacted_to_def split: option.splits)
  show ?thesis
  proof (cases "cc_strategy (eg_config ?eg)")
    case CsSummarize
    then show ?thesis using a r' unfolding a_def
      by (auto simp: summarize_all_def Let_def split: prod.splits sum.splits dest: call_nonblank)
  next
    case CsSegmentedSummarize
    then show ?thesis using a r' ms unfolding a_def by (auto dest: segmented_nonblank)
  next
    case CsSelectiveRetain
    then show ?thesis using a r' ms unfolding a_def by (auto dest: selective_nonblank)
  qed
qed

section \<open>What becomes of the conversation\<close>

definition replaced_by_summary :: "compaction_env \<Rightarrow> string \<Rightarrow> chat_msg list \<Rightarrow> chat_msg list \<Rightarrow> bool" where
  "replaced_by_summary env i ms ms' = (\<exists>rng r. fst rng < snd rng \<and> snd rng \<le> length ms \<and> summary_of_messages env (subrange rng ms) r
     \<and> cr_outcome r = CoSummarized \<and> ms' = replace_range ms rng (summary_message i ''compaction_summary'' (cr_summary r)))"

lemma replaced_by_summaryI:
  assumes "summary_of_messages env (subrange rng ms) r" "fst rng < snd rng" "snd rng \<le> length ms" "cr_outcome r = CoSummarized"
  shows "replaced_by_summary env i ms (replace_range ms rng (summary_message i ''compaction_summary'' (cr_summary r)))"
  using assms unfolding replaced_by_summary_def by blast

text \<open>The cases of an answer for the messages of the range.\<close>

lemma summary_cases:
  assumes "summary_of_messages env (subrange rng ms) r" "fst rng < snd rng" "snd rng \<le> length ms"
  obtains (failed) f where "cr_outcome r = CoFallback f"
  | (summarized) "cr_outcome r = CoSummarized" "cr_messages_compacted r = snd rng - fst rng" "cr_messages_compacted r \<noteq> 0"
      "cr_summary r \<noteq> []" "str_trim (cr_summary r) \<noteq> []"
proof (cases "cr_outcome r")
  case CoNoop
  then show ?thesis using summary_counts [OF assms(1) subrange_nonempty [OF assms(2,3)]] by simp
next
  case CoSummarized
  have "str_trim (cr_summary r) \<noteq> []" using summarized_nonblank [OF assms(1) subrange_nonempty [OF assms(2,3)] CoSummarized] .
  moreover from this have "cr_summary r \<noteq> []" by auto
  moreover have "cr_messages_compacted r = snd rng - fst rng"
    using summary_counts(1) [OF assms(1) subrange_nonempty [OF assms(2,3)]] subrange_length [OF assms(3)] by simp
  ultimately show ?thesis using summarized CoSummarized assms(2) by simp
next
  case (CoFallback f)
  then show ?thesis by (rule failed)
qed

lemma replace_transcript_cases:
  assumes "replace_transcript sa new st = (a, st')"
  obtains (written) "a = Inr ()" "st' = st\<lparr>os_transcript := new\<rparr>"
  | (kept) e where "a = Inl e" "sa_write_error sa = Some (0, e)" "st' = st"
  | (cut) k e where "a = Inl e" "sa_write_error sa = Some (Suc k, e)" "k < length new" "st' = st\<lparr>os_transcript := take k new\<rparr>"
  using assms by (auto simp: replace_transcript_def split: option.splits prod.splits nat.splits if_splits)

lemma apply_compaction_cases:
  assumes "apply_compaction env sa i now manual rng r f st = (a, st')"
    and "summary_of_messages env (subrange rng (os_transcript st)) r" "fst rng < snd rng" "snd rng \<le> length (os_transcript st)"
  obtains (failed) c where "a = Inl (fallback_message c)" "cr_outcome r = CoFallback c" "os_transcript st' = os_transcript st"
      "os_asked st' = os_asked st" "os_entry st' = os_entry st \<or> (\<exists>key c. os_entry st' = Some (record_failure key c now))"
  | (written) rp where "a = Inr rp" "rp_triggered rp" "replaced_by_summary env i (os_transcript st) (os_transcript st')" "os_entry st' = None"
  | (kept) e where "a = Inl e" "sa_write_error sa = Some (0, e)" "st' = st"
  | (cut) k e new where "a = Inl e" "sa_write_error sa = Some (Suc k, e)" "replaced_by_summary env i (os_transcript st) new" "k < length new"
      "st' = st\<lparr>os_transcript := take k new\<rparr>"
proof (rule summary_cases [OF assms(2-4)])
  fix c assume "cr_outcome r = CoFallback c"
  then show thesis using assms(1) by (intro failed [of c]) (fastforce simp: apply_compaction_def split: option.splits if_splits)+
next
  assume s: "cr_outcome r = CoSummarized" "cr_messages_compacted r = snd rng - fst rng" "cr_messages_compacted r \<noteq> 0" "cr_summary r \<noteq> []"
  let ?new = "replace_range (os_transcript st) rng (summary_message i ''compaction_summary'' (cr_summary r))"
  have new: "replaced_by_summary env i (os_transcript st) ?new" by (rule replaced_by_summaryI [OF assms(2-4) s(1)])
  obtain b st1 where b: "replace_transcript sa ?new st = (b, st1)" by fastforce
  have a: "(a, st') = (case b of Inl e \<Rightarrow> (Inl e, st1) | Inr _ \<Rightarrow> (Inr \<lparr>rp_triggered = True,
      rp_messages_compacted = cr_messages_compacted r, rp_summary = cr_summary r, rp_tokens_saved = cr_tokens_saved r\<rparr>, st1\<lparr>os_entry := None\<rparr>))"
    using assms(1) s b by (simp add: apply_compaction_def Let_def replace_range_def)
  show thesis using b
  proof (cases rule: replace_transcript_cases)
    case w: written
    then show ?thesis using a new by (intro written) auto
  next
    case (kept e)
    then show ?thesis using a that(3) by simp
  next
    case (cut k e)
    then show ?thesis using a new that(4) by simp
  qed
qed

section \<open>Runs of the service\<close>

inductive opt_run :: "compaction_env \<Rightarrow> opt_state \<Rightarrow> bool" for env where
  start: "opt_run env \<lparr>os_transcript = ms, os_entry = None, os_asked = n\<rparr>"
| edit: "opt_run env st \<Longrightarrow> opt_run env (st\<lparr>os_transcript := ms\<rparr>)"
| prefire: "opt_run env st \<Longrightarrow> opt_run env (snd (schedule_prefire_if_needed env sa now window st))"
| compact: "opt_run env st \<Longrightarrow> opt_run env (snd (run_compaction env sa i now later override st))"
| post_turn: "opt_run env st \<Longrightarrow> opt_run env (snd (run_compaction_if_needed env sa sa' i now later window st))"
| sampling: "opt_run env st \<Longrightarrow> opt_run env (snd (snd (optimize_working_history env v em i now later p h st)))"

lemma safe_bounds: "safe_compaction_range ms retain = Some rng \<Longrightarrow> fst rng < snd rng \<and> snd rng \<le> length ms"
proof -
  assume *: "safe_compaction_range ms retain = Some rng"
  let ?e = "length ms - retain"
  have "snd rng = (case List.find (crosses ms ?e) [0..<?e] of None \<Rightarrow> ?e | Some i \<Rightarrow> i)" "fst rng < snd rng"
    using * by (auto simp: safe_compaction_range_def Let_def split: if_splits)
  then show ?thesis using found_bound [where P = "crosses ms ?e" and n = ?e] by linarith
qed

lemma summarize_range_made_for:
  "\<lbrakk>safe_compaction_range ms retain = Some rng; summarize_range env ms rng n = (r, n')\<rbrakk>
    \<Longrightarrow> made_for env \<lparr>pk_fingerprint = prefix_fingerprint env ms rng, pk_range = rng\<rparr> r"
  unfolding made_for_def using safe_bounds by (metis fst_conv prefire_key.select_convs)

lemma apply_compaction_entry: "entry_ok env (os_entry st) \<Longrightarrow> entry_ok env (os_entry (snd (apply_compaction env sa i now manual rng r f st)))"
  by (auto simp: apply_compaction_def replace_transcript_def Let_def split: compaction_outcome.splits option.splits prod.splits nat.splits if_splits)

lemma run_compaction_entry: "entry_ok env (os_entry st) \<Longrightarrow> entry_ok env (os_entry (snd (run_compaction env sa i now later override st)))"
  unfolding run_compaction_def Let_def
  by (auto intro!: apply_compaction_entry dest: take_prefired_ok split: option.splits prod.splits prefire_consume.splits)

lemma run_handoff_entry: "entry_ok env (os_entry st) \<Longrightarrow> entry_ok env (os_entry (snd (run_handoff env hg sa i st)))"
  by (auto simp: run_handoff_def replace_transcript_def Let_def split: option.splits prod.splits sum.splits nat.splits if_splits)

lemma if_needed_cases:
  obtains "snd (run_compaction_if_needed env sa sa' i now later window st) = st"
  | "snd (run_compaction_if_needed env sa sa' i now later window st) = snd (run_compaction env sa' i now later None st)"
  | hg where "snd (run_compaction_if_needed env sa sa' i now later window st) = snd (run_handoff env hg sa i st)"
  | hg where "snd (run_compaction_if_needed env sa sa' i now later window st)
      = snd (run_compaction env sa' i now later None (snd (run_handoff env hg sa i st)))"
proof (cases "ce_handoff env")
  case None
  then have "snd (run_compaction_if_needed env sa sa' i now later window st) = st
      \<or> snd (run_compaction_if_needed env sa sa' i now later window st) = snd (run_compaction env sa' i now later None st)"
    by (auto simp: run_compaction_if_needed_def split: option.splits)
  then show thesis using that(1,2) by blast
next
  case (Some hg)
  obtain a st1 where h: "run_handoff env hg sa i st = (a, st1)" by fastforce
  have "snd (run_compaction_if_needed env sa sa' i now later window st) = st
      \<or> snd (run_compaction_if_needed env sa sa' i now later window st) = st1
      \<or> snd (run_compaction_if_needed env sa sa' i now later window st) = snd (run_compaction env sa' i now later None st1)"
    using Some h by (auto simp: run_compaction_if_needed_def split: option.splits sum.splits)
  then show thesis using that(1) that(3,4) [of hg] h by auto
qed

lemma if_needed_entry:
  assumes "entry_ok env (os_entry st)"
  shows "entry_ok env (os_entry (snd (run_compaction_if_needed env sa sa' i now later window st)))"
  by (rule if_needed_cases [of env sa sa' i now later window st])
    (simp_all add: assms run_compaction_entry run_handoff_entry)

lemma prefire_entry_ok:
  "entry_ok env (os_entry st) \<Longrightarrow> entry_ok env (os_entry (snd (schedule_prefire_if_needed env sa now window st)))"
  unfolding schedule_prefire_if_needed_def Let_def
  by (auto simp: schedule_prefire_def summarize_range_made_for split: option.splits prod.splits if_splits)

lemma sampling_entry:
  "entry_ok env (os_entry st) \<Longrightarrow> entry_ok env (os_entry (snd (snd (optimize_working_history env v em i now later p h st))))"
  unfolding optimize_working_history_def Let_def
  by (auto dest: take_prefired_ok split: option.splits prod.splits prefire_consume.splits compaction_outcome.splits)

lemma opt_run_entry: "opt_run env st \<Longrightarrow> entry_ok env (os_entry st)"
  by (induction rule: opt_run.induct)
    (simp_all add: prefire_entry_ok run_compaction_entry if_needed_entry sampling_entry)

text \<open>Why an operation gives up before there is an answer of the engine.\<close>

definition given_up :: "store_answers \<Rightarrow> string \<Rightarrow> bool" where
  "given_up sa e = (sa_read_error sa = Some e \<or> e = suppressed_message \<or> (\<exists>f :: llm_failure. e = ''prefired compaction failed: '' @ lf_message f))"

lemma run_compaction_cases:
  assumes "entry_ok env (os_entry st)" "collision_free env"
  obtains (idle) "run_compaction env sa i now later override st = (Inr empty_report, st)"
  | (stopped) e st' where "run_compaction env sa i now later override st = (Inl e, st')" "os_transcript st' = os_transcript st" "given_up sa e"
  | (answered) rng r f st0 where "run_compaction env sa i now later override st = apply_compaction env sa i later (override \<noteq> None) rng r f st0"
      "os_transcript st0 = os_transcript st" "summary_of_messages env (subrange rng (os_transcript st)) r"
      "fst rng < snd rng" "snd rng \<le> length (os_transcript st)"
proof -
  let ?ms = "os_transcript st" and ?run = "run_compaction env sa i now later override st"
  let ?retain = "case override of Some k \<Rightarrow> k | None \<Rightarrow> cc_retain_window (eg_config (ce_engine env))"
  consider (error) e where "sa_read_error sa = Some e" | (none) "sa_read_error sa = None" "safe_compaction_range ?ms ?retain = None"
    | (some) rng where "sa_read_error sa = None" "safe_compaction_range ?ms ?retain = Some rng" by fastforce
  then show thesis
  proof cases
    case error
    then show ?thesis by (intro stopped [of e st]) (simp_all add: run_compaction_def given_up_def)
  next
    case none
    then show ?thesis by (intro idle) (simp add: run_compaction_def Let_def)
  next
    case (some rng)
    note bounds = safe_bounds [OF some(2)]
    show ?thesis
    proof (cases "override = None \<and> is_suppressed (os_entry st) (prefix_fingerprint env ?ms rng) now")
      case True
      then show ?thesis using some by (intro stopped [of suppressed_message st]) (simp_all add: run_compaction_def Let_def given_up_def)
    next
      case False
      obtain c entry where c: "(if override \<noteq> None then (PcMiss, os_entry st) else take_prefired env ?ms now later (os_entry st)) = (c, entry)"
        by fastforce
      obtain r n where r: "summarize_range env ?ms rng (os_asked st) = (r, n)" by fastforce
      have at_once: thesis if "c = PcMiss \<or> c = PcStale"
        using some False c r that summarize_range_of [of rng ?ms env "os_asked st"] bounds
        by (intro answered [of rng r "prefix_fingerprint env ?ms rng" "st\<lparr>os_entry := entry, os_asked := n\<rparr>"])
          (auto simp: run_compaction_def Let_def)
      show ?thesis
      proof (cases c)
        case PcSuppressed
        then show ?thesis using some False c
          by (intro stopped [of suppressed_message "st\<lparr>os_entry := entry\<rparr>"]) (auto simp: run_compaction_def Let_def given_up_def)
      next
        case (PcFailed k e)
        then show ?thesis using some False c
          by (intro stopped [of "''prefired compaction failed: '' @ lf_message e" "st\<lparr>os_entry := entry\<rparr>"])
            (auto simp: run_compaction_def Let_def given_up_def)
      next
        case (PcReady key r)
        then have t: "take_prefired env ?ms now later (os_entry st) = (PcReady key r, entry)" using c by (simp split: if_splits)
        note ready = take_prefired_ready [OF assms(1) t]
        show ?thesis using some False c PcReady made_for_same [OF assms(2) ready(1-3)] ready(3)
          by (intro answered [of "pk_range key" r "pk_fingerprint key" "st\<lparr>os_entry := entry\<rparr>"]) (auto simp: run_compaction_def Let_def)
      qed (use at_once in auto)
    qed
  qed
qed

lemma apply_summary_applied:
  assumes "apply_summary i p rng r h = (Inr OpApplied, h')" "summary_of_messages env (subrange rng (drop p h)) r" "p \<le> length h"
    and "fst rng < snd rng" "snd rng \<le> length (drop p h)" "\<And>f. cr_outcome r \<noteq> CoFallback f"
  shows "take p h' = take p h \<and> replaced_by_summary env i (drop p h) (drop p h')"
proof -
  have h': "h' = take (p + fst rng) h @ summary_message i ''compaction_summary'' (cr_summary r) # drop (p + snd rng) h"
    using assms(1) by (auto simp: apply_summary_def replace_range_def split: if_splits)
  have "cr_outcome r = CoSummarized" using summary_cases [OF assms(2,4,5)] assms(6) by metis
  moreover have "p + fst rng \<le> length h" using assms(3-5) by simp
  then have "drop p h' = replace_range (drop p h) rng (summary_message i ''compaction_summary'' (cr_summary r))" "take p h' = take p h"
    unfolding h' replace_range_def by (simp_all add: drop_take min_def add.commute)
  ultimately show ?thesis using replaced_by_summaryI [OF assms(2,4,5)] by metis
qed

lemma sampling_applied:
  assumes "entry_ok env (os_entry st)" "collision_free env"
    and opt: "optimize_working_history env v em i now later p h st = (Inr OpApplied, h', st')" and "p \<le> length h"
  shows "take p h' = take p h \<and> replaced_by_summary env i (drop p h) (drop p h')"
proof -
  let ?ms = "drop p h" and ?retain = "if em then 2 else cc_retain_window (eg_config (ce_engine env))"
  have p: "min p (length h) = p" using assms(4) by simp
  obtain rng where rng: "safe_compaction_range ?ms ?retain = Some rng"
    and active: "\<not> (\<not> em \<and> (case v of PvCompact _ _ \<Rightarrow> False | _ \<Rightarrow> True))"
    using opt unfolding optimize_working_history_def Let_def p by (auto split: if_splits option.splits)
  note bounds = safe_bounds [OF rng]
  obtain c entry where c: "(if em then (PcMiss, os_entry st) else take_prefired env ?ms now later (os_entry st)) = (c, entry)" by fastforce
  obtain r n where r: "summarize_range env ?ms rng (os_asked st) = (r, n)" by fastforce
  note unfolded = opt [unfolded optimize_working_history_def Let_def p if_not_P [OF active] rng option.case c prod.case]
  show ?thesis
  proof (cases c)
    case (PcReady key r')
    then have t: "take_prefired env ?ms now later (os_entry st) = (PcReady key r', entry)" using c by (simp split: if_splits)
    note ready = take_prefired_ready [OF assms(1) t]
    have "apply_summary i p (pk_range key) r' h = (Inr OpApplied, h')" using unfolded PcReady by (auto split: prod.splits)
    then show ?thesis
      by (rule apply_summary_applied) (use made_for_same [OF assms(2) ready(1-3)] ready(3,5) assms(4) in auto)
  next
    case (PcFailed k e)
    then show ?thesis using unfolded by simp
  next
    case PcSuppressed
    then show ?thesis using unfolded by simp
  next
    case PcMiss
    have "apply_summary i p rng r h = (Inr OpApplied, h') \<and> (\<forall>f. cr_outcome r \<noteq> CoFallback f)"
      using unfolded PcMiss r by (auto split: prod.splits if_splits compaction_outcome.splits)
    then show ?thesis using apply_summary_applied summarize_range_of [of rng ?ms env "os_asked st"] bounds r assms(4) by (metis fst_conv)
  next
    case PcStale
    have "apply_summary i p rng r h = (Inr OpApplied, h') \<and> (\<forall>f. cr_outcome r \<noteq> CoFallback f)"
      using unfolded PcStale r by (auto split: prod.splits if_splits compaction_outcome.splits)
    then show ?thesis using apply_summary_applied summarize_range_of [of rng ?ms env "os_asked st"] bounds r assms(4) by (metis fst_conv)
  qed
qed

text \<open>C38: Whatever was summarised ahead of time and whatever happened to the conversation since, a
  compaction that succeeds, of the stored transcript or of a working history, puts one message in
  the place of a range of messages, and that message is the answer of the model to exactly these
  messages, which is never blank; if nothing is to be compacted the transcript stays.\<close>

theorem summaries_stand_for_what_they_replace:
  assumes "opt_run env st" "collision_free env"
  shows "(run_compaction env sa i now later override st = (Inr rp, st') \<longrightarrow>
      (if rp_triggered rp then replaced_by_summary env i (os_transcript st) (os_transcript st') else st' = st))
    \<and> (p \<le> length h \<and> optimize_working_history env v em i now later p h st = (Inr OpApplied, h', st') \<longrightarrow>
      take p h' = take p h \<and> replaced_by_summary env i (drop p h) (drop p h'))"
proof (intro conjI impI)
  note ok = opt_run_entry [OF assms(1)]
  assume run: "run_compaction env sa i now later override st = (Inr rp, st')"
  show "if rp_triggered rp then replaced_by_summary env i (os_transcript st) (os_transcript st') else st' = st"
  proof (rule run_compaction_cases [OF ok assms(2), of sa i now later override])
    assume "run_compaction env sa i now later override st = (Inr empty_report, st)"
    then show ?thesis using run by (simp add: empty_report_def)
  next
    fix rng r f st0
    assume a: "run_compaction env sa i now later override st = apply_compaction env sa i later (override \<noteq> None) rng r f st0"
      "os_transcript st0 = os_transcript st" "summary_of_messages env (subrange rng (os_transcript st)) r"
      "fst rng < snd rng" "snd rng \<le> length (os_transcript st)"
    have "apply_compaction env sa i later (override \<noteq> None) rng r f st0 = (Inr rp, st')" using run a(1) by simp
    then show ?thesis by (rule apply_compaction_cases) (use a in auto)
  qed (use run in simp)
next
  assume "p \<le> length h \<and> optimize_working_history env v em i now later p h st = (Inr OpApplied, h', st')"
  then show "take p h' = take p h" "replaced_by_summary env i (drop p h) (drop p h')"
    using sampling_applied [OF opt_run_entry [OF assms(1)] assms(2)] by blast+
qed

text \<open>C39: A compaction that fails leaves the transcript as it was, unless a write failed after the old
  transcript was cut off: then only the first messages of the new one are there.\<close>

theorem only_failed_writes_lose_messages:
  assumes "opt_run env st" "collision_free env" "run_compaction env sa i now later override st = (Inl e, st')"
  shows "os_transcript st' = os_transcript st \<and> (given_up sa e \<or> sa_write_error sa = Some (0, e)
      \<or> (\<exists>rng r f. summary_of_messages env (subrange rng (os_transcript st)) r \<and> cr_outcome r = CoFallback f \<and> e = fallback_message f))
    \<or> (\<exists>k new. sa_write_error sa = Some (Suc k, e) \<and> k < length new \<and> replaced_by_summary env i (os_transcript st) new
        \<and> os_transcript st' = take k new)"
proof (rule run_compaction_cases [OF opt_run_entry [OF assms(1)] assms(2), of sa i now later override])
  fix rng r f st0
  assume a: "run_compaction env sa i now later override st = apply_compaction env sa i later (override \<noteq> None) rng r f st0"
    "os_transcript st0 = os_transcript st" "summary_of_messages env (subrange rng (os_transcript st)) r"
    "fst rng < snd rng" "snd rng \<le> length (os_transcript st)"
  have "apply_compaction env sa i later (override \<noteq> None) rng r f st0 = (Inl e, st')" using assms(3) a(1) by simp
  then show ?thesis by (rule apply_compaction_cases) (use a in fastforce)+
qed (use assms(3) in auto)

section \<open>Deterministic failures\<close>

definition failed_for :: "compaction_env \<Rightarrow> opt_state \<Rightarrow> bool" where
  "failed_for env st = (case os_entry st of
     Some (PeFailure key FcDeterministic _) \<Rightarrow> fst (pk_range key) \<le> snd (pk_range key) \<and> snd (pk_range key) \<le> length (os_transcript st)
       \<and> pk_fingerprint key = prefix_fingerprint env (os_transcript st) (pk_range key)
   | _ \<Rightarrow> False)"

text \<open>What happens without the user: messages are added, and summaries are made ahead or at once, of the
  transcript or of a working history that begins with it.\<close>

inductive unattended :: "compaction_env \<Rightarrow> opt_state \<Rightarrow> opt_state \<Rightarrow> bool" for env where
  stay: "unattended env st st"
| append: "unattended env st st' \<Longrightarrow> unattended env st (st'\<lparr>os_transcript := os_transcript st' @ ms\<rparr>)"
| prefire: "unattended env st st' \<Longrightarrow> unattended env st (snd (schedule_prefire_if_needed env sa now window st'))"
| compact: "unattended env st st' \<Longrightarrow> unattended env st (snd (run_compaction env sa i now later None st'))"
| sampling: "\<lbrakk>unattended env st st'; p \<le> length h; drop p h = os_transcript st' @ ms\<rbrakk>
    \<Longrightarrow> unattended env st (snd (snd (optimize_working_history env v False i now later p h st')))"

lemma fingerprint_append: "\<lbrakk>fst rng \<le> snd rng; snd rng \<le> length ms\<rbrakk> \<Longrightarrow> prefix_fingerprint env (ms @ added) rng = prefix_fingerprint env ms rng"
  by (simp add: prefix_fingerprint_def subrange_def)

lemma take_prefired_failed:
  assumes "failed_for env st"
  shows "take_prefired env (os_transcript st @ added) now later (os_entry st) = (PcSuppressed, os_entry st)"
  using assms by (auto simp: failed_for_def take_prefired_def consume_prefire_def pending_key_def in_force_def fingerprint_append
      split: option.splits prefire_entry.splits failure_class.splits)

lemma run_compaction_failed: "failed_for env st \<Longrightarrow> snd (run_compaction env sa i now later None st) = st"
  using take_prefired_failed [of env st "[]"]
  by (auto simp: run_compaction_def Let_def split: option.splits)

lemma schedule_failed: "failed_for env st \<Longrightarrow> snd (schedule_prefire_if_needed env sa now window st) = st"
  by (auto simp: failed_for_def schedule_prefire_if_needed_def pending_key_def split: option.splits prefire_entry.splits failure_class.splits)

lemma sampling_failed:
  assumes "failed_for env st" "p \<le> length h" "drop p h = os_transcript st @ ms"
  shows "snd (snd (optimize_working_history env v False i now later p h st)) = st"
  using assms take_prefired_failed [of env st ms]
  by (auto simp: optimize_working_history_def Let_def min_def split: option.splits)

lemma append_failed: "failed_for env st \<Longrightarrow> failed_for env (st\<lparr>os_transcript := os_transcript st @ ms\<rparr>)"
  by (auto simp: failed_for_def fingerprint_append split: option.splits prefire_entry.splits failure_class.splits)


section \<open>Examples\<close>

text \<open>A digest without collisions numbers the lists of messages.\<close>

instance word :: (len) countable
  by (rule countable_classI [of unat]) (simp add: word_unat_eq_iff)

instance json_number :: countable by countable_datatype
instance json :: countable by countable_datatype
instance role :: countable by countable_datatype

instance tool_call_ext :: (countable) countable
  by (rule countable_classI [of "\<lambda>t. to_nat (tc_id t, tc_name t, tc_arguments t, tool_call.more t)"]) simp

instance chat_msg_ext :: (countable) countable
  by (rule countable_classI [of "\<lambda>t. to_nat (cm_id t, cm_role t, cm_content t, cm_call_id t, cm_calls t, cm_metadata t, chat_msg.more t)"]) simp

definition number_digest :: "nat \<times> nat \<times> compaction_config \<times> chat_msg list \<Rightarrow> string" where
  "number_digest x = (case x of (s, e, c, ms) \<Rightarrow> replicate (to_nat ms) CHR ''0'')"

definition sample_env :: "summarizer \<Rightarrow> compaction_env" where
  "sample_env llm = \<lparr>ce_engine = \<lparr>eg_config = default_compaction\<lparr>cc_retain_window := 2\<rparr>, eg_llm = Some llm, eg_summary_prompt = ''Summarize:'',
     eg_update_prompt = ''Update:'', eg_segment_prompt = ''Segment:'', eg_ranking = \<lambda>ms. [0..<length ms]\<rparr>,
     ce_hash = number_digest, ce_show_json = \<lambda>v. ''null'', ce_threshold_pct = 80, ce_prefire_pct = 60, ce_handoff = None\<rparr>"

definition reliable :: store_answers where
  "reliable = \<lparr>sa_read_error = None, sa_write_error = None, sa_active = None, sa_task_dies = False\<rparr>"

definition read_both :: summarizer where "read_both n prompt = Inr ''It read one.''"

definition reading_state :: opt_state where
  "reading_state = \<lparr>os_transcript = reading, os_entry = None, os_asked = 0\<rparr>"

lemma sample_collision_free: "collision_free (sample_env llm)"
  by (auto simp: collision_free_def sample_env_def number_digest_def dest: arg_cong [where f = length])

lemma reading_range: "safe_compaction_range reading 2 = Some (1, 4)" by code_simp

lemma read_one_trimmed: "str_trim ''It read one.'' = ''It read one.''" by code_simp

definition read_one_result :: compaction_result where
  "read_one_result = compacted_to (map (serialize_for_compaction (\<lambda>v. ''null'')) (subrange (1, 4) reading)) ''It read one.'' CoSummarized"

lemma reading_summary: "summarize_range (sample_env read_both) reading (1, 4) n = (read_one_result, Suc n)"
proof -
  have "length reading = 7" "subrange (1, 4) reading \<noteq> []" by (simp_all add: reading_def subrange_def)
  then show ?thesis
    by (simp add: read_one_result_def summarize_range_subrange compact_async_def summarize_all_def call_with_retry_def
        sample_env_def default_compaction_def read_both_def read_one_trimmed max_def numeral_3_eq_3 split: option.splits del: One_nat_def)
qed

lemma read_one_result: "cr_outcome read_one_result = CoSummarized" "cr_summary read_one_result = ''It read one.''"
  "cr_messages_compacted read_one_result = 3"
  by (simp_all add: read_one_result_def compacted_to_def subrange_def reading_def)

text \<open>A summary is made ahead, a message is added, and then the summary is taken.\<close>

definition reading_key :: prefire_key where
  "reading_key = \<lparr>pk_fingerprint = prefix_fingerprint (sample_env read_both) reading (1, 4), pk_range = (1, 4)\<rparr>"

lemma reading_tokens: "transcript_tokens reading = 9"
  by (simp add: transcript_tokens_def reading_def text_msg_def call_msg_def result_msg_def estimate_chars_def div_ceil_def)

lemma reading_prefired: "schedule_prefire_if_needed (sample_env read_both) reliable 0 13 reading_state
    = (Inr (), \<lparr>os_transcript = reading, os_entry = Some (PeRunning reading_key (Some read_one_result)), os_asked = 1\<rparr>)"
proof -
  have pct: "ce_threshold_pct (sample_env read_both) = 80" "ce_prefire_pct (sample_env read_both) = 60"
    "cc_retain_window (eg_config (ce_engine (sample_env read_both))) = 2" by (simp_all add: sample_env_def)
  show ?thesis
    by (simp add: schedule_prefire_if_needed_def reading_state_def reliable_def pending_key_def reading_tokens pct threshold_tokens_def
        reading_range is_suppressed_def reading_summary schedule_prefire_def reading_key_def Let_def del: One_nat_def)
qed

definition reading_on :: "chat_msg list" where
  "reading_on = reading @ [text_msg ''v'' RoleUser ''Thanks.'']"

lemma reading_on_range: "safe_compaction_range reading_on 2 = Some (1, 6)" by code_simp

lemma reading_on_run: "run_compaction (sample_env read_both) reliable ''m'' 0 0 None
      \<lparr>os_transcript = reading_on, os_entry = Some (PeRunning reading_key (Some read_one_result)), os_asked = 1\<rparr>
    = (Inr \<lparr>rp_triggered = True, rp_messages_compacted = 3, rp_summary = ''It read one.'', rp_tokens_saved = cr_tokens_saved read_one_result\<rparr>,
       \<lparr>os_transcript = reading_on ! 0 # summary_message ''m'' ''compaction_summary'' ''It read one.'' # drop 4 reading_on, os_entry = None, os_asked = 1\<rparr>)"
proof -
  have len: "length reading = 7" by (simp add: reading_def)
  have key: "pk_range reading_key = (1, 4)" "pk_fingerprint reading_key = prefix_fingerprint (sample_env read_both) reading_on (1, 4)"
    using fingerprint_append [of "(1, 4)" reading "sample_env read_both"]
    by (simp_all add: reading_key_def reading_on_def len del: One_nat_def)
  have "cc_retain_window (eg_config (ce_engine (sample_env read_both))) = 2" "4 \<le> length reading_on" "take 1 reading_on = [reading_on ! 0]"
    by (simp_all add: sample_env_def reading_on_def reading_def)
  then show ?thesis
    by (simp add: run_compaction_def reliable_def reading_on_range is_suppressed_def take_prefired_def pending_key_def consume_prefire_def key
        read_one_result apply_compaction_def replace_transcript_def Let_def del: One_nat_def)
qed

lemma summaries_stand_for_what_they_replace_witness:
  "replaced_by_summary (sample_env read_both) ''m'' reading_on (reading_on ! 0 # summary_message ''m'' ''compaction_summary'' ''It read one.'' # drop 4 reading_on)"
proof -
  have "opt_run (sample_env read_both) (snd (schedule_prefire_if_needed (sample_env read_both) reliable 0 13 reading_state))"
    unfolding reading_state_def by (intro opt_run.prefire opt_run.start)
  then have "opt_run (sample_env read_both) \<lparr>os_transcript = reading_on, os_entry = Some (PeRunning reading_key (Some read_one_result)), os_asked = 1\<rparr>"
    using opt_run.edit [of _ _ reading_on] by (fastforce simp: reading_prefired)
  from summaries_stand_for_what_they_replace [OF this sample_collision_free, THEN conjunct1, rule_format, OF reading_on_run]
  show ?thesis by simp
qed

text \<open>The store fails after two messages.\<close>

definition failing :: store_answers where
  "failing = reliable\<lparr>sa_write_error := Some (Suc 1, ''disk full'')\<rparr>"

lemma reading_run_failing: "run_compaction (sample_env read_both) failing ''m'' 0 0 None reading_state
    = (Inl ''disk full'', \<lparr>os_transcript = [reading ! 0], os_entry = None, os_asked = 1\<rparr>)"
proof -
  have "cc_retain_window (eg_config (ce_engine (sample_env read_both))) = 2" "take 1 reading = [reading ! 0]" "reading \<noteq> []"
    by (simp_all add: sample_env_def reading_def)
  moreover have "take 1 (x # xs) = [x]" for x :: chat_msg and xs by simp
  ultimately show ?thesis
    by (simp add: run_compaction_def failing_def reliable_def reading_state_def reading_range is_suppressed_def take_prefired_def pending_key_def
        reading_summary read_one_result apply_compaction_def replace_transcript_def Let_def del: One_nat_def)
qed

lemma only_failed_writes_lose_messages_witness:
  "\<exists>new. replaced_by_summary (sample_env read_both) ''m'' reading new \<and> 1 < length new \<and> [reading ! 0] = take 1 new"
proof -
  have "opt_run (sample_env read_both) reading_state" unfolding reading_state_def by (rule opt_run.start)
  from only_failed_writes_lose_messages [OF this sample_collision_free reading_run_failing]
  show ?thesis by (auto simp: reading_state_def reading_def failing_def)
qed

text \<open>An agent that is not there at first, and is when it is asked again.\<close>

definition agent_missing :: summarizer where
  "agent_missing n prompt = (if n = 0 then Inl (deterministic ''compaction agent not found: compaction-summarizer'') else Inr ''It read one.'')"

definition missing_key :: prefire_key where
  "missing_key = \<lparr>pk_fingerprint = prefix_fingerprint (sample_env agent_missing) reading (1, 4), pk_range = (1, 4)\<rparr>"

lemma reading_run_missing: "run_compaction (sample_env agent_missing) reliable ''m'' 0 0 None reading_state
    = (Inl ''compaction agent not found: compaction-summarizer'',
       \<lparr>os_transcript = reading, os_entry = Some (PeFailure missing_key FcDeterministic 30000), os_asked = 1\<rparr>)"
proof -
  have "cc_retain_window (eg_config (ce_engine (sample_env agent_missing))) = 2" by (simp add: sample_env_def)
  moreover have "length reading = 7" "subrange (1, 4) reading \<noteq> []" by (simp_all add: reading_def subrange_def)
  then have "\<exists>r. summarize_range (sample_env agent_missing) reading (1, 4) 0 = (r, 1)
      \<and> cr_outcome r = CoFallback (Some (deterministic ''compaction agent not found: compaction-summarizer''))"
    by (simp add: summarize_range_subrange compact_async_def summarize_all_def call_with_retry_def sample_env_def default_compaction_def
        agent_missing_def deterministic_def compacted_to_def max_def numeral_3_eq_3 Let_def split: option.splits)
  ultimately show ?thesis
    by (auto simp: run_compaction_def reliable_def reading_state_def reading_range is_suppressed_def take_prefired_def pending_key_def
        apply_compaction_def Let_def fallback_message_def deterministic_def record_failure_def failure_backoff_def missing_key_def simp del: One_nat_def)
qed


end
