(* ===== verification/Spec2Isabelle.thy ===== *)
theory Spec2Isabelle
  imports Prelude PermTypes ExecPolicy ExecParser ExecPolicyCorrect PermPipeline
    PermPipelineCorrect ShellTokens RuleStore RuleStoreCorrect LoopGuard RiskScore
    MiddlewareChain Guards Taint Dag Channels Workflow WorkflowCorrect WorkflowDsl WorkflowDslCorrect
    ProviderHealth ProviderPool ProviderPoolCorrect
    Sessions SessionManager SessionSteps SessionTree ChatTurns ChatRollback
    PoolProgress FileHistory FileHistoryCorrect Journal
    Json Scheduler SchedulerRun SchedulerCorrect SchedulerService SchedulerServiceCorrect
    Coordination DurableLog DynamicAgents DynamicAgentService DynamicAgentsCorrect AgentStoreCorrect
    Conversation ConversationCorrect Compaction CompactionService CompactionCorrect
begin

text \<open>
  Verification library for y-agent, an agent framework in Rust (\<open>src/crates\<close>).

  \<^bold>\<open>The program.\<close>  A user talks to sessions; a session runs agents; an agent asks a language model
  through the provider pool and calls tools.  Before a tool runs, the tool chain of
  middlewares asks the guardrails: the permission pipeline with the stored rules and the exec
  policy for shell commands, the risk scorer, the loop guard and the taint tracker.  Longer jobs
  are workflows: graphs of tasks that an executor runs in rounds, with checkpoints and
  interrupts.  A scheduler dispatches workflows at set times.  The modelled crates are \<open>y-core\<close>, \<open>y-guardrails\<close>, \<open>y-hooks\<close>, the
  orchestrator of \<open>y-agent\<close>, the pool of \<open>y-provider\<close>, \<open>y-session\<close> with its stores, \<open>y-journal\<close>,
  \<open>y-scheduler\<close> with its service and store, and the dynamic agents of \<open>y-agent\<close>.

  \<^bold>\<open>Conventions.\<close>  A struct is a \<open>record\<close>, an enum a \<open>datatype\<close>; \<open>Result<T, E>\<close> is
  \<open>'e + 't\<close> with the error on the left, and a panic is \<open>None\<close> of an option around it.
  Strings are lists of the characters below 256.  Hash maps are maps with, where their order is
  observable, a parameter for the order of iteration.  Clocks, random values, identifiers, the
  answers of providers, the outcomes of tasks and the contents of files are arguments.  Machine
  integers are words where they can wrap, and naturals where the code saturates or the value is
  bounded by memory.

  \<^bold>\<open>Theories.\<close>

  \<^item> \<open>Prelude\<close>: results, Rust's string operations, list lemmas, runs of operations and the generic
    interfaces.

  \<^item> Permissions.  \<open>PermTypes\<close> (\<open>y-core/src/permission_types.rs\<close>) has rules, targets and modes.
    \<open>ExecPolicy\<close> and \<open>ExecParser\<close> (\<open>y-guardrails/src/exec_policy\<close>) have the prefix rules of
    shell commands, their index, the loader of policy files and amendments; \<open>ExecPolicyCorrect\<close>
    states the index as a locale and shows that the strictest matching rule wins, that overlays
    tighten, and what an amendment changes.  \<open>PermPipeline\<close> (\<open>permission_pipeline.rs\<close>) has the
    stages of a decision; \<open>PermPipelineCorrect\<close> and \<open>ShellTokens\<close> show which denials no mode
    and no longer command escapes.  \<open>RuleStore\<close> (\<open>rule_store.rs\<close>) has the stored rules in
    memory, in the settings and in files; \<open>RuleStoreCorrect\<close> relates the three over all
    sequences of operations, with the settings format as a locale.

  \<^item> Guards.  \<open>LoopGuard\<close>, \<open>RiskScore\<close>, \<open>Taint\<close> and \<open>Guards\<close> (\<open>loop_guard.rs\<close>,
    \<open>risk.rs\<close> with single precision arithmetic, \<open>taint.rs\<close>, \<open>permission.rs\<close>,
    \<open>mode_manager.rs\<close>, \<open>hitl.rs\<close>, \<open>lib.rs\<close> and \<open>middleware/\<close>), and \<open>MiddlewareChain\<close>
    (\<open>y-hooks/src/chain.rs\<close>, \<open>chain_runner.rs\<close>), each with its theorems: a bounded history
    that behaves like an unbounded one, a risk table, flows of taint, a stable order of execution.

  \<^item> Workflows (\<open>y-agent/src/orchestrator\<close>).  \<open>Dag\<close> (\<open>dag.rs\<close>, \<open>failure.rs\<close>) has graphs and the
    topological sort; \<open>Channels\<close> (\<open>channel.rs\<close>, \<open>io_mapping.rs\<close>, \<open>artifact.rs\<close>) the data
    between tasks, with JSON values as a locale and an instance; \<open>Workflow\<close> (\<open>executor.rs\<close>,
    \<open>checkpoint.rs\<close>, \<open>task_executor.rs\<close>, \<open>interrupt.rs\<close>) the executor, and
    \<open>WorkflowCorrect\<close> termination, type safety, retries and recovery over a locale of round
    loops.  \<open>WorkflowDsl\<close> (\<open>expression_dsl.rs\<close>) has the language of workflow expressions, and
    \<open>WorkflowDslCorrect\<close> its grammar, printing and compilation.

  \<^item> Providers (\<open>y-provider/src\<close>).  \<open>ProviderHealth\<close> (\<open>error_classifier.rs\<close>, \<open>freeze.rs\<close>,
    \<open>health.rs\<close>, \<open>config.rs\<close>) has failures, freezes and retry delays; \<open>ProviderPool\<close>
    (\<open>router.rs\<close>, \<open>scheduler.rs\<close>, \<open>metrics.rs\<close>, \<open>pool.rs\<close>) routing and concurrent requests as a
    step relation; \<open>ProviderPoolCorrect\<close> the choice of the router, retries, the accounting of
    permits in every interleaving, and the metrics of streams; \<open>PoolProgress\<close> that every request
    can be served.

  \<^item> Sessions (\<open>y-session/src\<close>, \<open>y-storage/src\<close>, \<open>y-service/src/chat.rs\<close>).  \<open>Sessions\<close>
    (\<open>session_store.rs\<close>, \<open>state_machine.rs\<close>) has the session table and the state diagram over
    storage actions that may fail, \<open>SessionManager\<close> (\<open>manager.rs\<close>, \<open>tree.rs\<close>, \<open>checkpoint.rs\<close>,
    \<open>jsonl_message_store.rs\<close>, \<open>checkpoint_chat.rs\<close>) the manager, the transcripts and the chat
    checkpoints.  \<open>SessionSteps\<close> reduces every operation, whatever fails in it, to inserted,
    updated and deleted rows; \<open>SessionTree\<close> concludes that the tree stays a forest, that its
    queries follow the parent relation and that states follow the diagram.  \<open>ChatTurns\<close>
    (\<open>chat.rs\<close>, \<open>rewind.rs\<close>) has turns, resends and rewinds, and \<open>ChatRollback\<close> what undoing
    them restores.

  \<^item> Files (\<open>y-journal/src\<close>).  \<open>FileHistory\<close> (\<open>file_history.rs\<close>) has the backups and snapshots of
    a session over a disk whose calls may fail; \<open>FileHistoryCorrect\<close> what a rewind restores after
    any edits, snapshots and restarts, from an invariant about one followed snapshot, and the
    statistics in one pass.  \<open>Journal\<close> (\<open>storage.rs\<close>, \<open>middleware.rs\<close>, \<open>conflict.rs\<close>,
    \<open>rollback.rs\<close>) has the journal of operations and refines its rollback to a fold per file.

  \<^item> Schedules (\<open>y-scheduler/src\<close>, \<open>y-service/src/scheduler_service.rs\<close>,
    \<open>y-storage/src/schedule_store.rs\<close>).  \<open>Json\<close> has the values of JSON.  \<open>Scheduler\<close> has
    schedules, triggers, the recovery of missed ones, execution records, events and parameters;
    \<open>SchedulerRun\<close> the manager with its two loops, the bounded queue and the dispatches as a step
    relation.  \<open>SchedulerCorrect\<close> shows what backfill makes up for, when starting hangs, how
    often schedules are executed and what records say.  \<open>SchedulerService\<close> has the service and
    its tables, and \<open>SchedulerServiceCorrect\<close> relates schedules in memory to their rows over all
    sequences of operations and to what a restart loads.

  \<^item> Processes (\<open>y-storage/src/coordination.rs\<close>, \<open>y-service/src/instance_coordination.rs\<close>).
    \<open>Coordination\<close> has the leases of processes on shared services and their supervisors as a step
    relation, and shows that they exclude and succeed each other.

  \<^item> Agents of agents (\<open>y-agent/src/agent\<close>, \<open>y-service/src/dynamic_agent_service.rs\<close>).
    \<open>DurableLog\<close> has files of one record a line, whose last write may be cut short;
    \<open>DynamicAgents\<close> (\<open>dynamic_agent.rs\<close>, \<open>persistent_dynamic_store.rs\<close>) permissions, validation and
    the two stores; \<open>DynamicAgentService\<close> the tools, the registry, proposals and the service.
    \<open>DynamicAgentsCorrect\<close> shows that agents stay within the grants of their creators over all
    sequences of operations; \<open>AgentStoreCorrect\<close> what restarts, interrupted writes and
    deactivation do, and states what the tools rely on as a locale with both stores as instances.

  \<^item> Conversations (\<open>y-context/src/pruning\<close>, \<open>sampling.rs\<close>, \<open>y-service/src/agent_service/pruning.rs\<close>).
    \<open>Conversation\<close> has the messages, the estimates of tokens, the two pruners, the rolling
    summaries and the choice of the range to compact; \<open>ConversationCorrect\<close> shows which results are
    removed, blanked, merged and kept.
    \<open>Compaction\<close> has the engine that asks a model for summaries (\<open>compaction.rs\<close>), and
    \<open>CompactionService\<close> the registry of summaries made ahead (\<open>compaction_prefire.rs\<close>), handoffs and
    the service (\<open>context_optimization.rs\<close>); \<open>CompactionCorrect\<close> shows over all runs of the service
    that a summary stands for the messages it was made from, and what failures do.

  \<^bold>\<open>Termination, fuel and bounds.\<close>  The loop of the topological sort and the rounds of the
    executor are partial functions into an option, proved to give a value.  The parser of
    workflow expressions recurses over a fuel of one more than the number of tokens, which is
    proved to be enough.  Retry loops recurse on the attempts that are left.  Saturating
    operations and the range of instants are written out.

  \<^bold>\<open>Not modelled.\<close>  The assembly of requests from prompts, memory and skills, the tool
    registry, skills, agent pools and the event bus are left out for their size.  The back ends of the model services, runtimes, knowledge, diagnostics, prompts and
    the front ends are input and output, texts or presentation around the modelled parts.
    Wall clock time inside an operation, dropped futures outside the provider pool and memory
    exhaustion are outside the models.
\<close>

end
